(* ===== verification/Prelude.thy ===== *)
theory Prelude
  imports Main "HOL-Library.AList"
begin

text \<open>
  Shared vocabulary of the development: Python exceptions as values, Python dictionaries as
  insertion-ordered association lists, the string operations the code uses, the interface of a
  key-value map, and the interface of a transition system with an invariant.
\<close>

section \<open>Collections of facts\<close>

named_theorems dict_simps \<open>lookup after update on dictionaries and stores\<close>
named_theorems str_simps \<open>the Python string operations\<close>

section \<open>Exceptions and fallible results\<close>

text \<open>
  A Python function that may raise returns \<open>py_exc + 'a\<close>: \<open>Inl\<close> carries the exception,
  \<open>Inr\<close> the value. The constructors are the exception classes the modelled code raises or
  catches by name; \<open>Other_Error\<close> stands for any exception that no handler names.
\<close>

datatype py_exc =
    Value_Error string
  | Type_Error string
  | Key_Error string
  | Runtime_Error string
  | Timeout_Error string
  | Validation_Error string
  | HTTP_Error string
  | HTTP_Exception int string
  | Plugin_Validation_Error string
  | Incompatible_Version_Error string
  | Duplicate_Domain_Error string
  | Multiple_Results_Found
  | Integrity_Error
  | Other_Error string

type_synonym 'a py = "py_exc + 'a"

definition py_bind :: "'a py \<Rightarrow> ('a \<Rightarrow> 'b py) \<Rightarrow> 'b py" where
  "py_bind m f = (case m of Inl e \<Rightarrow> Inl e | Inr a \<Rightarrow> f a)"

text \<open>The first value of a list of fallible values, or the first exception raised.\<close>

fun py_sequence :: "'a py list \<Rightarrow> 'a list py" where
  "py_sequence [] = Inr []"
| "py_sequence (m # ms) =
     py_bind m (\<lambda>a. py_bind (py_sequence ms) (\<lambda>as. Inr (a # as)))"

text \<open>\<open>result.scalar_one_or_none()\<close>: more than one row raises.\<close>

definition scalar_one_or_none :: "'a list \<Rightarrow> 'a option py" where
  "scalar_one_or_none rows =
     (case rows of [] \<Rightarrow> Inr None | [r] \<Rightarrow> Inr (Some r) | _ \<Rightarrow> Inl Multiple_Results_Found)"

section \<open>Dictionaries\<close>

text \<open>
  A Python \<open>dict\<close> keeps insertion order and overwrites in place, which is what
  \<^const>\<open>AList.update\<close> does on an association list with distinct keys.
\<close>

type_synonym ('k, 'v) dict = "('k \<times> 'v) list"

abbreviation dict_set :: "'k \<Rightarrow> 'v \<Rightarrow> ('k, 'v) dict \<Rightarrow> ('k, 'v) dict" where
  "dict_set k v d \<equiv> AList.update k v d"

abbreviation dict_get :: "('k, 'v) dict \<Rightarrow> 'k \<Rightarrow> 'v option" where
  "dict_get d k \<equiv> map_of d k"

abbreviation dict_keys :: "('k, 'v) dict \<Rightarrow> 'k list" where
  "dict_keys d \<equiv> map fst d"

definition dict_get_or :: "('k, 'v) dict \<Rightarrow> 'k \<Rightarrow> 'v \<Rightarrow> 'v" where
  "dict_get_or d k v = (case dict_get d k of None \<Rightarrow> v | Some w \<Rightarrow> w)"

definition dict_wf :: "('k, 'v) dict \<Rightarrow> bool" where
  "dict_wf d \<longleftrightarrow> distinct (dict_keys d)"

section \<open>Strings\<close>

text \<open>
  Python text is modelled by \<^typ>\<open>string\<close>, one \<^typ>\<open>char\<close> per code point below 256
  (Latin-1); \<open>lower\<close>, \<open>strip\<close> and white space follow Python on that range, which
  contains the alphabet of every identifier, key and pattern in the code.
\<close>

definition char_code :: "char \<Rightarrow> int" where
  "char_code c = (of_char c :: int)"

definition char_lower :: "char \<Rightarrow> char" where
  "char_lower c =
     (if (65 \<le> char_code c \<and> char_code c \<le> 90) \<or>
         (192 \<le> char_code c \<and> char_code c \<le> 222 \<and> char_code c \<noteq> 215)
      then char_of (char_code c + 32) else c)"

definition str_lower :: "string \<Rightarrow> string" where
  "str_lower s = map char_lower s"

definition is_space :: "char \<Rightarrow> bool" where
  "is_space c \<longleftrightarrow> char_code c \<in> {9, 10, 11, 12, 13, 28, 29, 30, 31, 32, 133, 160}"

definition str_strip :: "string \<Rightarrow> string" where
  "str_strip s = rev (dropWhile is_space (rev (dropWhile is_space s)))"

fun starts_with :: "string \<Rightarrow> string \<Rightarrow> bool" where
  "starts_with s [] = True"
| "starts_with [] (p # ps) = False"
| "starts_with (c # cs) (p # ps) = (c = p \<and> starts_with cs ps)"

text \<open>\<open>sub in s\<close>: some suffix of \<open>s\<close> starts with \<open>sub\<close>.\<close>

fun str_contains :: "string \<Rightarrow> string \<Rightarrow> bool" where
  "str_contains [] sub = (sub = [])"
| "str_contains (c # cs) sub = (starts_with (c # cs) sub \<or> str_contains cs sub)"

fun str_join :: "string \<Rightarrow> string list \<Rightarrow> string" where
  "str_join sep [] = []"
| "str_join sep [x] = x"
| "str_join sep (x # y # ys) = x @ sep @ str_join sep (y # ys)"

text \<open>\<open>s.replace(old, new)\<close> for a non-empty \<open>old\<close>, left to right without overlap.\<close>

function str_replace :: "string \<Rightarrow> string \<Rightarrow> string \<Rightarrow> string" where
  "str_replace old new s =
     (case s of [] \<Rightarrow> []
      | c # cs \<Rightarrow> if old \<noteq> [] \<and> starts_with s old
                 then new @ str_replace old new (drop (length old) s)
                 else c # str_replace old new cs)"
  by pat_completeness auto
termination
  by (relation "measure (\<lambda>(old, new, s). length s)") auto

declare str_replace.simps [simp del]

text \<open>\<open>s.split(sep)\<close> for a one-character separator: always at least one part.\<close>

fun str_split_char :: "char \<Rightarrow> string \<Rightarrow> string list" where
  "str_split_char c [] = [[]]"
| "str_split_char c (x # xs) =
     (if x = c then [] # str_split_char c xs
      else (case str_split_char c xs of [] \<Rightarrow> [[x]] | p # ps \<Rightarrow> (x # p) # ps))"

text \<open>\<open>s.split()\<close>: the maximal runs of characters that are not white space.\<close>

function str_words :: "string \<Rightarrow> string list" where
  "str_words s =
     (case dropWhile is_space s of [] \<Rightarrow> []
      | c # cs \<Rightarrow> takeWhile (\<lambda>x. \<not> is_space x) (c # cs) #
                  str_words (dropWhile (\<lambda>x. \<not> is_space x) cs))"
  by pat_completeness auto
termination
proof (relation "measure length", goal_cases)
  case (2 s c cs)
  have "length (dropWhile (\<lambda>x. \<not> is_space x) cs) < length (c # cs)"
    by (simp add: length_dropWhile_le less_Suc_eq_le)
  also have "\<dots> \<le> length s" using length_dropWhile_le [of is_space s] 2 by simp
  finally show ?case by simp
qed simp

declare str_words.simps [simp del]

text \<open>Decimal rendering of integers, as \<open>str(n)\<close> and f-strings print them.\<close>

definition digit_char :: "int \<Rightarrow> char" where
  "digit_char d = char_of (48 + d)"

function pos_digits :: "int \<Rightarrow> string" where
  "pos_digits n =
     (if n < 10 then [digit_char n] else pos_digits (n div 10) @ [digit_char (n mod 10)])"
  by pat_completeness auto
termination
  by (relation "measure nat") auto

declare pos_digits.simps [simp del]

definition int_str :: "int \<Rightarrow> string" where
  "int_str i = (if i < 0 then CHR ''-'' # pos_digits (- i) else pos_digits i)"

section \<open>Order-preserving deduplication\<close>

text \<open>
  The idiom \<open>if x not in acc: acc.append(x)\<close> over a list of candidates.
\<close>

fun append_new :: "'a list \<Rightarrow> 'a list \<Rightarrow> 'a list" where
  "append_new acc [] = acc"
| "append_new acc (x # xs) = append_new (if x \<in> set acc then acc else acc @ [x]) xs"

section \<open>Lemmas on results and dictionaries\<close>

lemma py_bind_simps [simp]:
  "py_bind (Inl e) f = Inl e"
  "py_bind (Inr a) f = f a"
  by (simp_all add: py_bind_def)

lemma py_bind_Inr_iff:
  "py_bind m f = Inr b \<longleftrightarrow> (\<exists>a. m = Inr a \<and> f a = Inr b)"
  by (cases m) auto

lemma scalar_one_or_none_Some: "scalar_one_or_none rows = Inr (Some r) \<longleftrightarrow> rows = [r]"
  by (auto simp: scalar_one_or_none_def split: list.splits)

lemma scalar_one_or_none_None: "scalar_one_or_none rows = Inr None \<longleftrightarrow> rows = []"
  by (auto simp: scalar_one_or_none_def split: list.splits)

text \<open>Rows of a table with a unique column: a query on the column never raises.\<close>

lemma unique_column_rows:
  assumes "distinct (map f (filter P xs))"
  shows "filter (\<lambda>x. f x = n \<and> P x) xs = [] \<or> (\<exists>x. filter (\<lambda>x. f x = n \<and> P x) xs = [x])"
proof -
  have eq: "filter (\<lambda>x. f x = n \<and> P x) xs = filter (\<lambda>x. f x = n) (filter P xs)"
    by (simp add: conj_commute)
  have "distinct (map f ys) \<Longrightarrow> filter (\<lambda>x. f x = n) ys = [] \<or> (\<exists>x. filter (\<lambda>x. f x = n) ys = [x])" for ys
  proof (induction ys)
    case (Cons y ys)
    then have "f y = n \<Longrightarrow> \<forall>x\<in>set ys. f x \<noteq> n"
      by (metis distinct.simps(2) image_eqI list.set_map list.simps(9))
    then have "f y = n \<Longrightarrow> filter (\<lambda>x. f x = n) ys = []"
      by (simp add: filter_empty_conv)
    then show ?case using Cons by auto
  qed simp
  then show ?thesis using assms unfolding eq .
qed

lemma py_sequence_Inr_iff:
  "py_sequence ms = Inr as \<longleftrightarrow> ms = map Inr as"
  by (induction ms arbitrary: as) (auto simp: py_bind_Inr_iff)

lemma py_sequence_total:
  "(\<And>x. x \<in> set xs \<Longrightarrow> \<exists>y. f x = Inr y \<and> P x y) \<Longrightarrow>
     \<exists>ys. py_sequence (map f xs) = Inr ys \<and> list_all2 P xs ys"
proof (induction xs)
  case (Cons x xs)
  obtain y where "f x = Inr y" "P x y" using Cons.prems by auto
  moreover obtain ys where "py_sequence (map f xs) = Inr ys" "list_all2 P xs ys"
    using Cons.IH Cons.prems by auto
  ultimately show ?case by auto
qed simp

lemma dict_get_set [dict_simps]:
  "dict_get (dict_set k v d) j = (if j = k then Some v else dict_get d j)"
  by (simp add: update_conv')

lemma dict_get_or_set [dict_simps]:
  "dict_get_or (dict_set k v d) j w = (if j = k then v else dict_get_or d j w)"
  by (simp add: dict_get_or_def update_conv')

lemma dict_wf_Nil [simp]: "dict_wf []"
  by (simp add: dict_wf_def)

lemma dict_wf_set [simp]: "dict_wf d \<Longrightarrow> dict_wf (dict_set k v d)"
  by (simp add: dict_wf_def distinct_update)

lemma dict_keys_set: "dict_keys (dict_set k v d) =
    (if k \<in> set (dict_keys d) then dict_keys d else dict_keys d @ [k])"
  by (simp add: update_keys)

lemma dict_get_None_iff: "dict_get d k = None \<longleftrightarrow> k \<notin> set (dict_keys d)"
  by (simp add: map_of_eq_None_iff)

section \<open>Lemmas on strings\<close>

lemma starts_with_append [simp]: "starts_with (p @ s) p"
  by (induction p) auto

lemma starts_with_iff: "starts_with s p \<longleftrightarrow> (\<exists>t. s = p @ t)"
  by (induction s p rule: starts_with.induct) auto

lemma str_contains_iff: "str_contains s sub \<longleftrightarrow> (\<exists>a b. s = a @ sub @ b)"
proof (induction s)
  case Nil
  then show ?case by auto
next
  case (Cons c cs)
  show ?case
  proof
    assume "str_contains (c # cs) sub"
    then show "\<exists>a b. c # cs = a @ sub @ b"
    proof (cases "starts_with (c # cs) sub")
      case True
      then obtain t where "c # cs = [] @ sub @ t" by (auto simp: starts_with_iff)
      then show ?thesis by blast
    next
      case False
      with \<open>str_contains (c # cs) sub\<close> have "str_contains cs sub" by simp
      then obtain a b where "cs = a @ sub @ b" using Cons.IH by blast
      then have "c # cs = (c # a) @ sub @ b" by simp
      then show ?thesis by blast
    qed
  next
    assume "\<exists>a b. c # cs = a @ sub @ b"
    then obtain a b where eq: "c # cs = a @ sub @ b" by blast
    show "str_contains (c # cs) sub"
    proof (cases a)
      case Nil
      then have "starts_with (c # cs) sub" using eq by simp
      then show ?thesis by simp
    next
      case (Cons x xs)
      then have "cs = xs @ sub @ b" using eq by simp
      then show ?thesis using Cons.IH by auto
    qed
  qed
qed

lemma str_lower_length [str_simps]: "length (str_lower s) = length s"
  by (simp add: str_lower_def)

lemma char_lower_idem [simp]: "char_lower (char_lower c) = char_lower c"
proof (cases "char_lower c = c")
  case False
  then have "(65 \<le> char_code c \<and> char_code c \<le> 90) \<or>
      (192 \<le> char_code c \<and> char_code c \<le> 222 \<and> char_code c \<noteq> 215)"
    and eq: "char_lower c = char_of (char_code c + 32)"
    by (auto simp: char_lower_def split: if_splits)
  then have "(97 \<le> char_code (char_lower c) \<and> char_code (char_lower c) \<le> 122) \<or>
      224 \<le> char_code (char_lower c)"
    by (auto simp: char_code_def)
  then show ?thesis by (auto simp: char_lower_def [of "char_lower c"])
qed simp

lemma str_lower_idem [str_simps]: "str_lower (str_lower s) = str_lower s"
  by (simp add: str_lower_def)

lemma find_Some_in: "List.find P xs = Some x \<Longrightarrow> x \<in> set xs \<and> P x"
  by (induction xs) (auto split: if_splits)

section \<open>Lemmas on deduplication\<close>

lemma set_append_new [simp]: "set (append_new acc xs) = set acc \<union> set xs"
  by (induction xs arbitrary: acc) auto

lemma distinct_append_new: "distinct acc \<Longrightarrow> distinct (append_new acc xs)"
  by (induction xs arbitrary: acc) auto

lemma append_new_Nil_iff: "append_new acc xs = [] \<longleftrightarrow> acc = [] \<and> xs = []"
proof -
  have "append_new acc xs = [] \<longleftrightarrow> set (append_new acc xs) = {}"
    by (metis set_empty)
  then show ?thesis by simp
qed

section \<open>Interface: a key-value map\<close>

text \<open>
  What a client of a dictionary, a registry or a key-value server relies on: reading back the
  last write of a key, and writes of one key leaving the others alone. \<open>inv\<close> is the
  well-formedness the provider keeps.
\<close>

locale kv_map =
  fixes lookup :: "'s \<Rightarrow> 'k \<Rightarrow> 'v option"
    and store :: "'k \<Rightarrow> 'v \<Rightarrow> 's \<Rightarrow> 's"
    and inv :: "'s \<Rightarrow> bool"
  assumes lookup_store: "inv s \<Longrightarrow> lookup (store k v s) j = (if j = k then Some v else lookup s j)"
    and inv_store: "inv s \<Longrightarrow> inv (store k v s)"
begin

lemma lookup_store_same: "inv s \<Longrightarrow> lookup (store k v s) k = Some v"
  by (simp add: lookup_store)

lemma lookup_store_other: "inv s \<Longrightarrow> j \<noteq> k \<Longrightarrow> lookup (store k v s) j = lookup s j"
  by (simp add: lookup_store)

lemma store_overwrites:
  "inv s \<Longrightarrow> lookup (store k v (store k w s)) = lookup (store k v s)"
  by (rule ext) (simp add: lookup_store inv_store)

lemma store_commutes:
  "inv s \<Longrightarrow> k \<noteq> j \<Longrightarrow> lookup (store k v (store j w s)) = lookup (store j w (store k v s))"
  by (rule ext) (auto simp: lookup_store inv_store)

lemma inv_fold_store: "inv s \<Longrightarrow> inv (fold (\<lambda>(k, v). store k v) kvs s)"
  by (induction kvs arbitrary: s) (auto simp: inv_store)

lemma lookup_fold_store:
  "inv s \<Longrightarrow> lookup (fold (\<lambda>(k, v). store k v) kvs s) j =
     (case map_of (rev kvs) j of None \<Rightarrow> lookup s j | Some v \<Rightarrow> Some v)"
proof (induction kvs arbitrary: s)
  case Nil
  then show ?case by simp
next
  case (Cons kv kvs)
  then show ?case
    by (cases kv) (auto simp: inv_store lookup_store map_add_def split: option.splits)
qed

end

interpretation dict: kv_map dict_get dict_set dict_wf
  by unfold_locales (simp_all add: dict_get_set)

section \<open>Interface: a transition system with an invariant\<close>

text \<open>
  Several components are state machines driven by operations whose order the environment
  chooses. \<open>step s t\<close> is one operation; an invariant that holds initially and is kept by
  every operation holds after every finite sequence of operations.
\<close>

inductive reaches :: "('s \<Rightarrow> 's \<Rightarrow> bool) \<Rightarrow> 's \<Rightarrow> 's \<Rightarrow> bool" for step where
  reaches_refl: "reaches step s s"
| reaches_step: "reaches step s t \<Longrightarrow> step t u \<Longrightarrow> reaches step s u"

lemma reaches_trans: "reaches step s t \<Longrightarrow> reaches step t u \<Longrightarrow> reaches step s u"
  by (rotate_tac, induction rule: reaches.induct) (auto intro: reaches.intros)

locale invariant_system =
  fixes step :: "'s \<Rightarrow> 's \<Rightarrow> bool"
    and inv :: "'s \<Rightarrow> bool"
  assumes step_inv: "inv s \<Longrightarrow> step s t \<Longrightarrow> inv t"
begin

lemma reaches_inv: "reaches step s t \<Longrightarrow> inv s \<Longrightarrow> inv t"
  by (induction rule: reaches.induct) (auto intro: step_inv)

end

text \<open>
  A system whose operations only ever move forward in a preorder: what the preorder preserves holds
  of every later state.
\<close>

locale ordered_system = invariant_system +
  fixes le :: "'a \<Rightarrow> 'a \<Rightarrow> bool"
  assumes le_refl: "le s s"
    and le_trans: "le s t \<Longrightarrow> le t u \<Longrightarrow> le s u"
    and step_le: "inv s \<Longrightarrow> step s t \<Longrightarrow> le s t"
begin

lemma reaches_le: "reaches step s t \<Longrightarrow> inv s \<Longrightarrow> le s t"
proof (induction rule: reaches.induct)
  case (reaches_refl s)
  then show ?case by (simp add: le_refl)
next
  case (reaches_step s t u)
  then show ?case using le_trans step_le reaches_inv by blast
qed

end

end
