(* ===== verification/Float64.thy ===== *)
theory Float64
  imports Prelude Complex_Main "HOL-Library.Log_Nat"
begin

text \<open>
  Python \<open>float\<close> arithmetic. A float is the rational number it denotes; each operation is
  the exact result rounded to 53 significant bits, ties to even (IEEE 754 binary64). Decimal
  literals are rounded the same way. Overflow to infinity, NaN, the sign of zero and the
  subnormal range are outside the model: the quantities of the modelled code are confidences,
  rates, seconds and counts. The interface \<open>rounding\<close> collects what the clients use of the
  rounding function; binary64 is its interpretation.
\<close>

section \<open>Rounding to nearest, ties to even\<close>

definition round_half_even :: "rat \<Rightarrow> int" where
  "round_half_even x =
     (let f = \<lfloor>x\<rfloor>; r = x - of_int f
      in if r < 1/2 then f else if r > 1/2 then f + 1 else if even f then f else f + 1)"

text \<open>The binary exponent of a positive rational: \<open>2 ^ e \<le> x < 2 ^ (e + 1)\<close>.\<close>

definition bin_exp :: "rat \<Rightarrow> int" where
  "bin_exp x = (case quotient_of x of (n, d) \<Rightarrow>
     let k = bitlen n - bitlen d in if 2 powi k \<le> x then k else k - 1)"

definition fl64 :: "rat \<Rightarrow> rat" where
  "fl64 x = (if x = 0 then 0
     else let s = 2 powi (bin_exp \<bar>x\<bar> - 52) in of_int (round_half_even (x / s)) * s)"

section \<open>The arithmetic of the code\<close>

type_synonym flt = rat

definition fadd :: "flt \<Rightarrow> flt \<Rightarrow> flt" where "fadd a b = fl64 (a + b)"
definition fsub :: "flt \<Rightarrow> flt \<Rightarrow> flt" where "fsub a b = fl64 (a - b)"
definition fmul :: "flt \<Rightarrow> flt \<Rightarrow> flt" where "fmul a b = fl64 (a * b)"
definition fdiv :: "flt \<Rightarrow> flt \<Rightarrow> flt" where "fdiv a b = fl64 (a / b)"

text \<open>
  \<open>sum\<close> over floats is compensated summation (Neumaier) in the pinned interpreter: the
  running sum and the accumulated rounding error, added at the end when it is not zero.
\<close>

fun fsum_from :: "flt \<Rightarrow> flt \<Rightarrow> flt list \<Rightarrow> flt" where
  "fsum_from s c [] = (if c = 0 then s else fadd s c)"
| "fsum_from s c (x # xs) =
     (let t = fadd s x;
          e = (if \<bar>x\<bar> \<le> \<bar>s\<bar> then fadd (fsub s t) x else fadd (fsub x t) s)
      in fsum_from t (fadd c e) xs)"

fun fsum :: "flt list \<Rightarrow> flt" where
  "fsum [] = 0"
| "fsum (x # xs) = fsum_from x 0 xs"

text \<open>\<open>round(x, n)\<close>: the exact value rounded to \<open>n\<close> decimals, then to a float.\<close>

definition fround :: "nat \<Rightarrow> flt \<Rightarrow> flt" where
  "fround n x = fl64 (of_int (round_half_even (x * 10 ^ n)) / 10 ^ n)"

text \<open>\<open>max(lo, min(hi, x))\<close>.\<close>

definition fclamp :: "flt \<Rightarrow> flt \<Rightarrow> flt \<Rightarrow> flt" where
  "fclamp lo hi x = max lo (min hi x)"

section \<open>Rounding to an integer\<close>

lemma round_half_even_of_int [simp]: "round_half_even (of_int n) = n"
  by (simp add: round_half_even_def)

lemma round_half_even_cases:
  "round_half_even x = \<lfloor>x\<rfloor> \<or> round_half_even x = \<lfloor>x\<rfloor> + 1"
  by (simp add: round_half_even_def Let_def)

lemma round_half_even_mono: "x \<le> y \<Longrightarrow> round_half_even x \<le> round_half_even y"
proof -
  assume le: "x \<le> y"
  show ?thesis
  proof (cases "\<lfloor>x\<rfloor> = \<lfloor>y\<rfloor>")
    case True
    with le show ?thesis by (auto simp: round_half_even_def Let_def)
  next
    case False
    with floor_mono [OF le] have "\<lfloor>x\<rfloor> + 1 \<le> \<lfloor>y\<rfloor>" by linarith
    then show ?thesis
      using round_half_even_cases [of x] round_half_even_cases [of y] by linarith
  qed
qed

lemma round_half_even_near: "\<bar>of_int (round_half_even x) - x\<bar> \<le> 1/2"
  using floor_correct [of x] by (auto simp: round_half_even_def Let_def abs_le_iff)

lemma round_half_even_unique:
  assumes "\<bar>of_int n - x\<bar> < 1/2"
  shows "round_half_even x = n"
proof -
  have "\<bar>of_int (round_half_even x) - of_int n\<bar> < (1 :: rat)"
    using round_half_even_near [of x] assms by linarith
  then have "\<bar>round_half_even x - n\<bar> < 1"
    by (metis of_int_abs of_int_diff of_int_less_1_iff)
  then show ?thesis by linarith
qed

lemma round_half_even_minus: "round_half_even (- x) = - round_half_even x"
proof -
  define f where "f = \<lfloor>x\<rfloor>"
  define r where "r = x - of_int f"
  have x: "x = of_int f + r" and r: "0 \<le> r" "r < 1"
    using floor_correct [of x] by (auto simp: r_def f_def)
  show ?thesis
  proof (cases "r = 1/2")
    case True
    have m: "\<lfloor>- x\<rfloor> = - f - 1"
      using True x by (intro floor_unique) auto
    have "- x - of_int (- f - 1) = 1/2" "x - of_int f = 1/2"
      using True x by auto
    then have "round_half_even (- x) = (if even (- f - 1) then - f - 1 else - f)"
      "round_half_even x = (if even f then f else f + 1)"
      using m by (simp_all add: round_half_even_def Let_def flip: f_def)
    then show ?thesis by simp
  next
    case False
    have "\<bar>of_int (- round_half_even x) - (- x)\<bar> < 1/2"
      using False r by (auto simp: round_half_even_def Let_def abs_less_iff r_def simp flip: f_def)
    then show ?thesis by (rule round_half_even_unique)
  qed
qed

section \<open>The binary exponent\<close>

lemma bin_exp_correct:
  assumes "0 < x"
  shows "2 powi bin_exp x \<le> x" "x < 2 powi (bin_exp x + 1)"
proof -
  obtain n d where q: "quotient_of x = (n, d)" by fastforce
  then have d: "0 < d" and x: "x = of_int n / of_int d"
    using quotient_of_denom_pos quotient_of_div by auto
  with assms have n: "0 < n" by (simp add: zero_less_divide_iff)
  have pw: "(2 :: rat) powi k = of_int (2 ^ nat k)" if "0 \<le> k" for k
    using that by (simp add: power_int_def)
  define a b where "a = bitlen n" and "b = bitlen d"
  have a: "1 \<le> a" "1 \<le> b"
    using n d bitlen_nonneg [of n] bitlen_nonneg [of d] bitlen_eq_zero_iff [of n]
      bitlen_eq_zero_iff [of d] by (auto simp: a_def b_def)
  have bn: "2 ^ nat (a - 1) \<le> n" "n < 2 ^ nat a"
    using bitlen_bounds [OF n] by (auto simp: a_def)
  have bd: "2 ^ nat (b - 1) \<le> d" "d < 2 ^ nat b"
    using bitlen_bounds [OF d] by (auto simp: b_def)
  have rn: "(2 :: rat) powi (a - 1) \<le> of_int n" "of_int n < (2 :: rat) powi a"
    using bn a by (simp_all only: pw of_int_le_iff of_int_less_iff)
  have rd: "(2 :: rat) powi (b - 1) \<le> of_int d" "of_int d < (2 :: rat) powi b"
    using bd a by (simp_all only: pw of_int_le_iff of_int_less_iff)
  have up: "x < 2 powi (a - b + 1)"
  proof -
    have "of_int n < 2 powi (a - b + 1) * (2 :: rat) powi (b - 1)"
      using rn(2) by (simp flip: power_int_add)
    also have "\<dots> \<le> 2 powi (a - b + 1) * of_int d"
      using rd(1) by (intro mult_left_mono) auto
    finally show ?thesis using d by (simp add: x divide_less_eq)
  qed
  have lo: "2 powi (a - b - 1) < x"
  proof -
    have "2 powi (a - b - 1) * of_int d < 2 powi (a - b - 1) * (2 :: rat) powi b"
      using rd(2) by (intro mult_strict_left_mono) auto
    also have "\<dots> = 2 powi (a - 1)" by (simp flip: power_int_add)
    also have "\<dots> \<le> of_int n" by (rule rn(1))
    finally show ?thesis using d by (simp add: x less_divide_eq)
  qed
  show "2 powi bin_exp x \<le> x" "x < 2 powi (bin_exp x + 1)"
    using up lo by (auto simp: bin_exp_def q Let_def simp flip: a_def b_def)
qed


lemma bin_exp_unique:
  assumes "2 powi e \<le> x" "x < 2 powi (e + 1)"
  shows "bin_exp x = e"
proof -
  have pos: "0 < x" using assms(1) by (rule less_le_trans [rotated]) simp
  have lt: "a < b + 1" if "2 powi a \<le> x" "x < 2 powi (b + 1)" for a b :: int
  proof (rule ccontr)
    assume "\<not> a < b + 1"
    then have "(2 :: rat) powi (b + 1) \<le> 2 powi a"
      by (intro power_int_increasing) auto
    with that show False by linarith
  qed
  have "e < bin_exp x + 1" "bin_exp x < e + 1"
    using lt bin_exp_correct [OF pos] assms by blast+
  then show ?thesis by linarith
qed

lemma bin_exp_mono:
  assumes "0 < x" "x \<le> y"
  shows "bin_exp x \<le> bin_exp y"
proof (rule ccontr)
  assume "\<not> bin_exp x \<le> bin_exp y"
  then have "(2 :: rat) powi (bin_exp y + 1) \<le> 2 powi bin_exp x"
    by (intro power_int_increasing) auto
  moreover have "y < 2 powi (bin_exp y + 1)" "2 powi bin_exp x \<le> x"
    using assms by (auto intro: bin_exp_correct)
  ultimately show False using assms by linarith
qed

section \<open>Rounding to binary64\<close>

lemma fl64_zero [simp]: "fl64 0 = 0"
  by (simp add: fl64_def)

lemma fl64_minus: "fl64 (- x) = - fl64 x"
  by (simp add: fl64_def Let_def round_half_even_minus)

lemma pow2_shift: "(2 :: rat) powi (e + int k) = of_int (2 ^ k) * 2 powi e"
  by (simp add: power_int_add)

text \<open>A value whose scaled significand is within half a unit of \<open>m\<close> rounds to \<open>m * 2 ^ e\<close>.\<close>

lemma fl64_pos_eq:
  assumes "0 < x"
  shows "fl64 x = of_int (round_half_even (x / 2 powi (bin_exp x - 52))) * 2 powi (bin_exp x - 52)"
  using assms by (simp add: fl64_def Let_def)

lemma fl64_pos_bounds:
  assumes "0 < x"
  shows "2 powi bin_exp x \<le> fl64 x" "fl64 x \<le> 2 powi (bin_exp x + 1)"
proof -
  define s :: rat where "s = 2 powi (bin_exp x - 52)"
  have s: "0 < s" by (simp add: s_def)
  have lo: "2 powi bin_exp x = of_int (2 ^ 52) * s"
    and hi: "2 powi (bin_exp x + 1) = of_int (2 ^ 53) * s"
    using pow2_shift [of "bin_exp x - 52" 52] pow2_shift [of "bin_exp x - 52" 53]
    by (simp_all add: s_def add.commute)
  have "of_int (2 ^ 52) \<le> x / s" "x / s \<le> of_int (2 ^ 53)"
    using bin_exp_correct [OF assms] s
    by (simp_all add: lo hi le_divide_eq divide_le_eq)
  from this [THEN round_half_even_mono]
  have "2 ^ 52 \<le> round_half_even (x / s)" "round_half_even (x / s) \<le> 2 ^ 53"
    by (simp_all only: round_half_even_of_int)
  then have "(of_int (2 ^ 52) :: rat) \<le> of_int (round_half_even (x / s))"
    "of_int (round_half_even (x / s)) \<le> (of_int (2 ^ 53) :: rat)"
    by (simp_all only: of_int_le_iff)
  then show "2 powi bin_exp x \<le> fl64 x" "fl64 x \<le> 2 powi (bin_exp x + 1)"
    unfolding fl64_pos_eq [OF assms] lo hi s_def [symmetric]
    using s by (simp_all only: mult_le_cancel_right_pos)
qed

lemma fl64_pos: "0 < x \<Longrightarrow> 0 < fl64 x"
  by (rule less_le_trans [OF _ fl64_pos_bounds(1)]) simp_all

lemma fl64_mono_pos:
  assumes "0 < x" "x \<le> y"
  shows "fl64 x \<le> fl64 y"
proof (cases "bin_exp x = bin_exp y")
  case True
  define s :: rat where "s = 2 powi (bin_exp y - 52)"
  have s: "0 < s" by (simp add: s_def)
  then have "round_half_even (x / s) \<le> round_half_even (y / s)"
    using assms by (intro round_half_even_mono divide_right_mono) auto
  then show ?thesis
    using assms s by (simp add: fl64_pos_eq True flip: s_def)
next
  case False
  with bin_exp_mono [OF assms] have "bin_exp x + 1 \<le> bin_exp y" by linarith
  then have "(2 :: rat) powi (bin_exp x + 1) \<le> 2 powi bin_exp y"
    by (intro power_int_increasing) auto
  moreover have "fl64 x \<le> 2 powi (bin_exp x + 1)" "2 powi bin_exp y \<le> fl64 y"
    using assms by (auto intro: fl64_pos_bounds)
  ultimately show ?thesis by linarith
qed

lemma fl64_mono: "x \<le> y \<Longrightarrow> fl64 x \<le> fl64 y"
proof -
  assume le: "x \<le> y"
  have neg: "fl64 z < 0" if "z < 0" for z
    using fl64_pos [of "- z"] that by (simp add: fl64_minus)
  consider "0 < x" | "x = 0" | "x < 0" "0 \<le> y" | "y < 0" using le by linarith
  then show ?thesis
  proof cases
    case 1
    with le show ?thesis by (rule fl64_mono_pos [rotated])
  next
    case 2
    with le fl64_pos [of y] show ?thesis by (cases "y = 0") auto
  next
    case 3
    have "0 \<le> fl64 y" using 3 fl64_pos [of y] by (cases "y = 0") auto
    with neg [of x] 3 show ?thesis by linarith
  next
    case 4
    with fl64_mono_pos [of "- y" "- x"] le show ?thesis by (simp add: fl64_minus)
  qed
qed

lemma fl64_scaled_int:
  assumes "\<bar>m\<bar> \<le> 2 ^ 53"
  shows "fl64 (of_int m * 2 powi e) = of_int m * 2 powi e"
proof -
  have pos: "fl64 (of_int k * 2 powi e) = of_int k * 2 powi e" if k: "0 < k" "k \<le> 2 ^ 53" for k
  proof -
    define x :: rat where "x = of_int k * 2 powi e"
    have x: "0 < x" using k by (simp add: x_def)
    define j where "j = bin_exp x"
    have lower: "e \<le> j"
    proof -
      have "(2 :: rat) powi e \<le> x" using k by (simp add: x_def)
      then have "bin_exp (2 powi e) \<le> j" unfolding j_def by (intro bin_exp_mono) auto
      moreover have "bin_exp (2 powi e) = e"
        by (rule bin_exp_unique) (auto intro!: power_int_strict_increasing)
      ultimately show ?thesis by simp
    qed
    have upper: "j \<le> e + 53"
    proof -
      have "x \<le> of_int (2 ^ 53) * 2 powi e"
        unfolding x_def using k by (intro mult_right_mono) (simp_all only: of_int_le_iff, simp)
      then have "x \<le> 2 powi (e + 53)" using pow2_shift [of e 53] by simp
      moreover have "bin_exp (2 powi (e + 53)) = e + 53"
        by (rule bin_exp_unique) (auto intro!: power_int_strict_increasing)
      ultimately show ?thesis using bin_exp_mono [OF x, of "2 powi (e + 53)"] by (simp add: j_def)
    qed
    have int: "\<exists>n. x / 2 powi (j - 52) = of_int n"
    proof (cases "j = e + 53")
      case True
      have "2 powi j \<le> x" using bin_exp_correct(1) [OF x] by (simp add: j_def)
      then have "of_int (2 ^ 53) * (2 :: rat) powi e \<le> of_int k * 2 powi e"
        using pow2_shift [of e 53] by (simp add: True x_def)
      then have "(of_int (2 ^ 53) :: rat) \<le> of_int k"
        by (simp only: mult_le_cancel_right_pos zero_less_power_int zero_less_numeral)
      with k have "k = 2 ^ 53" by (simp only: of_int_le_iff)
      then have "x / 2 powi (j - 52) = of_int (2 ^ 52)"
        using pow2_shift [of e 1] by (simp add: x_def True add.commute)
      then show ?thesis by blast
    next
      case False
      with upper have d: "0 \<le> e - (j - 52)" by linarith
      have "x / 2 powi (j - 52) = of_int k * 2 powi (e - (j - 52))"
        using power_int_diff [of "2 :: rat" e "j - 52"] by (simp add: x_def)
      also have "\<dots> = of_int (k * 2 ^ nat (e - (j - 52)))"
        using d by (simp add: power_int_def)
      finally show ?thesis by blast
    qed
    then obtain n where n: "x / 2 powi (j - 52) = of_int n" by blast
    have "fl64 x = of_int n * 2 powi (j - 52)"
      by (simp add: fl64_pos_eq [OF x] n flip: j_def)
    also have "\<dots> = x" by (simp flip: n)
    finally show ?thesis by (simp add: x_def)
  qed
  consider "m = 0" | "0 < m" | "m < 0" by linarith
  then show ?thesis
  proof cases
    case 3
    then show ?thesis using pos [of "- m"] assms fl64_minus [of "of_int (- m) * 2 powi e"] by simp
  qed (use pos assms in auto)
qed

lemma fl64_form:
  obtains m e where "\<bar>m\<bar> \<le> 2 ^ 53" "fl64 x = of_int m * 2 powi e"
proof -
  have pos: "\<exists>m e. \<bar>m\<bar> \<le> 2 ^ 53 \<and> fl64 y = of_int m * 2 powi e" if y: "0 < y" for y
  proof -
    define s :: rat where "s = 2 powi (bin_exp y - 52)"
    have "of_int (round_half_even (y / s)) * s \<le> of_int (2 ^ 53) * s"
      using fl64_pos_bounds(2) [OF y] pow2_shift [of "bin_exp y - 52" 53]
      unfolding fl64_pos_eq [OF y] s_def [symmetric] by (simp add: add.commute)
    moreover have "0 < of_int (round_half_even (y / s)) * s"
      using fl64_pos [OF y] by (simp add: fl64_pos_eq [OF y] flip: s_def)
    moreover have "0 < s" by (simp add: s_def)
    ultimately have "(of_int (round_half_even (y / s)) :: rat) \<le> of_int (2 ^ 53)"
      "0 < (of_int (round_half_even (y / s)) :: rat)"
      by (simp_all add: zero_less_mult_iff)
    then have "\<bar>round_half_even (y / s)\<bar> \<le> 2 ^ 53"
      by simp
    then show ?thesis using fl64_pos_eq [OF y] by (auto simp: s_def)
  qed
  consider "x = 0" | "0 < x" | "x < 0" by linarith
  then show thesis
  proof cases
    case 1
    then show ?thesis using that [of 0 0] by simp
  next
    case 2
    then show ?thesis using pos that by blast
  next
    case 3
    then obtain m e where "\<bar>m\<bar> \<le> 2 ^ 53" "fl64 (- x) = of_int m * 2 powi e"
      using pos [of "- x"] by auto
    then show ?thesis using that [of "- m" e] by (simp add: fl64_minus)
  qed
qed

lemma fl64_idem: "fl64 (fl64 x) = fl64 x"
  by (metis fl64_form fl64_scaled_int)

lemma fl64_int: "\<bar>n\<bar> \<le> 2 ^ 53 \<Longrightarrow> fl64 (of_int n) = of_int n"
  using fl64_scaled_int [of n 0] by simp


text \<open>The rounding error is at most half a unit in the last place.\<close>

lemma fl64_error: "\<bar>fl64 x - x\<bar> \<le> \<bar>x\<bar> / 2 ^ 53"
proof -
  have pos: "\<bar>fl64 y - y\<bar> \<le> y / 2 ^ 53" if y: "0 < y" for y
  proof -
    define s :: rat where "s = 2 powi (bin_exp y - 52)"
    have s: "0 < s" by (simp add: s_def)
    have "fl64 y - y = (of_int (round_half_even (y / s)) - y / s) * s"
      using s by (simp add: fl64_pos_eq [OF y] left_diff_distrib flip: s_def)
    then have "\<bar>fl64 y - y\<bar> \<le> 1/2 * s"
      using round_half_even_near [of "y / s"] s
      by (simp only: abs_mult abs_of_pos mult_right_mono less_imp_le)
    moreover have "of_int (2 ^ 52) * s \<le> y"
      using bin_exp_correct(1) [OF y] pow2_shift [of "bin_exp y - 52" 52] by (simp add: s_def)
    ultimately show ?thesis by simp
  qed
  consider "x = 0" | "0 < x" | "x < 0" by linarith
  then show ?thesis
  proof cases
    case 3
    then show ?thesis using pos [of "- x"] by (simp add: fl64_minus abs_if split: if_splits)
  qed (use pos in auto)
qed

section \<open>Interface: a rounding function\<close>

text \<open>
  What the components use of float arithmetic: rounding is monotone, changes no float, and is
  exact on small integers. \<open>repr x\<close> says that \<open>x\<close> is a float.
\<close>

locale rounding =
  fixes rnd :: "rat \<Rightarrow> rat"
  assumes rnd_mono: "x \<le> y \<Longrightarrow> rnd x \<le> rnd y"
    and rnd_idem: "rnd (rnd x) = rnd x"
    and rnd_int: "\<bar>n\<bar> \<le> 2 ^ 53 \<Longrightarrow> rnd (of_int n) = of_int n"
begin

lemma rnd_0: "rnd 0 = 0" and rnd_1: "rnd 1 = 1"
  using rnd_int [of 0] rnd_int [of 1] by simp_all

lemma rnd_le_repr: "x \<le> y \<Longrightarrow> rnd y = y \<Longrightarrow> rnd x \<le> y"
  using rnd_mono by fastforce

lemma rnd_ge_repr: "y \<le> x \<Longrightarrow> rnd y = y \<Longrightarrow> y \<le> rnd x"
  using rnd_mono by fastforce

lemma rnd_nonneg: "0 \<le> x \<Longrightarrow> 0 \<le> rnd x"
  using rnd_ge_repr rnd_0 by blast

lemma rnd_unit: "0 \<le> x \<Longrightarrow> x \<le> 1 \<Longrightarrow> 0 \<le> rnd x \<and> rnd x \<le> 1"
  using rnd_le_repr rnd_nonneg rnd_1 by blast

text \<open>Subtracting a non-negative amount from a float does not increase it, adding one does
  not decrease it.\<close>

lemma rnd_sub_le: "rnd a = a \<Longrightarrow> 0 \<le> b \<Longrightarrow> rnd (a - b) \<le> a"
  by (rule rnd_le_repr) auto

lemma rnd_add_ge: "rnd a = a \<Longrightarrow> 0 \<le> b \<Longrightarrow> a \<le> rnd (a + b)"
  by (rule rnd_ge_repr) auto

end

interpretation b64: rounding fl64
  by unfold_locales (auto intro: fl64_mono simp: fl64_idem fl64_int)

section \<open>The operations\<close>

lemmas flt_defs = fadd_def fsub_def fmul_def fdiv_def

lemma fl64_1 [simp]: "fl64 1 = 1"
  by (rule b64.rnd_1)

lemma fl64_numeral: "(numeral n :: int) \<le> 2 ^ 53 \<Longrightarrow> fl64 (numeral n) = numeral n"
  using fl64_int [of "numeral n"] by simp

text \<open>Rounding a concrete value: scale it to a significand and round that.\<close>

lemma fl64_evalI:
  assumes "2 ^ 52 \<le> x * 2 ^ k" "x * 2 ^ k < 2 ^ 53" "round_half_even (x * 2 ^ k) = m"
  shows "fl64 x = of_int m / 2 ^ k"
proof -
  have scale: "2 powi (int n - int k) = (2 ^ n / 2 ^ k :: rat)" for n
    by (simp add: power_int_diff)
  have "(0 :: rat) < 2 ^ 52" by (rule zero_less_power) simp
  with assms(1) have "0 < x * 2 ^ k" by (rule less_le_trans [rotated])
  then have pos: "0 < x" by (simp add: zero_less_mult_iff)
  have "2 powi (int 52 - int k) \<le> x" "x < 2 powi (int 53 - int k)"
    unfolding scale using assms(1,2) by (simp_all only: pos_divide_le_eq pos_less_divide_eq zero_less_power zero_less_numeral)
  then have e: "bin_exp x = int 52 - int k"
    by (intro bin_exp_unique) simp_all
  have s: "2 powi (bin_exp x - 52) = (1 / 2 ^ k :: rat)"
    using scale [of 0] by (simp add: e)
  show ?thesis
    using assms(3) unfolding fl64_pos_eq [OF pos] s by simp
qed

lemma round_half_even_tie: "even m \<Longrightarrow> \<bar>of_int m - y\<bar> = 1 / 2 \<Longrightarrow> round_half_even y = m"
proof -
  assume m: "even m" and "\<bar>of_int m - y\<bar> = 1 / 2"
  then consider "y = of_int m + 1 / 2" | "y = of_int (m - 1) + 1 / 2" by (auto simp: abs_if split: if_splits)
  then show ?thesis
  proof cases
    case 1
    then have "\<lfloor>y\<rfloor> = m" by (simp add: floor_eq_iff)
    with 1 m show ?thesis by (simp add: round_half_even_def Let_def)
  next
    case 2
    then have "\<lfloor>y\<rfloor> = m - 1" by (simp add: floor_eq_iff)
    with 2 m show ?thesis by (simp add: round_half_even_def Let_def)
  qed
qed

lemma fl64_quotient:
  fixes b a :: int and k :: nat and m :: int
  assumes "0 < b" "2 ^ 52 * b \<le> a * 2 ^ k" "a * 2 ^ k < 2 ^ 53 * b"
    and "\<bar>2 * (m * b - a * 2 ^ k)\<bar> < b \<or> even m \<and> \<bar>2 * (m * b - a * 2 ^ k)\<bar> = b"
  shows "fl64 (of_int a / of_int b) = of_int m / 2 ^ k"
proof (rule fl64_evalI)
  let ?y = "of_int a / of_int b * 2 ^ k :: rat"
  have b: "(0 :: rat) < of_int b" using assms(1) by simp
  have y: "?y = of_int (a * 2 ^ k) / of_int b" by simp
  have "of_int (2 ^ 52 * b) \<le> (of_int (a * 2 ^ k) :: rat)" "of_int (a * 2 ^ k) < (of_int (2 ^ 53 * b) :: rat)"
    using assms(2,3) by (simp_all only: of_int_le_iff of_int_less_iff)
  then show "2 ^ 52 \<le> ?y" "?y < 2 ^ 53"
    unfolding y using b by (simp_all only: pos_le_divide_eq pos_divide_less_eq of_int_mult of_int_power of_int_numeral)
  have "2 * \<bar>of_int m - ?y\<bar> * of_int b = of_int \<bar>2 * (m * b - a * 2 ^ k)\<bar>"
  proof -
    have "2 * (of_int m - ?y) * of_int b = of_int (2 * (m * b - a * 2 ^ k))"
      using b by (simp add: field_simps)
    then have "\<bar>2 * (of_int m - ?y) * of_int b\<bar> = of_int \<bar>2 * (m * b - a * 2 ^ k)\<bar>"
      by (simp only: of_int_abs)
    then show ?thesis by (simp only: abs_mult abs_of_pos [OF b] abs_numeral)
  qed
  with assms(4) have "2 * \<bar>of_int m - ?y\<bar> * of_int b < 1 * of_int b \<or>
      even m \<and> 2 * \<bar>of_int m - ?y\<bar> * of_int b = 1 * of_int b"
    by (simp only: of_int_less_iff of_int_eq_iff mult_1)
  then have "\<bar>of_int m - ?y\<bar> < 1 / 2 \<or> even m \<and> \<bar>of_int m - ?y\<bar> = 1 / 2"
    using b by (auto simp only: mult_less_cancel_right_pos mult_cancel_right) auto
  then show "round_half_even ?y = m"
    using round_half_even_unique round_half_even_tie by blast
qed

lemma fl64_nonneg: "0 \<le> x \<Longrightarrow> 0 \<le> fl64 x"
  using fl64_mono [of 0 x] by simp

lemma fclamp_in: "lo \<le> hi \<Longrightarrow> lo \<le> fclamp lo hi x \<and> fclamp lo hi x \<le> hi"
  by (auto simp: fclamp_def)

lemma fclamp_id: "lo \<le> x \<Longrightarrow> x \<le> hi \<Longrightarrow> fclamp lo hi x = x"
  by (auto simp: fclamp_def)

lemma fclamp_unit_le: "x \<le> y \<Longrightarrow> fclamp 0 1 x = 0 \<or> fclamp 0 1 x \<le> y"
  and fclamp_unit_ge: "y \<le> x \<Longrightarrow> fclamp 0 1 x = 1 \<or> y \<le> fclamp 0 1 x"
  by (auto simp: fclamp_def)

lemma fclamp_mono: "x \<le> y \<Longrightarrow> fclamp lo hi x \<le> fclamp lo hi y"
  by (auto simp: fclamp_def)

lemma fclamp_repr:
  "fl64 lo = lo \<Longrightarrow> fl64 hi = hi \<Longrightarrow> fl64 x = x \<Longrightarrow> fl64 (fclamp lo hi x) = fclamp lo hi x"
  by (auto simp: fclamp_def max_def min_def)

lemma fround_repr: "fl64 (fround n x) = fround n x"
  by (simp add: fround_def fl64_idem)

lemma fround_mono: "x \<le> y \<Longrightarrow> fround n x \<le> fround n y"
  unfolding fround_def by (intro fl64_mono divide_right_mono) (auto intro: round_half_even_mono)

lemma fround_0 [simp]: "fround n 0 = 0"
  by (simp add: fround_def round_half_even_def)

lemma fround_int: "\<bar>k\<bar> \<le> 2 ^ 53 \<Longrightarrow> fround n (of_int k) = of_int k"
proof -
  assume k: "\<bar>k\<bar> \<le> 2 ^ 53"
  have "(of_int k :: rat) * 10 ^ n = of_int (k * 10 ^ n)" by simp
  then have "round_half_even ((of_int k :: rat) * 10 ^ n) = k * 10 ^ n"
    by (simp only: round_half_even_of_int)
  then show ?thesis using k by (simp add: fround_def fl64_int)
qed

end
