(* ===== verification/Uncertainty.thy ===== *)
theory Uncertainty
  imports Float64 "HOL-Library.Multiset"
begin

text \<open>
  Uncertainty estimates of evidence and claims (\<open>orchestrator/schemas/uncertainty.py\<close>) and
  the rule that combines the estimates of several evidence items
  (\<open>orchestrator/agents/synthesis/uncertainty_propagation.py\<close>).
\<close>

section \<open>Schema\<close>

datatype source_type = Data_Sparsity | Model_Uncertainty | Evidence_Conflict | Well_Supported

record uncertainty_estimate =
  point_estimate :: flt
  lower_bound :: flt
  upper_bound :: flt
  est_source :: source_type

definition DEFAULT_LEGACY_FALLBACK_MARGIN :: flt where
  "DEFAULT_LEGACY_FALLBACK_MARGIN = fl64 (1/10)"

definition DEFAULT_POINT_ESTIMATE_INTERVAL_MARGIN :: flt where
  "DEFAULT_POINT_ESTIMATE_INTERVAL_MARGIN = fl64 (8/100)"

text \<open>The \<open>ge=0.0, le=1.0\<close> field constraint.\<close>

definition in_unit :: "flt \<Rightarrow> bool" where
  "in_unit x \<longleftrightarrow> 0 \<le> x \<and> x \<le> 1"

text \<open>
  Constructing \<open>UncertaintyEstimate(...)\<close>: the field constraints first, then the
  \<open>validate_bounds\<close> model validator.
\<close>

definition validate_bounds :: "uncertainty_estimate \<Rightarrow> uncertainty_estimate py" where
  "validate_bounds u =
     (if \<not> (lower_bound u \<le> point_estimate u \<and> point_estimate u \<le> upper_bound u)
      then Inl (Validation_Error ''Invalid uncertainty interval'')
      else Inr u)"

definition UncertaintyEstimate ::
    "flt \<Rightarrow> flt \<Rightarrow> flt \<Rightarrow> source_type \<Rightarrow> uncertainty_estimate py" where
  "UncertaintyEstimate pt lo up src =
     (if \<not> in_unit pt then Inl (Validation_Error ''point_estimate'')
      else if \<not> in_unit lo then Inl (Validation_Error ''lower_bound'')
      else if \<not> in_unit up then Inl (Validation_Error ''upper_bound'')
      else validate_bounds
        \<lparr>point_estimate = pt, lower_bound = lo, upper_bound = up, est_source = src\<rparr>)"

definition from_point_estimate :: "flt \<Rightarrow> flt \<Rightarrow> source_type \<Rightarrow> uncertainty_estimate py" where
  "from_point_estimate pt margin src =
     (if \<not> in_unit pt then Inl (Value_Error ''Point estimate must be between 0.0 and 1.0.'')
      else UncertaintyEstimate pt (max 0 (fsub pt margin)) (min 1 (fadd pt margin)) src)"

definition from_legacy_confidence :: "flt \<Rightarrow> source_type \<Rightarrow> uncertainty_estimate py" where
  "from_legacy_confidence conf src =
     (if \<not> in_unit conf then Inl (Value_Error ''Confidence score must be between 0.0 and 1.0.'')
      else UncertaintyEstimate conf
        (max 0 (fsub conf DEFAULT_LEGACY_FALLBACK_MARGIN))
        (min 1 (fadd conf DEFAULT_LEGACY_FALLBACK_MARGIN)) src)"

section \<open>Propagation\<close>

definition CONFLICT_SPREAD_THRESHOLD :: flt where
  "CONFLICT_SPREAD_THRESHOLD = fl64 (15/100)"

definition MIN_CONFLICT_PADDING :: flt where
  "MIN_CONFLICT_PADDING = fl64 (5/100)"

text \<open>\<open>itertools.combinations(xs, 2)\<close>.\<close>

fun combinations2 :: "'a list \<Rightarrow> ('a \<times> 'a) list" where
  "combinations2 [] = []"
| "combinations2 (x # xs) = map (Pair x) xs @ combinations2 xs"

definition disjoint_intervals :: "uncertainty_estimate \<Rightarrow> uncertainty_estimate \<Rightarrow> bool" where
  "disjoint_intervals e1 e2 \<longleftrightarrow>
     upper_bound e1 < lower_bound e2 \<or> upper_bound e2 < lower_bound e1"

definition is_conflict :: "uncertainty_estimate list \<Rightarrow> bool" where
  "is_conflict es =
     (let spread = fsub (Max (set (map point_estimate es))) (Min (set (map point_estimate es)))
      in spread \<ge> CONFLICT_SPREAD_THRESHOLD
         \<or> list_ex (\<lambda>(e1, e2). disjoint_intervals e1 e2) (combinations2 es)
         \<or> list_ex (\<lambda>e. est_source e = Evidence_Conflict) es)"

definition combined_source :: "uncertainty_estimate list \<Rightarrow> source_type" where
  "combined_source es =
     (if is_conflict es then Evidence_Conflict
      else if list_ex (\<lambda>e. est_source e = Data_Sparsity) es then Data_Sparsity
      else if list_ex (\<lambda>e. est_source e = Model_Uncertainty) es then Model_Uncertainty
      else Well_Supported)"

text \<open>Steps 1 to 5 of \<open>propagate_uncertainty\<close> for two or more estimates.\<close>

definition propagate_many :: "uncertainty_estimate list \<Rightarrow> uncertainty_estimate py" where
  "propagate_many es =
     (let min_pt = Min (set (map point_estimate es));
          max_pt = Max (set (map point_estimate es));
          union_lower = Min (set (map lower_bound es));
          union_upper = Max (set (map upper_bound es));
          spread = fsub max_pt min_pt;
          conflict = is_conflict es;
          avg_pt = fdiv (fsum (map point_estimate es)) (of_nat (length es));
          penalty = max MIN_CONFLICT_PADDING (fdiv spread 2);
          lower1 = (if conflict then fsub (min union_lower min_pt) penalty else union_lower);
          upper1 = (if conflict then fadd (max union_upper max_pt) penalty else union_upper);
          lower2 = min lower1 union_lower;
          upper2 = max upper1 union_upper;
          lower3 = fclamp 0 1 lower2;
          upper3 = fclamp 0 1 upper2
      in UncertaintyEstimate (fclamp lower3 upper3 avg_pt) lower3 upper3 (combined_source es))"

fun propagate_uncertainty :: "uncertainty_estimate list \<Rightarrow> uncertainty_estimate py" where
  "propagate_uncertainty [] = UncertaintyEstimate (1/2) 0 1 Model_Uncertainty"
| "propagate_uncertainty [single] =
     UncertaintyEstimate (point_estimate single) (lower_bound single) (upper_bound single)
       (est_source single)"
| "propagate_uncertainty es = propagate_many es"

section \<open>Validity\<close>

definition valid_estimate :: "uncertainty_estimate \<Rightarrow> bool" where
  "valid_estimate u \<longleftrightarrow> 0 \<le> lower_bound u \<and> lower_bound u \<le> point_estimate u \<and>
     point_estimate u \<le> upper_bound u \<and> upper_bound u \<le> 1"

lemma UncertaintyEstimate_Inr_iff:
  "UncertaintyEstimate pt lo up src = Inr u \<longleftrightarrow>
     u = \<lparr>point_estimate = pt, lower_bound = lo, upper_bound = up, est_source = src\<rparr> \<and>
     valid_estimate u"
  by (auto simp: UncertaintyEstimate_def validate_bounds_def in_unit_def valid_estimate_def)

lemma UncertaintyEstimate_Inr:
  "0 \<le> lo \<Longrightarrow> lo \<le> pt \<Longrightarrow> pt \<le> up \<Longrightarrow> up \<le> 1 \<Longrightarrow> UncertaintyEstimate pt lo up src =
     Inr \<lparr>point_estimate = pt, lower_bound = lo, upper_bound = up, est_source = src\<rparr>"
  by (simp add: UncertaintyEstimate_Inr_iff valid_estimate_def)

lemma from_legacy_confidence_eq:
  "from_legacy_confidence conf src =
     (if in_unit conf then from_point_estimate conf DEFAULT_LEGACY_FALLBACK_MARGIN src
      else Inl (Value_Error ''Confidence score must be between 0.0 and 1.0.''))"
  by (simp add: from_legacy_confidence_def from_point_estimate_def)

text \<open>A float in range with a non-negative margin always yields an estimate around it.\<close>

lemma from_point_estimate_Inr:
  assumes "in_unit pt" "fl64 pt = pt" "0 \<le> margin"
  shows "\<exists>u. from_point_estimate pt margin src = Inr u \<and> valid_estimate u \<and>
    point_estimate u = pt \<and> est_source u = src"
proof -
  have "fsub pt margin \<le> pt" "pt \<le> fadd pt margin"
    using assms by (auto simp: flt_defs intro: b64.rnd_sub_le b64.rnd_add_ge)
  then show ?thesis
    using assms by (auto simp: from_point_estimate_def UncertaintyEstimate_Inr_iff in_unit_def
        valid_estimate_def)
qed

section \<open>Facts on the combination rule\<close>

lemma set_combinations2: "(a, b) \<in> set (combinations2 xs) \<Longrightarrow> a \<in> set xs \<and> b \<in> set xs"
  by (induction xs) auto

lemma combinations2_cover:
  "a \<in> set xs \<Longrightarrow> b \<in> set xs \<Longrightarrow> a = b \<or> (a, b) \<in> set (combinations2 xs) \<or>
     (b, a) \<in> set (combinations2 xs)"
  by (induction xs) auto

lemma list_ex_disjoint_iff:
  "\<forall>e\<in>set es. valid_estimate e \<Longrightarrow>
     list_ex (\<lambda>(e1, e2). disjoint_intervals e1 e2) (combinations2 es) \<longleftrightarrow>
       (\<exists>e1\<in>set es. \<exists>e2\<in>set es. disjoint_intervals e1 e2)"
proof
  assume "list_ex (\<lambda>(e1, e2). disjoint_intervals e1 e2) (combinations2 es)"
  then show "\<exists>e1\<in>set es. \<exists>e2\<in>set es. disjoint_intervals e1 e2"
    by (auto simp: list_ex_iff dest: set_combinations2)
next
  assume valid: "\<forall>e\<in>set es. valid_estimate e"
    and "\<exists>e1\<in>set es. \<exists>e2\<in>set es. disjoint_intervals e1 e2"
  then obtain e1 e2 where e: "e1 \<in> set es" "e2 \<in> set es" "disjoint_intervals e1 e2" by blast
  have "e1 \<noteq> e2" using e valid by (force simp: disjoint_intervals_def valid_estimate_def)
  moreover have "disjoint_intervals e2 e1" using e(3) by (auto simp: disjoint_intervals_def)
  ultimately show "list_ex (\<lambda>(e1, e2). disjoint_intervals e1 e2) (combinations2 es)"
    using combinations2_cover [OF e(1,2)] e(3) by (auto simp: list_ex_iff)
qed

lemma is_conflict_iff:
  "\<forall>e\<in>set es. valid_estimate e \<Longrightarrow> is_conflict es \<longleftrightarrow>
     fsub (Max (point_estimate ` set es)) (Min (point_estimate ` set es)) \<ge> CONFLICT_SPREAD_THRESHOLD
     \<or> (\<exists>e1\<in>set es. \<exists>e2\<in>set es. disjoint_intervals e1 e2)
     \<or> (\<exists>e\<in>set es. est_source e = Evidence_Conflict)"
  by (simp add: is_conflict_def Let_def list_ex_disjoint_iff) (auto simp: list_ex_iff)

lemma propagate_many_shape:
  assumes valid: "\<forall>e\<in>set es. valid_estimate e" and ne: "es \<noteq> []"
  obtains u where "propagate_many es = Inr u" "valid_estimate u"
    "\<forall>e\<in>set es. lower_bound u \<le> lower_bound e \<and> upper_bound e \<le> upper_bound u"
    "est_source u = combined_source es"
proof -
  define ul where "ul = Min (set (map lower_bound es))"
  define uu where "uu = Max (set (map upper_bound es))"
  have in_es: "ul \<le> lower_bound e" "upper_bound e \<le> uu" if "e \<in> set es" for e
    using that by (auto simp: ul_def uu_def intro: Min_le Max_ge)
  obtain e0 where e0: "e0 \<in> set es" using ne by (cases es) auto
  have "ul \<in> set (map lower_bound es)" "uu \<in> set (map upper_bound es)"
    unfolding ul_def uu_def using ne by (auto intro!: Min_in Max_in)
  then have ub: "0 \<le> ul" "ul \<le> 1" "0 \<le> uu" "uu \<le> 1"
    using valid by (force simp: valid_estimate_def)+
  define l3 where "l3 = fclamp 0 1 (min (if is_conflict es
      then fsub (min ul (Min (set (map point_estimate es))))
        (max MIN_CONFLICT_PADDING (fdiv (fsub (Max (set (map point_estimate es)))
           (Min (set (map point_estimate es)))) 2)) else ul) ul)"
  define u3 where "u3 = fclamp 0 1 (max (if is_conflict es
      then fadd (max uu (Max (set (map point_estimate es))))
        (max MIN_CONFLICT_PADDING (fdiv (fsub (Max (set (map point_estimate es)))
           (Min (set (map point_estimate es)))) 2)) else uu) uu)"
  define pt where "pt = fclamp l3 u3 (fdiv (fsum (map point_estimate es)) (of_nat (length es)))"
  have l3: "l3 \<le> ul" "0 \<le> l3" using ub by (auto simp: l3_def fclamp_def)
  have u3: "uu \<le> u3" "u3 \<le> 1" using ub by (auto simp: u3_def fclamp_def)
  have "l3 \<le> u3"
    using l3 u3 in_es [OF e0] valid e0 by (fastforce simp: valid_estimate_def)
  then have pt: "l3 \<le> pt" "pt \<le> u3" by (simp_all add: pt_def fclamp_in)
  have "propagate_many es = UncertaintyEstimate pt l3 u3 (combined_source es)"
    by (simp add: propagate_many_def Let_def pt_def l3_def u3_def ul_def uu_def)
  also have "\<dots> = Inr \<lparr>point_estimate = pt, lower_bound = l3, upper_bound = u3,
      est_source = combined_source es\<rparr>"
    using l3 u3 pt by (intro UncertaintyEstimate_Inr)
  finally have "propagate_many es = Inr \<lparr>point_estimate = pt, lower_bound = l3,
      upper_bound = u3, est_source = combined_source es\<rparr>" .
  then show thesis
    using that l3 u3 pt in_es by (force simp: valid_estimate_def)
qed


text \<open>Under conflict the union interval is padded by the penalty before clipping.\<close>

lemma conflict_padding:
  assumes "0 \<le> a" "a \<le> 1" "MIN_CONFLICT_PADDING \<le> p"
  shows "fsub a p \<le> a - 4/100" "a + 4/100 \<le> fadd a p"
proof -
  define q where "q = MIN_CONFLICT_PADDING"
  have q: "49/1000 \<le> q" "q \<le> 51/1000"
    using fl64_error [of "5/100"] by (auto simp: q_def MIN_CONFLICT_PADDING_def abs_if split: if_splits)
  have "\<bar>a - q\<bar> \<le> 2" "\<bar>a + q\<bar> \<le> 2" using assms q by auto
  then have "\<bar>fl64 (a - q) - (a - q)\<bar> \<le> 1/1000" "\<bar>fl64 (a + q) - (a + q)\<bar> \<le> 1/1000"
    using fl64_error [of "a - q"] fl64_error [of "a + q"] by auto
  moreover have "fsub a p \<le> fl64 (a - q)" "fl64 (a + q) \<le> fadd a p"
    using assms(3) by (auto simp: flt_defs q_def intro: fl64_mono)
  ultimately show "fsub a p \<le> a - 4/100" "a + 4/100 \<le> fadd a p"
    using q by linarith+
qed

lemma propagate_many_conflict:
  assumes valid: "\<forall>e\<in>set es. valid_estimate e" and c: "is_conflict es"
    and u: "propagate_many es = Inr u" and e: "e \<in> set es"
  shows "lower_bound u = 0 \<or> lower_bound u \<le> lower_bound e - 4/100"
    "upper_bound u = 1 \<or> upper_bound e + 4/100 \<le> upper_bound u"
proof -
  define ul where "ul = Min (set (map lower_bound es))"
  define uu where "uu = Max (set (map upper_bound es))"
  define mn where "mn = Min (set (map point_estimate es))"
  define mx where "mx = Max (set (map point_estimate es))"
  define p where "p = max MIN_CONFLICT_PADDING (fdiv (fsub mx mn) 2)"
  have ne: "es \<noteq> []" using e by auto
  have mem: "ul \<in> lower_bound ` set es" "uu \<in> upper_bound ` set es"
    "mn \<in> point_estimate ` set es" "mx \<in> point_estimate ` set es"
    unfolding ul_def uu_def mn_def mx_def using ne by (auto intro!: Min_in Max_in)
  have rng: "0 \<le> min ul mn" "min ul mn \<le> 1" "0 \<le> max uu mx" "max uu mx \<le> 1"
    using mem valid by (force simp: valid_estimate_def)+
  have pad: "fsub (min ul mn) p \<le> min ul mn - 4/100" "max uu mx + 4/100 \<le> fadd (max uu mx) p"
    using conflict_padding [OF rng(1,2), of p] conflict_padding [OF rng(3,4), of p]
    by (auto simp: p_def)
  have le: "ul \<le> lower_bound e" "upper_bound e \<le> uu"
    using e by (auto simp: ul_def uu_def intro: Min_le Max_ge)
  have "\<exists>pt. propagate_many es = UncertaintyEstimate pt (fclamp 0 1 (min (fsub (min ul mn) p) ul))
      (fclamp 0 1 (max (fadd (max uu mx) p) uu)) (combined_source es)"
    unfolding propagate_many_def Let_def p_def ul_def uu_def mn_def mx_def if_P [OF c]
    by (rule exI) (rule refl)
  then have "lower_bound u = fclamp 0 1 (min (fsub (min ul mn) p) ul)"
    "upper_bound u = fclamp 0 1 (max (fadd (max uu mx) p) uu)"
    using u by (metis UncertaintyEstimate_Inr_iff uncertainty_estimate.select_convs(2),
        metis UncertaintyEstimate_Inr_iff uncertainty_estimate.select_convs(3))
  moreover have "min (fsub (min ul mn) p) ul \<le> lower_bound e - 4/100"
    "upper_bound e + 4/100 \<le> max (fadd (max uu mx) p) uu"
    using pad le by linarith+
  ultimately show "lower_bound u = 0 \<or> lower_bound u \<le> lower_bound e - 4/100"
    "upper_bound u = 1 \<or> upper_bound e + 4/100 \<le> upper_bound u"
    by (simp_all only: fclamp_unit_le fclamp_unit_ge)
qed

lemma propagate_uncertainty_many:
  "2 \<le> length es \<Longrightarrow> propagate_uncertainty es = propagate_many es"
  by (cases es rule: propagate_uncertainty.cases) auto

lemma propagate_uncertainty_shape:
  assumes valid: "\<forall>e\<in>set es. valid_estimate e"
  shows "\<exists>u. propagate_uncertainty es = Inr u \<and> valid_estimate u \<and>
    (\<forall>e\<in>set es. lower_bound u \<le> lower_bound e \<and> upper_bound e \<le> upper_bound u)"
proof (cases es rule: propagate_uncertainty.cases)
  case 1
  then show ?thesis by (simp add: UncertaintyEstimate_Inr valid_estimate_def)
next
  case (2 single)
  then show ?thesis
    using valid by (simp add: UncertaintyEstimate_Inr_iff valid_estimate_def)
next
  case (3 e1 e2 rest)
  then show ?thesis
    using propagate_many_shape [OF valid] by (metis list.distinct(1) propagate_uncertainty.simps(3))
qed

section \<open>Properties\<close>

text \<open>C6: combining valid estimates never raises; the result is a valid estimate (bounds in the
  unit interval around the point estimate) and its interval contains the interval of every
  combined estimate, so the combination never narrows uncertainty.\<close>

theorem propagate_uncertainty_never_narrows:
  assumes "\<forall>e\<in>set es. valid_estimate e"
  shows "\<exists>u. propagate_uncertainty es = Inr u \<and> valid_estimate u \<and>
    (\<forall>e\<in>set es. lower_bound u \<le> lower_bound e \<and> upper_bound e \<le> upper_bound u)"
  using assms by (rule propagate_uncertainty_shape)

definition est_low :: uncertainty_estimate where
  "est_low = \<lparr>point_estimate = 1/4, lower_bound = 1/8, upper_bound = 3/8,
     est_source = Well_Supported\<rparr>"

definition est_high :: uncertainty_estimate where
  "est_high = \<lparr>point_estimate = 3/4, lower_bound = 5/8, upper_bound = 7/8,
     est_source = Data_Sparsity\<rparr>"

theorem propagate_uncertainty_never_narrows_witness:
  "\<exists>u. propagate_uncertainty [est_low, est_high] = Inr u \<and> valid_estimate u \<and>
    (\<forall>e\<in>set [est_low, est_high]. lower_bound u \<le> lower_bound e \<and> upper_bound e \<le> upper_bound u)"
  by (rule propagate_uncertainty_never_narrows)
    (simp add: est_low_def est_high_def valid_estimate_def)

text \<open>two or more conflicting estimates (spread of at least 0.15, disjoint intervals, or an
  input already tagged) yield the tag \<open>evidence_conflict\<close>, and the interval is padded by more
  than 0.04 beyond every input interval on both sides unless it is clipped at 0 or 1.\<close>

theorem propagate_uncertainty_conflict_widens:
  assumes "2 \<le> length es" "\<forall>e\<in>set es. valid_estimate e" "is_conflict es"
  shows "\<exists>u. propagate_uncertainty es = Inr u \<and> est_source u = Evidence_Conflict \<and>
    (\<forall>e\<in>set es. (lower_bound u = 0 \<or> lower_bound u \<le> lower_bound e - 4/100) \<and>
      (upper_bound u = 1 \<or> upper_bound e + 4/100 \<le> upper_bound u))"
proof -
  have "es \<noteq> []" using assms(1) by auto
  from propagate_many_shape [OF assms(2) this] obtain u
    where u: "propagate_many es = Inr u" "est_source u = combined_source es" by metis
  moreover have "combined_source es = Evidence_Conflict"
    using assms(3) by (simp add: combined_source_def)
  ultimately show ?thesis
    using propagate_many_conflict [OF assms(2,3) u(1)]
    by (auto simp: propagate_uncertainty_many [OF assms(1)])
qed

theorem propagate_uncertainty_conflict_widens_witness:
  "is_conflict [est_low, est_high] \<and>
   (\<exists>u. propagate_uncertainty [est_low, est_high] = Inr u \<and> est_source u = Evidence_Conflict \<and>
    (\<forall>e\<in>set [est_low, est_high]. (lower_bound u = 0 \<or> lower_bound u \<le> lower_bound e - 4/100) \<and>
      (upper_bound u = 1 \<or> upper_bound e + 4/100 \<le> upper_bound u)))"
proof
  show c: "is_conflict [est_low, est_high]"
    by (simp add: is_conflict_def Let_def disjoint_intervals_def est_low_def est_high_def)
  show "\<exists>u. propagate_uncertainty [est_low, est_high] = Inr u \<and> est_source u = Evidence_Conflict \<and>
    (\<forall>e\<in>set [est_low, est_high]. (lower_bound u = 0 \<or> lower_bound u \<le> lower_bound e - 4/100) \<and>
      (upper_bound u = 1 \<or> upper_bound e + 4/100 \<le> upper_bound u))"
    by (rule propagate_uncertainty_conflict_widens [OF _ _ c])
      (simp_all add: est_low_def est_high_def valid_estimate_def)
qed

text \<open>the interval and the source tag of a combined estimate do not depend on the order in
  which the evidence arrives (the point estimate may, by rounding of the sum).\<close>

theorem propagate_uncertainty_order_independent:
  assumes "mset es = mset fs" "\<forall>e\<in>set es. valid_estimate e"
    and "propagate_uncertainty es = Inr u" "propagate_uncertainty fs = Inr v"
  shows "lower_bound u = lower_bound v \<and> upper_bound u = upper_bound v \<and>
    est_source u = est_source v"
proof -
  have set: "set es = set fs" and len: "length es = length fs"
    using assms(1) by (auto dest: mset_eq_setD mset_eq_length)
  show ?thesis
  proof (cases "2 \<le> length es")
    case True
    have c: "is_conflict es = is_conflict fs"
      using is_conflict_iff [OF assms(2)] is_conflict_iff [of fs] assms(2) set by simp
    then have "combined_source es = combined_source fs"
      using set by (simp add: combined_source_def list_ex_iff)
    with True len assms(3,4) show ?thesis
      by (auto simp: propagate_uncertainty_many propagate_many_def Let_def c set
          UncertaintyEstimate_Inr_iff)
  next
    case False
    then consider "es = []" | e where "es = [e]"
      by (cases es rule: propagate_uncertainty.cases) auto
    then have "es = fs" using assms(1) by cases auto
    with assms(3,4) show ?thesis by simp
  qed
qed

theorem propagate_uncertainty_order_independent_witness:
  "\<exists>u v. propagate_uncertainty [est_low, est_high] = Inr u \<and>
     propagate_uncertainty [est_high, est_low] = Inr v \<and>
     lower_bound u = lower_bound v \<and> upper_bound u = upper_bound v \<and> est_source u = est_source v"
proof -
  have valid: "\<forall>e\<in>set [est_low, est_high]. valid_estimate e"
    by (simp add: est_low_def est_high_def valid_estimate_def)
  obtain u where u: "propagate_uncertainty [est_low, est_high] = Inr u"
    using propagate_uncertainty_shape [OF valid] by blast
  obtain v where v: "propagate_uncertainty [est_high, est_low] = Inr v"
    using propagate_uncertainty_shape [of "[est_high, est_low]"] valid by auto
  show ?thesis
    using propagate_uncertainty_order_independent [OF _ valid u v] u v by auto
qed

end
