(* ===== verification/Json.thy ===== *)
theory Json
  imports Float64
begin

text \<open>
  JSON values as Python sees them after \<open>json.loads\<close>, their truth value, and dictionary
  access. A stored text is represented by what \<open>json.loads\<close> makes of it: either the value it
  decodes to, or text that is not JSON; \<open>json.dumps\<close> of a value is the former.
\<close>

datatype json =
    JNull
  | JBool bool
  | JInt int
  | JFloat flt
  | JStr string
  | JArr "json list"
  | JObj "(string \<times> json) list"

datatype stored_text = Json_Text json | Other_Text string

definition json_dumps :: "json \<Rightarrow> stored_text" where
  "json_dumps j = Json_Text j"

definition json_loads :: "stored_text \<Rightarrow> json py" where
  "json_loads t = (case t of Json_Text j \<Rightarrow> Inr j
     | Other_Text s \<Rightarrow> Inl (Value_Error ''JSONDecodeError''))"

text \<open>Python truth value testing.\<close>

fun truthy :: "json \<Rightarrow> bool" where
  "truthy JNull = False"
| "truthy (JBool b) = b"
| "truthy (JInt i) = (i \<noteq> 0)"
| "truthy (JFloat x) = (x \<noteq> 0)"
| "truthy (JStr s) = (s \<noteq> [])"
| "truthy (JArr xs) = (xs \<noteq> [])"
| "truthy (JObj kvs) = (kvs \<noteq> [])"

text \<open>\<open>a or b\<close>.\<close>

definition json_or :: "json \<Rightarrow> json \<Rightarrow> json" where
  "json_or a b = (if truthy a then a else b)"

text \<open>\<open>d.get(k)\<close>: \<open>None\<close> when the key is missing, AttributeError on a non-dictionary.\<close>

definition json_get :: "json \<Rightarrow> string \<Rightarrow> json py" where
  "json_get j k = (case j of JObj kvs \<Rightarrow> Inr (case dict_get kvs k of None \<Rightarrow> JNull | Some v \<Rightarrow> v)
     | _ \<Rightarrow> Inl (Other_Error ''AttributeError''))"

text \<open>\<open>d.get(k, default)\<close>.\<close>

definition json_get_or :: "json \<Rightarrow> string \<Rightarrow> json \<Rightarrow> json py" where
  "json_get_or j k dflt = (case j of JObj kvs \<Rightarrow> Inr (dict_get_or kvs k dflt)
     | _ \<Rightarrow> Inl (Other_Error ''AttributeError''))"

text \<open>\<open>d[k]\<close>: KeyError when the key is missing, TypeError on a non-dictionary.\<close>

definition json_index :: "json \<Rightarrow> string \<Rightarrow> json py" where
  "json_index j k = (case j of
       JObj kvs \<Rightarrow> (case dict_get kvs k of None \<Rightarrow> Inl (Key_Error k) | Some v \<Rightarrow> Inr v)
     | _ \<Rightarrow> Inl (Type_Error ''indices''))"

text \<open>Iterating a value: a list, the keys of a dictionary, the characters of a string.\<close>

definition json_iter :: "json \<Rightarrow> json list py" where
  "json_iter j = (case j of
       JArr xs \<Rightarrow> Inr xs
     | JObj kvs \<Rightarrow> Inr (map (JStr \<circ> fst) kvs)
     | JStr s \<Rightarrow> Inr (map (\<lambda>c. JStr [c]) s)
     | _ \<Rightarrow> Inl (Type_Error ''not iterable''))"

section \<open>Text of a value\<close>

text \<open>
  \<open>repr\<close> of a float: the shortest decimal that reads back as the same binary64 value, in
  positional notation for decimal exponents from -4 to 15 and scientific notation otherwise.
\<close>

fun small_exp :: "nat \<Rightarrow> flt \<Rightarrow> nat" where
  "small_exp 0 x = 0"
| "small_exp (Suc n) x = (if 1 \<le> x then 0 else Suc (small_exp n (x * 10)))"

definition dec_exp :: "flt \<Rightarrow> int" where
  "dec_exp x = (if 1 \<le> x then int (length (pos_digits \<lfloor>x\<rfloor>)) - 1 else - int (small_exp 400 x))"

fun shortest_from :: "nat \<Rightarrow> nat \<Rightarrow> flt \<Rightarrow> int \<Rightarrow> int \<times> nat" where
  "shortest_from fuel n x e =
     (let m = round_half_even (x / 10 powi (e - int n + 1))
      in case fuel of 0 \<Rightarrow> (m, n)
         | Suc k \<Rightarrow> if fl64 (of_int m * 10 powi (e - int n + 1)) = x then (m, n)
                   else shortest_from k (n + 1) x e)"

definition zeros :: "int \<Rightarrow> string" where
  "zeros n = replicate (nat n) (CHR ''0'')"

definition float_repr_pos :: "flt \<Rightarrow> string" where
  "float_repr_pos x =
     (let e = dec_exp x;
          (m, n) = shortest_from 16 1 x e;
          ds = pos_digits m;
          e' = e + int (length ds) - int n
      in if -4 \<le> e' \<and> e' < 16 then
           (if e' < 0 then ''0.'' @ zeros (- e' - 1) @ ds
            else take (nat e' + 1) ds @ zeros (e' + 1 - int (length ds)) @ ''.'' @
              (if int (length ds) \<le> e' + 1 then ''0'' else drop (nat e' + 1) ds))
         else take 1 ds @ (if length ds = 1 then [] else ''.'' @ drop 1 ds) @ ''e'' @
           (if e' < 0 then ''-'' else ''+'') @ (if \<bar>e'\<bar> < 10 then ''0'' else []) @
           pos_digits \<bar>e'\<bar>)"

definition float_repr :: "flt \<Rightarrow> string" where
  "float_repr x = (if x = 0 then ''0.0'' else if x < 0 then ''-'' @ float_repr_pos (- x)
     else float_repr_pos x)"

text \<open>\<open>repr\<close> of a string: quotes, escapes and hexadecimal escapes.\<close>

definition hex_digit :: "int \<Rightarrow> char" where
  "hex_digit d = (if d < 10 then char_of (48 + d) else char_of (87 + d))"

definition char_repr :: "char \<Rightarrow> char \<Rightarrow> string" where
  "char_repr q c = (let n = char_code c in
     if c = q \<or> n = 92 then [char_of (92 :: int), c]
     else if n = 9 then [char_of (92 :: int), CHR ''t'']
     else if n = 10 then [char_of (92 :: int), CHR ''n'']
     else if n = 13 then [char_of (92 :: int), CHR ''r'']
     else if n < 32 \<or> (127 \<le> n \<and> n \<le> 160) \<or> n = 173
     then [char_of (92 :: int), CHR ''x'', hex_digit (n div 16), hex_digit (n mod 16)]
     else [c])"

definition str_repr :: "string \<Rightarrow> string" where
  "str_repr s =
     (let q = (if char_of (39 :: int) \<in> set s \<and> char_of (34 :: int) \<notin> set s
               then char_of (34 :: int) else char_of (39 :: int))
      in q # concat (map (char_repr q) s) @ [q])"

fun json_repr :: "json \<Rightarrow> string" where
  "json_repr JNull = ''None''"
| "json_repr (JBool b) = (if b then ''True'' else ''False'')"
| "json_repr (JInt i) = int_str i"
| "json_repr (JFloat x) = float_repr x"
| "json_repr (JStr s) = str_repr s"
| "json_repr (JArr xs) = ''['' @ str_join '', '' (map json_repr xs) @ '']''"
| "json_repr (JObj kvs) =
     ''{'' @ str_join '', '' (map (\<lambda>(k, v). str_repr k @ '': '' @ json_repr v) kvs) @ ''}''"

text \<open>\<open>str(v)\<close>.\<close>

definition json_str :: "json \<Rightarrow> string" where
  "json_str j = (case j of JStr s \<Rightarrow> s | _ \<Rightarrow> json_repr j)"

text \<open>\<open>round(v, n)\<close>: an integer stays one; rounding anything but a number raises.\<close>

definition json_round :: "nat \<Rightarrow> json \<Rightarrow> json py" where
  "json_round n j = (case j of
       JFloat x \<Rightarrow> Inr (JFloat (fround n x))
     | JInt i \<Rightarrow> Inr (JInt i)
     | JBool b \<Rightarrow> Inr (JInt (if b then 1 else 0))
     | _ \<Rightarrow> Inl (Type_Error ''__round__''))"

section \<open>Lemmas\<close>

lemma json_loads_dumps [simp]: "json_loads (json_dumps j) = Inr j"
  by (simp add: json_loads_def json_dumps_def)

lemma json_get_JObj [simp]:
  "json_get (JObj kvs) k = Inr (case dict_get kvs k of None \<Rightarrow> JNull | Some v \<Rightarrow> v)"
  by (simp add: json_get_def)

lemma json_get_or_JObj [simp]: "json_get_or (JObj kvs) k v = Inr (dict_get_or kvs k v)"
  by (simp add: json_get_or_def)

lemma json_index_JObj [simp]:
  "json_index (JObj kvs) k = (case dict_get kvs k of None \<Rightarrow> Inl (Key_Error k) | Some v \<Rightarrow> Inr v)"
  by (simp add: json_index_def)

lemma json_iter_JArr [simp]: "json_iter (JArr xs) = Inr xs"
  by (simp add: json_iter_def)

end
