(* ===== verification/Evidence.thy ===== *)
theory Evidence
  imports Uncertainty Json
begin

text \<open>
  The data exchanged between domain agents, synthesis and the critic
  (\<open>orchestrator/schemas/agent_io.py\<close>, \<open>orchestrator/schemas/synthesis.py\<close>) and the
  reading of identifiers (\<open>uuid.UUID\<close> of the standard library).
\<close>

section \<open>Identifiers\<close>

text \<open>
  A UUID is its 128-bit integer. \<open>str\<close> of a UUID is injective, so a dictionary keyed by
  \<open>str(e.id)\<close> is a dictionary keyed by the identifier.
\<close>

type_synonym uuid = nat

text \<open>\<open>int(s, 16)\<close>: white space, a sign, the prefix \<open>0x\<close>, single underscores between digits.\<close>

definition hex_value :: "char \<Rightarrow> int option" where
  "hex_value c = (let n = char_code c in
     if 48 \<le> n \<and> n \<le> 57 then Some (n - 48)
     else if 97 \<le> n \<and> n \<le> 102 then Some (n - 87)
     else if 65 \<le> n \<and> n \<le> 70 then Some (n - 55) else None)"

fun hex_digits_from :: "int \<Rightarrow> string \<Rightarrow> int option" where
  "hex_digits_from acc [] = Some acc"
| "hex_digits_from acc (c # cs) =
     (case hex_value c of
        Some d \<Rightarrow> hex_digits_from (16 * acc + d) cs
      | None \<Rightarrow> (if c = CHR ''_'' then
                  (case cs of [] \<Rightarrow> None
                   | c' # cs' \<Rightarrow> (case hex_value c' of None \<Rightarrow> None
                       | Some d \<Rightarrow> hex_digits_from (16 * acc + d) cs'))
                else None))"

definition hex_body :: "string \<Rightarrow> int option" where
  "hex_body s = (case s of [] \<Rightarrow> None
     | c # cs \<Rightarrow> (case hex_value c of None \<Rightarrow> None | Some d \<Rightarrow> hex_digits_from d cs))"

definition hex_prefixed :: "string \<Rightarrow> int option" where
  "hex_prefixed s =
     (if starts_with s ''0x'' \<or> starts_with s ''0X''
      then (let t = drop 2 s in hex_body (if starts_with t ''_'' then drop 1 t else t))
      else hex_body s)"

definition int_base16 :: "string \<Rightarrow> int option" where
  "int_base16 s = (case str_strip s of
       [] \<Rightarrow> None
     | c # cs \<Rightarrow> if c = CHR ''-'' then map_option uminus (hex_prefixed cs)
                 else if c = CHR ''+'' then hex_prefixed cs else hex_prefixed (c # cs))"

text \<open>\<open>s.strip('{}')\<close>.\<close>

definition strip_braces :: "string \<Rightarrow> string" where
  "strip_braces s = (let br = (\<lambda>c. c = CHR ''{'' \<or> c = CHR ''}'')
     in rev (dropWhile br (rev (dropWhile br s))))"

definition uuid_parse :: "string \<Rightarrow> uuid py" where
  "uuid_parse s =
     (let h = str_replace ''uuid:'' [] (str_replace ''urn:'' [] s);
          h = filter (\<lambda>c. c \<noteq> CHR ''-'') (strip_braces h)
      in if length h \<noteq> 32 then Inl (Value_Error ''badly formed hexadecimal UUID string'')
         else (case int_base16 h of
             None \<Rightarrow> Inl (Value_Error ''invalid literal for int() with base 16'')
           | Some i \<Rightarrow> if 0 \<le> i \<and> i < 2 ^ 128 then Inr (nat i)
                       else Inl (Value_Error ''int is out of range'')))"

text \<open>\<open>str(uuid)\<close>: 32 lower-case hexadecimal digits in groups of 8, 4, 4, 4 and 12.\<close>

fun hex_fixed :: "nat \<Rightarrow> nat \<Rightarrow> string" where
  "hex_fixed 0 n = []"
| "hex_fixed (Suc k) n = hex_fixed k (n div 16) @ [hex_digit (int (n mod 16))]"

definition uuid_str :: "uuid \<Rightarrow> string" where
  "uuid_str u = (let h = hex_fixed 32 u
     in take 8 h @ ''-'' @ take 4 (drop 8 h) @ ''-'' @ take 4 (drop 12 h) @ ''-'' @
        take 4 (drop 16 h) @ ''-'' @ drop 20 h)"

section \<open>Evidence and agent input and output\<close>

text \<open>\<open>chunk_id: str | int | None\<close> is a JSON value; a datetime is a count of microseconds.\<close>

record evidence =
  ev_id :: uuid
  ev_source :: string
  ev_claim :: string
  ev_uncertainty :: uncertainty_estimate
  retrieved_at :: int
  document_id :: "string option"
  chunk_id :: json
  title :: "string option"
  source_url :: "string option"
  extra_metadata :: "(string, json) dict"
  ev_uncertainty_bounds :: "(flt \<times> flt) option"
  ev_assumptions :: "string list option"

text \<open>The default factory of the \<open>uncertainty\<close> field: 0.5 with bounds 0.4 and 0.6.\<close>

definition default_uncertainty :: "uncertainty_estimate py" where
  "default_uncertainty = UncertaintyEstimate (1/2) (fl64 (4/10)) (fl64 (6/10)) Model_Uncertainty"

text \<open>
  The part of \<open>Evidence.__init__\<close> and \<open>SynthesizedClaim.__init__\<close> that turns the two
  optional arguments \<open>confidence\<close> and \<open>uncertainty\<close> into the field: an explicit
  uncertainty wins, a confidence is checked and converted, otherwise the default applies.
\<close>

definition init_uncertainty ::
    "flt option \<Rightarrow> uncertainty_estimate option \<Rightarrow> uncertainty_estimate py" where
  "init_uncertainty confidence uncertainty =
     (case (confidence, uncertainty) of
        (Some c, None) \<Rightarrow>
          (if \<not> (0 \<le> c \<and> c \<le> 1) then Inl (Validation_Error ''Confidence must be between 0.0 and 1.0'')
           else from_legacy_confidence c Model_Uncertainty)
      | (_, Some u) \<Rightarrow> Inr u
      | (None, None) \<Rightarrow> default_uncertainty)"

definition mk_evidence ::
    "uuid \<Rightarrow> string \<Rightarrow> string \<Rightarrow> int \<Rightarrow> flt option \<Rightarrow> uncertainty_estimate option \<Rightarrow> evidence py" where
  "mk_evidence i source claim now confidence uncertainty =
     py_bind (init_uncertainty confidence uncertainty) (\<lambda>u.
       Inr \<lparr>ev_id = i, ev_source = source, ev_claim = claim, ev_uncertainty = u,
            retrieved_at = now, document_id = None, chunk_id = JNull, title = None,
            source_url = None, extra_metadata = [], ev_uncertainty_bounds = None,
            ev_assumptions = None\<rparr>)"

definition ev_confidence :: "evidence \<Rightarrow> flt" where
  "ev_confidence e = point_estimate (ev_uncertainty e)"

record agent_input =
  investigation_id :: uuid
  ai_query :: string
  region_hint :: "string option"

record agent_output =
  agent_name :: string
  evidence_list :: "evidence list"
  out_errors :: "string list"

section \<open>Claims and flags\<close>

record raw_cited_evidence =
  cited_id :: "uuid option"
  cited_source :: string
  cited_claim :: string
  cited_confidence :: flt

definition RawCitedEvidence ::
    "uuid option \<Rightarrow> string \<Rightarrow> string \<Rightarrow> flt \<Rightarrow> raw_cited_evidence py" where
  "RawCitedEvidence i source claim conf =
     (if in_unit conf
      then Inr \<lparr>cited_id = i, cited_source = source, cited_claim = claim, cited_confidence = conf\<rparr>
      else Inl (Validation_Error ''confidence''))"

datatype claim_type = Single_Domain | Cross_Domain_Pattern

record synthesized_claim =
  claim_text :: string
  claim_kind :: claim_type
  supporting_evidence :: "evidence list"
  claim_uncertainty :: uncertainty_estimate
  claim_uncertainty_bounds :: "(flt \<times> flt) option"
  claim_assumptions :: "string list option"

definition SynthesizedClaim ::
    "string \<Rightarrow> claim_type \<Rightarrow> evidence list \<Rightarrow> flt option \<Rightarrow> uncertainty_estimate option \<Rightarrow>
     (flt \<times> flt) option \<Rightarrow> string list option \<Rightarrow> synthesized_claim py" where
  "SynthesizedClaim text kind evs confidence uncertainty bounds assumptions =
     py_bind (init_uncertainty confidence uncertainty) (\<lambda>u.
       Inr \<lparr>claim_text = text, claim_kind = kind, supporting_evidence = evs,
            claim_uncertainty = u, claim_uncertainty_bounds = bounds,
            claim_assumptions = assumptions\<rparr>)"

definition claim_confidence :: "synthesized_claim \<Rightarrow> flt" where
  "claim_confidence c = point_estimate (claim_uncertainty c)"

record synthesis_output =
  claims :: "synthesized_claim list"
  evidence_gaps :: "string list"

datatype severity = Low | Medium | High

record critic_flag =
  flag_claim_text :: string
  flagged_reason :: string
  flag_severity :: severity
  flagged_domains :: "string list option"

section \<open>Facts\<close>

text \<open>Every floating-point field of an evidence item holds a binary64 value.\<close>

definition valid_evidence :: "evidence \<Rightarrow> bool" where
  "valid_evidence e \<longleftrightarrow> valid_estimate (ev_uncertainty e) \<and>
     fl64 (point_estimate (ev_uncertainty e)) = point_estimate (ev_uncertainty e) \<and>
     fl64 (lower_bound (ev_uncertainty e)) = lower_bound (ev_uncertainty e) \<and>
     fl64 (upper_bound (ev_uncertainty e)) = upper_bound (ev_uncertainty e)"

lemma from_legacy_confidence_Inr:
  assumes "in_unit c" "fl64 c = c"
  shows "\<exists>u. from_legacy_confidence c src = Inr u \<and> valid_estimate u \<and> point_estimate u = c \<and>
    est_source u = src"
proof -
  have "0 \<le> DEFAULT_LEGACY_FALLBACK_MARGIN"
    by (simp add: DEFAULT_LEGACY_FALLBACK_MARGIN_def b64.rnd_nonneg)
  then show ?thesis
    using assms from_point_estimate_Inr [of c DEFAULT_LEGACY_FALLBACK_MARGIN src]
    by (simp add: from_legacy_confidence_eq)
qed

lemma init_uncertainty_confidence:
  assumes "in_unit c" "fl64 c = c"
  obtains u where "init_uncertainty (Some c) None = Inr u" "valid_estimate u" "point_estimate u = c"
    "est_source u = Model_Uncertainty"
  using from_legacy_confidence_Inr [OF assms, of Model_Uncertainty] assms(1)
  by (auto simp: init_uncertainty_def in_unit_def)

section \<open>Reading back a printed identifier\<close>

lemma hex_value_digit: "0 \<le> d \<Longrightarrow> d < 16 \<Longrightarrow> hex_value (hex_digit d) = Some d"
  by (auto simp: hex_value_def hex_digit_def char_code_def Let_def)

lemma hex_fixed_digits: "c \<in> set (hex_fixed k n) \<Longrightarrow> hex_value c \<noteq> None"
  by (induction k arbitrary: n) (auto simp: hex_value_digit)

lemma length_hex_fixed [simp]: "length (hex_fixed k n) = k"
  by (induction k arbitrary: n) auto

lemma hex_value_space: "is_space c \<Longrightarrow> hex_value c = None"
  by (auto simp: is_space_def hex_value_def Let_def)

lemma hex_value_punctuation:
  "hex_value CHR ''u'' = None" "hex_value CHR ''{'' = None" "hex_value CHR ''}'' = None"
  "hex_value CHR ''-'' = None" "hex_value CHR ''+'' = None" "hex_value CHR ''x'' = None"
  "hex_value CHR ''X'' = None" "hex_value CHR ''_'' = None"
  by code_simp+

lemma hex_digits_from_append:
  "\<forall>c\<in>set s. hex_value c \<noteq> None \<Longrightarrow>
     hex_digits_from acc (s @ t) = (case hex_digits_from acc s of None \<Rightarrow> None | Some a \<Rightarrow> hex_digits_from a t)"
  by (induction s arbitrary: acc) auto

lemma hex_digits_from_fixed:
  "hex_digits_from acc (hex_fixed k n) = Some (acc * 16 ^ k + int (n mod 16 ^ k))"
proof (induction k arbitrary: n)
  case (Suc k)
  have "hex_digits_from acc (hex_fixed (Suc k) n) =
      hex_digits_from (acc * 16 ^ k + int (n div 16 mod 16 ^ k)) [hex_digit (int (n mod 16))]"
    using Suc [of "n div 16"] by (simp add: hex_digits_from_append hex_fixed_digits)
  also have "\<dots> = Some (16 * (acc * 16 ^ k + int (n div 16 mod 16 ^ k)) + int (n mod 16))"
    by (simp add: hex_value_digit)
  also have "16 * (acc * 16 ^ k + int (n div 16 mod 16 ^ k)) + int (n mod 16) =
      acc * 16 ^ Suc k + int (16 * (n div 16 mod 16 ^ k) + n mod 16)"
    by (simp add: algebra_simps)
  also have "16 * (n div 16 mod 16 ^ k) + n mod 16 = n mod 16 ^ Suc k"
    by (simp add: mod_mult2_eq)
  finally show ?case .
qed simp

lemma str_replace_absent: "c \<notin> set s \<Longrightarrow> str_replace (c # old) new s = s"
  by (induction s) (auto simp: str_replace.simps [of "c # old" new "[]"]
      str_replace.simps [of "c # old" new "_ # _"])

lemma dropWhile_none: "\<forall>c\<in>set s. \<not> P c \<Longrightarrow> dropWhile P s = s"
  by (cases s) auto

lemma int_base16_digits:
  assumes digits: "\<forall>c\<in>set h. hex_value c \<noteq> None" and len: "2 \<le> length h"
  shows "int_base16 h = hex_digits_from 0 h"
proof -
  have "\<forall>c\<in>set h. \<not> is_space c" using digits hex_value_space by blast
  then have strip: "str_strip h = h" by (simp add: str_strip_def dropWhile_none)
  obtain c d cs where h: "h = c # d # cs"
    using len by (cases h; cases "tl h") auto
  then obtain v where v: "hex_value c = Some v" and d: "hex_value d \<noteq> None" using digits by auto
  then have "c \<noteq> CHR ''-''" "c \<noteq> CHR ''+''" "d \<noteq> CHR ''x''" "d \<noteq> CHR ''X''"
    using hex_value_punctuation by auto
  then show ?thesis
    using strip v by (simp add: int_base16_def h hex_prefixed_def hex_body_def)
qed

declare hex_fixed.simps [simp del]

lemma uuid_parse_str: "u < 2 ^ 128 \<Longrightarrow> uuid_parse (uuid_str u) = Inr u"
proof -
  assume u: "u < 2 ^ 128"
  let ?h = "hex_fixed 32 u"
  have digits: "\<forall>c\<in>set ?h. hex_value c \<noteq> None" using hex_fixed_digits by blast
  have sub: "set (take i (drop j ?h)) \<subseteq> set ?h" for i j
    by (meson order_trans set_drop_subset set_take_subset)
  have chars: "c \<in> set (uuid_str u) \<Longrightarrow> c = CHR ''-'' \<or> c \<in> set ?h" for c
    using sub [of 8 0] sub [of 4 8] sub [of 4 12] sub [of 4 16] set_drop_subset [of 20 ?h]
    unfolding uuid_str_def Let_def set_append drop_0 by auto
  have not_h: "hex_value c = None \<Longrightarrow> c \<notin> set ?h" for c using digits by blast
  have "CHR ''u'' \<notin> set (uuid_str u)" "CHR ''{'' \<notin> set (uuid_str u)" "CHR ''}'' \<notin> set (uuid_str u)"
    using chars [of "CHR ''u''"] chars [of "CHR ''{''"] chars [of "CHR ''}''"]
      not_h [OF hex_value_punctuation(1)] not_h [OF hex_value_punctuation(2)]
      not_h [OF hex_value_punctuation(3)]
    by auto
  then have pre: "str_replace ''uuid:'' [] (str_replace ''urn:'' [] (uuid_str u)) = uuid_str u"
    and "\<forall>c\<in>set (uuid_str u). \<not> (c = CHR ''{'' \<or> c = CHR ''}'')"
    by (auto simp: str_replace_absent)
  then have braces: "strip_braces (uuid_str u) = uuid_str u"
    using dropWhile_none [of "uuid_str u" "\<lambda>c. c = CHR ''{'' \<or> c = CHR ''}''"]
      dropWhile_none [of "rev (uuid_str u)" "\<lambda>c. c = CHR ''{'' \<or> c = CHR ''}''"]
    by (simp add: strip_braces_def Let_def)
  have keep: "filter (\<lambda>c. c \<noteq> CHR ''-'') s = s" if "set s \<subseteq> set ?h" for s
    using that not_h [OF hex_value_punctuation(4)] by (intro filter_True) auto
  have "filter (\<lambda>c. c \<noteq> CHR ''-'') (uuid_str u) = take 8 ?h @ take 4 (drop 8 ?h) @
      take 4 (drop 12 ?h) @ take 4 (drop 16 ?h) @ drop 20 ?h"
    using sub [of 8 0] sub [of 4 8] sub [of 4 12] sub [of 4 16] set_drop_subset [of 20 ?h]
    by (simp add: uuid_str_def Let_def keep)
  also have "\<dots> = ?h"
    using append_take_drop_id [of 8 ?h] append_take_drop_id [of 4 "drop 8 ?h"]
      append_take_drop_id [of 4 "drop 12 ?h"] append_take_drop_id [of 4 "drop 16 ?h"]
    by (simp only: drop_drop) simp
  finally have "filter (\<lambda>c. c \<noteq> CHR ''-'') (uuid_str u) = ?h" .
  moreover have "int_base16 ?h = Some (int u)"
    using u int_base16_digits [OF digits] hex_digits_from_fixed [of 0 32 u] by simp
  ultimately show ?thesis
    using u by (simp add: uuid_parse_def Let_def pre braces)
qed

end
