(* ===== verification/Citation.thy ===== *)
theory Citation
  imports Evidence
begin

text \<open>
  The citation mapper (\<open>orchestrator/agents/synthesis/citation_mapper.py\<close>): the indices it
  builds over the gathered evidence, the lookup of a citation by identifier with a fallback to
  normalised text, and the telemetry counters the lookup updates. Logging is left out.
\<close>

section \<open>State and construction\<close>

record citation_mapper =
  evidence_pool :: "evidence list"
  evidence_domain_map :: "(uuid, string) dict"
  id_index :: "(uuid, evidence) dict"
  text_index :: "(string \<times> string, evidence list) dict"
  total_citations :: nat
  matched_by_id_count :: nat
  matched_by_text_fallback_count :: nat
  citation_missing_id_count :: nat
  citation_ambiguous_fallback_count :: nat

text \<open>\<open>re.sub(r"\s+", "", text).lower()\<close>.\<close>

definition normalize_text :: "string \<Rightarrow> string" where
  "normalize_text t = str_lower (filter (\<lambda>c. \<not> is_space c) t)"

definition text_key :: "evidence \<Rightarrow> string \<times> string" where
  "text_key e = (normalize_text (ev_source e), normalize_text (ev_claim e))"

definition index_text ::
    "evidence \<Rightarrow> (string \<times> string, evidence list) dict \<Rightarrow> (string \<times> string, evidence list) dict" where
  "index_text e d = dict_set (text_key e) (dict_get_or d (text_key e) [] @ [e]) d"

text \<open>The pairs of an evidence item and the agent that reported it, in gathering order.\<close>

definition tagged_evidence :: "agent_output list \<Rightarrow> (evidence \<times> string) list" where
  "tagged_evidence outs = concat (map (\<lambda>o'. map (\<lambda>e. (e, agent_name o')) (evidence_list o')) outs)"

definition CitationMapper :: "agent_output list \<Rightarrow> citation_mapper" where
  "CitationMapper outs =
     (let tagged = tagged_evidence outs; pool = map fst tagged
      in \<lparr>evidence_pool = pool,
          evidence_domain_map = fold (\<lambda>(e, name). dict_set (ev_id e) name) tagged [],
          id_index = fold (\<lambda>e. dict_set (ev_id e) e) pool [],
          text_index = fold index_text pool [],
          total_citations = 0, matched_by_id_count = 0, matched_by_text_fallback_count = 0,
          citation_missing_id_count = 0, citation_ambiguous_fallback_count = 0\<rparr>)"

definition citation_fallback_rate :: "citation_mapper \<Rightarrow> flt" where
  "citation_fallback_rate m =
     (if total_citations m = 0 then 0
      else fdiv (of_nat (matched_by_text_fallback_count m)) (of_nat (total_citations m)))"

section \<open>Lookup\<close>

text \<open>Every path of \<open>_find_matching_evidence_fields\<close>, with the updated counters.\<close>

definition find_matching_evidence_fields ::
    "citation_mapper \<Rightarrow> uuid option \<Rightarrow> string \<Rightarrow> string \<Rightarrow> citation_mapper \<times> evidence option" where
  "find_matching_evidence_fields m eid source claim =
     (let m = m\<lparr>total_citations := total_citations m + 1\<rparr>
      in case (case eid of None \<Rightarrow> None | Some i \<Rightarrow> dict_get (id_index m) i) of
           Some e \<Rightarrow> (m\<lparr>matched_by_id_count := matched_by_id_count m + 1\<rparr>, Some e)
         | None \<Rightarrow>
             (let m = m\<lparr>citation_missing_id_count := citation_missing_id_count m + 1\<rparr>;
                  candidates =
                    dict_get_or (text_index m) (normalize_text source, normalize_text claim) []
              in case candidates of
                   [] \<Rightarrow> (m, None)
                 | [e] \<Rightarrow> (m\<lparr>matched_by_text_fallback_count :=
                              matched_by_text_fallback_count m + 1\<rparr>, Some e)
                 | _ \<Rightarrow> (m\<lparr>citation_ambiguous_fallback_count :=
                              citation_ambiguous_fallback_count m + 1\<rparr>, None)))"

definition find_matching_evidence ::
    "citation_mapper \<Rightarrow> raw_cited_evidence \<Rightarrow> citation_mapper \<times> evidence option" where
  "find_matching_evidence m c =
     find_matching_evidence_fields m (cited_id c) (cited_source c) (cited_claim c)"

text \<open>The loop shared by \<open>map_citations\<close> and \<open>_verify_evidence_pool_membership\<close>: it
  stops at the first item without a match.\<close>

fun match_all ::
    "(citation_mapper \<Rightarrow> 'a \<Rightarrow> citation_mapper \<times> evidence option) \<Rightarrow>
     citation_mapper \<Rightarrow> 'a list \<Rightarrow> citation_mapper \<times> evidence list option" where
  "match_all f m [] = (m, Some [])"
| "match_all f m (c # cs) =
     (case f m c of
        (m', None) \<Rightarrow> (m', None)
      | (m', Some e) \<Rightarrow>
          (case match_all f m' cs of (m'', r) \<Rightarrow> (m'', map_option (Cons e) r)))"

definition map_citations ::
    "citation_mapper \<Rightarrow> raw_cited_evidence list \<Rightarrow> citation_mapper \<times> evidence list option" where
  "map_citations m cs = (if cs = [] then (m, None) else match_all find_matching_evidence m cs)"

definition verify_evidence_pool_membership ::
    "citation_mapper \<Rightarrow> evidence list \<Rightarrow> citation_mapper \<times> evidence list option" where
  "verify_evidence_pool_membership m evs =
     (if evs = [] then (m, None)
      else match_all (\<lambda>m e. find_matching_evidence_fields m (Some (ev_id e)) (ev_source e) (ev_claim e))
             m evs)"

text \<open>\<open>validate_claim\<close> updates the claim in place and reports success.\<close>

definition validate_claim ::
    "citation_mapper \<Rightarrow> synthesized_claim \<Rightarrow> citation_mapper \<times> synthesized_claim \<times> bool" where
  "validate_claim m c =
     (if supporting_evidence c = [] then (m, c, False)
      else case verify_evidence_pool_membership m (supporting_evidence c) of
             (m', None) \<Rightarrow> (m', c, False)
           | (m', Some evs) \<Rightarrow> (m', c\<lparr>supporting_evidence := evs\<rparr>, True))"

section \<open>Domains of a claim\<close>

definition known_domains :: "string list" where
  "known_domains =
     [''usgs'', ''noaa'', ''openaq'', ''open-meteo'', ''firms'', ''rag'', ''causal'', ''seismic'',
      ''ocean'', ''wildfire'', ''atmosphere'', ''air_quality'', ''simulation'']"

text \<open>The domain one evidence item contributes, if any.\<close>

definition cited_domain :: "citation_mapper \<Rightarrow> evidence \<Rightarrow> string option" where
  "cited_domain m e =
     (case dict_get (evidence_domain_map m) (ev_id e) of
        Some d \<Rightarrow> Some d
      | None \<Rightarrow>
          (let md = dict_get_or (extra_metadata e) ''domain'' JNull
           in if truthy md then Some (json_str md)
              else if ev_source e \<noteq> [] then
                Some (case List.find (str_contains (str_lower (ev_source e))) known_domains of
                        Some known \<Rightarrow> known | None \<Rightarrow> ev_source e)
              else None))"

definition get_cited_domains :: "citation_mapper \<Rightarrow> synthesized_claim \<Rightarrow> string set" where
  "get_cited_domains m c =
     fold (\<lambda>e S. case cited_domain m e of None \<Rightarrow> S | Some d \<Rightarrow> insert d S)
       (supporting_evidence c) {}"

section \<open>Reference search\<close>

text \<open>
  What a lookup means, without indices or counters: the last evidence item gathered under the
  cited identifier, else the only item whose normalised source and claim are those cited.
\<close>

definition search_by_text :: "evidence list \<Rightarrow> string \<Rightarrow> string \<Rightarrow> evidence list" where
  "search_by_text pool source claim =
     filter (\<lambda>e. text_key e = (normalize_text source, normalize_text claim)) pool"

definition search_evidence :: "evidence list \<Rightarrow> uuid option \<Rightarrow> string \<Rightarrow> string \<Rightarrow> evidence option" where
  "search_evidence pool eid source claim =
     (case (case eid of None \<Rightarrow> None | Some i \<Rightarrow> List.find (\<lambda>e. ev_id e = i) (rev pool)) of
        Some e \<Rightarrow> Some e
      | None \<Rightarrow> (case search_by_text pool source claim of [e] \<Rightarrow> Some e | _ \<Rightarrow> None))"

section \<open>The indices agree with the pool\<close>

definition indices_ok :: "citation_mapper \<Rightarrow> bool" where
  "indices_ok m \<longleftrightarrow>
     (\<forall>i. dict_get (id_index m) i = List.find (\<lambda>e. ev_id e = i) (rev (evidence_pool m))) \<and>
     (\<forall>k. dict_get_or (text_index m) k [] = filter (\<lambda>e. text_key e = k) (evidence_pool m))"

definition counters_ok :: "citation_mapper \<Rightarrow> bool" where
  "counters_ok m \<longleftrightarrow>
     total_citations m = matched_by_id_count m + citation_missing_id_count m \<and>
     matched_by_text_fallback_count m + citation_ambiguous_fallback_count m
       \<le> citation_missing_id_count m"

lemma map_of_find: "map_of (map (\<lambda>e. (f e, e)) es) i = List.find (\<lambda>e. f e = i) es"
  by (induction es) auto

lemma id_index_fold:
  "dict_get (fold (\<lambda>e. dict_set (ev_id e) e) pool []) i = List.find (\<lambda>e. ev_id e = i) (rev pool)"
proof -
  have "fold (\<lambda>e. dict_set (ev_id e) e) pool d =
      fold (\<lambda>(k, v). dict_set k v) (map (\<lambda>e. (ev_id e, e)) pool) d" for d
    by (induction pool arbitrary: d) auto
  then show ?thesis
    by (simp add: dict.lookup_fold_store rev_map map_of_find option.case_eq_if)
qed

lemma text_index_fold:
  "dict_get_or (fold index_text pool d) k [] =
     dict_get_or d k [] @ filter (\<lambda>e. text_key e = k) pool"
  by (induction pool arbitrary: d) (auto simp: index_text_def dict_simps)

lemma CitationMapper_pool:
  "evidence_pool (CitationMapper outs) = concat (map evidence_list outs)"
  by (simp add: CitationMapper_def Let_def tagged_evidence_def map_concat comp_def)

lemma CitationMapper_indices: "indices_ok (CitationMapper outs)"
proof -
  have "dict_get_or [] k [] = ([] :: evidence list)" for k :: "string \<times> string"
    by (simp add: dict_get_or_def)
  then show ?thesis
    by (simp add: indices_ok_def CitationMapper_def Let_def id_index_fold text_index_fold)
qed

lemma CitationMapper_counters: "counters_ok (CitationMapper outs)"
  by (simp add: counters_ok_def CitationMapper_def Let_def)

section \<open>What a lookup keeps and returns\<close>

text \<open>The part of the mapper that no lookup changes.\<close>

definition same_indices :: "citation_mapper \<Rightarrow> citation_mapper \<Rightarrow> bool" where
  "same_indices m m' \<longleftrightarrow> evidence_pool m' = evidence_pool m \<and>
     evidence_domain_map m' = evidence_domain_map m \<and> id_index m' = id_index m \<and>
     text_index m' = text_index m"

lemma same_indices_refl [simp]: "same_indices m m"
  by (simp add: same_indices_def)

lemma same_indices_trans: "same_indices m m' \<Longrightarrow> same_indices m' m'' \<Longrightarrow> same_indices m m''"
  by (simp add: same_indices_def)

lemma indices_ok_same: "same_indices m m' \<Longrightarrow> indices_ok m' = indices_ok m"
  by (simp add: indices_ok_def same_indices_def)

lemma find_matching_frame:
  "find_matching_evidence_fields m eid s c = (m', r) \<Longrightarrow> same_indices m m'"
  by (auto simp: find_matching_evidence_fields_def Let_def same_indices_def
      split: option.splits list.splits)

lemma find_matching_counters:
  "find_matching_evidence_fields m eid s c = (m', r) \<Longrightarrow> counters_ok m \<Longrightarrow> counters_ok m'"
  by (auto simp: find_matching_evidence_fields_def Let_def counters_ok_def
      split: option.splits list.splits)

lemma find_matching_search:
  assumes "indices_ok m"
  shows "snd (find_matching_evidence_fields m eid s c) = search_evidence (evidence_pool m) eid s c"
  using assms
  by (auto simp: find_matching_evidence_fields_def search_evidence_def search_by_text_def
      indices_ok_def Let_def split: option.splits list.splits)

lemma search_evidence_in_pool: "search_evidence pool eid s c = Some e \<Longrightarrow> e \<in> set pool"
  by (auto simp: search_evidence_def search_by_text_def filter_eq_Cons_iff
      split: option.splits list.splits dest: find_Some_in)

text \<open>Interface of a matcher: what the loop over citations relies on.\<close>

locale matcher =
  fixes f :: "citation_mapper \<Rightarrow> 'a \<Rightarrow> citation_mapper \<times> evidence option"
    and ref :: "evidence list \<Rightarrow> 'a \<Rightarrow> evidence option"
  assumes f_frame: "f m c = (m', r) \<Longrightarrow> same_indices m m'"
    and f_counters: "f m c = (m', r) \<Longrightarrow> counters_ok m \<Longrightarrow> counters_ok m'"
    and f_ref: "indices_ok m \<Longrightarrow> snd (f m c) = ref (evidence_pool m) c"
begin

lemma match_all_frame: "match_all f m cs = (m', r) \<Longrightarrow> same_indices m m'"
proof (induction cs arbitrary: m m' r)
  case (Cons c cs)
  then show ?case
    by (auto split: prod.splits option.splits dest: f_frame intro: same_indices_trans)
qed simp

lemma match_all_counters: "match_all f m cs = (m', r) \<Longrightarrow> counters_ok m \<Longrightarrow> counters_ok m'"
proof (induction cs arbitrary: m m' r)
  case (Cons c cs)
  then show ?case
    by (auto split: prod.splits option.splits dest: f_counters)
qed simp

lemma match_all_ref:
  "indices_ok m \<Longrightarrow> snd (match_all f m cs) = those (map (ref (evidence_pool m)) cs)"
proof (induction cs arbitrary: m)
  case (Cons c cs)
  obtain m' r where fm: "f m c = (m', r)" by force
  then have same: "same_indices m m'" and r: "r = ref (evidence_pool m) c"
    using f_frame f_ref [OF Cons.prems, of c] by auto
  have "indices_ok m'" using Cons.prems same by (simp add: indices_ok_same)
  then have "snd (match_all f m' cs) = those (map (ref (evidence_pool m)) cs)"
    using Cons.IH same by (simp add: same_indices_def)
  then show ?case using fm r by (auto split: option.splits prod.splits)
qed simp

end

interpretation cited: matcher find_matching_evidence
    "\<lambda>pool c. search_evidence pool (cited_id c) (cited_source c) (cited_claim c)"
  by unfold_locales
    (auto simp: find_matching_evidence_def find_matching_search
      dest: find_matching_frame find_matching_counters)

interpretation member: matcher
    "\<lambda>m e. find_matching_evidence_fields m (Some (ev_id e)) (ev_source e) (ev_claim e)"
    "\<lambda>pool e. search_evidence pool (Some (ev_id e)) (ev_source e) (ev_claim e)"
  by unfold_locales
    (auto simp: find_matching_search dest: find_matching_frame find_matching_counters)

lemma map_citations_frame: "map_citations m cs = (m', r) \<Longrightarrow> same_indices m m'"
  by (auto simp: map_citations_def split: if_splits dest: cited.match_all_frame)

lemma map_citations_counters: "map_citations m cs = (m', r) \<Longrightarrow> counters_ok m \<Longrightarrow> counters_ok m'"
  by (auto simp: map_citations_def split: if_splits dest: cited.match_all_counters)

lemma map_citations_ref:
  "indices_ok m \<Longrightarrow> snd (map_citations m cs) =
     (if cs = [] then None
      else those (map (\<lambda>c. search_evidence (evidence_pool m) (cited_id c) (cited_source c) (cited_claim c)) cs))"
  by (simp add: map_citations_def cited.match_all_ref)

lemma those_Some_iff: "those xs = Some ys \<longleftrightarrow> xs = map Some ys"
  by (induction xs arbitrary: ys) (auto split: option.splits)

lemma map_citations_in_pool:
  assumes "indices_ok m" "snd (map_citations m cs) = Some evs"
  shows "set evs \<subseteq> set (evidence_pool m) \<and> evs \<noteq> [] \<and> length evs = length cs"
proof -
  have "cs \<noteq> []" and eq: "map (\<lambda>c. search_evidence (evidence_pool m) (cited_id c) (cited_source c)
      (cited_claim c)) cs = map Some evs"
    using assms by (auto simp: map_citations_ref those_Some_iff split: if_splits)
  then have len: "length evs = length cs" by (metis length_map)
  have "e \<in> set (evidence_pool m)" if "e \<in> set evs" for e
  proof -
    have "Some e \<in> set (map Some evs)" using that by simp
    then show ?thesis
      unfolding eq [symmetric] by (auto dest: sym search_evidence_in_pool)
  qed
  then show ?thesis using len \<open>cs \<noteq> []\<close> by auto
qed

lemma validate_claim_cases:
  assumes "indices_ok m" "validate_claim m c = (m', c', ok)"
  shows "same_indices m m' \<and> (if ok then supporting_evidence c' \<noteq> [] \<and>
      set (supporting_evidence c') \<subseteq> set (evidence_pool m) \<and>
      c' = c\<lparr>supporting_evidence := supporting_evidence c'\<rparr>
    else c' = c)"
proof (cases "supporting_evidence c = []")
  case True
  then show ?thesis using assms by (simp add: validate_claim_def)
next
  case False
  obtain m1 r where v: "verify_evidence_pool_membership m (supporting_evidence c) = (m1, r)"
    by force
  then have all: "match_all (\<lambda>m e. find_matching_evidence_fields m (Some (ev_id e)) (ev_source e)
      (ev_claim e)) m (supporting_evidence c) = (m1, r)"
    using False by (simp add: verify_evidence_pool_membership_def)
  have same: "same_indices m m1" using all by (rule member.match_all_frame)
  have r: "r = those (map (\<lambda>e. search_evidence (evidence_pool m) (Some (ev_id e)) (ev_source e)
      (ev_claim e)) (supporting_evidence c))"
    using member.match_all_ref [OF assms(1), of "supporting_evidence c"] all by simp
  show ?thesis
  proof (cases r)
    case None
    then show ?thesis using assms(2) v False same by (simp add: validate_claim_def)
  next
    case (Some evs)
    then have eq: "map (\<lambda>e. search_evidence (evidence_pool m) (Some (ev_id e)) (ev_source e)
        (ev_claim e)) (supporting_evidence c) = map Some evs"
      using r by (simp add: those_Some_iff)
    have "e \<in> set (evidence_pool m)" if "e \<in> set evs" for e
    proof -
      have "Some e \<in> set (map Some evs)" using that by simp
      then show ?thesis
        unfolding eq [symmetric] by (auto dest: sym search_evidence_in_pool)
    qed
    moreover have "evs \<noteq> []" using eq False by auto
    ultimately show ?thesis
      using assms(2) v False Some same by (auto simp: validate_claim_def)
  qed
qed

lemma get_cited_domains_eq:
  "get_cited_domains m c = {d. \<exists>e\<in>set (supporting_evidence c). cited_domain m e = Some d}"
proof -
  have "fold (\<lambda>e S. case cited_domain m e of None \<Rightarrow> S | Some d \<Rightarrow> insert d S) es A =
      A \<union> {d. \<exists>e\<in>set es. cited_domain m e = Some d}" for es A
    by (induction es arbitrary: A) (auto split: option.splits)
  then show ?thesis by (simp add: get_cited_domains_def)
qed

lemma domain_map_mem:
  assumes "e \<in> set (evidence_pool (CitationMapper outs))"
  shows "\<exists>n. dict_get (evidence_domain_map (CitationMapper outs)) (ev_id e) = Some n \<and>
    (\<exists>e'. (e', n) \<in> set (tagged_evidence outs) \<and> ev_id e' = ev_id e)"
proof -
  let ?kvs = "map (\<lambda>(e, n). (ev_id e, n)) (tagged_evidence outs)"
  have fold: "fold (\<lambda>(e, n). dict_set (ev_id e) n) t d = fold (\<lambda>(k, v). dict_set k v)
      (map (\<lambda>(e, n). (ev_id e, n)) t) d" for t and d :: "(uuid, string) dict"
    by (induction t arbitrary: d) auto
  have "evidence_domain_map (CitationMapper outs) = fold (\<lambda>(k, v). dict_set k v) ?kvs []"
    by (simp add: CitationMapper_def Let_def fold)
  then have get: "dict_get (evidence_domain_map (CitationMapper outs)) (ev_id e) =
      map_of (rev ?kvs) (ev_id e)"
    by (simp add: dict.lookup_fold_store option.case_eq_if)
  have "ev_id e \<in> fst ` set (rev ?kvs)"
    using assms by (force simp: CitationMapper_def Let_def)
  then obtain n where n: "map_of (rev ?kvs) (ev_id e) = Some n"
    by (metis map_of_eq_None_iff not_None_eq)
  then have "(ev_id e, n) \<in> set ?kvs" by (metis map_of_SomeD set_rev)
  then show ?thesis using get n by auto
qed

section \<open>Properties\<close>

text \<open>the index lookups of the citation mapper return exactly what a linear search of the
  gathered evidence returns: the last item with the cited identifier, else the single item with
  the cited source and claim up to white space and case, else nothing. This holds for a mapper
  built from any agent outputs and after any earlier citations were mapped.\<close>

theorem map_citations_equals_search:
  assumes "(m, r0) = map_citations (CitationMapper outs) earlier"
  shows "snd (map_citations m cs) =
    (if cs = [] then None
     else those (map (\<lambda>c. search_evidence (concat (map evidence_list outs)) (cited_id c)
       (cited_source c) (cited_claim c)) cs))"
proof -
  have "same_indices (CitationMapper outs) m"
    using assms [symmetric] by (rule map_citations_frame)
  then have "indices_ok m" "evidence_pool m = concat (map evidence_list outs)"
    using CitationMapper_indices [of outs] CitationMapper_pool [of outs]
    by (simp add: indices_ok_same, simp add: same_indices_def)
  then show ?thesis by (simp add: map_citations_ref)
qed

definition sample_evidence :: "uuid \<Rightarrow> string \<Rightarrow> string \<Rightarrow> uncertainty_estimate \<Rightarrow> evidence" where
  "sample_evidence i src cl u = \<lparr>ev_id = i, ev_source = src, ev_claim = cl, ev_uncertainty = u,
     retrieved_at = 0, document_id = None, chunk_id = JNull, title = None, source_url = None,
     extra_metadata = [], ev_uncertainty_bounds = None, ev_assumptions = None\<rparr>"

definition sample_outputs :: "agent_output list" where
  "sample_outputs =
     [\<lparr>agent_name = ''seismic'',
       evidence_list = [sample_evidence 1 ''USGS'' ''M 6.0 quake'' est_low], out_errors = []\<rparr>,
      \<lparr>agent_name = ''ocean'',
       evidence_list = [sample_evidence 2 ''NOAA'' ''warm water'' est_high], out_errors = []\<rparr>,
      \<lparr>agent_name = ''wildfire'', evidence_list = [], out_errors = [''HTTP 500'']\<rparr>]"

definition cite :: "uuid option \<Rightarrow> string \<Rightarrow> string \<Rightarrow> raw_cited_evidence" where
  "cite i src cl = \<lparr>cited_id = i, cited_source = src, cited_claim = cl, cited_confidence = 1\<rparr>"

theorem map_citations_equals_search_witness:
  "map_option (map ev_id) (snd (map_citations
     (fst (map_citations (CitationMapper sample_outputs) [cite (Some 7) ''nowhere'' ''x'']))
     [cite (Some 2) ''x'' ''y'', cite None ''usgs '' ''m6.0 QUAKE''])) = Some [2, 1]"
proof -
  let ?p = "map_citations (CitationMapper sample_outputs) [cite (Some 7) ''nowhere'' ''x'']"
  have "(fst ?p, snd ?p) = ?p" by simp
  from map_citations_equals_search [OF this, of "[cite (Some 2) ''x'' ''y'',
      cite None ''usgs '' ''m6.0 QUAKE'']"]
  show ?thesis by (simp only:) code_simp
qed

text \<open>after any sequence of mapped claims the telemetry is consistent: every citation is
  counted either as matched by identifier or as missing one, text fallbacks and ambiguities are
  among the missing, and the reported fallback rate lies between 0 and 1.\<close>

theorem citation_counters_consistent:
  "counters_ok (fold (\<lambda>cs m. fst (map_citations m cs)) css (CitationMapper outs)) \<and>
   in_unit (citation_fallback_rate (fold (\<lambda>cs m. fst (map_citations m cs)) css (CitationMapper outs)))"
proof -
  have "counters_ok m \<Longrightarrow> counters_ok (fold (\<lambda>cs m. fst (map_citations m cs)) css m)" for m
    by (induction css arbitrary: m) (auto, metis map_citations_counters prod.collapse)
  then have c: "counters_ok (fold (\<lambda>cs m. fst (map_citations m cs)) css (CitationMapper outs))"
    using CitationMapper_counters by blast
  have "in_unit (citation_fallback_rate m)" if "counters_ok m" for m
  proof (cases "total_citations m = 0")
    case False
    have "of_nat (matched_by_text_fallback_count m) \<le> (of_nat (total_citations m) :: rat)"
      using that by (simp add: counters_ok_def)
    then have "0 \<le> of_nat (matched_by_text_fallback_count m) / (of_nat (total_citations m) :: rat)"
      "of_nat (matched_by_text_fallback_count m) / (of_nat (total_citations m) :: rat) \<le> 1"
      using False by (simp_all add: divide_le_eq)
    from b64.rnd_unit [OF this] show ?thesis
      using False by (simp add: citation_fallback_rate_def in_unit_def flt_defs)
  qed (simp add: citation_fallback_rate_def in_unit_def)
  then show ?thesis using c by blast
qed

end
