(* ===== verification/Synthesis.thy ===== *)
theory Synthesis
  imports Citation
begin

text \<open>
  The synthesis agent (\<open>orchestrator/agents/synthesis/agent.py\<close>): gap detection, the reading
  of the model's JSON reply claim by claim, citation verification, uncertainty propagation, the
  cross-domain rule and the local fallbacks. The language model is a parameter: \<open>llm\<close> is the
  outcome of \<open>query_llm\<close>, either an exception or a text. The prompt text is not modelled; the
  response schema sent with it is the predicate \<open>conforms_reply\<close>. \<open>str_float\<close> is the
  conversion of numeric text to a float that the pydantic library applies to a \<open>float\<close> field.
\<close>

section \<open>Reading one citation\<close>

definition pydantic_float :: "(string \<Rightarrow> flt option) \<Rightarrow> json \<Rightarrow> flt py" where
  "pydantic_float str_float j =
     (case j of
        JFloat x \<Rightarrow> Inr x
      | JInt i \<Rightarrow> Inr (fl64 (of_int i))
      | JBool b \<Rightarrow> Inr (if b then 1 else 0)
      | JStr s \<Rightarrow> (case str_float s of None \<Rightarrow> Inl (Validation_Error ''float_parsing'') | Some x \<Rightarrow> Inr x)
      | _ \<Rightarrow> Inl (Validation_Error ''float_type''))"

definition pydantic_str :: "json \<Rightarrow> string py" where
  "pydantic_str j = (case j of JStr s \<Rightarrow> Inr s | _ \<Rightarrow> Inl (Validation_Error ''string_type''))"

text \<open>\<open>c.get("evidence_id") or c.get("id")\<close>, then \<open>uuid.UUID(str(...))\<close> with a
  \<open>ValueError\<close> read as a missing identifier.\<close>

definition parse_cited_id :: "json \<Rightarrow> uuid option py" where
  "parse_cited_id c =
     py_bind (json_get c ''evidence_id'') (\<lambda>a.
     py_bind (if truthy a then Inr a else json_get c ''id'') (\<lambda>raw.
       Inr (if truthy raw
            then (case uuid_parse (json_str raw) of Inr u \<Rightarrow> Some u | Inl _ \<Rightarrow> None)
            else None)))"

definition parse_citation :: "(string \<Rightarrow> flt option) \<Rightarrow> json \<Rightarrow> raw_cited_evidence py" where
  "parse_citation str_float c =
     py_bind (parse_cited_id c) (\<lambda>i.
     py_bind (json_index c ''source'') (\<lambda>s.
     py_bind (json_index c ''claim'') (\<lambda>cl.
     py_bind (json_get_or c ''confidence'' (JFloat 1)) (\<lambda>conf.
     py_bind (pydantic_str s) (\<lambda>s.
     py_bind (pydantic_str cl) (\<lambda>cl.
     py_bind (pydantic_float str_float conf) (\<lambda>conf.
       RawCitedEvidence i s cl conf)))))))"

definition parse_citations ::
    "(string \<Rightarrow> flt option) \<Rightarrow> json \<Rightarrow> raw_cited_evidence list py" where
  "parse_citations str_float raw_claim =
     py_bind (json_get_or raw_claim ''supporting_evidence'' (JArr [])) (\<lambda>ev.
     py_bind (json_iter ev) (\<lambda>cs. py_sequence (map (parse_citation str_float) cs)))"

section \<open>Building one claim\<close>

text \<open>The last evidence item with explicit bounds, and the last with assumptions, win.\<close>

definition last_bounds :: "evidence list \<Rightarrow> (flt \<times> flt) option" where
  "last_bounds evs = fold (\<lambda>e b. if ev_uncertainty_bounds e \<noteq> None then ev_uncertainty_bounds e else b)
     evs None"

definition last_assumptions :: "evidence list \<Rightarrow> string list option" where
  "last_assumptions evs =
     fold (\<lambda>e a. case ev_assumptions e of Some (x # xs) \<Rightarrow> Some (x # xs) | _ \<Rightarrow> a) evs None"

definition parse_claim_type :: "json \<Rightarrow> claim_type py" where
  "parse_claim_type raw_claim =
     py_bind (json_get_or raw_claim ''claim_type'' (JStr ''single_domain'')) (\<lambda>t.
       Inr (if t = JStr ''cross_domain_pattern'' then Cross_Domain_Pattern else Single_Domain))"

definition build_claim :: "json \<Rightarrow> evidence list \<Rightarrow> synthesized_claim py" where
  "build_claim raw_claim verified =
     py_bind (propagate_uncertainty (map ev_uncertainty verified)) (\<lambda>u.
     let bounds = (case last_bounds verified of None \<Rightarrow> Some (lower_bound u, upper_bound u) | b \<Rightarrow> b)
     in py_bind (parse_claim_type raw_claim) (\<lambda>kind.
        py_bind (json_index raw_claim ''text'') (\<lambda>t.
        py_bind (pydantic_str t) (\<lambda>t.
          SynthesizedClaim t kind verified None (Some u) bounds (last_assumptions verified)))))"

text \<open>
  The body of the loop over the claims of the reply. A rejected claim is \<open>None\<close>; rejecting one
  reads its text for the log, which raises when the text is missing.
\<close>

definition process_claim ::
    "(string \<Rightarrow> flt option) \<Rightarrow> int \<Rightarrow> citation_mapper \<Rightarrow> json \<Rightarrow>
     (citation_mapper \<times> synthesized_claim option) py" where
  "process_claim str_float min_domains m raw_claim =
     py_bind (parse_citations str_float raw_claim) (\<lambda>cs.
     case map_citations m cs of
       (m', None) \<Rightarrow> py_bind (json_index raw_claim ''text'') (\<lambda>_. Inr (m', None))
     | (m', Some verified) \<Rightarrow>
         py_bind (build_claim raw_claim verified) (\<lambda>candidate.
           if claim_kind candidate = Cross_Domain_Pattern \<and>
              int (card (get_cited_domains m' candidate)) < min_domains
           then Inr (m', None) else Inr (m', Some candidate)))"

fun process_claims ::
    "(string \<Rightarrow> flt option) \<Rightarrow> int \<Rightarrow> citation_mapper \<Rightarrow> json list \<Rightarrow> synthesized_claim list py" where
  "process_claims str_float min_domains m [] = Inr []"
| "process_claims str_float min_domains m (rc # rcs) =
     py_bind (process_claim str_float min_domains m rc) (\<lambda>(m', r).
     py_bind (process_claims str_float min_domains m' rcs) (\<lambda>cs.
       Inr (case r of None \<Rightarrow> cs | Some c \<Rightarrow> c # cs)))"

section \<open>The agent\<close>

definition collect_gaps :: "agent_output list \<Rightarrow> string list" where
  "collect_gaps outs = map agent_name (filter (\<lambda>o'. evidence_list o' = []) outs)"

definition fallback_claim :: "evidence \<Rightarrow> synthesized_claim py" where
  "fallback_claim e = SynthesizedClaim (ev_claim e) Single_Domain [e] (Some (ev_confidence e)) None
     (ev_uncertainty_bounds e) (ev_assumptions e)"

definition unable_claim :: "string \<Rightarrow> synthesized_claim py" where
  "unable_claim text = SynthesizedClaim text Single_Domain [] (Some 0) None None None"

definition no_evidence_text :: string where
  "no_evidence_text = ''Unable to gather sufficient evidence to answer the query.''"

definition no_claims_text :: string where
  "no_claims_text = ''Unable to gather sufficient evidence to support any synthesized claims.''"

definition synthesize_reply ::
    "(string \<Rightarrow> flt option) \<Rightarrow> int \<Rightarrow> agent_output list \<Rightarrow> json \<Rightarrow> synthesis_output py" where
  "synthesize_reply str_float min_domains outs parsed =
     py_bind (json_get_or parsed ''claims'' (JArr [])) (\<lambda>cl.
     py_bind (json_iter cl) (\<lambda>raw_claims.
     py_bind (process_claims str_float min_domains (CitationMapper outs) raw_claims) (\<lambda>valid.
     py_bind (if valid = [] then py_bind (unable_claim no_claims_text) (\<lambda>c. Inr [c])
              else Inr valid) (\<lambda>cs.
       Inr \<lparr>claims = cs, evidence_gaps = collect_gaps outs\<rparr>))))"

definition synthesize ::
    "(string \<Rightarrow> flt option) \<Rightarrow> int \<Rightarrow> stored_text py \<Rightarrow> agent_output list \<Rightarrow> synthesis_output py" where
  "synthesize str_float min_domains llm outs =
     (let all_evidence = concat (map evidence_list outs)
      in if all_evidence = []
         then py_bind (unable_claim no_evidence_text) (\<lambda>c.
                Inr \<lparr>claims = [c], evidence_gaps = collect_gaps outs\<rparr>)
         else case py_bind llm json_loads of
                Inl _ \<Rightarrow> py_bind (py_sequence (map fallback_claim all_evidence)) (\<lambda>cs.
                          Inr \<lparr>claims = cs, evidence_gaps = collect_gaps outs\<rparr>)
              | Inr parsed \<Rightarrow> synthesize_reply str_float min_domains outs parsed)"

section \<open>The response schema\<close>

definition obj_field :: "json \<Rightarrow> string \<Rightarrow> json option" where
  "obj_field j k = (case j of JObj kvs \<Rightarrow> dict_get kvs k | _ \<Rightarrow> None)"

definition obj_keys :: "json \<Rightarrow> string set" where
  "obj_keys j = (case j of JObj kvs \<Rightarrow> set (dict_keys kvs) | _ \<Rightarrow> {})"

fun is_jstr :: "json \<Rightarrow> bool" where
  "is_jstr (JStr s) = True"
| "is_jstr _ = False"

fun is_jnum :: "json \<Rightarrow> bool" where
  "is_jnum (JInt i) = True"
| "is_jnum (JFloat x) = True"
| "is_jnum _ = False"

definition field_is :: "(json \<Rightarrow> bool) \<Rightarrow> json \<Rightarrow> string \<Rightarrow> bool" where
  "field_is P j k \<longleftrightarrow> (case obj_field j k of None \<Rightarrow> False | Some v \<Rightarrow> P v)"

definition array_of :: "(json \<Rightarrow> bool) \<Rightarrow> json \<Rightarrow> bool" where
  "array_of P j = (case j of JArr xs \<Rightarrow> list_all P xs | _ \<Rightarrow> False)"

definition conforms_citation :: "json \<Rightarrow> bool" where
  "conforms_citation c \<longleftrightarrow>
     obj_keys c = {''evidence_id'', ''source'', ''claim'', ''confidence''} \<and>
     field_is (\<lambda>v. is_jstr v \<or> v = JNull) c ''evidence_id'' \<and>
     field_is is_jstr c ''source'' \<and> field_is is_jstr c ''claim'' \<and>
     field_is is_jnum c ''confidence''"

definition conforms_claim :: "json \<Rightarrow> bool" where
  "conforms_claim c \<longleftrightarrow>
     obj_keys c = {''text'', ''claim_type'', ''supporting_evidence'', ''confidence''} \<and>
     field_is is_jstr c ''text'' \<and>
     field_is (\<lambda>v. v \<in> {JStr ''single_domain'', JStr ''cross_domain_pattern''}) c ''claim_type'' \<and>
     field_is (array_of conforms_citation) c ''supporting_evidence'' \<and>
     field_is is_jnum c ''confidence''"

definition conforms_reply :: "json \<Rightarrow> bool" where
  "conforms_reply r \<longleftrightarrow> obj_keys r = {''claims'', ''evidence_gaps''} \<and>
     field_is (array_of conforms_claim) r ''claims'' \<and>
     field_is (array_of is_jstr) r ''evidence_gaps''"

text \<open>What the schema leaves open: each citation's confidence is in the unit interval.\<close>

definition citation_in_unit :: "json \<Rightarrow> bool" where
  "citation_in_unit c = field_is (\<lambda>v. case pydantic_float (\<lambda>_. None) v of Inr x \<Rightarrow> in_unit x | Inl _ \<Rightarrow> False)
     c ''confidence''"

definition confidences_in_unit :: "json \<Rightarrow> bool" where
  "confidences_in_unit r = field_is (array_of (\<lambda>c.
     field_is (array_of citation_in_unit) c ''supporting_evidence'')) r ''claims''"

section \<open>What each accepted claim satisfies\<close>

definition claim_ok :: "agent_output list \<Rightarrow> int \<Rightarrow> synthesized_claim \<Rightarrow> bool" where
  "claim_ok outs min_domains c \<longleftrightarrow>
     supporting_evidence c \<noteq> [] \<and>
     set (supporting_evidence c) \<subseteq> set (concat (map evidence_list outs)) \<and>
     propagate_uncertainty (map ev_uncertainty (supporting_evidence c)) = Inr (claim_uncertainty c) \<and>
     (claim_kind c = Cross_Domain_Pattern \<longrightarrow>
        min_domains \<le> int (card (get_cited_domains (CitationMapper outs) c)))"

lemma get_cited_domains_same:
  "same_indices m m' \<Longrightarrow> get_cited_domains m' c = get_cited_domains m c"
  by (simp add: get_cited_domains_def cited_domain_def same_indices_def)

lemma SynthesizedClaim_uncertainty:
  "SynthesizedClaim t k evs None (Some u) b a = Inr \<lparr>claim_text = t, claim_kind = k,
     supporting_evidence = evs, claim_uncertainty = u, claim_uncertainty_bounds = b,
     claim_assumptions = a\<rparr>"
  by (simp add: SynthesizedClaim_def init_uncertainty_def)

lemma build_claim_Inr:
  assumes "build_claim rc evs = Inr c"
  shows "supporting_evidence c = evs \<and>
    propagate_uncertainty (map ev_uncertainty evs) = Inr (claim_uncertainty c)"
  using assms
  by (auto simp: build_claim_def py_bind_Inr_iff Let_def SynthesizedClaim_uncertainty)

lemma process_claim_Inr:
  assumes m: "same_indices (CitationMapper outs) m"
    and p: "process_claim sf mn m rc = Inr (m', r)"
  shows "same_indices (CitationMapper outs) m' \<and> (\<forall>c. r = Some c \<longrightarrow> claim_ok outs mn c)"
proof -
  obtain cs where cs: "parse_citations sf rc = Inr cs"
    using p by (auto simp: process_claim_def py_bind_Inr_iff)
  obtain m1 v where mc: "map_citations m cs = (m1, v)" by force
  have same: "same_indices (CitationMapper outs) m1"
    using map_citations_frame [OF mc] m by (blast intro: same_indices_trans)
  have idx: "indices_ok m" using m by (simp add: indices_ok_same CitationMapper_indices)
  have pool: "evidence_pool m = concat (map evidence_list outs)"
    using m CitationMapper_pool [of outs] by (simp add: same_indices_def)
  show ?thesis
  proof (cases v)
    case None
    then show ?thesis using p cs mc same by (auto simp: process_claim_def py_bind_Inr_iff)
  next
    case (Some evs)
    then obtain c where c: "build_claim rc evs = Inr c"
      and r: "(if claim_kind c = Cross_Domain_Pattern \<and> int (card (get_cited_domains m1 c)) < mn
               then Inr (m1, None) else Inr (m1, Some c)) = (Inr (m', r) ::
               (citation_mapper \<times> synthesized_claim option) py)"
      using p cs mc by (auto simp: process_claim_def py_bind_Inr_iff)
    have "claim_ok outs mn c"
      if "\<not> (claim_kind c = Cross_Domain_Pattern \<and> int (card (get_cited_domains m1 c)) < mn)"
      using that build_claim_Inr [OF c] map_citations_in_pool [OF idx, of cs evs] mc Some pool
        get_cited_domains_same [OF same, of c]
      by (auto simp: claim_ok_def)
    then show ?thesis using r same by (auto split: if_splits)
  qed
qed

lemma process_claims_Inr:
  "same_indices (CitationMapper outs) m \<Longrightarrow> process_claims sf mn m rcs = Inr cs \<Longrightarrow>
     \<forall>c\<in>set cs. claim_ok outs mn c"
proof (induction rcs arbitrary: m cs)
  case (Cons rc rcs)
  then obtain m' r cs' where p: "process_claim sf mn m rc = Inr (m', r)"
    and rest: "process_claims sf mn m' rcs = Inr cs'"
    and cs: "cs = (case r of None \<Rightarrow> cs' | Some c \<Rightarrow> c # cs')"
    by (auto simp: py_bind_Inr_iff)
  note this_claim = process_claim_Inr [OF Cons.prems(1) p]
  then have "\<forall>c\<in>set cs'. claim_ok outs mn c" using Cons.IH rest by blast
  then show ?case using this_claim cs by (auto split: option.splits)
qed simp

lemma unable_claim_eq:
  "\<exists>u. unable_claim t = Inr \<lparr>claim_text = t, claim_kind = Single_Domain, supporting_evidence = [],
     claim_uncertainty = u, claim_uncertainty_bounds = None, claim_assumptions = None\<rparr> \<and>
     point_estimate u = 0"
proof -
  obtain u where "init_uncertainty (Some 0) None = Inr u" "point_estimate u = 0"
    by (rule init_uncertainty_confidence [of 0]) (auto simp: in_unit_def)
  then show ?thesis by (simp add: unable_claim_def SynthesizedClaim_def)
qed

lemma fallback_claim_Inr:
  "fallback_claim e = Inr c \<Longrightarrow> supporting_evidence c = [e] \<and> claim_text c = ev_claim e \<and>
     claim_kind c = Single_Domain"
  by (auto simp: fallback_claim_def SynthesizedClaim_def py_bind_Inr_iff)

text \<open>The three ways a synthesis ends.\<close>

lemma synthesize_cases:
  assumes "synthesize sf mn llm outs = Inr out"
  obtains (no_evidence) c where "concat (map evidence_list outs) = []"
      "unable_claim no_evidence_text = Inr c" "claims out = [c]"
    | (local) "concat (map evidence_list outs) \<noteq> []" "\<exists>e. py_bind llm json_loads = Inl e"
      "py_sequence (map fallback_claim (concat (map evidence_list outs))) = Inr (claims out)"
    | (all_rejected) c where "concat (map evidence_list outs) \<noteq> []"
      "unable_claim no_claims_text = Inr c" "claims out = [c]"
    | (accepted) "concat (map evidence_list outs) \<noteq> []" "claims out \<noteq> []"
      "\<forall>c\<in>set (claims out). claim_ok outs mn c"
proof (cases "concat (map evidence_list outs) = []")
  case True
  then show ?thesis using assms no_evidence by (auto simp: synthesize_def py_bind_Inr_iff)
next
  case False
  show ?thesis
  proof (cases "py_bind llm json_loads")
    case (Inl e)
    then show ?thesis using assms False local
      by (auto simp: synthesize_def Let_def py_bind_Inr_iff simp del: concat_eq_Nil_conv)
  next
    case (Inr parsed)
    then have "synthesize_reply sf mn outs parsed = Inr out"
      using assms False by (auto simp: synthesize_def Let_def simp del: concat_eq_Nil_conv)
    then obtain rcs valid where v: "process_claims sf mn (CitationMapper outs) rcs = Inr valid"
      and out: "(if valid = [] then py_bind (unable_claim no_claims_text) (\<lambda>c. Inr [c])
              else Inr valid) = Inr (claims out)"
      by (auto simp: synthesize_reply_def py_bind_Inr_iff)
    have ok: "\<forall>c\<in>set valid. claim_ok outs mn c" using v by (rule process_claims_Inr [rotated]) simp
    show ?thesis
    proof (cases "valid = []")
      case True
      then show ?thesis using out all_rejected False by (auto simp: py_bind_Inr_iff)
    next
      case valid: False
      then show ?thesis using out ok accepted False by auto
    qed
  qed
qed

lemma synthesize_gaps: "synthesize sf mn llm outs = Inr out \<Longrightarrow> evidence_gaps out = collect_gaps outs"
  by (auto simp: synthesize_def synthesize_reply_def Let_def py_bind_Inr_iff
      split: if_splits sum.splits)

section \<open>Properties\<close>

text \<open>C5: citation integrity. Whatever the language model answers, every claim of a synthesis that
  returns cites only evidence the agents gathered; a claim without evidence is the single
  stand-in for an answer that could not be given; there is always at least one claim; and the
  reported gaps are exactly the agents that returned no evidence.\<close>

theorem synthesize_citation_integrity:
  assumes "synthesize sf mn llm outs = Inr out"
  shows "claims out \<noteq> [] \<and>
    (\<forall>c\<in>set (claims out). set (supporting_evidence c) \<subseteq> set (concat (map evidence_list outs)) \<and>
       (supporting_evidence c = [] \<longrightarrow> claims out = [c] \<and>
          claim_text c \<in> {no_evidence_text, no_claims_text} \<and> claim_confidence c = 0)) \<and>
    evidence_gaps out = map agent_name (filter (\<lambda>o'. evidence_list o' = []) outs)"
proof -
  have gaps: "evidence_gaps out = map agent_name (filter (\<lambda>o'. evidence_list o' = []) outs)"
    using synthesize_gaps [OF assms] by (simp add: collect_gaps_def)
  from assms show ?thesis
  proof (cases rule: synthesize_cases)
    case (no_evidence c)
    then show ?thesis using unable_claim_eq [of no_evidence_text] gaps
      by (auto simp: claim_confidence_def)
  next
    case (all_rejected c)
    then show ?thesis using unable_claim_eq [of no_claims_text] gaps
      by (auto simp: claim_confidence_def)
  next
    case local
    then have eq: "map fallback_claim (concat (map evidence_list outs)) = map Inr (claims out)"
      by (simp add: py_sequence_Inr_iff)
    have "\<exists>e\<in>set (concat (map evidence_list outs)). supporting_evidence c = [e]"
      if "c \<in> set (claims out)" for c
    proof -
      have "Inr c \<in> set (map Inr (claims out) :: synthesized_claim py list)" using that by simp
      then have "Inr c \<in> set (map fallback_claim (concat (map evidence_list outs)))"
        by (simp only: eq)
      then show ?thesis by (metis (no_types, lifting) fallback_claim_Inr image_iff list.set_map)
    qed
    moreover have "claims out \<noteq> []" using eq local(1) by (metis Nil_is_map_conv)
    ultimately show ?thesis using gaps by fastforce
  next
    case accepted
    then show ?thesis using gaps by (auto simp: claim_ok_def)
  qed
qed

text \<open>A reply with one sound cross-domain claim, one with a fabricated citation and one
  cross-domain claim resting on a single domain.\<close>

definition sample_citation :: "json \<Rightarrow> string \<Rightarrow> string \<Rightarrow> json" where
  "sample_citation i src cl = JObj [(''evidence_id'', i), (''source'', JStr src),
     (''claim'', JStr cl), (''confidence'', JInt 1)]"

definition sample_claim :: "string \<Rightarrow> json list \<Rightarrow> json" where
  "sample_claim t cs = JObj [(''text'', JStr t), (''claim_type'', JStr ''cross_domain_pattern''),
     (''supporting_evidence'', JArr cs), (''confidence'', JInt 1)]"

definition sample_reply :: json where
  "sample_reply = JObj [(''claims'', JArr [
      sample_claim ''both'' [sample_citation (JStr ''{00000000-0000-0000-0000-000000000001}'') ''x'' ''y'',
        sample_citation JNull ''noaa'' ''Warm water''],
      sample_claim ''made up'' [sample_citation (JStr ''9'') ''nobody'' ''nothing''],
      sample_claim ''one domain'' [sample_citation JNull ''usgs'' ''M 6.0 quake'']]),
     (''evidence_gaps'', JArr [])]"

definition synthesize_sample :: "int \<Rightarrow> json \<Rightarrow> synthesis_output py" where
  "synthesize_sample mn reply = synthesize (\<lambda>_. None) mn (Inr (json_dumps reply)) sample_outputs"

definition the_output :: "synthesis_output py \<Rightarrow> synthesis_output" where
  "the_output r = (case r of Inr out \<Rightarrow> out | Inl _ \<Rightarrow> \<lparr>claims = [], evidence_gaps = []\<rparr>)"

lemma sample_run:
  "synthesize (\<lambda>_. None) 2 (Inr (json_dumps sample_reply)) sample_outputs =
     Inr (the_output (synthesize_sample 2 sample_reply))"
  by code_simp

lemma sample_run_claims:
  "map claim_text (claims (the_output (synthesize_sample 2 sample_reply))) = [''both'']"
  by code_simp

theorem synthesize_citation_integrity_witness:
  "evidence_gaps (the_output (synthesize_sample 2 sample_reply)) = [''wildfire''] \<and>
   list_all (\<lambda>c. set (map ev_id (supporting_evidence c)) \<subseteq> {1, 2})
     (claims (the_output (synthesize_sample 2 sample_reply)))"
proof -
  note run = synthesize_citation_integrity [OF sample_run]
  have ids: "ev_id ` set (concat (map evidence_list sample_outputs)) = {1, 2}"
    by code_simp
  have gaps: "map agent_name (filter (\<lambda>o'. evidence_list o' = []) sample_outputs) = [''wildfire'']"
    by code_simp
  have "ev_id ` set (supporting_evidence c) \<subseteq> ev_id ` set (concat (map evidence_list sample_outputs))"
    if "c \<in> set (claims (the_output (synthesize_sample 2 sample_reply)))" for c
    using run that by (intro image_mono) blast
  then show ?thesis using run gaps unfolding ids by (simp add: list_all_iff)
qed

lemma claim_ok_domains:
  assumes "claim_ok outs mn c" "claim_kind c = Cross_Domain_Pattern"
  shows "mn \<le> int (card (get_cited_domains (CitationMapper outs) c)) \<and>
    (\<forall>n\<in>get_cited_domains (CitationMapper outs) c. \<exists>o'\<in>set outs. agent_name o' = n \<and>
       (\<exists>e\<in>set (supporting_evidence c). ev_id e \<in> ev_id ` set (evidence_list o')))"
proof -
  have "\<exists>o'\<in>set outs. agent_name o' = n \<and> (\<exists>e\<in>set (supporting_evidence c). ev_id e \<in>
      ev_id ` set (evidence_list o'))" if n: "n \<in> get_cited_domains (CitationMapper outs) c" for n
  proof -
    obtain e where e: "e \<in> set (supporting_evidence c)" "cited_domain (CitationMapper outs) e = Some n"
      using n by (auto simp: get_cited_domains_eq)
    then have "e \<in> set (evidence_pool (CitationMapper outs))"
      using assms(1) by (auto simp: claim_ok_def CitationMapper_pool)
    from domain_map_mem [OF this] e(2) obtain e' where
      "(e', n) \<in> set (tagged_evidence outs)" "ev_id e' = ev_id e"
      by (auto simp: cited_domain_def)
    then obtain o' where "o' \<in> set outs" "agent_name o' = n" "e' \<in> set (evidence_list o')"
      by (auto simp: tagged_evidence_def)
    then show ?thesis using e(1) \<open>ev_id e' = ev_id e\<close> by (metis imageI)
  qed
  then show ?thesis using assms by (auto simp: claim_ok_def)
qed

text \<open>a claim that asserts a cross-domain pattern survives only with evidence of at least the
  configured number of distinct domains: as many distinct agents each reported one of the
  evidence items the claim cites.\<close>

theorem synthesize_cross_domain_support:
  assumes "synthesize sf mn llm outs = Inr out" "c \<in> set (claims out)"
    "claim_kind c = Cross_Domain_Pattern"
  shows "\<exists>A. mn \<le> int (card A) \<and> (\<forall>n\<in>A. \<exists>o'\<in>set outs. agent_name o' = n \<and>
    (\<exists>e\<in>set (supporting_evidence c). ev_id e \<in> ev_id ` set (evidence_list o')))"
  using assms(1)
proof (cases rule: synthesize_cases)
  case (no_evidence c')
  then show ?thesis using unable_claim_eq [of no_evidence_text] assms by auto
next
  case (all_rejected c')
  then show ?thesis using unable_claim_eq [of no_claims_text] assms by auto
next
  case local
  have "Inr c \<in> set (map Inr (claims out) :: synthesized_claim py list)" using assms(2) by simp
  then have "Inr c \<in> set (map fallback_claim (concat (map evidence_list outs)))"
    using local(3) by (simp only: py_sequence_Inr_iff)
  then have "claim_kind c = Single_Domain"
    by (metis (no_types, lifting) fallback_claim_Inr image_iff list.set_map)
  then show ?thesis using assms(3) by simp
next
  case accepted
  then have "claim_ok outs mn c" using assms(2) by blast
  from claim_ok_domains [OF this assms(3)] show ?thesis by blast
qed

theorem synthesize_cross_domain_support_witness:
  "\<exists>A. 2 \<le> int (card A) \<and> (\<forall>n\<in>A. \<exists>o'\<in>set sample_outputs. agent_name o' = n \<and>
     (\<exists>e\<in>set (supporting_evidence (hd (claims (the_output (synthesize_sample 2 sample_reply))))).
        ev_id e \<in> ev_id ` set (evidence_list o')))"
proof (rule synthesize_cross_domain_support [OF sample_run])
  show "hd (claims (the_output (synthesize_sample 2 sample_reply)))
      \<in> set (claims (the_output (synthesize_sample 2 sample_reply)))"
    using sample_run_claims by (intro hd_in_set) auto
  show "claim_kind (hd (claims (the_output (synthesize_sample 2 sample_reply)))) = Cross_Domain_Pattern"
    by code_simp
qed

text \<open>a claim accepted from the model's reply is never more certain than its evidence: its
  uncertainty interval is valid and contains the interval of every evidence item it cites.\<close>

theorem synthesize_claim_interval:
  assumes "synthesize sf mn (Inr (json_dumps reply)) outs = Inr out" "c \<in> set (claims out)"
    "\<forall>e\<in>set (concat (map evidence_list outs)). valid_estimate (ev_uncertainty e)"
    "e \<in> set (supporting_evidence c)"
  shows "valid_estimate (claim_uncertainty c) \<and>
    lower_bound (claim_uncertainty c) \<le> lower_bound (ev_uncertainty e) \<and>
    upper_bound (ev_uncertainty e) \<le> upper_bound (claim_uncertainty c)"
  using assms(1)
proof (cases rule: synthesize_cases)
  case (no_evidence c')
  then show ?thesis using unable_claim_eq [of no_evidence_text] assms by auto
next
  case (all_rejected c')
  then show ?thesis using unable_claim_eq [of no_claims_text] assms by auto
next
  case local
  then show ?thesis by simp
next
  case accepted
  then have ok: "claim_ok outs mn c" using assms(2) by blast
  then have "\<forall>u\<in>set (map ev_uncertainty (supporting_evidence c)). valid_estimate u"
    using assms(3) by (auto simp: claim_ok_def)
  from propagate_uncertainty_shape [OF this] show ?thesis
    using ok assms(4) by (auto simp: claim_ok_def)
qed

theorem synthesize_claim_interval_witness:
  "lower_bound (claim_uncertainty (hd (claims (the_output (synthesize_sample 2 sample_reply))))) \<le> 1/8"
proof -
  let ?out = "the_output (synthesize_sample 2 sample_reply)"
  have "lower_bound (claim_uncertainty (hd (claims ?out))) \<le>
      lower_bound (ev_uncertainty (hd (supporting_evidence (hd (claims ?out)))))"
  proof (rule synthesize_claim_interval [OF sample_run, THEN conjunct2, THEN conjunct1])
    show "hd (claims ?out) \<in> set (claims ?out)"
      using sample_run_claims by (intro hd_in_set) auto
    show "\<forall>e\<in>set (concat (map evidence_list sample_outputs)). valid_estimate (ev_uncertainty e)"
      by code_simp
    show "hd (supporting_evidence (hd (claims ?out))) \<in> set (supporting_evidence (hd (claims ?out)))"
      by (rule hd_in_set, code_simp)
  qed
  moreover have "lower_bound (ev_uncertainty (hd (supporting_evidence (hd (claims ?out))))) = 1/8"
    by code_simp
  ultimately show ?thesis by simp
qed

lemma fallback_claim_valid:
  assumes "valid_evidence e"
  shows "\<exists>c. fallback_claim e = Inr c \<and> supporting_evidence c = [e] \<and> claim_text c = ev_claim e \<and>
    claim_confidence c = ev_confidence e \<and> valid_estimate (claim_uncertainty c)"
proof -
  have "in_unit (ev_confidence e)" "fl64 (ev_confidence e) = ev_confidence e"
    using assms by (auto simp: valid_evidence_def valid_estimate_def in_unit_def ev_confidence_def)
  then obtain u where "init_uncertainty (Some (ev_confidence e)) None = Inr u" "valid_estimate u"
    "point_estimate u = ev_confidence e"
    by (rule init_uncertainty_confidence)
  then show ?thesis
    by (simp add: fallback_claim_def SynthesizedClaim_def claim_confidence_def)
qed

text \<open>when the language model fails or answers with text that is not JSON, synthesis still
  returns: one single-domain claim per gathered evidence item, in gathering order, each citing
  exactly that item with the item's text and confidence.\<close>

theorem synthesize_llm_failure:
  assumes "\<forall>e\<in>set (concat (map evidence_list outs)). valid_evidence e"
    "concat (map evidence_list outs) \<noteq> []" "py_bind llm json_loads = Inl err"
  shows "\<exists>out. synthesize sf mn llm outs = Inr out \<and>
    list_all2 (\<lambda>e c. supporting_evidence c = [e] \<and> claim_text c = ev_claim e \<and>
      claim_confidence c = ev_confidence e) (concat (map evidence_list outs)) (claims out)"
proof -
  let ?P = "\<lambda>e c. supporting_evidence c = [e] \<and> claim_text c = ev_claim e \<and>
      claim_confidence c = ev_confidence e"
  have "\<exists>c. fallback_claim e = Inr c \<and> ?P e c" if "e \<in> set (concat (map evidence_list outs))" for e
    using fallback_claim_valid assms(1) that by blast
  from py_sequence_total [of "concat (map evidence_list outs)" fallback_claim ?P, OF this]
  obtain cs where
    "py_sequence (map fallback_claim (concat (map evidence_list outs))) = Inr cs"
    "list_all2 ?P (concat (map evidence_list outs)) cs"
    by blast
  then show ?thesis using assms(2,3) by (auto simp: synthesize_def Let_def simp del: concat_eq_Nil_conv)
qed

theorem synthesize_llm_failure_witness:
  "\<exists>out. synthesize (\<lambda>_. None) 2 (Inl (Timeout_Error ''LLM'')) sample_outputs = Inr out \<and>
     map claim_text (claims out) = [''M 6.0 quake'', ''warm water'']"
proof -
  have ev: "concat (map evidence_list sample_outputs) =
      [sample_evidence 1 ''USGS'' ''M 6.0 quake'' est_low, sample_evidence 2 ''NOAA'' ''warm water'' est_high]"
    by (simp add: sample_outputs_def)
  have "\<forall>e\<in>set (concat (map evidence_list sample_outputs)). valid_evidence e"
    by code_simp
  from synthesize_llm_failure [OF this, of "Inl (Timeout_Error ''LLM'')" "Timeout_Error ''LLM''"
      "\<lambda>_. None" 2]
  show ?thesis
    unfolding ev by (auto simp: list_all2_Cons1 sample_evidence_def)
qed

subsection \<open>Replies that follow the schema\<close>

lemma field_is_iff:
  "field_is P j k \<longleftrightarrow> (\<exists>kvs v. j = JObj kvs \<and> dict_get kvs k = Some v \<and> P v)"
  by (auto simp: field_is_def obj_field_def split: json.splits option.splits)

lemma field_is_JObj:
  "field_is P (JObj kvs) k \<longleftrightarrow> (\<exists>v. dict_get kvs k = Some v \<and> P v)"
  by (simp add: field_is_iff)

lemma array_of_iff: "array_of P j \<longleftrightarrow> (\<exists>xs. j = JArr xs \<and> list_all P xs)"
  by (auto simp: array_of_def split: json.splits)

lemma is_jstr_iff: "is_jstr j \<longleftrightarrow> (\<exists>s. j = JStr s)"
  by (cases j) auto

lemma citation_in_unit_float:
  assumes "is_jnum v" "case pydantic_float (\<lambda>_. None) v of Inr x \<Rightarrow> in_unit x | Inl _ \<Rightarrow> False"
  shows "\<exists>x. pydantic_float sf v = Inr x \<and> in_unit x"
  using assms by (cases v) (auto simp: pydantic_float_def)

lemma parse_citation_conforms:
  assumes "conforms_citation c" "citation_in_unit c"
  shows "\<exists>r. parse_citation sf c = Inr r"
proof -
  have f: "field_is is_jstr c ''source''" "field_is is_jstr c ''claim''"
    "field_is is_jnum c ''confidence''"
    using assms(1) by (simp_all add: conforms_citation_def)
  then obtain kvs where c: "c = JObj kvs" by (auto simp: field_is_iff)
  obtain s cl where s: "dict_get kvs ''source'' = Some (JStr s)"
    and cl: "dict_get kvs ''claim'' = Some (JStr cl)"
    using f(1,2) unfolding c field_is_JObj is_jstr_iff by blast
  obtain v where v: "dict_get kvs ''confidence'' = Some v" "is_jnum v"
    "case pydantic_float (\<lambda>_. None) v of Inr x \<Rightarrow> in_unit x | Inl _ \<Rightarrow> False"
    using f(3) assms(2) unfolding c citation_in_unit_def field_is_JObj by auto
  then obtain x where x: "pydantic_float sf v = Inr x" "in_unit x"
    using citation_in_unit_float by blast
  have "\<exists>i. parse_cited_id c = Inr i" by (simp add: parse_cited_id_def c)
  then show ?thesis
    using c s cl v x by (auto simp: parse_citation_def pydantic_str_def RawCitedEvidence_def
        dict_get_or_def)
qed

lemma process_claim_conforms:
  assumes m: "same_indices (CitationMapper outs) m"
    and valid: "\<forall>e\<in>set (concat (map evidence_list outs)). valid_estimate (ev_uncertainty e)"
    and rc: "conforms_claim rc" "field_is (array_of citation_in_unit) rc ''supporting_evidence''"
  shows "\<exists>r. process_claim sf mn m rc = Inr r"
proof -
  have f: "field_is is_jstr rc ''text''" "field_is (array_of conforms_citation) rc ''supporting_evidence''"
    using rc(1) by (simp_all add: conforms_claim_def)
  then obtain kvs where kvs: "rc = JObj kvs" by (auto simp: field_is_iff)
  obtain t where t: "dict_get kvs ''text'' = Some (JStr t)"
    using f(1) unfolding kvs field_is_JObj is_jstr_iff by blast
  obtain cs where cs: "dict_get kvs ''supporting_evidence'' = Some (JArr cs)"
    "list_all conforms_citation cs" "list_all citation_in_unit cs"
    using f(2) rc(2) unfolding kvs field_is_JObj array_of_iff by auto
  have "\<exists>r. parse_citation sf c = Inr r \<and> True" if "c \<in> set cs" for c
    using parse_citation_conforms cs that by (auto simp: list_all_iff)
  from py_sequence_total [of cs "parse_citation sf" "\<lambda>_ _. True", OF this] obtain rs
    where rs: "parse_citations sf rc = Inr rs"
    using cs kvs by (auto simp: parse_citations_def dict_get_or_def)
  obtain m' v where mc: "map_citations m rs = (m', v)" by force
  show ?thesis
  proof (cases v)
    case None
    then show ?thesis using rs mc kvs t by (simp add: process_claim_def)
  next
    case (Some evs)
    have "indices_ok m" using m by (simp add: indices_ok_same CitationMapper_indices)
    then have "set evs \<subseteq> set (evidence_pool m)"
      using map_citations_in_pool [of m rs evs] mc Some by simp
    then have "\<forall>u\<in>set (map ev_uncertainty evs). valid_estimate u"
      using valid m CitationMapper_pool [of outs] by (auto simp: same_indices_def)
    from propagate_uncertainty_shape [OF this] obtain u
      where "propagate_uncertainty (map ev_uncertainty evs) = Inr u" by blast
    then have "\<exists>c. build_claim rc evs = Inr c"
      using kvs t by (simp add: build_claim_def parse_claim_type_def pydantic_str_def Let_def
          SynthesizedClaim_uncertainty)
    then show ?thesis using rs mc Some by (auto simp: process_claim_def)
  qed
qed

lemma process_claims_conforms:
  assumes valid: "\<forall>e\<in>set (concat (map evidence_list outs)). valid_estimate (ev_uncertainty e)"
  shows "same_indices (CitationMapper outs) m \<Longrightarrow> list_all conforms_claim rcs \<Longrightarrow>
    list_all (\<lambda>c. field_is (array_of citation_in_unit) c ''supporting_evidence'') rcs \<Longrightarrow>
    \<exists>cs. process_claims sf mn m rcs = Inr cs"
proof (induction rcs arbitrary: m)
  case (Cons rc rcs)
  obtain m' r where p: "process_claim sf mn m rc = Inr (m', r)"
    using process_claim_conforms [OF Cons.prems(1) valid] Cons.prems(2,3) by fastforce
  then have "same_indices (CitationMapper outs) m'"
    using process_claim_Inr [OF Cons.prems(1)] by blast
  then obtain cs where "process_claims sf mn m' rcs = Inr cs"
    using Cons.IH Cons.prems(2,3) by (auto simp del: process_claims.simps)
  then show ?case using p by simp
qed simp

text \<open>a reply that follows the response schema and whose confidences lie in the unit interval
  is always digested: synthesis returns a result for any gathered evidence.\<close>

theorem synthesize_conforming_reply:
  assumes "conforms_reply reply" "confidences_in_unit reply"
    "\<forall>e\<in>set (concat (map evidence_list outs)). valid_estimate (ev_uncertainty e)"
  shows "\<exists>out. synthesize sf mn (Inr (json_dumps reply)) outs = Inr out"
proof -
  obtain kvs rcs where r: "reply = JObj kvs" "dict_get kvs ''claims'' = Some (JArr rcs)"
    "list_all conforms_claim rcs"
    "list_all (\<lambda>c. field_is (array_of citation_in_unit) c ''supporting_evidence'') rcs"
    using assms(1,2) by (auto simp: conforms_reply_def confidences_in_unit_def field_is_iff
        array_of_iff)
  then obtain cs where "process_claims sf mn (CitationMapper outs) rcs = Inr cs"
    using process_claims_conforms [OF assms(3)] by fastforce
  then have "\<exists>out. synthesize_reply sf mn outs reply = Inr out"
    using r unable_claim_eq [of no_claims_text]
    by (auto simp: synthesize_reply_def dict_get_or_def)
  then show ?thesis
    using unable_claim_eq [of no_evidence_text] by (auto simp: synthesize_def Let_def)
qed

theorem synthesize_conforming_reply_witness:
  "\<exists>out. synthesize (\<lambda>_. None) 2 (Inr (json_dumps sample_reply)) sample_outputs = Inr out"
  by (rule synthesize_conforming_reply) code_simp+

text \<open>The schema alone is not enough: one confidence above 1 makes the whole synthesis raise.\<close>

definition overconfident_reply :: json where
  "overconfident_reply = JObj [(''claims'', JArr [JObj [(''text'', JStr ''t''),
       (''claim_type'', JStr ''single_domain''),
       (''supporting_evidence'', JArr [JObj [(''evidence_id'', JNull), (''source'', JStr ''USGS''),
          (''claim'', JStr ''M 6.0 quake''), (''confidence'', JInt 95)]]),
       (''confidence'', JInt 1)]]), (''evidence_gaps'', JArr [])]"

lemma conforming_reply_may_raise:
  "conforms_reply overconfident_reply \<and>
   synthesize (\<lambda>_. None) 2 (Inr (json_dumps overconfident_reply)) sample_outputs =
     Inl (Validation_Error ''confidence'')"
  by (rule conjI; code_simp)

text \<open>The local fallback rebuilds the interval from the confidence alone, so it may be narrower
  than the interval of the evidence it cites.\<close>

definition vague_estimate :: uncertainty_estimate where
  "vague_estimate = \<lparr>point_estimate = 1/2, lower_bound = 0, upper_bound = 1,
     est_source = Evidence_Conflict\<rparr>"

lemma fallback_claim_narrows:
  "case fallback_claim (sample_evidence 1 ''s'' ''c'' vague_estimate) of
     Inl _ \<Rightarrow> False
   | Inr c \<Rightarrow> lower_bound vague_estimate < lower_bound (claim_uncertainty c) \<and>
       upper_bound (claim_uncertainty c) < upper_bound vague_estimate \<and>
       est_source (claim_uncertainty c) = Model_Uncertainty"
  by code_simp

end
