(* ===== verification/Events.thy ===== *)
theory Events
  imports Synthesis
begin

text \<open>
  Progress events of an investigation: their schemas (\<open>orchestrator/schemas/events.py\<close>), the
  Redis channel that carries them (\<open>cache/client.py\<close>, \<open>cache/keys.py\<close>) and the
  server-sent event stream built on it (\<open>app/api/v1/investigations_stream.py\<close>).
  \<open>str_int\<close> and \<open>str_float\<close> are the conversions of numeric text by the pydantic library.
\<close>

section \<open>Keys\<close>

definition cache_key :: "string \<Rightarrow> string" where
  "cache_key key = ''gaiaos:cache:'' @ key"

definition checkpoint_key :: "string \<Rightarrow> string" where
  "checkpoint_key thread_id = ''gaiaos:checkpoint:'' @ thread_id"

definition rate_limit_key :: "string \<Rightarrow> string \<Rightarrow> string" where
  "rate_limit_key identifier action = ''gaiaos:ratelimit:'' @ identifier @ '':'' @ action"

definition event_channel_key :: "string \<Rightarrow> string" where
  "event_channel_key i = ''gaiaos:events:'' @ i"

text \<open>Coordinates are JSON numbers here, since they come from the reply of a service.\<close>

definition station_key :: "json \<Rightarrow> json \<Rightarrow> string \<Rightarrow> string py" where
  "station_key lat lon network =
     py_bind (json_round 2 lat) (\<lambda>rlat. py_bind (json_round 2 lon) (\<lambda>rlon.
       Inr (''gaiaos:cache:station:'' @ network @ '':'' @ json_str rlat @ '':'' @ json_str rlon)))"

definition circuit_key :: "string \<Rightarrow> string" where
  "circuit_key source = ''gaiaos:circuit:'' @ source"

definition source_cache_key :: "string \<Rightarrow> string \<Rightarrow> string" where
  "source_cache_key source key = ''gaiaos:cache:'' @ source @ '':'' @ key"

definition boundary_key :: "json \<Rightarrow> json \<Rightarrow> string py" where
  "boundary_key lat lon =
     py_bind (json_round 3 lat) (\<lambda>rlat. py_bind (json_round 3 lon) (\<lambda>rlon.
       Inr (''gaiaos:cache:boundary:'' @ json_str rlat @ '':'' @ json_str rlon)))"

section \<open>Events\<close>

datatype investigation_event =
    Planning_Event string
  | Agent_Started_Event string string
  | Agent_Completed_Event string int
  | Synthesizing_Event "(string, json) dict"
  | Critic_Flag_Event string flt string
  | Replanning_Event int "string list" string
  | Done_Event uuid string

text \<open>The \<open>event\<close> tag and the \<open>data\<close> object of an event.\<close>

fun event_tag :: "investigation_event \<Rightarrow> string" where
  "event_tag (Planning_Event _) = ''planning''"
| "event_tag (Agent_Started_Event _ _) = ''agent_started''"
| "event_tag (Agent_Completed_Event _ _) = ''agent_completed''"
| "event_tag (Synthesizing_Event _) = ''synthesizing''"
| "event_tag (Critic_Flag_Event _ _ _) = ''critic_flag''"
| "event_tag (Replanning_Event _ _ _) = ''replanning''"
| "event_tag (Done_Event _ _) = ''done''"

fun event_data :: "investigation_event \<Rightarrow> json" where
  "event_data (Planning_Event status) = JObj [(''status'', JStr status)]"
| "event_data (Agent_Started_Event agent ts) = JObj [(''agent'', JStr agent), (''at'', JStr ts)]"
| "event_data (Agent_Completed_Event agent n) = JObj [(''agent'', JStr agent), (''evidence_count'', JInt n)]"
| "event_data (Synthesizing_Event d) = JObj d"
| "event_data (Critic_Flag_Event claim conf reason) =
     JObj [(''claim'', JStr claim), (''confidence'', JFloat conf), (''reason'', JStr reason)]"
| "event_data (Replanning_Event n ds reason) =
     JObj [(''cycle_number'', JInt n), (''targeted_domains'', JArr (map JStr ds)),
           (''trigger_reason'', JStr reason)]"
| "event_data (Done_Event i status) =
     JObj [(''investigation_id'', JStr (uuid_str i)), (''status'', JStr status)]"

text \<open>\<open>event.model_dump_json()\<close>.\<close>

definition event_json :: "investigation_event \<Rightarrow> json" where
  "event_json e = JObj [(''event'', JStr (event_tag e)), (''data'', event_data e)]"

section \<open>Parsing\<close>

definition pydantic_int :: "(string \<Rightarrow> int option) \<Rightarrow> json \<Rightarrow> int py" where
  "pydantic_int str_int j =
     (case j of
        JInt i \<Rightarrow> Inr i
      | JBool b \<Rightarrow> Inr (if b then 1 else 0)
      | JFloat x \<Rightarrow> (if of_int \<lfloor>x\<rfloor> = x then Inr \<lfloor>x\<rfloor> else Inl (Validation_Error ''int_from_float''))
      | JStr s \<Rightarrow> (case str_int s of None \<Rightarrow> Inl (Validation_Error ''int_parsing'') | Some i \<Rightarrow> Inr i)
      | _ \<Rightarrow> Inl (Validation_Error ''int_type''))"

definition pydantic_uuid :: "json \<Rightarrow> uuid py" where
  "pydantic_uuid j = (case j of
       JStr s \<Rightarrow> (case uuid_parse s of Inl _ \<Rightarrow> Inl (Validation_Error ''uuid_parsing'') | Inr u \<Rightarrow> Inr u)
     | _ \<Rightarrow> Inl (Validation_Error ''uuid_type''))"

text \<open>A required field, and a field with a default.\<close>

definition required :: "(string, json) dict \<Rightarrow> string \<Rightarrow> json py" where
  "required kvs k = (case dict_get kvs k of None \<Rightarrow> Inl (Validation_Error k) | Some v \<Rightarrow> Inr v)"

definition sub_model :: "json \<Rightarrow> (string, json) dict py" where
  "sub_model j = (case j of JObj kvs \<Rightarrow> Inr kvs | _ \<Rightarrow> Inl (Validation_Error ''model_type''))"

definition required_data :: "(string, json) dict \<Rightarrow> (string, json) dict py" where
  "required_data kvs = py_bind (required kvs ''data'') sub_model"

definition default_data :: "(string, json) dict \<Rightarrow> (string, json) dict py" where
  "default_data kvs = sub_model (dict_get_or kvs ''data'' (JObj []))"

definition str_field :: "(string, json) dict \<Rightarrow> string \<Rightarrow> string py" where
  "str_field kvs k = py_bind (required kvs k) pydantic_str"

definition str_field_or :: "(string, json) dict \<Rightarrow> string \<Rightarrow> string \<Rightarrow> string py" where
  "str_field_or kvs k v = pydantic_str (dict_get_or kvs k (JStr v))"

definition parse_event ::
    "(string \<Rightarrow> int option) \<Rightarrow> (string \<Rightarrow> flt option) \<Rightarrow> stored_text \<Rightarrow> investigation_event py" where
  "parse_event str_int str_float text =
     py_bind (json_loads text) (\<lambda>j.
     py_bind (json_get j ''event'') (\<lambda>tag.
     case j of
       JObj kvs \<Rightarrow>
         (if tag = JStr ''planning'' then
            py_bind (default_data kvs) (\<lambda>d. py_bind (str_field_or d ''status'' ''planning'') (\<lambda>s.
              Inr (Planning_Event s)))
          else if tag = JStr ''agent_started'' then
            py_bind (required_data kvs) (\<lambda>d. py_bind (str_field d ''agent'') (\<lambda>a.
              py_bind (str_field d ''at'') (\<lambda>t. Inr (Agent_Started_Event a t))))
          else if tag = JStr ''agent_completed'' then
            py_bind (required_data kvs) (\<lambda>d. py_bind (str_field d ''agent'') (\<lambda>a.
              py_bind (required d ''evidence_count'') (\<lambda>c. py_bind (pydantic_int str_int c) (\<lambda>n.
                Inr (Agent_Completed_Event a n)))))
          else if tag = JStr ''synthesizing'' then
            py_bind (default_data kvs) (\<lambda>d. Inr (Synthesizing_Event d))
          else if tag = JStr ''critic_flag'' then
            py_bind (required_data kvs) (\<lambda>d. py_bind (str_field d ''claim'') (\<lambda>c.
              py_bind (required d ''confidence'') (\<lambda>v. py_bind (pydantic_float str_float v) (\<lambda>x.
                py_bind (str_field d ''reason'') (\<lambda>r. Inr (Critic_Flag_Event c x r))))))
          else if tag = JStr ''done'' then
            py_bind (required_data kvs) (\<lambda>d. py_bind (required d ''investigation_id'') (\<lambda>v.
              py_bind (pydantic_uuid v) (\<lambda>i. py_bind (str_field_or d ''status'' ''complete'') (\<lambda>s.
                Inr (Done_Event i s)))))
          else Inl (Value_Error (''Unknown event type: '' @ json_str tag)))
     | _ \<Rightarrow> Inl (Other_Error ''AttributeError'')))"

section \<open>Channel and stream\<close>

text \<open>\<open>publish_event\<close>: the channel and the text handed to Redis.\<close>

definition publish_event :: "uuid \<Rightarrow> investigation_event \<Rightarrow> string \<times> stored_text" where
  "publish_event i e = (event_channel_key (uuid_str i), json_dumps (event_json e))"

text \<open>A message of the subscription: its type and data.\<close>

type_synonym channel_message = "string \<times> stored_text"

text \<open>\<open>subscribe\<close>: other message types are skipped, the first text that does not parse raises.
  The events yielded so far are returned with that exception, if any.\<close>

fun subscribe ::
    "(stored_text \<Rightarrow> investigation_event py) \<Rightarrow> channel_message list \<Rightarrow>
     investigation_event list \<times> py_exc option" where
  "subscribe parse [] = ([], None)"
| "subscribe parse ((t, d) # ms) =
     (if t = ''message'' then
        (case parse d of
           Inl e \<Rightarrow> ([], Some e)
         | Inr ev \<Rightarrow> (case subscribe parse ms of (evs, r) \<Rightarrow> (ev # evs, r)))
      else subscribe parse ms)"

text \<open>One frame of the stream: the event name and the JSON of its data.\<close>

definition sse_frame :: "investigation_event \<Rightarrow> string \<times> json" where
  "sse_frame e = (event_tag e, event_data e)"

text \<open>\<open>sse_event_generator\<close>: any exception ends the stream; the flag tells a stream that was
  cut off.\<close>

definition sse_event_generator ::
    "(stored_text \<Rightarrow> investigation_event py) \<Rightarrow> channel_message list \<Rightarrow> (string \<times> json) list \<times> bool" where
  "sse_event_generator parse ms =
     (case subscribe parse ms of (evs, r) \<Rightarrow> (map sse_frame evs, r \<noteq> None))"

section \<open>Facts\<close>

definition is_replanning :: "investigation_event \<Rightarrow> bool" where
  "is_replanning e = (case e of Replanning_Event _ _ _ \<Rightarrow> True | _ \<Rightarrow> False)"

definition event_id_ok :: "investigation_event \<Rightarrow> bool" where
  "event_id_ok e = (case e of Done_Event i _ \<Rightarrow> i < 2 ^ 128 | _ \<Rightarrow> True)"

lemmas parse_defs = parse_event_def event_json_def default_data_def required_data_def required_def
  sub_model_def str_field_def str_field_or_def pydantic_str_def pydantic_int_def pydantic_float_def
  pydantic_uuid_def dict_get_or_def

lemma parse_event_dump:
  "event_id_ok e \<Longrightarrow> \<not> is_replanning e \<Longrightarrow> parse_event si sf (json_dumps (event_json e)) = Inr e"
  by (cases e) (simp_all add: parse_defs is_replanning_def event_id_ok_def uuid_parse_str)

lemma parse_event_replanning:
  "is_replanning e \<Longrightarrow> \<exists>m. parse_event si sf (json_dumps (event_json e)) = Inl (Value_Error m)"
  by (cases e) (simp_all add: parse_defs is_replanning_def)

lemma subscribe_published:
  assumes "\<forall>e\<in>set es. event_id_ok e \<and> \<not> is_replanning e"
  shows "subscribe (parse_event si sf) (map (\<lambda>e. (''message'', json_dumps (event_json e))) es @ ms) =
    (es @ fst (subscribe (parse_event si sf) ms), snd (subscribe (parse_event si sf) ms))"
  using assms by (induction es) (auto simp: parse_event_dump split: prod.splits)

section \<open>Properties\<close>

text \<open>C12: what one side publishes the other side reads. A subscriber to an investigation receives
  exactly the published events, in order, as frames with their name and data, up to the first
  replanning event; a replanning event, which the parser does not know, ends the stream and
  loses every later event.\<close>

theorem event_stream_roundtrip:
  assumes "\<forall>e\<in>set es. event_id_ok e \<and> \<not> is_replanning e"
  shows "sse_event_generator (parse_event si sf)
      (map (\<lambda>e. (''message'', snd (publish_event i e))) es) = (map sse_frame es, False) \<and>
    (is_replanning r \<longrightarrow>
      sse_event_generator (parse_event si sf)
        (map (\<lambda>e. (''message'', snd (publish_event i e))) (es @ r # later)) = (map sse_frame es, True))"
proof (intro conjI impI)
  show "sse_event_generator (parse_event si sf)
      (map (\<lambda>e. (''message'', snd (publish_event i e))) es) = (map sse_frame es, False)"
    using subscribe_published [OF assms, of si sf "[]"]
    by (simp add: sse_event_generator_def publish_event_def)
  assume "is_replanning r"
  then obtain m where "parse_event si sf (json_dumps (event_json r)) = Inl (Value_Error m)"
    using parse_event_replanning by blast
  then show "sse_event_generator (parse_event si sf)
      (map (\<lambda>e. (''message'', snd (publish_event i e))) (es @ r # later)) = (map sse_frame es, True)"
    using subscribe_published [OF assms, of si sf
        "(''message'', json_dumps (event_json r)) # map (\<lambda>e. (''message'', json_dumps (event_json e))) later"]
    by (simp add: sse_event_generator_def publish_event_def)
qed

theorem event_stream_roundtrip_witness:
  "sse_event_generator (parse_event (\<lambda>_. None) (\<lambda>_. None))
     (map (\<lambda>e. (''message'', snd (publish_event 7 e)))
       ([Planning_Event ''planning''] @ Replanning_Event 1 [''ocean''] ''why'' # [Done_Event 7 ''complete''])) =
   ([(''planning'', JObj [(''status'', JStr ''planning'')])], True)"
proof -
  have "\<forall>e\<in>set [Planning_Event ''planning'']. event_id_ok e \<and> \<not> is_replanning e"
    by (simp add: event_id_ok_def is_replanning_def)
  from event_stream_roundtrip [OF this, of "\<lambda>_. None" "\<lambda>_. None" 7 "Replanning_Event 1 [''ocean''] ''why''"
      "[Done_Event 7 ''complete'']"]
  show ?thesis by (simp add: is_replanning_def sse_frame_def)
qed

end
