(* ===== verification/Resilience.thy ===== *)
theory Resilience
  imports Events
begin

text \<open>
  The resilience layer for external sources: the Redis-backed circuit breaker
  (\<open>resilience/circuit_breaker.py\<close>), the retry policy (\<open>resilience/retry_policy.py\<close>) and the
  degraded-mode wrapper (\<open>resilience/degraded_mode.py\<close>). Time is in microseconds. Each access
  to Redis may find the server down, which \<open>up\<close> decides per access; the outcomes of the
  wrapped call are given per attempt. Waiting between attempts is left out.
\<close>

section \<open>Store\<close>

datatype circuit_status = CLOSED | OPEN | HALF_OPEN

record circuit_state =
  cb_status :: circuit_status
  failure_count :: int
  opened_at :: "int option"

text \<open>A stored state is the JSON of a state, or text that does not decode.\<close>

datatype circuit_entry = Stored circuit_state | Undecodable

record redis_store =
  circuits :: "(string, circuit_entry) dict"
  cache :: "(string, stored_text \<times> int) dict"

text \<open>The accesses to Redis in one call, in program order.\<close>

datatype access = Gate_Read | Gate_Write | Cache_Write | Record_Read | Record_Write | Cache_Read

record settings =
  resilience_bypass :: bool
  circuit_failure_threshold :: int
  circuit_half_open_timeout_s :: int

section \<open>Circuit breaker\<close>

definition closed_state :: circuit_state where
  "closed_state = \<lparr>cb_status = CLOSED, failure_count = 0, opened_at = None\<rparr>"

definition get_state :: "bool \<Rightarrow> redis_store \<Rightarrow> string \<Rightarrow> circuit_state" where
  "get_state up rs source =
     (if \<not> up then closed_state
      else case dict_get (circuits rs) (circuit_key source) of
             Some (Stored st) \<Rightarrow> st
           | _ \<Rightarrow> closed_state)"

definition set_state :: "bool \<Rightarrow> string \<Rightarrow> circuit_state \<Rightarrow> redis_store \<Rightarrow> redis_store" where
  "set_state up source st rs =
     (if \<not> up then rs else rs\<lparr>circuits := dict_set (circuit_key source) (Stored st) (circuits rs)\<rparr>)"

text \<open>\<open>total_seconds()\<close> of a difference of two times.\<close>

definition elapsed_s :: "int \<Rightarrow> int \<Rightarrow> flt" where
  "elapsed_s now t = fl64 (of_int (now - t) / 1000000)"

definition is_open :: "settings \<Rightarrow> (access \<Rightarrow> bool) \<Rightarrow> int \<Rightarrow> string \<Rightarrow> redis_store \<Rightarrow> redis_store \<times> bool" where
  "is_open cfg up now source rs =
     (let st = get_state (up Gate_Read) rs source
      in case cb_status st of
           CLOSED \<Rightarrow> (rs, False)
         | HALF_OPEN \<Rightarrow> (rs, False)
         | OPEN \<Rightarrow>
             (case opened_at st of
                None \<Rightarrow> (rs, False)
              | Some t \<Rightarrow>
                  (if elapsed_s now t \<ge> of_int (circuit_half_open_timeout_s cfg)
                   then (set_state (up Gate_Write) source (st\<lparr>cb_status := HALF_OPEN\<rparr>) rs, False)
                   else (rs, True))))"

definition record_failure :: "settings \<Rightarrow> (access \<Rightarrow> bool) \<Rightarrow> int \<Rightarrow> string \<Rightarrow> redis_store \<Rightarrow> redis_store" where
  "record_failure cfg up now source rs =
     (let st = get_state (up Record_Read) rs source;
          st = st\<lparr>failure_count := failure_count st + 1\<rparr>
      in if cb_status st \<in> {CLOSED, HALF_OPEN} \<and> failure_count st \<ge> circuit_failure_threshold cfg
         then set_state (up Record_Write) source (st\<lparr>cb_status := OPEN, opened_at := Some now\<rparr>) rs
         else set_state (up Record_Write) source st rs)"

definition record_success :: "(access \<Rightarrow> bool) \<Rightarrow> string \<Rightarrow> redis_store \<Rightarrow> redis_store" where
  "record_success up source rs =
     (let st = get_state (up Record_Read) rs source
      in if cb_status st \<noteq> CLOSED \<or> failure_count st \<noteq> 0
         then set_state (up Record_Write) source closed_state rs else rs)"

definition get_circuit_status :: "bool \<Rightarrow> redis_store \<Rightarrow> string \<Rightarrow> circuit_status" where
  "get_circuit_status up rs source = cb_status (get_state up rs source)"

section \<open>Retry policy\<close>

definition MAX_ATTEMPTS :: nat where
  "MAX_ATTEMPTS = 3"

text \<open>Retry on an HTTP error while attempts remain, reraise the last one; the second component
  counts the attempts made.\<close>

fun retry_from :: "nat \<Rightarrow> nat \<Rightarrow> (nat \<Rightarrow> 'v py) \<Rightarrow> 'v py \<times> nat" where
  "retry_from left made f =
     (case f made of
        Inr v \<Rightarrow> (Inr v, made + 1)
      | Inl (HTTP_Error e) \<Rightarrow>
          (case left of 0 \<Rightarrow> (Inl (HTTP_Error e), made + 1)
           | Suc k \<Rightarrow> retry_from k (made + 1) f)
      | Inl e \<Rightarrow> (Inl e, made + 1))"

declare retry_from.simps [simp del]

definition with_retry :: "(nat \<Rightarrow> 'v py) \<Rightarrow> 'v py \<times> nat" where
  "with_retry f = retry_from (MAX_ATTEMPTS - 1) 0 f"

section \<open>Degraded mode\<close>

definition TTL_BY_SOURCE :: "(string, int) dict" where
  "TTL_BY_SOURCE =
     [(''usgs'', 600), (''noaa'', 900), (''open_meteo'', 300), (''firms'', 300), (''openaq'', 600),
      (''geocoding'', 86400), (''copernicus'', 1800), (''era5'', 3600), (''gdelt'', 900),
      (''osm'', 1209600), (''arxiv'', 86400)]"

definition DEFAULT_TTL :: int where
  "DEFAULT_TTL = 600"

datatype source_status = Live | Cached | Unavailable

record resilient_result =
  rr_value :: json
  degraded :: bool
  rr_status :: source_status

definition cache_result :: "bool \<Rightarrow> int \<Rightarrow> string \<Rightarrow> json \<Rightarrow> int \<Rightarrow> redis_store \<Rightarrow> redis_store" where
  "cache_result up now key v ttl rs =
     (if \<not> up then rs
      else rs\<lparr>cache := dict_set key (json_dumps v, now + ttl * 1000000) (cache rs)\<rparr>)"

text \<open>A key past its expiry is gone.\<close>

definition serve_from_cache :: "bool \<Rightarrow> int \<Rightarrow> string \<Rightarrow> redis_store \<Rightarrow> resilient_result" where
  "serve_from_cache up now key rs =
     (let hit = (if \<not> up then None
                 else case dict_get (cache rs) key of
                   None \<Rightarrow> None
                 | Some (text, expiry) \<Rightarrow> if now < expiry then Some text else None)
      in case hit of
           None \<Rightarrow> \<lparr>rr_value = JNull, degraded = True, rr_status = Unavailable\<rparr>
         | Some text \<Rightarrow>
             (case json_loads text of
                Inl _ \<Rightarrow> \<lparr>rr_value = JNull, degraded = True, rr_status = Unavailable\<rparr>
              | Inr v \<Rightarrow> \<lparr>rr_value = v, degraded = True, rr_status = Cached\<rparr>))"

definition effective_ttl :: "string \<Rightarrow> int option \<Rightarrow> int" where
  "effective_ttl source ttl =
     (case ttl of Some t \<Rightarrow> t | None \<Rightarrow> dict_get_or TTL_BY_SOURCE source DEFAULT_TTL)"

text \<open>
  \<open>resilient_call\<close>: the new store, the result or the exception, and the number of times the
  wrapped function was called. \<open>clock\<close> gives the time of each access.
\<close>

definition resilient_call ::
    "settings \<Rightarrow> (access \<Rightarrow> bool) \<Rightarrow> (access \<Rightarrow> int) \<Rightarrow> string \<Rightarrow> (nat \<Rightarrow> json py) \<Rightarrow> string \<Rightarrow> int option \<Rightarrow>
     redis_store \<Rightarrow> redis_store \<times> resilient_result py \<times> nat" where
  "resilient_call cfg up clock source f key ttl rs =
     (if resilience_bypass cfg then
        (case f 0 of
           Inl e \<Rightarrow> (rs, Inl e, 1)
         | Inr v \<Rightarrow> (rs, Inr \<lparr>rr_value = v, degraded = False, rr_status = Live\<rparr>, 1))
      else
        (let rkey = source_cache_key source key
         in case is_open cfg up (clock Gate_Read) source rs of
              (rs1, True) \<Rightarrow> (rs1, Inr (serve_from_cache (up Cache_Read) (clock Cache_Read) rkey rs1), 0)
            | (rs1, False) \<Rightarrow>
                (case with_retry f of
                   (Inr v, n) \<Rightarrow>
                     (let rs2 = cache_result (up Cache_Write) (clock Cache_Write) rkey v (effective_ttl source ttl) rs1
                      in (record_success up source rs2,
                          Inr \<lparr>rr_value = v, degraded = False, rr_status = Live\<rparr>, n))
                 | (Inl (HTTP_Error e), n) \<Rightarrow>
                     (let rs2 = record_failure cfg up (clock Record_Write) source rs1
                      in (rs2, Inr (serve_from_cache (up Cache_Read) (clock Cache_Read) rkey rs2), n))
                 | (Inl e, n) \<Rightarrow> (rs1, Inl e, n))))"

section \<open>The breaker as a state machine\<close>

text \<open>Any operation on any source, with any accesses failing.\<close>

inductive breaker_step :: "settings \<Rightarrow> redis_store \<Rightarrow> redis_store \<Rightarrow> bool" for cfg where
  gate: "breaker_step cfg rs (fst (is_open cfg up now source rs))"
| failure: "breaker_step cfg rs (record_failure cfg up now source rs)"
| success: "breaker_step cfg rs (record_success up source rs)"

inductive_cases breaker_stepE: "breaker_step cfg rs rs'"

definition state_ok :: "settings \<Rightarrow> circuit_state \<Rightarrow> bool" where
  "state_ok cfg st \<longleftrightarrow> 0 \<le> failure_count st \<and>
     (case cb_status st of
        CLOSED \<Rightarrow> failure_count st < circuit_failure_threshold cfg
      | OPEN \<Rightarrow> circuit_failure_threshold cfg \<le> failure_count st \<and> opened_at st \<noteq> None
      | HALF_OPEN \<Rightarrow> circuit_failure_threshold cfg \<le> failure_count st)"

definition breaker_inv :: "settings \<Rightarrow> redis_store \<Rightarrow> bool" where
  "breaker_inv cfg rs \<longleftrightarrow> (\<forall>k st. dict_get (circuits rs) k = Some (Stored st) \<longrightarrow> state_ok cfg st)"

lemma closed_state_ok: "0 < circuit_failure_threshold cfg \<Longrightarrow> state_ok cfg closed_state"
  by (simp add: state_ok_def closed_state_def)

lemma get_state_ok:
  "0 < circuit_failure_threshold cfg \<Longrightarrow> breaker_inv cfg rs \<Longrightarrow> state_ok cfg (get_state up rs source)"
  by (auto simp: get_state_def breaker_inv_def closed_state_ok split: option.splits circuit_entry.splits)

lemma set_state_inv:
  "breaker_inv cfg rs \<Longrightarrow> state_ok cfg st \<Longrightarrow> breaker_inv cfg (set_state up source st rs)"
  by (auto simp: set_state_def breaker_inv_def dict_simps split: if_splits)

lemma is_open_inv:
  assumes "0 < circuit_failure_threshold cfg" "breaker_inv cfg rs"
  shows "breaker_inv cfg (fst (is_open cfg up now source rs))"
  using assms get_state_ok [OF assms, of "up Gate_Read" source]
  by (auto simp: is_open_def Let_def state_ok_def intro!: set_state_inv
      split: circuit_status.splits option.splits)

lemma record_failure_inv:
  assumes "0 < circuit_failure_threshold cfg" "breaker_inv cfg rs"
  shows "breaker_inv cfg (record_failure cfg up now source rs)"
  using assms get_state_ok [OF assms, of "up Record_Read" source]
  by (auto simp: record_failure_def Let_def state_ok_def intro!: set_state_inv
      split: circuit_status.splits)

lemma record_success_inv:
  assumes "0 < circuit_failure_threshold cfg" "breaker_inv cfg rs"
  shows "breaker_inv cfg (record_success up source rs)"
  using assms by (auto simp: record_success_def Let_def intro!: set_state_inv closed_state_ok)

lemma breaker_step_inv:
  "0 < circuit_failure_threshold cfg \<Longrightarrow> breaker_inv cfg rs \<Longrightarrow> breaker_step cfg rs rs' \<Longrightarrow>
     breaker_inv cfg rs'"
  by (auto elim!: breaker_stepE intro: is_open_inv record_failure_inv record_success_inv)

interpretation circuit: invariant_system
    "\<lambda>rs rs'. 0 < circuit_failure_threshold cfg \<and> breaker_step cfg rs rs'" "breaker_inv cfg" for cfg
  by unfold_locales (blast intro: breaker_step_inv)

lemma circuit_key_inj: "circuit_key a = circuit_key b \<longleftrightarrow> a = b"
  by (simp add: circuit_key_def)

lemma get_set_state [dict_simps]:
  "get_state True (set_state True a st rs) b = (if b = a then st else get_state True rs b)"
  by (simp add: get_state_def set_state_def dict_simps circuit_key_inj)

abbreviation all_up :: "access \<Rightarrow> bool" where
  "all_up \<equiv> \<lambda>_. True"

lemma failures_count:
  assumes "get_state True rs source = closed_state" "0 < circuit_failure_threshold cfg"
  shows "failure_count (get_state True (((\<lambda>rs. record_failure cfg all_up now source rs) ^^ k) rs) source) = int k \<and>
    cb_status (get_state True (((\<lambda>rs. record_failure cfg all_up now source rs) ^^ k) rs) source) =
      (if circuit_failure_threshold cfg \<le> int k then OPEN else CLOSED)"
proof (induction k)
  case 0
  then show ?case using assms by (simp add: closed_state_def)
next
  case (Suc k)
  then show ?case by (auto simp: record_failure_def Let_def dict_simps)
qed

section \<open>Properties of the breaker\<close>


definition sample_cfg :: settings where
  "sample_cfg = \<lparr>resilience_bypass = False, circuit_failure_threshold = 2, circuit_half_open_timeout_s = 60\<rparr>"

definition noaa_down :: redis_store where
  "noaa_down = record_failure sample_cfg all_up 5 ''noaa'' (record_failure sample_cfg all_up 0 ''noaa''
     \<lparr>circuits = [], cache = []\<rparr>)"

lemma noaa_down_reached:
  "reaches (\<lambda>rs rs'. 0 < circuit_failure_threshold sample_cfg \<and> breaker_step sample_cfg rs rs')
     \<lparr>circuits = [], cache = []\<rparr> noaa_down"
  unfolding noaa_down_def
  by (rule reaches_step [OF reaches_step [OF reaches_refl]])
    (auto simp: sample_cfg_def intro: breaker_step.failure)


section \<open>Properties of the degraded mode\<close>

lemma retry_from_bound: "snd (retry_from left made f) \<le> made + left + 1 \<and> made < snd (retry_from left made f)"
proof (induction left arbitrary: made)
  case 0
  then show ?case by (subst (1 2) retry_from.simps) (auto split: sum.splits py_exc.splits)
next
  case (Suc left)
  have "snd (retry_from left (made + 1) f) \<le> made + Suc left + 1 \<and> made < snd (retry_from left (made + 1) f)"
    using Suc [of "made + 1"] by simp
  then show ?case by (subst (1 2) retry_from.simps) (auto split: sum.splits py_exc.splits)
qed

definition http_only :: "(nat \<Rightarrow> 'v py) \<Rightarrow> bool" where
  "http_only f \<longleftrightarrow> (\<forall>i e. f i = Inl e \<longrightarrow> (\<exists>m. e = HTTP_Error m))"

lemma retry_from_result:
  assumes "http_only f"
  shows "(case fst (retry_from left made f) of
      Inr v \<Rightarrow> (\<exists>i. made \<le> i \<and> i \<le> made + left \<and> f i = Inr v \<and> (\<forall>j. made \<le> j \<and> j < i \<longrightarrow> (\<exists>m. f j = Inl (HTTP_Error m))))
    | Inl e \<Rightarrow> (\<exists>m. e = HTTP_Error m) \<and> (\<forall>j. made \<le> j \<and> j \<le> made + left \<longrightarrow> (\<exists>m. f j = Inl (HTTP_Error m))))"
proof (induction left arbitrary: made)
  case 0
  show ?case
  proof (cases "f made")
    case (Inl e)
    then obtain m where "e = HTTP_Error m" using assms by (auto simp: http_only_def)
    then show ?thesis using Inl by (auto simp: retry_from.simps [of 0])
  next
    case (Inr v)
    then show ?thesis by (auto simp: retry_from.simps [of 0])
  qed
next
  case (Suc left)
  show ?case
  proof (cases "f made")
    case (Inl e)
    then obtain m where m: "f made = Inl (HTTP_Error m)" using assms by (auto simp: http_only_def)
    then have eq: "retry_from (Suc left) made f = retry_from left (made + 1) f"
      by (simp add: retry_from.simps [of "Suc left"])
    have le: "made \<le> j \<longleftrightarrow> j = made \<or> made + 1 \<le> j" for j by auto
    show ?thesis
    proof (cases "fst (retry_from left (made + 1) f)")
      case err: (Inl e')
      then show ?thesis using Suc [of "made + 1"] m unfolding eq by (auto simp: le)
    next
      case val: (Inr v)
      then obtain i where "made + 1 \<le> i" "i \<le> made + 1 + left" "f i = Inr v"
        "\<forall>j. made + 1 \<le> j \<and> j < i \<longrightarrow> (\<exists>m. f j = Inl (HTTP_Error m))"
        using Suc [of "made + 1"] by auto
      then show ?thesis using val m unfolding eq by (auto simp: le intro!: exI [of _ i])
    qed
  next
    case (Inr v)
    then show ?thesis by (auto simp: retry_from.simps [of "Suc left"])
  qed
qed

lemma with_retry_cases:
  assumes "http_only f"
  obtains (got) v n where "with_retry f = (Inr v, n)" "0 < n" "n \<le> 3"
      "\<exists>i<3. f i = Inr v \<and> (\<forall>j<i. \<exists>m. f j = Inl (HTTP_Error m))"
    | (exhausted) m n where "with_retry f = (Inl (HTTP_Error m), n)" "0 < n" "n \<le> 3"
      "\<forall>j<3. \<exists>m. f j = Inl (HTTP_Error m)"
proof -
  have n: "0 < snd (with_retry f)" "snd (with_retry f) \<le> 3"
    using retry_from_bound [of 2 0 f] by (auto simp: with_retry_def MAX_ATTEMPTS_def)
  have res: "case fst (with_retry f) of
      Inr v \<Rightarrow> (\<exists>i. 0 \<le> i \<and> i \<le> 0 + 2 \<and> f i = Inr v \<and> (\<forall>j. 0 \<le> j \<and> j < i \<longrightarrow> (\<exists>m. f j = Inl (HTTP_Error m))))
    | Inl e \<Rightarrow> (\<exists>m. e = HTTP_Error m) \<and> (\<forall>j. 0 \<le> j \<and> j \<le> 0 + 2 \<longrightarrow> (\<exists>m. f j = Inl (HTTP_Error m)))"
    using retry_from_result [OF assms, where left = 2 and made = 0] by (simp add: with_retry_def MAX_ATTEMPTS_def)
  show thesis
  proof (cases "fst (with_retry f)")
    case (Inl e)
    then obtain m where "e = HTTP_Error m" "\<forall>j<3. \<exists>m. f j = Inl (HTTP_Error m)"
      using res by (auto simp: less_Suc_eq_le numeral_3_eq_3)
    then show thesis using exhausted [of m "snd (with_retry f)"] Inl n by (metis prod.collapse)
  next
    case (Inr v)
    then obtain i where i: "i < 3" "f i = Inr v" "\<forall>j<i. \<exists>m. f j = Inl (HTTP_Error m)"
      using res by (auto simp: less_Suc_eq_le numeral_3_eq_3)
    then have ex: "\<exists>i<3. f i = Inr v \<and> (\<forall>j<i. \<exists>m. f j = Inl (HTTP_Error m))" by blast
    have "with_retry f = (Inr v, snd (with_retry f))" using Inr by (metis prod.collapse)
    then show thesis using got n ex by blast
  qed
qed

lemma serve_from_cache_status:
  "degraded (serve_from_cache up now key rs) \<and> rr_status (serve_from_cache up now key rs) \<noteq> Live"
  by (auto simp: serve_from_cache_def Let_def split: option.splits sum.splits)

text \<open>The three ways a call that only meets HTTP errors ends.\<close>

lemma resilient_call_cases:
  assumes "\<not> resilience_bypass cfg" "http_only f"
  obtains (skipped) rs1 where "is_open cfg up (clock Gate_Read) source rs = (rs1, True)"
      "resilient_call cfg up clock source f key ttl rs =
         (rs1, Inr (serve_from_cache (up Cache_Read) (clock Cache_Read) (source_cache_key source key) rs1), 0)"
    | (live) rs1 v n where "is_open cfg up (clock Gate_Read) source rs = (rs1, False)" "0 < n" "n \<le> 3"
      "\<exists>i<3. f i = Inr v \<and> (\<forall>j<i. \<exists>m. f j = Inl (HTTP_Error m))"
      "resilient_call cfg up clock source f key ttl rs =
         (record_success up source (cache_result (up Cache_Write) (clock Cache_Write)
            (source_cache_key source key) v (effective_ttl source ttl) rs1),
          Inr \<lparr>rr_value = v, degraded = False, rr_status = Live\<rparr>, n)"
    | (exhausted) rs1 n where "is_open cfg up (clock Gate_Read) source rs = (rs1, False)" "0 < n" "n \<le> 3"
      "\<forall>j<3. \<exists>m. f j = Inl (HTTP_Error m)"
      "resilient_call cfg up clock source f key ttl rs =
         (record_failure cfg up (clock Record_Write) source rs1,
          Inr (serve_from_cache (up Cache_Read) (clock Cache_Read) (source_cache_key source key)
            (record_failure cfg up (clock Record_Write) source rs1)), n)"
proof -
  obtain rs1 b where gate: "is_open cfg up (clock Gate_Read) source rs = (rs1, b)" by force
  show thesis
  proof (cases b)
    case True
    then show thesis using skipped gate assms(1) by (simp add: resilient_call_def Let_def)
  next
    case False
    from assms(2) show thesis
    proof (cases rule: with_retry_cases)
      case (got v n)
      show thesis
        by (rule live [of rs1 n v]) (use gate False got assms(1) in \<open>simp_all add: resilient_call_def Let_def\<close>)
    next
      case (exhausted m n)
      show thesis
        by (rule that(3) [of rs1 n]) (use gate False exhausted assms(1) in \<open>simp_all add: resilient_call_def Let_def\<close>)
    qed
  qed
qed

text \<open>C14: the contract of a resilient call. When the wrapped call fails only with HTTP errors, the
  call always returns, whatever Redis does; it makes at most three attempts, and none when the
  circuit refuses; the result is live exactly when it is not degraded, a live value is what the
  first successful attempt returned, and a degraded result means that the circuit refused or all
  three attempts failed.\<close>

theorem resilient_call_contract:
  assumes "\<not> resilience_bypass cfg" "http_only f"
  shows "\<exists>rs' r n. resilient_call cfg up clock source f key ttl rs = (rs', Inr r, n) \<and> n \<le> 3 \<and>
    (degraded r \<longleftrightarrow> rr_status r \<noteq> Live) \<and>
    (n = 0 \<longleftrightarrow> snd (is_open cfg up (clock Gate_Read) source rs)) \<and>
    (\<not> degraded r \<longrightarrow> (\<exists>i<3. f i = Inr (rr_value r) \<and> (\<forall>j<i. \<exists>m. f j = Inl (HTTP_Error m)))) \<and>
    (degraded r \<longrightarrow> n = 0 \<or> (\<forall>j<3. \<exists>m. f j = Inl (HTTP_Error m)))"
  by (rule resilient_call_cases [OF assms, where up = up and clock = clock and source = source
        and key = key and ttl = ttl and rs = rs])
    (simp_all add: serve_from_cache_status)

theorem resilient_call_contract_witness:
  "\<exists>rs' r n. resilient_call sample_cfg all_up (\<lambda>_. 100) ''noaa''
     (\<lambda>i. if i < 2 then Inl (HTTP_Error ''503'') else Inr (JInt 17)) ''k'' None \<lparr>circuits = [], cache = []\<rparr> =
     (rs', Inr r, n) \<and> n \<le> 3 \<and> rr_value r = JInt 17"
proof -
  let ?f = "\<lambda>i. if i < (2::nat) then Inl (HTTP_Error ''503'') else Inr (JInt 17)"
  have "\<not> resilience_bypass sample_cfg" "http_only ?f"
    by (simp_all add: sample_cfg_def http_only_def)
  from resilient_call_contract [OF this, of all_up "\<lambda>_. 100" "''noaa''" "''k''" None "\<lparr>circuits = [], cache = []\<rparr>"]
  obtain rs' r n where r: "resilient_call sample_cfg all_up (\<lambda>_. 100) ''noaa'' ?f ''k'' None
      \<lparr>circuits = [], cache = []\<rparr> = (rs', Inr r, n)" "n \<le> 3"
    "n = 0 \<longleftrightarrow> snd (is_open sample_cfg all_up 100 ''noaa'' \<lparr>circuits = [], cache = []\<rparr>)"
    "\<not> degraded r \<longrightarrow> (\<exists>i<3. ?f i = Inr (rr_value r) \<and> (\<forall>j<i. \<exists>m. ?f j = Inl (HTTP_Error m)))"
    "degraded r \<longrightarrow> n = 0 \<or> (\<forall>j<3. \<exists>m. ?f j = Inl (HTTP_Error m))"
    by blast
  have "\<not> snd (is_open sample_cfg all_up 100 ''noaa'' \<lparr>circuits = [], cache = []\<rparr>)" by code_simp
  then have "\<not> degraded r" using r(3,5) by (metis Inl_Inr_False lessI less_irrefl numeral_2_eq_2 numeral_3_eq_3)
  then have "rr_value r = JInt 17" using r(4) by (auto split: if_splits)
  then show ?thesis using r(1,2) by blast
qed

lemma set_state_cache [simp]: "cache (set_state up s st rs) = cache rs"
  by (simp add: set_state_def)

lemma is_open_cache: "cache (fst (is_open cfg up now s rs)) = cache rs"
  by (auto simp: is_open_def Let_def split: circuit_status.splits option.splits)

lemma record_cache [simp]:
  "cache (record_failure cfg up now s rs) = cache rs" "cache (record_success up s rs) = cache rs"
  by (simp_all add: record_failure_def record_success_def Let_def)

lemma serve_cached:
  "dict_get (cache rs) key = Some (json_dumps v, t) \<Longrightarrow> now < t \<Longrightarrow>
     serve_from_cache True now key rs = \<lparr>rr_value = v, degraded = True, rr_status = Cached\<rparr>"
  by (simp add: serve_from_cache_def)

text \<open>degraded service returns the last good value. After a live result that could be cached, a
  later call for the same source and key that makes no successful attempt (circuit open or all
  attempts failing) within the time to live returns exactly that value, marked as cached.\<close>

theorem resilient_call_serves_last_value:
  assumes "\<not> resilience_bypass cfg" "http_only f" "http_only g"
    "resilient_call cfg up clock source f key ttl rs = (rs1, Inr r1, n1)" "rr_status r1 = Live" "up Cache_Write"
    "\<forall>i. \<exists>m. g i = Inl (HTTP_Error m)" "up' Cache_Read"
    "clock' Cache_Read < clock Cache_Write + effective_ttl source ttl * 1000000"
  shows "\<exists>rs2 n2. resilient_call cfg up' clock' source g key ttl' rs1 =
    (rs2, Inr \<lparr>rr_value = rr_value r1, degraded = True, rr_status = Cached\<rparr>, n2)"
proof -
  let ?key = "source_cache_key source key"
  have cached: "dict_get (cache rs1) ?key =
      Some (json_dumps (rr_value r1), clock Cache_Write + effective_ttl source ttl * 1000000)"
    using assms(1,2)
  proof (cases rule: resilient_call_cases [where up = up and clock = clock and source = source
        and key = key and ttl = ttl and rs = rs])
    case (live rs0 v n)
    then show ?thesis using assms(4,6) by (auto simp: cache_result_def dict_simps)
  qed (use assms(4,5) serve_from_cache_status in auto)
  have serve: "serve_from_cache True (clock' Cache_Read) ?key rs' =
      \<lparr>rr_value = rr_value r1, degraded = True, rr_status = Cached\<rparr>" if "cache rs' = cache rs1" for rs'
    using serve_cached [of rs' ?key "rr_value r1"] cached assms(9) that by simp
  show ?thesis
    using assms(1,3)
  proof (cases rule: resilient_call_cases [where up = up' and clock = clock' and source = source
        and key = key and ttl = ttl' and rs = rs1])
    case (skipped rs2)
    then have "cache rs2 = cache rs1" using is_open_cache [of cfg up' "clock' Gate_Read" source rs1] by simp
    then show ?thesis using skipped(2) serve assms(8) by simp
  next
    case (live rs2 v n)
    then show ?thesis using assms(7) by (metis Inl_Inr_False)
  next
    case (exhausted rs2 n)
    then have "cache rs2 = cache rs1" using is_open_cache [of cfg up' "clock' Gate_Read" source rs1] by simp
    then show ?thesis using exhausted(5) serve assms(8) by simp
  qed
qed

theorem resilient_call_serves_last_value_witness:
  "\<exists>rs2 n2. resilient_call sample_cfg all_up (\<lambda>_. 500000000) ''noaa'' (\<lambda>_. Inl (HTTP_Error ''503'')) ''k'' None
      (fst (resilient_call sample_cfg all_up (\<lambda>_. 100) ''noaa'' (\<lambda>_. Inr (JInt 17)) ''k'' None
        \<lparr>circuits = [], cache = []\<rparr>)) =
    (rs2, Inr \<lparr>rr_value = JInt 17, degraded = True, rr_status = Cached\<rparr>, n2)"
proof -
  have f: "http_only (\<lambda>_. Inr (JInt 17))" "http_only (\<lambda>_. Inl (HTTP_Error ''503'') :: json py)"
    "\<not> resilience_bypass sample_cfg"
    by (simp_all add: http_only_def sample_cfg_def)
  let ?first = "resilient_call sample_cfg all_up (\<lambda>_. 100) ''noaa'' (\<lambda>_. Inr (JInt 17)) ''k'' None
      \<lparr>circuits = [], cache = []\<rparr>"
  have first: "?first = (fst ?first, Inr \<lparr>rr_value = JInt 17, degraded = False, rr_status = Live\<rparr>, 1)"
    by code_simp
  have "(500000000 :: int) < 100 + effective_ttl ''noaa'' None * 1000000" by code_simp
  from resilient_call_serves_last_value [OF f(3,1,2) first _ _ _ _ this]
  show ?thesis by simp
qed

text \<open>Outside HTTP errors the call does raise: an exception of another class from the wrapped
  function reaches the caller.\<close>

lemma resilient_call_propagates:
  assumes "\<not> resilience_bypass cfg" "\<not> snd (is_open cfg up (clock Gate_Read) source rs)"
    "f 0 = Inl (Value_Error m)"
  shows "\<exists>rs'. resilient_call cfg up clock source f key ttl rs = (rs', Inl (Value_Error m), 1)"
  using assms
  by (auto simp: resilient_call_def with_retry_def retry_from.simps Let_def split: prod.splits bool.splits)

text \<open>Several callers may pass a half-open circuit before any of them reports back.\<close>

lemma half_open_admits_everyone:
  "get_circuit_status True rs s = HALF_OPEN \<Longrightarrow> is_open cfg all_up now s rs = (rs, False)"
  by (simp add: get_circuit_status_def is_open_def Let_def)

end
