(* ===== verification/Alerting.thy ===== *)
theory Alerting
  imports Json "HOL-Library.List_Lexorder" "HOL-Library.Char_ord" "HOL-Library.Sublist"
begin

text \<open>
  Service-level objectives (\<open>alerting/slo.py\<close>), alert rules (\<open>alerting/rules.py\<close>), their
  evaluation (\<open>alerting/evaluator.py\<close>), the alert part of the repository
  (\<open>db/repository.py\<close>) and the evaluation job that reconciles firings with open incidents
  (\<open>workers/jobs/alert_evaluation_job.py\<close>). The rows the SQL queries return are parameters;
  commits succeed; primary keys come from a counter; rule names are ordered by code point; a
  notification is recorded when it is handed to the channel, whatever the channel answers.
\<close>

section \<open>Service-level objectives\<close>

datatype slo_comparison = Slo_Gt | Slo_Lt | Slo_Eq

datatype alert_severity = Warning | Critical

record slo_definition =
  slo_name :: string
  target :: flt
  slo_window :: string
  error_budget_burn_alert_threshold :: flt
  slo_metric :: string
  slo_threshold :: "flt option"
  slo_compare :: slo_comparison

record burn_rate_result =
  current_burn_rate :: flt
  budget_remaining_pct :: flt
  br_severity :: "alert_severity option"
  insufficient_data :: bool

definition bad_event :: "slo_definition \<Rightarrow> flt \<Rightarrow> bool" where
  "bad_event slo x =
     (case slo_threshold slo of
        None \<Rightarrow> x > 0
      | Some t \<Rightarrow> (case slo_compare slo of Slo_Gt \<Rightarrow> x > t | Slo_Lt \<Rightarrow> x < t | Slo_Eq \<Rightarrow> x = t))"

definition evaluate_slo_burn_rate :: "slo_definition \<Rightarrow> flt list \<Rightarrow> burn_rate_result" where
  "evaluate_slo_burn_rate slo actuals =
     (if actuals = [] then
        \<lparr>current_burn_rate = 0, budget_remaining_pct = 100, br_severity = None, insufficient_data = True\<rparr>
      else
        (let bad = length (filter (bad_event slo) actuals);
             error_rate = fdiv (of_nat bad) (of_nat (length actuals));
             allowed = fround 6 (fsub 1 (target slo));
             burn = (if allowed \<le> 0 then 0 else fround 4 (fdiv error_rate allowed));
             remaining = (if allowed \<le> 0 then 100
                          else max 0 (fmul (fsub 1 (fdiv error_rate allowed)) 100));
             sev = (if burn \<ge> error_budget_burn_alert_threshold slo
                    then Some (if burn \<ge> fl64 (144/10) then Critical else Warning) else None)
         in \<lparr>current_burn_rate = burn, budget_remaining_pct = fround 2 remaining, br_severity = sev,
             insufficient_data = False\<rparr>))"

section \<open>Rules\<close>

definition SUPPORTED_METRICS :: "string list" where
  "SUPPORTED_METRICS =
     [''investigation.p95_latency_ms'', ''investigation.job_failure_rate'', ''investigation.job_success_rate'',
      ''job_failure_rate'', ''investigation.avg_cost_estimate'', ''calibration_ece'', ''citation_fallback_rate'',
      ''scaling.queue_depth'', ''scaling.worker_utilization_pct'', ''scaling.p95_queue_wait_s'']"

record alert_rule =
  rule_id :: nat
  rule_name :: string
  rule_metric :: string
  rule_threshold :: flt
  comparison :: string
  rule_window :: string
  rule_severity :: alert_severity
  consecutive_cycles :: int
  is_enabled :: bool

record alert_firing =
  fr_rule_name :: string
  fr_metric :: string
  current_value :: flt
  fr_threshold :: flt
  fr_comparison :: string
  fr_severity :: alert_severity
  fr_slo_name :: "string option"

type_synonym rule_def = "string \<times> string \<times> flt \<times> string \<times> string \<times> alert_severity \<times> int"

definition DEFAULT_ALERT_RULES :: "rule_def list" where
  "DEFAULT_ALERT_RULES =
     [(''high_p95_latency'', ''investigation.p95_latency_ms'', 10000, ''gt'', ''15m'', Warning, 1),
      (''high_job_failure_rate'', ''investigation.job_failure_rate'', fl64 (1/10), ''gt'', ''1h'', Critical, 1),
      (''scaling_queue_depth_breach'', ''scaling.queue_depth'', 20, ''gt'', ''15m'', Warning, 4),
      (''scaling_worker_utilization_breach'', ''scaling.worker_utilization_pct'', 100, ''gte'', ''15m'', Warning, 4),
      (''scaling_p95_queue_wait_breach'', ''scaling.p95_queue_wait_s'', 60, ''gt'', ''15m'', Warning, 1)]"

section \<open>Evaluation\<close>

definition is_threshold_violated :: "flt \<Rightarrow> flt \<Rightarrow> string \<Rightarrow> bool" where
  "is_threshold_violated v t cmp =
     (if cmp = ''gt'' then v > t else if cmp = ''gte'' then v \<ge> t else if cmp = ''lt'' then v < t else False)"

text \<open>\<open>_WINDOW_INTERVAL.get(window, default)\<close>, in minutes.\<close>

definition window_interval :: "string \<Rightarrow> nat \<Rightarrow> nat" where
  "window_interval w dflt =
     (if w = ''15m'' then 15 else if w = ''1h'' then 60 else if w = ''1d'' then 1440
      else if w = ''30d'' then 43200 else dflt)"

text \<open>
  What the three queries of an interval return: one row of aggregates, the latest queue wait, and
  the latest telemetry sample. The first may raise, the others are guarded.
\<close>

record window_rows =
  w_metrics :: "(flt option \<times> flt option \<times> flt option) option py"
  w_queue_wait :: "flt option py"
  w_telemetry :: "(flt option \<times> flt option) option py"

definition set_some :: "string \<Rightarrow> flt option \<Rightarrow> (string, flt) dict \<Rightarrow> (string, flt) dict" where
  "set_some k v d = (case v of None \<Rightarrow> d | Some x \<Rightarrow> dict_set k x d)"

definition zero_snapshot :: "(string, flt) dict" where
  "zero_snapshot =
     [(''investigation.p95_latency_ms'', 0), (''investigation.job_failure_rate'', 0), (''job_failure_rate'', 0),
      (''investigation.avg_cost_estimate'', 0), (''scaling.queue_depth'', 0),
      (''scaling.worker_utilization_pct'', 0), (''scaling.p95_queue_wait_s'', 0)]"

definition fetch_window_metrics_snapshot :: "(nat \<Rightarrow> window_rows) \<Rightarrow> string \<Rightarrow> (string, flt) dict py" where
  "fetch_window_metrics_snapshot rows window =
     (let w = rows (window_interval window 15) in
      py_bind (w_metrics w) (\<lambda>row.
       let s0 = zero_snapshot;
           s1 = (case row of None \<Rightarrow> s0
                 | Some (p95, fail, cost) \<Rightarrow>
                     set_some ''investigation.avg_cost_estimate'' cost
                       (set_some ''job_failure_rate'' fail
                         (set_some ''investigation.job_failure_rate'' fail
                           (set_some ''investigation.p95_latency_ms'' p95 s0))));
           s2 = (case w_queue_wait w of Inl _ \<Rightarrow> s1
                 | Inr v \<Rightarrow> set_some ''scaling.p95_queue_wait_s'' (map_option (\<lambda>x. fdiv x 1000) v) s1);
           s3 = (case w_telemetry w of Inl _ \<Rightarrow> s2 | Inr None \<Rightarrow> s2
                 | Inr (Some (qd, ut)) \<Rightarrow>
                     set_some ''scaling.worker_utilization_pct'' ut (set_some ''scaling.queue_depth'' qd s2))
       in Inr s3))"

definition effective_threshold :: "int \<Rightarrow> alert_rule \<Rightarrow> flt" where
  "effective_threshold pool r =
     (if rule_metric r = ''scaling.queue_depth'' then fl64 (of_int (10 * pool)) else rule_threshold r)"

definition evaluate_rule :: "int \<Rightarrow> (string, flt) dict \<Rightarrow> alert_rule \<Rightarrow> alert_firing list" where
  "evaluate_rule pool snap r =
     (if rule_metric r \<notin> set SUPPORTED_METRICS then []
      else
        (let v = dict_get_or snap (rule_metric r) 0; t = effective_threshold pool r
         in if is_threshold_violated v t (comparison r)
            then [\<lparr>fr_rule_name = rule_name r, fr_metric = rule_metric r, current_value = v, fr_threshold = t,
                   fr_comparison = comparison r, fr_severity = rule_severity r, fr_slo_name = None\<rparr>]
            else []))"

text \<open>Rules grouped by window in order of first appearance; a window whose query raises is skipped.\<close>

definition evaluate_rules :: "int \<Rightarrow> (nat \<Rightarrow> window_rows) \<Rightarrow> alert_rule list \<Rightarrow> alert_firing list" where
  "evaluate_rules pool rows rules =
     (let enabled = filter is_enabled rules
      in concat (map (\<lambda>w. case fetch_window_metrics_snapshot rows w of
             Inl _ \<Rightarrow> []
           | Inr snap \<Rightarrow> concat (map (evaluate_rule pool snap) (filter (\<lambda>r. rule_window r = w) enabled)))
           (append_new [] (map rule_window enabled))))"

definition slo_firing :: "slo_definition \<Rightarrow> burn_rate_result \<Rightarrow> alert_firing list" where
  "slo_firing slo res =
     (if insufficient_data res then []
      else case br_severity res of None \<Rightarrow> []
           | Some sv \<Rightarrow> [\<lparr>fr_rule_name = slo_name slo, fr_metric = slo_metric slo,
               current_value = current_burn_rate res, fr_threshold = error_budget_burn_alert_threshold slo,
               fr_comparison = ''gt'', fr_severity = sv, fr_slo_name = Some (slo_name slo)\<rparr>])"

datatype slo_query = Latency_Query | Success_Query | Ece_Query | Fallback_Query

definition slo_query_of :: "string \<Rightarrow> slo_query option" where
  "slo_query_of m =
     (if m = ''investigation.p95_latency_ms'' \<or> m = ''p95_latency'' then Some Latency_Query
      else if m = ''investigation.job_success_rate'' \<or> m = ''job_success_rate'' then Some Success_Query
      else if m = ''calibration_ece'' then Some Ece_Query
      else if m = ''citation_fallback_rate'' then Some Fallback_Query
      else None)"

text \<open>\<open>series q minutes\<close> is what query \<open>q\<close> returns over the last minutes: nullable cells, or it raises.\<close>

type_synonym series = "slo_query \<Rightarrow> nat \<Rightarrow> flt option list py"

definition fetch_slo_actuals :: "series \<Rightarrow> slo_definition \<Rightarrow> flt list" where
  "fetch_slo_actuals series slo =
     (case slo_query_of (slo_metric slo) of
        None \<Rightarrow> []
      | Some q \<Rightarrow> (case series q (window_interval (slo_window slo) 43200) of
            Inl _ \<Rightarrow> []
          | Inr cells \<Rightarrow> List.map_filter (\<lambda>x. x) cells))"

definition slo_result :: "series \<Rightarrow> slo_definition \<Rightarrow> burn_rate_result" where
  "slo_result series slo = evaluate_slo_burn_rate slo (fetch_slo_actuals series slo)"

definition evaluate_slos ::
    "series \<Rightarrow> slo_definition list \<Rightarrow> alert_firing list \<times> (string, burn_rate_result) dict" where
  "evaluate_slos series slos =
     (concat (map (\<lambda>slo. slo_firing slo (slo_result series slo)) slos),
      fold (\<lambda>slo. dict_set (slo_name slo) (slo_result series slo)) slos [])"

section \<open>Repository\<close>

datatype incident_status = Firing | Resolved

record incident =
  inc_id :: nat
  inc_rule_id :: "nat option"
  inc_rule_name :: string
  inc_slo_name :: "string option"
  inc_severity :: alert_severity
  inc_status :: incident_status
  last_value :: flt
  inc_threshold :: flt
  consecutive_violations :: int
  fired_at :: int
  resolved_at :: "int option"

record alert_db =
  rules :: "alert_rule list"
  incidents :: "incident list"
  next_id :: nat

definition upsert_alert_rule :: "rule_def \<Rightarrow> bool \<Rightarrow> alert_db \<Rightarrow> alert_db" where
  "upsert_alert_rule rd enabled db =
     (case rd of (n, m, t, cmp, w, sv, cyc) \<Rightarrow>
        if list_ex (\<lambda>r. rule_name r = n) (rules db)
        then db\<lparr>rules := map (\<lambda>r. if rule_name r = n
               then r\<lparr>rule_metric := m, rule_threshold := t, comparison := cmp, rule_window := w,
                      rule_severity := sv, consecutive_cycles := cyc, is_enabled := enabled\<rparr>
               else r) (rules db)\<rparr>
        else db\<lparr>rules := rules db @ [\<lparr>rule_id = next_id db, rule_name = n, rule_metric = m,
                 rule_threshold = t, comparison = cmp, rule_window = w, rule_severity = sv,
                 consecutive_cycles = cyc, is_enabled = enabled\<rparr>],
               next_id := next_id db + 1\<rparr>)"

definition list_alert_rules :: "alert_db \<Rightarrow> alert_rule list" where
  "list_alert_rules db = sort_key rule_name (rules db)"

definition delete_alert_rule :: "nat \<Rightarrow> alert_db \<Rightarrow> bool \<times> alert_db" where
  "delete_alert_rule i db =
     (if list_ex (\<lambda>r. rule_id r = i) (rules db)
      then (True, db\<lparr>rules := filter (\<lambda>r. rule_id r \<noteq> i) (rules db),
                    incidents := filter (\<lambda>inc. inc_rule_id inc \<noteq> Some i) (incidents db)\<rparr>)
      else (False, db))"

definition open_incidents :: "alert_db \<Rightarrow> string \<Rightarrow> incident list" where
  "open_incidents db n = filter (\<lambda>i. inc_rule_name i = n \<and> inc_status i = Firing) (incidents db)"

definition get_open_incident_by_rule_name :: "alert_db \<Rightarrow> string \<Rightarrow> incident option py" where
  "get_open_incident_by_rule_name db n = scalar_one_or_none (open_incidents db n)"

definition create_incident ::
    "int \<Rightarrow> nat option \<Rightarrow> string \<Rightarrow> alert_severity \<Rightarrow> flt \<Rightarrow> flt \<Rightarrow> int \<Rightarrow> string option \<Rightarrow> alert_db \<Rightarrow> alert_db" where
  "create_incident now rid n sv v t viol slo db =
     db\<lparr>incidents := incidents db @ [\<lparr>inc_id = next_id db, inc_rule_id = rid, inc_rule_name = n,
          inc_slo_name = slo, inc_severity = sv, inc_status = Firing, last_value = v, inc_threshold = t,
          consecutive_violations = viol, fired_at = now, resolved_at = None\<rparr>],
        next_id := next_id db + 1\<rparr>"

definition update_incident_last_value :: "nat \<Rightarrow> flt \<Rightarrow> int \<Rightarrow> alert_db \<Rightarrow> alert_db" where
  "update_incident_last_value i v viol db =
     db\<lparr>incidents := map (\<lambda>inc. if inc_id inc = i
          then inc\<lparr>last_value := v, consecutive_violations := viol\<rparr> else inc) (incidents db)\<rparr>"

definition find_incident :: "alert_db \<Rightarrow> nat \<Rightarrow> incident option" where
  "find_incident db i = find (\<lambda>inc. inc_id inc = i) (incidents db)"

text \<open>The incident found, if any, and the table after the commit.\<close>

definition resolve_incident :: "int \<Rightarrow> nat \<Rightarrow> alert_db \<Rightarrow> bool \<times> alert_db" where
  "resolve_incident now i db =
     (find_incident db i \<noteq> None,
      db\<lparr>incidents := map (\<lambda>inc. if inc_id inc = i \<and> inc_status inc = Firing
          then inc\<lparr>inc_status := Resolved, resolved_at := Some now\<rparr> else inc) (incidents db)\<rparr>)"

definition list_incidents :: "alert_db \<Rightarrow> incident_status option \<Rightarrow> nat \<Rightarrow> nat \<Rightarrow> incident list" where
  "list_incidents db status limit offset =
     take limit (drop offset (sort_key (\<lambda>i. - fired_at i)
       (filter (\<lambda>i. case status of None \<Rightarrow> True | Some s \<Rightarrow> inc_status i = s) (incidents db))))"

section \<open>The evaluation job\<close>

datatype notification = Fired alert_firing | Cleared string alert_severity

type_synonym job_state = "alert_db \<times> notification list"

text \<open>Step 3a for one active rule; \<open>firing\<close> is the entry of the rule in the dictionary of firings.\<close>

definition process_rule :: "int \<Rightarrow> (string, alert_firing) dict \<Rightarrow> alert_rule \<Rightarrow> job_state \<Rightarrow> job_state py" where
  "process_rule now firings r s =
     (case s of (db, notes) \<Rightarrow>
      case dict_get firings (rule_name r) of
        None \<Rightarrow> Inr s
      | Some f \<Rightarrow>
          py_bind (get_open_incident_by_rule_name db (rule_name r)) (\<lambda>op.
          case op of
            None \<Rightarrow>
              Inr (create_incident now (Some (rule_id r)) (rule_name r) (rule_severity r) (current_value f)
                     (rule_threshold r) 1 None db,
                   if 1 \<ge> consecutive_cycles r then notes @ [Fired f] else notes)
          | Some inc \<Rightarrow>
              (let n = consecutive_violations inc + 1
               in Inr (update_incident_last_value (inc_id inc) (current_value f) n db,
                       if n = consecutive_cycles r then notes @ [Fired f] else notes))))"

text \<open>Step 3b for one firing of an objective.\<close>

definition process_slo :: "int \<Rightarrow> alert_firing \<Rightarrow> job_state \<Rightarrow> job_state py" where
  "process_slo now f s =
     (case s of (db, notes) \<Rightarrow>
      py_bind (get_open_incident_by_rule_name db (fr_rule_name f)) (\<lambda>op.
      case op of
        None \<Rightarrow>
          Inr (create_incident now None (fr_rule_name f) (fr_severity f) (current_value f) (fr_threshold f) 1
                 (fr_slo_name f) db, notes @ [Fired f])
      | Some inc \<Rightarrow>
          Inr (update_incident_last_value (inc_id inc) (current_value f) (consecutive_violations inc + 1) db,
               notes)))"

text \<open>Step 4 for one listed incident.\<close>

definition process_open :: "int \<Rightarrow> string list \<Rightarrow> incident \<Rightarrow> job_state \<Rightarrow> job_state" where
  "process_open now names inc s =
     (case s of (db, notes) \<Rightarrow>
        if inc_rule_name inc \<in> set names then s
        else (case resolve_incident now (inc_id inc) db of (found, db') \<Rightarrow>
              (db', if found then notes @ [Cleared (inc_rule_name inc) (inc_severity inc)] else notes)))"

fun py_fold :: "('a \<Rightarrow> 's \<Rightarrow> 's py) \<Rightarrow> 'a list \<Rightarrow> 's \<Rightarrow> 's py" where
  "py_fold f [] s = Inr s"
| "py_fold f (x # xs) s = py_bind (f x s) (py_fold f xs)"

definition firing_dict :: "alert_firing list \<Rightarrow> (string, alert_firing) dict" where
  "firing_dict fs = fold (\<lambda>f. dict_set (fr_rule_name f) f) fs []"

definition seed_rules :: "alert_db \<Rightarrow> alert_db" where
  "seed_rules db =
     (if rules db = [] then fold (\<lambda>rd. upsert_alert_rule rd True) DEFAULT_ALERT_RULES db else db)"

definition reconcile ::
    "int \<Rightarrow> alert_rule list \<Rightarrow> alert_firing list \<Rightarrow> alert_firing list \<Rightarrow> alert_db \<Rightarrow> job_state py" where
  "reconcile now active rule_firings slo_firings db =
     py_bind (py_fold (process_rule now (firing_dict rule_firings)) active (db, [])) (\<lambda>s1.
     py_bind (py_fold (process_slo now) slo_firings s1) (\<lambda>s2.
     let names = map fr_rule_name (rule_firings @ slo_firings)
     in Inr (fold (process_open now names) (list_incidents (fst s2) (Some Firing) 50 0) s2)))"

text \<open>
  One evaluation cycle: the feature flag, whether a session factory exists, the worker pool size,
  the time of the cycle, what the queries return, and the loaded objectives.
\<close>

record cycle =
  alerting_enabled :: bool
  have_session :: bool
  worker_pool_size :: int
  cycle_now :: int
  cycle_rows :: "nat \<Rightarrow> window_rows"
  cycle_series :: series

definition active_rules :: "alert_db \<Rightarrow> alert_rule list" where
  "active_rules db = filter is_enabled (list_alert_rules db)"

definition run_alert_evaluation :: "slo_definition list \<Rightarrow> cycle \<Rightarrow> alert_db \<Rightarrow> job_state py" where
  "run_alert_evaluation slos c db =
     (if \<not> alerting_enabled c \<or> \<not> have_session c then Inr (db, [])
      else
        (let db1 = seed_rules db; active = active_rules db1
         in reconcile (cycle_now c) active (evaluate_rules (worker_pool_size c) (cycle_rows c) active)
              (fst (evaluate_slos (cycle_series c) slos)) db1))"

section \<open>Interface: the repository the job relies on\<close>

text \<open>
  The job sees the table of incidents through four operations. What it relies on is the number of
  consecutive violations of the open incident of each name: \<open>fetch\<close> reads it, \<open>add\<close> opens an
  incident, \<open>set_count\<close> rewrites one, \<open>close\<close> removes one.
\<close>

locale incident_repository =
  fixes fetch :: "'s \<Rightarrow> string \<Rightarrow> 'i option py"
    and add :: "'a \<Rightarrow> string \<Rightarrow> int \<Rightarrow> 's \<Rightarrow> 's"
    and set_count :: "'i \<Rightarrow> 'v \<Rightarrow> int \<Rightarrow> 's \<Rightarrow> 's"
    and close :: "'i \<Rightarrow> 's \<Rightarrow> 's"
    and name_of :: "'i \<Rightarrow> string"
    and count_of :: "'i \<Rightarrow> int"
    and is_open :: "'s \<Rightarrow> 'i \<Rightarrow> bool"
    and counts :: "'s \<Rightarrow> string \<Rightarrow> int option"
    and inv :: "'s \<Rightarrow> bool"
  assumes fetch_counts: "inv s \<Longrightarrow> \<exists>r. fetch s n = Inr r \<and> map_option count_of r = counts s n"
    and fetch_open: "inv s \<Longrightarrow> fetch s n = Inr (Some i) \<Longrightarrow> is_open s i \<and> name_of i = n"
    and add_counts: "inv s \<Longrightarrow> counts s n = None \<Longrightarrow> counts (add a n k s) = (counts s)(n \<mapsto> k)"
    and add_inv: "inv s \<Longrightarrow> counts s n = None \<Longrightarrow> inv (add a n k s)"
    and set_counts: "inv s \<Longrightarrow> is_open s i \<Longrightarrow> counts (set_count i v k s) = (counts s)(name_of i \<mapsto> k)"
    and set_inv: "inv s \<Longrightarrow> is_open s i \<Longrightarrow> inv (set_count i v k s)"
    and close_counts: "inv s \<Longrightarrow> is_open s i \<Longrightarrow> counts (close i s) = (counts s)(name_of i := None)"
    and close_inv: "inv s \<Longrightarrow> is_open s i \<Longrightarrow> inv (close i s)"
    and close_open: "inv s \<Longrightarrow> is_open s i \<Longrightarrow> is_open s j \<Longrightarrow> name_of j \<noteq> name_of i \<Longrightarrow>
          is_open (close i s) j"
begin

definition bump :: "(string \<Rightarrow> int option) \<Rightarrow> string \<Rightarrow> int" where
  "bump m n = (case m n of None \<Rightarrow> 1 | Some k \<Rightarrow> k + 1)"

definition tally :: "'a \<Rightarrow> 'v \<Rightarrow> string \<Rightarrow> 's \<Rightarrow> 's py" where
  "tally a v n s = py_bind (fetch s n) (\<lambda>r. Inr (case r of
       None \<Rightarrow> add a n 1 s | Some i \<Rightarrow> set_count i v (count_of i + 1) s))"

lemma tally_counts:
  assumes "inv s"
  shows "\<exists>t. tally a v n s = Inr t \<and> inv t \<and> counts t = (counts s)(n \<mapsto> bump (counts s) n)"
proof -
  obtain r where r: "fetch s n = Inr r" "map_option count_of r = counts s n"
    using fetch_counts assms by blast
  show ?thesis
  proof (cases r)
    case None
    then have "counts s n = None" using r by simp
    then show ?thesis using r None assms
      by (auto simp: tally_def bump_def add_counts add_inv)
  next
    case (Some i)
    then have i: "is_open s i" "name_of i = n" using fetch_open assms r by auto
    have "counts s n = Some (count_of i)" using r Some by simp
    then show ?thesis using r Some i assms
      by (auto simp: tally_def bump_def set_counts set_inv)
  qed
qed

definition close_stale :: "string set \<Rightarrow> 'i list \<Rightarrow> 's \<Rightarrow> 's" where
  "close_stale keep = fold (\<lambda>i s. if name_of i \<in> keep then s else close i s)"

lemma close_stale_counts:
  assumes "inv s" "\<forall>i\<in>set is. is_open s i" "distinct (map name_of is)"
  shows "inv (close_stale keep is s) \<and>
     counts (close_stale keep is s) =
       (\<lambda>n. if n \<in> name_of ` set is \<and> n \<notin> keep then None else counts s n)"
  using assms
proof (induction "is" arbitrary: s)
  case Nil
  then show ?case by (simp add: close_stale_def)
next
  case (Cons i rest)
  show ?case
  proof (cases "name_of i \<in> keep")
    case True
    then have "close_stale keep (i # rest) s = close_stale keep rest s"
      by (simp add: close_stale_def)
    then show ?thesis using Cons.IH [of s] Cons.prems True by (auto simp: fun_eq_iff)
  next
    case False
    have op: "is_open s i" using Cons.prems by simp
    have "\<forall>j\<in>set rest. is_open (close i s) j"
    proof
      fix j assume j: "j \<in> set rest"
      have "name_of i \<notin> name_of ` set rest" using Cons.prems by simp
      then have "name_of j \<noteq> name_of i" using j by (metis imageI)
      then show "is_open (close i s) j" using close_open Cons.prems op j by auto
    qed
    moreover have "inv (close i s)" using close_inv Cons.prems op by blast
    ultimately have "inv (close_stale keep rest (close i s)) \<and>
        counts (close_stale keep rest (close i s)) =
          (\<lambda>n. if n \<in> name_of ` set rest \<and> n \<notin> keep then None else counts (close i s) n)"
      using Cons.IH Cons.prems by simp
    moreover have "close_stale keep (i # rest) s = close_stale keep rest (close i s)"
      using False by (simp add: close_stale_def)
    ultimately show ?thesis using close_counts [OF Cons.prems(1) op] False
      by (auto simp: fun_eq_iff)
  qed
qed

end


section \<open>The repository implements the interface\<close>

definition violations :: "alert_db \<Rightarrow> string \<Rightarrow> int option" where
  "violations db n =
     (case open_incidents db n of [] \<Rightarrow> None | i # _ \<Rightarrow> Some (consecutive_violations i))"

definition incident_open :: "alert_db \<Rightarrow> incident \<Rightarrow> bool" where
  "incident_open db i \<longleftrightarrow> i \<in> set (incidents db) \<and> inc_status i = Firing"

definition db_ok :: "alert_db \<Rightarrow> bool" where
  "db_ok db \<longleftrightarrow>
     distinct (map inc_id (incidents db)) \<and> (\<forall>i\<in>set (incidents db). inc_id i < next_id db) \<and>
     distinct (map rule_name (rules db)) \<and>
     distinct (map inc_rule_name (filter (\<lambda>i. inc_status i = Firing) (incidents db)))"

type_synonym open_args = "int \<times> nat option \<times> alert_severity \<times> flt \<times> flt \<times> string option"

definition open_new :: "open_args \<Rightarrow> string \<Rightarrow> int \<Rightarrow> alert_db \<Rightarrow> alert_db" where
  "open_new a n k db = (case a of (now, rid, sv, v, t, slo) \<Rightarrow> create_incident now rid n sv v t k slo db)"

lemma open_incidents_cases:
  assumes "db_ok db"
  obtains (none) "open_incidents db n = []" "violations db n = None"
      "\<forall>j\<in>set (incidents db). inc_status j = Firing \<longrightarrow> inc_rule_name j \<noteq> n"
  | (one) i where "open_incidents db n = [i]" "violations db n = Some (consecutive_violations i)"
      "incident_open db i" "inc_rule_name i = n"
proof (cases "open_incidents db n")
  case Nil
  then show thesis by (auto intro!: none simp: violations_def open_incidents_def filter_empty_conv)
next
  case (Cons i rest)
  then have "rest = []"
    using unique_column_rows [of inc_rule_name "\<lambda>i. inc_status i = Firing" "incidents db" n] assms
    by (auto simp: db_ok_def open_incidents_def)
  moreover have "i \<in> set (open_incidents db n)" using Cons by simp
  ultimately show thesis using Cons
    by (auto intro!: one simp: violations_def incident_open_def open_incidents_def)
qed

lemma violations_of_open:
  assumes "db_ok db" "incident_open db i"
  shows "violations db (inc_rule_name i) = Some (consecutive_violations i)"
proof (rule open_incidents_cases [OF assms(1), of "inc_rule_name i"])
  fix j assume "open_incidents db (inc_rule_name i) = [j]"
    "violations db (inc_rule_name i) = Some (consecutive_violations j)"
  moreover have "i \<in> set (open_incidents db (inc_rule_name i))"
    using assms(2) by (simp add: open_incidents_def incident_open_def)
  ultimately show ?thesis by simp
qed (use assms(2) in \<open>auto simp: incident_open_def\<close>)

lemma open_same_id:
  assumes "db_ok db" "incident_open db i" "j \<in> set (incidents db)" "inc_id j = inc_id i"
  shows "j = i"
  using assms by (auto simp: db_ok_def incident_open_def distinct_map dest: inj_onD)


text \<open>Rewriting one open incident in place.\<close>

definition rewrite :: "incident \<Rightarrow> incident \<Rightarrow> alert_db \<Rightarrow> alert_db" where
  "rewrite i i' db = db\<lparr>incidents := map (\<lambda>j. if j = i then i' else j) (incidents db)\<rparr>"

lemma update_is_rewrite:
  assumes "db_ok db" "incident_open db i"
  shows "update_incident_last_value (inc_id i) v k db =
           rewrite i (i\<lparr>last_value := v, consecutive_violations := k\<rparr>) db"
  using open_same_id [OF assms]
  by (auto simp: update_incident_last_value_def rewrite_def intro!: map_cong)

lemma resolve_is_rewrite:
  assumes "db_ok db" "incident_open db i"
  shows "resolve_incident now (inc_id i) db =
           (True, rewrite i (i\<lparr>inc_status := Resolved, resolved_at := Some now\<rparr>) db)"
proof -
  have "find_incident db (inc_id i) \<noteq> None"
    using assms(2) by (auto simp: find_incident_def find_None_iff incident_open_def)
  moreover have "\<And>j. j \<in> set (incidents db) \<Longrightarrow> (inc_id j = inc_id i \<and> inc_status j = Firing) = (j = i)"
    using open_same_id [OF assms] assms(2) by (auto simp: incident_open_def)
  ultimately show ?thesis
    by (auto simp: resolve_incident_def rewrite_def intro!: map_cong)
qed

lemma rewrite_ok:
  assumes ok: "db_ok db" and op: "incident_open db i"
    and same: "inc_id i' = inc_id i" "inc_rule_name i' = inc_rule_name i"
  shows "db_ok (rewrite i i' db)"
proof -
  let ?h = "\<lambda>j. if j = i then i' else j"
  have ids: "map inc_id (map ?h xs) = map inc_id xs" for xs
    using same by (induction xs) auto
  have names: "map inc_rule_name (filter (\<lambda>i. inc_status i = Firing) (map ?h xs)) =
      map inc_rule_name (filter (\<lambda>j. inc_status j = Firing \<and> (j \<noteq> i \<or> inc_status i' = Firing)) xs)" for xs
    using op same by (induction xs) (auto simp: incident_open_def)
  have "distinct (map f (filter P xs)) \<Longrightarrow> distinct (map f (filter (\<lambda>x. P x \<and> Q x) xs))"
    for f :: "incident \<Rightarrow> string" and P Q xs
    by (induction xs) (auto split: if_splits)
  then have "distinct (map inc_rule_name (filter (\<lambda>i. inc_status i = Firing) (incidents (rewrite i i' db))))"
    using ok names [of "incidents db"] by (auto simp: db_ok_def rewrite_def)
  moreover have "map inc_id (incidents (rewrite i i' db)) = map inc_id (incidents db)"
    using ids by (simp add: rewrite_def)
  ultimately show ?thesis using ok same op
    by (auto simp: db_ok_def rewrite_def incident_open_def simp del: map_map split: if_splits)
qed

lemma rewrite_violations:
  assumes ok: "db_ok db" and op: "incident_open db i"
    and same: "inc_id i' = inc_id i" "inc_rule_name i' = inc_rule_name i"
  shows "violations (rewrite i i' db) =
     (violations db)(inc_rule_name i :=
        (if inc_status i' = Firing then Some (consecutive_violations i') else None))"
proof
  fix n
  let ?db = "rewrite i i' db"
  have ok': "db_ok ?db" by (rule rewrite_ok [OF assms])
  have i: "i \<in> set (incidents db)" "inc_status i = Firing" using op by (auto simp: incident_open_def)
  have uniq: "j = i" if "j \<in> set (incidents db)" "inc_status j = Firing" "inc_rule_name j = inc_rule_name i" for j
    using ok i that by (auto simp: db_ok_def distinct_map dest: inj_onD)
  show "violations ?db n = ((violations db)(inc_rule_name i :=
        (if inc_status i' = Firing then Some (consecutive_violations i') else None))) n"
  proof (cases "n = inc_rule_name i")
    case True
    show ?thesis
    proof (cases "inc_status i' = Firing")
      case firing: True
      have "incident_open ?db i'" using i firing by (auto simp: incident_open_def rewrite_def)
      from violations_of_open [OF ok' this] show ?thesis using True firing same by simp
    next
      case False
      have "open_incidents ?db n = []"
        using uniq False True same
        by (auto simp: open_incidents_def rewrite_def filter_empty_conv split: if_splits)
      then show ?thesis using True False by (simp add: violations_def)
    qed
  next
    case False
    have "filter (\<lambda>j. inc_rule_name j = n \<and> inc_status j = Firing) (map (\<lambda>j. if j = i then i' else j) xs) =
        filter (\<lambda>j. inc_rule_name j = n \<and> inc_status j = Firing) xs" for xs
      using False same by (induction xs) auto
    then show ?thesis using False by (simp add: violations_def open_incidents_def rewrite_def)
  qed
qed

lemma rewrite_others:
  "incident_open db j \<Longrightarrow> j \<noteq> i \<Longrightarrow> incident_open (rewrite i i' db) j"
  by (force simp: incident_open_def rewrite_def)

lemma create_ok:
  "db_ok db \<Longrightarrow> violations db n = None \<Longrightarrow> db_ok (create_incident now rid n sv v t k slo db)"
  by (rule open_incidents_cases [of db n])
    (auto simp: db_ok_def create_incident_def less_Suc_eq)

lemma create_violations:
  assumes "db_ok db" "violations db n = None"
  shows "violations (create_incident now rid n sv v t k slo db) = (violations db)(n \<mapsto> k)"
proof
  fix m
  have "open_incidents db n = []"
    using assms by (auto elim!: open_incidents_cases [of db n])
  then show "violations (create_incident now rid n sv v t k slo db) m = ((violations db)(n \<mapsto> k)) m"
    by (auto simp: violations_def open_incidents_def create_incident_def split: list.splits)
qed


lemma fetch_incident:
  assumes "db_ok db"
  shows "\<exists>r. get_open_incident_by_rule_name db n = Inr r \<and>
           map_option consecutive_violations r = violations db n \<and>
           (\<forall>i. r = Some i \<longrightarrow> incident_open db i \<and> inc_rule_name i = n)"
  by (rule open_incidents_cases [OF assms, of n])
    (simp_all add: get_open_incident_by_rule_name_def scalar_one_or_none_def)

interpretation repo: incident_repository get_open_incident_by_rule_name open_new
    "\<lambda>i v k. update_incident_last_value (inc_id i) v k"
    "\<lambda>i db. snd (resolve_incident now (inc_id i) db)"
    inc_rule_name consecutive_violations incident_open violations db_ok
  for now
proof unfold_locales
  fix db :: alert_db and n :: string
  assume "db_ok db"
  then show "\<exists>r. get_open_incident_by_rule_name db n = Inr r \<and> map_option consecutive_violations r = violations db n"
    using fetch_incident by blast
next
  fix db :: alert_db and n i
  assume "db_ok db" "get_open_incident_by_rule_name db n = Inr (Some i)"
  then show "incident_open db i \<and> inc_rule_name i = n"
    using fetch_incident [of db n] by auto
qed (auto simp: incident_open_def [THEN iffD1, THEN conjunct2] open_new_def create_violations create_ok update_is_rewrite resolve_is_rewrite
      rewrite_violations rewrite_ok intro: rewrite_others split: prod.splits)


section \<open>One reconciliation\<close>

definition notify_due :: "int option \<Rightarrow> int \<Rightarrow> bool" where
  "notify_due old cycles = (case old of None \<Rightarrow> 1 \<ge> cycles | Some k \<Rightarrow> k + 1 = cycles)"

definition next_count :: "(string \<Rightarrow> int option) \<Rightarrow> string \<Rightarrow> int" where
  "next_count m n = (case m n of None \<Rightarrow> 1 | Some k \<Rightarrow> k + 1)"

definition rule_notes :: "(string \<Rightarrow> int option) \<Rightarrow> (string, alert_firing) dict \<Rightarrow> alert_rule \<Rightarrow> notification list" where
  "rule_notes old D r = (case dict_get D (rule_name r) of None \<Rightarrow> []
     | Some f \<Rightarrow> if notify_due (old (rule_name r)) (consecutive_cycles r) then [Fired f] else [])"

definition slo_notes :: "(string \<Rightarrow> int option) \<Rightarrow> alert_firing \<Rightarrow> notification list" where
  "slo_notes old f = (if old (fr_rule_name f) = None then [Fired f] else [])"

lemma rules_kept [simp]:
  "rules (create_incident now rid n sv v t k slo db) = rules db"
  "rules (update_incident_last_value i v k db) = rules db"
  "rules (snd (resolve_incident now i db)) = rules db"
  by (simp_all add: create_incident_def update_incident_last_value_def resolve_incident_def)

lemma process_rule_step:
  assumes "db_ok db"
  shows "\<exists>db'. process_rule now D r (db, notes) = Inr (db', notes @ rule_notes (violations db) D r) \<and>
     db_ok db' \<and> rules db' = rules db \<and>
     violations db' = (if dict_get D (rule_name r) = None then violations db
                       else (violations db)(rule_name r \<mapsto> next_count (violations db) (rule_name r)))"
proof (cases "dict_get D (rule_name r)")
  case None
  then show ?thesis using assms by (simp add: process_rule_def rule_notes_def)
next
  case (Some f)
  let ?n = "rule_name r"
  obtain i where i: "get_open_incident_by_rule_name db ?n = Inr i"
      "map_option consecutive_violations i = violations db ?n"
      "\<And>j. i = Some j \<Longrightarrow> incident_open db j \<and> inc_rule_name j = ?n"
    using fetch_incident [OF assms, of ?n] by blast
  show ?thesis
  proof (cases i)
    case None
    then have "violations db ?n = None" using i by simp
    then show ?thesis using Some i None assms
      by (auto simp: process_rule_def rule_notes_def notify_due_def next_count_def create_ok create_violations)
  next
    case inc: (Some j)
    then have "violations db ?n = Some (consecutive_violations j)" using i by simp
    then show ?thesis using Some i inc assms repo.set_counts [of db j] repo.set_inv [of db j]
      by (auto simp: process_rule_def rule_notes_def notify_due_def next_count_def Let_def)
  qed
qed

lemma process_slo_step:
  assumes "db_ok db"
  shows "\<exists>db'. process_slo now f (db, notes) = Inr (db', notes @ slo_notes (violations db) f) \<and>
     db_ok db' \<and> rules db' = rules db \<and>
     violations db' = (violations db)(fr_rule_name f \<mapsto> next_count (violations db) (fr_rule_name f))"
proof -
  let ?n = "fr_rule_name f"
  obtain i where i: "get_open_incident_by_rule_name db ?n = Inr i"
      "map_option consecutive_violations i = violations db ?n"
      "\<And>j. i = Some j \<Longrightarrow> incident_open db j \<and> inc_rule_name j = ?n"
    using fetch_incident [OF assms, of ?n] by blast
  show ?thesis
  proof (cases i)
    case None
    then have "violations db ?n = None" using i by simp
    then show ?thesis using i None assms
      by (auto simp: process_slo_def slo_notes_def next_count_def create_ok create_violations)
  next
    case inc: (Some j)
    then have "violations db ?n = Some (consecutive_violations j)" using i by simp
    then show ?thesis using i inc assms repo.set_counts [of db j] repo.set_inv [of db j]
      by (auto simp: process_slo_def slo_notes_def next_count_def Let_def)
  qed
qed

lemma next_count_cong: "m n = m' n \<Longrightarrow> next_count m n = next_count m' n"
  by (simp add: next_count_def)

text \<open>Steps 3a and 3b share one shape: every step touches its own name only.\<close>

lemma py_fold_counts:
  assumes step: "\<And>x db out. db_ok db \<Longrightarrow> \<exists>db'. f x (db, out) = Inr (db', out @ msg (violations db) x) \<and>
      db_ok db' \<and> rules db' = rules db \<and>
      violations db' = (if \<not> active x then violations db
                        else (violations db)(nm x \<mapsto> next_count (violations db) (nm x)))"
    and local_msg: "\<And>m m' x. m (nm x) = m' (nm x) \<Longrightarrow> msg m x = msg m' x"
    and "db_ok db" "distinct (map nm xs)"
  shows "\<exists>db'. py_fold f xs (db, out) = Inr (db', out @ concat (map (msg (violations db)) xs)) \<and>
     db_ok db' \<and> rules db' = rules db \<and>
     violations db' = (\<lambda>n. if n \<in> nm ` {x \<in> set xs. active x} then Some (next_count (violations db) n)
                          else violations db n)"
  using assms(3,4)
proof (induction xs arbitrary: db out)
  case Nil
  then show ?case by simp
next
  case (Cons x xs)
  obtain db1 where db1: "f x (db, out) = Inr (db1, out @ msg (violations db) x)" "db_ok db1"
      "rules db1 = rules db" "violations db1 = (if \<not> active x then violations db
                        else (violations db)(nm x \<mapsto> next_count (violations db) (nm x)))"
    using step Cons.prems by blast
  have away: "y \<in> set xs \<Longrightarrow> violations db1 (nm y) = violations db (nm y)" for y
  proof -
    assume "y \<in> set xs"
    moreover have "nm x \<notin> nm ` set xs" using Cons.prems by simp
    ultimately have "nm y \<noteq> nm x" by (metis imageI)
    then show ?thesis using db1(4) by auto
  qed
  have same_notes: "concat (map (msg (violations db1)) xs) = concat (map (msg (violations db)) xs)"
    using local_msg away by (metis map_cong)
  obtain db' where db': "py_fold f xs (db1, out @ msg (violations db) x) =
        Inr (db', (out @ msg (violations db) x) @ concat (map (msg (violations db1)) xs))"
      "db_ok db'" "rules db' = rules db1"
      "violations db' = (\<lambda>n. if n \<in> nm ` {x \<in> set xs. active x} then Some (next_count (violations db1) n)
                          else violations db1 n)"
    using Cons.IH [of db1 "out @ msg (violations db) x"] db1(2) Cons.prems by auto
  have "violations db' n = (if n \<in> nm ` {y \<in> set (x # xs). active y}
      then Some (next_count (violations db) n) else violations db n)" for n
  proof (cases "n \<in> nm ` {y \<in> set xs. active y}")
    case True
    then have "violations db1 n = violations db n" using away by auto
    then have "next_count (violations db1) n = next_count (violations db) n" by (rule next_count_cong)
    then show ?thesis using True db'(4) by auto
  next
    case False
    then show ?thesis using db1(4) db'(4) by auto
  qed
  then show ?case using db1 db' same_notes by (auto simp: fun_eq_iff)
qed


lemma dom_violations:
  assumes "db_ok db"
  shows "dom (violations db) = inc_rule_name ` {i. incident_open db i}"
proof
  show "dom (violations db) \<subseteq> inc_rule_name ` {i. incident_open db i}"
  proof
    fix n assume "n \<in> dom (violations db)"
    then show "n \<in> inc_rule_name ` {i. incident_open db i}"
      by (rule_tac open_incidents_cases [OF assms, of n]) (simp_all add: dom_def image_iff, blast)
  qed
  show "inc_rule_name ` {i. incident_open db i} \<subseteq> dom (violations db)"
    using violations_of_open [OF assms] by auto
qed

lemma finite_dom_violations: "db_ok db \<Longrightarrow> finite (dom (violations db))"
proof -
  have "{i. incident_open db i} \<subseteq> set (incidents db)" by (auto simp: incident_open_def)
  then show "db_ok db \<Longrightarrow> finite (dom (violations db))"
    using finite_subset by (simp add: dom_violations) blast
qed

lemma open_listing:
  assumes "db_ok db" "card (dom (violations db)) \<le> 50"
  defines "listing \<equiv> list_incidents db (Some Firing) 50 0"
  shows "set listing = {i. incident_open db i}" and "distinct (map inc_rule_name listing)"
proof -
  let ?open = "filter (\<lambda>i. inc_status i = Firing) (incidents db)"
  have set: "set ?open = {i. incident_open db i}" by (auto simp: incident_open_def)
  have "length ?open = card (set (map inc_rule_name ?open))"
    using assms(1) by (metis db_ok_def distinct_card length_map)
  also have "set (map inc_rule_name ?open) = dom (violations db)"
    using dom_violations [OF assms(1)] set by simp
  finally have "listing = sort_key (\<lambda>i. - fired_at i) ?open"
    using assms(2) by (simp add: listing_def list_incidents_def)
  then show "set listing = {i. incident_open db i}" and "distinct (map inc_rule_name listing)"
    using set assms(1) by (simp_all add: db_ok_def distinct_map)
qed

text \<open>Step 4: the table is the interface's, and every resolved incident is notified.\<close>

lemma process_open_closes:
  assumes "db_ok db" "\<forall>i\<in>set is. incident_open db i" "distinct (map inc_rule_name is)"
  shows "fold (process_open now names) is (db, notes) =
     (repo.close_stale now (set names) is db,
      notes @ map (\<lambda>i. Cleared (inc_rule_name i) (inc_severity i))
        (filter (\<lambda>i. inc_rule_name i \<notin> set names) is))"
  using assms
proof (induction "is" arbitrary: db "notes")
  case Nil
  then show ?case by (simp add: repo.close_stale_def)
next
  case (Cons i rest)
  have op: "incident_open db i" using Cons.prems by simp
  show ?case
  proof (cases "inc_rule_name i \<in> set names")
    case True
    then show ?thesis using Cons.IH [of db] Cons.prems
      by (simp add: process_open_def repo.close_stale_def)
  next
    case False
    let ?db = "snd (resolve_incident now (inc_id i) db)"
    have "\<forall>j\<in>set rest. incident_open ?db j"
    proof
      fix j assume j: "j \<in> set rest"
      have "inc_rule_name i \<notin> inc_rule_name ` set rest" using Cons.prems by simp
      then have "inc_rule_name j \<noteq> inc_rule_name i" using j by (metis imageI)
      then show "incident_open ?db j" using repo.close_open Cons.prems op j by auto
    qed
    moreover have "db_ok ?db" using repo.close_inv Cons.prems op by blast
    moreover have "process_open now names i (db, notes) = (?db, notes @ [Cleared (inc_rule_name i) (inc_severity i)])"
      using resolve_is_rewrite [OF Cons.prems(1) op] False by (simp add: process_open_def)
    moreover have "repo.close_stale now (set names) (i # rest) db = repo.close_stale now (set names) rest ?db"
      using False by (simp add: repo.close_stale_def)
    ultimately show ?thesis
      using Cons.IH [of ?db "notes @ [Cleared (inc_rule_name i) (inc_severity i)]"] Cons.prems False
      by simp
  qed
qed

lemma close_stale_rules: "rules (repo.close_stale now keep is db) = rules db"
  by (induction "is" arbitrary: db) (simp_all add: repo.close_stale_def)


lemma firing_dict_names: "dict_get (firing_dict fs) n \<noteq> None \<longleftrightarrow> n \<in> fr_rule_name ` set fs"
proof -
  have "dict_get (fold (\<lambda>f. dict_set (fr_rule_name f) f) fs d) n \<noteq> None \<longleftrightarrow>
      n \<in> fr_rule_name ` set fs \<or> dict_get d n \<noteq> None" for d
    by (induction fs arbitrary: d) (auto simp: dict_get_set)
  then show ?thesis by (simp add: firing_dict_def)
qed

lemma firing_dict_name: "dict_get (firing_dict fs) n = Some f \<Longrightarrow> fr_rule_name f = n"
proof -
  have "(\<forall>n f. dict_get d n = Some f \<longrightarrow> fr_rule_name f = n) \<Longrightarrow>
      dict_get (fold (\<lambda>f. dict_set (fr_rule_name f) f) fs d) n = Some f \<Longrightarrow> fr_rule_name f = n" for d
  proof (induction fs arbitrary: d)
    case (Cons g gs)
    have "\<forall>n f. dict_get (dict_set (fr_rule_name g) g d) n = Some f \<longrightarrow> fr_rule_name f = n"
    proof (intro allI impI)
      fix m h
      assume "dict_get (dict_set (fr_rule_name g) g d) m = Some h"
      then have "(m = fr_rule_name g \<and> h = g) \<or> dict_get d m = Some h"
        by (simp only: dict_get_set split: if_splits) auto
      then show "fr_rule_name h = m" using Cons.prems(1) by blast
    qed
    moreover have "dict_get (fold (\<lambda>f. dict_set (fr_rule_name f) f) gs (dict_set (fr_rule_name g) g d)) n = Some f"
      using Cons.prems(2) by simp
    ultimately show ?case by (rule Cons.IH)
  qed simp
  from this [of "[]"] show "dict_get (firing_dict fs) n = Some f \<Longrightarrow> fr_rule_name f = n"
    by (simp add: firing_dict_def)
qed

definition reconcile_notes ::
    "(string \<Rightarrow> int option) \<Rightarrow> alert_rule list \<Rightarrow> alert_firing list \<Rightarrow> alert_firing list \<Rightarrow> notification list" where
  "reconcile_notes old active rf sf =
     concat (map (rule_notes old (firing_dict rf)) active) @ concat (map (slo_notes old) sf)"

definition is_cleared :: "notification \<Rightarrow> bool" where
  "is_cleared x = (case x of Fired _ \<Rightarrow> False | Cleared _ _ \<Rightarrow> True)"

lemma fold_rules:
  assumes "db_ok db" "distinct (map rule_name active)"
  shows "\<exists>db'. py_fold (process_rule now D) active (db, out) =
        Inr (db', out @ concat (map (rule_notes (violations db) D) active)) \<and>
      db_ok db' \<and> rules db' = rules db \<and>
      violations db' = (\<lambda>n. if n \<in> rule_name ` {r \<in> set active. dict_get D (rule_name r) \<noteq> None}
                             then Some (next_count (violations db) n) else violations db n)"
proof (rule py_fold_counts [OF _ _ assms])
  fix r db out
  assume "db_ok db"
  from process_rule_step [OF this, of now D r out]
  show "\<exists>db'. process_rule now D r (db, out) = Inr (db', out @ rule_notes (violations db) D r) \<and>
      db_ok db' \<and> rules db' = rules db \<and>
      violations db' = (if \<not> dict_get D (rule_name r) \<noteq> None then violations db
                        else (violations db)(rule_name r \<mapsto> next_count (violations db) (rule_name r)))"
    unfolding not_not .
qed (auto simp: rule_notes_def split: option.split)

lemma fold_slos:
  assumes "db_ok db" "distinct (map fr_rule_name sf)"
  shows "\<exists>db'. py_fold (process_slo now) sf (db, out) =
        Inr (db', out @ concat (map (slo_notes (violations db)) sf)) \<and>
      db_ok db' \<and> rules db' = rules db \<and>
      violations db' = (\<lambda>n. if n \<in> fr_rule_name ` {f \<in> set sf. True}
                             then Some (next_count (violations db) n) else violations db n)"
proof (rule py_fold_counts [OF _ _ assms])
  fix f db out
  assume "db_ok db"
  from process_slo_step [OF this, of now f out]
  show "\<exists>db'. process_slo now f (db, out) = Inr (db', out @ slo_notes (violations db) f) \<and>
      db_ok db' \<and> rules db' = rules db \<and>
      violations db' = (if \<not> True then violations db
                        else (violations db)(fr_rule_name f \<mapsto> next_count (violations db) (fr_rule_name f)))"
    unfolding not_True_eq_False if_False .
qed (simp add: slo_notes_def)

lemma image_restrict: "A \<subseteq> f ` S \<Longrightarrow> f ` {x \<in> S. f x \<in> A} = A"
  by (auto simp: subset_iff image_iff)

lemma reconcile_spec:
  fixes db rf sf
  defines "fired \<equiv> fr_rule_name ` set (rf @ sf)"
  assumes ok: "db_ok db" and dist: "distinct (map rule_name active)" "distinct (map fr_rule_name sf)"
    and sub: "fr_rule_name ` set rf \<subseteq> rule_name ` set active"
    and disj: "rule_name ` set active \<inter> fr_rule_name ` set sf = {}"
    and few: "card (dom (violations db) \<union> fired) \<le> 50"
  shows "\<exists>db' cleared. reconcile now active rf sf db =
        Inr (db', reconcile_notes (violations db) active rf sf @ cleared) \<and>
      list_all is_cleared cleared \<and> db_ok db' \<and> rules db' = rules db \<and>
      violations db' = (\<lambda>n. if n \<in> fired then Some (next_count (violations db) n) else None)"
proof -
  let ?D = "firing_dict rf" and ?v = "violations db"
  obtain db1 where db1: "py_fold (process_rule now ?D) active (db, []) =
        Inr (db1, concat (map (rule_notes ?v ?D) active))"
      "db_ok db1" "rules db1 = rules db"
      "violations db1 = (\<lambda>n. if n \<in> rule_name ` {r \<in> set active. dict_get ?D (rule_name r) \<noteq> None}
                             then Some (next_count ?v n) else ?v n)"
    using fold_rules [OF ok dist(1), of now ?D "[]"] unfolding append_Nil by blast
  have "rule_name ` {r \<in> set active. dict_get ?D (rule_name r) \<noteq> None} = fr_rule_name ` set rf"
    unfolding firing_dict_names by (rule image_restrict [OF sub])
  with db1(4) have v1: "violations db1 = (\<lambda>n. if n \<in> fr_rule_name ` set rf then Some (next_count ?v n) else ?v n)"
    by simp
  obtain db2 where db2: "py_fold (process_slo now) sf (db1, concat (map (rule_notes ?v ?D) active)) =
        Inr (db2, concat (map (rule_notes ?v ?D) active) @ concat (map (slo_notes (violations db1)) sf))"
      "db_ok db2" "rules db2 = rules db1"
      "violations db2 = (\<lambda>n. if n \<in> fr_rule_name ` set sf then Some (next_count (violations db1) n) else violations db1 n)"
    using fold_slos [OF db1(2) dist(2)] unfolding simp_thms Collect_mem_eq by blast
  have apart: "n \<in> fr_rule_name ` set sf \<Longrightarrow> violations db1 n = ?v n" for n
  proof -
    assume "n \<in> fr_rule_name ` set sf"
    then have "n \<notin> fr_rule_name ` set rf" using disj sub by blast
    then show ?thesis by (simp add: v1)
  qed
  have notes2: "map (slo_notes (violations db1)) sf = map (slo_notes ?v) sf"
    using apart by (auto simp: slo_notes_def)
  have v2: "violations db2 n = (if n \<in> fired then Some (next_count ?v n) else ?v n)" for n
  proof (cases "n \<in> fr_rule_name ` set sf")
    case True
    have "next_count (violations db1) n = next_count ?v n"
      using apart [OF True] by (rule next_count_cong)
    then show ?thesis using True db2(4) by (simp add: fired_def image_Un)
  next
    case False
    then show ?thesis by (simp add: db2(4) v1 fired_def image_Un)
  qed
  then have "dom (violations db2) \<subseteq> dom ?v \<union> fired" by (auto split: if_splits)
  moreover have "finite (dom ?v \<union> fired)"
    using finite_dom_violations [OF ok] by (simp add: fired_def)
  ultimately have few2: "card (dom (violations db2)) \<le> 50" using few card_mono le_trans by metis
  let ?l = "list_incidents db2 (Some Firing) 50 0"
  note l = open_listing [OF db2(2) few2]
  have names: "set (map fr_rule_name (rf @ sf)) = fired" by (simp add: fired_def image_Un)
  let ?db' = "repo.close_stale now fired ?l db2"
  have "db_ok ?db'" and v': "violations ?db' =
      (\<lambda>n. if n \<in> inc_rule_name ` set ?l \<and> n \<notin> fired then None else violations db2 n)"
    using repo.close_stale_counts [OF db2(2) _ l(2)] l(1) by auto
  moreover have "inc_rule_name ` set ?l = dom (violations db2)"
    using dom_violations [OF db2(2)] l(1) by simp
  then have "violations ?db' = (\<lambda>n. if n \<in> fired then Some (next_count ?v n) else None)"
    using v' v2 by (auto simp: fun_eq_iff)
  moreover have "reconcile now active rf sf db = Inr (?db', reconcile_notes ?v active rf sf @
      map (\<lambda>i. Cleared (inc_rule_name i) (inc_severity i)) (filter (\<lambda>i. inc_rule_name i \<notin> fired) ?l))"
    using db1(1) db2(1) process_open_closes [OF db2(2) _ l(2), of now "map fr_rule_name (rf @ sf)"] l(1) notes2
    unfolding names by (simp add: reconcile_def reconcile_notes_def Let_def)
  ultimately show ?thesis using db1(3) db2(3) close_stale_rules
    by (auto simp: is_cleared_def list_all_iff)
qed


section \<open>One evaluation cycle\<close>

lemma upsert_keeps:
  assumes "db_ok db"
  shows "db_ok (upsert_alert_rule rd e db)" "violations (upsert_alert_rule rd e db) = violations db"
proof -
  obtain n m t cmp w sv cyc where rd: "rd = (n, m, t, cmp, w, sv, cyc)" by (cases rd)
  have names: "map rule_name (map (\<lambda>r. if rule_name r = n then r\<lparr>rule_metric := m, rule_threshold := t,
      comparison := cmp, rule_window := w, rule_severity := sv, consecutive_cycles := cyc, is_enabled := e\<rparr>
      else r) rs) = map rule_name rs" for rs
    by (induction rs) auto
  show "db_ok (upsert_alert_rule rd e db)"
    using assms unfolding db_ok_def upsert_alert_rule_def rd prod.case
    by (auto simp: list_ex_iff names simp del: map_map intro: less_SucI)
  show "violations (upsert_alert_rule rd e db) = violations db"
    by (rule ext) (simp add: violations_def open_incidents_def upsert_alert_rule_def rd)
qed

lemma seed_keeps:
  assumes "db_ok db"
  shows "db_ok (seed_rules db)" "violations (seed_rules db) = violations db"
proof -
  have "db_ok db \<Longrightarrow> db_ok (fold (\<lambda>rd. upsert_alert_rule rd True) rds db) \<and>
      violations (fold (\<lambda>rd. upsert_alert_rule rd True) rds db) = violations db" for rds db
    by (induction rds arbitrary: db) (simp_all add: upsert_keeps)
  then show "db_ok (seed_rules db)" "violations (seed_rules db) = violations db"
    using assms by (simp_all add: seed_rules_def)
qed

lemma seed_idem: "rules db \<noteq> [] \<Longrightarrow> seed_rules db = db"
  by (simp add: seed_rules_def)

lemma seed_nonempty: "rules (seed_rules db) \<noteq> []"
proof -
  have mono: "rules db \<noteq> [] \<Longrightarrow> rules (upsert_alert_rule rd e db) \<noteq> []" for rd e db
    by (auto simp: upsert_alert_rule_def split: prod.splits)
  have "rules db \<noteq> [] \<Longrightarrow> rules (fold (\<lambda>rd. upsert_alert_rule rd True) rds db) \<noteq> []" for rds db
    by (induction rds arbitrary: db) (simp_all add: mono)
  moreover have "rules (upsert_alert_rule rd e db) \<noteq> []" for rd e db
    by (auto simp: upsert_alert_rule_def split: prod.splits)
  ultimately show ?thesis by (auto simp: seed_rules_def DEFAULT_ALERT_RULES_def)
qed

lemma active_distinct: "db_ok db \<Longrightarrow> distinct (map rule_name (active_rules db))"
proof -
  have "distinct (map f xs) \<Longrightarrow> distinct (map f (filter P xs))" for f :: "alert_rule \<Rightarrow> string" and P xs
    by (induction xs) auto
  then show "db_ok db \<Longrightarrow> distinct (map rule_name (active_rules db))"
    by (simp add: active_rules_def list_alert_rules_def db_ok_def distinct_map)
qed

lemma evaluate_rules_names:
  "fr_rule_name ` set (evaluate_rules pool rows rs) \<subseteq> rule_name ` set rs"
proof -
  have one: "f \<in> set (evaluate_rule pool snap r) \<Longrightarrow> fr_rule_name f = rule_name r" for f snap r
    by (auto simp: evaluate_rule_def Let_def split: if_splits)
  have "f \<in> set (evaluate_rules pool rows rs) \<Longrightarrow> \<exists>r\<in>set rs. \<exists>snap. f \<in> set (evaluate_rule pool snap r)" for f
    by (force simp: evaluate_rules_def Let_def split: sum.splits)
  then show ?thesis using one by (metis image_subsetI rev_image_eqI)
qed

lemma evaluate_slos_names:
  "subseq (map fr_rule_name (fst (evaluate_slos series slos))) (map slo_name slos)"
proof (induction slos)
  case (Cons slo slos)
  have split: "fst (evaluate_slos series (slo # slos)) =
      slo_firing slo (slo_result series slo) @ fst (evaluate_slos series slos)"
    by (simp add: evaluate_slos_def)
  have "map fr_rule_name (slo_firing slo r) = [] \<or> map fr_rule_name (slo_firing slo r) = [slo_name slo]" for r
    by (auto simp: slo_firing_def split: option.split)
  from this [of "slo_result series slo"] show ?case
  proof
    assume "map fr_rule_name (slo_firing slo (slo_result series slo)) = []"
    then show ?case using Cons by (simp add: split list_emb_Cons)
  next
    assume "map fr_rule_name (slo_firing slo (slo_result series slo)) = [slo_name slo]"
    then show ?case using Cons by (simp add: split)
  qed
qed (simp add: evaluate_slos_def)


definition rule_firings :: "cycle \<Rightarrow> alert_db \<Rightarrow> alert_firing list" where
  "rule_firings c db = evaluate_rules (worker_pool_size c) (cycle_rows c) (active_rules db)"

definition fired_names :: "slo_definition list \<Rightarrow> cycle \<Rightarrow> alert_db \<Rightarrow> string set" where
  "fired_names slos c db =
     fr_rule_name ` set (rule_firings c db @ fst (evaluate_slos (cycle_series c) slos))"

text \<open>Names of rules and objectives do not clash.\<close>

definition names_ok :: "slo_definition list \<Rightarrow> alert_db \<Rightarrow> bool" where
  "names_ok slos db \<longleftrightarrow> distinct (map slo_name slos) \<and>
     rule_name ` set (rules db) \<inter> slo_name ` set slos = {}"

lemma active_rules_set: "set (active_rules db) = {r \<in> set (rules db). is_enabled r}"
  by (auto simp: active_rules_def list_alert_rules_def)

lemma slo_firing_names: "fr_rule_name ` set (fst (evaluate_slos series slos)) \<subseteq> slo_name ` set slos"
proof -
  have "set (map fr_rule_name (fst (evaluate_slos series slos))) \<subseteq> set (map slo_name slos)"
    using list_emb_set [OF evaluate_slos_names] by (metis subsetI)
  then show ?thesis by simp
qed

lemma fired_subset: "fired_names slos c db \<subseteq> rule_name ` set (rules db) \<union> slo_name ` set slos"
proof -
  have "fr_rule_name ` set (rule_firings c db) \<subseteq> rule_name ` set (rules db)"
    using evaluate_rules_names unfolding rule_firings_def by (force simp: active_rules_set)
  then show ?thesis using slo_firing_names [of "cycle_series c" slos]
    unfolding fired_names_def set_append image_Un by blast
qed

lemma cycle_spec:
  fixes db slos c
  defines "db1 \<equiv> seed_rules db"
  assumes ok: "db_ok db" and names: "names_ok slos db1" and on: "alerting_enabled c" "have_session c"
    and few: "card (dom (violations db) \<union> fired_names slos c db1) \<le> 50"
  shows "\<exists>db' cleared. run_alert_evaluation slos c db =
      Inr (db', reconcile_notes (violations db) (active_rules db1) (rule_firings c db1)
                  (fst (evaluate_slos (cycle_series c) slos)) @ cleared) \<and>
      list_all is_cleared cleared \<and> db_ok db' \<and> rules db' = rules db1 \<and>
      violations db' = (\<lambda>n. if n \<in> fired_names slos c db1 then Some (next_count (violations db) n) else None)"
proof -
  let ?sf = "fst (evaluate_slos (cycle_series c) slos)"
  have ok1: "db_ok db1" and v1: "violations db1 = violations db"
    using seed_keeps [OF ok] by (simp_all add: db1_def)
  have d: "distinct (map fr_rule_name ?sf)"
    using subseqs_distinctD [of "map fr_rule_name ?sf" "map slo_name slos"] evaluate_slos_names names
    unfolding names_ok_def by simp
  have "rule_name ` set (active_rules db1) \<subseteq> rule_name ` set (rules db1)"
    by (auto simp: active_rules_set)
  then have disj: "rule_name ` set (active_rules db1) \<inter> fr_rule_name ` set ?sf = {}"
    using names slo_firing_names [of "cycle_series c" slos] unfolding names_ok_def by blast
  have "run_alert_evaluation slos c db = reconcile (cycle_now c) (active_rules db1) (rule_firings c db1) ?sf db1"
    using on by (simp add: run_alert_evaluation_def db1_def rule_firings_def Let_def)
  moreover note reconcile_spec [OF ok1 active_distinct [OF ok1] d evaluate_rules_names [of "worker_pool_size c" "cycle_rows c"]
      disj, folded rule_firings_def, folded fired_names_def, unfolded v1, OF few]
  ultimately show ?thesis by simp
qed


section \<open>Sequences of cycles\<close>

fun run_cycles :: "slo_definition list \<Rightarrow> cycle list \<Rightarrow> alert_db \<Rightarrow> job_state py" where
  "run_cycles slos [] db = Inr (db, [])"
| "run_cycles slos (c # cs) db =
     py_bind (run_alert_evaluation slos c db) (\<lambda>(db1, notes).
     py_bind (run_cycles slos cs db1) (\<lambda>(db2, more). Inr (db2, notes @ more)))"

definition fired_count :: "string \<Rightarrow> notification list \<Rightarrow> nat" where
  "fired_count n xs = length (filter (\<lambda>x. case x of Fired f \<Rightarrow> fr_rule_name f = n | Cleared _ _ \<Rightarrow> False) xs)"

lemma fired_count_simps [simp]:
  "fired_count n [] = 0"
  "fired_count n (xs @ ys) = fired_count n xs + fired_count n ys"
  by (simp_all add: fired_count_def)

lemma fired_count_cleared: "list_all is_cleared xs \<Longrightarrow> fired_count n xs = 0"
  by (auto simp: fired_count_def list_all_iff is_cleared_def filter_empty_conv split: notification.splits)

lemma fired_count_rule_notes:
  "fired_count n (rule_notes old (firing_dict rf) r) =
     (if n = rule_name r \<and> n \<in> fr_rule_name ` set rf \<and> notify_due (old n) (consecutive_cycles r) then 1 else 0)"
proof (cases "dict_get (firing_dict rf) (rule_name r)")
  case None
  then have "rule_name r \<notin> fr_rule_name ` set rf" using firing_dict_names by blast
  then show ?thesis using None by (cases "n = rule_name r") (simp_all add: rule_notes_def)
next
  case (Some f)
  then have "rule_name r \<in> fr_rule_name ` set rf" using firing_dict_names by blast
  then show ?thesis using Some firing_dict_name [OF Some]
    by (auto simp: rule_notes_def fired_count_def)
qed

lemma fired_count_rules:
  assumes "distinct (map rule_name rs)" "r \<in> set rs"
  shows "fired_count (rule_name r) (concat (map (rule_notes old (firing_dict rf)) rs)) =
     (if rule_name r \<in> fr_rule_name ` set rf \<and> notify_due (old (rule_name r)) (consecutive_cycles r)
      then 1 else 0)"
proof -
  have away: "n \<notin> rule_name ` set xs \<Longrightarrow> fired_count n (concat (map (rule_notes old (firing_dict rf)) xs)) = 0"
    for n and xs :: "alert_rule list"
    by (induction xs) (auto simp: fired_count_rule_notes)
  show ?thesis using assms
  proof (induction rs)
    case (Cons x xs)
    show ?case
    proof (cases "r = x")
      case True
      then have "rule_name r \<notin> rule_name ` set xs" using Cons.prems by simp
      then show ?thesis using True away by (simp add: fired_count_rule_notes)
    next
      case False
      then have "r \<in> set xs" using Cons.prems by simp
      then have "rule_name r \<noteq> rule_name x" using Cons.prems(1) by (metis distinct.simps(2) image_eqI list.set_map list.simps(9))
      then show ?thesis using Cons \<open>r \<in> set xs\<close> by (simp add: fired_count_rule_notes)
    qed
  qed simp
qed

lemma fired_count_slos:
  "n \<notin> fr_rule_name ` set sf \<Longrightarrow> fired_count n (concat (map (slo_notes old) sf)) = 0"
  by (induction sf) (auto simp: slo_notes_def fired_count_def)

text \<open>One cycle over a seeded table, as the induction over cycles needs it.\<close>

definition alert_world :: "slo_definition list \<Rightarrow> alert_db \<Rightarrow> bool" where
  "alert_world slos db \<longleftrightarrow> db_ok db \<and> names_ok slos db \<and> rules db \<noteq> [] \<and>
     length (rules db) + length slos \<le> 50 \<and>
     dom (violations db) \<subseteq> rule_name ` set (rules db) \<union> slo_name ` set slos"

lemma world_few:
  assumes "alert_world slos db"
  shows "card (dom (violations db) \<union> fired_names slos c db) \<le> 50"
proof -
  let ?all = "rule_name ` set (rules db) \<union> slo_name ` set slos"
  have "dom (violations db) \<union> fired_names slos c db \<subseteq> ?all"
    using assms fired_subset unfolding alert_world_def by blast
  then have "card (dom (violations db) \<union> fired_names slos c db) \<le> card ?all"
    by (intro card_mono) simp
  also have "\<dots> \<le> card (rule_name ` set (rules db)) + card (slo_name ` set slos)" by (rule card_Un_le)
  also have "\<dots> \<le> length (rules db) + length slos"
    using card_image_le [of "set (rules db)" rule_name] card_image_le [of "set slos" slo_name]
      card_length [of "rules db"] card_length [of slos] by simp
  finally show ?thesis using assms by (simp add: alert_world_def)
qed

lemma world_cycle:
  assumes w: "alert_world slos db" and on: "alerting_enabled c" "have_session c" and r: "r \<in> set (active_rules db)"
  shows "\<exists>db' notes. run_alert_evaluation slos c db = Inr (db', notes) \<and> alert_world slos db' \<and>
     rules db' = rules db \<and>
     violations db' = (\<lambda>n. if n \<in> fired_names slos c db then Some (next_count (violations db) n) else None) \<and>
     fired_count (rule_name r) notes =
       (if rule_name r \<in> fired_names slos c db \<and>
           notify_due (violations db (rule_name r)) (consecutive_cycles r) then 1 else 0)"
proof -
  let ?sf = "fst (evaluate_slos (cycle_series c) slos)"
  have ok: "db_ok db" and names: "names_ok slos db" and seed: "seed_rules db = db"
    using w seed_idem by (auto simp: alert_world_def)
  obtain db' cleared where run: "run_alert_evaluation slos c db =
      Inr (db', reconcile_notes (violations db) (active_rules db) (rule_firings c db) ?sf @ cleared)"
    "list_all is_cleared cleared" "db_ok db'" "rules db' = rules db"
    "violations db' = (\<lambda>n. if n \<in> fired_names slos c db then Some (next_count (violations db) n) else None)"
    using cycle_spec [of db slos c, unfolded seed, OF ok names on world_few [OF w]] by blast
  have "dom (violations db') \<subseteq> fired_names slos c db" using run(5) by (auto split: if_splits)
  then have "alert_world slos db'"
    using w run fired_subset [of slos c db] unfolding alert_world_def names_ok_def by auto
  moreover have "rule_name r \<in> rule_name ` set (rules db)" using r by (simp add: active_rules_set)
  then have apart: "rule_name r \<notin> fr_rule_name ` set ?sf"
    using slo_firing_names [of "cycle_series c" slos] names unfolding names_ok_def by blast
  then have "rule_name r \<in> fired_names slos c db \<longleftrightarrow> rule_name r \<in> fr_rule_name ` set (rule_firings c db)"
    unfolding fired_names_def set_append image_Un by blast
  then have "fired_count (rule_name r) (reconcile_notes (violations db) (active_rules db) (rule_firings c db) ?sf @ cleared) =
       (if rule_name r \<in> fired_names slos c db \<and>
           notify_due (violations db (rule_name r)) (consecutive_cycles r) then 1 else 0)"
    using fired_count_rules [OF active_distinct [OF ok] r] fired_count_slos [OF apart] fired_count_cleared [OF run(2)]
    by (simp add: reconcile_notes_def)
  ultimately show ?thesis using run by blast
qed


lemma streak_notifications:
  assumes "alert_world slos db" "r \<in> set (active_rules db)"
    and "violations db (rule_name r) = (if j = 0 then None else Some (int j))"
    and "\<forall>c\<in>set cs. alerting_enabled c \<and> have_session c \<and> rule_name r \<in> fired_names slos c db"
  shows "\<exists>db' notes. run_cycles slos cs db = Inr (db', notes) \<and>
     fired_count (rule_name r) notes =
       (if int j < max 1 (consecutive_cycles r) \<and> max 1 (consecutive_cycles r) \<le> int (j + length cs) then 1 else 0)"
  using assms
proof (induction cs arbitrary: db j)
  case Nil
  then show ?case by auto
next
  case (Cons c cs)
  have on: "alerting_enabled c" "have_session c" and fires: "rule_name r \<in> fired_names slos c db"
    using Cons.prems(4) by auto
  obtain db1 "notes" where one: "run_alert_evaluation slos c db = Inr (db1, notes)" "alert_world slos db1"
      "rules db1 = rules db"
      "violations db1 = (\<lambda>n. if n \<in> fired_names slos c db then Some (next_count (violations db) n) else None)"
      "fired_count (rule_name r) notes =
       (if rule_name r \<in> fired_names slos c db \<and>
           notify_due (violations db (rule_name r)) (consecutive_cycles r) then 1 else 0)"
    using world_cycle [OF Cons.prems(1) on Cons.prems(2)] by blast
  have same: "active_rules db1 = active_rules db" "fired_names slos x db1 = fired_names slos x db" for x
    using one(3) by (simp_all add: active_rules_def list_alert_rules_def fired_names_def rule_firings_def)
  have v: "violations db1 (rule_name r) = (if Suc j = 0 then None else Some (int (Suc j)))"
    using one(4) fires Cons.prems(3) by (simp add: next_count_def)
  have "r \<in> set (active_rules db1)"
    and "\<forall>x\<in>set cs. alerting_enabled x \<and> have_session x \<and> rule_name r \<in> fired_names slos x db1"
    unfolding same using Cons.prems(2,4) by simp_all
  from Cons.IH [OF one(2) this(1) v this(2)] obtain db2 more where rest: "run_cycles slos cs db1 = Inr (db2, more)"
      "fired_count (rule_name r) more = (if int (Suc j) < max 1 (consecutive_cycles r) \<and>
          max 1 (consecutive_cycles r) \<le> int (Suc j + length cs) then 1 else 0)"
    by blast
  have "notify_due (violations db (rule_name r)) (consecutive_cycles r) \<longleftrightarrow>
      int (Suc j) = max 1 (consecutive_cycles r)"
    using Cons.prems(3) by (auto simp: notify_due_def)
  then have "fired_count (rule_name r) (notes @ more) =
      (if int j < max 1 (consecutive_cycles r) \<and>
          max 1 (consecutive_cycles r) \<le> int (j + length (c # cs)) then 1 else 0)"
    using one(5) rest(2) fires by auto
  then show ?case using one(1) rest(1) by auto
qed

section \<open>Properties\<close>


definition sample_rows :: "nat \<Rightarrow> window_rows" where
  "sample_rows m = \<lparr>w_metrics = Inr (Some (Some 12000, Some 0, None)), w_queue_wait = Inr None,
     w_telemetry = Inl (Other_Error ''timeout'')\<rparr>"

definition sample_cycle :: cycle where
  "sample_cycle = \<lparr>alerting_enabled = True, have_session = True, worker_pool_size = 2, cycle_now = 0,
     cycle_rows = sample_rows, cycle_series = (\<lambda>_ _. Inr [])\<rparr>"

definition sample_rule :: alert_rule where
  "sample_rule = \<lparr>rule_id = 0, rule_name = ''slow'', rule_metric = ''investigation.p95_latency_ms'',
     rule_threshold = 10000, comparison = ''gt'', rule_window = ''15m'', rule_severity = Warning,
     consecutive_cycles = 2, is_enabled = True\<rparr>"

definition sample_db :: alert_db where
  "sample_db = \<lparr>rules = [sample_rule], incidents = [], next_id = 1\<rparr>"

lemmas sample_defs = sample_db_def sample_rule_def sample_cycle_def sample_rows_def

lemma sample_world: "alert_world [] sample_db" "violations sample_db = (\<lambda>_. None)"
  by (auto simp: alert_world_def db_ok_def names_ok_def violations_def open_incidents_def sample_db_def)

lemma sample_active: "active_rules sample_db = [sample_rule]"
  by (simp add: active_rules_def list_alert_rules_def sample_defs)

lemma sample_fires: "fired_names [] sample_cycle sample_db = {''slow''}"
proof -
  have "rule_firings sample_cycle sample_db = [\<lparr>fr_rule_name = ''slow'',
      fr_metric = ''investigation.p95_latency_ms'', current_value = 12000, fr_threshold = 10000,
      fr_comparison = ''gt'', fr_severity = Warning, fr_slo_name = None\<rparr>]"
    unfolding rule_firings_def sample_active unfolding sample_defs by code_simp
  then show ?thesis by (simp add: fired_names_def evaluate_slos_def)
qed





definition bad_events :: "slo_definition \<Rightarrow> flt list \<Rightarrow> nat" where
  "bad_events slo xs = length (filter (bad_event slo) xs)"

definition allowed_error_rate :: "slo_definition \<Rightarrow> flt" where
  "allowed_error_rate slo = fround 6 (fsub 1 (target slo))"

definition budget_use :: "slo_definition \<Rightarrow> flt list \<Rightarrow> flt" where
  "budget_use slo xs = fdiv (fdiv (of_nat (bad_events slo xs)) (of_nat (length xs))) (allowed_error_rate slo)"

lemma burn_rate_fields:
  fixes slo
  assumes "xs \<noteq> []"
  defines "res \<equiv> evaluate_slo_burn_rate slo xs"
  shows "current_burn_rate res = (if allowed_error_rate slo \<le> 0 then 0 else fround 4 (budget_use slo xs))"
    and "budget_remaining_pct res = fround 2 (if allowed_error_rate slo \<le> 0 then 100
           else max 0 (fmul (fsub 1 (budget_use slo xs)) 100))"
    and "br_severity res = (if error_budget_burn_alert_threshold slo \<le> current_burn_rate res
           then Some (if fl64 (144/10) \<le> current_burn_rate res then Critical else Warning) else None)"
    and "\<not> insufficient_data res"
  using assms(1)
  by (simp_all add: res_def evaluate_slo_burn_rate_def Let_def bad_events_def allowed_error_rate_def budget_use_def)

lemma fl64_bounds: "0 \<le> x \<Longrightarrow> 0 \<le> fl64 x" "1 \<le> x \<Longrightarrow> 1 \<le> fl64 x"
  using fl64_mono [of 0 x] fl64_mono [of 1 x] by simp_all

lemma budget_use_bounds:
  assumes "0 < allowed_error_rate slo"
  shows "0 \<le> budget_use slo xs"
    and "bad_events slo xs = 0 \<Longrightarrow> budget_use slo xs = 0"
    and "0 \<le> target slo \<Longrightarrow> xs \<noteq> [] \<Longrightarrow> bad_events slo xs = length xs \<Longrightarrow> 1 \<le> budget_use slo xs"
    and "length ys = length xs \<Longrightarrow> bad_events slo xs \<le> bad_events slo ys \<Longrightarrow> budget_use slo xs \<le> budget_use slo ys"
proof -
  show "0 \<le> budget_use slo xs"
    using assms by (simp add: budget_use_def fdiv_def fl64_bounds)
  show "bad_events slo xs = 0 \<Longrightarrow> budget_use slo xs = 0"
    by (simp add: budget_use_def fdiv_def)
  assume sizes: "length ys = length xs" and le: "bad_events slo xs \<le> bad_events slo ys"
  show "budget_use slo xs \<le> budget_use slo ys"
    unfolding budget_use_def fdiv_def sizes using assms le
    by (intro fl64_mono divide_right_mono) simp_all
next
  assume t: "0 \<le> target slo" and xs: "xs \<noteq> []" "bad_events slo xs = length xs"
  have "allowed_error_rate slo \<le> fround 6 1"
    unfolding allowed_error_rate_def fsub_def
    using fl64_mono [of "1 - target slo" 1] t by (intro fround_mono) simp
  then have "allowed_error_rate slo \<le> 1" using fround_int [of 1 6] by simp
  then show "1 \<le> budget_use slo xs"
    using xs assms by (auto simp: budget_use_def fdiv_def intro!: fl64_bounds)
qed


lemma remaining_range:
  assumes "xs \<noteq> []"
  shows "0 \<le> budget_remaining_pct (evaluate_slo_burn_rate slo xs)"
    and "budget_remaining_pct (evaluate_slo_burn_rate slo xs) \<le> 100"
proof -
  let ?a = "allowed_error_rate slo" and ?u = "budget_use slo xs"
  have "fsub 1 ?u \<le> 1" if "0 < ?a"
    using budget_use_bounds(1) [OF that] b64.rnd_sub_le [of 1 ?u] by (simp add: fsub_def)
  then have "0 < ?a \<Longrightarrow> fmul (fsub 1 ?u) 100 \<le> 100"
    using fl64_mono [of "fsub 1 ?u * 100" 100] by (simp add: fmul_def fl64_numeral)
  then have "fround 2 (if ?a \<le> 0 then 100 else max 0 (fmul (fsub 1 ?u) 100)) \<le> fround 2 100"
    and "fround 2 0 \<le> fround 2 (if ?a \<le> 0 then 100 else max 0 (fmul (fsub 1 ?u) 100))"
    by (intro fround_mono; auto)+
  then show "0 \<le> budget_remaining_pct (evaluate_slo_burn_rate slo xs)"
    and "budget_remaining_pct (evaluate_slo_burn_rate slo xs) \<le> 100"
    using fround_int [of 100 2] by (simp_all add: burn_rate_fields(2) [OF assms])
qed

lemma burn_nonneg: "xs \<noteq> [] \<Longrightarrow> 0 \<le> current_burn_rate (evaluate_slo_burn_rate slo xs)"
  using fround_mono [of 0 "budget_use slo xs" 4] budget_use_bounds(1) [of slo xs]
  by (auto simp: burn_rate_fields(1))

lemma clean_series:
  assumes "xs \<noteq> []" "bad_events slo xs = 0"
  shows "current_burn_rate (evaluate_slo_burn_rate slo xs) = 0"
    and "budget_remaining_pct (evaluate_slo_burn_rate slo xs) = 100"
proof -
  have "budget_use slo xs = 0" using assms(2) by (simp add: budget_use_def fdiv_def)
  moreover have "fmul (fsub 1 0) 100 = 100" by (simp add: fmul_def fsub_def fl64_numeral)
  moreover have "fround 2 100 = 100" using fround_int [of 100 2] by simp
  ultimately show "current_burn_rate (evaluate_slo_burn_rate slo xs) = 0"
    and "budget_remaining_pct (evaluate_slo_burn_rate slo xs) = 100"
    by (simp_all add: burn_rate_fields(1,2) [OF assms(1)])
qed

lemma exhausted_budget:
  assumes "xs \<noteq> []" "0 \<le> target slo" "bad_events slo xs = length xs" "0 < allowed_error_rate slo"
  shows "budget_remaining_pct (evaluate_slo_burn_rate slo xs) = 0"
proof -
  let ?u = "budget_use slo xs"
  have "1 \<le> ?u" using budget_use_bounds(3) [OF assms(4,2,1,3)] .
  then have "fsub 1 ?u \<le> 0" using fl64_mono [of "1 - ?u" 0] by (simp add: fsub_def)
  then have "fmul (fsub 1 ?u) 100 \<le> 0" using fl64_mono [of "fsub 1 ?u * 100" 0] by (simp add: fmul_def)
  then show ?thesis using assms(4) by (simp add: burn_rate_fields(2) [OF assms(1)] max_absorb1)
qed

lemma burn_mono:
  assumes "xs \<noteq> []" "length ys = length xs" "bad_events slo xs \<le> bad_events slo ys"
  shows "current_burn_rate (evaluate_slo_burn_rate slo xs) \<le> current_burn_rate (evaluate_slo_burn_rate slo ys)"
proof -
  have "ys \<noteq> []" using assms by auto
  then show ?thesis using assms budget_use_bounds(4) [of slo ys xs]
    by (auto simp: burn_rate_fields(1) intro: fround_mono)
qed

lemma slo_fires_iff:
  assumes "xs \<noteq> []"
  shows "slo_firing slo (evaluate_slo_burn_rate slo xs) \<noteq> [] \<longleftrightarrow>
     error_budget_burn_alert_threshold slo \<le> current_burn_rate (evaluate_slo_burn_rate slo xs)"
  using burn_rate_fields(3,4) [OF assms, of slo] by (simp add: slo_firing_def)

text \<open>An objective that allows no errors never fires, however bad its series.\<close>

lemma perfect_target_never_fires:
  assumes "target slo = 1" "0 < error_budget_burn_alert_threshold slo"
  shows "slo_firing slo (evaluate_slo_burn_rate slo xs) = []"
proof (cases "xs = []")
  case True
  then show ?thesis by (simp add: evaluate_slo_burn_rate_def slo_firing_def)
next
  case False
  have "current_burn_rate (evaluate_slo_burn_rate slo xs) = 0"
    using assms(1) by (simp add: burn_rate_fields(1) [OF False] allowed_error_rate_def fsub_def)
  then show ?thesis using slo_fires_iff [OF False, of slo] assms(2) by auto
qed

text \<open>the error-budget arithmetic of an objective with a target in the unit interval and a
positive alert threshold. Without data there is never a firing. With data, the remaining budget is a
percentage; the severity is decided by the burn rate alone; a series without bad events burns nothing
and does not fire; when some error is allowed, a series of bad events only leaves no budget; and
between two series of the same length, the one with more bad events has no lower burn rate.\<close>

theorem slo_burn_rate:
  assumes "0 \<le> target slo" "target slo \<le> 1" "0 < error_budget_burn_alert_threshold slo"
  shows "slo_firing slo (evaluate_slo_burn_rate slo []) = [] \<and>
    (xs \<noteq> [] \<longrightarrow>
      (let res = evaluate_slo_burn_rate slo xs in
       0 \<le> budget_remaining_pct res \<and> budget_remaining_pct res \<le> 100 \<and> 0 \<le> current_burn_rate res \<and>
       (slo_firing slo res \<noteq> [] \<longleftrightarrow> error_budget_burn_alert_threshold slo \<le> current_burn_rate res) \<and>
       (br_severity res = Some Critical \<longleftrightarrow>
          error_budget_burn_alert_threshold slo \<le> current_burn_rate res \<and> fl64 (144/10) \<le> current_burn_rate res) \<and>
       (list_all (\<lambda>x. \<not> bad_event slo x) xs \<longrightarrow>
          current_burn_rate res = 0 \<and> budget_remaining_pct res = 100 \<and> slo_firing slo res = []) \<and>
       (list_all (bad_event slo) xs \<and> 0 < fround 6 (fsub 1 (target slo)) \<longrightarrow> budget_remaining_pct res = 0) \<and>
       (\<forall>ys. length ys = length xs \<and> length (filter (bad_event slo) xs) \<le> length (filter (bad_event slo) ys) \<longrightarrow>
          current_burn_rate res \<le> current_burn_rate (evaluate_slo_burn_rate slo ys))))"
proof (intro conjI impI)
  show "slo_firing slo (evaluate_slo_burn_rate slo []) = []"
    by (simp add: evaluate_slo_burn_rate_def slo_firing_def)
next
  assume xs: "xs \<noteq> []"
  have counts: "list_all (\<lambda>x. \<not> bad_event slo x) xs \<Longrightarrow> bad_events slo xs = 0"
      "list_all (bad_event slo) xs \<Longrightarrow> bad_events slo xs = length xs"
    by (induction xs) (auto simp: bad_events_def)
  show "let res = evaluate_slo_burn_rate slo xs in
       0 \<le> budget_remaining_pct res \<and> budget_remaining_pct res \<le> 100 \<and> 0 \<le> current_burn_rate res \<and>
       (slo_firing slo res \<noteq> [] \<longleftrightarrow> error_budget_burn_alert_threshold slo \<le> current_burn_rate res) \<and>
       (br_severity res = Some Critical \<longleftrightarrow>
          error_budget_burn_alert_threshold slo \<le> current_burn_rate res \<and> fl64 (144/10) \<le> current_burn_rate res) \<and>
       (list_all (\<lambda>x. \<not> bad_event slo x) xs \<longrightarrow>
          current_burn_rate res = 0 \<and> budget_remaining_pct res = 100 \<and> slo_firing slo res = []) \<and>
       (list_all (bad_event slo) xs \<and> 0 < fround 6 (fsub 1 (target slo)) \<longrightarrow> budget_remaining_pct res = 0) \<and>
       (\<forall>ys. length ys = length xs \<and> length (filter (bad_event slo) xs) \<le> length (filter (bad_event slo) ys) \<longrightarrow>
          current_burn_rate res \<le> current_burn_rate (evaluate_slo_burn_rate slo ys))"
    unfolding Let_def
    using remaining_range [OF xs, of slo] burn_nonneg [OF xs, of slo] slo_fires_iff [OF xs, of slo]
      burn_rate_fields(3) [OF xs, of slo] clean_series [OF xs counts(1)] assms(3)
      exhausted_budget [OF xs assms(1) counts(2)] burn_mono [OF xs, of _ slo]
    by (auto simp: allowed_error_rate_def bad_events_def)
qed

definition sample_slo :: slo_definition where
  "sample_slo = \<lparr>slo_name = ''latency'', target = 3/4, slo_window = ''30d'',
     error_budget_burn_alert_threshold = 2, slo_metric = ''calibration_ece'', slo_threshold = Some 1,
     slo_compare = Slo_Gt\<rparr>"

theorem slo_burn_rate_witness:
  "(0::flt) \<le> target sample_slo \<and> target sample_slo \<le> 1 \<and>
   budget_remaining_pct (evaluate_slo_burn_rate sample_slo [2, 3]) = 0 \<and>
   0 \<le> current_burn_rate (evaluate_slo_burn_rate sample_slo [2, 3])"
proof -
  have "0 < fround 6 (fsub 1 (target sample_slo))" "list_all (bad_event sample_slo) [2, 3]"
    by code_simp+
  then show ?thesis using slo_burn_rate [of sample_slo "[2, 3]"]
    by (simp add: Let_def sample_slo_def)
qed

text \<open>A violation that is suppressed as flapping still announces its resolution.\<close>

definition quiet_cycle :: cycle where
  "quiet_cycle = sample_cycle\<lparr>cycle_rows := (\<lambda>_. \<lparr>w_metrics = Inr None, w_queue_wait = Inr None,
     w_telemetry = Inr None\<rparr>)\<rparr>"

lemma resolution_without_firing:
  "map_sum id snd (run_cycles [] [sample_cycle, quiet_cycle] sample_db) = Inr [Cleared ''slow'' Warning]"
  by code_simp

end
