(* ===== verification/Auth.thy ===== *)
theory Auth
  imports Evidence "HOL-Library.Countable"
begin

text \<open>
  Accounts: the password policy (\<open>auth/password_hashing.py\<close>), the users and reset tokens of the
  repository (\<open>db/repository.py\<close>), the account routes (\<open>app/api/v1/auth.py\<close>), API keys
  (\<open>app/api/v1/api_keys.py\<close>, \<open>auth/api_key_provider.py\<close>), access tokens
  (\<open>auth/jwt_provider.py\<close>) and the guards of the routes (\<open>auth/dependencies.py\<close>).

  SHA-256, Argon2 and the JWT library are parameters, collected in a record; random tokens, salts,
  identifiers and the time (in microseconds) are arguments. Mail is an outbox. A commit fails only on
  a violated uniqueness constraint. Request bodies have passed the validation of their schema.
\<close>

section \<open>Password policy\<close>

definition char_between :: "int \<Rightarrow> int \<Rightarrow> char \<Rightarrow> bool" where
  "char_between lo hi c \<longleftrightarrow> lo \<le> char_code c \<and> char_code c \<le> hi"

definition special_chars :: string where
  "special_chars = ''!@#$%^&*()_+-=[]{}|;:,.<>?''"

text \<open>\<open>None\<close> is a valid password, \<open>Some\<close> carries the error message.\<close>

definition validate_password_policy :: "string \<Rightarrow> string option" where
  "validate_password_policy p =
     (if length p < 8 then Some ''Password must be at least 8 characters long.''
      else if \<not> list_ex (char_between 65 90) p then Some ''Password must contain at least one uppercase letter.''
      else if \<not> list_ex (char_between 97 122) p then Some ''Password must contain at least one lowercase letter.''
      else if \<not> list_ex (char_between 48 57) p then Some ''Password must contain at least one digit.''
      else if \<not> list_ex (\<lambda>c. c \<in> set special_chars) p then
        Some ''Password must contain at least one special character.''
      else None)"

section \<open>Tables\<close>

definition role_user :: string where "role_user = ''user''"
definition role_researcher :: string where "role_researcher = ''researcher''"
definition role_admin :: string where "role_admin = ''admin''"

record user =
  usr_id :: uuid
  email :: string
  hashed_password :: string
  full_name :: "string option"
  role :: string
  is_active :: bool
  is_verified :: bool
  hashed_verification_token :: "string option"
  verification_token_expires_at :: "int option"
  last_login_at :: "int option"
  deleted_at :: "int option"
  created_at :: int

record password_reset_token =
  rt_user_id :: uuid
  hashed_token :: string
  expires_at :: int
  used_at :: "int option"

record api_key =
  key_id :: string
  key_hash :: string
  key_name :: string
  owner_id :: uuid
  is_revoked :: bool
  key_created_at :: int
  revoked_at :: "int option"
  last_used_at :: "int option"

datatype mail = Verification_Mail string string | Reset_Mail string string uuid

record auth_state =
  users :: "user list"
  reset_tokens :: "password_reset_token list"
  api_keys :: "api_key list"
  outbox :: "mail list"

section \<open>User repository\<close>

definition norm_email :: "string \<Rightarrow> string" where
  "norm_email e = str_strip (str_lower e)"

definition set_user :: "uuid \<Rightarrow> (user \<Rightarrow> user) \<Rightarrow> auth_state \<Rightarrow> auth_state" where
  "set_user i f st = st\<lparr>users := map (\<lambda>u. if usr_id u = i then f u else u) (users st)\<rparr>"

text \<open>The column \<open>email\<close> is unique over all rows, deleted accounts included.\<close>

definition create_user ::
    "uuid \<Rightarrow> int \<Rightarrow> string \<Rightarrow> string \<Rightarrow> string option \<Rightarrow> string \<Rightarrow> bool \<Rightarrow> string option \<Rightarrow> int option \<Rightarrow>
     auth_state \<Rightarrow> auth_state \<times> user py" where
  "create_user i now e hpw nm rl verified token expires st =
     (let u = \<lparr>usr_id = i, email = norm_email e, hashed_password = hpw, full_name = nm, role = rl,
               is_active = True, is_verified = verified, hashed_verification_token = token,
               verification_token_expires_at = expires, last_login_at = None, deleted_at = None,
               created_at = now\<rparr>
      in if list_ex (\<lambda>v. email v = email u \<or> usr_id v = i) (users st) then (st, Inl Integrity_Error)
         else (st\<lparr>users := users st @ [u]\<rparr>, Inr u))"

definition get_user_by_email :: "auth_state \<Rightarrow> string \<Rightarrow> bool \<Rightarrow> user option py" where
  "get_user_by_email st e include_deleted =
     scalar_one_or_none (filter (\<lambda>u. email u = norm_email e \<and> (include_deleted \<or> deleted_at u = None)) (users st))"

definition get_user_by_id :: "auth_state \<Rightarrow> uuid \<Rightarrow> bool \<Rightarrow> user option py" where
  "get_user_by_id st i include_deleted =
     scalar_one_or_none (filter (\<lambda>u. usr_id u = i \<and> (include_deleted \<or> deleted_at u = None)) (users st))"

definition get_user_by_hashed_verification_token :: "auth_state \<Rightarrow> string \<Rightarrow> user option py" where
  "get_user_by_hashed_verification_token st h =
     scalar_one_or_none (filter (\<lambda>u. hashed_verification_token u = Some h \<and> deleted_at u = None) (users st))"

definition verify_user_email :: "user \<Rightarrow> auth_state \<Rightarrow> auth_state" where
  "verify_user_email u = set_user (usr_id u)
     (\<lambda>u. u\<lparr>is_verified := True, hashed_verification_token := None, verification_token_expires_at := None\<rparr>)"

definition update_last_login :: "int \<Rightarrow> uuid \<Rightarrow> auth_state \<Rightarrow> auth_state py" where
  "update_last_login now i st =
     py_bind (get_user_by_id st i False) (\<lambda>r. Inr (case r of None \<Rightarrow> st
       | Some u \<Rightarrow> set_user (usr_id u) (\<lambda>u. u\<lparr>last_login_at := Some now\<rparr>) st))"

definition update_verification_token :: "user \<Rightarrow> string \<Rightarrow> int \<Rightarrow> auth_state \<Rightarrow> auth_state" where
  "update_verification_token u h t = set_user (usr_id u)
     (\<lambda>u. u\<lparr>hashed_verification_token := Some h, verification_token_expires_at := Some t\<rparr>)"

definition soft_delete_user :: "int \<Rightarrow> uuid \<Rightarrow> auth_state \<Rightarrow> auth_state \<times> bool py" where
  "soft_delete_user now i st =
     (case get_user_by_id st i False of
        Inl e \<Rightarrow> (st, Inl e)
      | Inr None \<Rightarrow> (st, Inr False)
      | Inr (Some u) \<Rightarrow>
          (set_user (usr_id u) (\<lambda>u. u\<lparr>deleted_at := Some now, is_active := False\<rparr>) st, Inr True))"

definition create_password_reset_token :: "uuid \<Rightarrow> string \<Rightarrow> int \<Rightarrow> auth_state \<Rightarrow> auth_state \<times> unit py" where
  "create_password_reset_token i h t st =
     (if list_ex (\<lambda>r. hashed_token r = h) (reset_tokens st) then (st, Inl Integrity_Error)
      else (st\<lparr>reset_tokens := reset_tokens st @
              [\<lparr>rt_user_id = i, hashed_token = h, expires_at = t, used_at = None\<rparr>]\<rparr>, Inr ()))"

definition consume_tokens :: "int \<Rightarrow> uuid \<Rightarrow> auth_state \<Rightarrow> auth_state" where
  "consume_tokens now i st = st\<lparr>reset_tokens := map (\<lambda>r.
     if rt_user_id r = i \<and> used_at r = None then r\<lparr>used_at := Some now\<rparr> else r) (reset_tokens st)\<rparr>"

definition reset_password_with_token ::
    "int \<Rightarrow> string \<Rightarrow> string \<Rightarrow> auth_state \<Rightarrow> auth_state \<times> user option py" where
  "reset_password_with_token now h new_hash st =
     (case scalar_one_or_none (filter (\<lambda>r. hashed_token r = h \<and> used_at r = None \<and> expires_at r > now)
             (reset_tokens st)) of
        Inl e \<Rightarrow> (st, Inl e)
      | Inr None \<Rightarrow> (st, Inr None)
      | Inr (Some tok) \<Rightarrow>
          (case scalar_one_or_none (filter (\<lambda>u. usr_id u = rt_user_id tok \<and> deleted_at u = None) (users st)) of
             Inl e \<Rightarrow> (st, Inl e)
           | Inr None \<Rightarrow> (st, Inr None)
           | Inr (Some u) \<Rightarrow>
               if \<not> is_active u then (st, Inr None)
               else (consume_tokens now (usr_id u)
                       (set_user (usr_id u) (\<lambda>u. u\<lparr>hashed_password := new_hash\<rparr>) st),
                     Inr (Some (u\<lparr>hashed_password := new_hash\<rparr>)))))"

section \<open>Parameters\<close>

datatype jwt_result = Decoded json | Expired_Signature | Invalid_Token

text \<open>
  \<open>sha256\<close> is the hexadecimal digest; \<open>argon_hash salt p\<close> and \<open>argon_verify h p\<close> are the
  password hasher's operations, the latter raising on a mismatch; \<open>jwt_encode\<close> signs claims
  with a key and an algorithm; \<open>jwt_decode\<close> checks, at a time, signature, expiry, issuer and
  audience.
\<close>

record libs =
  sha256 :: "string \<Rightarrow> string"
  argon_hash :: "nat \<Rightarrow> string \<Rightarrow> string"
  argon_verify :: "string \<Rightarrow> string \<Rightarrow> bool py"
  jwt_encode :: "json \<Rightarrow> string \<Rightarrow> string \<Rightarrow> string"
  jwt_decode :: "int \<Rightarrow> string \<Rightarrow> string \<Rightarrow> string list \<Rightarrow> string \<Rightarrow> string \<Rightarrow> jwt_result"

record auth_settings =
  jwt_secret_key :: "string option"
  jwt_algorithm :: string
  jwt_expiry_minutes :: int
  jwt_issuer :: string
  jwt_audience :: string
  password_reset_expiry_minutes :: int
  prometheus_metrics_token :: "string option"

definition verify_password :: "libs \<Rightarrow> string \<Rightarrow> string \<Rightarrow> bool" where
  "verify_password L p h = (case argon_verify L h p of Inl _ \<Rightarrow> False | Inr b \<Rightarrow> b)"

section \<open>Access tokens\<close>

text \<open>\<open>a or b\<close> on optional text: missing and empty fall through.\<close>

definition or_text :: "string option \<Rightarrow> string \<Rightarrow> string" where
  "or_text a b = (case a of Some (c # cs) \<Rightarrow> c # cs | _ \<Rightarrow> b)"

definition or_int :: "int option \<Rightarrow> int \<Rightarrow> int" where
  "or_int a b = (case a of None \<Rightarrow> b | Some n \<Rightarrow> if n = 0 then b else n)"

definition signing_key :: "auth_settings \<Rightarrow> string option \<Rightarrow> string" where
  "signing_key cfg secret = or_text secret (or_text (jwt_secret_key cfg) [])"

definition token_claims :: "int \<Rightarrow> string \<Rightarrow> string \<Rightarrow> int \<Rightarrow> string \<Rightarrow> string \<Rightarrow> json" where
  "token_claims now sub rl mins iss aud =
     JObj [(''sub'', JStr sub), (''role'', JStr rl), (''iat'', JInt (now div 1000000)),
           (''exp'', JInt ((now + mins * 60000000) div 1000000)), (''iss'', JStr iss), (''aud'', JStr aud)]"

definition create_access_token ::
    "libs \<Rightarrow> auth_settings \<Rightarrow> int \<Rightarrow> uuid \<Rightarrow> string \<Rightarrow> string option \<Rightarrow> int option \<Rightarrow> string option \<Rightarrow>
     string option \<Rightarrow> string option \<Rightarrow> string py" where
  "create_access_token L cfg now i rl secret mins iss aud alg =
     (let key = signing_key cfg secret
      in if key = [] then Inl (Value_Error ''JWT_SECRET_KEY must be set to issue access tokens.'')
         else Inr (jwt_encode L
           (token_claims now (uuid_str i) rl (or_int mins (jwt_expiry_minutes cfg))
              (or_text iss (jwt_issuer cfg)) (or_text aud (jwt_audience cfg)))
           key (or_text alg (jwt_algorithm cfg))))"

definition decode_access_token ::
    "libs \<Rightarrow> auth_settings \<Rightarrow> int \<Rightarrow> string \<Rightarrow> string option \<Rightarrow> jwt_result py" where
  "decode_access_token L cfg now token secret =
     (let key = signing_key cfg secret
      in if key = [] then Inl (Value_Error ''JWT_SECRET_KEY is not configured.'')
         else Inr (jwt_decode L now token key [jwt_algorithm cfg] (jwt_issuer cfg) (jwt_audience cfg)))"

definition PUBLIC_PATH_PREFIXES :: "string list" where
  "PUBLIC_PATH_PREFIXES =
     [''/api/v1/health'', ''/api/v1/auth/register'', ''/api/v1/auth/login'', ''/api/v1/auth/verify-email'',
      ''/api/v1/auth/resend-verification'', ''/docs'', ''/openapi.json'', ''/redoc'']"

definition is_public_endpoint :: "string \<Rightarrow> bool" where
  "is_public_endpoint p \<longleftrightarrow>
     p = ''/'' \<or> p \<in> {''/docs'', ''/openapi.json'', ''/redoc''} \<or>
     list_ex (\<lambda>pre. p = pre \<or> starts_with p (pre @ ''/'')) PUBLIC_PATH_PREFIXES"

section \<open>Account routes\<close>

record user_response =
  ur_id :: uuid
  ur_email :: string
  ur_full_name :: "string option"
  ur_role :: string
  ur_is_active :: bool
  ur_is_verified :: bool
  ur_created_at :: int
  ur_last_login_at :: "int option"

definition user_response_of :: "user \<Rightarrow> user_response" where
  "user_response_of u = \<lparr>ur_id = usr_id u, ur_email = email u, ur_full_name = full_name u, ur_role = role u,
     ur_is_active = is_active u, ur_is_verified = is_verified u, ur_created_at = created_at u,
     ur_last_login_at = last_login_at u\<rparr>"

record token_response =
  access_token :: string
  token_type :: string
  expires_in :: int

text \<open>A reply with its status, or an error reply with its status, detail and error code.\<close>

datatype 'a reply = Reply int 'a | Json_Error int string string

definition hours :: "int \<Rightarrow> int" where "hours n = n * 3600000000"
definition minutes :: "int \<Rightarrow> int" where "minutes n = n * 60000000"

definition register ::
    "libs \<Rightarrow> int \<Rightarrow> uuid \<Rightarrow> nat \<Rightarrow> string \<Rightarrow> string \<Rightarrow> string \<Rightarrow> string option \<Rightarrow> auth_state \<Rightarrow>
     auth_state \<times> user_response reply py" where
  "register L now i salt raw_token e pw nm st =
     (case validate_password_policy pw of
        Some msg \<Rightarrow> (st, Inr (Json_Error 422 msg ''password_policy_violation''))
      | None \<Rightarrow>
          (case get_user_by_email st e False of
             Inl ex \<Rightarrow> (st, Inl ex)
           | Inr (Some _) \<Rightarrow>
               (st, Inr (Json_Error 409 ''An account with this email already exists.'' ''email_already_exists''))
           | Inr None \<Rightarrow>
               (case create_user i now e (argon_hash L salt pw) nm role_user False
                       (Some (sha256 L raw_token)) (Some (now + hours 24)) st of
                  (st', Inl ex) \<Rightarrow> (st', Inl ex)
                | (st', Inr u) \<Rightarrow>
                    (st'\<lparr>outbox := outbox st' @ [Verification_Mail (email u) raw_token]\<rparr>,
                     Inr (Reply 201 (user_response_of u))))))"

definition login ::
    "libs \<Rightarrow> auth_settings \<Rightarrow> int \<Rightarrow> string \<Rightarrow> string \<Rightarrow> auth_state \<Rightarrow> auth_state \<times> token_response reply py" where
  "login L cfg now e pw st =
     (case get_user_by_email st e False of
        Inl ex \<Rightarrow> (st, Inl ex)
      | Inr None \<Rightarrow> (st, Inr (Json_Error 401 ''Invalid email or password.'' ''invalid_credentials''))
      | Inr (Some u) \<Rightarrow>
          if \<not> verify_password L pw (hashed_password u) then
            (st, Inr (Json_Error 401 ''Invalid email or password.'' ''invalid_credentials''))
          else if \<not> is_active u then
            (st, Inr (Json_Error 401 ''User account is inactive.'' ''account_inactive''))
          else if \<not> is_verified u then
            (st, Inr (Json_Error 401 ''Email address is not verified.'' ''email_unverified''))
          else
            (case update_last_login now (usr_id u) st of
               Inl ex \<Rightarrow> (st, Inl ex)
             | Inr st' \<Rightarrow>
                 (st', py_bind (create_access_token L cfg now (usr_id u) (role u) None None None None None)
                    (\<lambda>tok. Inr (Reply 200 \<lparr>access_token = tok, token_type = ''bearer'',
                                            expires_in = jwt_expiry_minutes cfg * 60\<rparr>)))))"

definition verify_email :: "libs \<Rightarrow> int \<Rightarrow> string \<Rightarrow> auth_state \<Rightarrow> auth_state \<times> string reply py" where
  "verify_email L now token st =
     (case get_user_by_hashed_verification_token st (sha256 L token) of
        Inl ex \<Rightarrow> (st, Inl ex)
      | Inr None \<Rightarrow> (st, Inr (Json_Error 400 ''Invalid or expired verification token.'' ''invalid_verification_token''))
      | Inr (Some u) \<Rightarrow>
          (case verification_token_expires_at u of
             None \<Rightarrow> (st, Inr (Json_Error 400 ''Invalid or expired verification token.'' ''invalid_verification_token''))
           | Some t \<Rightarrow>
               if t < now then
                 (st, Inr (Json_Error 400 ''Verification token has expired.'' ''verification_token_expired''))
               else (verify_user_email u st, Inr (Reply 200 ''Email address verified successfully.''))))"

definition resend_verification :: "libs \<Rightarrow> int \<Rightarrow> string \<Rightarrow> string \<Rightarrow> auth_state \<Rightarrow> auth_state \<times> string reply py" where
  "resend_verification L now raw_token e st =
     (let done = Inr (Reply 200
            ''If an unverified account exists with that email, a verification link has been sent.'')
      in case get_user_by_email st e False of
           Inl ex \<Rightarrow> (st, Inl ex)
         | Inr None \<Rightarrow> (st, done)
         | Inr (Some u) \<Rightarrow>
             if \<not> is_verified u \<and> is_active u then
               (let st' = update_verification_token u (sha256 L raw_token) (now + hours 24) st
                in (st'\<lparr>outbox := outbox st' @ [Verification_Mail (email u) raw_token]\<rparr>, done))
             else (st, done))"

definition request_password_reset ::
    "libs \<Rightarrow> auth_settings \<Rightarrow> int \<Rightarrow> string \<Rightarrow> string \<Rightarrow> auth_state \<Rightarrow> auth_state \<times> string reply py" where
  "request_password_reset L cfg now raw_token e st =
     (let done = Inr (Reply 202
            ''If an account with this email exists, a password reset link has been sent.'')
      in case get_user_by_email st e False of
           Inl ex \<Rightarrow> (st, Inl ex)
         | Inr None \<Rightarrow> (st, done)
         | Inr (Some u) \<Rightarrow>
             if is_active u then
               (case create_password_reset_token (usr_id u) (sha256 L raw_token)
                       (now + minutes (password_reset_expiry_minutes cfg)) st of
                  (st', Inl ex) \<Rightarrow> (st', Inl ex)
                | (st', Inr _) \<Rightarrow>
                    (st'\<lparr>outbox := outbox st' @ [Reset_Mail (email u) raw_token (usr_id u)]\<rparr>, done))
             else (st, done))"

definition reset_password ::
    "libs \<Rightarrow> int \<Rightarrow> nat \<Rightarrow> string \<Rightarrow> string \<Rightarrow> auth_state \<Rightarrow> auth_state \<times> string reply py" where
  "reset_password L now salt token pw st =
     (case validate_password_policy pw of
        Some msg \<Rightarrow> (st, Inr (Json_Error 422 msg ''password_policy_violation''))
      | None \<Rightarrow>
          (case reset_password_with_token now (sha256 L token) (argon_hash L salt pw) st of
             (st', Inl ex) \<Rightarrow> (st', Inl ex)
           | (st', Inr None) \<Rightarrow>
               (st', Inr (Json_Error 400 ''Invalid or expired password reset token.'' ''invalid_or_expired_token''))
           | (st', Inr (Some _)) \<Rightarrow>
               (st', Inr (Reply 200
                  ''Password has been reset successfully. Please log in with your new password.''))))"

section \<open>Guards of the routes\<close>

record request_state =
  st_user :: "user option"
  st_api_key_error :: "(string \<times> string) option"
  st_api_key_id :: "string option"
  st_auth_type :: "string option"

definition get_current_user :: "request_state \<Rightarrow> user py" where
  "get_current_user rq =
     (case st_api_key_error rq of
        Some (code, msg) \<Rightarrow> Inl (HTTP_Exception 401 msg)
      | None \<Rightarrow> (case st_user rq of None \<Rightarrow> Inl (HTTP_Exception 401 ''Authentication required.'') | Some u \<Rightarrow> Inr u))"

definition get_current_active_user :: "request_state \<Rightarrow> user py" where
  "get_current_active_user rq =
     py_bind (get_current_user rq) (\<lambda>u.
       if \<not> is_active u then Inl (HTTP_Exception 401 ''User account is inactive.'')
       else if \<not> is_verified u then Inl (HTTP_Exception 401 ''Email address is not verified.'')
       else Inr u)"

definition require_role :: "string list \<Rightarrow> request_state \<Rightarrow> user py" where
  "require_role allowed rq =
     py_bind (get_current_active_user rq) (\<lambda>u.
       if role u = role_admin \<or> role u \<in> set allowed then Inr u
       else Inl (HTTP_Exception 403 ''Insufficient permissions for this resource.''))"

definition check_owner_or_role :: "uuid option \<Rightarrow> user \<Rightarrow> string list \<Rightarrow> unit py" where
  "check_owner_or_role owner u allowed =
     (if role u = role_admin \<or> role u \<in> set allowed then Inr ()
      else if owner \<noteq> None \<and> owner = Some (usr_id u) then Inr ()
      else Inl (HTTP_Exception 403 ''You do not have permission to access this resource.''))"

definition get_me :: "request_state \<Rightarrow> user_response py" where
  "get_me rq = py_bind (get_current_active_user rq) (\<lambda>u. Inr (user_response_of u))"

section \<open>API keys\<close>

record api_key_created =
  akc_key_id :: string
  akc_name :: string
  akc_key :: string
  akc_created_at :: int

text \<open>The column \<open>key_id\<close> is unique.\<close>

definition create_api_key ::
    "libs \<Rightarrow> int \<Rightarrow> string \<Rightarrow> string \<Rightarrow> string \<Rightarrow> request_state \<Rightarrow> auth_state \<Rightarrow> auth_state \<times> api_key_created py" where
  "create_api_key L now raw_key kid nm rq st =
     (case require_role [role_researcher, role_admin] rq of
        Inl ex \<Rightarrow> (st, Inl ex)
      | Inr u \<Rightarrow>
          if list_ex (\<lambda>k. key_id k = kid) (api_keys st) then (st, Inl Integrity_Error)
          else (st\<lparr>api_keys := api_keys st @ [\<lparr>key_id = kid, key_hash = sha256 L raw_key, key_name = nm,
                  owner_id = usr_id u, is_revoked = False, key_created_at = now, revoked_at = None,
                  last_used_at = None\<rparr>]\<rparr>,
                Inr \<lparr>akc_key_id = kid, akc_name = nm, akc_key = raw_key, akc_created_at = now\<rparr>))"

definition list_api_keys :: "request_state \<Rightarrow> auth_state \<Rightarrow> api_key list py" where
  "list_api_keys rq st =
     py_bind (require_role [role_researcher, role_admin] rq) (\<lambda>u.
       Inr (sort_key (\<lambda>k. - key_created_at k)
         (filter (\<lambda>k. role u = role_admin \<or> owner_id k = usr_id u) (api_keys st))))"

definition set_key :: "string \<Rightarrow> (api_key \<Rightarrow> api_key) \<Rightarrow> auth_state \<Rightarrow> auth_state" where
  "set_key kid f st = st\<lparr>api_keys := map (\<lambda>k. if key_id k = kid then f k else k) (api_keys st)\<rparr>"

definition revoke_api_key :: "int \<Rightarrow> string \<Rightarrow> request_state \<Rightarrow> auth_state \<Rightarrow> auth_state \<times> string py" where
  "revoke_api_key now kid rq st =
     (case get_current_active_user rq of
        Inl ex \<Rightarrow> (st, Inl ex)
      | Inr u \<Rightarrow>
          (case scalar_one_or_none (filter (\<lambda>k. key_id k = kid) (api_keys st)) of
             Inl ex \<Rightarrow> (st, Inl ex)
           | Inr None \<Rightarrow> (st, Inl (HTTP_Exception 404 ''API key not found.''))
           | Inr (Some k) \<Rightarrow>
               (case check_owner_or_role (Some (owner_id k)) u [role_admin] of
                  Inl ex \<Rightarrow> (st, Inl ex)
                | Inr _ \<Rightarrow>
                    (if is_revoked k then st
                     else set_key kid (\<lambda>k. k\<lparr>is_revoked := True, revoked_at := Some now\<rparr>) st, Inr kid))))"

section \<open>Authentication providers\<close>

text \<open>The API-key provider. \<open>have_db\<close> tells whether the session factory is initialised.\<close>

definition api_key_authenticate ::
    "libs \<Rightarrow> bool \<Rightarrow> int \<Rightarrow> string option \<Rightarrow> request_state \<Rightarrow> auth_state \<Rightarrow> auth_state \<times> request_state py" where
  "api_key_authenticate L have_db now header rq st =
     (case header of
        Some (c # cs) \<Rightarrow>
          if \<not> have_db then (st, Inr rq)
          else
            (case scalar_one_or_none (filter (\<lambda>k. key_hash k = sha256 L (c # cs)) (api_keys st)) of
               Inl ex \<Rightarrow> (st, Inl ex)
             | Inr None \<Rightarrow>
                 (st, Inr (rq\<lparr>st_api_key_error := Some (''invalid_api_key'', ''Invalid API key.''), st_user := None\<rparr>))
             | Inr (Some k) \<Rightarrow>
                 if is_revoked k then
                   (st, Inr (rq\<lparr>st_api_key_error := Some (''api_key_revoked'', ''API key has been revoked.''),
                                 st_user := None\<rparr>))
                 else
                   (case scalar_one_or_none (filter (\<lambda>u. usr_id u = owner_id k) (users st)) of
                      Inl ex \<Rightarrow> (st, Inl ex)
                    | Inr None \<Rightarrow>
                        (st, Inr (rq\<lparr>st_api_key_error :=
                           Some (''account_inactive'', ''User account is inactive or deleted.''), st_user := None\<rparr>))
                    | Inr (Some u) \<Rightarrow>
                        if deleted_at u \<noteq> None \<or> \<not> is_active u then
                          (st, Inr (rq\<lparr>st_api_key_error :=
                             Some (''account_inactive'', ''User account is inactive or deleted.''), st_user := None\<rparr>))
                        else
                          (set_key (key_id k) (\<lambda>k. k\<lparr>last_used_at := Some now\<rparr>) st,
                           Inr (rq\<lparr>st_user := Some u, st_api_key_id := Some (key_id k),
                                   st_auth_type := Some ''api_key''\<rparr>))))
      | _ \<Rightarrow> (st, Inr rq))"

text \<open>The user a token speaks for, once it is decoded.\<close>

definition token_user :: "bool \<Rightarrow> json \<Rightarrow> auth_state \<Rightarrow> user py" where
  "token_user have_db payload st =
     py_bind (json_get payload ''sub'') (\<lambda>sub.
     if \<not> truthy sub then Inl (HTTP_Exception 401 ''Invalid token claims.'')
     else case sub of
       JStr s \<Rightarrow>
         (case uuid_parse s of
            Inl _ \<Rightarrow> Inl (HTTP_Exception 401 ''Invalid user identity claim.'')
          | Inr i \<Rightarrow>
              if \<not> have_db then Inl (Runtime_Error ''Database session factory is not initialised.'')
              else py_bind (get_user_by_id st i False) (\<lambda>r.
                case r of
                  None \<Rightarrow> Inl (HTTP_Exception 401 ''User account not found.'')
                | Some u \<Rightarrow>
                    if deleted_at u \<noteq> None then Inl (HTTP_Exception 401 ''User account not found.'')
                    else if \<not> is_active u then Inl (HTTP_Exception 401 ''User account is inactive.'')
                    else if \<not> is_verified u then Inl (HTTP_Exception 401 ''Email address is not verified.'')
                    else Inr u))
     | _ \<Rightarrow> Inl (Other_Error ''AttributeError''))"

definition jwt_authenticate ::
    "libs \<Rightarrow> auth_settings \<Rightarrow> bool \<Rightarrow> int \<Rightarrow> string option \<Rightarrow> request_state \<Rightarrow> auth_state \<Rightarrow> request_state py" where
  "jwt_authenticate L cfg have_db now header rq st =
     (case header of
        Some (c # cs) \<Rightarrow>
          (case str_words (c # cs) of
             [scheme, token] \<Rightarrow>
               if str_lower scheme \<noteq> ''bearer'' then
                 Inl (HTTP_Exception 401 ''Invalid authorization header format. Expected 'Bearer <token>'.'')
               else if or_text (prometheus_metrics_token cfg) [] \<noteq> [] \<and>
                       prometheus_metrics_token cfg = Some token then
                 Inr (rq\<lparr>st_user := None\<rparr>)
               else
                 py_bind (decode_access_token L cfg now token None) (\<lambda>r.
                   case r of
                     Expired_Signature \<Rightarrow> Inl (HTTP_Exception 401 ''Access token has expired.'')
                   | Invalid_Token \<Rightarrow> Inl (HTTP_Exception 401 ''Invalid authorization token.'')
                   | Decoded payload \<Rightarrow>
                       py_bind (token_user have_db payload st) (\<lambda>u. Inr (rq\<lparr>st_user := Some u\<rparr>)))
           | _ \<Rightarrow> Inl (HTTP_Exception 401 ''Invalid authorization header format. Expected 'Bearer <token>'.''))
      | _ \<Rightarrow> Inr (rq\<lparr>st_user := None\<rparr>))"

section \<open>The accounts as a transition system\<close>

text \<open>Any route or provider, with any arguments, in any order.\<close>

inductive auth_step :: "libs \<Rightarrow> auth_settings \<Rightarrow> auth_state \<Rightarrow> auth_state \<Rightarrow> bool" for L cfg where
  registers: "auth_step L cfg st (fst (register L now i salt tok e pw nm st))"
| logs_in: "auth_step L cfg st (fst (login L cfg now e pw st))"
| verifies: "auth_step L cfg st (fst (verify_email L now tok st))"
| resends: "auth_step L cfg st (fst (resend_verification L now tok e st))"
| requests_reset: "auth_step L cfg st (fst (request_password_reset L cfg now tok e st))"
| resets: "auth_step L cfg st (fst (reset_password L now salt tok pw st))"
| deletes: "auth_step L cfg st (fst (soft_delete_user now i st))"
| issues_key: "auth_step L cfg st (fst (create_api_key L now raw kid nm rq st))"
| revokes_key: "auth_step L cfg st (fst (revoke_api_key now kid rq st))"
| uses_key: "auth_step L cfg st (fst (api_key_authenticate L have_db now hdr rq st))"

inductive_cases auth_stepE: "auth_step L cfg st st'"

definition auth_ok :: "auth_state \<Rightarrow> bool" where
  "auth_ok st \<longleftrightarrow> distinct (map usr_id (users st)) \<and> distinct (map email (users st)) \<and>
     distinct (map hashed_token (reset_tokens st)) \<and> distinct (map key_id (api_keys st))"

text \<open>What never changes or only changes one way.\<close>

definition user_le :: "user \<Rightarrow> user \<Rightarrow> bool" where
  "user_le u u' \<longleftrightarrow> usr_id u' = usr_id u \<and> email u' = email u \<and> role u' = role u \<and>
     (is_verified u \<longrightarrow> is_verified u') \<and> (\<not> is_active u \<longrightarrow> \<not> is_active u') \<and>
     (deleted_at u \<noteq> None \<longrightarrow> deleted_at u' \<noteq> None)"

definition token_le :: "password_reset_token \<Rightarrow> password_reset_token \<Rightarrow> bool" where
  "token_le r r' \<longleftrightarrow> rt_user_id r' = rt_user_id r \<and> hashed_token r' = hashed_token r \<and>
     expires_at r' = expires_at r \<and> (used_at r \<noteq> None \<longrightarrow> used_at r' = used_at r)"

definition key_le :: "api_key \<Rightarrow> api_key \<Rightarrow> bool" where
  "key_le k k' \<longleftrightarrow> key_id k' = key_id k \<and> key_hash k' = key_hash k \<and> owner_id k' = owner_id k \<and>
     (is_revoked k \<longrightarrow> is_revoked k')"

definition rows_le :: "('r \<Rightarrow> 'r \<Rightarrow> bool) \<Rightarrow> ('r \<Rightarrow> bool) \<Rightarrow> 'r list \<Rightarrow> 'r list \<Rightarrow> bool" where
  "rows_le le new rs rs' \<longleftrightarrow> (\<exists>olds news. rs' = olds @ news \<and> list_all2 le rs olds \<and> list_all new news)"

definition auth_le :: "auth_state \<Rightarrow> auth_state \<Rightarrow> bool" where
  "auth_le st st' \<longleftrightarrow>
     rows_le user_le (\<lambda>u. role u = role_user) (users st) (users st') \<and>
     rows_le token_le (\<lambda>_. True) (reset_tokens st) (reset_tokens st') \<and>
     rows_le key_le (\<lambda>_. True) (api_keys st) (api_keys st')"

lemma rows_leI: "list_all2 le rs olds \<Longrightarrow> list_all new news \<Longrightarrow> rows_le le new rs (olds @ news)"
  unfolding rows_le_def by blast

lemma rows_le_map: "(\<And>x. x \<in> set rs \<Longrightarrow> le x (f x)) \<Longrightarrow> rows_le le new rs (map f rs)"
  using rows_leI [of le rs "map f rs" new "[]"] by (simp add: list_all2_conv_all_nth)

lemma rows_le_refl: "(\<And>x. le x x) \<Longrightarrow> rows_le le new rs rs"
  using rows_le_map [of rs le "\<lambda>x. x" new] by simp

lemma rows_le_trans:
  assumes "rows_le le new rs ss" "rows_le le new ss ts"
    and trans: "\<And>x y z. le x y \<Longrightarrow> le y z \<Longrightarrow> le x z" and keep: "\<And>x y. le x y \<Longrightarrow> new x \<Longrightarrow> new y"
  shows "rows_le le new rs ts"
proof -
  obtain o1 n1 where 1: "ss = o1 @ n1" "list_all2 le rs o1" "list_all new n1"
    using assms(1) by (auto simp: rows_le_def)
  obtain o2 n2 where 2: "ts = o2 @ n2" "list_all2 le ss o2" "list_all new n2"
    using assms(2) by (auto simp: rows_le_def)
  obtain a b where ab: "o2 = a @ b" "list_all2 le o1 a" "list_all2 le n1 b"
    using 1 2 by (auto simp: list_all2_append1)
  have "list_all2 le rs a" using list_all2_trans [OF _ 1(2) ab(2)] trans by blast
  moreover have "list_all new b"
    using 1(3) ab(3) keep by (auto simp: list_all_length list_all2_conv_all_nth)
  ultimately show ?thesis using rows_leI [of le rs a new "b @ n2"] 2 ab by simp
qed

lemma rows_le_append: "(\<And>x. le x x) \<Longrightarrow> new r \<Longrightarrow> rows_le le new rs (rs @ [r])"
  by (rule rows_leI) (simp_all add: list_all2_conv_all_nth)

lemma rows_leD: "rows_le le new rs rs' \<Longrightarrow> x \<in> set rs \<Longrightarrow> \<exists>y\<in>set rs'. le x y"
proof -
  assume "rows_le le new rs rs'" "x \<in> set rs"
  then obtain olds news where o: "rs' = olds @ news" "list_all2 le rs olds" by (auto simp: rows_le_def)
  then obtain j where "j < length rs" "rs ! j = x" using \<open>x \<in> set rs\<close> by (auto simp: in_set_conv_nth)
  then have "le x (olds ! j)" "olds ! j \<in> set rs'" using o by (auto simp: list_all2_conv_all_nth)
  then show ?thesis by blast
qed

lemma rows_le_origin: "rows_le le new rs rs' \<Longrightarrow> y \<in> set rs' \<Longrightarrow> (\<exists>x\<in>set rs. le x y) \<or> new y"
proof -
  assume "rows_le le new rs rs'" "y \<in> set rs'"
  then obtain olds news where o: "rs' = olds @ news" "list_all2 le rs olds" "list_all new news"
    by (auto simp: rows_le_def)
  show ?thesis
  proof (cases "y \<in> set news")
    case False
    then obtain j where "j < length olds" "olds ! j = y" using o \<open>y \<in> set rs'\<close> by (auto simp: in_set_conv_nth)
    then have "le (rs ! j) y" "rs ! j \<in> set rs" using o by (auto simp: list_all2_conv_all_nth)
    then show ?thesis by blast
  qed (use o in \<open>auto simp: list_all_iff\<close>)
qed

lemma le_refls [simp]: "user_le u u" "token_le r r" "key_le k k"
  by (simp_all add: user_le_def token_le_def key_le_def)

lemma auth_le_refl: "auth_le st st"
  by (simp add: auth_le_def rows_le_refl)

lemma le_transs:
  "user_le u v \<Longrightarrow> user_le v w \<Longrightarrow> user_le u w" "user_le u v \<Longrightarrow> role u = role_user \<Longrightarrow> role v = role_user"
  "token_le r s \<Longrightarrow> token_le s t \<Longrightarrow> token_le r t" "key_le k l \<Longrightarrow> key_le l m \<Longrightarrow> key_le k m"
  by (auto simp: user_le_def token_le_def key_le_def)

lemma auth_le_trans:
  assumes "auth_le st st'" "auth_le st' st''"
  shows "auth_le st st''"
proof -
  have "rows_le user_le (\<lambda>u. role u = role_user) (users st) (users st'')"
    by (rule rows_le_trans [of user_le _ _ "users st'"])
      (use assms in \<open>auto simp: auth_le_def intro: le_transs\<close>)
  moreover have "rows_le token_le (\<lambda>_. True) (reset_tokens st) (reset_tokens st'')"
    by (rule rows_le_trans [of token_le _ _ "reset_tokens st'"])
      (use assms in \<open>auto simp: auth_le_def intro: le_transs\<close>)
  moreover have "rows_le key_le (\<lambda>_. True) (api_keys st) (api_keys st'')"
    by (rule rows_le_trans [of key_le _ _ "api_keys st'"])
      (use assms in \<open>auto simp: auth_le_def intro: le_transs\<close>)
  ultimately show ?thesis by (simp add: auth_le_def)
qed

subsection \<open>Every primitive keeps the invariant and moves forward\<close>

definition good_step :: "auth_state \<Rightarrow> auth_state \<Rightarrow> bool" where
  "good_step st st' \<longleftrightarrow> (auth_ok st \<longrightarrow> auth_ok st') \<and> auth_le st st'"

lemma good_refl [simp]: "good_step st st"
  by (simp add: good_step_def auth_le_refl)

lemma good_trans: "good_step st st' \<Longrightarrow> good_step st' st'' \<Longrightarrow> good_step st st''"
  unfolding good_step_def using auth_le_trans by blast

lemma good_outbox [simp]: "good_step st (st'\<lparr>outbox := ms\<rparr>) \<longleftrightarrow> good_step st st'"
  by (simp add: good_step_def auth_ok_def auth_le_def)

lemma good_set_user: "(\<And>u. user_le u (f u)) \<Longrightarrow> good_step st (set_user i f st)"
proof -
  assume f: "\<And>u. user_le u (f u)"
  have "map usr_id (map (\<lambda>u. if usr_id u = i then f u else u) us) = map usr_id us"
    and "map email (map (\<lambda>u. if usr_id u = i then f u else u) us) = map email us" for us
    using f by (induction us) (auto simp: user_le_def)
  then show ?thesis
    using f by (simp add: good_step_def auth_ok_def auth_le_def set_user_def rows_le_map rows_le_refl del: map_map)
qed

lemma good_set_key: "(\<And>k. key_le k (f k)) \<Longrightarrow> good_step st (set_key i f st)"
proof -
  assume f: "\<And>k. key_le k (f k)"
  have "map key_id (map (\<lambda>k. if key_id k = i then f k else k) ks) = map key_id ks" for ks
    using f by (induction ks) (auto simp: key_le_def)
  then show ?thesis
    using f by (simp add: good_step_def auth_ok_def auth_le_def set_key_def rows_le_map rows_le_refl del: map_map)
qed

lemma good_consume: "good_step st (consume_tokens now i st)"
proof -
  let ?f = "\<lambda>r. if rt_user_id r = i \<and> used_at r = None then r\<lparr>used_at := Some now\<rparr> else r"
  have same: "map hashed_token (map ?f rs) = map hashed_token rs" for rs
    by (induction rs) auto
  have "rows_le token_le (\<lambda>_. True) rs (map ?f rs)" for rs
    by (rule rows_le_map) (simp add: token_le_def)
  then show ?thesis unfolding good_step_def auth_ok_def auth_le_def consume_tokens_def
    using same [of "reset_tokens st"] by (simp add: rows_le_refl del: map_map)
qed

lemma good_create_user:
  "rl = role_user \<Longrightarrow> good_step st (fst (create_user i now e hpw nm rl v tok t st))"
  by (auto simp: create_user_def Let_def good_step_def auth_ok_def auth_le_def list_ex_iff
      intro!: rows_le_append rows_le_refl)

lemma good_create_token: "good_step st (fst (create_password_reset_token i h t st))"
  by (auto simp: create_password_reset_token_def good_step_def auth_ok_def auth_le_def list_ex_iff
      intro!: rows_le_append rows_le_refl)

lemma good_create_key: "good_step st (fst (create_api_key L now raw kid nm rq st))"
  by (auto simp: create_api_key_def good_step_def auth_ok_def auth_le_def list_ex_iff split: sum.split
      intro!: rows_le_append rows_le_refl)

lemma good_reset: "good_step st (fst (reset_password_with_token now h nh st))"
proof -
  have "good_step st (consume_tokens now i (set_user i (\<lambda>u. u\<lparr>hashed_password := nh\<rparr>) st))" for i
    by (rule good_trans [OF good_set_user good_consume]) (simp add: user_le_def)
  then show ?thesis
    by (simp add: reset_password_with_token_def split: sum.split option.split)
qed

lemma good_login: "good_step st (fst (login L cfg now e pw st))"
proof -
  have "update_last_login now i st = Inr st' \<Longrightarrow> good_step st st'" for i st'
    by (auto simp: update_last_login_def py_bind_Inr_iff user_le_def intro!: good_set_user split: option.splits)
  then show ?thesis by (auto simp: login_def split: sum.split option.split)
qed

lemma good_verify: "good_step st (fst (verify_email L now tok st))"
  by (auto simp: verify_email_def verify_user_email_def user_le_def intro!: good_set_user
      split: sum.split option.split)

lemma good_resend: "good_step st (fst (resend_verification L now tok e st))"
  by (auto simp: resend_verification_def update_verification_token_def user_le_def Let_def
      intro!: good_set_user split: sum.split option.split)

lemma good_delete: "good_step st (fst (soft_delete_user now i st))"
  by (auto simp: soft_delete_user_def user_le_def intro!: good_set_user split: sum.split option.split)

lemma good_revoke: "good_step st (fst (revoke_api_key now kid rq st))"
  by (auto simp: revoke_api_key_def key_le_def intro!: good_set_key split: sum.split option.split)

lemma good_register: "good_step st (fst (register L now i salt tok e pw nm st))"
proof -
  obtain st' r where c: "create_user i now e (argon_hash L salt pw) nm role_user False
      (Some (sha256 L tok)) (Some (now + hours 24)) st = (st', r)" by fastforce
  then have "good_step st st'" using good_create_user [OF refl] by (metis fst_conv)
  then show ?thesis using c by (simp add: register_def split: sum.split option.split)
qed

lemma good_request: "good_step st (fst (request_password_reset L cfg now tok e st))"
proof -
  have "create_password_reset_token i h t st = (st', r) \<Longrightarrow> good_step st st'" for i h t st' r
    using good_create_token [of st i h t] by simp
  then show ?thesis
    by (auto simp: request_password_reset_def Let_def split: sum.split option.split prod.split)
qed

lemma good_reset_route: "good_step st (fst (reset_password L now salt tok pw st))"
proof -
  obtain st' r where c: "reset_password_with_token now (sha256 L tok) (argon_hash L salt pw) st = (st', r)"
    by fastforce
  then have "good_step st st'" using good_reset by (metis fst_conv)
  then show ?thesis using c by (simp add: reset_password_def split: sum.split option.split)
qed

lemma good_key_use: "good_step st (fst (api_key_authenticate L have_db now hdr rq st))"
proof -
  have "good_step st (set_key kid (\<lambda>k. k\<lparr>last_used_at := Some now\<rparr>) st)" for kid
    by (rule good_set_key) (simp add: key_le_def)
  then show ?thesis
    by (simp add: api_key_authenticate_def split: option.split list.split sum.split)
qed

lemmas good_ops = good_register good_login good_verify good_resend good_request good_reset_route
  good_delete good_create_key good_revoke good_key_use

lemma auth_step_good: "auth_step L cfg st st' \<Longrightarrow> good_step st st'"
  by (erule auth_stepE) (simp_all add: good_ops)

interpretation accounts: ordered_system "auth_step L cfg" auth_ok auth_le for L cfg
proof unfold_locales
  fix st st' :: auth_state
  assume "auth_step L cfg st st'"
  from auth_step_good [OF this] show "auth_ok st \<Longrightarrow> auth_ok st'" and "auth_ok st \<Longrightarrow> auth_le st st'"
    by (auto simp: good_step_def)
qed (auto intro: auth_le_refl auth_le_trans)

subsection \<open>Lookups\<close>

lemma user_lookup:
  assumes "auth_ok st"
  shows "get_user_by_id st i False = Inr (Some u) \<longleftrightarrow> u \<in> set (users st) \<and> usr_id u = i \<and> deleted_at u = None"
    and "get_user_by_email st e False = Inr (Some u) \<longleftrightarrow>
           u \<in> set (users st) \<and> email u = norm_email e \<and> deleted_at u = None"
proof -
  have 1: "filter (\<lambda>x. f x = n \<and> P x) us = [u] \<longleftrightarrow> u \<in> set us \<and> f u = n \<and> P u"
    if "distinct (map f us)" for f :: "user \<Rightarrow> 'k" and n P us
  proof
    assume "filter (\<lambda>x. f x = n \<and> P x) us = [u]"
    then have "u \<in> set (filter (\<lambda>x. f x = n \<and> P x) us)" by simp
    then show "u \<in> set us \<and> f u = n \<and> P u" by simp
  next
    assume u: "u \<in> set us \<and> f u = n \<and> P u"
    then have mem: "u \<in> set (filter (\<lambda>x. f x = n \<and> P x) us)" by simp
    have "distinct (map f (filter P us))" using that by (simp add: distinct_map_filter)
    from unique_column_rows [OF this, of n] show "filter (\<lambda>x. f x = n \<and> P x) us = [u]"
    proof (elim disjE exE)
      assume h: "filter (\<lambda>x. f x = n \<and> P x) us = []"
      from mem [unfolded h] show ?thesis by simp
    next
      fix x
      assume h: "filter (\<lambda>x. f x = n \<and> P x) us = [x]"
      from mem [unfolded h] h show ?thesis by simp
    qed
  qed
  show "get_user_by_id st i False = Inr (Some u) \<longleftrightarrow> u \<in> set (users st) \<and> usr_id u = i \<and> deleted_at u = None"
    and "get_user_by_email st e False = Inr (Some u) \<longleftrightarrow>
           u \<in> set (users st) \<and> email u = norm_email e \<and> deleted_at u = None"
    using assms 1 [of usr_id "users st" i "\<lambda>u. deleted_at u = None"]
      1 [of email "users st" "norm_email e" "\<lambda>u. deleted_at u = None"]
    by (simp_all add: get_user_by_id_def get_user_by_email_def scalar_one_or_none_Some auth_ok_def)
qed

lemma same_id: "auth_ok st \<Longrightarrow> u \<in> set (users st) \<Longrightarrow> v \<in> set (users st) \<Longrightarrow> usr_id u = usr_id v \<Longrightarrow> u = v"
  by (auto simp: auth_ok_def distinct_map dest: inj_onD)

section \<open>Properties\<close>


definition sample_libs :: libs where
  "sample_libs = \<lparr>sha256 = (\<lambda>s. s), argon_hash = (\<lambda>_ p. p), argon_verify = (\<lambda>h p. Inr (h = p)),
     jwt_encode = (\<lambda>claims key alg. ''t.'' @ (case json_get claims ''sub'' of Inr (JStr s) \<Rightarrow> s | _ \<Rightarrow> [])),
     jwt_decode = (\<lambda>now tok key algs iss aud. Invalid_Token)\<rparr>"

definition sample_settings :: auth_settings where
  "sample_settings = \<lparr>jwt_secret_key = Some ''secret'', jwt_algorithm = ''HS256'', jwt_expiry_minutes = 60,
     jwt_issuer = ''gaiaos'', jwt_audience = ''gaiaos-api'', password_reset_expiry_minutes = 15,
     prometheus_metrics_token = None\<rparr>"

definition sample_user :: "uuid \<Rightarrow> string \<Rightarrow> string \<Rightarrow> user" where
  "sample_user i e rl = \<lparr>usr_id = i, email = e, hashed_password = ''Old-pass1'', full_name = None, role = rl,
     is_active = True, is_verified = True, hashed_verification_token = None,
     verification_token_expires_at = None, last_login_at = None, deleted_at = None, created_at = 0\<rparr>"

definition sample_accounts :: auth_state where
  "sample_accounts = \<lparr>users = [sample_user 1 ''root@x.org'' ''admin'', sample_user 2 ''ann@x.org'' ''researcher''],
     reset_tokens = [\<lparr>rt_user_id = 2, hashed_token = ''tok'', expires_at = 100, used_at = None\<rparr>,
                     \<lparr>rt_user_id = 2, hashed_token = ''tok2'', expires_at = 100, used_at = None\<rparr>],
     api_keys = [\<lparr>key_id = ''k1'', key_hash = ''raw'', key_name = ''cli'', owner_id = 2, is_revoked = False,
                  key_created_at = 0, revoked_at = None, last_used_at = None\<rparr>],
     outbox = []\<rparr>"

lemma sample_accounts_ok: "auth_ok sample_accounts"
  by (simp add: auth_ok_def sample_accounts_def sample_user_def)


subsection \<open>Password reset\<close>

lemma reset_success:
  assumes "reset_password L now salt tok pw st = (st1, Inr (Reply c m))"
  obtains r u where "r \<in> set (reset_tokens st)" "hashed_token r = sha256 L tok" "used_at r = None"
    "now < expires_at r" "u \<in> set (users st)" "usr_id u = rt_user_id r" "deleted_at u = None" "is_active u"
    "st1 = consume_tokens now (usr_id u)
             (set_user (usr_id u) (\<lambda>u. u\<lparr>hashed_password := argon_hash L salt pw\<rparr>) st)"
    "validate_password_policy pw = None"
proof -
  let ?rows = "filter (\<lambda>r. hashed_token r = sha256 L tok \<and> used_at r = None \<and> expires_at r > now) (reset_tokens st)"
  obtain r where r: "?rows = [r]" and pol: "validate_password_policy pw = None"
    using assms by (auto simp: reset_password_def reset_password_with_token_def scalar_one_or_none_Some
        split: option.splits sum.splits prod.splits)
  let ?us = "filter (\<lambda>u. usr_id u = rt_user_id r \<and> deleted_at u = None) (users st)"
  obtain u where u: "?us = [u]" "is_active u" "st1 = consume_tokens now (usr_id u)
             (set_user (usr_id u) (\<lambda>u. u\<lparr>hashed_password := argon_hash L salt pw\<rparr>) st)"
    using assms r by (auto simp: reset_password_def reset_password_with_token_def scalar_one_or_none_Some
        scalar_one_or_none_def [of "[r]"] split: option.splits sum.splits prod.splits if_splits)
  have "r \<in> set ?rows" "u \<in> set ?us" unfolding r u(1) by simp_all
  then show thesis using u(2,3) pol by (intro that [of r u]) simp_all
qed

lemma reset_of_used_token:
  assumes "auth_ok st" "r \<in> set (reset_tokens st)" "hashed_token r = sha256 L tok" "used_at r \<noteq> None"
  shows "fst (reset_password L now salt tok pw st) = st \<and>
    (\<exists>c d e. snd (reset_password L now salt tok pw st) = Inr (Json_Error c d e))"
proof -
  have "r' = r" if "r' \<in> set (reset_tokens st)" "hashed_token r' = sha256 L tok" for r'
  proof -
    have "inj_on hashed_token (set (reset_tokens st))"
      using assms(1) by (simp add: auth_ok_def distinct_map)
    then show ?thesis using that assms(2,3) by (metis inj_onD)
  qed
  then have "filter (\<lambda>r. hashed_token r = sha256 L tok \<and> used_at r = None \<and> expires_at r > now) (reset_tokens st) = []"
    using assms(4) by (auto simp: filter_empty_conv)
  then show ?thesis
    by (simp add: reset_password_def reset_password_with_token_def scalar_one_or_none_def split: option.split)
qed

text \<open>C19: a password reset succeeds only with an unused, unexpired token of an active account and an
  acceptable password; it replaces the password of that account and nothing else of any account; and
  from then on, whatever happens, no reset with this token, or with any other token that was issued
  to the account before, succeeds or changes anything.\<close>

theorem reset_token_single_use:
  assumes "auth_ok st" "reset_password L now salt tok pw st = (st1, Inr (Reply c m))"
    "reaches (auth_step L cfg) st1 st2"
  shows "\<exists>r\<in>set (reset_tokens st). \<exists>u\<in>set (users st).
     hashed_token r = sha256 L tok \<and> used_at r = None \<and> now < expires_at r \<and> usr_id u = rt_user_id r \<and>
     is_active u \<and> deleted_at u = None \<and> validate_password_policy pw = None \<and>
     users st1 = map (\<lambda>v. if v = u then u\<lparr>hashed_password := argon_hash L salt pw\<rparr> else v) (users st) \<and>
     (\<forall>r'\<in>set (reset_tokens st). \<forall>now' salt' tok' pw'.
        rt_user_id r' = usr_id u \<and> hashed_token r' = sha256 L tok' \<longrightarrow>
        fst (reset_password L now' salt' tok' pw' st2) = st2 \<and>
        (\<exists>c d e. snd (reset_password L now' salt' tok' pw' st2) = Inr (Json_Error c d e)))"
proof -
  obtain r u where ru: "r \<in> set (reset_tokens st)" "hashed_token r = sha256 L tok" "used_at r = None"
    "now < expires_at r" "u \<in> set (users st)" "usr_id u = rt_user_id r" "deleted_at u = None" "is_active u"
    "st1 = consume_tokens now (usr_id u)
             (set_user (usr_id u) (\<lambda>u. u\<lparr>hashed_password := argon_hash L salt pw\<rparr>) st)"
    "validate_password_policy pw = None"
    using reset_success [OF assms(2)] by blast
  have same: "v \<in> set (users st) \<Longrightarrow> (usr_id v = usr_id u) = (v = u)" for v
    using same_id [OF assms(1) _ ru(5)] by auto
  have us: "users st1 = map (\<lambda>v. if v = u then u\<lparr>hashed_password := argon_hash L salt pw\<rparr> else v) (users st)"
    unfolding ru(9) by (auto simp: consume_tokens_def set_user_def same)
  have ok1: "auth_ok st1"
    using good_reset_route [of st L now salt tok pw] assms(1,2) by (simp add: good_step_def)
  have dead: "fst (reset_password L now' salt' tok' pw' st2) = st2 \<and>
      (\<exists>c d e. snd (reset_password L now' salt' tok' pw' st2) = Inr (Json_Error c d e))"
    if r': "r' \<in> set (reset_tokens st)" "rt_user_id r' = usr_id u" "hashed_token r' = sha256 L tok'"
    for r' now' salt' tok' pw'
  proof -
    let ?f = "\<lambda>r. if rt_user_id r = usr_id u \<and> used_at r = None then r\<lparr>used_at := Some now\<rparr> else r"
    have f: "?f r' \<in> set (reset_tokens st1)" using r'(1) unfolding ru(9) by (auto simp: consume_tokens_def set_user_def)
    have used: "used_at (?f r') \<noteq> None" "hashed_token (?f r') = sha256 L tok'" using r' by auto
    have "rows_le token_le (\<lambda>_. True) (reset_tokens st1) (reset_tokens st2)"
      using accounts.reaches_le [OF assms(3) ok1] by (simp add: auth_le_def)
    from rows_leD [OF this f] obtain r2 where r2: "r2 \<in> set (reset_tokens st2)" "token_le (?f r') r2" by blast
    then have "hashed_token r2 = sha256 L tok'" "used_at r2 \<noteq> None"
      using used unfolding token_le_def by simp_all
    with r2(1) show ?thesis using reset_of_used_token accounts.reaches_inv [OF assms(3) ok1] by blast
  qed
  show ?thesis
  proof (rule bexI [OF _ ru(1)], rule bexI [OF _ ru(5)], intro conjI ballI allI impI)
    fix r' now' salt' tok' pw'
    assume "r' \<in> set (reset_tokens st)" "rt_user_id r' = usr_id u \<and> hashed_token r' = sha256 L tok'"
    from dead [OF this(1)] this(2)
    show "fst (reset_password L now' salt' tok' pw' st2) = st2"
      and "\<exists>c d e. snd (reset_password L now' salt' tok' pw' st2) = Inr (Json_Error c d e)"
      by blast+
  qed (rule ru us)+
qed

definition sample_reset :: "auth_state \<times> string reply py" where
  "sample_reset = reset_password sample_libs 5 0 ''tok'' ''New-pass1'' sample_accounts"

lemma sample_reset_succeeds:
  "sample_reset = (fst sample_reset,
     Inr (Reply 200 ''Password has been reset successfully. Please log in with your new password.''))"
  by code_simp

theorem reset_token_single_use_witness:
  "fst (reset_password sample_libs 6 0 ''tok2'' ''New-pass2'' (fst sample_reset)) = fst sample_reset \<and>
   map hashed_password (users (fst sample_reset)) = [''Old-pass1'', ''New-pass1'']"
proof
  let ?r = "\<lparr>rt_user_id = 2, hashed_token = ''tok2'', expires_at = 100, used_at = None\<rparr>"
  have r: "?r \<in> set (reset_tokens sample_accounts)" by (simp add: sample_accounts_def)
  have owner: "r \<in> set (reset_tokens sample_accounts) \<Longrightarrow> rt_user_id r = 2" for r
    by (auto simp: sample_accounts_def)
  have sha: "sha256 sample_libs ''tok2'' = ''tok2''" by (simp add: sample_libs_def)
  from reset_token_single_use [OF sample_accounts_ok sample_reset_succeeds [unfolded sample_reset_def]
      reaches_refl, folded sample_reset_def]
  show "fst (reset_password sample_libs 6 0 ''tok2'' ''New-pass2'' (fst sample_reset)) = fst sample_reset"
    using r owner sha by fastforce
  show "map hashed_password (users (fst sample_reset)) = [''Old-pass1'', ''New-pass1'']"
    by code_simp
qed

subsection \<open>API keys\<close>

lemma revoke_success:
  assumes "revoke_api_key now kid rq st = (st1, Inr x)" "auth_ok st" "k \<in> set (api_keys st)" "key_id k = kid"
  shows "\<exists>k1\<in>set (api_keys st1). key_hash k1 = key_hash k \<and> key_id k1 = kid \<and> is_revoked k1"
proof -
  obtain k0 where k0: "filter (\<lambda>k. key_id k = kid) (api_keys st) = [k0]"
    and st1: "st1 = (if is_revoked k0 then st
        else set_key kid (\<lambda>k. k\<lparr>is_revoked := True, revoked_at := Some now\<rparr>) st)"
    using assms(1) by (auto simp: revoke_api_key_def scalar_one_or_none_Some split: sum.splits option.splits)
  have "k \<in> set (filter (\<lambda>k. key_id k = kid) (api_keys st))" using assms(3,4) by simp
  then have "k0 = k" unfolding k0 by simp
  show ?thesis
  proof (cases "is_revoked k")
    case True
    then show ?thesis using st1 \<open>k0 = k\<close> assms(3,4) by auto
  next
    case False
    then have "k\<lparr>is_revoked := True, revoked_at := Some now\<rparr> \<in> set (api_keys st1)"
      using st1 \<open>k0 = k\<close> assms(3,4) by (force simp: set_key_def)
    then show ?thesis using assms(4)
      by (intro bexI [of _ "k\<lparr>is_revoked := True, revoked_at := Some now\<rparr>"]) simp_all
  qed
qed

text \<open>C20: once a key is revoked, every request that presents it is refused in every later state: the
  API-key provider attaches no user, and unless the query raises, the guard of the routes answers
  401 with the provider's error.\<close>

theorem revoked_key_stays_rejected:
  assumes "auth_ok st" "revoke_api_key now kid rq st = (st1, Inr x)" "k \<in> set (api_keys st)" "key_id k = kid"
    "reaches (auth_step L cfg) st1 st2" "sha256 L raw = key_hash k" "raw \<noteq> []" "st_user rq' = None"
  shows "case snd (api_key_authenticate L True now' (Some raw) rq' st2) of
      Inl e \<Rightarrow> e = Multiple_Results_Found
    | Inr rq2 \<Rightarrow> st_user rq2 = None \<and>
        get_current_user rq2 = Inl (HTTP_Exception 401 ''API key has been revoked.'')"
proof -
  have ok1: "auth_ok st1"
    using good_revoke [of st now kid rq] assms(1,2) by (simp add: good_step_def)
  obtain k1 where k1: "k1 \<in> set (api_keys st1)" "key_hash k1 = key_hash k" "is_revoked k1"
    using revoke_success [OF assms(2,1,3,4)] by blast
  have "rows_le key_le (\<lambda>_. True) (api_keys st1) (api_keys st2)"
    using accounts.reaches_le [OF assms(5) ok1] by (simp add: auth_le_def)
  from rows_leD [OF this k1(1)] obtain k2 where k2: "k2 \<in> set (api_keys st2)" "key_hash k2 = sha256 L raw"
      "is_revoked k2"
    using k1 assms(6) by (auto simp: key_le_def)
  let ?rows = "filter (\<lambda>k. key_hash k = sha256 L raw) (api_keys st2)"
  have "k2 \<in> set ?rows" using k2 by simp
  then consider "?rows = [k2]" | a b cs where "?rows = a # b # cs"
    by (cases ?rows rule: list.exhaust [case_names Nil Cons]; cases "tl ?rows") auto
  then show ?thesis
  proof cases
    case 1
    then show ?thesis using assms(7) k2(3)
      by (cases raw) (auto simp: api_key_authenticate_def scalar_one_or_none_def get_current_user_def)
  next
    case 2
    then show ?thesis using assms(7)
      by (cases raw) (auto simp: api_key_authenticate_def scalar_one_or_none_def)
  qed
qed

definition anonymous :: request_state where
  "anonymous = \<lparr>st_user = None, st_api_key_error = None, st_api_key_id = None, st_auth_type = None\<rparr>"

definition as_root :: request_state where
  "as_root = anonymous\<lparr>st_user := Some (sample_user 1 ''root@x.org'' ''admin'')\<rparr>"

theorem revoked_key_stays_rejected_witness:
  "case snd (api_key_authenticate sample_libs True 9 (Some ''raw'') anonymous
       (fst (revoke_api_key 7 ''k1'' as_root sample_accounts))) of
      Inl e \<Rightarrow> e = Multiple_Results_Found
    | Inr rq2 \<Rightarrow> st_user rq2 = None \<and>
        get_current_user rq2 = Inl (HTTP_Exception 401 ''API key has been revoked.'')"
proof -
  let ?k = "hd (api_keys sample_accounts)"
  have "revoke_api_key 7 ''k1'' as_root sample_accounts =
      (fst (revoke_api_key 7 ''k1'' as_root sample_accounts), Inr ''k1'')"
    by code_simp
  then show ?thesis
    by (rule revoked_key_stays_rejected [OF sample_accounts_ok _ _ _ reaches_refl, of _ _ _ _ _ ?k])
      (simp_all add: sample_accounts_def sample_libs_def anonymous_def)
qed

subsection \<open>Logging in\<close>

text \<open>What the JWT library documents: decoding, with the same key, algorithm, issuer and audience, a
  token that is issued by now and not expired gives back its claims; and an encoded token is a
  non-empty text without white space.\<close>

definition jwt_roundtrip :: "libs \<Rightarrow> bool" where
  "jwt_roundtrip L \<longleftrightarrow> (\<forall>now sub rl mins iss aud key alg t.
     key \<noteq> [] \<and> now \<le> t \<and> t div 1000000 < (now + mins * 60000000) div 1000000 \<longrightarrow>
     jwt_decode L t (jwt_encode L (token_claims now sub rl mins iss aud) key alg) key [alg] iss aud =
       Decoded (token_claims now sub rl mins iss aud))"

definition jwt_compact :: "libs \<Rightarrow> bool" where
  "jwt_compact L \<longleftrightarrow> (\<forall>claims key alg. jwt_encode L claims key alg \<noteq> [] \<and>
     (\<forall>c\<in>set (jwt_encode L claims key alg). \<not> is_space c))"

lemma bearer_words:
  assumes "tok \<noteq> []" "\<forall>c\<in>set tok. \<not> is_space c"
  shows "str_words (''Bearer '' @ tok) = [''Bearer'', tok]"
proof -
  obtain c cs where tok: "tok = c # cs" using assms(1) by (cases tok) auto
  have c: "\<not> is_space c" and t: "takeWhile (\<lambda>x. \<not> is_space x) cs = cs"
    and d: "dropWhile (\<lambda>x. \<not> is_space x) cs = []"
    using assms(2) by (auto simp: tok takeWhile_eq_all_conv dropWhile_eq_Nil_conv)
  have nil: "str_words [] = []" by (simp add: str_words.simps)
  have "str_words tok = [tok]"
    unfolding tok by (subst str_words.simps) (simp add: c t d nil)
  moreover have "str_words (CHR '' '' # tok) = str_words tok"
    by (simp add: str_words.simps [of "CHR '' '' # tok"] str_words.simps [of tok] is_space_def char_code_def)
  ultimately show ?thesis
    by (subst str_words.simps) (simp add: is_space_def char_code_def)
qed

lemma login_success:
  assumes "auth_ok st" "login L cfg now e pw st = (st1, Inr (Reply code tr))"
  obtains u where "u \<in> set (users st)" "email u = norm_email e" "deleted_at u = None" "is_active u" "is_verified u"
    "verify_password L pw (hashed_password u)"
    "create_access_token L cfg now (usr_id u) (role u) None None None None None = Inr (access_token tr)"
proof -
  obtain u where u: "get_user_by_email st e False = Inr (Some u)"
    "is_active u" "is_verified u" "verify_password L pw (hashed_password u)"
    "create_access_token L cfg now (usr_id u) (role u) None None None None None = Inr (access_token tr)"
    using assms(2) by (auto simp: login_def py_bind_Inr_iff split: sum.splits option.splits if_splits)
  then show thesis using user_lookup(2) [OF assms(1)] that by blast
qed

lemma token_accepted:
  assumes "jwt_roundtrip L" "jwt_compact L" "usr_id u < 2 ^ 128"
    and tok: "create_access_token L cfg now (usr_id u) rl None None None None None = Inr tok"
    and "prometheus_metrics_token cfg \<noteq> Some tok"
    and t: "now \<le> t" "t div 1000000 < (now + jwt_expiry_minutes cfg * 60000000) div 1000000"
    and st: "auth_ok st" "u \<in> set (users st)" "deleted_at u = None" "is_active u" "is_verified u"
  shows "jwt_authenticate L cfg True t (Some (''Bearer '' @ tok)) rq st = Inr (rq\<lparr>st_user := Some u\<rparr>)"
proof -
  let ?claims = "token_claims now (uuid_str (usr_id u)) rl (jwt_expiry_minutes cfg) (jwt_issuer cfg) (jwt_audience cfg)"
  have key: "signing_key cfg None \<noteq> []"
    and enc: "tok = jwt_encode L ?claims (signing_key cfg None) (jwt_algorithm cfg)"
    using tok by (auto simp: create_access_token_def Let_def or_text_def or_int_def split: if_splits)
  have dec: "decode_access_token L cfg t tok None = Inr (Decoded ?claims)"
    using assms(1) key t unfolding decode_access_token_def enc by (simp add: jwt_roundtrip_def)
  have "get_user_by_id st (usr_id u) False = Inr (Some u)" using user_lookup(1) st by blast
  moreover have "uuid_str (usr_id u) \<noteq> []" by (simp add: uuid_str_def Let_def)
  ultimately have "token_user True ?claims st = Inr u"
    using uuid_parse_str [OF assms(3)] st
    by (simp add: token_user_def token_claims_def json_get_def)
  moreover have "str_words (''Bearer '' @ tok) = [''Bearer'', tok]"
    using assms(2) unfolding enc by (intro bearer_words) (auto simp: jwt_compact_def)
  moreover have "str_lower ''Bearer'' = ''bearer''" by code_simp
  ultimately show ?thesis
    using dec assms(5) by (simp add: jwt_authenticate_def)
qed

text \<open>C21: a login is granted only to an existing, active, verified account whose stored hash accepts
  the password; and as long as the token has not expired and the account is neither deleted nor
  deactivated, the token authenticates as that account, with the role it has then, and passes the
  guard of the routes.\<close>

theorem login_authenticates:
  assumes "jwt_roundtrip L" "jwt_compact L" "auth_ok st" "\<forall>u\<in>set (users st). usr_id u < 2 ^ 128"
    "login L cfg now e pw st = (st1, Inr (Reply code tr))"
    "prometheus_metrics_token cfg \<noteq> Some (access_token tr)" "st_api_key_error rq = None"
  shows "\<exists>u\<in>set (users st). email u = norm_email e \<and> deleted_at u = None \<and> is_active u \<and> is_verified u \<and>
     verify_password L pw (hashed_password u) \<and>
     (\<forall>st2 t. \<forall>u2\<in>set (users st2). reaches (auth_step L cfg) st1 st2 \<and> usr_id u2 = usr_id u \<and> is_active u2 \<and>
        deleted_at u2 = None \<and> now \<le> t \<and>
        t div 1000000 < (now + jwt_expiry_minutes cfg * 60000000) div 1000000 \<longrightarrow>
        jwt_authenticate L cfg True t (Some (''Bearer '' @ access_token tr)) rq st2 =
          Inr (rq\<lparr>st_user := Some u2\<rparr>) \<and>
        get_current_active_user (rq\<lparr>st_user := Some u2\<rparr>) = Inr u2 \<and> role u2 = role u)"
proof -
  obtain u where u: "u \<in> set (users st)" "email u = norm_email e" "deleted_at u = None" "is_active u" "is_verified u"
    "verify_password L pw (hashed_password u)"
    "create_access_token L cfg now (usr_id u) (role u) None None None None None = Inr (access_token tr)"
    using login_success [OF assms(3,5)] by blast
  have s1: "auth_step L cfg st st1" using logs_in [of L cfg st now e pw] assms(5) by simp
  have later: "jwt_authenticate L cfg True t (Some (''Bearer '' @ access_token tr)) rq st2 = Inr (rq\<lparr>st_user := Some u2\<rparr>) \<and>
        get_current_active_user (rq\<lparr>st_user := Some u2\<rparr>) = Inr u2 \<and> role u2 = role u"
    if u2: "u2 \<in> set (users st2)" "reaches (auth_step L cfg) st1 st2" "usr_id u2 = usr_id u" "is_active u2"
        "deleted_at u2 = None" and t: "now \<le> t" "t div 1000000 < (now + jwt_expiry_minutes cfg * 60000000) div 1000000"
    for st2 t u2
  proof -
    have r: "reaches (auth_step L cfg) st st2"
      using reaches_trans [OF reaches_step [where step = "auth_step L cfg", OF reaches_refl s1] u2(2)] .
    note ok2 = accounts.reaches_inv [OF r assms(3)]
    have "rows_le user_le (\<lambda>u. role u = role_user) (users st) (users st2)"
      using accounts.reaches_le [OF r assms(3)] by (simp add: auth_le_def)
    from rows_leD [OF this u(1)] obtain v where v: "v \<in> set (users st2)" "user_le u v" by blast
    then have "v = u2" using same_id [OF ok2 _ u2(1)] u2(3) by (simp add: user_le_def)
    then have ver: "is_verified u2" and rl: "role u2 = role u" using v(2) u(5) by (auto simp: user_le_def)
    have "usr_id u2 < 2 ^ 128" using assms(4) u(1) u2(3) by simp
    from token_accepted [OF assms(1,2) this _ assms(6) t ok2 u2(1,5,4) ver, of "role u"] u(7) u2(3)
    have "jwt_authenticate L cfg True t (Some (''Bearer '' @ access_token tr)) rq st2 = Inr (rq\<lparr>st_user := Some u2\<rparr>)"
      by simp
    moreover have "get_current_active_user (rq\<lparr>st_user := Some u2\<rparr>) = Inr u2"
      using assms(7) u2(4) ver by (simp add: get_current_active_user_def get_current_user_def)
    ultimately show ?thesis using rl by blast
  qed
  show ?thesis
    by (rule bexI [OF _ u(1)], intro conjI allI ballI impI) (use u later in blast)+
qed

text \<open>A token library with the documented behaviour: a token numbers its claims, key and algorithm.\<close>

instance json :: countable
  by countable_datatype

definition toy_encode :: "json \<Rightarrow> string \<Rightarrow> string \<Rightarrow> string" where
  "toy_encode payload key alg = replicate (Suc (to_nat (payload, key, alg))) CHR ''x''"

definition toy_decode :: "int \<Rightarrow> string \<Rightarrow> string \<Rightarrow> string list \<Rightarrow> string \<Rightarrow> string \<Rightarrow> jwt_result" where
  "toy_decode t tok key algs iss aud =
     (case from_nat (length tok - 1) of (payload, k, alg) \<Rightarrow>
        if k \<noteq> key \<or> alg \<notin> set algs \<or> json_get payload ''iss'' \<noteq> Inr (JStr iss) \<or>
           json_get payload ''aud'' \<noteq> Inr (JStr aud) then Invalid_Token
        else (case json_get payload ''exp'' of
                Inr (JInt x) \<Rightarrow> if t div 1000000 < x then Decoded payload else Expired_Signature
              | _ \<Rightarrow> Invalid_Token))"

definition toy_libs :: libs where
  "toy_libs = sample_libs\<lparr>jwt_encode := toy_encode, jwt_decode := toy_decode\<rparr>"

lemma toy_laws: "jwt_roundtrip toy_libs" "jwt_compact toy_libs"
  by (auto simp: jwt_roundtrip_def jwt_compact_def toy_libs_def toy_encode_def toy_decode_def token_claims_def
      json_get_def is_space_def char_code_def)

theorem login_authenticates_witness:
  "\<exists>u\<in>set (users sample_accounts). usr_id u = 2 \<and>
     (\<exists>st1 tr. login toy_libs sample_settings 5 ''Ann@x.org '' ''Old-pass1'' sample_accounts = (st1, Inr (Reply 200 tr)) \<and>
       (\<exists>u2. jwt_authenticate toy_libs sample_settings True 6 (Some (''Bearer '' @ access_token tr)) anonymous st1 =
          Inr (anonymous\<lparr>st_user := Some u2\<rparr>) \<and> usr_id u2 = 2))"
proof -
  have mail: "norm_email ''Ann@x.org '' = ''ann@x.org''" by code_simp
  let ?run = "login toy_libs sample_settings 5 ''Ann@x.org '' ''Old-pass1'' sample_accounts"
  have st1: "fst ?run = set_user 2 (\<lambda>u. u\<lparr>last_login_at := Some 5\<rparr>) sample_accounts"
    and ok: "\<exists>tr. snd ?run = Inr (Reply 200 tr)"
    by (auto simp: login_def mail get_user_by_email_def get_user_by_id_def scalar_one_or_none_def
        sample_accounts_def sample_user_def verify_password_def toy_libs_def sample_libs_def
        update_last_login_def create_access_token_def signing_key_def or_text_def sample_settings_def)
  then obtain tr where run: "?run = (fst ?run, Inr (Reply 200 tr))" by (metis prod.collapse)
  let ?u2 = "(sample_user 2 ''ann@x.org'' ''researcher'')\<lparr>last_login_at := Some 5\<rparr>"
  have u2: "?u2 \<in> set (users (fst ?run))"
    unfolding st1 by (simp add: set_user_def sample_accounts_def sample_user_def)
  have ids: "\<forall>u\<in>set (users sample_accounts). usr_id u < 2 ^ 128"
    by (simp add: sample_accounts_def sample_user_def)
  have "prometheus_metrics_token sample_settings \<noteq> Some (access_token tr)" "st_api_key_error anonymous = None"
    by (simp_all add: sample_settings_def anonymous_def)
  from login_authenticates [OF toy_laws sample_accounts_ok ids run this] show ?thesis
  proof (elim bexE conjE)
    fix u
    assume u: "u \<in> set (users sample_accounts)" "email u = norm_email ''Ann@x.org ''"
      and later: "\<forall>st2 t. \<forall>u2\<in>set (users st2). reaches (auth_step toy_libs sample_settings) (fst ?run) st2 \<and>
        usr_id u2 = usr_id u \<and> is_active u2 \<and> deleted_at u2 = None \<and> 5 \<le> t \<and>
        t div 1000000 < (5 + jwt_expiry_minutes sample_settings * 60000000) div 1000000 \<longrightarrow>
        jwt_authenticate toy_libs sample_settings True t (Some (''Bearer '' @ access_token tr)) anonymous st2 =
          Inr (anonymous\<lparr>st_user := Some u2\<rparr>) \<and>
        get_current_active_user (anonymous\<lparr>st_user := Some u2\<rparr>) = Inr u2 \<and> role u2 = role u"
    have two: "usr_id u = 2" "usr_id ?u2 = 2" using u by (auto simp: mail sample_accounts_def sample_user_def)
    have accepted: "jwt_authenticate toy_libs sample_settings True 6 (Some (''Bearer '' @ access_token tr)) anonymous
        (fst ?run) = Inr (anonymous\<lparr>st_user := Some ?u2\<rparr>)"
    proof (rule later [rule_format, OF u2, THEN conjunct1], intro conjI)
      show "reaches (auth_step toy_libs sample_settings) (fst ?run) (fst ?run)" by (rule reaches_refl)
    qed (simp_all add: two sample_user_def sample_settings_def)
    show ?thesis
      by (intro bexI [OF _ u(1)] conjI exI, rule two(1), rule run, rule accepted, rule two(2))
  qed
qed

subsection \<open>Observed behaviour\<close>

text \<open>The address of a deleted account cannot register again: the duplicate check passes over deleted
  rows, the unique column does not.\<close>

lemma deleted_address_raises:
  "snd (register sample_libs 9 7 0 ''t'' ''ann@x.org'' ''New-pass1'' None (fst (soft_delete_user 5 2 sample_accounts))) =
     Inl Integrity_Error"
  by code_simp

text \<open>Revoked keys are listed.\<close>

lemma revoked_key_listed:
  "map_sum id (map key_id) (list_api_keys as_root (fst (revoke_api_key 7 ''k1'' as_root sample_accounts))) = Inr [''k1'']"
  by code_simp

end
