(* ===== verification/Rate_Limit.thy ===== *)
theory Rate_Limit
  imports Events
begin

text \<open>
  The Redis token bucket (\<open>gateway/rate_limiter_redis.py\<close>): the Lua script over binary64
  numbers with the expiry of its key, the identity, scope and quota of a request, and the check
  with its fail-open behaviour; and the rate limiter protocol with its stub
  (\<open>gateway/rate_limit_stub.py\<close>). Redis prints and reads numbers without loss. Times are in
  seconds; \<open>rnow\<close> is the clock of the Redis server, which expires keys.
\<close>

section \<open>The script\<close>

record bucket =
  tokens :: flt
  last_updated :: flt
  expires :: "rat option"

type_synonym bucket_store = "(string, bucket) dict"

definition live_bucket :: "rat \<Rightarrow> string \<Rightarrow> bucket_store \<Rightarrow> bucket option" where
  "live_bucket rnow key bs =
     (case dict_get bs key of None \<Rightarrow> None
      | Some b \<Rightarrow> (case expires b of None \<Rightarrow> Some b | Some t \<Rightarrow> if rnow < t then Some b else None))"

text \<open>The tokens available now: a missing bucket is full, an existing one is refilled.\<close>

definition refilled :: "flt \<Rightarrow> flt \<Rightarrow> flt \<Rightarrow> bucket option \<Rightarrow> flt" where
  "refilled cap rate now b =
     (case b of None \<Rightarrow> cap
      | Some b \<Rightarrow> (let delta = max 0 (fsub now (last_updated b))
                  in min cap (fadd (tokens b) (fmul delta rate))))"

text \<open>\<open>EXPIRE\<close>: a time to live of zero or less removes the key.\<close>

definition set_expiry :: "rat \<Rightarrow> int \<Rightarrow> string \<Rightarrow> bucket_store \<Rightarrow> bucket_store" where
  "set_expiry rnow ttl key bs =
     (if ttl \<le> 0 then filter (\<lambda>(k, _). k \<noteq> key) bs
      else case dict_get bs key of None \<Rightarrow> bs
           | Some b \<Rightarrow> dict_set key (b\<lparr>expires := Some (rnow + of_int ttl)\<rparr>) bs)"

text \<open>
  The script, with its reply: allowed, tokens, and the seconds to wait, where \<open>None\<close> is the
  infinity of a division by a zero refill rate. That infinity as a time to live is an error of
  \<open>EXPIRE\<close>, after the bucket has been written.
\<close>

definition token_bucket ::
    "flt \<Rightarrow> flt \<Rightarrow> flt \<Rightarrow> flt \<Rightarrow> rat \<Rightarrow> string \<Rightarrow> bucket_store \<Rightarrow>
     bucket_store \<times> (bool \<times> flt \<times> int option) py" where
  "token_bucket cap rate now cost rnow key bs =
     (let b = live_bucket rnow key bs;
          avail = refilled cap rate now b
      in if avail \<ge> cost then
           (let left = fsub avail cost;
                expiry = (case b of None \<Rightarrow> None | Some b \<Rightarrow> expires b);
                bs1 = dict_set key \<lparr>tokens = left, last_updated = now, expires = expiry\<rparr> bs
            in if rate = 0 then (bs1, Inl (Other_Error ''value is not an integer or out of range''))
               else (set_expiry rnow \<lceil>fdiv cap rate\<rceil> key bs1, Inr (True, left, Some 0)))
         else (bs, Inr (False, avail,
                 if rate = 0 then None else Some \<lceil>fdiv (fsub cost avail) rate\<rceil>)))"

section \<open>Requests\<close>

record principal =
  user_id :: string
  user_role :: string

record request =
  path :: string
  http_method :: string
  api_key_id :: "string option"
  req_user :: "principal option"
  x_forwarded_for :: "string option"
  client_host :: "string option"

definition EXCLUDED_PATH_PREFIXES :: "string list" where
  "EXCLUDED_PATH_PREFIXES = [''/health'', ''/api/v1/health'', ''/docs'', ''/openapi.json'', ''/redoc'']"

definition extract_identity_and_role :: "request \<Rightarrow> string \<times> string" where
  "extract_identity_and_role r =
     (case api_key_id r of
        Some k \<Rightarrow> (''api_key:'' @ k,
          case req_user r of None \<Rightarrow> ''authenticated'' | Some u \<Rightarrow> user_role u)
      | None \<Rightarrow>
          (case req_user r of
             Some u \<Rightarrow> (''user:'' @ user_id u, user_role u)
           | None \<Rightarrow>
               (''ip:'' @ (case x_forwarded_for r of
                    Some (c # cs) \<Rightarrow> str_strip (hd (str_split_char CHR '','' (c # cs)))
                  | _ \<Rightarrow> (case client_host r of Some (c # cs) \<Rightarrow> c # cs | _ \<Rightarrow> ''unknown'')),
                ''public'')))"

definition resolve_scope :: "request \<Rightarrow> string" where
  "resolve_scope r =
     (if api_key_id r \<noteq> None then ''api_key''
      else if path r = ''/api/v1/auth/request-reset'' then ''password_reset''
      else if starts_with (path r) ''/api/v1/research'' then ''research_api''
      else if starts_with (path r) ''/api/v1/investigations'' then
        (if http_method r = ''POST'' then ''submit_investigation'' else ''investigations'')
      else if starts_with (path r) ''/api/v1/auth'' then ''auth''
      else ''api'')"

record limiter_settings =
  enable_rate_limiting :: bool
  rate_limit_requests_per_minute :: int
  rate_limit_burst :: int
  password_reset_rate_limit_requests :: int
  password_reset_rate_limit_window_seconds :: int
  research_api_rate_limit :: string

definition get_quota_for_role :: "limiter_settings \<Rightarrow> string \<Rightarrow> int \<times> int" where
  "get_quota_for_role cfg role =
     (let rpm = rate_limit_requests_per_minute cfg; burst = rate_limit_burst cfg; rl = str_lower role
      in if rl = ''admin'' then (rpm * 10, burst * 5)
         else if rl = ''researcher'' then (rpm * 3, burst * 2)
         else if rl = ''user'' \<or> rl = ''authenticated'' then (rpm, burst)
         else (min rpm 10, min burst 5))"

text \<open>Capacity and refill rate for a scope; \<open>str_int\<close> is \<open>int(s)\<close> on text.\<close>

definition bucket_parameters ::
    "(string \<Rightarrow> int option) \<Rightarrow> limiter_settings \<Rightarrow> string \<Rightarrow> string \<Rightarrow> flt \<times> flt" where
  "bucket_parameters str_int cfg scope role =
     (if scope = ''password_reset'' then
        (of_int (max 1 (password_reset_rate_limit_requests cfg)),
         fl64 (of_int (password_reset_rate_limit_requests cfg) /
               fl64 (of_int (max 1 (password_reset_rate_limit_window_seconds cfg)))))
      else if scope = ''research_api'' then
        (let rpm = (case str_int (hd (str_split_char CHR ''/'' (research_api_rate_limit cfg))) of
                      None \<Rightarrow> 60 | Some n \<Rightarrow> n)
         in (of_int (max 1 rpm), fl64 (of_int rpm / 60)))
      else
        (case get_quota_for_role cfg role of (rpm, burst) \<Rightarrow>
           (of_int (max 1 burst), fl64 (of_int rpm / 60))))"

section \<open>The check\<close>

definition excluded :: "string \<Rightarrow> bool" where
  "excluded p \<longleftrightarrow> p = ''/'' \<or>
     list_ex (\<lambda>pre. p = pre \<or> starts_with p (pre @ ''/'')) EXCLUDED_PATH_PREFIXES"

text \<open>What Redis does with a request: down, the script unknown (so that the fallback sends it), or
  available.\<close>

datatype redis_mode = Down | Script_Flushed | Up

definition run_script ::
    "redis_mode \<Rightarrow> (bucket_store \<Rightarrow> bucket_store \<times> 'r py) \<Rightarrow> bucket_store \<Rightarrow> bucket_store \<times> 'r py" where
  "run_script mode script bs =
     (case mode of
        Down \<Rightarrow> (bs, Inl (Other_Error ''ConnectionError''))
      | Script_Flushed \<Rightarrow> script bs
      | Up \<Rightarrow> (case script bs of (bs1, Inl e) \<Rightarrow> script bs1 | r \<Rightarrow> r))"

definition check ::
    "(string \<Rightarrow> int option) \<Rightarrow> limiter_settings \<Rightarrow> redis_mode \<Rightarrow> flt \<Rightarrow> rat \<Rightarrow> request \<Rightarrow> bucket_store \<Rightarrow>
     bucket_store \<times> unit py" where
  "check str_int cfg mode now rnow r bs =
     (if excluded (path r) then (bs, Inr ())
      else if \<not> enable_rate_limiting cfg then (bs, Inr ())
      else
        (let (identifier, role) = extract_identity_and_role r;
             scope = resolve_scope r;
             key = rate_limit_key identifier scope;
             (cap, rate) = bucket_parameters str_int cfg scope role
         in case run_script mode (token_bucket cap rate now 1 rnow key) bs of
              (bs', Inl _) \<Rightarrow> (bs', Inr ())
            | (bs', Inr (True, _, _)) \<Rightarrow> (bs', Inr ())
            | (bs', Inr (False, _, None)) \<Rightarrow> (bs', Inr ())
            | (bs', Inr (False, _, Some wait)) \<Rightarrow>
                (bs', Inl (HTTP_Exception 429 (''Retry-After: '' @ int_str (max 1 wait))))))"

section \<open>The protocol\<close>

text \<open>What the gateway relies on: a limiter either permits a request or raises a 429 that names when
  to retry.\<close>

locale rate_limiter =
  fixes chk :: "'r \<Rightarrow> 's \<Rightarrow> 's \<times> unit py"
  assumes only_429: "chk r s = (s', Inl e) \<Longrightarrow> \<exists>n\<ge>1. e = HTTP_Exception 429 (''Retry-After: '' @ int_str n)"
begin

lemma permitted_or_429:
  "snd (chk r s) = Inr () \<or> (\<exists>n\<ge>1. snd (chk r s) = Inl (HTTP_Exception 429 (''Retry-After: '' @ int_str n)))"
proof (cases "chk r s")
  case (Pair s' res)
  then show ?thesis using only_429 [of r s s'] by (cases res) auto
qed

lemma never_other_status:
  "snd (chk r s) = Inl (HTTP_Exception code d) \<Longrightarrow> code = 429"
  using permitted_or_429 [of r s] by auto

end

definition stub_check :: "request \<Rightarrow> bucket_store \<Rightarrow> bucket_store \<times> unit py" where
  "stub_check r bs = (bs, Inr ())"

interpretation stub: rate_limiter stub_check
  by unfold_locales (simp add: stub_check_def)

interpretation redis_limiter: rate_limiter "check str_int cfg mode now rnow"
    for str_int cfg mode now rnow
  by unfold_locales
    (auto simp: check_def Let_def split: if_splits prod.splits sum.splits bool.splits option.splits,
      metis max.cobounded1)

section \<open>How many requests pass\<close>

text \<open>Repeated runs of the script on one key at given times, counting the allowed ones.\<close>

fun bucket_run :: "flt \<Rightarrow> flt \<Rightarrow> string \<Rightarrow> bucket_store \<Rightarrow> flt list \<Rightarrow> nat" where
  "bucket_run cap rate key bs [] = 0"
| "bucket_run cap rate key bs (t # ts) =
     (case token_bucket cap rate t 1 t key bs of
        (bs', Inr (True, _, _)) \<Rightarrow> Suc (bucket_run cap rate key bs' ts)
      | (bs', _) \<Rightarrow> bucket_run cap rate key bs' ts)"

text \<open>The level of the ideal bucket, over the rationals and without expiry.\<close>

definition level :: "flt \<Rightarrow> flt \<Rightarrow> rat \<Rightarrow> bucket option \<Rightarrow> rat" where
  "level cap rate t b =
     (case b of None \<Rightarrow> cap | Some b \<Rightarrow> min cap (tokens b + rate * (t - last_updated b)))"

definition eps :: rat where
  "eps = 1 / 2 ^ 53"

definition bucket_ok :: "flt \<Rightarrow> flt \<Rightarrow> rat \<Rightarrow> bucket option \<Rightarrow> bool" where
  "bucket_ok cap rate t b \<longleftrightarrow>
     (case b of None \<Rightarrow> True
      | Some b \<Rightarrow> 0 \<le> tokens b \<and> tokens b \<le> cap \<and> last_updated b \<le> t \<and>
          (\<exists>e. expires b = Some e \<and> last_updated b + cap / rate * (1 - eps) \<le> e))"

lemma eps_bounds: "0 < eps" "eps \<le> 1/1000" "eps * eps \<le> eps / 1000"
  by (simp_all add: eps_def)

lemma fl64_eps: "0 \<le> x \<Longrightarrow> \<bar>fl64 x - x\<bar> \<le> x * eps"
  using fl64_error [of x] by (simp add: eps_def)

lemma fl64_le: "0 \<le> x \<Longrightarrow> fl64 x \<le> x * (1 + eps)"
  using fl64_eps [of x] by (simp add: distrib_left)

lemma fl64_ge: "0 \<le> x \<Longrightarrow> x * (1 - eps) \<le> fl64 x"
  using fl64_eps [of x] by (simp add: right_diff_distrib)

lemma level_bounds:
  "0 \<le> cap \<Longrightarrow> 0 \<le> rate \<Longrightarrow> bucket_ok cap rate t b \<Longrightarrow> 0 \<le> level cap rate t b \<and> level cap rate t b \<le> cap"
  by (auto simp: level_def bucket_ok_def split: option.splits)

lemma level_later:
  assumes "t \<le> t'" "0 \<le> rate"
  shows "level cap rate t' b \<le> level cap rate t b + rate * (t' - t)"
proof (cases b)
  case (Some bk)
  have "tokens bk + rate * (t' - last_updated bk) = tokens bk + rate * (t - last_updated bk) + rate * (t' - t)"
    by (simp add: algebra_simps)
  moreover have "0 \<le> rate * (t' - t)" using assms by simp
  ultimately show ?thesis using Some by (simp add: level_def min_def)
qed (use assms in \<open>simp add: level_def\<close>)

lemma bucket_ok_later: "t \<le> t' \<Longrightarrow> bucket_ok cap rate t b \<Longrightarrow> bucket_ok cap rate t' b"
  by (auto simp: bucket_ok_def split: option.splits)

text \<open>Rounding can only add a few units in the last place to the refilled level.\<close>

lemma refill_error:
  assumes pos: "0 < cap" "0 < rate" and tok: "0 \<le> tk" "tk \<le> cap" and d: "0 \<le> d" "tk + rate * d < cap"
  shows "fadd tk (fmul (max 0 (fl64 d)) rate) \<le> tk + rate * d + 4 * cap * eps"
proof -
  have x: "0 \<le> fl64 d" "fl64 d \<le> d * (1 + eps)" using d by (auto simp: b64.rnd_nonneg fl64_le)
  let ?p = "rate * d"
  have p: "0 \<le> ?p" "?p \<le> cap" using pos d tok by auto
  have "fl64 d * rate \<le> ?p * (1 + eps)"
    using mult_right_mono [OF x(2), of rate] pos by (simp add: algebra_simps)
  moreover have y0: "0 \<le> fl64 d * rate" using x pos by simp
  ultimately have "fl64 (fl64 d * rate) \<le> ?p * (1 + eps) * (1 + eps)"
    using order_trans [OF fl64_le [OF y0] mult_right_mono] eps_bounds(1) by simp
  moreover have "?p * (1 + eps) * (1 + eps) = ?p + ?p * (2 * eps + eps * eps)"
    by (simp add: algebra_simps)
  moreover have "?p * (2 * eps + eps * eps) \<le> cap * (2 * eps + eps * eps)"
    using p eps_bounds by (intro mult_right_mono) auto
  ultimately have y: "fl64 (fl64 d * rate) \<le> ?p + cap * (2 * eps + eps * eps)" by linarith
  let ?y = "fl64 (fl64 d * rate)"
  have "0 \<le> ?y" using y0 by (rule b64.rnd_nonneg)
  then have s0: "0 \<le> tk + ?y" using tok by simp
  have s: "tk + ?y \<le> tk + ?p + cap * (2 * eps + eps * eps)" using y by simp
  then have "tk + ?y \<le> cap + cap * (2 * eps + eps * eps)" using d by linarith
  then have "(tk + ?y) * eps \<le> (cap + cap * (2 * eps + eps * eps)) * eps"
    using eps_bounds(1) by (intro mult_right_mono) auto
  moreover have "(cap + cap * (2 * eps + eps * eps)) * eps + cap * (2 * eps + eps * eps) \<le> 4 * cap * eps"
  proof -
    have "(1 + (2 * eps + eps * eps)) * eps + (2 * eps + eps * eps) \<le> 4 * eps"
      by (simp add: eps_def)
    then have "cap * ((1 + (2 * eps + eps * eps)) * eps + (2 * eps + eps * eps)) \<le> cap * (4 * eps)"
      using pos by (intro mult_left_mono) auto
    then show ?thesis by (simp add: algebra_simps)
  qed
  moreover have "fl64 (tk + ?y) \<le> tk + ?y + (tk + ?y) * eps"
    using fl64_le [OF s0] by (simp add: algebra_simps)
  ultimately have "fl64 (tk + ?y) \<le> tk + ?p + 4 * cap * eps" using s by linarith
  then show ?thesis using x(1) by (simp add: flt_defs)
qed

lemma refilled_level:
  assumes pos: "0 < cap" "0 < rate" and ok: "bucket_ok cap rate t (dict_get bs key)"
  shows "refilled cap rate t (live_bucket t key bs) \<le> level cap rate t (dict_get bs key) + 4 * cap * eps \<and>
    refilled cap rate t (live_bucket t key bs) \<le> cap"
proof (cases "dict_get bs key")
  case None
  then show ?thesis using pos eps_bounds by (simp add: live_bucket_def refilled_def level_def)
next
  case (Some b)
  obtain e where b: "0 \<le> tokens b" "tokens b \<le> cap" "last_updated b \<le> t" "expires b = Some e"
    "last_updated b + cap / rate * (1 - eps) \<le> e"
    using ok Some by (auto simp: bucket_ok_def)
  show ?thesis
  proof (cases "t < e")
    case True
    then have live: "live_bucket t key bs = Some b" using Some b by (simp add: live_bucket_def)
    show ?thesis
    proof (cases "tokens b + rate * (t - last_updated b) < cap")
      case small: True
      then show ?thesis
        using refill_error [OF pos b(1,2) _ small] b(3) Some live
        by (auto simp: refilled_def level_def Let_def flt_defs)
    next
      case False
      then have "level cap rate t (Some b) = cap" by (simp add: level_def)
      moreover have "refilled cap rate t (Some b) \<le> cap" by (simp add: refilled_def Let_def)
      moreover have "0 \<le> 4 * cap * eps" using pos eps_bounds by simp
      ultimately have "refilled cap rate t (Some b) \<le> level cap rate t (Some b) + 4 * cap * eps \<and>
          refilled cap rate t (Some b) \<le> cap" by linarith
      then show ?thesis by (simp only: Some live)
    qed
  next
    case False
    then have "cap / rate * (1 - eps) \<le> t - last_updated b" using b(5) by linarith
    then have "rate * (cap / rate * (1 - eps)) \<le> rate * (t - last_updated b)"
      using pos by (intro mult_left_mono) auto
    moreover have "rate * (cap / rate * (1 - eps)) = cap - cap * eps" using pos by (simp add: right_diff_distrib)
    ultimately have "cap - cap * eps \<le> rate * (t - last_updated b)" by simp
    moreover have "0 \<le> cap * eps" using pos eps_bounds by simp
    ultimately have "cap \<le> min cap (tokens b + rate * (t - last_updated b)) + 4 * cap * eps"
      using b(1) unfolding min_def by (auto simp: mult.commute)
    then show ?thesis using Some b False by (simp add: live_bucket_def refilled_def level_def)
  qed
qed

lemma dict_get_set_expiry:
  "0 < ttl \<Longrightarrow> dict_get bs key = Some b \<Longrightarrow>
     dict_get (set_expiry rnow ttl key bs) key = Some (b\<lparr>expires := Some (rnow + of_int ttl)\<rparr>)"
  by (simp add: set_expiry_def dict_simps)

text \<open>One run: denied runs leave the bucket alone, allowed ones lower its level by one, up to
  rounding.\<close>

lemma token_bucket_step:
  assumes pos: "1 \<le> cap" "0 < rate" "fl64 cap = cap"
    and ok: "bucket_ok cap rate t (dict_get bs key)"
    and run: "token_bucket cap rate t 1 t key bs = (bs', r)"
  shows "\<exists>a x w. r = Inr (a, x, w) \<and> bucket_ok cap rate t (dict_get bs' key) \<and>
    level cap rate t (dict_get bs' key) + (if a then 1 - 5 * cap * eps else 0) \<le> level cap rate t (dict_get bs key)"
proof -
  define av where "av = refilled cap rate t (live_bucket t key bs)"
  have av: "av \<le> level cap rate t (dict_get bs key) + 4 * cap * eps" "av \<le> cap"
    using refilled_level [of cap rate t bs key] pos ok by (auto simp: av_def)
  show ?thesis
  proof (cases "1 \<le> av")
    case False
    then show ?thesis using run pos ok by (auto simp: token_bucket_def Let_def av_def)
  next
    case True
    let ?left = "fl64 (av - 1)"
    let ?ttl = "\<lceil>fl64 (cap / rate)\<rceil>"
    have q: "0 < cap / rate" using pos by simp
    then have "0 < fl64 (cap / rate)" by (rule fl64_pos)
    then have ttl: "0 < ?ttl" by simp
    have exp: "cap / rate * (1 - eps) \<le> of_int ?ttl"
      using fl64_ge [of "cap / rate"] q by (meson le_of_int_ceiling less_imp_le order_trans)
    have left: "0 \<le> ?left" "?left \<le> cap" "?left \<le> av - 1 + cap * eps"
    proof -
      show "0 \<le> ?left" using True by (simp add: b64.rnd_nonneg)
      show "?left \<le> cap" using av(2) pos(3) by (intro b64.rnd_le_repr) auto
      have "(av - 1) * eps \<le> cap * eps" using av(2) eps_bounds(1) by (intro mult_right_mono) auto
      then show "?left \<le> av - 1 + cap * eps" using fl64_le [of "av - 1"] True by (simp add: distrib_left)
    qed
    obtain bs1 where bs': "bs' = set_expiry t ?ttl key (dict_set key
        \<lparr>tokens = ?left, last_updated = t, expires = bs1\<rparr> bs)" and r: "r = Inr (True, ?left, Some 0)"
      using run True pos(2) by (auto simp: token_bucket_def Let_def av_def [symmetric] flt_defs)
    have get: "dict_get bs' key = Some \<lparr>tokens = ?left, last_updated = t, expires = Some (t + of_int ?ttl)\<rparr>"
      unfolding bs' by (subst dict_get_set_expiry [OF ttl]) (auto simp: dict_simps)
    have "bucket_ok cap rate t (dict_get bs' key)"
      unfolding get using left exp by (simp add: bucket_ok_def)
    moreover have "level cap rate t (dict_get bs' key) = ?left"
      unfolding get using left by (simp add: level_def)
    ultimately show ?thesis using r left(3) av(1) by auto
  qed
qed

lemma bucket_run_bound:
  assumes pos: "1 \<le> cap" "0 < rate" "fl64 cap = cap"
  shows "sorted (t # ts) \<Longrightarrow> bucket_ok cap rate t (dict_get bs key) \<Longrightarrow>
    of_nat (bucket_run cap rate key bs ts) * (1 - 5 * cap * eps) \<le>
      level cap rate t (dict_get bs key) + rate * (last (t # ts) - t)"
proof (induction ts arbitrary: t bs)
  case Nil
  then show ?case using level_bounds [of cap rate t "dict_get bs key"] pos by simp
next
  case (Cons u ts)
  obtain bs' r where run: "token_bucket cap rate u 1 u key bs = (bs', r)" by force
  have tu: "t \<le> u" "sorted (u # ts)" using Cons.prems(1) by auto
  then have "bucket_ok cap rate u (dict_get bs key)" using Cons.prems(2) bucket_ok_later by blast
  from token_bucket_step [OF pos this run] obtain a x w where r: "r = Inr (a, x, w)"
    and ok: "bucket_ok cap rate u (dict_get bs' key)"
    and lev: "level cap rate u (dict_get bs' key) + (if a then 1 - 5 * cap * eps else 0) \<le> level cap rate u (dict_get bs key)"
    by blast
  have count: "of_nat (bucket_run cap rate key bs (u # ts)) * (1 - 5 * cap * eps) =
      (if a then 1 - 5 * cap * eps else 0) + of_nat (bucket_run cap rate key bs' ts) * (1 - 5 * cap * eps)"
    using run r by (cases a) (simp_all add: algebra_simps)
  have "of_nat (bucket_run cap rate key bs (u # ts)) * (1 - 5 * cap * eps) \<le>
      level cap rate u (dict_get bs key) + rate * (last (u # ts) - u)"
    using Cons.IH [OF tu(2) ok] count lev by linarith
  moreover have "level cap rate u (dict_get bs key) \<le> level cap rate t (dict_get bs key) + rate * (u - t)"
    using level_later tu(1) pos(2) by simp
  moreover have "rate * (last (t # u # ts) - t) = rate * (last (u # ts) - u) + rate * (u - t)"
    by (simp add: algebra_simps)
  ultimately show ?case by linarith
qed

section \<open>Properties\<close>

text \<open>C15: the token bucket enforces its quota. Over any series of requests in time order on a key, the
  number that pass is at most the burst capacity plus the refill rate times the elapsed time, up
  to the relative rounding error of binary64 arithmetic (a factor of 1 minus 5 capacity over
  2 to the 53), even though the script rounds at every step and lets idle keys expire.\<close>

theorem token_bucket_quota:
  assumes "1 \<le> cap" "0 < rate" "fl64 cap = cap" "sorted (t # ts)"
  shows "of_nat (bucket_run cap rate key [] (t # ts)) * (1 - 5 * cap / 2 ^ 53) \<le>
    cap + rate * (last (t # ts) - t)"
proof -
  have "of_nat (bucket_run cap rate key [] (t # ts)) * (1 - 5 * cap * eps) \<le>
      level cap rate t (dict_get [] key) + rate * (last (t # t # ts) - t)"
    using assms by (intro bucket_run_bound) (auto simp: bucket_ok_def)
  then show ?thesis by (simp add: level_def eps_def)
qed

theorem token_bucket_quota_witness:
  "of_nat (bucket_run 2 (1/4) ''k'' [] [0, 0, 0, 1, 4, 5]) * (1 - 5 * 2 / 2 ^ 53) \<le> (2 :: rat) + 1/4 * 5"
  using token_bucket_quota [of 2 "1/4" 0 "[0, 0, 1, 4, 5]" "''k''"]
  by (simp add: fl64_numeral del: bucket_run.simps)

lemma burst_step:
  assumes "k \<le> c" "int c \<le> 2 ^ 53" "0 < rate"
    and "0 < k \<longrightarrow> dict_get bs key = Some \<lparr>tokens = of_nat (c - k), last_updated = t, expires = Some e\<rparr> \<and> t < e"
    and "k = 0 \<longrightarrow> dict_get bs key = None"
  shows "if k < c
    then (\<exists>bs' e'. token_bucket (of_nat c) rate t 1 t key bs = (bs', Inr (True, of_nat (c - Suc k), Some 0)) \<and>
      dict_get bs' key = Some \<lparr>tokens = of_nat (c - Suc k), last_updated = t, expires = Some e'\<rparr> \<and> t < e')
    else 0 < k \<longrightarrow> (\<exists>x w. token_bucket (of_nat c) rate t 1 t key bs = (bs, Inr (False, x, w)))"
proof -
  have repr: "fl64 (of_nat n) = of_nat n" if "n \<le> c" for n
    using that assms(2) fl64_int [of "int n"] by simp
  have av: "refilled (of_nat c) rate t (live_bucket t key bs) = of_nat (c - k)"
    using assms repr [of "c - k"] by (cases "k = 0") (auto simp: refilled_def live_bucket_def Let_def flt_defs)
  show ?thesis
  proof (cases "k < c")
    case True
    then have left: "fsub (of_nat (c - k)) 1 = of_nat (c - Suc k)"
      using repr [of "c - Suc k"] by (simp add: flt_defs of_nat_diff Suc_leI diff_diff_eq add.commute)
    have "0 < of_nat c / rate" using True assms(3) by simp
    then have ttl: "0 < \<lceil>fdiv (of_nat c) rate\<rceil>" using fl64_pos by (simp add: flt_defs)
    have one: "(1 \<le> (of_nat (c - k) :: rat)) = True" using True by simp
    have rate: "(rate = 0) = False" using assms(3) by simp
    have "token_bucket (of_nat c) rate t 1 t key bs =
        (set_expiry t \<lceil>fdiv (of_nat c) rate\<rceil> key (dict_set key \<lparr>tokens = of_nat (c - Suc k), last_updated = t,
           expires = case live_bucket t key bs of None \<Rightarrow> None | Some b \<Rightarrow> expires b\<rparr> bs),
         Inr (True, of_nat (c - Suc k), Some 0))"
      by (simp only: token_bucket_def Let_def av left one rate if_True if_False)
    moreover have "t < t + of_int \<lceil>fdiv (of_nat c) rate\<rceil>" using ttl by simp
    ultimately show ?thesis using True
      by (auto simp: dict_get_set_expiry [OF ttl] dict_simps)
  next
    case False
    then show ?thesis using assms(1,3) by (auto simp: token_bucket_def Let_def av)
  qed
qed

lemma burst_run:
  assumes c: "int c \<le> 2 ^ 53" "0 < rate" "0 < c"
  shows "k \<le> c \<Longrightarrow>
    (0 < k \<longrightarrow> (\<exists>e. dict_get bs key = Some \<lparr>tokens = of_nat (c - k), last_updated = t, expires = Some e\<rparr> \<and> t < e)) \<Longrightarrow>
    (k = 0 \<longrightarrow> dict_get bs key = None) \<Longrightarrow>
    bucket_run (of_nat c) rate key bs (replicate n t) = min n (c - k)"
proof (induction n arbitrary: k bs)
  case (Suc n)
  obtain e where "0 < k \<longrightarrow> dict_get bs key = Some \<lparr>tokens = of_nat (c - k), last_updated = t, expires = Some e\<rparr> \<and> t < e"
    using Suc.prems(2) by blast
  note step = burst_step [OF Suc.prems(1) c(1,2) this Suc.prems(3)]
  show ?case
  proof (cases "k < c")
    case True
    then obtain bs' e' where run: "token_bucket (of_nat c) rate t 1 t key bs = (bs', Inr (True, of_nat (c - Suc k), Some 0))"
      and get: "dict_get bs' key = Some \<lparr>tokens = of_nat (c - Suc k), last_updated = t, expires = Some e'\<rparr>" "t < e'"
      using step by auto
    have "bucket_run (of_nat c) rate key bs' (replicate n t) = min n (c - Suc k)"
      using True get by (intro Suc.IH) auto
    then show ?thesis using run True by simp
  next
    case False
    then obtain x w where "token_bucket (of_nat c) rate t 1 t key bs = (bs, Inr (False, x, w))"
      using step c(3) by auto
    then show ?thesis using False Suc.IH [OF Suc.prems] by simp
  qed
qed simp

text \<open>bursts are exact. From a fresh key, requests at one instant pass exactly until the burst
  capacity is used up, for any whole capacity up to 2 to the 53 and any positive rate.\<close>

theorem token_bucket_burst_exact:
  assumes "0 < c" "int c \<le> 2 ^ 53" "0 < rate"
  shows "bucket_run (of_nat c) rate key [] (replicate n t) = min n c"
  using burst_run [OF assms(2,3,1), of 0 "[]" key t n] by simp

theorem token_bucket_burst_exact_witness:
  "bucket_run (of_nat 15) 1 ''gaiaos:ratelimit:user:7:api'' [] (replicate 20 1000) = 15"
  using token_bucket_burst_exact [of 15 1 "''gaiaos:ratelimit:user:7:api''" 20 1000]
  by (simp del: bucket_run.simps)

text \<open>the check on a request. Exempt paths and a disabled limiter always permit; when Redis is
  down the check permits and stores nothing; otherwise a request is refused exactly when the bucket
  of its identity and scope holds less than one token, always with status 429 and a wait of at
  least one second, and a refusal changes no bucket; and an API key, a user and an address never
  share a bucket.\<close>

theorem check_request:
  "(excluded (path r) \<or> \<not> enable_rate_limiting cfg \<longrightarrow> check si cfg mode now rnow r bs = (bs, Inr ())) \<and>
   check si cfg Down now rnow r bs = (bs, Inr ()) \<and>
   (\<forall>ident role cap rate. \<not> excluded (path r) \<longrightarrow> enable_rate_limiting cfg \<longrightarrow>
      extract_identity_and_role r = (ident, role) \<longrightarrow>
      bucket_parameters si cfg (resolve_scope r) role = (cap, rate) \<longrightarrow> rate \<noteq> 0 \<longrightarrow>
      (let bucket = live_bucket rnow (rate_limit_key ident (resolve_scope r)) bs
       in if refilled cap rate now bucket < 1
          then (\<exists>n\<ge>1. check si cfg Up now rnow r bs = (bs, Inl (HTTP_Exception 429 (''Retry-After: '' @ int_str n))))
          else snd (check si cfg Up now rnow r bs) = Inr ())) \<and>
   (api_key_id r \<noteq> None \<longrightarrow> api_key_id r' = None \<longrightarrow>
      rate_limit_key (fst (extract_identity_and_role r)) (resolve_scope r) \<noteq>
      rate_limit_key (fst (extract_identity_and_role r')) (resolve_scope r')) \<and>
   (api_key_id r = None \<longrightarrow> api_key_id r' = None \<longrightarrow> req_user r \<noteq> None \<longrightarrow> req_user r' = None \<longrightarrow>
      rate_limit_key (fst (extract_identity_and_role r)) (resolve_scope r) \<noteq>
      rate_limit_key (fst (extract_identity_and_role r')) (resolve_scope r'))"
proof (intro conjI allI impI)
  show "check si cfg mode now rnow r bs = (bs, Inr ())" if "excluded (path r) \<or> \<not> enable_rate_limiting cfg"
    using that by (auto simp: check_def)
  show "check si cfg Down now rnow r bs = (bs, Inr ())"
    by (auto simp: check_def run_script_def Let_def split: prod.splits)
  fix ident role cap rate
  assume r: "\<not> excluded (path r)" "enable_rate_limiting cfg" "extract_identity_and_role r = (ident, role)"
    "bucket_parameters si cfg (resolve_scope r) role = (cap, rate)" "rate \<noteq> 0"
  show "let bucket = live_bucket rnow (rate_limit_key ident (resolve_scope r)) bs
       in if refilled cap rate now bucket < 1
          then (\<exists>n\<ge>1. check si cfg Up now rnow r bs = (bs, Inl (HTTP_Exception 429 (''Retry-After: '' @ int_str n))))
          else snd (check si cfg Up now rnow r bs) = Inr ()"
    using r by (auto simp: check_def run_script_def token_bucket_def Let_def intro!: exI [of _ "max 1 _"])
next
  assume "api_key_id r \<noteq> None" "api_key_id r' = None"
  then show "rate_limit_key (fst (extract_identity_and_role r)) (resolve_scope r) \<noteq>
      rate_limit_key (fst (extract_identity_and_role r')) (resolve_scope r')"
    by (auto simp: rate_limit_key_def extract_identity_and_role_def split: option.splits)
next
  assume "api_key_id r = None" "api_key_id r' = None" "req_user r \<noteq> None" "req_user r' = None"
  then show "rate_limit_key (fst (extract_identity_and_role r)) (resolve_scope r) \<noteq>
      rate_limit_key (fst (extract_identity_and_role r')) (resolve_scope r')"
    by (auto simp: rate_limit_key_def extract_identity_and_role_def split: option.splits)
qed

definition sample_limits :: limiter_settings where
  "sample_limits = \<lparr>enable_rate_limiting = True, rate_limit_requests_per_minute = 60, rate_limit_burst = 15,
     password_reset_rate_limit_requests = 3, password_reset_rate_limit_window_seconds = 900,
     research_api_rate_limit = ''60/minute''\<rparr>"

definition sample_request :: "string option \<Rightarrow> request" where
  "sample_request fwd = \<lparr>path = ''/api/v1/investigations'', http_method = ''POST'', api_key_id = None,
     req_user = None, x_forwarded_for = fwd, client_host = Some ''10.0.0.1''\<rparr>"

definition empty_bucket :: bucket_store where
  "empty_bucket = [(''gaiaos:ratelimit:ip:10.0.0.1:submit_investigation'',
     \<lparr>tokens = 0, last_updated = 100, expires = Some 200\<rparr>)]"

theorem check_request_witness:
  "\<exists>n\<ge>1. check (\<lambda>_. None) sample_limits Up 100 100 (sample_request None) empty_bucket =
     (empty_bucket, Inl (HTTP_Exception 429 (''Retry-After: '' @ int_str n)))"
proof -
  let ?r = "sample_request None"
  have r: "\<not> excluded (path ?r)" "enable_rate_limiting sample_limits"
    "extract_identity_and_role ?r = (''ip:10.0.0.1'', ''public'')"
    "bucket_parameters (\<lambda>_. None) sample_limits (resolve_scope ?r) ''public'' = (5, fl64 (10/60))"
    by code_simp+
  have low: "refilled 5 (fl64 (10/60)) 100 (live_bucket 100 (rate_limit_key ''ip:10.0.0.1'' (resolve_scope ?r))
      empty_bucket) < 1"
    by code_simp
  have "fl64 (10/60) \<noteq> 0" using fl64_pos [of "10/60"] by simp
  with check_request [of ?r sample_limits "\<lambda>_. None" Up 100 100 empty_bucket ?r] r low
  show ?thesis by (auto simp: Let_def)
qed

section \<open>Observations\<close>

text \<open>A zero quota does not block: the script fails on the infinite time to live, or the reply cannot
  be read, and the check permits every request.\<close>

lemma zero_rate_permits:
  assumes "extract_identity_and_role r = (ident, role)"
    "bucket_parameters si cfg (resolve_scope r) role = (cap, 0)"
  shows "snd (check si cfg mode now rnow r bs) = Inr ()"
  using assms
  by (cases mode) (auto simp: check_def run_script_def token_bucket_def Let_def split: if_splits)

text \<open>An unauthenticated caller chooses its own bucket by the forwarding header.\<close>

lemma forwarded_header_chooses_bucket:
  "fst (extract_identity_and_role (sample_request (Some ''a''))) \<noteq>
   fst (extract_identity_and_role (sample_request (Some ''b'')))"
  by code_simp

end

