(* ===== verification/Gateway.thy ===== *)
theory Gateway
  imports Auth Rate_Limit
begin

text \<open>
  The gateway every request passes (\<open>gateway/middleware.py\<close>): request identifier and its context
  variable (\<open>gateway/context.py\<close>), the chain of authentication providers (\<open>gateway/auth_stub.py\<close>,
  \<open>auth/api_key_provider.py\<close>, \<open>auth/jwt_provider.py\<close>), the rate limiter, and the route handler,
  which is a parameter.
\<close>

section \<open>Requests and providers\<close>

record http_request =
  hr_path :: string
  hr_method :: string
  hr_authorization :: "string option"
  hr_api_key :: "string option"
  hr_request_id :: "string option"
  hr_forwarded_for :: "string option"
  hr_client_host :: "string option"

text \<open>The environment of one request: the libraries, the settings, the session factory, the time.\<close>

record gateway_env =
  ge_libs :: libs
  ge_settings :: auth_settings
  ge_have_db :: bool
  ge_now :: int

datatype provider = Auth_Stub | Api_Key_Provider | Jwt_Provider

definition authenticate ::
    "gateway_env \<Rightarrow> provider \<Rightarrow> http_request \<Rightarrow> request_state \<Rightarrow> auth_state \<Rightarrow> auth_state \<times> request_state py" where
  "authenticate env p hr rq st =
     (case p of
        Auth_Stub \<Rightarrow> (st, Inr rq)
      | Api_Key_Provider \<Rightarrow>
          api_key_authenticate (ge_libs env) (ge_have_db env) (ge_now env) (hr_api_key hr) rq st
      | Jwt_Provider \<Rightarrow>
          (st, jwt_authenticate (ge_libs env) (ge_settings env) (ge_have_db env) (ge_now env)
                 (hr_authorization hr) rq st))"

text \<open>The providers in order, until one attaches a user or an error.\<close>

fun auth_chain ::
    "('p \<Rightarrow> http_request \<Rightarrow> request_state \<Rightarrow> auth_state \<Rightarrow> auth_state \<times> request_state py) \<Rightarrow> 'p list \<Rightarrow>
     http_request \<Rightarrow> request_state \<Rightarrow> auth_state \<Rightarrow> auth_state \<times> request_state py" where
  "auth_chain run [] hr rq st = (st, Inr rq)"
| "auth_chain run (p # ps) hr rq st =
     (case run p hr rq st of
        (st', Inl e) \<Rightarrow> (st', Inl e)
      | (st', Inr rq') \<Rightarrow>
          if st_user rq' \<noteq> None \<or> st_api_key_error rq' \<noteq> None then (st', Inr rq')
          else auth_chain run ps hr rq' st')"

text \<open>What the limiter reads of a request and its state.\<close>

definition limiter_view :: "http_request \<Rightarrow> request_state \<Rightarrow> request" where
  "limiter_view hr rq =
     \<lparr>path = hr_path hr, http_method = hr_method hr, api_key_id = st_api_key_id rq,
      req_user = map_option (\<lambda>u. \<lparr>user_id = uuid_str (usr_id u), user_role = role u\<rparr>) (st_user rq),
      x_forwarded_for = hr_forwarded_for hr, client_host = hr_client_host hr\<rparr>"

definition fresh_state :: request_state where
  "fresh_state = \<lparr>st_user = None, st_api_key_error = None, st_api_key_id = None, st_auth_type = None\<rparr>"

text \<open>The state the gateway touches: accounts, buckets, and the context variable of the request
  identifier.\<close>

type_synonym gateway_state = "auth_state \<times> bucket_store \<times> string option"

definition request_id :: "http_request \<Rightarrow> string \<Rightarrow> string" where
  "request_id hr fresh_id = or_text (hr_request_id hr) fresh_id"

definition dispatch ::
    "gateway_env \<Rightarrow> provider list \<Rightarrow> (request \<Rightarrow> bucket_store \<Rightarrow> bucket_store \<times> unit py) \<Rightarrow>
     (string option \<Rightarrow> request_state \<Rightarrow> auth_state \<Rightarrow> auth_state \<times> 'resp py) \<Rightarrow> string \<Rightarrow> http_request \<Rightarrow>
     gateway_state \<Rightarrow> gateway_state \<times> ('resp \<times> string) py" where
  "dispatch env chain limiter handler fresh_id hr s =
     (case s of (st, bs, ctx) \<Rightarrow>
      let rid = request_id hr fresh_id
      in case auth_chain (authenticate env) chain hr fresh_state st of
           (st1, Inl e) \<Rightarrow> ((st1, bs, ctx), Inl e)
         | (st1, Inr rq) \<Rightarrow>
             (case limiter (limiter_view hr rq) bs of
                (bs1, Inl e) \<Rightarrow> ((st1, bs1, ctx), Inl e)
              | (bs1, Inr _) \<Rightarrow>
                  (case handler (Some rid) rq st1 of
                     (st2, Inl e) \<Rightarrow> ((st2, bs1, ctx), Inl e)
                   | (st2, Inr resp) \<Rightarrow> ((st2, bs1, ctx), Inr (resp, rid)))))"

section \<open>Interface: authentication providers\<close>

text \<open>
  What the chain relies on: a provider that is asked about a request without a user only ever
  attaches a user that \<open>vouched\<close> accepts, never together with an error, leaves the accounts alone,
  and changes nothing when it raises.
\<close>

locale auth_providers =
  fixes run :: "'p \<Rightarrow> http_request \<Rightarrow> request_state \<Rightarrow> auth_state \<Rightarrow> auth_state \<times> request_state py"
    and vouched :: "http_request \<Rightarrow> auth_state \<Rightarrow> user \<Rightarrow> string option \<Rightarrow> bool"
  assumes attaches: "auth_ok st \<Longrightarrow> st_user rq = None \<Longrightarrow> st_api_key_error rq = None \<Longrightarrow> st_api_key_id rq = None \<Longrightarrow>
      run p hr rq st = (st', Inr rq') \<Longrightarrow>
      (st_user rq' = None \<longrightarrow> st_api_key_id rq' = None) \<and>
      (\<forall>u. st_user rq' = Some u \<longrightarrow> st_api_key_error rq' = None \<and> vouched hr st u (st_api_key_id rq'))"
    and silent: "run p hr rq st = (st', Inr rq') \<Longrightarrow> st_user rq' = None \<Longrightarrow> st' = st"
    and keeps: "auth_ok st \<Longrightarrow> run p hr rq st = (st', r) \<Longrightarrow> auth_ok st' \<and> users st' = users st"
    and raising: "run p hr rq st = (st', Inl e) \<Longrightarrow> st' = st"
begin

lemma chain_attaches:
  assumes "auth_ok st" "st_user rq = None" "st_api_key_error rq = None" "st_api_key_id rq = None"
    "auth_chain run ps hr rq st = (st', Inr rq')"
  shows "auth_ok st' \<and> users st' = users st \<and> (st_user rq' = None \<longrightarrow> st_api_key_id rq' = None) \<and>
    (\<forall>u. st_user rq' = Some u \<longrightarrow> st_api_key_error rq' = None \<and> vouched hr st u (st_api_key_id rq'))"
  using assms
proof (induction ps arbitrary: rq st)
  case Nil
  then show ?case by simp
next
  case (Cons p ps)
  obtain st1 r where run: "run p hr rq st = (st1, r)" by fastforce
  obtain rq1 where r: "r = Inr rq1" using Cons.prems(5) run by (cases r) auto
  note a = attaches [OF Cons.prems(1-4) run [unfolded r]] and k = keeps [OF Cons.prems(1) run]
  show ?case
  proof (cases "st_user rq1 \<noteq> None \<or> st_api_key_error rq1 \<noteq> None")
    case True
    then have "st' = st1" "rq' = rq1" using Cons.prems(5) run r by auto
    then show ?thesis using a k by simp
  next
    case False
    then have none: "st_user rq1 = None" "st_api_key_error rq1 = None" by blast+
    then have "st1 = st" using silent run r by blast
    then have "auth_chain run ps hr rq1 st = (st', Inr rq')" using Cons.prems(5) run r none by simp
    from Cons.IH [OF Cons.prems(1) none _ this] show ?thesis using a none(1) by simp
  qed
qed

lemma chain_raises:
  "auth_chain run ps hr rq st = (st', Inl e) \<Longrightarrow> st' = st \<and> (\<exists>p rq1. snd (run p hr rq1 st) = Inl e)"
proof (induction ps arbitrary: rq st)
  case (Cons p ps)
  obtain st1 r where run: "run p hr rq st = (st1, r)" by fastforce
  show ?case
  proof (cases r)
    case (Inl e')
    then have "st1 = st" "e' = e" "st' = st1" using Cons.prems run raising [of p hr rq st st1 e'] by auto
    then show ?thesis using run Inl by (metis snd_conv)
  next
    case (Inr rq1)
    then have "st_user rq1 = None" "auth_chain run ps hr rq1 st1 = (st', Inl e)"
      using Cons.prems run by (auto split: if_splits)
    then show ?thesis using Cons.IH silent [of p hr rq st st1 rq1] run Inr by auto
  qed
qed simp

end

section \<open>The providers implement it\<close>

text \<open>The credential a user was admitted on: an unrevoked key of the account, or a bearer token whose
  decoded subject is the account.\<close>

definition key_credential :: "gateway_env \<Rightarrow> http_request \<Rightarrow> auth_state \<Rightarrow> user \<Rightarrow> string \<Rightarrow> bool" where
  "key_credential env hr st u kid \<longleftrightarrow>
     (\<exists>raw k. hr_api_key hr = Some raw \<and> k \<in> set (api_keys st) \<and> key_id k = kid \<and> \<not> is_revoked k \<and>
        key_hash k = sha256 (ge_libs env) raw \<and> owner_id k = usr_id u)"

definition token_credential :: "gateway_env \<Rightarrow> http_request \<Rightarrow> user \<Rightarrow> bool" where
  "token_credential env hr u \<longleftrightarrow> is_verified u \<and>
     (\<exists>header scheme tok payload sub.
        hr_authorization hr = Some header \<and> str_words header = [scheme, tok] \<and> str_lower scheme = ''bearer'' \<and>
        decode_access_token (ge_libs env) (ge_settings env) (ge_now env) tok None = Inr (Decoded payload) \<and>
        json_get payload ''sub'' = Inr (JStr sub) \<and> uuid_parse sub = Inr (usr_id u))"

definition admitted :: "gateway_env \<Rightarrow> http_request \<Rightarrow> auth_state \<Rightarrow> user \<Rightarrow> string option \<Rightarrow> bool" where
  "admitted env hr st u kid \<longleftrightarrow> u \<in> set (users st) \<and> is_active u \<and> deleted_at u = None \<and>
     (case kid of Some k \<Rightarrow> key_credential env hr st u k | None \<Rightarrow> token_credential env hr u)"

lemma scalar_mem: "scalar_one_or_none (filter P xs) = Inr (Some x) \<Longrightarrow> x \<in> set xs \<and> P x"
proof -
  assume "scalar_one_or_none (filter P xs) = Inr (Some x)"
  then have "x \<in> set (filter P xs)" by (simp add: scalar_one_or_none_Some)
  then show ?thesis by simp
qed

lemma api_key_attaches:
  assumes "api_key_authenticate L have_db now hdr rq st = (st', Inr rq')" "st_user rq' = Some u" "st_user rq = None"
  shows "\<exists>raw k. hdr = Some raw \<and> k \<in> set (api_keys st) \<and> \<not> is_revoked k \<and> key_hash k = sha256 L raw \<and>
    owner_id k = usr_id u \<and> u \<in> set (users st) \<and> is_active u \<and> deleted_at u = None \<and>
    rq' = rq\<lparr>st_user := Some u, st_api_key_id := Some (key_id k), st_auth_type := Some ''api_key''\<rparr>"
  using assms
  by (auto simp: api_key_authenticate_def dest!: scalar_mem split: option.splits list.splits if_splits sum.splits)

lemma token_user_sound:
  assumes "token_user have_db payload st = Inr u" "auth_ok st"
  shows "u \<in> set (users st) \<and> is_active u \<and> is_verified u \<and> deleted_at u = None \<and>
    (\<exists>sub. json_get payload ''sub'' = Inr (JStr sub) \<and> uuid_parse sub = Inr (usr_id u))"
proof -
  obtain v where v: "json_get payload ''sub'' = Inr v"
    using assms(1) by (cases "json_get payload ''sub''") (auto simp: token_user_def)
  then obtain sub where sub: "json_get payload ''sub'' = Inr (JStr sub)"
    using assms(1) by (cases v) (auto simp: token_user_def split: if_splits)
  obtain i where i: "uuid_parse sub = Inr i"
    using assms(1) sub by (auto simp: token_user_def split: if_splits sum.splits)
  obtain r where r: "get_user_by_id st i False = Inr r"
    using assms(1) sub i by (cases "get_user_by_id st i False") (auto simp: token_user_def split: if_splits)
  have "get_user_by_id st i False = Inr (Some u) \<and> is_active u \<and> is_verified u"
    using assms(1) sub i r by (cases r) (auto simp: token_user_def split: if_splits)
  then show ?thesis using sub i user_lookup(1) [OF assms(2)] by auto
qed

lemma jwt_attaches:
  assumes "jwt_authenticate L cfg have_db now hdr rq st = Inr rq'"
  shows "(\<exists>header scheme tok payload u. hdr = Some header \<and> str_words header = [scheme, tok] \<and>
      str_lower scheme = ''bearer'' \<and> decode_access_token L cfg now tok None = Inr (Decoded payload) \<and>
      token_user have_db payload st = Inr u \<and> rq' = rq\<lparr>st_user := Some u\<rparr>) \<or> rq' = rq\<lparr>st_user := None\<rparr>"
proof (cases "\<exists>c cs. hdr = Some (c # cs)")
  case False
  then show ?thesis using assms by (auto simp: jwt_authenticate_def split: option.splits list.splits)
next
  case True
  then obtain header where h: "hdr = Some header" "header \<noteq> []" by auto
  then obtain scheme tok where w: "str_words header = [scheme, tok]" "str_lower scheme = ''bearer''"
    using assms by (auto simp: jwt_authenticate_def split: list.splits if_splits)
  show ?thesis
  proof (cases "or_text (prometheus_metrics_token cfg) [] \<noteq> [] \<and> prometheus_metrics_token cfg = Some tok")
    case True
    then show ?thesis using assms h w by (cases header) (auto simp: jwt_authenticate_def)
  next
    case False
    have run: "py_bind (decode_access_token L cfg now tok None) (\<lambda>r.
        case r of Expired_Signature \<Rightarrow> Inl (HTTP_Exception 401 ''Access token has expired.'')
        | Invalid_Token \<Rightarrow> Inl (HTTP_Exception 401 ''Invalid authorization token.'')
        | Decoded payload \<Rightarrow> py_bind (token_user have_db payload st) (\<lambda>u. Inr (rq\<lparr>st_user := Some u\<rparr>))) = Inr rq'"
      using assms h w False by (cases header) (auto simp: jwt_authenticate_def split: if_splits)
    then obtain r where r: "decode_access_token L cfg now tok None = Inr r"
      by (cases "decode_access_token L cfg now tok None") auto
    then obtain payload u where "r = Decoded payload"
        "token_user have_db payload st = Inr u" "rq' = rq\<lparr>st_user := Some u\<rparr>"
      using run by (cases r) (auto simp: py_bind_Inr_iff)
    then show ?thesis using h w r by blast
  qed
qed

lemma api_key_quiet:
  assumes "api_key_authenticate L have_db now hdr rq st = (st', r)"
  shows "users st' = users st" "(\<exists>e. r = Inl e) \<Longrightarrow> st' = st" "r = Inr rq' \<Longrightarrow> st_user rq' = None \<Longrightarrow> st' = st"
    "r = Inr rq' \<Longrightarrow> st_user rq' = None \<Longrightarrow> st_api_key_id rq' = st_api_key_id rq"
  using assms
  by (auto simp: api_key_authenticate_def set_key_def split: option.splits list.splits if_splits sum.splits)

interpretation providers: auth_providers "authenticate env" "admitted env" for env
proof unfold_locales
  fix st st' :: auth_state and rq rq' p hr
  assume ok: "auth_ok st" and clean: "st_user rq = None" "st_api_key_error rq = None" "st_api_key_id rq = None"
    and run: "authenticate env p hr rq st = (st', Inr rq')"
  show "(st_user rq' = None \<longrightarrow> st_api_key_id rq' = None) \<and>
      (\<forall>u. st_user rq' = Some u \<longrightarrow> st_api_key_error rq' = None \<and> admitted env hr st u (st_api_key_id rq'))"
  proof (cases p)
    case Auth_Stub
    then show ?thesis using run clean by (simp add: authenticate_def)
  next
    case Api_Key_Provider
    then have run': "api_key_authenticate (ge_libs env) (ge_have_db env) (ge_now env) (hr_api_key hr) rq st = (st', Inr rq')"
      using run by (simp add: authenticate_def)
    show ?thesis
      using api_key_attaches [OF run' _ clean(1)] api_key_quiet(4) [OF run' refl] clean
      by (force simp: admitted_def key_credential_def)
  next
    case Jwt_Provider
    then have run': "jwt_authenticate (ge_libs env) (ge_settings env) (ge_have_db env) (ge_now env)
        (hr_authorization hr) rq st = Inr rq'"
      using run by (auto simp: authenticate_def)
    show ?thesis
      using jwt_attaches [OF run'] clean token_user_sound [OF _ ok]
      by (force simp: admitted_def token_credential_def)
  qed
next
  fix st st' :: auth_state and rq rq' p hr
  assume "authenticate env p hr rq st = (st', Inr rq')" "st_user rq' = None"
  then show "st' = st" using api_key_quiet(3) by (auto simp: authenticate_def split: provider.splits)
next
  fix st st' :: auth_state and rq p hr and r :: "request_state py"
  assume ok: "auth_ok st" and run: "authenticate env p hr rq st = (st', r)"
  show "auth_ok st' \<and> users st' = users st"
  proof (cases p)
    case Api_Key_Provider
    then have run': "api_key_authenticate (ge_libs env) (ge_have_db env) (ge_now env) (hr_api_key hr) rq st = (st', r)"
      using run by (simp add: authenticate_def)
    have "good_step st st'" using good_key_use run' by (metis fst_conv)
    then show ?thesis using ok api_key_quiet(1) [OF run'] by (simp add: good_step_def)
  qed (use run ok in \<open>auto simp: authenticate_def\<close>)
next
  fix st st' :: auth_state and rq p hr e
  assume "authenticate env p hr rq st = (st', Inl e)"
  then show "st' = st" using api_key_quiet(2) by (auto simp: authenticate_def split: provider.splits)
qed

section \<open>Properties\<close>

lemma limiter_identity:
  "st_user rq = Some u \<Longrightarrow> extract_identity_and_role (limiter_view hr rq) =
     (case st_api_key_id rq of Some k \<Rightarrow> ''api_key:'' @ k | None \<Rightarrow> ''user:'' @ uuid_str (usr_id u), role u)"
  by (simp add: extract_identity_and_role_def limiter_view_def split: option.split)


text \<open>A request with the key of the second sample account.\<close>

definition sample_env :: gateway_env where
  "sample_env = \<lparr>ge_libs = sample_libs, ge_settings = sample_settings, ge_have_db = True, ge_now = 9\<rparr>"

definition key_request :: http_request where
  "key_request = \<lparr>hr_path = ''/api/v1/research/patterns'', hr_method = ''GET'', hr_authorization = None,
     hr_api_key = Some ''raw'', hr_request_id = Some ''rid-1'', hr_forwarded_for = Some ''1.2.3.4'',
     hr_client_host = None\<rparr>"

definition show_user :: "string option \<Rightarrow> request_state \<Rightarrow> auth_state \<Rightarrow> auth_state \<times> string py" where
  "show_user ctx rq st = (st, py_bind (get_current_active_user rq) (\<lambda>u. Inr (email u)))"

definition no_limits :: limiter_settings where
  "no_limits = sample_limits\<lparr>enable_rate_limiting := False\<rparr>"


end
