(* ===== verification/Scaling.thy ===== *)
theory Scaling
  imports Resilience
begin

text \<open>
  The advisory scaling policy of the workers (\<open>workers/scaling_policy.py\<close>) and the telemetry job
  (\<open>workers/jobs/scaling_telemetry_job.py\<close>). What the queue and the workers report, or the
  exception of asking them, is a parameter, as is the average the database computes; times are
  microseconds. The run detector is proved equivalent to an index-based description of a run.
\<close>

section \<open>Pool size\<close>

record scaling_settings =
  worker_pool_size :: int
  worker_target_max_wait_s :: flt
  scaling_summary_interval_s :: int

definition MIN_AVG_JOB_DURATION_S :: flt where "MIN_AVG_JOB_DURATION_S = fl64 (1/10)"
definition MIN_TARGET_WAIT_S :: flt where "MIN_TARGET_WAIT_S = 1"
definition DEFAULT_AVG_JOB_DURATION_S :: flt where "DEFAULT_AVG_JOB_DURATION_S = 30"

definition recommended_pool_size :: "scaling_settings \<Rightarrow> int \<Rightarrow> flt \<Rightarrow> flt \<Rightarrow> int" where
  "recommended_pool_size cfg depth avg_duration target_wait =
     (let min_bound = max 1 (worker_pool_size cfg);
          d = max 0 depth;
          a = max MIN_AVG_JOB_DURATION_S avg_duration;
          w = max MIN_TARGET_WAIT_S target_wait
      in if d = 0 then min_bound else max min_bound \<lceil>fdiv (fmul (fl64 (of_int d)) a) w\<rceil>)"

section \<open>Metrics\<close>

record scaling_metrics =
  current_queue_depth :: int
  worker_utilization_pct :: flt
  sm_recommended :: int
  active_worker_count :: int
  busy_worker_count :: int
  configured_min_pool_size :: int

text \<open>\<open>depth\<close> is the length of the queue, \<open>states\<close> asks every worker whether it is busy; each request
  may raise, and the values assigned before that are kept.\<close>

fun count_busy :: "bool py list \<Rightarrow> nat py" where
  "count_busy [] = Inr 0"
| "count_busy (Inl e # ws) = Inl e"
| "count_busy (Inr b # ws) = py_bind (count_busy ws) (\<lambda>n. Inr (if b then n + 1 else n))"

definition get_scaling_metrics :: "scaling_settings \<Rightarrow> int py \<Rightarrow> bool py list py \<Rightarrow> scaling_metrics" where
  "get_scaling_metrics cfg depth states =
     (let d = (case depth of Inl _ \<Rightarrow> 0 | Inr n \<Rightarrow> n);
          ws = (case depth of Inl _ \<Rightarrow> [] | Inr _ \<Rightarrow> (case states of Inl _ \<Rightarrow> [] | Inr bs \<Rightarrow> bs));
          busy = (case count_busy ws of Inl _ \<Rightarrow> 0 | Inr n \<Rightarrow> n);
          util = (case count_busy ws of
                    Inl _ \<Rightarrow> 0
                  | Inr n \<Rightarrow> if ws = [] then 0
                             else fround 2 (fmul (fdiv (of_nat n) (of_nat (length ws))) 100))
      in \<lparr>current_queue_depth = d, worker_utilization_pct = util,
          sm_recommended = recommended_pool_size cfg d DEFAULT_AVG_JOB_DURATION_S (worker_target_max_wait_s cfg),
          active_worker_count = int (length ws), busy_worker_count = int busy,
          configured_min_pool_size = worker_pool_size cfg\<rparr>)"

section \<open>Samples\<close>

record sample =
  queue_depth :: int
  utilization :: flt
  active_workers :: int
  busy_workers :: int
  recommended :: int
  ts :: int

definition record_scaling_telemetry_sample :: "int \<Rightarrow> scaling_metrics \<Rightarrow> sample list \<Rightarrow> sample list" where
  "record_scaling_telemetry_sample now m tbl =
     tbl @ [\<lparr>queue_depth = current_queue_depth m, utilization = worker_utilization_pct m,
             active_workers = active_worker_count m, busy_workers = busy_worker_count m,
             recommended = sm_recommended m, ts = now\<rparr>]"

definition days_us :: "int \<Rightarrow> int" where "days_us n = n * 86400000000"

definition prune_scaling_telemetry_samples :: "int \<Rightarrow> int \<Rightarrow> sample list \<Rightarrow> sample list \<times> nat" where
  "prune_scaling_telemetry_samples now retention_days tbl =
     (let cutoff = now - days_us retention_days
      in (filter (\<lambda>s. \<not> ts s < cutoff) tbl, length (filter (\<lambda>s. ts s < cutoff) tbl)))"

definition run_scaling_telemetry_job ::
    "scaling_settings \<Rightarrow> int py \<Rightarrow> bool py list py \<Rightarrow> int \<Rightarrow> int \<Rightarrow> sample list \<Rightarrow> sample list \<times> nat" where
  "run_scaling_telemetry_job cfg depth states now later tbl =
     prune_scaling_telemetry_samples later 30
       (record_scaling_telemetry_sample now (get_scaling_metrics cfg depth states) tbl)"

section \<open>Sustained breaches\<close>

text \<open>The loop shared by both evaluators: start and last time of the current streak.\<close>

fun sustained_from ::
    "(sample \<Rightarrow> bool) \<Rightarrow> flt \<Rightarrow> flt \<Rightarrow> int option \<Rightarrow> int option \<Rightarrow> sample list \<Rightarrow> bool" where
  "sustained_from breach dur gap start prev [] = False"
| "sustained_from breach dur gap start prev (s # ss) =
     (if breach s then
        (let start' = (case start of
               None \<Rightarrow> ts s
             | Some t0 \<Rightarrow> (case prev of
                   None \<Rightarrow> t0
                 | Some l \<Rightarrow> if elapsed_s (ts s) l > gap then ts s else t0))
         in if elapsed_s (ts s) start' \<ge> dur then True
            else sustained_from breach dur gap (Some start') (Some (ts s)) ss)
      else sustained_from breach dur gap None None ss)"

definition evaluate_sustained_queue_depth_breach :: "sample list \<Rightarrow> int \<Rightarrow> flt \<Rightarrow> flt \<Rightarrow> bool" where
  "evaluate_sustained_queue_depth_breach samples threshold dur gap =
     sustained_from (\<lambda>s. queue_depth s > threshold) dur gap None None samples"

definition evaluate_sustained_utilization_breach :: "sample list \<Rightarrow> flt \<Rightarrow> flt \<Rightarrow> flt \<Rightarrow> bool" where
  "evaluate_sustained_utilization_breach samples threshold dur gap =
     sustained_from (\<lambda>s. utilization s \<ge> threshold) dur gap None None samples"

section \<open>History\<close>

text \<open>The three verdict messages.\<close>

datatype verdict = Outcome_A_Triggered | Outcome_B_Transient_Spike | Outcome_B_Never_Crossed

record scaling_history =
  window :: string
  sample_count :: nat
  max_queue_depth :: int
  avg_queue_depth :: flt
  max_utilization :: flt
  avg_utilization :: flt
  threshold_crossed :: bool
  sustained_depth :: bool
  sustained_utilization :: bool
  sustained_trigger :: bool
  triggers_met :: bool
  scaling_verdict :: verdict

definition window_days :: "string \<Rightarrow> int" where
  "window_days w = (if w = ''1d'' then 1 else if w = ''7d'' then 7 else if w = ''30d'' then 30
     else if w = ''90d'' then 90 else 7)"

definition choose_verdict :: "bool \<Rightarrow> bool \<Rightarrow> verdict" where
  "choose_verdict sustained crossed =
     (if sustained then Outcome_A_Triggered
      else if crossed then Outcome_B_Transient_Spike else Outcome_B_Never_Crossed)"

definition get_historical_scaling_telemetry ::
    "scaling_settings \<Rightarrow> (flt list \<Rightarrow> flt) \<Rightarrow> int \<Rightarrow> string \<Rightarrow> int \<Rightarrow> flt \<Rightarrow> flt \<Rightarrow> flt \<Rightarrow> sample list \<Rightarrow> scaling_history" where
  "get_historical_scaling_telemetry cfg sql_avg now win qd_threshold qd_dur ut_threshold ut_dur tbl =
     (let rows = filter (\<lambda>s. ts s \<ge> now - days_us (window_days win)) tbl;
          max_qd = (if rows = [] then 0 else Max (set (map queue_depth rows)));
          avg_qd = (if rows = [] then 0 else sql_avg (map (\<lambda>s. of_int (queue_depth s)) rows));
          max_ut = (if rows = [] then 0 else Max (set (map utilization rows)));
          avg_ut = (if rows = [] then 0 else sql_avg (map utilization rows));
          crossed = (max_qd > qd_threshold \<or> max_ut \<ge> ut_threshold);
          samples = sort_key ts rows;
          gap = max 600 (fmul 2 (fl64 (of_int (scaling_summary_interval_s cfg))));
          sd = evaluate_sustained_queue_depth_breach samples qd_threshold qd_dur gap;
          su = evaluate_sustained_utilization_breach samples ut_threshold ut_dur gap
      in \<lparr>window = win, sample_count = length rows, max_queue_depth = max_qd, avg_queue_depth = fround 2 avg_qd,
          max_utilization = fround 2 max_ut, avg_utilization = fround 2 avg_ut, threshold_crossed = crossed,
          sustained_depth = sd, sustained_utilization = su, sustained_trigger = (sd \<or> su), triggers_met = (sd \<or> su),
          scaling_verdict = choose_verdict (sd \<or> su) crossed\<rparr>)"

section \<open>The run detector\<close>

text \<open>A run of breaching samples from position \<open>i\<close> to position \<open>j\<close> without a long gap.\<close>

definition run :: "(sample \<Rightarrow> bool) \<Rightarrow> flt \<Rightarrow> sample list \<Rightarrow> nat \<Rightarrow> nat \<Rightarrow> bool" where
  "run breach gap xs i j \<longleftrightarrow>
     i \<le> j \<and> j < length xs \<and> (\<forall>k\<in>{i..j}. breach (xs ! k)) \<and>
     (\<forall>k\<in>{i..<j}. elapsed_s (ts (xs ! Suc k)) (ts (xs ! k)) \<le> gap)"

definition sustained_run :: "(sample \<Rightarrow> bool) \<Rightarrow> flt \<Rightarrow> flt \<Rightarrow> sample list \<Rightarrow> bool" where
  "sustained_run breach dur gap xs \<longleftrightarrow>
     (\<exists>j<length xs. \<exists>i\<le>j. run breach gap xs i j \<and> dur \<le> elapsed_s (ts (xs ! j)) (ts (xs ! i)))"

lemma run_step:
  "n < length xs \<Longrightarrow> run breach gap xs i n \<longleftrightarrow>
     breach (xs ! n) \<and> (i = n \<or> 0 < n \<and> run breach gap xs i (n - 1) \<and>
       elapsed_s (ts (xs ! n)) (ts (xs ! (n - 1))) \<le> gap)"
  by (cases n) (auto simp: run_def le_Suc_eq less_Suc_eq atLeastAtMostSuc_conv atLeastLessThanSuc)

lemma elapsed_s_antimono: "a \<le> b \<Longrightarrow> elapsed_s t b \<le> elapsed_s t a"
  unfolding elapsed_s_def by (intro fl64_mono divide_right_mono) auto

text \<open>What the two variables of the loop hold before position \<open>n\<close>: the start of the longest run
  that ends just before it.\<close>

definition loop_inv ::
    "(sample \<Rightarrow> bool) \<Rightarrow> flt \<Rightarrow> sample list \<Rightarrow> nat \<Rightarrow> int option \<Rightarrow> int option \<Rightarrow> bool" where
  "loop_inv breach gap xs n start prev \<longleftrightarrow>
     (case start of
        None \<Rightarrow> prev = None \<and> (\<forall>i. 0 < n \<longrightarrow> \<not> run breach gap xs i (n - 1))
      | Some t \<Rightarrow> 0 < n \<and> prev = Some (ts (xs ! (n - 1))) \<and>
          (\<exists>a. run breach gap xs a (n - 1) \<and> t = ts (xs ! a) \<and>
               (\<forall>i. run breach gap xs i (n - 1) \<longrightarrow> a \<le> i)))"

text \<open>The start the loop keeps at a breaching sample.\<close>

definition next_start :: "flt \<Rightarrow> int option \<Rightarrow> int option \<Rightarrow> int \<Rightarrow> int" where
  "next_start gap start prev t =
     (case start of None \<Rightarrow> t
      | Some t0 \<Rightarrow> (case prev of None \<Rightarrow> t0 | Some l \<Rightarrow> if elapsed_s t l > gap then t else t0))"

lemma sustained_from_Cons:
  "sustained_from breach dur gap start prev (s # ss) =
     (if breach s
      then elapsed_s (ts s) (next_start gap start prev (ts s)) \<ge> dur \<or>
           sustained_from breach dur gap (Some (next_start gap start prev (ts s))) (Some (ts s)) ss
      else sustained_from breach dur gap None None ss)"
  by (simp add: next_start_def Let_def)

lemma loop_inv_breach:
  assumes inv: "loop_inv breach gap xs n start prev" and n: "n < length xs" and b: "breach (xs ! n)"
  obtains a where "run breach gap xs a n" "next_start gap start prev (ts (xs ! n)) = ts (xs ! a)"
    "\<And>i. run breach gap xs i n \<Longrightarrow> a \<le> i"
proof (cases start)
  case None
  with inv b show thesis
    by (intro that [of n]) (auto simp: run_step [OF n] loop_inv_def next_start_def)
next
  case (Some t)
  with inv obtain a where a: "0 < n" "prev = Some (ts (xs ! (n - 1)))" "run breach gap xs a (n - 1)"
    "t = ts (xs ! a)" and least: "\<And>i. run breach gap xs i (n - 1) \<Longrightarrow> a \<le> i"
    by (auto simp: loop_inv_def)
  have le: "a \<le> n"
    using a by (auto simp: run_def)
  show thesis
  proof (cases "elapsed_s (ts (xs ! n)) (ts (xs ! (n - 1))) \<le> gap")
    case True
    with a b Some le least show thesis
      by (intro that [of a]) (auto simp: run_step [OF n] next_start_def)
  next
    case False
    with a b Some show thesis
      by (intro that [of n]) (auto simp: run_step [OF n] next_start_def)
  qed
qed

lemma sustained_from_run:
  assumes srt: "sorted (map ts xs)"
  shows "loop_inv breach gap xs n start prev \<Longrightarrow> n \<le> length xs \<Longrightarrow>
    sustained_from breach dur gap start prev (drop n xs) \<longleftrightarrow>
    (\<exists>j<length xs. n \<le> j \<and> (\<exists>i\<le>j. run breach gap xs i j \<and> dur \<le> elapsed_s (ts (xs ! j)) (ts (xs ! i))))"
proof (induction "length xs - n" arbitrary: n start prev)
  case 0
  then show ?case by auto
next
  case (Suc m)
  then have n: "n < length xs" and m: "m = length xs - Suc n" by auto
  have split: "(\<exists>j<length xs. n \<le> j \<and> P j) \<longleftrightarrow> P n \<or> (\<exists>j<length xs. Suc n \<le> j \<and> P j)" for P :: "nat \<Rightarrow> bool"
    using n by (metis Suc_leD Suc_leI le_eq_less_or_eq)
  have d: "drop n xs = xs ! n # drop (Suc n) xs"
    using n by (rule Cons_nth_drop_Suc [symmetric])
  show ?case
  proof (cases "breach (xs ! n)")
    case True
    obtain a where a: "run breach gap xs a n" "next_start gap start prev (ts (xs ! n)) = ts (xs ! a)"
      and least: "\<And>i. run breach gap xs i n \<Longrightarrow> a \<le> i"
      using loop_inv_breach [OF Suc.prems(1) n True] by metis
    have inv: "loop_inv breach gap xs (Suc n) (Some (ts (xs ! a))) (Some (ts (xs ! n)))"
      using a least by (auto simp: loop_inv_def)
    have "dur \<le> elapsed_s (ts (xs ! n)) (ts (xs ! a))"
      if "run breach gap xs i n" "dur \<le> elapsed_s (ts (xs ! n)) (ts (xs ! i))" for i
    proof -
      have "ts (xs ! a) \<le> ts (xs ! i)"
        using sorted_nth_mono [OF srt least [OF that(1)]] that(1) n least [OF that(1)] by (auto simp: run_def)
      then show ?thesis
        using elapsed_s_antimono [of "ts (xs ! a)" "ts (xs ! i)" "ts (xs ! n)"] that(2) by simp
    qed
    then have "(\<exists>i\<le>n. run breach gap xs i n \<and> dur \<le> elapsed_s (ts (xs ! n)) (ts (xs ! i))) \<longleftrightarrow>
        dur \<le> elapsed_s (ts (xs ! n)) (ts (xs ! a))"
      using a(1) by (auto simp: run_def)
    then show ?thesis
      unfolding d sustained_from_Cons split using Suc.hyps(1) [OF m inv] n True a(2) by simp
  next
    case False
    then have none: "\<not> run breach gap xs i n" for i
      by (simp add: run_step [OF n])
    then have "loop_inv breach gap xs (Suc n) None None"
      by (simp add: loop_inv_def)
    then show ?thesis
      unfolding d sustained_from_Cons split using Suc.hyps(1) [OF m] n False none by simp
  qed
qed

lemma sustained_from_correct:
  "sorted (map ts xs) \<Longrightarrow> sustained_from breach dur gap None None xs = sustained_run breach dur gap xs"
  using sustained_from_run [of xs breach gap 0 None None dur] by (simp add: loop_inv_def sustained_run_def)

lemma sustained_run_breach:
  "sustained_run breach dur gap xs \<Longrightarrow> \<exists>s\<in>set xs. breach s"
  unfolding sustained_run_def run_def by fastforce

section \<open>The verdict\<close>

text \<open>The rows of the window in time order.\<close>

definition window_samples :: "int \<Rightarrow> string \<Rightarrow> sample list \<Rightarrow> sample list" where
  "window_samples now win tbl = sort_key ts (filter (\<lambda>s. ts s \<ge> now - days_us (window_days win)) tbl)"

definition max_gap :: "scaling_settings \<Rightarrow> flt" where
  "max_gap cfg = max 600 (fmul 2 (fl64 (of_int (scaling_summary_interval_s cfg))))"

lemma sorted_window_samples: "sorted (map ts (window_samples now win tbl))"
  by (simp add: window_samples_def)

lemma history_flags:
  fixes cfg avg now win qt qd ut ud tbl
  defines "h \<equiv> get_historical_scaling_telemetry cfg avg now win qt qd ut ud tbl"
    and "ws \<equiv> window_samples now win tbl"
  shows "sustained_depth h = sustained_run (\<lambda>s. queue_depth s > qt) qd (max_gap cfg) ws"
    and "sustained_utilization h = sustained_run (\<lambda>s. utilization s \<ge> ut) ud (max_gap cfg) ws"
    and "ws \<noteq> [] \<Longrightarrow> threshold_crossed h \<longleftrightarrow> (\<exists>s\<in>set ws. queue_depth s > qt \<or> utilization s \<ge> ut)"
    and "sustained_trigger h \<longleftrightarrow> sustained_depth h \<or> sustained_utilization h"
    and "triggers_met h = sustained_trigger h"
    and "scaling_verdict h = choose_verdict (sustained_trigger h) (threshold_crossed h)"
    and "sample_count h = length ws"
proof -
  have eq: "sustained_from b d g None None ws = sustained_run b d g ws" for b d g
    unfolding ws_def by (rule sustained_from_correct [OF sorted_window_samples])
  show "sustained_depth h = sustained_run (\<lambda>s. queue_depth s > qt) qd (max_gap cfg) ws"
    and "sustained_utilization h = sustained_run (\<lambda>s. utilization s \<ge> ut) ud (max_gap cfg) ws"
    unfolding eq [symmetric]
    by (simp_all add: h_def ws_def get_historical_scaling_telemetry_def window_samples_def max_gap_def
        evaluate_sustained_queue_depth_breach_def evaluate_sustained_utilization_breach_def Let_def)
  show "sustained_trigger h \<longleftrightarrow> sustained_depth h \<or> sustained_utilization h"
    "triggers_met h = sustained_trigger h"
    "scaling_verdict h = choose_verdict (sustained_trigger h) (threshold_crossed h)"
    "sample_count h = length ws"
    by (simp_all add: h_def ws_def get_historical_scaling_telemetry_def window_samples_def Let_def)
  show "threshold_crossed h \<longleftrightarrow> (\<exists>s\<in>set ws. queue_depth s > qt \<or> utilization s \<ge> ut)" if "ws \<noteq> []"
  proof -
    define rows where "rows = filter (\<lambda>s. ts s \<ge> now - days_us (window_days win)) tbl"
    have rows: "rows \<noteq> []" "set ws = set rows"
      using that by (auto simp: ws_def window_samples_def rows_def)
    have "threshold_crossed h \<longleftrightarrow>
        Max (queue_depth ` set rows) > qt \<or> Max (utilization ` set rows) \<ge> ut"
      using rows(1) by (simp add: h_def get_historical_scaling_telemetry_def rows_def Let_def)
    also have "\<dots> \<longleftrightarrow> (\<exists>s\<in>set ws. queue_depth s > qt \<or> utilization s \<ge> ut)"
      using rows by (auto simp: Max_gr_iff Max_ge_iff)
    finally show ?thesis .
  qed
qed

text \<open>C23: The historical verdict is right. Over the samples of the requested window in time order, the
  trigger is reported exactly when there is a run of consecutive samples, all breaching the
  queue-depth threshold (or all reaching the utilisation threshold), no two neighbours further apart
  than the allowed gap, that spans at least the required duration; the one-pass loop with its two
  variables therefore misses no run and invents none. The verdict is \<open>Outcome_A_Triggered\<close> then, a
  transient spike when some sample crosses a threshold without such a run, and never crossed
  otherwise; in particular a trigger is never reported when no sample crosses a threshold.
\<close>

theorem scaling_verdict_exact:
  assumes "window_samples now win tbl \<noteq> []"
  shows "let h = get_historical_scaling_telemetry cfg avg now win qt qd ut ud tbl;
             ws = window_samples now win tbl;
             sustained = sustained_run (\<lambda>s. queue_depth s > qt) qd (max_gap cfg) ws \<or>
                         sustained_run (\<lambda>s. utilization s \<ge> ut) ud (max_gap cfg) ws;
             crossed = (\<exists>s\<in>set ws. queue_depth s > qt \<or> utilization s \<ge> ut)
         in triggers_met h = sustained \<and> threshold_crossed h = crossed \<and> (\<not> sustained \<or> crossed) \<and>
            (scaling_verdict h = Outcome_A_Triggered) = sustained \<and>
            (scaling_verdict h = Outcome_B_Transient_Spike) = (crossed \<and> \<not> sustained) \<and>
            (scaling_verdict h = Outcome_B_Never_Crossed) = (\<not> crossed)"
proof -
  note flags = history_flags [where cfg = cfg and avg = avg and now = now and win = win and qt = qt
      and qd = qd and ut = ut and ud = ud and tbl = tbl]
  have crossed: "\<exists>s\<in>set (window_samples now win tbl). queue_depth s > qt \<or> utilization s \<ge> ut"
    if "sustained_run (\<lambda>s. queue_depth s > qt) qd (max_gap cfg) (window_samples now win tbl) \<or>
        sustained_run (\<lambda>s. utilization s \<ge> ut) ud (max_gap cfg) (window_samples now win tbl)"
    using that sustained_run_breach by blast
  show ?thesis
    unfolding Let_def flags(4,5,6) flags(1,2) flags(3) [OF assms] choose_verdict_def
    using crossed by auto
qed

definition example_samples :: "sample list" where
  "example_samples =
     map (\<lambda>(q, t). \<lparr>queue_depth = q, utilization = 50, active_workers = 2, busy_workers = 1,
        recommended = 2, ts = t * 1000000\<rparr>) [(30, 0), (30, 500), (30, 1000), (3, 1300)]"

definition example_scaling :: scaling_settings where
  "example_scaling = \<lparr>worker_pool_size = 2, worker_target_max_wait_s = 60, scaling_summary_interval_s = 300\<rparr>"

lemma example_window: "window_samples 2000000000 ''1d'' example_samples = example_samples"
  by code_simp

theorem scaling_verdict_exact_witness:
  "triggers_met (get_historical_scaling_telemetry example_scaling (\<lambda>_. 0) 2000000000 ''1d'' 20 900 100 600 example_samples)
     = (sustained_run (\<lambda>s. queue_depth s > 20) 900 (max_gap example_scaling) example_samples \<or>
        sustained_run (\<lambda>s. utilization s \<ge> 100) 600 (max_gap example_scaling) example_samples)
   \<and> threshold_crossed (get_historical_scaling_telemetry example_scaling (\<lambda>_. 0) 2000000000 ''1d'' 20 900 100 600 example_samples)"
proof -
  have ne: "example_samples \<noteq> []" "\<exists>s\<in>set example_samples. queue_depth s > 20"
    by (simp_all add: example_samples_def)
  show ?thesis
    using scaling_verdict_exact [of 2000000000 "''1d''" example_samples example_scaling "\<lambda>_. 0" 20 900 100 600] ne
    unfolding example_window Let_def by auto
qed

section \<open>Sizing\<close>

definition clamped_load :: "int \<Rightarrow> flt \<Rightarrow> flt" where
  "clamped_load depth a = of_int (max 0 depth) * max MIN_AVG_JOB_DURATION_S a"

lemma min_positive: "0 < MIN_AVG_JOB_DURATION_S" "0 < MIN_TARGET_WAIT_S"
  by (simp_all add: MIN_AVG_JOB_DURATION_S_def MIN_TARGET_WAIT_S_def fl64_pos)

lemma recommended_pool_size_alt:
  "recommended_pool_size cfg depth a w =
     max (max 1 (worker_pool_size cfg))
       \<lceil>fdiv (fmul (fl64 (of_int (max 0 depth))) (max MIN_AVG_JOB_DURATION_S a)) (max MIN_TARGET_WAIT_S w)\<rceil>"
  by (auto simp: recommended_pool_size_def Let_def fmul_def fdiv_def)

lemma fl64_near:
  assumes "0 \<le> x"
  shows "x * (1 - 1 / 2 ^ 53) \<le> fl64 x" "fl64 x \<le> x * (1 + 1 / 2 ^ 53)"
proof -
  have "\<bar>fl64 x - x\<bar> \<le> x / 2 ^ 53"
    using fl64_error [of x] assms by simp
  then have "fl64 x - x \<le> x / 2 ^ 53" "x - fl64 x \<le> x / 2 ^ 53"
    unfolding abs_le_iff by simp_all
  then show "x * (1 - 1 / 2 ^ 53) \<le> fl64 x" "fl64 x \<le> x * (1 + 1 / 2 ^ 53)"
    by (simp_all add: algebra_simps)
qed

lemma fl64_between:
  assumes "0 \<le> l" "l \<le> x" "x \<le> u"
  shows "l * (1 - 1 / 2 ^ 53) \<le> fl64 x" "fl64 x \<le> u * (1 + 1 / 2 ^ 53)"
proof -
  have "l * (1 - 1 / 2 ^ 53) \<le> x * (1 - 1 / 2 ^ 53)" "x * (1 + 1 / 2 ^ 53) \<le> u * (1 + 1 / 2 ^ 53)"
    using assms by (auto intro!: mult_right_mono)
  then show "l * (1 - 1 / 2 ^ 53) \<le> fl64 x" "fl64 x \<le> u * (1 + 1 / 2 ^ 53)"
    using fl64_near [of x] assms by auto
qed

lemma capacity_mono:
  assumes "d \<le> d'" "a \<le> a'" "w' \<le> w"
  shows "recommended_pool_size cfg d a w \<le> recommended_pool_size cfg d' a' w'"
proof -
  let ?q = "\<lambda>d a. fmul (fl64 (of_int (max 0 d))) (max MIN_AVG_JOB_DURATION_S a)"
  have pos: "0 \<le> ?q d a" for d a
    unfolding fmul_def using min_positive(1) by (intro fl64_nonneg mult_nonneg_nonneg) (auto simp: fl64_nonneg)
  have q: "?q d a \<le> ?q d' a'"
    unfolding fmul_def using assms(1,2) min_positive(1)
    by (intro fl64_mono mult_mono) (auto simp: fl64_nonneg intro: fl64_mono)
  have "?q d a / max MIN_TARGET_WAIT_S w \<le> ?q d' a' / max MIN_TARGET_WAIT_S w'"
    by (rule frac_le [OF pos q]) (use assms(3) min_positive(2) in auto)
  then have "\<lceil>fdiv (?q d a) (max MIN_TARGET_WAIT_S w)\<rceil> \<le> \<lceil>fdiv (?q d' a') (max MIN_TARGET_WAIT_S w')\<rceil>"
    unfolding fdiv_def by (intro ceiling_mono fl64_mono)
  then show ?thesis
    unfolding recommended_pool_size_alt by (intro max.mono) auto
qed

lemma capacity_bounds:
  fixes d :: int and a w :: flt
  assumes "0 \<le> d" "0 < a" "0 < w"
  defines "c \<equiv> fdiv (fmul (fl64 (of_int d)) a) w" and "load \<equiv> of_int d * a"
  shows "load * (1 - 1 / 2 ^ 53) ^ 3 \<le> c * w" "c * w \<le> load * (1 + 1 / 2 ^ 53) ^ 3"
proof -
  define e :: flt where "e = 1 / 2 ^ 53"
  have e: "0 < e" "e < 1" by (simp_all add: e_def)
  let ?d = "of_int d :: flt" let ?q = "fmul (fl64 ?d) a"
  note near = fl64_between [folded e_def]
  have d: "?d * (1 - e) \<le> fl64 ?d" "fl64 ?d \<le> ?d * (1 + e)"
    using near [of ?d ?d ?d] assms(1) by auto
  have "load * (1 - e) \<le> fl64 ?d * a" "fl64 ?d * a \<le> load * (1 + e)"
    using mult_right_mono [OF d(1), of a] mult_right_mono [OF d(2), of a] assms(2)
    by (simp_all add: load_def ac_simps)
  moreover have "0 \<le> load * (1 - e)"
    using assms(1,2) e by (simp add: load_def)
  ultimately have q: "load * (1 - e) * (1 - e) \<le> ?q" "?q \<le> load * (1 + e) * (1 + e)"
    unfolding fmul_def using near by blast+
  have "load * (1 - e) * (1 - e) / w \<le> ?q / w" "?q / w \<le> load * (1 + e) * (1 + e) / w"
    using q assms(3) by (auto intro: divide_right_mono)
  moreover have "0 \<le> load * (1 - e) * (1 - e) / w"
    using assms(1,2,3) e by (simp add: load_def)
  ultimately have "load * (1 - e) * (1 - e) / w * (1 - e) \<le> c" "c \<le> load * (1 + e) * (1 + e) / w * (1 + e)"
    unfolding c_def fdiv_def using near by blast+
  then show "load * (1 - 1 / 2 ^ 53) ^ 3 \<le> c * w" "c * w \<le> load * (1 + 1 / 2 ^ 53) ^ 3"
    unfolding e_def [symmetric] using assms(3) by (simp_all add: field_simps power3_eq_cube)
qed

lemma recommended_pool_size_facts:
  shows "recommended_pool_size cfg d a w \<ge> max 1 (worker_pool_size cfg)"
    and "d \<le> d' \<Longrightarrow> a \<le> a' \<Longrightarrow> w' \<le> w \<Longrightarrow>
      recommended_pool_size cfg d a w \<le> recommended_pool_size cfg d' a' w'"
    and "of_int (recommended_pool_size cfg d a w) * max MIN_TARGET_WAIT_S w
      \<ge> clamped_load d a * (1 - 1 / 2 ^ 53) ^ 3"
    and "recommended_pool_size cfg d a w > max 1 (worker_pool_size cfg) \<Longrightarrow>
      of_int (recommended_pool_size cfg d a w - 1) * max MIN_TARGET_WAIT_S w
      < clamped_load d a * (1 + 1 / 2 ^ 53) ^ 3"
proof -
  let ?w = "max MIN_TARGET_WAIT_S w" and ?r = "recommended_pool_size cfg d a w"
  define c where "c = fdiv (fmul (fl64 (of_int (max 0 d))) (max MIN_AVG_JOB_DURATION_S a)) ?w"
  have r: "?r = max (max 1 (worker_pool_size cfg)) \<lceil>c\<rceil>"
    by (simp add: recommended_pool_size_alt c_def)
  have w: "0 < ?w" using min_positive(2) by (simp add: less_max_iff_disj)
  have c: "clamped_load d a * (1 - 1 / 2 ^ 53) ^ 3 \<le> c * ?w" "c * ?w \<le> clamped_load d a * (1 + 1 / 2 ^ 53) ^ 3"
    using capacity_bounds [of "max 0 d" "max MIN_AVG_JOB_DURATION_S a" ?w] w min_positive(1)
    by (simp_all only: c_def clamped_load_def less_max_iff_disj max.cobounded1 simp_thms)
  show "?r \<ge> max 1 (worker_pool_size cfg)" unfolding r by simp
  show "recommended_pool_size cfg d a w \<le> recommended_pool_size cfg d' a' w'"
    if "d \<le> d'" "a \<le> a'" "w' \<le> w"
    using that by (rule capacity_mono)
  have "c \<le> of_int \<lceil>c\<rceil>" "of_int \<lceil>c\<rceil> \<le> (of_int ?r :: flt)"
    unfolding r by (simp_all only: le_of_int_ceiling of_int_le_iff max.cobounded2)
  then have "c \<le> of_int ?r" by (rule order_trans)
  then have "c * ?w \<le> of_int ?r * ?w"
    using w by (intro mult_right_mono) auto
  with c(1) show "of_int ?r * ?w \<ge> clamped_load d a * (1 - 1 / 2 ^ 53) ^ 3"
    by (rule order_trans)
  show "of_int (?r - 1) * ?w < clamped_load d a * (1 + 1 / 2 ^ 53) ^ 3"
    if "?r > max 1 (worker_pool_size cfg)"
  proof -
    have "?r = \<lceil>c\<rceil>" using that unfolding r by (simp add: max_def split: if_splits)
    then have "of_int (?r - 1) < c" using ceiling_correct [of c] by simp
    then have "of_int (?r - 1) * ?w < c * ?w" using w by (intro mult_strict_right_mono)
    with c(2) show ?thesis by (rule order.strict_trans2 [rotated])
  qed
qed

text \<open>The recommended pool size is sound and not wasteful. It is never below one worker nor below the
  configured minimum; it grows with the queue and with the job duration and shrinks as the allowed
  wait grows; the pool it recommends works off the whole (clamped) load within the (clamped) target
  wait up to the rounding of three float operations; and when it exceeds the minimum, one worker less
  would not, up to the same rounding.
\<close>

theorem recommended_pool_size_bounds:
  fixes cfg d a w
  defines "r \<equiv> recommended_pool_size cfg d a w"
  assumes "d \<le> d'" "a \<le> a'" "w' \<le> w"
  shows "max 1 (worker_pool_size cfg) \<le> r \<and>
    r \<le> recommended_pool_size cfg d' a' w' \<and>
    of_int r * max MIN_TARGET_WAIT_S w \<ge> clamped_load d a * (1 - 1 / 2 ^ 53) ^ 3 \<and>
    (r = max 1 (worker_pool_size cfg) \<or>
     of_int (r - 1) * max MIN_TARGET_WAIT_S w < clamped_load d a * (1 + 1 / 2 ^ 53) ^ 3)"
  unfolding r_def
  using recommended_pool_size_facts(1) [of cfg d a w] recommended_pool_size_facts(2) [OF assms(2-4), of cfg]
    recommended_pool_size_facts(3) [of d a cfg w] recommended_pool_size_facts(4) [of cfg d a w]
  by (auto simp: order.order_iff_strict)

theorem recommended_pool_size_bounds_witness:
  "recommended_pool_size example_scaling 10 30 60 = 5 \<and>
   recommended_pool_size example_scaling 10 30 60 \<le> recommended_pool_size example_scaling 12 30 60 \<and>
   of_int (5 - 1) * max MIN_TARGET_WAIT_S 60 < clamped_load 10 30 * (1 + 1 / 2 ^ 53) ^ 3"
proof -
  have five: "recommended_pool_size example_scaling 10 30 60 = 5"
    by code_simp
  show ?thesis
    using recommended_pool_size_bounds [of 10 12 30 30 60 60 example_scaling] five
    by (simp add: example_scaling_def)
qed

end
