(* ===== verification/Registry.thy ===== *)
theory Registry
  imports Evidence
begin

text \<open>
  The agent registry (\<open>orchestrator/agents/registry.py\<close>), the plugin loader
  (\<open>orchestrator/agents/plugin_loader.py\<close>), the runner contract check
  (\<open>eval/agent_contract_validator.py\<close>) and the plugin start-up of a worker
  (\<open>workers/worker.py\<close>). Parameters: \<open>spec_contains\<close> is the version specifier test of the
  \<open>packaging\<close> library (\<open>None\<close> for an invalid specifier), \<open>getenv\<close> the process
  environment, \<open>import_attr\<close> the Python import system and \<open>gaiaos_version\<close> the installed
  version. The wording of error messages is abridged.
\<close>

section \<open>Runners, manifests and registry\<close>

text \<open>What the code inspects of an annotation: absent, the expected class (or a subclass), or other.\<close>

datatype annot = Ann_Empty | Ann_Agent_Input | Ann_Agent_Output | Ann_Other string

text \<open>A callable as \<open>inspect\<close> sees it; \<open>body\<close> is what calling it does.\<close>

record 'b runner =
  is_coroutine :: bool
  params :: "(string \<times> annot) list"
  return_annot :: annot
  body :: 'b

record plugin_manifest =
  pm_name :: string
  pm_version :: string
  pm_domain :: string
  pm_entry_point :: string
  gaiaos_version_range :: string
  required_settings :: "string list"
  eval_benchmark_question_ids :: "string list"

record 'b registered_plugin =
  rp_manifest :: plugin_manifest
  rp_runner :: "'b runner"
  rp_status :: string

record 'b agent_registry =
  first_party_registry :: "(string, 'b runner) dict"
  plugin_registry :: "(string, 'b registered_plugin) dict"

definition AgentRegistry :: "'b agent_registry" where
  "AgentRegistry = \<lparr>first_party_registry = [], plugin_registry = []\<rparr>"

definition register :: "string \<Rightarrow> 'b runner \<Rightarrow> 'b agent_registry \<Rightarrow> 'b agent_registry" where
  "register name r reg =
     reg\<lparr>first_party_registry := dict_set name r (first_party_registry reg)\<rparr>"

definition register_plugin ::
    "plugin_manifest \<Rightarrow> 'b runner \<Rightarrow> 'b agent_registry \<Rightarrow> 'b agent_registry py" where
  "register_plugin mf r reg =
     (let d = pm_domain mf
      in if dict_get (first_party_registry reg) d \<noteq> None then
           Inl (Duplicate_Domain_Error (''Plugin '' @ pm_name mf @ '' attempted to register domain '' @ d @
             '', which collides with a core first-party agent domain.''))
         else case dict_get (plugin_registry reg) d of
           Some existing \<Rightarrow>
             Inl (Duplicate_Domain_Error (''Plugin '' @ pm_name mf @ '' attempted to register domain '' @ d @
               '', which collides with already-registered plugin '' @ pm_name (rp_manifest existing)))
         | None \<Rightarrow> Inr (reg\<lparr>plugin_registry :=
             dict_set d \<lparr>rp_manifest = mf, rp_runner = r, rp_status = ''active''\<rparr> (plugin_registry reg)\<rparr>))"

definition registry_get :: "'b agent_registry \<Rightarrow> string \<Rightarrow> 'b runner py" where
  "registry_get reg name =
     (case dict_get (first_party_registry reg) name of
        Some r \<Rightarrow> Inr r
      | None \<Rightarrow> (case dict_get (plugin_registry reg) name of
          Some p \<Rightarrow> Inr (rp_runner p)
        | None \<Rightarrow> Inl (Value_Error (''Agent '' @ name @ '' is not registered.''))))"

definition list_domains :: "'b agent_registry \<Rightarrow> string list" where
  "list_domains reg = dict_keys (first_party_registry reg) @ dict_keys (plugin_registry reg)"

definition get_plugin_manifest :: "'b agent_registry \<Rightarrow> string \<Rightarrow> plugin_manifest option" where
  "get_plugin_manifest reg d = map_option rp_manifest (dict_get (plugin_registry reg) d)"

definition core_domains :: "string list" where
  "core_domains = [''air_quality'', ''seismic'', ''ocean'', ''atmosphere'', ''wildfire'',
     ''literature'', ''causal_chain'']"

text \<open>\<open>register_agents\<close>: domains that are already present are skipped. \<open>core\<close> gives the
  imported runner of each core domain.\<close>

definition register_agents :: "(string \<Rightarrow> 'b runner) \<Rightarrow> 'b agent_registry \<Rightarrow> 'b agent_registry" where
  "register_agents core reg =
     fold (\<lambda>d reg. if dict_get (first_party_registry reg) d = None then register d (core d) reg else reg)
       core_domains reg"

section \<open>The runner contract\<close>

definition validate_runner_contract :: "'b runner \<Rightarrow> string \<Rightarrow> string list" where
  "validate_runner_contract r d =
     (if \<not> is_coroutine r then [''Agent '' @ d @ '' runner callable is not an async coroutine function.'']
      else case params r of
        [] \<Rightarrow> [''Agent '' @ d @ '' runner takes 0 parameters.'']
      | p # _ \<Rightarrow>
          (case snd p of
             Ann_Empty \<Rightarrow> [] | Ann_Agent_Input \<Rightarrow> []
           | _ \<Rightarrow> [''Agent '' @ d @ '' first parameter '' @ fst p @ '' has the wrong type.'']) @
          (case return_annot r of
             Ann_Empty \<Rightarrow> [] | Ann_Agent_Output \<Rightarrow> []
           | _ \<Rightarrow> [''Agent '' @ d @ '' return annotation is wrong.'']))"

section \<open>Plugin loading\<close>

text \<open>The Python objects an entry point or an import can give.\<close>

datatype 'b pyobj =
    Obj_Manifest plugin_manifest
  | Obj_Module "plugin_manifest option"
  | Obj_Callable "plugin_manifest option" "plugin_manifest option" "'b runner"
  | Obj_Str string
  | Obj_Other

text \<open>\<open>Obj_Module m\<close> is a module with attribute \<open>MANIFEST = m\<close> if present;
  \<open>Obj_Callable c i r\<close> a callable with attributes \<open>MANIFEST = c\<close> and \<open>__manifest__ = i\<close>.\<close>

record 'b entry_point =
  ep_name :: string
  ep_value :: string
  ep_load :: "'b pyobj py"

definition entry_manifest :: "'b entry_point \<Rightarrow> 'b pyobj \<Rightarrow> (plugin_manifest \<times> 'b pyobj) option" where
  "entry_manifest ep obj =
     (case obj of
        Obj_Manifest mf \<Rightarrow> Some (mf, Obj_Str (ep_value ep))
      | Obj_Module (Some mf) \<Rightarrow> Some (mf, obj)
      | Obj_Callable (Some mf) _ _ \<Rightarrow> Some (mf, obj)
      | Obj_Callable None (Some mf) _ \<Rightarrow> Some (mf, obj)
      | _ \<Rightarrow> None)"

fun exc_str :: "py_exc \<Rightarrow> string" where
  "exc_str (Value_Error s) = s"
| "exc_str (Type_Error s) = s"
| "exc_str (Key_Error s) = s"
| "exc_str (Runtime_Error s) = s"
| "exc_str (Timeout_Error s) = s"
| "exc_str (Validation_Error s) = s"
| "exc_str (HTTP_Error s) = s"
| "exc_str (HTTP_Exception i s) = s"
| "exc_str (Plugin_Validation_Error s) = s"
| "exc_str (Incompatible_Version_Error s) = s"
| "exc_str (Duplicate_Domain_Error s) = s"
| "exc_str Multiple_Results_Found = ''Multiple rows were found''"
| "exc_str Integrity_Error = ''IntegrityError''"
| "exc_str (Other_Error s) = s"

fun discover_entries ::
    "bool \<Rightarrow> 'b entry_point list \<Rightarrow> (plugin_manifest \<times> 'b pyobj) list py" where
  "discover_entries strict [] = Inr []"
| "discover_entries strict (ep # eps) =
     (case ep_load ep of
        Inl e \<Rightarrow> (if strict
                 then Inl (Plugin_Validation_Error (''Failed to load entry point '' @ ep_name ep @ '': '' @ exc_str e))
                 else discover_entries strict eps)
      | Inr obj \<Rightarrow> py_bind (discover_entries strict eps) (\<lambda>rest.
          Inr (case entry_manifest ep obj of None \<Rightarrow> rest | Some p \<Rightarrow> p # rest)))"

definition discover_plugins ::
    "bool \<Rightarrow> bool \<Rightarrow> 'b entry_point list py \<Rightarrow> (plugin_manifest \<times> 'b pyobj) list py" where
  "discover_plugins enabled strict eps =
     (if \<not> enabled then Inr []
      else case eps of Inl _ \<Rightarrow> Inr [] | Inr eps \<Rightarrow> discover_entries strict eps)"

definition validate_plugin_compatibility ::
    "(string \<Rightarrow> string \<Rightarrow> bool option) \<Rightarrow> string \<Rightarrow> plugin_manifest \<Rightarrow> unit py" where
  "validate_plugin_compatibility spec_contains gaiaos_version mf =
     (let rng = str_strip (gaiaos_version_range mf)
      in if rng = [] then Inr ()
         else case spec_contains rng gaiaos_version of
           None \<Rightarrow> Inl (Incompatible_Version_Error (''invalid gaiaos_version_range '' @ rng))
         | Some False \<Rightarrow> Inl (Incompatible_Version_Error (''requires GaiaOS version '' @ rng))
         | Some True \<Rightarrow> Inr ())"

definition validate_required_settings ::
    "(string \<Rightarrow> string option) \<Rightarrow> plugin_manifest \<Rightarrow> unit py" where
  "validate_required_settings getenv mf =
     (let missing = filter (\<lambda>req. getenv req \<in> {None, Some []}) (required_settings mf)
      in if missing \<noteq> []
         then Inl (Plugin_Validation_Error (''Plugin '' @ pm_name mf @
                '' is missing required setting(s): '' @ str_join '', '' missing))
         else Inr ())"

text \<open>\<open>s.rpartition(":")\<close>: the parts around the last colon, or an empty first part.\<close>

definition rpartition_colon :: "string \<Rightarrow> string \<times> string" where
  "rpartition_colon s =
     (if CHR '':'' \<in> set s
      then (rev (tl (dropWhile (\<lambda>c. c \<noteq> CHR '':'') (rev s))), rev (takeWhile (\<lambda>c. c \<noteq> CHR '':'') (rev s)))
      else ([], s))"

definition resolve_runner ::
    "(string \<Rightarrow> string \<Rightarrow> 'b pyobj py) \<Rightarrow> plugin_manifest \<Rightarrow> 'b pyobj \<Rightarrow> 'b pyobj option py" where
  "resolve_runner import_attr mf obj =
     (case obj of
        Obj_Callable _ _ _ \<Rightarrow> Inr (Some obj)
      | Obj_Str s \<Rightarrow>
          (let (m, f) = rpartition_colon s
           in if m = [] \<or> f = []
              then Inl (Plugin_Validation_Error (''Invalid entry_point string '' @ s))
              else (case import_attr m f of
                  Inl e \<Rightarrow> Inl (Plugin_Validation_Error (''Failed to import runner '' @ s @ '': '' @ exc_str e))
                | Inr r \<Rightarrow> Inr (Some r)))
      | _ \<Rightarrow> Inr None)"

definition load_and_validate_plugin ::
    "(string \<Rightarrow> string \<Rightarrow> bool option) \<Rightarrow> string \<Rightarrow> (string \<Rightarrow> string option) \<Rightarrow>
     (string \<Rightarrow> string \<Rightarrow> 'b pyobj py) \<Rightarrow> plugin_manifest \<Rightarrow> 'b pyobj \<Rightarrow> 'b runner py" where
  "load_and_validate_plugin spec_contains gaiaos_version getenv import_attr mf obj =
     py_bind (validate_plugin_compatibility spec_contains gaiaos_version mf) (\<lambda>_.
     py_bind (validate_required_settings getenv mf) (\<lambda>_.
     py_bind (resolve_runner import_attr mf obj) (\<lambda>r.
     case r of
       Some (Obj_Callable _ _ rn) \<Rightarrow>
         (let errs = validate_runner_contract rn (pm_domain mf)
          in if errs \<noteq> []
             then Inl (Plugin_Validation_Error (''Plugin '' @ pm_name mf @
                    '' runner failed contract validation: '' @ str_join ''; '' errs))
             else Inr rn)
     | _ \<Rightarrow> Inl (Plugin_Validation_Error (''Plugin '' @ pm_name mf @ '' entry point is not callable.'')))))"

section \<open>Worker start-up\<close>

type_synonym telemetry = "(plugin_manifest \<times> string \<times> string option) list"

text \<open>The loop of \<open>initialize_plugins\<close>: the registry as it stands is returned with the
  exception that strict mode raises.\<close>

fun initialize_loop ::
    "(plugin_manifest \<Rightarrow> 'b pyobj \<Rightarrow> 'b runner py) \<Rightarrow> bool \<Rightarrow> (plugin_manifest \<times> 'b pyobj) list \<Rightarrow>
     'b agent_registry \<Rightarrow> telemetry \<Rightarrow> 'b agent_registry \<times> telemetry py" where
  "initialize_loop load strict [] reg tel = (reg, Inr tel)"
| "initialize_loop load strict ((mf, obj) # rest) reg tel =
     (case py_bind (load mf obj) (\<lambda>r. register_plugin mf r reg) of
        Inr reg' \<Rightarrow> initialize_loop load strict rest reg' (tel @ [(mf, ''active'', None)])
      | Inl e \<Rightarrow>
          (if strict
           then (reg, Inl (Plugin_Validation_Error (''Plugin '' @ pm_name mf @
                  '' failed validation in strict mode: '' @ exc_str e)))
           else initialize_loop load strict rest reg (tel @ [(mf, ''failed'', Some (exc_str e))])))"

definition initialize_plugins ::
    "(plugin_manifest \<Rightarrow> 'b pyobj \<Rightarrow> 'b runner py) \<Rightarrow> bool \<Rightarrow> bool \<Rightarrow> 'b entry_point list py \<Rightarrow>
     'b agent_registry \<Rightarrow> 'b agent_registry \<times> telemetry py" where
  "initialize_plugins load enabled strict eps reg =
     (if \<not> enabled then (reg, Inr [])
      else case discover_plugins enabled strict eps of
             Inl e \<Rightarrow> (reg, Inl e)
           | Inr found \<Rightarrow> initialize_loop load strict found reg [])"

section \<open>Invariant\<close>

definition reg_ok :: "'b agent_registry \<Rightarrow> bool" where
  "reg_ok reg \<longleftrightarrow> distinct (list_domains reg) \<and>
     list_all (\<lambda>(d, p). pm_domain (rp_manifest p) = d) (plugin_registry reg)"

text \<open>\<open>reg'\<close> keeps every domain of \<open>reg\<close> with the runner it had.\<close>

definition reg_extends :: "'b agent_registry \<Rightarrow> 'b agent_registry \<Rightarrow> bool" where
  "reg_extends reg reg' \<longleftrightarrow>
     first_party_registry reg' = first_party_registry reg \<and>
     (\<forall>d p. dict_get (plugin_registry reg) d = Some p \<longrightarrow> dict_get (plugin_registry reg') d = Some p)"

lemma reg_extends_refl [simp]: "reg_extends reg reg"
  by (simp add: reg_extends_def)

lemma reg_extends_trans: "reg_extends a b \<Longrightarrow> reg_extends b c \<Longrightarrow> reg_extends a c"
  by (simp add: reg_extends_def)

lemma reg_extends_get:
  "reg_extends reg reg' \<Longrightarrow> registry_get reg d = Inr r \<Longrightarrow> registry_get reg' d = Inr r"
  by (auto simp: reg_extends_def registry_get_def split: option.splits)

lemma registry_get_iff: "(\<exists>r. registry_get reg d = Inr r) \<longleftrightarrow> d \<in> set (list_domains reg)"
  by (auto simp: registry_get_def list_domains_def split: option.splits
      simp: map_of_eq_None_iff dest: map_of_SomeD)
    (metis map_of_eq_None_iff option.distinct(1) image_eqI fst_conv map_of_SomeD)+

lemma register_plugin_Inr:
  assumes "register_plugin mf r reg = Inr reg'"
  shows "pm_domain mf \<notin> set (list_domains reg) \<and>
    reg' = reg\<lparr>plugin_registry := plugin_registry reg @
      [(pm_domain mf, \<lparr>rp_manifest = mf, rp_runner = r, rp_status = ''active''\<rparr>)]\<rparr>"
proof -
  have new: "dict_get (first_party_registry reg) (pm_domain mf) = None"
    "dict_get (plugin_registry reg) (pm_domain mf) = None"
    and eq: "reg' = reg\<lparr>plugin_registry := dict_set (pm_domain mf)
      \<lparr>rp_manifest = mf, rp_runner = r, rp_status = ''active''\<rparr> (plugin_registry reg)\<rparr>"
    using assms by (auto simp: register_plugin_def Let_def split: if_splits option.splits)
  have "dict_set k v d = d @ [(k, v)]" if "dict_get d k = None" for k v and d :: "(string, 'a registered_plugin) dict"
    using that by (induction d) (auto split: if_splits)
  then show ?thesis using new eq by (simp add: list_domains_def map_of_eq_None_iff)
qed

lemma register_plugin_ok:
  assumes "register_plugin mf r reg = Inr reg'"
  shows "reg_extends reg reg'" "reg_ok reg \<Longrightarrow> reg_ok reg'"
    "dict_get (plugin_registry reg') (pm_domain mf) =
       Some \<lparr>rp_manifest = mf, rp_runner = r, rp_status = ''active''\<rparr>"
    "list_domains reg' = list_domains reg @ [pm_domain mf]"
proof -
  note new = register_plugin_Inr [OF assms]
  then have "dict_get (plugin_registry reg) (pm_domain mf) = None"
    by (simp add: list_domains_def map_of_eq_None_iff)
  then show "dict_get (plugin_registry reg') (pm_domain mf) =
      Some \<lparr>rp_manifest = mf, rp_runner = r, rp_status = ''active''\<rparr>"
    using new by (simp add: map_add_def)
  show "reg_extends reg reg'" "reg_ok reg \<Longrightarrow> reg_ok reg'"
    "list_domains reg' = list_domains reg @ [pm_domain mf]"
    using new by (auto simp: reg_extends_def reg_ok_def list_domains_def)
qed

lemma initialize_loop_Cons_cases:
  obtains (loaded) r reg' where "load mf obj = Inr r" "register_plugin mf r reg = Inr reg'"
      "initialize_loop load strict ((mf, obj) # rest) reg tel =
         initialize_loop load strict rest reg' (tel @ [(mf, ''active'', None)])"
    | (aborted) e where "strict" "initialize_loop load strict ((mf, obj) # rest) reg tel = (reg, Inl e)"
    | (disabled) e where "\<not> strict" "initialize_loop load strict ((mf, obj) # rest) reg tel =
         initialize_loop load strict rest reg (tel @ [(mf, ''failed'', Some (exc_str e))])"
proof (cases "py_bind (load mf obj) (\<lambda>r. register_plugin mf r reg)")
  case (Inl e)
  then show ?thesis using aborted disabled by (cases strict) auto
next
  case (Inr reg')
  then obtain r where "load mf obj = Inr r" "register_plugin mf r reg = Inr reg'"
    by (auto simp: py_bind_Inr_iff)
  then show ?thesis using loaded by simp
qed

lemma initialize_loop_extends:
  "initialize_loop load strict found reg tel = (reg', res) \<Longrightarrow>
     reg_extends reg reg' \<and> (reg_ok reg \<longrightarrow> reg_ok reg')"
proof (induction found arbitrary: reg tel)
  case (Cons p found)
  obtain mf obj where p: "p = (mf, obj)" by force
  show ?case
  proof (cases rule: initialize_loop_Cons_cases [of load mf obj reg strict found tel])
    case (loaded r reg1)
    then show ?thesis
      using Cons.IH [of reg1] Cons.prems p register_plugin_ok [OF loaded(2)]
      by (auto intro: reg_extends_trans)
  qed (use Cons p in auto)
qed simp

text \<open>What a telemetry record says of the registry it was written for.\<close>

definition telemetry_ok :: "'b agent_registry \<Rightarrow> plugin_manifest \<times> string \<times> string option \<Rightarrow> bool" where
  "telemetry_ok reg t \<longleftrightarrow> (case t of (mf, status, err) \<Rightarrow>
     if status = ''active'' then get_plugin_manifest reg (pm_domain mf) = Some mf \<and> err = None
     else status = ''failed'' \<and> err \<noteq> None)"

lemma telemetry_ok_extends: "reg_extends reg reg' \<Longrightarrow> telemetry_ok reg t \<Longrightarrow> telemetry_ok reg' t"
  by (auto simp: telemetry_ok_def reg_extends_def get_plugin_manifest_def split: if_splits)

lemma initialize_loop_telemetry:
  "initialize_loop load strict found reg tel = (reg', Inr tel') \<Longrightarrow> \<forall>t\<in>set tel. telemetry_ok reg t \<Longrightarrow>
     map fst tel' = map fst tel @ map fst found \<and> (\<forall>t\<in>set tel'. telemetry_ok reg' t) \<and>
     (strict \<longrightarrow> set tel' \<subseteq> set tel \<union> {(mf, ''active'', None) | mf. True})"
proof (induction found arbitrary: reg tel)
  case (Cons p found)
  obtain mf obj where p: "p = (mf, obj)" by force
  show ?case
  proof (cases rule: initialize_loop_Cons_cases [of load mf obj reg strict found tel])
    case (loaded r reg1)
    have "\<forall>t\<in>set (tel @ [(mf, ''active'', None)]). telemetry_ok reg1 t"
    proof -
      have "telemetry_ok reg1 (mf, ''active'', None)"
        using register_plugin_ok(3) [OF loaded(2)]
        by (simp add: telemetry_ok_def get_plugin_manifest_def)
      then show ?thesis
        using Cons.prems(2) telemetry_ok_extends [OF register_plugin_ok(1) [OF loaded(2)]] by auto
    qed
    with Cons.IH [of reg1 "tel @ [(mf, ''active'', None)]"] Cons.prems(1) p loaded(3)
    show ?thesis by auto
  next
    case (aborted e)
    then show ?thesis using Cons.prems p by simp
  next
    case (disabled e)
    have "\<forall>t\<in>set (tel @ [(mf, ''failed'', Some (exc_str e))]). telemetry_ok reg t"
      using Cons.prems(2) by (simp add: telemetry_ok_def)
    with Cons.IH [of reg "tel @ [(mf, ''failed'', Some (exc_str e))]"] Cons.prems(1) p disabled
    show ?thesis by auto
  qed
qed simp

lemma initialize_loop_lenient: "\<exists>reg' tel'. initialize_loop load False found reg tel = (reg', Inr tel')"
proof (induction found arbitrary: reg tel)
  case (Cons p found)
  obtain mf obj where p: "p = (mf, obj)" by force
  show ?case
    by (cases rule: initialize_loop_Cons_cases [of load mf obj reg False found tel])
      (use Cons.IH p in auto)
qed simp

lemma discover_lenient: "\<exists>found. discover_entries False eps = Inr found"
  by (induction eps) (auto split: sum.splits)

lemma register_agents_ok:
  "reg_ok (register_agents core AgentRegistry) \<and>
   list_domains (register_agents core AgentRegistry) = core_domains \<and>
   (\<forall>d\<in>set core_domains. registry_get (register_agents core AgentRegistry) d = Inr (core d))"
  by (simp add: register_agents_def AgentRegistry_def core_domains_def register_def reg_ok_def
      list_domains_def registry_get_def)

lemma register_agents_idem:
  "register_agents core (register_agents core AgentRegistry) = register_agents core AgentRegistry"
  by (simp add: register_agents_def AgentRegistry_def core_domains_def register_def)

section \<open>Interface of a domain directory\<close>

text \<open>
  What the fan-out coordinator relies on: \<open>get\<close> succeeds exactly on the listed domains, and
  extending the directory keeps what was resolved before.
\<close>

locale domain_directory =
  fixes get :: "'s \<Rightarrow> string \<Rightarrow> 'r py"
    and listed :: "'s \<Rightarrow> string list"
    and extends :: "'s \<Rightarrow> 's \<Rightarrow> bool"
  assumes get_listed: "(\<exists>r. get s d = Inr r) \<longleftrightarrow> d \<in> set (listed s)"
    and get_extends: "extends s t \<Longrightarrow> get s d = Inr r \<Longrightarrow> get t d = Inr r"
begin

lemma listed_extends: "extends s t \<Longrightarrow> set (listed s) \<subseteq> set (listed t)"
  using get_listed get_extends by blast

lemma get_unlisted: "d \<notin> set (listed s) \<Longrightarrow> \<exists>e. get s d = Inl e"
  by (metis get_listed old.sum.exhaust)

end

interpretation directory: domain_directory registry_get list_domains reg_extends
  by unfold_locales (auto simp: registry_get_iff dest: reg_extends_get)

section \<open>Properties\<close>

text \<open>plugins never displace an agent. Whatever plugins are discovered, in strict or lenient
  mode and even when start-up aborts, every domain that resolved before resolves to the same
  runner afterwards, the core agents are untouched, no domain is listed twice, and exactly the
  listed domains resolve.\<close>

theorem initialize_plugins_keeps_agents:
  assumes "initialize_plugins load enabled strict eps (register_agents core AgentRegistry) = (reg', res)"
  shows "distinct (list_domains reg') \<and>
    (\<forall>d\<in>set core_domains. registry_get reg' d = Inr (core d)) \<and>
    (\<forall>d. (\<exists>r. registry_get reg' d = Inr r) \<longleftrightarrow> d \<in> set (list_domains reg')) \<and>
    (\<forall>d p. dict_get (plugin_registry reg') d = Some p \<longrightarrow> d \<notin> set core_domains \<and>
       pm_domain (rp_manifest p) = d)"
proof -
  let ?reg = "register_agents core AgentRegistry"
  have ext: "reg_extends ?reg reg' \<and> reg_ok reg'"
    using assms initialize_loop_extends register_agents_ok [of core]
    by (fastforce simp: initialize_plugins_def split: if_splits sum.splits)
  then have d: "distinct (list_domains reg')" by (simp add: reg_ok_def)
  have core: "\<forall>d\<in>set core_domains. registry_get reg' d = Inr (core d)"
    using ext register_agents_ok [of core] directory.get_extends by blast
  have "set core_domains \<subseteq> set (dict_keys (first_party_registry reg'))"
    using ext register_agents_ok [of core]
    by (auto simp: reg_extends_def list_domains_def register_agents_def AgentRegistry_def
        core_domains_def register_def)
  moreover have "set (dict_keys (first_party_registry reg')) \<inter> set (dict_keys (plugin_registry reg')) = {}"
    using d by (simp add: list_domains_def)
  moreover have "d \<in> set (dict_keys (plugin_registry reg')) \<and> pm_domain (rp_manifest p) = d"
    if "dict_get (plugin_registry reg') d = Some p" for d p
    using ext map_of_SomeD [OF that] by (auto simp: reg_ok_def list_all_iff intro: rev_image_eqI)
  ultimately have "d \<notin> set core_domains \<and> pm_domain (rp_manifest p) = d"
    if "dict_get (plugin_registry reg') d = Some p" for d p
    using that by blast
  then show ?thesis using d core registry_get_iff by blast
qed

definition sample_manifest :: "string \<Rightarrow> string \<Rightarrow> plugin_manifest" where
  "sample_manifest n d = \<lparr>pm_name = n, pm_version = ''1.0.0'', pm_domain = d, pm_entry_point = [],
     gaiaos_version_range = [], required_settings = [], eval_benchmark_question_ids = []\<rparr>"

definition sample_runner :: "nat \<Rightarrow> nat runner" where
  "sample_runner n = \<lparr>is_coroutine = True, params = [(''agent_input'', Ann_Agent_Input)],
     return_annot = Ann_Agent_Output, body = n\<rparr>"

definition sample_entry :: "string \<Rightarrow> string \<Rightarrow> nat \<Rightarrow> nat entry_point" where
  "sample_entry n d k = \<lparr>ep_name = n, ep_value = ''pkg:run'',
     ep_load = Inr (Obj_Callable None (Some (sample_manifest n d)) (sample_runner k))\<rparr>"

definition sample_load :: "plugin_manifest \<Rightarrow> nat pyobj \<Rightarrow> nat runner py" where
  "sample_load = load_and_validate_plugin (\<lambda>_ _. None) ''1.0.0'' (\<lambda>_. None) (\<lambda>_ _. Inl (Other_Error []))"

definition sample_startup :: "nat agent_registry \<times> telemetry py" where
  "sample_startup = initialize_plugins sample_load True False
     (Inr [sample_entry ''volcano'' ''volcanic_activity'' 8, sample_entry ''evil'' ''seismic'' 9,
           sample_entry ''late'' ''volcanic_activity'' 10])
     (register_agents (\<lambda>d. sample_runner (if d = ''seismic'' then 7 else 0)) AgentRegistry)"

theorem initialize_plugins_keeps_agents_witness:
  "registry_get (fst sample_startup) ''seismic'' = Inr (sample_runner 7)"
proof -
  have "initialize_plugins sample_load True False
     (Inr [sample_entry ''volcano'' ''volcanic_activity'' 8, sample_entry ''evil'' ''seismic'' 9,
           sample_entry ''late'' ''volcanic_activity'' 10])
     (register_agents (\<lambda>d. sample_runner (if d = ''seismic'' then 7 else 0)) AgentRegistry) =
     (fst sample_startup, snd sample_startup)"
    by (simp add: sample_startup_def)
  from initialize_plugins_keeps_agents [OF this] show ?thesis
    by (simp add: core_domains_def)
qed

text \<open>Start-up telemetry tells the truth. When start-up returns, there is one record per
  discovered plugin, in discovery order; an active record names a plugin that is registered for
  its domain, a failed one carries an error; in lenient mode start-up always returns, and in
  strict mode it returns only if every plugin became active.\<close>

theorem initialize_plugins_telemetry:
  "(discover_plugins True strict eps = Inr found \<longrightarrow>
      initialize_plugins load True strict eps (register_agents core AgentRegistry) = (reg', Inr tel) \<longrightarrow>
      map fst tel = map fst found \<and> (\<forall>t\<in>set tel. telemetry_ok reg' t) \<and>
      (strict \<longrightarrow> (\<forall>(mf, status, err)\<in>set tel. status = ''active''))) \<and>
   (\<exists>reg' tel. initialize_plugins load True False eps (register_agents core AgentRegistry) = (reg', Inr tel))"
proof (intro conjI impI)
  assume "discover_plugins True strict eps = Inr found"
    and "initialize_plugins load True strict eps (register_agents core AgentRegistry) = (reg', Inr tel)"
  then have loop: "initialize_loop load strict found (register_agents core AgentRegistry) [] = (reg', Inr tel)"
    by (simp add: initialize_plugins_def)
  note facts = initialize_loop_telemetry [OF loop]
  then show "map fst tel = map fst found" "\<forall>t\<in>set tel. telemetry_ok reg' t" by simp_all
  show "\<forall>(mf, status, err)\<in>set tel. status = ''active''" if strict
    using facts that by auto
next
  obtain found where "discover_plugins True False eps = Inr found"
    using discover_lenient by (fastforce simp: discover_plugins_def split: sum.splits)
  then show "\<exists>reg' tel. initialize_plugins load True False eps
      (register_agents core AgentRegistry) = (reg', Inr tel)"
    using initialize_loop_lenient by (simp add: initialize_plugins_def)
qed

theorem initialize_plugins_telemetry_witness:
  "case snd sample_startup of Inl _ \<Rightarrow> False
   | Inr tel \<Rightarrow> map fst tel = map (\<lambda>(n, d). sample_manifest n d)
       [(''volcano'', ''volcanic_activity''), (''evil'', ''seismic''), (''late'', ''volcanic_activity'')] \<and>
     map (fst \<circ> snd) tel = [''active'', ''failed'', ''failed''] \<and>
     (\<forall>t\<in>set tel. telemetry_ok (fst sample_startup) t)"
proof -
  let ?eps = "Inr [sample_entry ''volcano'' ''volcanic_activity'' 8, sample_entry ''evil'' ''seismic'' 9,
           sample_entry ''late'' ''volcanic_activity'' 10] :: nat entry_point list py"
  let ?core = "\<lambda>d. sample_runner (if d = ''seismic'' then 7 else 0)"
  obtain tel where tel: "snd sample_startup = Inr tel"
    using initialize_plugins_telemetry [THEN conjunct2, of sample_load ?eps ?core]
    by (auto simp: sample_startup_def)
  obtain found where found: "discover_plugins True False ?eps = Inr found"
    "map fst found = map (\<lambda>(n, d). sample_manifest n d)
       [(''volcano'', ''volcanic_activity''), (''evil'', ''seismic''), (''late'', ''volcanic_activity'')]"
    by (simp add: discover_plugins_def sample_entry_def entry_manifest_def)
  have "initialize_plugins sample_load True False ?eps (register_agents ?core AgentRegistry) =
      (fst sample_startup, Inr tel)"
    using tel by (simp add: sample_startup_def prod_eq_iff)
  with initialize_plugins_telemetry [THEN conjunct1, of False ?eps found sample_load ?core] found
  have "map fst tel = map fst found" "\<forall>t\<in>set tel. telemetry_ok (fst sample_startup) t" by auto
  moreover have "map_sum id (map (fst \<circ> snd)) (snd sample_startup) = Inr [''active'', ''failed'', ''failed'']"
    by code_simp
  ultimately show ?thesis using tel found by simp
qed

section \<open>Entry points that never load\<close>

text \<open>
  An entry point that names a manifest is resolved again through its own value, which gives the
  manifest and not the runner the manifest names; an entry point that names a module with a
  manifest hands the module over as the runner. Both are rejected.
\<close>

lemma manifest_entry_point_rejected:
  assumes "ep_load ep = Inr (Obj_Manifest mf)"
    "import_attr (fst (rpartition_colon (ep_value ep))) (snd (rpartition_colon (ep_value ep))) = ep_load ep"
    "entry_manifest ep (Obj_Manifest mf) = Some (mf', obj)"
  shows "\<exists>e. load_and_validate_plugin spec v env import_attr mf' obj = Inl e"
  using assms
  by (auto simp: load_and_validate_plugin_def entry_manifest_def resolve_runner_def py_bind_def Let_def
      case_prod_beta split: sum.splits if_splits)

lemma module_entry_point_rejected:
  assumes "entry_manifest ep (Obj_Module m) = Some (mf', obj)"
  shows "\<exists>e. load_and_validate_plugin spec v env import_attr mf' obj = Inl e"
  using assms
  by (auto simp: load_and_validate_plugin_def entry_manifest_def resolve_runner_def py_bind_def
      split: sum.splits option.splits)

end
