(* ===== verification/Fan_Out.thy ===== *)
theory Fan_Out
  imports Registry
begin

text \<open>
  The collaboration bus (\<open>orchestrator/graph/collaboration_bus.py\<close>), the peer hook of the
  ocean agent (\<open>orchestrator/agents/ocean/agent.py\<close>) and the fan-out coordinator
  (\<open>orchestrator/graph/fan_out_coordinator.py\<close>). The body of a runner is a parameter: it maps
  an input to the messages it broadcasts and to its outcome (an exception, \<open>None\<close>, or an
  output). During the first round the runners execute concurrently; \<open>sched\<close> turns the lists of
  broadcast messages into the order in which they reached the bus. Logging and event publishing,
  which cannot fail a run, are left out.
\<close>

section \<open>Collaboration bus\<close>

record collaboration_message =
  from_agent :: string
  finding_summary :: string
  msg_uncertainty :: uncertainty_estimate
  suggested_refinement :: "(string, json) dict option"
  msg_round :: int

definition CollaborationMessage ::
    "string \<Rightarrow> string \<Rightarrow> uncertainty_estimate \<Rightarrow> (string, json) dict option \<Rightarrow> int \<Rightarrow>
     collaboration_message py" where
  "CollaborationMessage agent summary u refinement rnd =
     (if rnd < 0 then Inl (Validation_Error ''round'')
      else Inr \<lparr>from_agent = agent, finding_summary = summary, msg_uncertainty = u,
                suggested_refinement = refinement, msg_round = rnd\<rparr>)"

record collaboration_bus =
  bus_investigation_id :: uuid
  max_rounds :: int
  messages :: "collaboration_message list"

definition CollaborationBus :: "uuid \<Rightarrow> int \<Rightarrow> collaboration_bus" where
  "CollaborationBus i rounds = \<lparr>bus_investigation_id = i, max_rounds = rounds, messages = []\<rparr>"

definition broadcast :: "collaboration_message \<Rightarrow> collaboration_bus \<Rightarrow> collaboration_bus" where
  "broadcast m b = b\<lparr>messages := messages b @ [m]\<rparr>"

definition peer_findings :: "collaboration_bus \<Rightarrow> string \<Rightarrow> int \<Rightarrow> collaboration_message list" where
  "peer_findings b agent since =
     filter (\<lambda>m. from_agent m \<noteq> agent \<and> since \<le> msg_round m) (messages b)"

definition snapshot :: "collaboration_bus \<Rightarrow> collaboration_message list" where
  "snapshot b = messages b"

section \<open>Agents\<close>

type_synonym peer_hook = "collaboration_message \<Rightarrow> agent_input \<Rightarrow> agent_input option py"

record behaviour =
  run_body :: "agent_input \<Rightarrow> collaboration_message list \<times> agent_output option py"
  on_peer_finding :: "peer_hook option"

type_synonym agent_runner = "behaviour runner"

text \<open>The hook of the ocean agent: follow the region a seismic finding suggests.\<close>

definition ocean_on_peer_finding :: peer_hook where
  "ocean_on_peer_finding m inp =
     (case suggested_refinement m of
        Some (kv # kvs) \<Rightarrow>
          (if from_agent m = ''seismic'' then
             (let region = dict_get_or (kv # kvs) ''region_hint'' JNull
              in if truthy region \<and> map_option JStr (region_hint inp) \<noteq> Some region
                 then (case region of
                         JStr s \<Rightarrow> Inr (Some \<lparr>investigation_id = investigation_id inp,
                                            ai_query = ai_query inp, region_hint = Some s\<rparr>)
                       | _ \<Rightarrow> Inl (Validation_Error ''region_hint''))
                 else Inr None)
           else Inr None)
      | _ \<Rightarrow> Inr None)"

section \<open>Running one agent\<close>

definition failed_output :: "string \<Rightarrow> string \<Rightarrow> agent_output" where
  "failed_output d err = \<lparr>agent_name = d, evidence_list = [], out_errors = [err]\<rparr>"

text \<open>\<open>_make_failed_runner\<close>: the stand-in for a domain without an agent.\<close>

definition make_failed_runner :: "string \<Rightarrow> agent_runner" where
  "make_failed_runner d =
     \<lparr>is_coroutine = True, params = [(''agent_input'', Ann_Agent_Input), (''bus'', Ann_Other [])],
      return_annot = Ann_Agent_Output,
      body = \<lparr>run_body = (\<lambda>_. ([], Inr (Some (failed_output d
               (''Agent implementation not found for domain: '' @ d))))),
             on_peer_finding = None\<rparr>\<rparr>"

text \<open>
  \<open>_run_agent_with_monitoring\<close>: an exception or a timeout becomes an output with an error.
  What a runner returned is handed on as it is, \<open>None\<close> included. A runner without a bus
  parameter is called without one; with no bus nothing is broadcast.
\<close>

definition run_agent_with_monitoring ::
    "string \<Rightarrow> agent_runner \<Rightarrow> agent_input \<Rightarrow> flt \<Rightarrow> bool \<Rightarrow>
     collaboration_message list \<times> agent_output option" where
  "run_agent_with_monitoring d r inp timeout with_bus =
     (case run_body (body r) inp of (ms, outcome) \<Rightarrow>
        (if with_bus then ms else [],
         case outcome of
           Inr out \<Rightarrow> out
         | Inl (Timeout_Error _) \<Rightarrow>
             Some (failed_output d (''Agent execution timed out after '' @ float_repr timeout @ '' seconds''))
         | Inl e \<Rightarrow> Some (failed_output d (''Agent execution failed: '' @ exc_str e))))"

section \<open>Fan-out\<close>

definition select_runner :: "behaviour agent_registry \<Rightarrow> string \<Rightarrow> agent_runner" where
  "select_runner reg d =
     (case registry_get reg d of Inr r \<Rightarrow> r | Inl _ \<Rightarrow> make_failed_runner d)"

text \<open>\<open>processed_results[idx] = out\<close>: IndexError past the end.\<close>

definition list_assign :: "'a list \<Rightarrow> nat \<Rightarrow> 'a \<Rightarrow> 'a list py" where
  "list_assign xs i x = (if i < length xs then Inr (xs[i := x]) else Inl (Other_Error ''IndexError''))"

text \<open>The refinements the hook accepts, in broadcast order; a hook that raises is skipped.\<close>

definition hook_candidates ::
    "peer_hook \<Rightarrow> agent_input \<Rightarrow> collaboration_message list \<Rightarrow> agent_input list" where
  "hook_candidates hook inp ms =
     concat (map (\<lambda>m. case hook m inp of Inr (Some i) \<Rightarrow> [i] | _ \<Rightarrow> []) ms)"

text \<open>
  Stage B for the domains from index \<open>idx\<close> on. The results are lists of outputs where
  \<open>None\<close> entries may only come from a refined run that returned \<open>None\<close>.
\<close>

fun refine ::
    "behaviour agent_registry \<Rightarrow> flt \<Rightarrow> agent_input \<Rightarrow> nat \<Rightarrow> string list \<Rightarrow>
     collaboration_bus \<Rightarrow> agent_output option list \<Rightarrow> agent_output option list py" where
  "refine reg timeout inp idx [] b results = Inr results"
| "refine reg timeout inp idx (d # ds) b results =
     (case registry_get reg d of
        Inl _ \<Rightarrow> refine reg timeout inp (idx + 1) ds b results
      | Inr r \<Rightarrow>
          (case on_peer_finding (body r) of
             None \<Rightarrow> refine reg timeout inp (idx + 1) ds b results
           | Some hook \<Rightarrow>
               (case rev (hook_candidates hook inp (peer_findings b d 0)) of
                  [] \<Rightarrow> refine reg timeout inp (idx + 1) ds b results
                | refined # _ \<Rightarrow>
                    (case run_agent_with_monitoring d r refined timeout True of (ms, out) \<Rightarrow>
                       py_bind (list_assign results idx out) (\<lambda>results'.
                         refine reg timeout inp (idx + 1) ds (fold broadcast ms b) results')))))"

definition first_round ::
    "behaviour agent_registry \<Rightarrow> flt \<Rightarrow> agent_input \<Rightarrow> bool \<Rightarrow> string list \<Rightarrow>
     (collaboration_message list \<times> agent_output option) list" where
  "first_round reg timeout inp with_bus ds =
     map (\<lambda>d. run_agent_with_monitoring d (select_runner reg d) inp timeout with_bus) ds"

definition fan_out_run ::
    "behaviour agent_registry \<Rightarrow> bool \<Rightarrow> flt \<Rightarrow>
     (collaboration_message list list \<Rightarrow> collaboration_message list) \<Rightarrow>
     string list \<Rightarrow> agent_input \<Rightarrow> agent_output option list py" where
  "fan_out_run reg collab timeout sched ds inp =
     (if ds = [] then Inr []
      else
        (let res = first_round reg timeout inp collab ds;
             processed = filter (\<lambda>out. out \<noteq> None) (map snd res);
             b = fold broadcast (sched (map fst res)) (CollaborationBus (investigation_id inp) 2)
         in if collab \<and> snapshot b \<noteq> [] then refine reg timeout inp 0 ds b processed
            else Inr processed))"

section \<open>Facts\<close>

text \<open>No runner of the listed domains returns \<open>None\<close> instead of an output.\<close>

definition well_behaved :: "behaviour agent_registry \<Rightarrow> string list \<Rightarrow> bool" where
  "well_behaved reg ds \<longleftrightarrow>
     (\<forall>d\<in>set ds. \<forall>inp. snd (run_body (body (select_runner reg d)) inp) \<noteq> Inr None)"

lemma run_agent_Some:
  "snd (run_body (body r) inp) \<noteq> Inr None \<Longrightarrow>
     \<exists>out. snd (run_agent_with_monitoring d r inp timeout w) = Some out"
  by (auto simp: run_agent_with_monitoring_def split: prod.splits sum.splits py_exc.splits)

text \<open>The inputs on which the output of a domain may rest: the common one, or one its own hook
  accepted for a message of a peer.\<close>

definition possible_input :: "behaviour agent_registry \<Rightarrow> agent_input \<Rightarrow> string \<Rightarrow> agent_input \<Rightarrow> bool" where
  "possible_input reg inp d inp' \<longleftrightarrow> inp' = inp \<or>
     (\<exists>r hook m. registry_get reg d = Inr r \<and> on_peer_finding (body r) = Some hook \<and>
        from_agent m \<noteq> d \<and> hook m inp = Inr (Some inp'))"

definition result_of ::
    "behaviour agent_registry \<Rightarrow> flt \<Rightarrow> agent_input \<Rightarrow> bool \<Rightarrow> string \<Rightarrow> agent_output \<Rightarrow> bool" where
  "result_of reg timeout inp w d out \<longleftrightarrow> (\<exists>inp'. possible_input reg inp d inp' \<and>
     Some out = snd (run_agent_with_monitoring d (select_runner reg d) inp' timeout w))"

lemma hook_candidates_mem:
  "i \<in> set (hook_candidates hook inp ms) \<Longrightarrow> \<exists>m\<in>set ms. hook m inp = Inr (Some i)"
  by (auto simp: hook_candidates_def split: sum.splits option.splits)

lemma refined_possible:
  assumes "registry_get reg d = Inr r" "on_peer_finding (body r) = Some hook"
    "rev (hook_candidates hook inp (peer_findings b d 0)) = i # cands"
  shows "possible_input reg inp d i"
proof -
  have "i \<in> set (hook_candidates hook inp (peer_findings b d 0))"
    using assms(3) by (metis list.set_intros(1) set_rev)
  then obtain m where "m \<in> set (peer_findings b d 0)" "hook m inp = Inr (Some i)"
    using hook_candidates_mem by blast
  then show ?thesis using assms(1,2) by (auto simp: possible_input_def peer_findings_def)
qed

lemma refine_aligned:
  "well_behaved reg ds \<Longrightarrow> length pre = idx \<Longrightarrow> list_all2 (result_of reg timeout inp True) ds post \<Longrightarrow>
     \<exists>post'. refine reg timeout inp idx ds b (map Some (pre @ post)) = Inr (map Some (pre @ post')) \<and>
       list_all2 (result_of reg timeout inp True) ds post'"
proof (induction ds arbitrary: idx pre post b)
  case (Cons d ds)
  obtain out outs where post: "post = out # outs" "result_of reg timeout inp True d out"
    "list_all2 (result_of reg timeout inp True) ds outs"
    using Cons.prems(3) by (auto simp: list_all2_Cons1)
  have wb: "well_behaved reg ds" using Cons.prems(1) by (simp add: well_behaved_def)
  have step: "\<exists>post'. refine reg timeout inp (idx + 1) ds b' (map Some (pre @ out' # outs)) =
      Inr (map Some (pre @ post')) \<and> list_all2 (result_of reg timeout inp True) (d # ds) post'"
    if ro: "result_of reg timeout inp True d out'" for b' out'
  proof -
    obtain p where "refine reg timeout inp (idx + 1) ds b' (map Some ((pre @ [out']) @ outs)) =
        Inr (map Some ((pre @ [out']) @ p))" "list_all2 (result_of reg timeout inp True) ds p"
      using Cons.IH [OF wb, of "pre @ [out']" "idx + 1" outs b'] Cons.prems(2) post(3) by auto
    then show ?thesis using ro by (intro exI [of _ "out' # p"]) simp
  qed
  show ?case
  proof (cases "registry_get reg d")
    case (Inl e)
    then show ?thesis using step [OF post(2)] post(1) by simp
  next
    case (Inr r)
    show ?thesis
    proof (cases "on_peer_finding (body r)")
      case None
      then show ?thesis using Inr step [OF post(2)] post(1) by simp
    next
      case (Some hook)
      show ?thesis
      proof (cases "rev (hook_candidates hook inp (peer_findings b d 0))")
        case Nil
        then show ?thesis using Inr Some step [OF post(2)] post(1) by simp
      next
        case cand: (Cons i cands)
        have sel: "select_runner reg d = r" using Inr by (simp add: select_runner_def)
        obtain ms out' where run: "run_agent_with_monitoring d r i timeout True = (ms, Some out')"
          using run_agent_Some [of r i d timeout True] Cons.prems(1) sel
          by (metis list.set_intros(1) prod.collapse well_behaved_def)
        then have "result_of reg timeout inp True d out'"
          using refined_possible [OF Inr Some cand] sel by (force simp: result_of_def)
        moreover have "list_assign (map Some (pre @ post)) idx (Some out') =
            Inr (map Some (pre @ out' # outs))"
          using Cons.prems(2) post(1) by (simp add: list_assign_def list_update_append)
        ultimately show ?thesis
          using Inr Some cand run step [of out' "fold broadcast ms b"] by simp
      qed
    qed
  qed
qed simp

lemma first_round_aligned:
  assumes "well_behaved reg ds"
  shows "\<exists>outs. map snd (first_round reg timeout inp w ds) = map Some outs \<and>
    list_all2 (result_of reg timeout inp w) ds outs"
  using assms
proof (induction ds)
  case (Cons d ds)
  then have wb: "snd (run_body (body (select_runner reg d)) inp) \<noteq> Inr None"
    and "well_behaved reg ds"
    by (auto simp: well_behaved_def)
  then obtain outs where "map snd (first_round reg timeout inp w ds) = map Some outs"
    "list_all2 (result_of reg timeout inp w) ds outs"
    using Cons.IH by blast
  moreover obtain out where
    out: "snd (run_agent_with_monitoring d (select_runner reg d) inp timeout w) = Some out"
    using run_agent_Some [OF wb] by blast
  moreover from out have "result_of reg timeout inp w d out"
    unfolding result_of_def possible_input_def by (metis)
  ultimately show ?case by (intro exI [of _ "out # outs"]) (simp add: first_round_def)
qed (simp add: first_round_def)

section \<open>Properties\<close>

text \<open>fan-out returns exactly one output per requested domain, in request order, whatever the
  agents do (fail, time out, be missing) and in whatever order their messages reach the bus, as
  long as no runner returns \<open>None\<close>. Each output is the monitored result of that domain's own
  runner, on the common input or on an input its own hook accepted from a peer.\<close>

theorem fan_out_aligned:
  assumes "well_behaved reg ds"
  shows "\<exists>outs. fan_out_run reg collab timeout sched ds inp = Inr (map Some outs) \<and>
    list_all2 (result_of reg timeout inp collab) ds outs"
proof -
  obtain outs where outs: "map snd (first_round reg timeout inp collab ds) = map Some outs"
    "list_all2 (result_of reg timeout inp collab) ds outs"
    using first_round_aligned [OF assms] by blast
  then have processed: "filter (\<lambda>out. out \<noteq> None) (map snd (first_round reg timeout inp collab ds)) =
      map Some outs"
    by (simp only: outs(1)) (simp add: filter_map comp_def)
  show ?thesis
  proof (cases collab)
    case True
    then show ?thesis
      using processed outs refine_aligned [OF assms, of "[]" 0 timeout inp outs]
      by (auto simp: fan_out_run_def Let_def)
  next
    case False
    then show ?thesis using processed outs by (auto simp: fan_out_run_def Let_def)
  qed
qed

definition sample_input :: agent_input where
  "sample_input = \<lparr>investigation_id = 5, ai_query = ''quake near the coast'', region_hint = None\<rparr>"

definition quake_message :: collaboration_message where
  "quake_message = \<lparr>from_agent = ''seismic'', finding_summary = ''M 6.0'', msg_uncertainty = est_low,
     suggested_refinement = Some [(''region_hint'', JStr ''Tokyo'')], msg_round = 0\<rparr>"

definition sample_body ::
    "(agent_input \<Rightarrow> collaboration_message list \<times> agent_output option py) \<Rightarrow> peer_hook option \<Rightarrow> agent_runner" where
  "sample_body f h = \<lparr>is_coroutine = True, params = [(''agent_input'', Ann_Agent_Input)],
     return_annot = Ann_Agent_Output, body = \<lparr>run_body = f, on_peer_finding = h\<rparr>\<rparr>"

text \<open>A seismic agent that broadcasts, an ocean agent that reports its region, a failing agent and
  a plugin that returns \<open>None\<close>.\<close>

definition sample_registry :: "behaviour agent_registry" where
  "sample_registry = fold (\<lambda>(d, r). register d r)
     [(''seismic'', sample_body (\<lambda>_. ([quake_message], Inr (Some (failed_output ''seismic'' ''none'')))) None),
      (''ocean'', sample_body (\<lambda>i. ([], Inr (Some (failed_output ''ocean''
          (case region_hint i of None \<Rightarrow> ''nowhere'' | Some s \<Rightarrow> s))))) (Some ocean_on_peer_finding)),
      (''broken'', sample_body (\<lambda>_. ([], Inl (Value_Error ''boom''))) None),
      (''silent'', sample_body (\<lambda>_. ([], Inr None)) None)] AgentRegistry"

lemma sample_registry_get:
  "select_runner sample_registry ''seismic'' =
     sample_body (\<lambda>_. ([quake_message], Inr (Some (failed_output ''seismic'' ''none'')))) None"
  "select_runner sample_registry ''broken'' = sample_body (\<lambda>_. ([], Inl (Value_Error ''boom''))) None"
  "select_runner sample_registry ''ocean'' = sample_body (\<lambda>i. ([], Inr (Some (failed_output ''ocean''
     (case region_hint i of None \<Rightarrow> ''nowhere'' | Some s \<Rightarrow> s))))) (Some ocean_on_peer_finding)"
  by (simp_all add: sample_registry_def select_runner_def registry_get_def register_def AgentRegistry_def)

lemma sample_well_behaved: "well_behaved sample_registry [''broken'', ''seismic'', ''ocean'']"
  by (simp add: well_behaved_def sample_registry_get sample_body_def)

theorem fan_out_aligned_witness:
  "\<exists>outs. fan_out_run sample_registry True 30 concat [''broken'', ''seismic'', ''ocean''] sample_input =
     Inr (map Some outs) \<and> length outs = 3 \<and> agent_name (outs ! 0) = ''broken''"
proof -
  obtain outs where outs: "fan_out_run sample_registry True 30 concat [''broken'', ''seismic'', ''ocean''] sample_input =
      Inr (map Some outs)"
    "list_all2 (result_of sample_registry 30 sample_input True) [''broken'', ''seismic'', ''ocean''] outs"
    using fan_out_aligned [OF sample_well_behaved, of True 30 concat sample_input] by blast
  then have "length outs = 3" "result_of sample_registry 30 sample_input True ''broken'' (outs ! 0)"
    by (auto simp: list_all2_Cons1)
  then show ?thesis
    using outs(1) by (auto simp: result_of_def sample_registry_get sample_body_def
        run_agent_with_monitoring_def failed_output_def)
qed

text \<open>failures are isolated. Without collaboration the output of a domain depends only on that
  domain's runner: a missing agent, an exception and a timeout each become an output of that
  domain with no evidence and an error, and the other domains are not affected.\<close>

theorem fan_out_isolates_failures:
  assumes "well_behaved reg ds" "i < length ds"
  shows "\<exists>outs. fan_out_run reg False timeout sched ds inp = Inr outs \<and> length outs = length ds \<and>
    outs ! i = snd (run_agent_with_monitoring (ds ! i) (select_runner reg (ds ! i)) inp timeout False) \<and>
    (ds ! i \<notin> set (list_domains reg) \<or>
       (\<exists>r e. registry_get reg (ds ! i) = Inr r \<and> snd (run_body (body r) inp) = Inl e) \<longrightarrow>
     (\<exists>err. outs ! i = Some (failed_output (ds ! i) err)))"
proof -
  obtain outs where outs: "map snd (first_round reg timeout inp False ds) = map Some outs"
    using first_round_aligned [OF assms(1)] by blast
  have "filter (\<lambda>out. out \<noteq> None) (map snd (first_round reg timeout inp False ds)) = map Some outs"
    by (simp only: outs) (simp add: filter_map comp_def)
  then have run: "fan_out_run reg False timeout sched ds inp = Inr (map Some outs)"
    using assms(2) by (auto simp: fan_out_run_def Let_def)
  have len: "length outs = length ds" using outs by (metis first_round_def length_map)
  have "(map Some outs) ! i = snd (run_agent_with_monitoring (ds ! i) (select_runner reg (ds ! i)) inp timeout False)"
    using assms(2) by (simp add: first_round_def flip: outs)
  moreover have "\<exists>err. snd (run_agent_with_monitoring d (select_runner reg d) inp timeout False) =
      Some (failed_output d err)" if "d \<notin> set (list_domains reg)" for d
    using directory.get_unlisted [OF that]
    by (auto simp: select_runner_def make_failed_runner_def run_agent_with_monitoring_def)
  moreover have "\<exists>err. snd (run_agent_with_monitoring d (select_runner reg d) inp timeout False) =
      Some (failed_output d err)"
    if "registry_get reg d = Inr r" "snd (run_body (body r) inp) = Inl e" for d r e
    using that by (auto simp: select_runner_def run_agent_with_monitoring_def
        split: prod.splits py_exc.splits)
  ultimately show ?thesis using run len by (metis length_map)
qed

theorem fan_out_isolates_failures_witness:
  "\<exists>outs. fan_out_run sample_registry False 30 concat [''broken'', ''seismic'', ''ocean''] sample_input =
     Inr outs \<and> outs ! 0 = Some (failed_output ''broken'' ''Agent execution failed: boom'')"
  using fan_out_isolates_failures [OF sample_well_behaved, of 0 30 concat sample_input]
  by (auto simp: sample_registry_get sample_body_def run_agent_with_monitoring_def)

text \<open>A runner that returns \<open>None\<close> is dropped from the results, so the refinement of a later
  domain is written to a wrong place: here past the end, which loses the whole fan-out.\<close>

lemma fan_out_none_result_shifts:
  "fan_out_run sample_registry True 30 concat [''silent'', ''seismic'', ''ocean''] sample_input =
     Inl (Other_Error ''IndexError'')"
  by code_simp

text \<open>With well-behaved agents the ocean agent is rerun on the region the seismic agent found.\<close>

lemma fan_out_refines_ocean:
  "fan_out_run sample_registry True 30 concat [''seismic'', ''ocean''] sample_input =
     Inr [Some (failed_output ''seismic'' ''none''), Some (failed_output ''ocean'' ''Tokyo'')]"
  by code_simp

end
