(* ===== verification/Python_Text.thy ===== *)
theory Python_Text
  imports Evidence
begin

text \<open>
  Text handling of the Python standard library that several components share: reading decimal
  integers and floats, fixed-point output, title case and capitals (on letters whose capital is a Latin-1 character),
  and the ISO text of a time.
\<close>

section \<open>Reading values\<close>

definition dec_value :: "char \<Rightarrow> int option" where
  "dec_value c = (let n = char_code c in if 48 \<le> n \<and> n \<le> 57 then Some (n - 48) else None)"

text \<open>Decimal digits with single underscores between them.\<close>

fun dec_digits_from :: "int \<Rightarrow> string \<Rightarrow> int option" where
  "dec_digits_from acc [] = Some acc"
| "dec_digits_from acc (c # cs) =
     (case dec_value c of
        Some d \<Rightarrow> dec_digits_from (10 * acc + d) cs
      | None \<Rightarrow> (if c = CHR ''_'' then
                  (case cs of [] \<Rightarrow> None
                   | c' # cs' \<Rightarrow> (case dec_value c' of None \<Rightarrow> None
                       | Some d \<Rightarrow> dec_digits_from (10 * acc + d) cs'))
                else None))"

definition dec_body :: "string \<Rightarrow> int option" where
  "dec_body s = (case s of [] \<Rightarrow> None
     | c # cs \<Rightarrow> (case dec_value c of None \<Rightarrow> None | Some d \<Rightarrow> dec_digits_from d cs))"

definition signed_body :: "(string \<Rightarrow> 'a option) \<Rightarrow> ('a \<Rightarrow> 'a) \<Rightarrow> string \<Rightarrow> 'a option" where
  "signed_body body neg s = (case s of
       [] \<Rightarrow> None
     | c # cs \<Rightarrow> if c = CHR ''-'' then map_option neg (body cs)
                 else if c = CHR ''+'' then body cs else body (c # cs))"

text \<open>\<open>int(s)\<close> of a text.\<close>

definition int_text :: "string \<Rightarrow> int option" where
  "int_text s = signed_body dec_body uminus (str_strip s)"

text \<open>\<open>float(s)\<close> of a text in decimal notation: digits, a point, an exponent. The texts of infinity and
  not-a-number, which have no float here, are read as invalid.\<close>

definition dec_mantissa :: "string \<Rightarrow> (int \<times> nat) option" where
  "dec_mantissa s =
     (let ip = takeWhile (\<lambda>c. c \<noteq> CHR ''.'') s; rest = drop (length ip) s; fp = drop 1 rest;
          n = length (filter (\<lambda>c. c \<noteq> CHR ''_'') fp)
      in if rest = [] then map_option (\<lambda>i. (i, 0)) (dec_body ip)
         else if ip = [] then map_option (\<lambda>f. (f, n)) (dec_body fp)
         else if fp = [] then map_option (\<lambda>i. (i, 0)) (dec_body ip)
         else (case (dec_body ip, dec_body fp) of
                 (Some i, Some f) \<Rightarrow> Some (i * 10 ^ n + f, n) | _ \<Rightarrow> None))"

definition float_body :: "string \<Rightarrow> flt option" where
  "float_body s =
     (let m = takeWhile (\<lambda>c. c \<noteq> CHR ''e'' \<and> c \<noteq> CHR ''E'') s; rest = drop (length m) s
      in case dec_mantissa m of
           None \<Rightarrow> None
         | Some (v, n) \<Rightarrow>
             (if rest = [] then Some (fl64 (of_int v / 10 ^ n))
              else case signed_body dec_body uminus (drop 1 rest) of
                     None \<Rightarrow> None
                   | Some e \<Rightarrow> Some (fl64 (of_int v / 10 ^ n * 10 powi e))))"

definition float_text :: "string \<Rightarrow> flt option" where
  "float_text s = signed_body float_body uminus (str_strip s)"

text \<open>\<open>f'{x:.nf}'\<close>, with \<open>+\<close> when the sign is always shown.\<close>

definition format_fixed :: "bool \<Rightarrow> nat \<Rightarrow> flt \<Rightarrow> string" where
  "format_fixed always n x =
     (let m = round_half_even (\<bar>x\<bar> * 10 ^ n); frac = pos_digits (m mod 10 ^ n)
      in (if x < 0 then ''-'' else if always then ''+'' else []) @ pos_digits (m div 10 ^ n) @
         (if n = 0 then [] else ''.'' @ replicate (n - length frac) (CHR ''0'') @ frac))"

text \<open>\<open>s.title()\<close>.\<close>

definition is_cased :: "char \<Rightarrow> bool" where
  "is_cased c = (let n = char_code c in (65 \<le> n \<and> n \<le> 90) \<or> (97 \<le> n \<and> n \<le> 122) \<or> n \<in> {170, 181, 186} \<or>
     (192 \<le> n \<and> n \<le> 255 \<and> n \<noteq> 215 \<and> n \<noteq> 247))"

definition char_title :: "char \<Rightarrow> char" where
  "char_title c = (let n = char_code c in
     if (97 \<le> n \<and> n \<le> 122) \<or> (224 \<le> n \<and> n \<le> 254 \<and> n \<noteq> 247) then char_of (n - 32) else c)"

fun title_from :: "bool \<Rightarrow> string \<Rightarrow> string" where
  "title_from prev [] = []"
| "title_from prev (c # cs) = (if prev then char_lower c else char_title c) # title_from (is_cased c) cs"

definition str_title :: "string \<Rightarrow> string" where
  "str_title s = title_from False s"

text \<open>\<open>s.capitalize()\<close>.\<close>

definition str_capitalize :: "string \<Rightarrow> string" where
  "str_capitalize s = (case s of [] \<Rightarrow> [] | c # cs \<Rightarrow> char_title c # map char_lower cs)"

section \<open>Times\<close>

text \<open>
  A time is a count of microseconds since 1970-01-01 UTC. \<open>civil_of_days\<close> gives the year, month and
  day of a day number in the proleptic Gregorian calendar; years are counted from March.
\<close>

definition civil_of_days :: "int \<Rightarrow> int \<times> int \<times> int" where
  "civil_of_days n =
     (let z = n + 719468; era = z div 146097; doe = z mod 146097;
          yoe = (doe - doe div 1460 + doe div 36524 - doe div 146096) div 365;
          doy = doe - (365 * yoe + yoe div 4 - yoe div 100);
          mp = (5 * doy + 2) div 153;
          d = doy - (153 * mp + 2) div 5 + 1;
          m = (if mp < 10 then mp + 3 else mp - 9)
      in (yoe + era * 400 + (if m \<le> 2 then 1 else 0), m, d))"

definition days_of_civil :: "int \<Rightarrow> int \<Rightarrow> int \<Rightarrow> int" where
  "days_of_civil y m d =
     (let y' = (if m \<le> 2 then y - 1 else y); era = y' div 400; yoe = y' mod 400;
          mp = (if 2 < m then m - 3 else m + 9);
          doy = (153 * mp + 2) div 5 + d - 1
      in era * 146097 + yoe * 365 + yoe div 4 - yoe div 100 + doy - 719468)"

definition padded :: "nat \<Rightarrow> int \<Rightarrow> string" where
  "padded w n = (let ds = int_str n in replicate (w - length ds) (CHR ''0'') @ ds)"

text \<open>\<open>dt.isoformat()\<close> of a time in UTC.\<close>

definition isoformat :: "int \<Rightarrow> string" where
  "isoformat t =
     (let days = t div 86400000000; us = t mod 86400000000; s = us div 1000000; f = us mod 1000000;
          (y, m, d) = civil_of_days days
      in padded 4 y @ ''-'' @ padded 2 m @ ''-'' @ padded 2 d @ ''T'' @
         padded 2 (s div 3600) @ '':'' @ padded 2 (s div 60 mod 60) @ '':'' @ padded 2 (s mod 60) @
         (if f = 0 then [] else ''.'' @ padded 6 f) @ ''+00:00'')"

text \<open>\<open>datetime.fromtimestamp(x, UTC)\<close>: the fraction is rounded to microseconds, half to even; a
  year outside 1 to 9999 raises.\<close>

definition from_timestamp :: "flt \<Rightarrow> int py" where
  "from_timestamp x =
     (let ip = (if 0 \<le> x then \<lfloor>x\<rfloor> else \<lceil>x\<rceil>);
          t = ip * 1000000 + round_half_even (fl64 ((x - of_int ip) * 1000000))
      in if days_of_civil 1 1 1 * 86400000000 \<le> t \<and> t < days_of_civil 10000 1 1 * 86400000000 then Inr t
         else Inl (Value_Error ''year is out of range''))"

section \<open>Decimal texts\<close>

lemma dec_value_digit: "0 \<le> d \<Longrightarrow> d < 10 \<Longrightarrow> dec_value (digit_char d) = Some d"
  by (simp add: dec_value_def digit_char_def char_code_def Let_def)

lemma dec_digits_snoc:
  "dec_digits_from acc xs = Some v \<Longrightarrow> dec_value c = Some d \<Longrightarrow> dec_digits_from acc (xs @ [c]) = Some (10 * v + d)"
  by (induction acc xs rule: dec_digits_from.induct) (auto split: option.splits if_splits list.splits)

lemma dec_body_snoc:
  "dec_body xs = Some v \<Longrightarrow> dec_value c = Some d \<Longrightarrow> dec_body (xs @ [c]) = Some (10 * v + d)"
  by (auto simp: dec_body_def dec_digits_snoc split: list.splits option.splits)

lemma dec_body_pos_digits: "0 \<le> n \<Longrightarrow> dec_body (pos_digits n) = Some n"
proof (induction n rule: pos_digits.induct)
  case (1 n)
  show ?case
  proof (cases "n < 10")
    case True
    with 1(2) show ?thesis by (simp add: pos_digits.simps [of n] dec_body_def dec_value_digit)
  next
    case False
    with 1 have "dec_body (pos_digits (n div 10)) = Some (n div 10)" by simp
    from dec_body_snoc [OF this dec_value_digit [of "n mod 10"]] False show ?thesis
      by (simp add: pos_digits.simps [of n])
  qed
qed

lemma pos_digits_chars: "0 \<le> n \<Longrightarrow> c \<in> set (pos_digits n) \<Longrightarrow> dec_value c \<noteq> None"
proof (induction n rule: pos_digits.induct)
  case (1 n)
  then show ?case
    by (cases "n < 10") (auto simp: pos_digits.simps [of n] dec_value_digit)
qed

lemma nat_str_facts:
  "dec_body (int_str (int i)) = Some (int i)"
  "c \<in> set (int_str (int i)) \<Longrightarrow> dec_value c \<noteq> None"
  using dec_body_pos_digits [of "int i"] pos_digits_chars [of "int i" c] by (auto simp: int_str_def)

lemma nat_str_head: obtains c cs where "int_str (int i) = c # cs" "dec_value c \<noteq> None"
proof (cases "int_str (int i)")
  case Nil
  then show thesis using nat_str_facts(1) [of i] by (simp add: dec_body_def)
next
  case (Cons c cs)
  then show thesis using that nat_str_facts(2) [of c i] by simp
qed

lemma nat_str_inj: "int_str (int i) = int_str (int j) \<longleftrightarrow> i = j"
  using nat_str_facts(1) [of i] nat_str_facts(1) [of j] by (metis of_nat_eq_iff option.inject)

end
