(* ===== verification/Causal.thy ===== *)
theory Causal
  imports Registry Python_Text
begin

text \<open>
  The causal-chain repository (\<open>db/causal_repository.py\<close>) over the tables of hazard events, their
  relationships (\<open>db/models/hazard_event.py\<close>) and the administrative boundaries
  (\<open>db/models/administrative_boundary.py\<close>). A geometry is opaque: PostGIS's \<open>ST_DWithin\<close> and
  \<open>ST_Within\<close> are parameters. The recursive query is modelled by the evaluation of a recursive
  common table expression: the rows of one round are the input of the next, until a round is empty.
  SQL leaves the order of rows of equal depth open; the model keeps the order of the rounds.
\<close>

section \<open>Tables\<close>

record 'g hazard_event =
  he_id :: uuid
  he_event_type :: string
  he_region :: "'g option"
  region_label :: "string option"
  event_date :: int
  he_details :: "string option"
  he_source :: "string option"
  external_id :: "string option"

text \<open>\<open>confidence\<close> is a decimal of three digits, two of them after the point.\<close>

record hazard_relationship =
  hr_id :: uuid
  parent_id :: uuid
  child_id :: uuid
  relationship_type :: string
  hr_confidence :: rat

record 'b administrative_boundary =
  ab_id :: uuid
  osm_id :: string
  ab_name :: string
  admin_level :: "int option"
  geom :: 'b

record ('g, 'b) hazard_db =
  hazard_events :: "'g hazard_event list"
  hazard_relationships :: "hazard_relationship list"
  administrative_boundaries :: "'b administrative_boundary list"

section \<open>The recursive query\<close>

record causal_row =
  row_event_id :: uuid
  row_event_type :: string
  row_region :: "string option"
  row_details :: "string option"
  path_ids :: "uuid list"
  path_types :: "string list"
  row_depth :: int
  edge_confidences :: "rat list"

definition anchor_row :: "'g hazard_event \<Rightarrow> causal_row" where
  "anchor_row e = \<lparr>row_event_id = he_id e, row_event_type = he_event_type e, row_region = region_label e,
     row_details = he_details e, path_ids = [he_id e], path_types = [he_event_type e], row_depth = 1,
     edge_confidences = []\<rparr>"

text \<open>The events of the requested type with a region near the point, or inside the boundary.\<close>

definition radius_anchors ::
    "('g \<Rightarrow> flt \<Rightarrow> flt \<Rightarrow> flt \<Rightarrow> bool) \<Rightarrow> ('g, 'b) hazard_db \<Rightarrow> string \<Rightarrow> flt \<times> flt \<Rightarrow> flt \<Rightarrow> 'g hazard_event list" where
  "radius_anchors st_dwithin db ty point radius =
     (case point of (lat, lon) \<Rightarrow>
        filter (\<lambda>e. he_event_type e = ty \<and>
            (case he_region e of None \<Rightarrow> False | Some g \<Rightarrow> st_dwithin g lon lat radius)) (hazard_events db))"

definition boundary_anchors ::
    "('g \<Rightarrow> 'b \<Rightarrow> bool) \<Rightarrow> ('g, 'b) hazard_db \<Rightarrow> string \<Rightarrow> uuid \<Rightarrow> 'g hazard_event list" where
  "boundary_anchors st_within db ty boundary =
     [e. e \<leftarrow> hazard_events db, tb \<leftarrow> filter (\<lambda>b. ab_id b = boundary) (administrative_boundaries db),
         he_event_type e = ty \<and> (case he_region e of None \<Rightarrow> False | Some g \<Rightarrow> st_within g (geom tb))]"

definition child_row :: "causal_row \<Rightarrow> hazard_relationship \<Rightarrow> 'g hazard_event \<Rightarrow> causal_row" where
  "child_row cp hr child =
     \<lparr>row_event_id = he_id child, row_event_type = he_event_type child, row_region = region_label child,
      row_details = he_details child, path_ids = path_ids cp @ [he_id child],
      path_types = path_types cp @ [he_event_type child], row_depth = row_depth cp + 1,
      edge_confidences = edge_confidences cp @ [hr_confidence hr]\<rparr>"

text \<open>The recursive member for one row: both joins, the depth bound and the cycle guard.\<close>

definition expand :: "('g, 'b) hazard_db \<Rightarrow> int \<Rightarrow> causal_row \<Rightarrow> causal_row list" where
  "expand db max_depth cp =
     [child_row cp hr child. hr \<leftarrow> hazard_relationships db, row_event_id cp = parent_id hr,
        child \<leftarrow> hazard_events db, child_id hr = he_id child \<and> row_depth cp < max_depth \<and>
        he_id child \<notin> set (path_ids cp)]"

lemma expand_mem:
  "w' \<in> set (expand db m w) \<longleftrightarrow> (\<exists>hr\<in>set (hazard_relationships db). \<exists>e\<in>set (hazard_events db).
     row_event_id w = parent_id hr \<and> child_id hr = he_id e \<and> row_depth w < m \<and>
     he_id e \<notin> set (path_ids w) \<and> w' = child_row w hr e)"
  by (auto simp: expand_def)

lemma expand_depth: "w' \<in> set (expand db m w) \<Longrightarrow> row_depth w < m \<and> row_depth w' = row_depth w + 1"
  by (auto simp: expand_mem child_row_def)

text \<open>Each round lies one level deeper, and only rows above the bound are expanded.\<close>

definition rounds_left :: "int \<Rightarrow> causal_row list \<Rightarrow> nat" where
  "rounds_left m W = (if W = [] then 0 else Suc (nat (m - Min (row_depth ` set W))))"

lemma rounds_left_decreases:
  assumes "W \<noteq> []"
  shows "rounds_left m (concat (map (expand db m) W)) < rounds_left m W"
proof (cases "concat (map (expand db m) W) = []")
  case True
  then show ?thesis using assms by (simp add: rounds_left_def)
next
  case False
  let ?N = "concat (map (expand db m) W)"
  have "Min (row_depth ` set ?N) \<in> row_depth ` set ?N" using False by (intro Min_in) auto
  then obtain w w' where w: "w \<in> set W" "w' \<in> set (expand db m w)"
    and min: "Min (row_depth ` set ?N) = row_depth w'" by auto
  have "Min (row_depth ` set W) \<le> row_depth w" using w(1) by simp
  then have "m - Min (row_depth ` set ?N) < m - Min (row_depth ` set W)"
    "0 < m - Min (row_depth ` set W)"
    using expand_depth [OF w(2)] min by linarith+
  then show ?thesis using False assms by (simp add: rounds_left_def)
qed

function causal_path :: "('g, 'b) hazard_db \<Rightarrow> int \<Rightarrow> causal_row list \<Rightarrow> causal_row list" where
  "causal_path db max_depth working =
     (if working = [] then []
      else working @ causal_path db max_depth (concat (map (expand db max_depth) working)))"
  by pat_completeness auto
termination
  by (relation "measure (\<lambda>(db, m, W). rounds_left m W)") (auto simp: rounds_left_decreases)

declare causal_path.simps [simp del]

definition causal_rows :: "('g, 'b) hazard_db \<Rightarrow> int \<Rightarrow> 'g hazard_event list \<Rightarrow> causal_row list" where
  "causal_rows db max_depth anchors =
     sort_key row_depth (causal_path db max_depth (map anchor_row anchors))"

section \<open>Evidence from rows\<close>

definition calculate_chain_confidence :: "flt list \<Rightarrow> flt" where
  "calculate_chain_confidence cs = (if cs = [] then 1 else Min (set cs))"

definition or_default :: "string option \<Rightarrow> string \<Rightarrow> string" where
  "or_default s dflt = (case s of None \<Rightarrow> dflt | Some t \<Rightarrow> if t = [] then dflt else t)"

definition chain_metadata :: "causal_row \<Rightarrow> (string, json) dict" where
  "chain_metadata row =
     [(''visited_event_ids'', JArr (map (JStr \<circ> uuid_str) (path_ids row))),
      (''event_chain_path'', JArr (map JStr (path_types row))),
      (''depth'', JInt (row_depth row)),
      (''edge_confidences'', JArr (map (JFloat \<circ> fl64) (edge_confidences row)))]"

text \<open>What the two entry points do differently with a row: the source, the text before the region, the
  document and the additional metadata.\<close>

record chain_mode =
  cm_source :: string
  cm_place :: string
  cm_document :: string
  cm_extra :: "(string, json) dict"

definition radius_mode :: chain_mode where
  "radius_mode = \<lparr>cm_source = ''Causal Chain Traversal'', cm_place = ''Historical causal chain in '',
     cm_document = ''causal_chain'', cm_extra = []\<rparr>"

definition boundary_mode :: "uuid \<Rightarrow> chain_mode" where
  "boundary_mode b = \<lparr>cm_source = ''Causal Chain Traversal (Boundary Mode)'',
     cm_place = ''Historical causal chain in boundary '', cm_document = ''causal_chain_boundary'',
     cm_extra = [(''boundary_id'', JStr (uuid_str b))]\<rparr>"

definition chain_evidence :: "chain_mode \<Rightarrow> uuid \<Rightarrow> int \<Rightarrow> causal_row \<Rightarrow> evidence py" where
  "chain_evidence md i now row =
     (let chain_str = str_join '' -> '' (path_types row);
          claim = cm_place md @ or_default (row_region row) ''unspecified region'' @ '': '' @ chain_str @
            ''. Initial trigger details: '' @ or_default (row_details row) ''N/A''
      in py_bind (mk_evidence i (cm_source md) claim now
             (Some (calculate_chain_confidence (map fl64 (edge_confidences row)))) None)
           (\<lambda>e. Inr (e\<lparr>document_id := Some (cm_document md), chunk_id := JStr (uuid_str (row_event_id row)),
              title := Some (''Causal Path: '' @ chain_str),
              source_url := Some ''http://db.planetaryrisk.org/causal_chains'',
              extra_metadata := chain_metadata row @ cm_extra md\<rparr>)))"

text \<open>The loop over the rows; \<open>ids\<close> supplies the identifiers of the new items.\<close>

definition rows_to_evidence ::
    "chain_mode \<Rightarrow> (nat \<Rightarrow> uuid) \<Rightarrow> int \<Rightarrow> causal_row list \<Rightarrow> evidence list py" where
  "rows_to_evidence md ids now rows =
     py_sequence (map (\<lambda>(k, row). chain_evidence md (ids k) now row)
       (enumerate 0 (filter (\<lambda>row. \<not> row_depth row < 2) rows)))"

text \<open>The handler around the query: a cancelled statement becomes a timeout.\<close>

definition query_failed :: "string \<Rightarrow> py_exc \<Rightarrow> py_exc" where
  "query_failed what e =
     (let m = str_lower (exc_str e)
      in if str_contains m ''57014'' \<or> str_contains m ''query canceled'' \<or> str_contains m ''statement timeout''
         then Timeout_Error (what @ '' query exceeded time budget'') else e)"

text \<open>\<open>fault\<close> is the exception the database raises while the statements run, if any.\<close>

definition find_causal_chain ::
    "('g \<Rightarrow> flt \<Rightarrow> flt \<Rightarrow> flt \<Rightarrow> bool) \<Rightarrow> ('g, 'b) hazard_db \<Rightarrow> py_exc option \<Rightarrow> (nat \<Rightarrow> uuid) \<Rightarrow> int \<Rightarrow>
     string \<Rightarrow> flt \<times> flt \<Rightarrow> flt \<Rightarrow> int \<Rightarrow> evidence list py" where
  "find_causal_chain st_dwithin db fault ids now ty point radius max_depth =
     (case fault of
        Some e \<Rightarrow> Inl (query_failed ''causal chain'' e)
      | None \<Rightarrow> rows_to_evidence radius_mode ids now
          (causal_rows db max_depth (radius_anchors st_dwithin db ty point radius)))"

definition find_causal_chain_within_boundary ::
    "('g \<Rightarrow> 'b \<Rightarrow> bool) \<Rightarrow> ('g, 'b) hazard_db \<Rightarrow> py_exc option \<Rightarrow> (nat \<Rightarrow> uuid) \<Rightarrow> int \<Rightarrow>
     string \<Rightarrow> uuid \<Rightarrow> int \<Rightarrow> evidence list py" where
  "find_causal_chain_within_boundary st_within db fault ids now ty boundary max_depth =
     (case fault of
        Some e \<Rightarrow> Inl (query_failed ''causal chain boundary'' e)
      | None \<Rightarrow> rows_to_evidence (boundary_mode boundary) ids now
          (causal_rows db max_depth (boundary_anchors st_within db ty boundary)))"

section \<open>Chains of events\<close>

text \<open>
  The reference: a chain is a first event and a list of hops, each a relationship with the event it
  leads to. It is a path along relationships, visits no event twice and respects the depth bound.
\<close>

type_synonym 'g hops = "(hazard_relationship \<times> 'g hazard_event) list"

fun linked :: "uuid \<Rightarrow> 'g hops \<Rightarrow> bool" where
  "linked i [] = True"
| "linked i ((r, e) # hs) = (parent_id r = i \<and> child_id r = he_id e \<and> linked (he_id e) hs)"

definition hops_in :: "('g, 'b) hazard_db \<Rightarrow> 'g hops \<Rightarrow> bool" where
  "hops_in db hs \<longleftrightarrow> set hs \<subseteq> set (hazard_relationships db) \<times> set (hazard_events db)"

definition hop_ids :: "'g hops \<Rightarrow> uuid list" where
  "hop_ids hs = map (he_id \<circ> snd) hs"

definition causal_chain :: "('g, 'b) hazard_db \<Rightarrow> int \<Rightarrow> 'g hazard_event \<Rightarrow> 'g hops \<Rightarrow> bool" where
  "causal_chain db m e hs \<longleftrightarrow> hops_in db hs \<and> linked (he_id e) hs \<and> distinct (he_id e # hop_ids hs) \<and>
     (hs = [] \<or> int (length hs) < m)"

definition row_of :: "causal_row \<Rightarrow> 'g hops \<Rightarrow> causal_row" where
  "row_of w hs = foldl (\<lambda>w (r, e). child_row w r e) w hs"

lemma row_of_simps [simp]: "row_of w [] = w" "row_of w ((r, e) # hs) = row_of (child_row w r e) hs"
  by (simp_all add: row_of_def)

text \<open>The extensions of a row by hops, as the query grows them.\<close>

fun extends :: "('g, 'b) hazard_db \<Rightarrow> int \<Rightarrow> causal_row \<Rightarrow> 'g hops \<Rightarrow> bool" where
  "extends db m w [] = True"
| "extends db m w ((r, e) # hs) =
     (r \<in> set (hazard_relationships db) \<and> e \<in> set (hazard_events db) \<and> parent_id r = row_event_id w \<and>
      child_id r = he_id e \<and> row_depth w < m \<and> he_id e \<notin> set (path_ids w) \<and> extends db m (child_row w r e) hs)"

lemma causal_path_exact:
  "set (causal_path db m W) = {row_of w hs | w hs. w \<in> set W \<and> extends db m w hs}"
proof (induction db m W rule: causal_path.induct)
  case (1 db m W)
  show ?case
  proof (cases "W = []")
    case True
    then show ?thesis by (simp add: causal_path.simps)
  next
    case False
    let ?N = "concat (map (expand db m) W)"
    have IH: "set (causal_path db m ?N) = {row_of w hs | w hs. w \<in> set ?N \<and> extends db m w hs}"
      using 1 False by simp
    have "{row_of w hs | w hs. w \<in> set ?N \<and> extends db m w hs} =
        {row_of w hs | w hs. w \<in> set W \<and> extends db m w hs \<and> hs \<noteq> []}" (is "?L = ?R")
    proof (intro equalityI subsetI)
      fix x assume "x \<in> ?L"
      then obtain w' gs where x: "x = row_of w' gs" "w' \<in> set ?N" "extends db m w' gs" by blast
      from x(2) obtain w r e where w: "w \<in> set W" "w' = child_row w r e" "extends db m w [(r, e)]"
        by (auto simp: expand_mem)
      have "x = row_of w ((r, e) # gs)" "extends db m w ((r, e) # gs)" using w x by auto
      then show "x \<in> ?R" using w(1) by blast
    next
      fix x assume "x \<in> ?R"
      then obtain w hs where hs: "w \<in> set W" "x = row_of w hs" "extends db m w hs" "hs \<noteq> []" by blast
      then obtain r e gs where "hs = (r, e) # gs" by (cases hs) auto
      with hs have w: "w \<in> set W" "x = row_of w ((r, e) # gs)" "extends db m w ((r, e) # gs)" by simp_all
      then have "child_row w r e \<in> set ?N" by (force simp: expand_mem)
      with w show "x \<in> ?L" by auto
    qed
    moreover have "set (causal_path db m W) = set W \<union> set (causal_path db m ?N)"
      using False by (subst causal_path.simps) simp
    moreover have "{row_of w hs | w hs. w \<in> set W \<and> extends db m w hs} = set W \<union> ?R" (is "?A = _")
    proof (intro equalityI subsetI)
      fix x assume "x \<in> ?A"
      then obtain w hs where "w \<in> set W" "x = row_of w hs" "extends db m w hs" by blast
      then show "x \<in> set W \<union> ?R" by (cases "hs = []") auto
    next
      fix x assume "x \<in> set W \<union> ?R"
      moreover have "w = row_of w [] \<and> extends db m w []" for w by simp
      ultimately show "x \<in> ?A" by blast
    qed
    ultimately show ?thesis by (simp only: IH)
  qed
qed


lemma row_of_fields:
  "path_ids (row_of w hs) = path_ids w @ hop_ids hs"
  "path_types (row_of w hs) = path_types w @ map (he_event_type \<circ> snd) hs"
  "row_depth (row_of w hs) = row_depth w + int (length hs)"
  "edge_confidences (row_of w hs) = edge_confidences w @ map (hr_confidence \<circ> fst) hs"
  "row_event_id (row_of w hs) = last (row_event_id w # hop_ids hs)"
  "hs \<noteq> [] \<Longrightarrow> row_details (row_of w hs) = he_details (snd (last hs))"
  by (induction hs arbitrary: w) (auto simp: child_row_def hop_ids_def split: prod.splits)

lemma extends_iff:
  "extends db m w hs \<longleftrightarrow> hops_in db hs \<and> linked (row_event_id w) hs \<and> distinct (hop_ids hs) \<and>
     set (hop_ids hs) \<inter> set (path_ids w) = {} \<and> (hs = [] \<or> row_depth w + int (length hs) \<le> m)"
proof (induction hs arbitrary: w)
  case Nil
  then show ?case by (simp add: hops_in_def hop_ids_def)
next
  case (Cons h hs)
  then show ?case by (cases h) (auto simp: hops_in_def hop_ids_def child_row_def)
qed

lemma extends_anchor: "extends db m (anchor_row e) hs \<longleftrightarrow> causal_chain db m e hs"
  by (auto simp: extends_iff causal_chain_def anchor_row_def)

lemma causal_rows_exact:
  "set (causal_rows db m anchors) =
     {row_of (anchor_row e) hs | e hs. e \<in> set anchors \<and> causal_chain db m e hs}"
proof -
  have "set (causal_rows db m anchors) = {row_of w hs | w hs. w \<in> anchor_row ` set anchors \<and> extends db m w hs}"
    by (simp add: causal_rows_def causal_path_exact)
  also have "\<dots> = {row_of (anchor_row e) hs | e hs. e \<in> set anchors \<and> extends db m (anchor_row e) hs}" by blast
  finally show ?thesis by (simp only: extends_anchor)
qed

section \<open>The evidence is the chains\<close>

text \<open>What an item says of its chain, and what a chain should be reported as: the events visited, the
  types along the path, the depth, the confidence of every edge, the weakest of them, the last event.\<close>

definition chain_view :: "evidence \<Rightarrow> (string, json) dict \<times> flt \<times> json" where
  "chain_view e = (extra_metadata e, ev_confidence e, chunk_id e)"

definition chain_report :: "chain_mode \<Rightarrow> 'g hazard_event \<Rightarrow> 'g hops \<Rightarrow> (string, json) dict \<times> flt \<times> json" where
  "chain_report md e hs =
     ([(''visited_event_ids'', JArr (map (JStr \<circ> uuid_str) (he_id e # hop_ids hs))),
       (''event_chain_path'', JArr (map JStr (he_event_type e # map (he_event_type \<circ> snd) hs))),
       (''depth'', JInt (1 + int (length hs))),
       (''edge_confidences'', JArr (map (JFloat \<circ> fl64 \<circ> hr_confidence \<circ> fst) hs))] @ cm_extra md,
      Min (fl64 ` hr_confidence ` fst ` set hs), JStr (uuid_str (he_id (snd (last hs)))))"

definition hop_depth :: "evidence \<Rightarrow> int" where
  "hop_depth e = (case dict_get (extra_metadata e) ''depth'' of Some (JInt d) \<Rightarrow> d | _ \<Rightarrow> 0)"

definition confidences_ok :: "('g, 'b) hazard_db \<Rightarrow> bool" where
  "confidences_ok db \<longleftrightarrow> (\<forall>r\<in>set (hazard_relationships db). in_unit (hr_confidence r))"

lemma in_unit_fl64: "in_unit x \<Longrightarrow> in_unit (fl64 x)"
  using fl64_mono [of 0 x] fl64_mono [of x 1] by (simp add: in_unit_def)

lemma min_confidence:
  assumes "cs \<noteq> []" "\<forall>c\<in>set cs. in_unit c"
  shows "calculate_chain_confidence (map fl64 cs) = Min (fl64 ` set cs) \<and>
    in_unit (Min (fl64 ` set cs)) \<and> fl64 (Min (fl64 ` set cs)) = Min (fl64 ` set cs)"
proof -
  have "Min (fl64 ` set cs) \<in> fl64 ` set cs" using assms(1) by (intro Min_in) auto
  then obtain c where "c \<in> set cs" "Min (fl64 ` set cs) = fl64 c" by blast
  then show ?thesis using assms by (simp add: calculate_chain_confidence_def fl64_idem in_unit_fl64)
qed

lemma chain_evidence_Inr:
  assumes "edge_confidences row \<noteq> []" "\<forall>c\<in>set (edge_confidences row). in_unit c"
  shows "\<exists>e. chain_evidence md i now row = Inr e \<and>
    chain_view e = (chain_metadata row @ cm_extra md, Min (fl64 ` set (edge_confidences row)),
      JStr (uuid_str (row_event_id row))) \<and> hop_depth e = row_depth row \<and> valid_estimate (ev_uncertainty e)"
proof -
  let ?c = "Min (fl64 ` set (edge_confidences row))"
  note c = min_confidence [OF assms]
  from init_uncertainty_confidence [of ?c] c obtain u
    where "init_uncertainty (Some ?c) None = Inr u" "valid_estimate u" "point_estimate u = ?c" by blast
  then show ?thesis
    using c by (auto simp: chain_evidence_def mk_evidence_def chain_view_def ev_confidence_def Let_def
        hop_depth_def chain_metadata_def)
qed

lemma map_eq_of_all2: "list_all2 (\<lambda>x y. f y = g x) xs ys \<Longrightarrow> map f ys = map g xs"
  by (induction rule: list_all2_induct) auto

lemma map_enumerate_snd: "map (\<lambda>x. g (snd x)) (enumerate n xs) = map g xs"
  by (induction xs arbitrary: n) auto

text \<open>A row of depth two or more is a chain with at least one hop, along stored relationships.\<close>

lemma deep_rowE:
  assumes "row \<in> set (causal_rows db m anchors)" "\<not> row_depth row < 2"
  obtains e hs where "row = row_of (anchor_row e) hs" "e \<in> set anchors" "causal_chain db m e hs" "hs \<noteq> []"
  using assms by (auto simp: causal_rows_exact row_of_fields anchor_row_def)

lemma chain_row_report:
  assumes "hs \<noteq> []"
  shows "(chain_metadata (row_of (anchor_row e) hs) @ cm_extra md,
      Min (fl64 ` set (edge_confidences (row_of (anchor_row e) hs))),
      JStr (uuid_str (row_event_id (row_of (anchor_row e) hs)))) = chain_report md e hs"
  using assms
  by (simp add: chain_metadata_def chain_report_def row_of_fields anchor_row_def image_image hop_ids_def last_map)

lemma rows_to_evidence_exact:
  assumes "confidences_ok db"
  shows "\<exists>evs. rows_to_evidence md ids now (causal_rows db m anchors) = Inr evs \<and> sorted (map hop_depth evs) \<and>
    (\<forall>e\<in>set evs. valid_estimate (ev_uncertainty e)) \<and>
    chain_view ` set evs = {chain_report md e hs | e hs. e \<in> set anchors \<and> causal_chain db m e hs \<and> hs \<noteq> []}"
proof -
  let ?rows = "filter (\<lambda>row. \<not> row_depth row < 2) (causal_rows db m anchors)"
  let ?g = "\<lambda>row. (chain_metadata row @ cm_extra md, Min (fl64 ` set (edge_confidences row)),
    JStr (uuid_str (row_event_id row)))"
  let ?f = "\<lambda>(k, row). chain_evidence md (ids k) now row"
  let ?P = "\<lambda>x e. chain_view e = ?g (snd x) \<and> hop_depth e = row_depth (snd x) \<and> valid_estimate (ev_uncertainty e)"
  have "\<exists>e. ?f x = Inr e \<and> ?P x e" if "x \<in> set (enumerate 0 ?rows)" for x
  proof -
    have "snd x \<in> set ?rows" using that imageI [OF that, of snd] by (simp del: set_filter flip: set_map)
    then obtain e hs where row: "snd x = row_of (anchor_row e) hs" "causal_chain db m e hs" "hs \<noteq> []"
      by (auto elim: deep_rowE)
    then have "\<forall>c\<in>set (edge_confidences (snd x)). in_unit c" "edge_confidences (snd x) \<noteq> []"
      using assms by (auto simp: row_of_fields anchor_row_def causal_chain_def hops_in_def confidences_ok_def)
    from chain_evidence_Inr [OF this(2,1), of md "ids (fst x)" now] show ?thesis by (simp add: case_prod_beta)
  qed
  from py_sequence_total [of "enumerate 0 ?rows" ?f ?P, OF this]
  obtain evs where evs: "rows_to_evidence md ids now (causal_rows db m anchors) = Inr evs"
    and all: "list_all2 ?P (enumerate 0 ?rows) evs" by (auto simp: rows_to_evidence_def)
  have view: "map chain_view evs = map ?g ?rows"
    using map_eq_of_all2 [of chain_view "\<lambda>x. ?g (snd x)" "enumerate 0 ?rows" evs]
      list_all2_mono [OF all, of "\<lambda>x e. chain_view e = ?g (snd x)"] map_enumerate_snd [of ?g 0 ?rows] by simp
  have "map hop_depth evs = map row_depth ?rows"
    using map_eq_of_all2 [of hop_depth "\<lambda>x. row_depth (snd x)" "enumerate 0 ?rows" evs]
      list_all2_mono [OF all, of "\<lambda>x e. hop_depth e = row_depth (snd x)"] by (simp add: map_enumerate_snd)
  moreover have "sorted (map row_depth ?rows)"
    by (simp add: causal_rows_def sorted_filter)
  moreover have "\<forall>e\<in>set evs. valid_estimate (ev_uncertainty e)"
    using all by (auto simp: list_all2_conv_all_nth in_set_conv_nth)
  moreover have "chain_view ` set evs = ?g ` set ?rows"
    using arg_cong [OF view, of set] by simp
  moreover have "?g ` set ?rows = {chain_report md e hs | e hs. e \<in> set anchors \<and> causal_chain db m e hs \<and> hs \<noteq> []}"
  proof (intro equalityI subsetI)
    fix x assume "x \<in> ?g ` set ?rows"
    then obtain row where "row \<in> set (causal_rows db m anchors)" "\<not> row_depth row < 2" and x: "x = ?g row" by auto
    then obtain e hs where "row = row_of (anchor_row e) hs" "e \<in> set anchors" "causal_chain db m e hs" "hs \<noteq> []"
      by (auto elim: deep_rowE)
    with x chain_row_report [of hs e md] show "x \<in> {chain_report md e hs | e hs. e \<in> set anchors \<and> causal_chain db m e hs \<and> hs \<noteq> []}"
      by auto
  next
    fix x assume "x \<in> {chain_report md e hs | e hs. e \<in> set anchors \<and> causal_chain db m e hs \<and> hs \<noteq> []}"
    then obtain e hs where c: "e \<in> set anchors" "causal_chain db m e hs" "hs \<noteq> []" and x: "x = chain_report md e hs" by auto
    have "row_of (anchor_row e) hs \<in> set ?rows"
      using c by (cases hs) (auto simp: causal_rows_exact row_of_fields anchor_row_def)
    with chain_row_report [OF c(3), of e md] x show "x \<in> ?g ` set ?rows" by (metis (no_types, lifting) image_eqI)
  qed
  ultimately show ?thesis using evs by auto
qed

text \<open>C7: when every stored relationship has a confidence between 0 and 1, the query around a point
  returns exactly the causal chains: for every path along stored relationships that starts at an event
  of the requested type near the point, visits no event twice and has at least two and at most
  \<open>max_depth\<close> events, there is an item with its events, types, edge confidences and the weakest of
  them as its confidence, and there is no other item; shorter chains come first.\<close>

theorem find_causal_chain_exact:
  assumes "confidences_ok db"
  shows "\<exists>evs. find_causal_chain st_dwithin db None ids now ty point radius m = Inr evs \<and>
    sorted (map hop_depth evs) \<and>
    chain_view ` set evs =
      {chain_report radius_mode e hs | e hs. e \<in> set (radius_anchors st_dwithin db ty point radius) \<and>
         causal_chain db m e hs \<and> hs \<noteq> []}"
  using rows_to_evidence_exact [OF assms, of radius_mode ids now m "radius_anchors st_dwithin db ty point radius"]
  by (auto simp: find_causal_chain_def)

lemma find_causal_chain_within_boundary_exact:
  assumes "confidences_ok db"
  shows "\<exists>evs. find_causal_chain_within_boundary st_within db None ids now ty b m = Inr evs \<and>
    sorted (map hop_depth evs) \<and>
    chain_view ` set evs =
      {chain_report (boundary_mode b) e hs | e hs. e \<in> set (boundary_anchors st_within db ty b) \<and>
         causal_chain db m e hs \<and> hs \<noteq> []}"
  using rows_to_evidence_exact [OF assms, of "boundary_mode b" ids now m "boundary_anchors st_within db ty b"]
  by (auto simp: find_causal_chain_within_boundary_def)

section \<open>A database of three events\<close>

definition ev3 :: "uuid \<Rightarrow> string \<Rightarrow> string \<Rightarrow> nat hazard_event" where
  "ev3 i ty details = \<lparr>he_id = i, he_event_type = ty, he_region = Some i, region_label = None, event_date = 0,
     he_details = Some details, he_source = None, external_id = None\<rparr>"

definition rel3 :: "uuid \<Rightarrow> uuid \<Rightarrow> rat \<Rightarrow> hazard_relationship" where
  "rel3 p c q = \<lparr>hr_id = 10 * p + c, parent_id = p, child_id = c, relationship_type = ''triggered'', hr_confidence = q\<rparr>"

text \<open>A cycle of three events: an earthquake, the tsunami it triggered, and the unrest after it.\<close>

definition cycle_db :: "(nat, nat) hazard_db" where
  "cycle_db = \<lparr>hazard_events = [ev3 1 ''earthquake'' ''M7'', ev3 2 ''tsunami'' ''wave'', ev3 3 ''unrest'' ''riot''],
     hazard_relationships = [rel3 1 2 (1/2), rel3 2 3 (3/4), rel3 3 1 1],
     administrative_boundaries = []\<rparr>"

lemma cycle_db_ok: "confidences_ok cycle_db"
  by (simp add: confidences_ok_def cycle_db_def rel3_def in_unit_def)

text \<open>The cycle is cut: the chains from the earthquake are the one-hop and the two-hop one.\<close>

lemma cycle_rows:
  "map path_ids (causal_rows cycle_db 4 (radius_anchors (\<lambda>g lon lat r. True) cycle_db ''earthquake'' (0, 0) 1)) =
     [[1], [1, 2], [1, 2, 3]]"
  by code_simp

theorem find_causal_chain_exact_witness:
  "\<exists>evs. find_causal_chain (\<lambda>g lon lat r. True) cycle_db None (\<lambda>k. k) 0 ''earthquake'' (0, 0) 1 4 = Inr evs \<and>
    sorted (map hop_depth evs) \<and>
    chain_report radius_mode (ev3 1 ''earthquake'' ''M7'') [(rel3 1 2 (1/2), ev3 2 ''tsunami'' ''wave'')]
      \<in> chain_view ` set evs"
proof -
  let ?a = "radius_anchors (\<lambda>g lon lat r. True) cycle_db ''earthquake'' (0, 0) 1"
  have "ev3 1 ''earthquake'' ''M7'' \<in> set ?a" by code_simp
  moreover have "causal_chain cycle_db 4 (ev3 1 ''earthquake'' ''M7'') [(rel3 1 2 (1/2), ev3 2 ''tsunami'' ''wave'')]"
    by code_simp
  moreover obtain evs where "find_causal_chain (\<lambda>g lon lat r. True) cycle_db None (\<lambda>k. k) 0 ''earthquake'' (0, 0) 1 4 = Inr evs"
    "sorted (map hop_depth evs)"
    "chain_view ` set evs = {chain_report radius_mode e hs | e hs. e \<in> set ?a \<and> causal_chain cycle_db 4 e hs \<and> hs \<noteq> []}"
    using find_causal_chain_exact [OF cycle_db_ok, of "\<lambda>g lon lat r. True" "\<lambda>k. k" 0 "''earthquake''" "(0, 0)" 1 4]
    by blast
  ultimately show ?thesis by blast
qed

text \<open>The sentence on the initial trigger quotes the details of the last event of the chain: for the
  earthquake that caused the tsunami it is the wave.\<close>

lemma initial_trigger_quotes_last_event:
  "map row_details (filter (\<lambda>row. path_ids row = [1, 2])
     (causal_rows cycle_db 4 (radius_anchors (\<lambda>g lon lat r. True) cycle_db ''earthquake'' (0, 0) 1))) = [Some ''wave'']"
  by code_simp

text \<open>The column admits confidences above 1; one such edge on a chain makes the whole query raise.\<close>

lemma confidence_above_one_raises:
  assumes "1 < fl64 q"
  shows "\<exists>e. chain_evidence md i now (child_row (anchor_row e1) \<lparr>hr_id = r, parent_id = a, child_id = b,
    relationship_type = ty, hr_confidence = q\<rparr> e2) = Inl (Validation_Error e)"
  using assms by (auto simp: chain_evidence_def mk_evidence_def init_uncertainty_def Let_def child_row_def
      anchor_row_def calculate_chain_confidence_def py_bind_def)

end
