(* ===== verification/Clients.thy ===== *)
theory Clients
  imports Resilience Causal
begin

text \<open>
  The clients of the external sources (\<open>tools/*/client.py\<close>, \<open>tools/geocoding.py\<close>,
  \<open>tools/http_client.py\<close>) over the resilience layer. A client builds a request, reads the reply of an
  attempt into JSON and names the cache entry; the service itself is a parameter, one reply or
  exception per request and attempt. The libm functions of the distance formula are parameters.
\<close>

section \<open>The shared HTTP client\<close>

text \<open>The process-wide client with the event loop it was made in; clients are numbered.\<close>

record http_client =
  client_no :: nat
  is_closed :: bool

record client_state =
  shared_client :: "http_client option"
  client_loop :: "nat option"
  clients_made :: nat

definition close_shared_client :: "client_state \<Rightarrow> client_state" where
  "close_shared_client st = (case shared_client st of None \<Rightarrow> st
     | Some _ \<Rightarrow> st\<lparr>shared_client := None, client_loop := None\<rparr>)"

definition get_shared_client :: "nat \<Rightarrow> client_state \<Rightarrow> client_state \<times> http_client" where
  "get_shared_client loop st =
     (let st = (case shared_client st of
                  Some c \<Rightarrow> if is_closed c \<or> client_loop st \<noteq> Some loop then close_shared_client st else st
                | None \<Rightarrow> st)
      in case shared_client st of
           Some c \<Rightarrow> (st, c)
         | None \<Rightarrow>
             (let c = \<lparr>client_no = clients_made st, is_closed = False\<rparr>
              in (st\<lparr>shared_client := Some c, client_loop := Some loop, clients_made := clients_made st + 1\<rparr>, c)))"

text \<open>The client handed out is open and belongs to the running loop; while the loop stays and nobody
  closes it, the same one is handed out again.\<close>

lemma get_shared_client_usable:
  "get_shared_client loop st = (st', c) \<Longrightarrow>
     shared_client st' = Some c \<and> \<not> is_closed c \<and> client_loop st' = Some loop \<and>
     get_shared_client loop st' = (st', c)"
  by (auto simp: get_shared_client_def close_shared_client_def Let_def split: option.splits if_splits)

section \<open>Requests and replies\<close>

record fetch_request =
  rq_url :: string
  rq_params :: "(string, json) dict"
  rq_headers :: "(string, string) dict"

record fetch_reply =
  status_code :: int
  resp_json :: "json py"
  resp_text :: string

text \<open>The addresses and keys of the sources in the settings.\<close>

record source_settings =
  openaq_api_key :: "string option"
  firms_api_key :: "string option"
  usgs_api_url :: string
  noaa_api_url :: string
  open_meteo_weather_url :: string
  open_meteo_geocoding_url :: string
  nominatim_api_url :: string
  firms_api_url :: string
  causal_chain_search_radius_meters :: flt
  enable_boundary_reasoning :: bool

text \<open>
  The world a client runs in: settings, for every cache entry whether Redis answers and when, the
  replies of the services, the present time, and whether the direct accesses to Redis succeed.
\<close>

record net =
  net_cfg :: settings
  net_sources :: source_settings
  net_up :: "string \<Rightarrow> access \<Rightarrow> bool"
  net_clock :: "string \<Rightarrow> access \<Rightarrow> int"
  net_http :: "fetch_request \<Rightarrow> nat \<Rightarrow> fetch_reply py"
  net_now :: int
  side_up :: "string \<Rightarrow> bool"

definition raise_for_status :: "fetch_reply \<Rightarrow> unit py" where
  "raise_for_status r = (if 200 \<le> status_code r \<and> status_code r < 300 then Inr ()
     else Inl (HTTP_Error (''status '' @ int_str (status_code r))))"

text \<open>The common start of the fetch functions: any status but 200 is checked, then the body is read.\<close>

definition ok_json :: "fetch_reply \<Rightarrow> json py" where
  "ok_json r = py_bind (if status_code r \<noteq> 200 then raise_for_status r else Inr ()) (\<lambda>_. resp_json r)"

definition call_source ::
    "net \<Rightarrow> string \<Rightarrow> fetch_request \<Rightarrow> (fetch_reply \<Rightarrow> json py) \<Rightarrow> string \<Rightarrow> redis_store \<Rightarrow>
     redis_store \<times> resilient_result py" where
  "call_source n source rq reader key rs =
     (case resilient_call (net_cfg n) (net_up n key) (net_clock n key) source
         (\<lambda>i. py_bind (net_http n rq i) reader) key (dict_get TTL_BY_SOURCE source) rs of
        (rs', r, _) \<Rightarrow> (rs', r))"

section \<open>Reading JSON\<close>

text \<open>\<open>k in v\<close>, \<open>v[0]\<close>, \<open>v[:n]\<close>, \<open>v[i]\<close> of a list, and numbers as floats.\<close>

definition json_in :: "string \<Rightarrow> json \<Rightarrow> bool py" where
  "json_in k j = (case j of
       JObj kvs \<Rightarrow> Inr (k \<in> fst ` set kvs)
     | JArr xs \<Rightarrow> Inr (JStr k \<in> set xs)
     | JStr s \<Rightarrow> Inr (str_contains s k)
     | _ \<Rightarrow> Inl (Type_Error ''not iterable''))"

definition json_nth :: "json \<Rightarrow> nat \<Rightarrow> json py" where
  "json_nth j i = (case j of
       JArr xs \<Rightarrow> if i < length xs then Inr (xs ! i) else Inl (Other_Error ''list index out of range'')
     | JStr s \<Rightarrow> if i < length s then Inr (JStr [s ! i]) else Inl (Other_Error ''string index out of range'')
     | JObj _ \<Rightarrow> Inl (Key_Error (int_str (int i)))
     | _ \<Rightarrow> Inl (Type_Error ''not subscriptable''))"

definition json_take :: "nat \<Rightarrow> json \<Rightarrow> json py" where
  "json_take n j = (case j of
       JArr xs \<Rightarrow> Inr (JArr (take n xs))
     | JStr s \<Rightarrow> Inr (JStr (take n s))
     | _ \<Rightarrow> Inl (Type_Error ''not sliceable''))"

definition json_num :: "json \<Rightarrow> flt py" where
  "json_num j = (case j of
       JFloat x \<Rightarrow> Inr x
     | JInt i \<Rightarrow> Inr (fl64 (of_int i))
     | JBool b \<Rightarrow> Inr (if b then 1 else 0)
     | _ \<Rightarrow> Inl (Type_Error ''unsupported operand''))"

text \<open>\<open>float(v)\<close> and \<open>int(v)\<close>.\<close>

definition json_float :: "json \<Rightarrow> flt py" where
  "json_float j = (case j of
       JStr s \<Rightarrow> (case float_text s of Some x \<Rightarrow> Inr x | None \<Rightarrow> Inl (Value_Error ''could not convert string to float''))
     | _ \<Rightarrow> json_num j)"

definition json_int :: "json \<Rightarrow> int py" where
  "json_int j = (case j of
       JInt i \<Rightarrow> Inr i
     | JFloat x \<Rightarrow> Inr (if 0 \<le> x then \<lfloor>x\<rfloor> else \<lceil>x\<rceil>)
     | JBool b \<Rightarrow> Inr (if b then 1 else 0)
     | JStr s \<Rightarrow> (case int_text s of Some i \<Rightarrow> Inr i | None \<Rightarrow> Inl (Value_Error ''invalid literal for int()''))
     | _ \<Rightarrow> Inl (Type_Error ''int() argument''))"

text \<open>A text between single quotation marks in a message.\<close>

definition quoted :: "string \<Rightarrow> string" where
  "quoted s = [char_of (39 :: int)] @ s @ [char_of (39 :: int)]"

section \<open>CSV\<close>

text \<open>
  \<open>csv.reader\<close> with the default dialect, a state machine over the characters of each line; \<open>None\<close>
  stands for the end of a line.
\<close>

datatype csv_mode = Start_Record | Start_Field | In_Field | In_Quoted | Quote_In_Quoted | Eat_CRNL

record csv_state =
  csv_mode :: csv_mode
  csv_field :: string
  csv_fields :: "string list"

definition csv_init :: csv_state where
  "csv_init = \<lparr>csv_mode = Start_Record, csv_field = [], csv_fields = []\<rparr>"

definition save_field :: "csv_mode \<Rightarrow> csv_state \<Rightarrow> csv_state" where
  "save_field m st = \<lparr>csv_mode = m, csv_field = [], csv_fields = csv_fields st @ [csv_field st]\<rparr>"

definition add_char :: "char \<Rightarrow> csv_mode \<Rightarrow> csv_state \<Rightarrow> csv_state" where
  "add_char c m st = st\<lparr>csv_mode := m, csv_field := csv_field st @ [c]\<rparr>"

definition is_crnl :: "char \<Rightarrow> bool" where
  "is_crnl c \<longleftrightarrow> char_code c = 10 \<or> char_code c = 13"

definition dquote :: char where
  "dquote = char_of (34 :: int)"

definition csv_char :: "char option \<Rightarrow> csv_state \<Rightarrow> csv_state py" where
  "csv_char oc st =
     (case csv_mode st of
        Eat_CRNL \<Rightarrow> (case oc of None \<Rightarrow> Inr (st\<lparr>csv_mode := Start_Record\<rparr>)
          | Some c \<Rightarrow> if is_crnl c then Inr st else Inl (Other_Error ''new-line character seen in unquoted field''))
      | In_Quoted \<Rightarrow> (case oc of None \<Rightarrow> Inr st
          | Some c \<Rightarrow> Inr (if c = dquote then st\<lparr>csv_mode := Quote_In_Quoted\<rparr> else add_char c In_Quoted st))
      | m \<Rightarrow> (case oc of
          None \<Rightarrow> Inr (if m = Start_Record then st else save_field Start_Record st)
        | Some c \<Rightarrow>
            if is_crnl c then Inr (if m = Start_Record then st\<lparr>csv_mode := Eat_CRNL\<rparr> else save_field Eat_CRNL st)
            else if c = CHR '','' then Inr (save_field Start_Field st)
            else if c = dquote \<and> m \<in> {Start_Record, Start_Field} then Inr (st\<lparr>csv_mode := In_Quoted\<rparr>)
            else if c = dquote \<and> m = Quote_In_Quoted then Inr (add_char c In_Quoted st)
            else Inr (add_char c In_Field st)))"

fun csv_line :: "string \<Rightarrow> csv_state \<Rightarrow> csv_state py" where
  "csv_line [] st = csv_char None st"
| "csv_line (c # cs) st = py_bind (csv_char (Some c) st) (csv_line cs)"

text \<open>The lines of the text, each with its newline.\<close>

fun text_lines :: "string \<Rightarrow> string list" where
  "text_lines [] = []"
| "text_lines (c # cs) =
     (if char_code c = 10 then [c] # text_lines cs
      else case text_lines cs of [] \<Rightarrow> [[c]] | l # ls \<Rightarrow> (c # l) # ls)"

fun csv_from :: "csv_state \<Rightarrow> string list \<Rightarrow> string list list py" where
  "csv_from st [] = Inr (if csv_field st \<noteq> [] \<or> csv_mode st = In_Quoted
     then [csv_fields (save_field Start_Record st)] else [])"
| "csv_from st (l # ls) = py_bind (csv_line l st) (\<lambda>st.
     if csv_mode st = Start_Record
     then py_bind (csv_from csv_init ls) (\<lambda>rows. Inr (csv_fields st # rows))
     else csv_from st ls)"

text \<open>\<open>csv.DictReader\<close>: the first row names the columns, blank rows are skipped, missing values are null.
  Values beyond the header, kept under the key \<open>None\<close> that no caller reads, are left out.\<close>

definition row_dict :: "string list \<Rightarrow> string list \<Rightarrow> json" where
  "row_dict header row =
     JObj (fold (\<lambda>k d. dict_set k JNull d) (drop (length row) header)
       (fold (\<lambda>(k, v) d. dict_set k (JStr v) d) (zip header row) []))"

definition dict_reader :: "string \<Rightarrow> json py" where
  "dict_reader text = py_bind (csv_from csv_init (text_lines text)) (\<lambda>rows.
     Inr (JArr (case rows of [] \<Rightarrow> [] | header # rs \<Rightarrow> map (row_dict header) (filter (\<lambda>r. r \<noteq> []) rs))))"

section \<open>Clients\<close>

text \<open>Two rounded coordinates in a cache key.\<close>

definition rounded :: "nat \<Rightarrow> json \<Rightarrow> json \<Rightarrow> string py" where
  "rounded d lat lon = py_bind (json_round d lat) (\<lambda>rlat. py_bind (json_round d lon) (\<lambda>rlon.
     Inr (json_str rlat @ '':'' @ json_str rlon)))"

definition get_latest_measurements :: "net \<Rightarrow> string option \<Rightarrow> string \<Rightarrow> redis_store \<Rightarrow> redis_store \<times> resilient_result py" where
  "get_latest_measurements n api_key city rs =
     (let rq = \<lparr>rq_url = ''https://api.openaq.org/v2/latest'',
                rq_params = [(''city'', JStr city), (''limit'', JInt 10)],
                rq_headers = (case api_key of Some (c # cs) \<Rightarrow> [(''X-API-Key'', c # cs)] | _ \<Rightarrow> [])\<rparr>
      in call_source n ''openaq'' rq (\<lambda>r. py_bind (ok_json r) (\<lambda>d. json_get_or d ''results'' (JArr [])))
           (''latest_measurements:'' @ str_lower city) rs)"

definition read_noaa :: "fetch_reply \<Rightarrow> json py" where
  "read_noaa r = py_bind (ok_json r) (\<lambda>d. py_bind (json_in ''error'' d) (\<lambda>failed.
     if failed then py_bind (json_index d ''error'') (\<lambda>_. Inr (JObj [])) else Inr d))"

definition get_water_temperature ::
    "net \<Rightarrow> string \<Rightarrow> string \<Rightarrow> int option \<Rightarrow> redis_store \<Rightarrow> redis_store \<times> resilient_result py" where
  "get_water_temperature n station date range_hours rs =
     (let rq = \<lparr>rq_url = noaa_api_url (net_sources n),
                rq_params = [(''station'', JStr station), (''product'', JStr ''water_temperature''),
                  (''date'', JStr date), (''units'', JStr ''metric''), (''time_zone'', JStr ''gmt''),
                  (''application'', JStr ''gaiaos''), (''format'', JStr ''json'')] @
                  (case range_hours of None \<Rightarrow> [] | Some h \<Rightarrow> [(''range'', JInt h)]),
                rq_headers = []\<rparr>
      in call_source n ''noaa'' rq read_noaa (''water_temperature:'' @ station @ '':'' @ date) rs)"

definition get_recent_earthquakes ::
    "net \<Rightarrow> json \<Rightarrow> json \<Rightarrow> flt option \<Rightarrow> flt \<Rightarrow> int \<Rightarrow> int option \<Rightarrow> int option \<Rightarrow> redis_store \<Rightarrow>
     redis_store \<times> resilient_result py" where
  "get_recent_earthquakes n lat lon radius_km min_magnitude days starttime endtime rs =
     (let end_dt = (case endtime of Some t \<Rightarrow> t | None \<Rightarrow> net_now n);
          start_dt = (case starttime of Some t \<Rightarrow> t | None \<Rightarrow> end_dt - days * 86400000000);
          around = (case radius_km of
              Some r \<Rightarrow> if lat \<noteq> JNull \<and> lon \<noteq> JNull
                then [(''latitude'', lat), (''longitude'', lon), (''maxradiuskm'', JFloat r)] else []
            | None \<Rightarrow> []);
          rq = \<lparr>rq_url = usgs_api_url (net_sources n),
                rq_params = [(''format'', JStr ''geojson''), (''starttime'', JStr (isoformat start_dt)),
                  (''endtime'', JStr (isoformat end_dt)), (''minmagnitude'', JFloat min_magnitude)] @ around,
                rq_headers = []\<rparr>
      in case rounded 2 (json_or lat (JInt 0)) (json_or lon (JInt 0)) of
           Inl e \<Rightarrow> (rs, Inl e)
         | Inr p \<Rightarrow> call_source n ''usgs'' rq
             (\<lambda>r. py_bind (ok_json r) (\<lambda>d. json_get_or d ''features'' (JArr [])))
             (''earthquakes:'' @ p @ '':'' @ (case radius_km of None \<Rightarrow> ''None'' | Some r \<Rightarrow> float_repr r) @ '':'' @
                float_repr min_magnitude @ '':'' @ int_str days) rs)"

definition get_current_weather :: "net \<Rightarrow> json \<Rightarrow> json \<Rightarrow> redis_store \<Rightarrow> redis_store \<times> resilient_result py" where
  "get_current_weather n lat lon rs =
     (let rq = \<lparr>rq_url = open_meteo_weather_url (net_sources n),
                rq_params = [(''latitude'', lat), (''longitude'', lon),
                  (''current'', JStr ''temperature_2m,wind_speed_10m,relative_humidity_2m'')],
                rq_headers = []\<rparr>
      in case rounded 2 lat lon of
           Inl e \<Rightarrow> (rs, Inl e)
         | Inr p \<Rightarrow> call_source n ''open_meteo'' rq ok_json (''current_weather:'' @ p) rs)"

text \<open>An unset or empty key falls back to the configured one; without any key nothing is asked.\<close>

definition firms_key :: "net \<Rightarrow> string option \<Rightarrow> string option" where
  "firms_key n key =
     (case key of Some (c # cs) \<Rightarrow> key
      | _ \<Rightarrow> (case firms_api_key (net_sources n) of Some (c # cs) \<Rightarrow> Some (c # cs) | _ \<Rightarrow> None))"

definition read_firms :: "fetch_reply \<Rightarrow> json py" where
  "read_firms r = py_bind (if status_code r \<noteq> 200 then raise_for_status r else Inr ()) (\<lambda>_. dict_reader (resp_text r))"

definition get_active_fires ::
    "net \<Rightarrow> string option \<Rightarrow> json \<Rightarrow> json \<Rightarrow> json \<Rightarrow> json \<Rightarrow> int \<Rightarrow> redis_store \<Rightarrow> redis_store \<times> resilient_result py" where
  "get_active_fires n api_key x0 y0 x1 y1 days rs =
     (case firms_key n api_key of
        None \<Rightarrow> (rs, Inr \<lparr>rr_value = JArr [], degraded = False, rr_status = Live\<rparr>)
      | Some key \<Rightarrow>
          (let rq = \<lparr>rq_url = firms_api_url (net_sources n) @ ''/'' @ key @ ''/MODIS_NRT/'' @ json_str x0 @ '','' @
                       json_str y0 @ '','' @ json_str x1 @ '','' @ json_str y1 @ ''/'' @ int_str days,
                     rq_params = [], rq_headers = []\<rparr>
           in case py_sequence (map (json_round 2) [x0, y0, x1, y1]) of
                Inl e \<Rightarrow> (rs, Inl e)
              | Inr ps \<Rightarrow> call_source n ''firms'' rq read_firms
                  (''active_fires:'' @ str_join '':'' (map json_str ps) @ '':'' @ int_str days) rs))"

section \<open>Geocoding\<close>

definition geo :: "rat \<Rightarrow> rat \<Rightarrow> rat list \<Rightarrow> json" where
  "geo lat lon bbox = JObj [(''lat'', JFloat (fl64 lat)), (''lon'', JFloat (fl64 lon)),
     (''bbox'', JArr (map (JFloat \<circ> fl64) bbox))]"

definition LOCAL_GEOCODE_DB :: "(string, json) dict" where
  "LOCAL_GEOCODE_DB =
     [(''paris'', geo (48.8566) (2.3522) [2.224, 48.815, 2.47, 48.902]),
      (''beijing'', geo (39.9042) (116.4074) [116.1, 39.7, 116.7, 40.1]),
      (''london'', geo (51.5074) (-0.1278) [-0.351, 51.384, 0.148, 51.672]),
      (''delhi'', geo (28.6139) (77.209) [77.019, 28.413, 77.348, 28.883]),
      (''madrid'', geo (40.4168) (-3.7038) [-3.834, 40.312, -3.525, 40.563]),
      (''tokyo'', geo (35.6762) (139.6503) [139.56, 35.52, 139.91, 35.82]),
      (''california'', geo (36.7783) (-119.4179) [-124.409, 32.534, -114.131, 42.009]),
      (''new york'', geo (40.7128) (-74.006) [-74.259, 40.477, -73.7, 40.917]),
      (''miami'', geo (25.7617) (-80.1918) [-80.32, 25.70, -80.13, 25.85]),
      (''san francisco'', geo (37.7749) (-122.4194) [-122.52, 37.70, -122.35, 37.83])]"

definition MAX_STATION_DISTANCE_KM :: flt where
  "MAX_STATION_DISTANCE_KM = 500"

record libm =
  m_radians :: "flt \<Rightarrow> flt"
  m_sin :: "flt \<Rightarrow> flt"
  m_cos :: "flt \<Rightarrow> flt"
  m_atan2 :: "flt \<Rightarrow> flt \<Rightarrow> flt"
  m_sqrt :: "flt \<Rightarrow> flt"
  m_pow :: "flt \<Rightarrow> flt \<Rightarrow> flt"

text \<open>\<open>math.sqrt\<close> of a negative number raises.\<close>

definition checked_sqrt :: "libm \<Rightarrow> flt \<Rightarrow> flt py" where
  "checked_sqrt L x = (if x < 0 then Inl (Value_Error ''math domain error'') else Inr (m_sqrt L x))"

definition haversine_distance_km :: "libm \<Rightarrow> flt \<Rightarrow> flt \<Rightarrow> flt \<Rightarrow> flt \<Rightarrow> flt py" where
  "haversine_distance_km L lat1 lon1 lat2 lon2 =
     (let dlat = m_radians L (fsub lat2 lat1); dlon = m_radians L (fsub lon2 lon1);
          a = fadd (m_pow L (m_sin L (fdiv dlat 2)) 2)
                (fmul (fmul (m_cos L (m_radians L lat1)) (m_cos L (m_radians L lat2)))
                   (m_pow L (m_sin L (fdiv dlon 2)) 2))
      in py_bind (checked_sqrt L a) (\<lambda>s. py_bind (checked_sqrt L (fsub 1 a)) (\<lambda>t.
           Inr (fmul 6371 (fmul 2 (m_atan2 L s t))))))"

text \<open>The distance of a listed station; a station whose coordinates cannot be read raises.\<close>

definition station_distance :: "libm \<Rightarrow> flt \<Rightarrow> flt \<Rightarrow> json \<Rightarrow> flt py" where
  "station_distance L lat lon st =
     py_bind (json_index st ''lat'') (\<lambda>a. py_bind (json_float a) (\<lambda>st_lat.
       py_bind (json_get_or st ''lon'' (JFloat 0)) (\<lambda>d. py_bind (json_get_or st ''lng'' d) (\<lambda>b.
         py_bind (json_float b) (\<lambda>st_lon. haversine_distance_km L lat lon st_lat st_lon)))))"

text \<open>
  One turn of the search loop; \<open>None\<close> as the least distance is infinity. The distance is stored
  before the identifier is read, so a station without identifier still lowers it.
\<close>

definition nearer :: "flt option \<Rightarrow> flt \<Rightarrow> bool" where
  "nearer best d \<longleftrightarrow> (case best of None \<Rightarrow> True | Some m \<Rightarrow> d < m) \<and> d \<le> MAX_STATION_DISTANCE_KM"

definition scan_station :: "libm \<Rightarrow> flt \<Rightarrow> flt \<Rightarrow> json \<Rightarrow> string option \<times> flt option \<Rightarrow> string option \<times> flt option" where
  "scan_station L lat lon st acc =
     (case acc of (nearest, best) \<Rightarrow>
        (case station_distance L lat lon st of
           Inl _ \<Rightarrow> (nearest, best)
         | Inr d \<Rightarrow>
             (if nearer best d then
                (case json_index st ''id'' of Inl _ \<Rightarrow> (nearest, Some d) | Inr i \<Rightarrow> (Some (json_str i), Some d))
              else (nearest, best))))"

definition nearest_station :: "libm \<Rightarrow> flt \<Rightarrow> flt \<Rightarrow> json list \<Rightarrow> string option" where
  "nearest_station L lat lon stations = fst (fold (scan_station L lat lon) stations (None, None))"

text \<open>The direct accesses to Redis of the lookups, by name.\<close>

definition side_get :: "net \<Rightarrow> string \<Rightarrow> string \<Rightarrow> redis_store \<Rightarrow> stored_text option" where
  "side_get n what key rs =
     (if \<not> side_up n what then None
      else case dict_get (cache rs) key of None \<Rightarrow> None
        | Some (t, expiry) \<Rightarrow> if net_now n < expiry then Some t else None)"

definition side_set :: "net \<Rightarrow> string \<Rightarrow> string \<Rightarrow> stored_text \<Rightarrow> int \<Rightarrow> redis_store \<Rightarrow> redis_store" where
  "side_set n what key t ttl rs =
     (if \<not> side_up n what then rs
      else rs\<lparr>cache := dict_set key (t, net_now n + ttl * 1000000) (cache rs)\<rparr>)"

text \<open>Identifiers of stations are stored as text, an empty one counts as missing.\<close>

definition cached_station :: "net \<Rightarrow> string \<Rightarrow> redis_store \<Rightarrow> string option" where
  "cached_station n key rs =
     (case side_get n ''station_get'' key rs of Some (Other_Text (c # cs)) \<Rightarrow> Some (c # cs) | _ \<Rightarrow> None)"

definition NOAA_STATIONS_API_URL :: string where
  "NOAA_STATIONS_API_URL = ''https://api.tidesandcurrents.noaa.gov/mdapi/v1.0/webapi/stations.json''"

text \<open>The loop over the reply runs inside no handler: a reply that is no list raises.\<close>

definition resolve_nearest_station ::
    "libm \<Rightarrow> net \<Rightarrow> json \<Rightarrow> json \<Rightarrow> string \<Rightarrow> redis_store \<Rightarrow> redis_store \<times> string option py" where
  "resolve_nearest_station L n lat lon network rs =
     (case station_key lat lon network of
        Inl e \<Rightarrow> (rs, Inl e)
      | Inr key \<Rightarrow>
         (case cached_station n key rs of
            Some i \<Rightarrow> (rs, Inr (Some i))
          | None \<Rightarrow>
             (case call_source n ''noaa'' \<lparr>rq_url = NOAA_STATIONS_API_URL, rq_params = [], rq_headers = []\<rparr>
                  (\<lambda>r. py_bind (ok_json r) (\<lambda>d. json_get_or d ''stations'' (JArr [])))
                  (''stations_metadata:'' @ network) rs of
                (rs1, Inl e) \<Rightarrow> (rs1, Inl e)
              | (rs1, Inr r) \<Rightarrow>
                  (if rr_value r = JNull then (rs1, Inr None)
                   else case py_bind (json_iter (rr_value r)) (\<lambda>sts. py_bind (json_num lat) (\<lambda>la.
                          py_bind (json_num lon) (\<lambda>lo. Inr (nearest_station L la lo sts)))) of
                          Inl e \<Rightarrow> (rs1, Inl e)
                        | Inr (Some (c # cs)) \<Rightarrow>
                            (side_set n ''station_set'' key (Other_Text (c # cs)) 2592000 rs1, Inr (Some (c # cs)))
                        | Inr _ \<Rightarrow> (rs1, Inr None)))))"

definition read_geocode :: "fetch_reply \<Rightarrow> json py" where
  "read_geocode r =
     py_bind
       (if status_code r = 200 then
          py_bind (resp_json r) (\<lambda>d. py_bind (json_get_or d ''results'' (JArr [])) (\<lambda>results.
            if truthy results then
              py_bind (json_nth results 0) (\<lambda>res. py_bind (json_get res ''latitude'') (\<lambda>lat.
                py_bind (json_get res ''longitude'') (\<lambda>lon. py_bind (json_num lon) (\<lambda>x. py_bind (json_num lat) (\<lambda>y.
                  Inr (Some (JObj [(''lat'', lat), (''lon'', lon),
                    (''bbox'', JArr (map JFloat [fsub x (1/2), fsub y (1/2), fadd x (1/2), fadd y (1/2)]))])))))))
            else Inr None))
        else Inr None)
       (\<lambda>found. case found of Some g \<Rightarrow> Inr g | None \<Rightarrow> py_bind (raise_for_status r) (\<lambda>_. Inr JNull))"

definition geocode_location :: "libm \<Rightarrow> net \<Rightarrow> string \<Rightarrow> redis_store \<Rightarrow> redis_store \<times> json py" where
  "geocode_location L n location rs =
     (let loc_clean = str_lower (str_strip location)
      in case call_source n ''geocoding''
             \<lparr>rq_url = open_meteo_geocoding_url (net_sources n),
              rq_params = [(''name'', JStr location), (''count'', JInt 1)], rq_headers = []\<rparr>
             read_geocode (''geocode:'' @ loc_clean) rs of
           (rs1, Inl e) \<Rightarrow> (rs1, Inl e)
         | (rs1, Inr r) \<Rightarrow>
             (case (if rr_value r \<noteq> JNull then Some (rr_value r) else dict_get LOCAL_GEOCODE_DB loc_clean) of
                None \<Rightarrow> (rs1, Inl (Value_Error (''Geocoding failed for unknown location: '' @ quoted location)))
              | Some g \<Rightarrow>
                  (case py_bind (json_index g ''lat'') (\<lambda>lat. py_bind (json_index g ''lon'') (\<lambda>lon. Inr (lat, lon))) of
                     Inl e \<Rightarrow> (rs1, Inl e)
                   | Inr (lat, lon) \<Rightarrow>
                       (case resolve_nearest_station L n lat lon ''noaa'' rs1 of
                          (rs2, Inl e) \<Rightarrow> (rs2, Inl e)
                        | (rs2, Inr sid) \<Rightarrow>
                            (rs2, case g of
                               JObj kvs \<Rightarrow> Inr (JObj (dict_set ''station_id''
                                 (case sid of None \<Rightarrow> JNull | Some i \<Rightarrow> JStr i) kvs))
                             | _ \<Rightarrow> Inl (Type_Error ''item assignment''))))))"

section \<open>Boundaries\<close>

text \<open>
  \<open>resolve_boundary\<close>: Redis, then Nominatim with an upsert into the table of boundaries, then the
  enclosing boundary of the finest level in that table (a boundary without level sorts first, as
  NULL does in a descending order). PostGIS's reading of GeoJSON and its containment test are
  parameters, as is whether a database statement fails.
\<close>

record 'b geo_db =
  db_ready :: bool
  geom_from_geojson :: "json \<Rightarrow> 'b option"
  st_covers :: "'b \<Rightarrow> flt \<Rightarrow> flt \<Rightarrow> bool"
  upsert_fails :: bool
  select_fails :: bool
  fresh_uuid :: uuid

definition read_nominatim :: "fetch_reply \<Rightarrow> json py" where
  "read_nominatim r =
     py_bind
       (if status_code r = 200 then
          py_bind (resp_json r) (\<lambda>d.
            if truthy d then py_bind (json_in ''osm_id'' d) (\<lambda>b. Inr (if b then Some d else None)) else Inr None)
        else Inr None)
       (\<lambda>found. case found of Some d \<Rightarrow> Inr d | None \<Rightarrow> py_bind (raise_for_status r) (\<lambda>_. Inr JNull))"

definition boundary_dict :: "'b administrative_boundary \<Rightarrow> json" where
  "boundary_dict b = JObj [(''id'', JStr (uuid_str (ab_id b))), (''osm_id'', JStr (osm_id b)),
     (''name'', JStr (ab_name b)), (''admin_level'', case admin_level b of None \<Rightarrow> JNull | Some l \<Rightarrow> JInt l)]"

text \<open>\<open>INSERT ... ON CONFLICT (osm_id) DO UPDATE ... RETURNING\<close>.\<close>

definition upsert_boundary ::
    "'b administrative_boundary \<Rightarrow> 'b administrative_boundary list \<Rightarrow>
     'b administrative_boundary list \<times> 'b administrative_boundary" where
  "upsert_boundary new table =
     (case find (\<lambda>b. osm_id b = osm_id new) table of
        None \<Rightarrow> (table @ [new], new)
      | Some old \<Rightarrow>
          (let upd = old\<lparr>ab_name := ab_name new, admin_level := admin_level new, geom := geom new\<rparr>
           in (map (\<lambda>b. if osm_id b = osm_id new then upd else b) table, upd)))"

text \<open>The fields of the reply the upsert needs.\<close>

definition nominatim_fields :: "json \<Rightarrow> (string \<times> json \<times> int \<times> json) py" where
  "nominatim_fields raw =
     py_bind (json_get_or raw ''osm_type'' (JStr ''relation'')) (\<lambda>ty.
     py_bind (json_get_or raw ''osm_id'' (JStr [])) (\<lambda>oid.
     py_bind (json_get raw ''name'') (\<lambda>nm.
     py_bind (if truthy nm then Inr nm
              else py_bind (json_get_or raw ''display_name'' (JStr [])) (\<lambda>dn.
                case dn of JStr s \<Rightarrow> Inr (json_or (JStr (hd (str_split_char (CHR '','') s))) (JStr ''Unknown''))
                  | _ \<Rightarrow> Inl (Other_Error ''AttributeError''))) (\<lambda>name.
     py_bind (json_get_or raw ''place_rank'' (JInt 10)) (\<lambda>rank. py_bind (json_int rank) (\<lambda>lvl.
     py_bind (json_get raw ''geojson'') (\<lambda>gj.
       Inr (json_str ty @ ''/'' @ json_str oid, name, lvl, gj))))))))"

definition store_boundary ::
    "'b geo_db \<Rightarrow> json \<Rightarrow> 'b administrative_boundary list \<Rightarrow> 'b administrative_boundary list \<times> json option py" where
  "store_boundary g raw table =
     (case nominatim_fields raw of
        Inl e \<Rightarrow> (table, Inl e)
      | Inr (full_id, name, lvl, gj) \<Rightarrow>
          (if truthy gj \<and> db_ready g \<and> \<not> upsert_fails g then
             (case (name, geom_from_geojson g gj) of
                (JStr nm, Some shape) \<Rightarrow>
                  (case upsert_boundary \<lparr>ab_id = fresh_uuid g, osm_id = full_id, ab_name = nm,
                       admin_level = Some lvl, geom = shape\<rparr> table of
                     (table', b) \<Rightarrow> (table', Inr (Some (boundary_dict b))))
              | _ \<Rightarrow> (table, Inr None))
           else (table, Inr None)))"

definition finer :: "'b administrative_boundary \<Rightarrow> 'b administrative_boundary \<Rightarrow> bool" where
  "finer a b = (case admin_level a of None \<Rightarrow> admin_level b \<noteq> None
     | Some l \<Rightarrow> (case admin_level b of None \<Rightarrow> False | Some k \<Rightarrow> k < l))"

definition enclosing_boundary ::
    "'b geo_db \<Rightarrow> flt \<Rightarrow> flt \<Rightarrow> 'b administrative_boundary list \<Rightarrow> 'b administrative_boundary option" where
  "enclosing_boundary g lat lon table =
     fold (\<lambda>b best. case best of None \<Rightarrow> Some b | Some a \<Rightarrow> if finer b a then Some b else Some a)
       (filter (\<lambda>b. st_covers g (geom b) lon lat) table) None"

definition resolve_boundary ::
    "net \<Rightarrow> 'b geo_db \<Rightarrow> json \<Rightarrow> json \<Rightarrow> redis_store \<times> 'b administrative_boundary list \<Rightarrow>
     (redis_store \<times> 'b administrative_boundary list) \<times> json option py" where
  "resolve_boundary n g lat lon s =
     (case py_bind (boundary_key lat lon) (\<lambda>key. py_bind (rounded 3 lat lon) (\<lambda>p. Inr (key, p))) of
        Inl e \<Rightarrow> (s, Inl e)
      | Inr (key, p) \<Rightarrow>
         (case side_get n ''boundary_get'' key (fst s) of
            Some (Json_Text (JObj kvs)) \<Rightarrow> (s, Inr (Some (JObj kvs)))
          | _ \<Rightarrow>
             (case call_source n ''osm''
                  \<lparr>rq_url = rev (dropWhile (\<lambda>c. c = CHR ''/'') (rev (nominatim_api_url (net_sources n)))) @ ''/reverse'',
                   rq_params = [(''format'', JStr ''jsonv2''), (''lat'', JStr (json_str lat)),
                     (''lon'', JStr (json_str lon)), (''polygon_geojson'', JStr ''1'')],
                   rq_headers = [(''User-Agent'', ''GaiaOS/0.5.4 (https://github.com/Diyaaa-12/GaiaOS)'')]\<rparr>
                  read_nominatim (''nominatim_reverse:'' @ p) (fst s) of
                (rs1, Inl e) \<Rightarrow> ((rs1, snd s), Inl e)
              | (rs1, Inr r) \<Rightarrow>
                  (case (if rr_value r = JNull then (snd s, Inr None) else store_boundary g (rr_value r) (snd s)) of
                     (table, Inl e) \<Rightarrow> ((rs1, table), Inl e)
                   | (table, Inr found) \<Rightarrow>
                       (let found = (case found of Some b \<Rightarrow> Some b
                              | None \<Rightarrow> (if db_ready g \<and> \<not> select_fails g
                                  then (case (json_num lat, json_num lon) of
                                          (Inr la, Inr lo) \<Rightarrow> map_option boundary_dict (enclosing_boundary g la lo table)
                                        | _ \<Rightarrow> None)
                                  else None))
                        in case found of
                             None \<Rightarrow> ((rs1, table), Inr None)
                           | Some b \<Rightarrow> ((side_set n ''boundary_set'' key (json_dumps b)
                                 (dict_get_or TTL_BY_SOURCE ''osm'' 0) rs1, table), Inr (Some b)))))))"

section \<open>The nearest station\<close>

text \<open>A station in range, and a list in which every station in range has an identifier.\<close>

definition in_range :: "libm \<Rightarrow> flt \<Rightarrow> flt \<Rightarrow> json \<Rightarrow> flt \<Rightarrow> bool" where
  "in_range L lat lon st d \<longleftrightarrow> station_distance L lat lon st = Inr d \<and> d \<le> MAX_STATION_DISTANCE_KM"

definition identified :: "libm \<Rightarrow> flt \<Rightarrow> flt \<Rightarrow> json list \<Rightarrow> bool" where
  "identified L lat lon sts \<longleftrightarrow> (\<forall>st\<in>set sts. (\<exists>d. in_range L lat lon st d) \<longrightarrow> (\<exists>i. json_index st ''id'' = Inr i))"

text \<open>What the search has found among the stations seen so far.\<close>

definition best_of :: "libm \<Rightarrow> flt \<Rightarrow> flt \<Rightarrow> json list \<Rightarrow> string option \<times> flt option \<Rightarrow> bool" where
  "best_of L lat lon seen acc \<longleftrightarrow>
     acc = (None, None) \<and> (\<forall>st\<in>set seen. \<forall>d. \<not> in_range L lat lon st d) \<or>
     (\<exists>st i d. acc = (Some (json_str i), Some d) \<and> st \<in> set seen \<and> json_index st ''id'' = Inr i \<and>
        in_range L lat lon st d \<and> (\<forall>st'\<in>set seen. \<forall>d'. in_range L lat lon st' d' \<longrightarrow> d \<le> d'))"

lemma best_of_snoc:
  assumes "best_of L lat lon seen acc" "\<forall>d'. in_range L lat lon st d' \<longrightarrow> (\<exists>m. snd acc = Some m \<and> m \<le> d')"
  shows "best_of L lat lon (seen @ [st]) acc"
  using assms(1) unfolding best_of_def
proof (elim disjE exE conjE)
  assume "acc = (None, None)" "\<forall>st\<in>set seen. \<forall>d. \<not> in_range L lat lon st d"
  with assms(2) show "acc = (None, None) \<and> (\<forall>st\<in>set (seen @ [st]). \<forall>d. \<not> in_range L lat lon st d) \<or>
    (\<exists>st' i d. acc = (Some (json_str i), Some d) \<and> st' \<in> set (seen @ [st]) \<and> json_index st' ''id'' = Inr i \<and>
      in_range L lat lon st' d \<and> (\<forall>st'\<in>set (seen @ [st]). \<forall>d'. in_range L lat lon st' d' \<longrightarrow> d \<le> d'))"
    by simp
next
  fix sb i d
  assume "acc = (Some (json_str i), Some d)" "sb \<in> set seen" "json_index sb ''id'' = Inr i"
    "in_range L lat lon sb d" "\<forall>st'\<in>set seen. \<forall>d'. in_range L lat lon st' d' \<longrightarrow> d \<le> d'"
  with assms(2) show "acc = (None, None) \<and> (\<forall>st\<in>set (seen @ [st]). \<forall>d. \<not> in_range L lat lon st d) \<or>
    (\<exists>st' i d. acc = (Some (json_str i), Some d) \<and> st' \<in> set (seen @ [st]) \<and> json_index st' ''id'' = Inr i \<and>
      in_range L lat lon st' d \<and> (\<forall>st'\<in>set (seen @ [st]). \<forall>d'. in_range L lat lon st' d' \<longrightarrow> d \<le> d'))"
    by (intro disjI2 exI [of _ sb] exI [of _ i] exI [of _ d]) auto
qed

lemma scan_station_best:
  assumes "best_of L lat lon seen acc" "identified L lat lon [st]"
  shows "best_of L lat lon (seen @ [st]) (scan_station L lat lon st acc)"
proof (cases "station_distance L lat lon st")
  case (Inl e)
  then have "scan_station L lat lon st acc = acc" "\<forall>d. \<not> in_range L lat lon st d"
    by (simp_all add: scan_station_def in_range_def split: prod.splits)
  then show ?thesis using best_of_snoc [OF assms(1)] by simp
next
  case (Inr d)
  note dist = this
  have rng: "in_range L lat lon st d' \<longleftrightarrow> d' = d \<and> d \<le> MAX_STATION_DISTANCE_KM" for d'
    using Inr by (auto simp: in_range_def)
  show ?thesis
  proof (cases "nearer (snd acc) d")
    case True
    then have le: "d \<le> MAX_STATION_DISTANCE_KM" by (simp add: nearer_def)
    with assms(2) rng obtain i where i: "json_index st ''id'' = Inr i" by (auto simp: identified_def)
    have "scan_station L lat lon st acc = (Some (json_str i), Some d)"
      using True Inr i by (cases acc) (simp add: scan_station_def)
    moreover have "\<forall>st'\<in>set seen. \<forall>d'. in_range L lat lon st' d' \<longrightarrow> d \<le> d'"
      using assms(1) True unfolding best_of_def nearer_def by fastforce
    moreover have "in_range L lat lon st d" using rng le by blast
    ultimately have "\<exists>st' i d. scan_station L lat lon st acc = (Some (json_str i), Some d) \<and> st' \<in> set (seen @ [st]) \<and>
        json_index st' ''id'' = Inr i \<and> in_range L lat lon st' d \<and>
        (\<forall>st'\<in>set (seen @ [st]). \<forall>d'. in_range L lat lon st' d' \<longrightarrow> d \<le> d')"
      using i rng by (intro exI [of _ st] exI [of _ i] exI [of _ d]) auto
    then show ?thesis unfolding best_of_def by blast
  next
    case False
    have "scan_station L lat lon st acc = acc"
      using False Inr by (cases acc) (simp add: scan_station_def)
    moreover have "best_of L lat lon (seen @ [st]) acc"
      by (rule best_of_snoc [OF assms(1)]) (use False rng in \<open>auto simp: nearer_def split: option.splits\<close>)
    ultimately show ?thesis by simp
  qed
qed

lemma fold_scan_best:
  "best_of L lat lon seen acc \<Longrightarrow> identified L lat lon sts \<Longrightarrow>
     best_of L lat lon (seen @ sts) (fold (scan_station L lat lon) sts acc)"
proof (induction sts arbitrary: seen acc)
  case (Cons st sts)
  have "best_of L lat lon (seen @ [st]) (scan_station L lat lon st acc)"
    by (rule scan_station_best) (use Cons.prems in \<open>auto simp: identified_def\<close>)
  from Cons.IH [OF this] Cons.prems(2) show ?case by (simp add: identified_def)
qed simp

text \<open>when every listed station within 500 km carries an identifier, the lookup answers with the
  identifier of a station that no listed station beats, and answers none exactly when no listed
  station lies within 500 km; stations whose coordinates cannot be read are passed over.\<close>

theorem nearest_station_optimal:
  assumes "identified L lat lon sts"
  shows "(nearest_station L lat lon sts = None \<longleftrightarrow> (\<forall>st\<in>set sts. \<forall>d. \<not> in_range L lat lon st d)) \<and>
    (\<forall>s. nearest_station L lat lon sts = Some s \<longrightarrow>
       (\<exists>st\<in>set sts. \<exists>i d. json_index st ''id'' = Inr i \<and> s = json_str i \<and> in_range L lat lon st d \<and>
          (\<forall>st'\<in>set sts. \<forall>d'. in_range L lat lon st' d' \<longrightarrow> d \<le> d')))"
proof -
  have "best_of L lat lon [] (None, None)" by (simp add: best_of_def)
  from fold_scan_best [OF this assms] have "best_of L lat lon sts (fold (scan_station L lat lon) sts (None, None))" by simp
  then consider "nearest_station L lat lon sts = None" "\<forall>st\<in>set sts. \<forall>d. \<not> in_range L lat lon st d"
    | st i d where "nearest_station L lat lon sts = Some (json_str i)" "st \<in> set sts" "json_index st ''id'' = Inr i"
        "in_range L lat lon st d" "\<forall>st'\<in>set sts. \<forall>d'. in_range L lat lon st' d' \<longrightarrow> d \<le> d'"
    unfolding best_of_def nearest_station_def by fastforce
  then show ?thesis
  proof cases
    case 1
    then show ?thesis by auto
  next
    case 2
    then have "\<exists>st\<in>set sts. \<exists>i' d. json_index st ''id'' = Inr i' \<and> json_str i = json_str i' \<and> in_range L lat lon st d \<and>
        (\<forall>st'\<in>set sts. \<forall>d'. in_range L lat lon st' d' \<longrightarrow> d \<le> d')" by blast
    with 2(1,2,4) show ?thesis by auto
  qed
qed

text \<open>A plane instead of the sphere, to evaluate the search: degrees as radians, the sine as the identity.\<close>

definition flat_libm :: libm where
  "flat_libm = \<lparr>m_radians = (\<lambda>x. x), m_sin = (\<lambda>x. x), m_cos = (\<lambda>x. 0), m_atan2 = (\<lambda>y x. y), m_sqrt = (\<lambda>x. x),
     m_pow = (\<lambda>x y. x)\<rparr>"

definition sample_station :: "string option \<Rightarrow> rat \<Rightarrow> json" where
  "sample_station i lat = JObj ((''lat'', JFloat lat) # (case i of None \<Rightarrow> [] | Some s \<Rightarrow> [(''id'', JStr s)]))"

theorem nearest_station_optimal_witness:
  "identified flat_libm 0 0 [sample_station (Some ''8518750'') (1/32), sample_station (Some ''8516945'') (1/64)] \<and>
   (\<exists>s. nearest_station flat_libm 0 0 [sample_station (Some ''8518750'') (1/32), sample_station (Some ''8516945'') (1/64)] = Some s \<and>
     s = ''8516945'')"
proof -
  let ?sts = "[sample_station (Some ''8518750'') (1/32), sample_station (Some ''8516945'') (1/64)]"
  have id: "identified flat_libm 0 0 ?sts" by (simp add: identified_def sample_station_def json_index_def)
  have f: "fl64 (1/32) = 1/32" "fl64 (1/64) = 1/64" "fl64 (1/128) = 1/128" "fl64 (63/64) = 63/64"
    "fl64 (127/128) = 127/128" "fl64 (6371/32) = 6371/32" "fl64 (6371/64) = 6371/64"
    by (code_simp, code_simp, code_simp, code_simp, code_simp, code_simp, code_simp)
  have d: "station_distance flat_libm 0 0 (sample_station (Some i) (1/32)) = Inr (6371/32)"
    "station_distance flat_libm 0 0 (sample_station (Some i) (1/64)) = Inr (6371/64)" for i
    by (simp_all add: station_distance_def sample_station_def json_index_def json_get_or_def dict_get_or_def json_float_def
        json_num_def haversine_distance_km_def flat_libm_def checked_sqrt_def Let_def flt_defs f)
  note opt = nearest_station_optimal [OF id]
  have near: "in_range flat_libm 0 0 (sample_station (Some ''8516945'') (1/64)) (6371/64)"
    by (simp add: in_range_def d MAX_STATION_DISTANCE_KM_def)
  then obtain s where s: "nearest_station flat_libm 0 0 ?sts = Some s" using opt by (metis list.set_intros option.exhaust)
  with opt obtain st i dd where st: "st \<in> set ?sts" "json_index st ''id'' = Inr i" "s = json_str i"
    "in_range flat_libm 0 0 st dd" "dd \<le> 6371/64" using near by (metis list.set_intros)
  then have "st = sample_station (Some ''8516945'') (1/64)" using d by (auto simp: in_range_def)
  then have "s = ''8516945''" using st(2,3) by (auto simp: sample_station_def json_index_def json_str_def)
  then show ?thesis using id s by blast
qed

text \<open>A nearer station without identifier hides every station behind it.\<close>

lemma station_without_id_hides:
  assumes "station_distance L lat lon a = Inr d" "json_index a ''id'' = Inl e"
    "station_distance L lat lon b = Inr d'" "d \<le> MAX_STATION_DISTANCE_KM" "d \<le> d'"
  shows "nearest_station L lat lon [a, b] = None"
  using assms by (simp add: nearest_station_def scan_station_def nearer_def)

end
