(* ===== verification/Classifier.thy ===== *)
theory Classifier
  imports Registry
begin

text \<open>
  The query classifier of the supervisor (\<open>orchestrator/agents/supervisor/classifier.py\<close>) with
  the fragment of regular expressions it uses: literal text, word boundaries, runs of white
  space, an optional last letter and a choice of endings.
\<close>

section \<open>Patterns\<close>

datatype rx = Lit char | Bound | Spaces | Opt char | Alt "string list"

text \<open>\<open>\w\<close> on Latin-1: letters, digits, underscore, and the ordinal, superscript and
  fraction characters that count as alphanumeric.\<close>

definition is_word :: "char \<Rightarrow> bool" where
  "is_word c \<longleftrightarrow> (let n = char_code c in
     (48 \<le> n \<and> n \<le> 57) \<or> (65 \<le> n \<and> n \<le> 90) \<or> n = 95 \<or> (97 \<le> n \<and> n \<le> 122) \<or>
     n \<in> {170, 178, 179, 181, 185, 186, 188, 189, 190} \<or>
     (192 \<le> n \<and> n \<noteq> 215 \<and> n \<noteq> 247))"

definition word_at :: "char option \<Rightarrow> bool" where
  "word_at c = (case c of None \<Rightarrow> False | Some c \<Rightarrow> is_word c)"

definition first_char :: "string \<Rightarrow> char option" where
  "first_char s = (case s of [] \<Rightarrow> None | c # _ \<Rightarrow> Some c)"

text \<open>The rests of the text after one or more white space characters.\<close>

fun after_spaces :: "char option \<Rightarrow> string \<Rightarrow> (char option \<times> string) list" where
  "after_spaces p [] = []"
| "after_spaces p (c # cs) =
     (if is_space c then (Some c, cs) # after_spaces (Some c) cs else [])"

definition last_char :: "char option \<Rightarrow> string \<Rightarrow> char option" where
  "last_char p s = (if s = [] then p else Some (last s))"

text \<open>Backtracking match at a position; \<open>p\<close> is the character before it.\<close>

fun match_at :: "rx list \<Rightarrow> char option \<Rightarrow> string \<Rightarrow> bool" where
  "match_at [] p s = True"
| "match_at (Lit c # rs) p s = (case s of [] \<Rightarrow> False | x # xs \<Rightarrow> x = c \<and> match_at rs (Some x) xs)"
| "match_at (Bound # rs) p s = (word_at p \<noteq> word_at (first_char s) \<and> match_at rs p s)"
| "match_at (Spaces # rs) p s = list_ex (\<lambda>(p', s'). match_at rs p' s') (after_spaces p s)"
| "match_at (Opt c # rs) p s =
     ((case s of [] \<Rightarrow> False | x # xs \<Rightarrow> x = c \<and> match_at rs (Some x) xs) \<or> match_at rs p s)"
| "match_at (Alt ws # rs) p s =
     list_ex (\<lambda>w. starts_with s w \<and> match_at rs (last_char p w) (drop (length w) s)) ws"

text \<open>\<open>re.search\<close>: some position matches.\<close>

fun search_from :: "rx list \<Rightarrow> char option \<Rightarrow> string \<Rightarrow> bool" where
  "search_from rs p [] = match_at rs p []"
| "search_from rs p (c # cs) = (match_at rs p (c # cs) \<or> search_from rs (Some c) cs)"

definition re_search :: "rx list \<Rightarrow> string \<Rightarrow> bool" where
  "re_search rs s = search_from rs None s"

text \<open>\<open>\bw\b\<close>, \<open>\bws?\b\<close>, \<open>\bw(a|b)\b\<close> and \<open>\bw\s+v\b\<close>.\<close>

definition kw :: "string \<Rightarrow> rx list" where
  "kw w = Bound # map Lit w @ [Bound]"

definition kw_s :: "string \<Rightarrow> rx list" where
  "kw_s w = Bound # map Lit w @ [Opt (CHR ''s''), Bound]"

definition kw_alt :: "string \<Rightarrow> string list \<Rightarrow> rx list" where
  "kw_alt w ends = Bound # map Lit w @ [Alt ends, Bound]"

definition kw2 :: "string \<Rightarrow> string \<Rightarrow> rx list" where
  "kw2 w v = Bound # map Lit w @ [Spaces] @ map Lit v @ [Bound]"

section \<open>Keyword tables\<close>

definition COMPLEX_KEYWORDS :: "rx list list" where
  "COMPLEX_KEYWORDS =
     [kw ''predict'', kw ''forecast'', kw_alt ''simulat'' [''e'', ''ion''], kw ''causal'', kw ''trigger'',
      kw ''affect'', kw_s ''tsunami'', kw2 ''historical'' ''modeling'']"

definition MODERATE_KEYWORDS :: "rx list list" where
  "MODERATE_KEYWORDS =
     [kw ''seismic'', kw ''ocean'', kw ''atmosphere'', kw_s ''wildfire'', kw_s ''earthquake'', kw_s ''flood'',
      kw_s ''hurricane'']"

definition DOMAIN_PATTERNS :: "(string, rx list list) dict" where
  "DOMAIN_PATTERNS =
     [(''air_quality'', [kw2 ''air'' ''quality'', kw ''pm2.5'', kw ''pm10'', kw ''aqi'']),
      (''seismic'', [kw ''seismic'', kw_s ''earthquake'']),
      (''ocean'', [kw_s ''ocean'', kw ''sea'', kw_s ''tsunami'',
         Bound # map Lit ''tidal'' @ [Spaces] @ map Lit ''wave'' @ [Opt (CHR ''s''), Bound]]),
      (''atmosphere'', [kw ''atmosphere'', kw_s ''wind'', kw ''weather'', kw2 ''air'' ''temperature'']),
      (''wildfire'', [kw_s ''wildfire'', kw_s ''fire'']),
      (''literature'', [kw ''literature'', kw_s ''paper'', kw_s ''report'', kw ''studies'', kw ''study'',
         kw ''research'', kw_s ''article'']),
      (''causal_chain'', [kw ''causal'', kw ''trigger'', kw ''affect'', kw ''preceded'', kw ''correlation'',
         kw ''linked'', kw_alt ''analog'' [''ue'', ''ues''], kw ''chain''])]"

definition sim_keywords :: "rx list list" where
  "sim_keywords =
     [kw ''predict'', kw ''forecast'', kw_alt ''simulat'' [''e'', ''ion''], kw ''spread'', kw ''dispersion'',
      kw ''enso'', kw ''plume'']"

section \<open>Classification\<close>

datatype complexity_tier = TRIVIAL | MODERATE | COMPLEX

definition tier_value :: "complexity_tier \<Rightarrow> string" where
  "tier_value t = (case t of TRIVIAL \<Rightarrow> ''trivial'' | MODERATE \<Rightarrow> ''moderate'' | COMPLEX \<Rightarrow> ''complex'')"

record classification =
  cl_tier :: complexity_tier
  cl_matched_domains :: "string list"
  cl_rationale :: string
  cl_needs_simulation :: bool

definition any_match :: "rx list list \<Rightarrow> string \<Rightarrow> bool" where
  "any_match pats s = list_ex (\<lambda>p. re_search p s) pats"

definition classify_query_complexity :: "string \<Rightarrow> classification" where
  "classify_query_complexity query =
     (let q = str_lower query;
          is_complex = any_match COMPLEX_KEYWORDS q;
          is_moderate = any_match MODERATE_KEYWORDS q;
          matched = map fst (filter (\<lambda>(d, pats). any_match pats q) DOMAIN_PATTERNS);
          needs = any_match sim_keywords q;
          (tier, rationale) =
            (if is_complex then (COMPLEX, ''Query requires prediction, causal tracking, or historical forecasting.'')
             else if is_moderate \<or> length matched > 1
             then (MODERATE, ''Query spans multiple domain variables or moderate hazards.'')
             else (TRIVIAL, ''Query is a simple, single-variable factual retrieval request.''))
      in \<lparr>cl_tier = tier, cl_matched_domains = matched, cl_rationale = rationale,
          cl_needs_simulation = needs\<rparr>)"

section \<open>Facts on the matcher\<close>

text \<open>A word stands alone in a text: word characters inside, none touching it outside.\<close>

definition whole_word :: "string \<Rightarrow> string \<Rightarrow> bool" where
  "whole_word w s \<longleftrightarrow> (\<exists>a b. s = a @ w @ b \<and>
     \<not> word_at (last_char None a) \<and> \<not> word_at (first_char b))"

lemma search_from_iff:
  "search_from rs p s \<longleftrightarrow> (\<exists>a b. s = a @ b \<and> match_at rs (last_char p a) b)"
proof (induction s arbitrary: p)
  case Nil
  then show ?case by (simp add: last_char_def)
next
  case (Cons c cs)
  have "(\<exists>a b. c # cs = a @ b \<and> match_at rs (last_char p a) b) \<longleftrightarrow>
      match_at rs p (c # cs) \<or> (\<exists>a b. cs = a @ b \<and> match_at rs (last_char (Some c) a) b)"
    (is "?L \<longleftrightarrow> ?R")
  proof
    assume ?L
    then obtain a b where ab: "c # cs = a @ b" "match_at rs (last_char p a) b" by blast
    show ?R
    proof (cases a)
      case Nil
      then show ?thesis using ab by (simp add: last_char_def)
    next
      case a: (Cons x xs)
      then have "cs = xs @ b" "last_char (Some c) xs = last_char p a"
        using ab by (auto simp: last_char_def)
      then show ?thesis using ab(2) by metis
    qed
  next
    assume ?R
    then show ?L
    proof
      assume "match_at rs p (c # cs)"
      then have "c # cs = [] @ (c # cs) \<and> match_at rs (last_char p []) (c # cs)"
        by (simp add: last_char_def)
      then show ?L by blast
    next
      assume "\<exists>a b. cs = a @ b \<and> match_at rs (last_char (Some c) a) b"
      then obtain a b where ab: "cs = a @ b" "match_at rs (last_char (Some c) a) b" by blast
      then have "c # cs = (c # a) @ b \<and> match_at rs (last_char p (c # a)) b"
        by (simp add: last_char_def split: if_splits)
      then show ?L by blast
    qed
  qed
  then show ?case using Cons.IH by simp
qed

lemma match_at_lits:
  "match_at (map Lit w @ rs) p s \<longleftrightarrow>
     (\<exists>b. s = w @ b \<and> match_at rs (last_char p w) b)"
proof (induction w arbitrary: p s)
  case Nil
  then show ?case by (simp add: last_char_def)
next
  case (Cons c w)
  note IH = Cons.IH
  have last: "last_char p (c # w) = last_char (Some c) w" by (simp add: last_char_def)
  show ?case
  proof (cases s)
    case (Cons x xs)
    have "match_at (map Lit (c # w) @ rs) p s \<longleftrightarrow> x = c \<and> match_at (map Lit w @ rs) (Some x) xs"
      by (simp add: Cons)
    also have "\<dots> \<longleftrightarrow> x = c \<and> (\<exists>b. xs = w @ b \<and> match_at rs (last_char (Some x) w) b)"
      by (simp only: IH)
    also have "\<dots> \<longleftrightarrow> (\<exists>b. s = (c # w) @ b \<and> match_at rs (last_char p (c # w)) b)"
      using last by (auto simp: Cons)
    finally show ?thesis .
  qed simp
qed

lemma re_search_kw:
  assumes "w \<noteq> []" "is_word (hd w)" "is_word (last w)"
  shows "re_search (kw w) s \<longleftrightarrow> whole_word w s"
proof -
  have first: "word_at (first_char (w @ b))" for b
    using assms by (cases w) (auto simp: first_char_def word_at_def)
  have last: "word_at (last_char p w)" for p
    using assms by (simp add: last_char_def word_at_def)
  have "match_at (kw w) p t \<longleftrightarrow>
      word_at p \<noteq> word_at (first_char t) \<and> (\<exists>b. t = w @ b \<and> word_at (last_char p w) \<noteq> word_at (first_char b))"
    for p t
    by (simp add: kw_def match_at_lits)
  then have at: "match_at (kw w) p t \<longleftrightarrow> (\<exists>b. t = w @ b \<and> \<not> word_at p \<and> \<not> word_at (first_char b))"
    for p t
    using first last by metis
  show ?thesis
    unfolding re_search_def search_from_iff at whole_word_def by blast
qed

section \<open>Properties\<close>

text \<open>the classifier matches words, not substrings, and ignores case: a query is routed to the
  ocean domain by the keyword \<open>sea\<close> only when it stands alone as a word in the lower-cased
  query; in general each plain keyword of the tables matches exactly the texts that contain it
  as a whole word, classification is the same for any capitalisation, the domains it reports are
  distinct registered core domains, and a complex keyword always gives the complex tier.\<close>

theorem classifier_whole_words:
  "(\<forall>w. w \<noteq> [] \<and> is_word (hd w) \<and> is_word (last w) \<longrightarrow>
      (\<forall>s. re_search (kw w) s \<longleftrightarrow> whole_word w s)) \<and>
   classify_query_complexity (str_lower q) = classify_query_complexity q \<and>
   distinct (cl_matched_domains (classify_query_complexity q)) \<and>
   set (cl_matched_domains (classify_query_complexity q)) \<subseteq> set core_domains \<and>
   (any_match COMPLEX_KEYWORDS (str_lower q) \<longrightarrow> cl_tier (classify_query_complexity q) = COMPLEX) \<and>
   (whole_word ''sea'' (str_lower q) \<longrightarrow> ''ocean'' \<in> set (cl_matched_domains (classify_query_complexity q)))"
proof (intro conjI)
  have m: "cl_matched_domains (classify_query_complexity q) =
      map fst (filter (\<lambda>(d, pats). any_match pats (str_lower q)) DOMAIN_PATTERNS)"
    by (simp add: classify_query_complexity_def Let_def split: prod.splits)
  have dist: "distinct (map fst DOMAIN_PATTERNS)" "set (map fst DOMAIN_PATTERNS) \<subseteq> set core_domains"
    by (simp_all add: DOMAIN_PATTERNS_def core_domains_def)
  then show "distinct (cl_matched_domains (classify_query_complexity q))"
    unfolding m by (metis distinct_map_filter)
  show "set (cl_matched_domains (classify_query_complexity q)) \<subseteq> set core_domains"
    unfolding m using dist(2) by auto
  show "classify_query_complexity (str_lower q) = classify_query_complexity q"
    by (simp add: classify_query_complexity_def str_lower_idem)
  show "any_match COMPLEX_KEYWORDS (str_lower q) \<longrightarrow> cl_tier (classify_query_complexity q) = COMPLEX"
    by (simp add: classify_query_complexity_def Let_def)
  have "re_search (kw ''sea'') (str_lower q)" if "whole_word ''sea'' (str_lower q)"
    using that by (subst re_search_kw) (auto simp: is_word_def char_code_def)
  then show "whole_word ''sea'' (str_lower q) \<longrightarrow>
      ''ocean'' \<in> set (cl_matched_domains (classify_query_complexity q))"
    unfolding m by (auto simp: DOMAIN_PATTERNS_def any_match_def)
qed (use re_search_kw in blast)

theorem classifier_whole_words_witness:
  "''ocean'' \<in> set (cl_matched_domains (classify_query_complexity ''The SEA level'')) \<and>
   \<not> re_search (kw ''sea'') ''research''"
proof -
  have "str_lower ''The SEA level'' = ''the '' @ ''sea'' @ '' level''" by code_simp
  moreover have "\<not> word_at (last_char None ''the '')" "\<not> word_at (first_char '' level'')" by code_simp+
  ultimately have "whole_word ''sea'' (str_lower ''The SEA level'')"
    unfolding whole_word_def by blast
  then have "''ocean'' \<in> set (cl_matched_domains (classify_query_complexity ''The SEA level''))"
    using classifier_whole_words [of "''The SEA level''"] by blast
  moreover have "\<not> re_search (kw ''sea'') ''research''" by code_simp
  ultimately show ?thesis by blast
qed

end
