(* ===== verification/Domain_Agents.thy ===== *)
theory Domain_Agents
  imports Fan_Out Clients Classifier
begin

text \<open>
  The domain agents (\<open>orchestrator/agents/{air_quality,atmosphere,ocean,seismic,wildfire,causal_chain}/agent.py\<close>):
  each finds the place, asks its source through a client and turns the reply into evidence. An agent
  keeps what it collected before an exception and reports the exception as an error. The dash and the
  degree sign of the messages are written as \<open>-\<close> and as the Latin-1 character. Identifiers of new
  items are supplied by \<open>ids\<close>, by position.
\<close>

section \<open>Places\<close>

text \<open>\<open>re.search(r"\b(A|B|...)\b", query, re.IGNORECASE)\<close> and its group: the leftmost position, there the
  first alternative that ends at a word boundary.\<close>

definition place_at :: "string list \<Rightarrow> char option \<Rightarrow> string \<Rightarrow> string option" where
  "place_at ps p s =
     (if word_at p = word_at (first_char s) then None
      else map_option (\<lambda>w. take (length w) s)
        (find (\<lambda>w. starts_with (str_lower s) (str_lower w) \<and>
           word_at (last_char p (take (length w) s)) \<noteq> word_at (first_char (drop (length w) s))) ps))"

fun place_from :: "string list \<Rightarrow> char option \<Rightarrow> string \<Rightarrow> string option" where
  "place_from ps p [] = place_at ps p []"
| "place_from ps p (c # cs) = (case place_at ps p (c # cs) of Some w \<Rightarrow> Some w | None \<Rightarrow> place_from ps (Some c) cs)"

definition known_places :: "string list" where
  "known_places = [''Tokyo'', ''Japan'', ''California'', ''New York'', ''Paris'', ''London'', ''Delhi'', ''Madrid'', ''Beijing'']"

definition known_cities :: "string list" where
  "known_cities = [''Paris'', ''London'', ''Delhi'', ''Madrid'', ''Beijing'', ''Tokyo'', ''New York'']"

definition extract_city :: "string \<Rightarrow> string" where
  "extract_city query = (case place_from known_cities None query of Some w \<Rightarrow> str_capitalize w | None \<Rightarrow> ''Paris'')"

definition extract_location :: "string \<Rightarrow> string" where
  "extract_location query = (case place_from known_places None query of Some w \<Rightarrow> str_capitalize w | None \<Rightarrow> query)"

text \<open>The region hint, or the place in the query when there is none or it is empty.\<close>

definition place_of :: "(string \<Rightarrow> string) \<Rightarrow> agent_input \<Rightarrow> string" where
  "place_of extract inp = (case region_hint inp of Some (c # cs) \<Rightarrow> c # cs | _ \<Rightarrow> extract (ai_query inp))"

section \<open>Collecting evidence\<close>

text \<open>A loop that appends items until it ends or an iteration raises.\<close>

type_synonym collected = "evidence list \<times> py_exc option"

fun collect_all :: "(nat \<Rightarrow> 'a \<Rightarrow> collected) \<Rightarrow> nat \<Rightarrow> 'a list \<Rightarrow> collected" where
  "collect_all f k [] = ([], None)"
| "collect_all f k (x # xs) =
     (case f k x of
        (vs, Some e) \<Rightarrow> (vs, Some e)
      | (vs, None) \<Rightarrow> (case collect_all f (k + length vs) xs of (ws, e) \<Rightarrow> (vs @ ws, e)))"

definition one :: "evidence py \<Rightarrow> collected" where
  "one r = (case r of Inl e \<Rightarrow> ([], Some e) | Inr v \<Rightarrow> ([v], None))"

definition try_list :: "json list py \<Rightarrow> (json list \<Rightarrow> collected) \<Rightarrow> collected" where
  "try_list r f = (case r of Inl e \<Rightarrow> ([], Some e) | Inr xs \<Rightarrow> f xs)"

text \<open>An item with an explicit uncertainty around a point estimate.\<close>

definition observed :: "uuid \<Rightarrow> int \<Rightarrow> string \<Rightarrow> string \<Rightarrow> flt \<Rightarrow> source_type \<Rightarrow> evidence py" where
  "observed i now source claim score tag =
     py_bind (from_point_estimate score DEFAULT_POINT_ESTIMATE_INTERVAL_MARGIN tag)
       (\<lambda>u. mk_evidence i source claim now None (Some u))"

definition status_str :: "source_status \<Rightarrow> string" where
  "status_str s = (case s of Live \<Rightarrow> ''live'' | Cached \<Rightarrow> ''cached'' | Unavailable \<Rightarrow> ''unavailable'')"

definition degraded_note :: "string \<Rightarrow> string \<Rightarrow> resilient_result \<Rightarrow> string list" where
  "degraded_note source what r =
     (if degraded r then [''[degraded:'' @ source @ ''] '' @ status_str (rr_status r) @ '' - serving stale '' @ what @ '' data'']
      else [])"

definition source_tag :: "resilient_result \<Rightarrow> source_type" where
  "source_tag r = (if degraded r then Data_Sparsity else Well_Supported)"

text \<open>What the body of an agent leaves behind: errors, items, messages and the exception that ended it.\<close>

record agent_trace =
  tr_errors :: "string list"
  tr_collected :: collected
  tr_messages :: "collaboration_message list"

definition raised :: "py_exc \<Rightarrow> agent_trace" where
  "raised e = \<lparr>tr_errors = [], tr_collected = ([], Some e), tr_messages = []\<rparr>"

definition quiet :: "string list \<Rightarrow> collected \<Rightarrow> agent_trace" where
  "quiet errs c = \<lparr>tr_errors = errs, tr_collected = c, tr_messages = []\<rparr>"

text \<open>The handler at the end of every agent, and the output.\<close>

definition finish :: "string \<Rightarrow> string \<Rightarrow> agent_trace \<Rightarrow> collaboration_message list \<times> agent_output" where
  "finish name failed t =
     (tr_messages t,
      \<lparr>agent_name = name, evidence_list = fst (tr_collected t),
       out_errors = tr_errors t @ (case snd (tr_collected t) of None \<Rightarrow> [] | Some e \<Rightarrow> [failed @ '': '' @ exc_str e])\<rparr>)"

section \<open>Air quality\<close>

definition measurement_evidence ::
    "(nat \<Rightarrow> uuid) \<Rightarrow> int \<Rightarrow> resilient_result \<Rightarrow> string \<Rightarrow> json \<Rightarrow> nat \<Rightarrow> json \<Rightarrow> evidence py" where
  "measurement_evidence ids now r city location k meas =
     py_bind (json_get_or meas ''parameter'' (JStr ''unknown'')) (\<lambda>parameter.
     py_bind (json_get_or meas ''value'' (JFloat 0)) (\<lambda>v.
     py_bind (json_get_or meas ''unit'' (JStr ''ug/m3'')) (\<lambda>unit.
       observed (ids k) now (''OpenAQ API (Station: '' @ json_str location @ '')'')
         (''At station '' @ quoted (json_str location) @ '' in '' @ city @ '', the level of '' @
          quoted (json_str parameter) @ '' is '' @ json_str v @ '' '' @ json_str unit @ ''.'')
         (if \<not> degraded r then fl64 (95/100) else fl64 (6/10)) (source_tag r))))"

definition station_evidence :: "(nat \<Rightarrow> uuid) \<Rightarrow> int \<Rightarrow> resilient_result \<Rightarrow> string \<Rightarrow> nat \<Rightarrow> json \<Rightarrow> collected" where
  "station_evidence ids now r city k res =
     (case py_bind (json_get_or res ''location'' (JStr ''unknown'')) (\<lambda>loc.
           py_bind (json_get_or res ''measurements'' (JArr [])) (\<lambda>ms. py_bind (json_iter ms) (\<lambda>xs. Inr (loc, xs)))) of
        Inl e \<Rightarrow> ([], Some e)
      | Inr (loc, xs) \<Rightarrow> collect_all (\<lambda>k m. one (measurement_evidence ids now r city loc k m)) k xs)"

definition air_quality_body :: "net \<Rightarrow> (nat \<Rightarrow> uuid) \<Rightarrow> string \<Rightarrow> redis_store \<Rightarrow> redis_store \<times> agent_trace" where
  "air_quality_body n ids city rs =
     (case get_latest_measurements n (openaq_api_key (net_sources n)) city rs of
        (rs1, Inl e) \<Rightarrow> (rs1, raised e)
      | (rs1, Inr r) \<Rightarrow>
          (let results = json_or (rr_value r) (JArr []);
               errs = degraded_note ''openaq'' ''air quality'' r @
                 (if truthy results then [] else [''No active OpenAQ stations found for city: '' @ city])
           in (rs1, quiet errs (try_list (json_iter results)
                 (collect_all (station_evidence ids (net_now n) r city) 0)))))"

definition air_quality_run ::
    "net \<Rightarrow> (nat \<Rightarrow> uuid) \<Rightarrow> agent_input \<Rightarrow> redis_store \<Rightarrow> redis_store \<times> collaboration_message list \<times> agent_output" where
  "air_quality_run n ids inp rs =
     (let city = place_of extract_city inp; (rs', t) = air_quality_body n ids city rs
      in (rs', finish ''air_quality'' (''Failed to query OpenAQ for city '' @ city) t))"

section \<open>Atmosphere\<close>

text \<open>The text of the temperature unit, a degree sign and a C.\<close>

definition celsius :: string where
  "celsius = [char_of (176 :: int), CHR ''C'']"

definition weather_evidence :: "(nat \<Rightarrow> uuid) \<Rightarrow> int \<Rightarrow> resilient_result \<Rightarrow> string \<Rightarrow> json \<Rightarrow> evidence py" where
  "weather_evidence ids now r location current =
     py_bind (json_get current ''temperature_2m'') (\<lambda>temp.
     py_bind (json_get current ''wind_speed_10m'') (\<lambda>wind.
     py_bind (json_get current ''relative_humidity_2m'') (\<lambda>humidity.
       observed (ids 0) now ''Open-Meteo Weather API''
         (''Current atmospheric conditions in '' @ location @ '': Temperature is '' @ json_str temp @ celsius @
          '', Wind Speed is '' @ json_str wind @ '' km/h, and Relative Humidity is '' @ json_str humidity @ ''%.'')
         (if \<not> degraded r then fl64 (95/100) else fl64 (6/10)) (source_tag r))))"

definition coordinates :: "json \<Rightarrow> (json \<times> json) py" where
  "coordinates g = py_bind (json_index g ''lat'') (\<lambda>lat. py_bind (json_index g ''lon'') (\<lambda>lon. Inr (lat, lon)))"

definition atmosphere_body ::
    "libm \<Rightarrow> net \<Rightarrow> (nat \<Rightarrow> uuid) \<Rightarrow> string \<Rightarrow> redis_store \<Rightarrow> redis_store \<times> agent_trace" where
  "atmosphere_body L n ids location rs =
     (case geocode_location L n location rs of
        (rs1, Inl e) \<Rightarrow> (rs1, raised e)
      | (rs1, Inr g) \<Rightarrow>
         (case coordinates g of
            Inl e \<Rightarrow> (rs1, raised e)
          | Inr (lat, lon) \<Rightarrow>
             (case get_current_weather n lat lon rs1 of
                (rs2, Inl e) \<Rightarrow> (rs2, raised e)
              | (rs2, Inr r) \<Rightarrow>
                 (let degr = degraded_note ''open_meteo'' ''weather'' r
                  in (rs2, case json_get_or (json_or (rr_value r) (JObj [])) ''current'' (JObj []) of
                       Inl e \<Rightarrow> quiet degr ([], Some e)
                     | Inr current \<Rightarrow>
                         (if \<not> truthy current
                          then quiet (degr @ [''No atmospheric data returned for '' @ location @ ''.'']) ([], None)
                          else quiet degr (one (weather_evidence ids (net_now n) r location current))))))))"

definition atmosphere_run ::
    "libm \<Rightarrow> net \<Rightarrow> (nat \<Rightarrow> uuid) \<Rightarrow> agent_input \<Rightarrow> redis_store \<Rightarrow> redis_store \<times> collaboration_message list \<times> agent_output" where
  "atmosphere_run L n ids inp rs =
     (let location = place_of extract_location inp; (rs', t) = atmosphere_body L n ids location rs
      in (rs', finish ''atmosphere'' (''Failed to query Open-Meteo weather for '' @ location) t))"

section \<open>Ocean\<close>

definition ocean_evidence ::
    "(nat \<Rightarrow> uuid) \<Rightarrow> int \<Rightarrow> resilient_result \<Rightarrow> string \<Rightarrow> string \<Rightarrow> nat \<Rightarrow> json \<Rightarrow> evidence py" where
  "ocean_evidence ids now r station location k meas =
     py_bind (json_get meas ''t'') (\<lambda>time. py_bind (json_get meas ''v'') (\<lambda>temp.
       observed (ids k) now (''NOAA Ocean API (Station: '' @ station @ '')'')
         (''At NOAA ocean station '' @ station @ '' ('' @ location @ ''), water temperature was recorded as '' @
          json_str temp @ '' '' @ celsius @ '' at '' @ json_str time @ ''.'')
         (if \<not> degraded r then fl64 (95/100) else fl64 (6/10)) (source_tag r)))"

definition ocean_body ::
    "libm \<Rightarrow> net \<Rightarrow> (nat \<Rightarrow> uuid) \<Rightarrow> string \<Rightarrow> redis_store \<Rightarrow> redis_store \<times> agent_trace" where
  "ocean_body L n ids location rs =
     (case geocode_location L n location rs of
        (rs1, Inl e) \<Rightarrow> (rs1, raised e)
      | (rs1, Inr g) \<Rightarrow>
         (case json_get g ''station_id'' of
            Inl e \<Rightarrow> (rs1, raised e)
          | Inr sid \<Rightarrow>
             (if \<not> truthy sid
              then (rs1, quiet [''No active NOAA ocean station found for location '' @ quoted location @ ''.''] ([], None))
              else
               (let station = json_str sid
                in case get_water_temperature n station ''latest'' None rs1 of
                     (rs2, Inl e) \<Rightarrow> (rs2, raised e)
                   | (rs2, Inr r) \<Rightarrow>
                      (let degr = degraded_note ''noaa'' ''ocean'' r; d = json_or (rr_value r) (JObj [])
                       in (rs2, case (if \<not> truthy d then Inr False else json_in ''data'' d) of
                            Inl e \<Rightarrow> quiet degr ([], Some e)
                          | Inr False \<Rightarrow> quiet (degr @ [''No active NOAA ocean measurements found for station '' @
                              station @ '' ('' @ location @ '').'']) ([], None)
                          | Inr True \<Rightarrow> quiet degr (try_list
                              (py_bind (json_get_or d ''data'' (JArr [])) (\<lambda>ms. py_bind (json_take 5 ms) json_iter))
                              (collect_all (\<lambda>k m. one (ocean_evidence ids (net_now n) r station location k m)) 0))))))))"

definition ocean_run ::
    "libm \<Rightarrow> net \<Rightarrow> (nat \<Rightarrow> uuid) \<Rightarrow> agent_input \<Rightarrow> redis_store \<Rightarrow> redis_store \<times> collaboration_message list \<times> agent_output" where
  "ocean_run L n ids inp rs =
     (let location = place_of extract_location inp; (rs', t) = ocean_body L n ids location rs
      in (rs', finish ''ocean'' (''Failed to query NOAA for '' @ location) t))"

section \<open>Seismic\<close>

definition quake_evidence ::
    "(nat \<Rightarrow> uuid) \<Rightarrow> int \<Rightarrow> resilient_result \<Rightarrow> nat \<Rightarrow> json \<Rightarrow> evidence py" where
  "quake_evidence ids now r k feat =
     py_bind (json_get_or feat ''properties'' (JObj [])) (\<lambda>props.
     py_bind (json_get props ''mag'') (\<lambda>mag. py_bind (json_get props ''place'') (\<lambda>place.
     py_bind (json_get_or props ''time'' (JInt 0)) (\<lambda>t. py_bind (json_num t) (\<lambda>ms.
     py_bind (from_timestamp (fdiv ms 1000)) (\<lambda>dt.
       observed (ids k) now ''USGS Seismic API''
         (''Earthquake of magnitude '' @ json_str mag @ '' occurred at '' @ quoted (json_str place) @ '' on '' @
          isoformat dt @ ''.'')
         (if \<not> degraded r then fl64 (98/100) else fl64 (7/10)) (source_tag r)))))))"

text \<open>The message on the first earthquake.\<close>

definition quake_message_of :: "string \<Rightarrow> json \<Rightarrow> collaboration_message py" where
  "quake_message_of location features =
     py_bind (json_nth features 0) (\<lambda>top. py_bind (json_get_or top ''properties'' (JObj [])) (\<lambda>props.
     py_bind (json_get_or props ''mag'' (JFloat 0)) (\<lambda>mag. py_bind (json_get_or props ''place'' (JStr location)) (\<lambda>place.
     py_bind (from_point_estimate (fl64 (95/100)) DEFAULT_POINT_ESTIMATE_INTERVAL_MARGIN Well_Supported) (\<lambda>u.
       CollaborationMessage ''seismic''
         (''Recent earthquake magnitude '' @ json_str mag @ '' near '' @ json_str place @ ''.'') u
         (Some [(''region_hint'', JStr location)]) 0)))))"

definition seismic_body ::
    "libm \<Rightarrow> net \<Rightarrow> (nat \<Rightarrow> uuid) \<Rightarrow> bool \<Rightarrow> string \<Rightarrow> redis_store \<Rightarrow> redis_store \<times> agent_trace" where
  "seismic_body L n ids has_bus location rs =
     (case geocode_location L n location rs of
        (rs1, Inl e) \<Rightarrow> (rs1, raised e)
      | (rs1, Inr g) \<Rightarrow>
         (case coordinates g of
            Inl e \<Rightarrow> (rs1, raised e)
          | Inr (lat, lon) \<Rightarrow>
             (case get_recent_earthquakes n lat lon (Some 100) 1 7 None None rs1 of
                (rs2, Inl e) \<Rightarrow> (rs2, raised e)
              | (rs2, Inr r) \<Rightarrow>
                 (let degr = degraded_note ''usgs'' ''seismic'' r; features = json_or (rr_value r) (JArr []);
                      items = try_list (json_iter features)
                        (collect_all (\<lambda>k f. one (quake_evidence ids (net_now n) r k f)) 0)
                  in (rs2,
                      if \<not> truthy features
                      then quiet (degr @ [''No recent earthquakes found near '' @ location @ ''.'']) items
                      else if has_bus then
                        (case quake_message_of location features of
                           Inl e \<Rightarrow> quiet degr ([], Some e)
                         | Inr m \<Rightarrow> \<lparr>tr_errors = degr, tr_collected = items, tr_messages = [m]\<rparr>)
                      else quiet degr items)))))"

definition seismic_run ::
    "libm \<Rightarrow> net \<Rightarrow> (nat \<Rightarrow> uuid) \<Rightarrow> bool \<Rightarrow> agent_input \<Rightarrow> redis_store \<Rightarrow>
     redis_store \<times> collaboration_message list \<times> agent_output" where
  "seismic_run L n ids has_bus inp rs =
     (let location = place_of extract_location inp; (rs', t) = seismic_body L n ids has_bus location rs
      in (rs', finish ''seismic'' (''Failed to query USGS for '' @ location) t))"

section \<open>Wildfire\<close>

definition fire_score :: "resilient_result \<Rightarrow> json \<Rightarrow> flt \<times> source_type" where
  "fire_score r conf =
     (let score = (if conf \<in> {JStr ''h'', JStr ''100''} then fl64 (9/10) else fl64 (7/10))
      in if degraded r then (min score (fl64 (7/10)), Data_Sparsity)
         else (score, if fl64 (8/10) < score then Well_Supported else Data_Sparsity))"

definition fire_evidence ::
    "(nat \<Rightarrow> uuid) \<Rightarrow> int \<Rightarrow> resilient_result \<Rightarrow> string \<Rightarrow> nat \<Rightarrow> json \<Rightarrow> evidence py" where
  "fire_evidence ids now r location k fire =
     py_bind (json_get fire ''latitude'') (\<lambda>lat. py_bind (json_get fire ''longitude'') (\<lambda>lon.
     py_bind (json_get_or fire ''confidence'' (JStr ''nominal'')) (\<lambda>conf.
     py_bind (json_get fire ''acq_date'') (\<lambda>acq_date. py_bind (json_get fire ''acq_time'') (\<lambda>acq_time.
       observed (ids k) now ''NASA FIRMS API''
         (''Active fire detected in '' @ location @ '' region at coordinates ('' @ json_str lat @ '', '' @ json_str lon @
          '') with confidence '' @ quoted (json_str conf) @ '' on '' @ json_str acq_date @ '' '' @ json_str acq_time @ ''.'')
         (fst (fire_score r conf)) (snd (fire_score r conf)))))))"

definition bbox_of :: "json \<Rightarrow> (json \<times> json \<times> json \<times> json) py" where
  "bbox_of g = py_bind (json_index g ''bbox'') (\<lambda>b.
     py_bind (json_nth b 0) (\<lambda>x0. py_bind (json_nth b 1) (\<lambda>y0. py_bind (json_nth b 2) (\<lambda>x1. py_bind (json_nth b 3) (\<lambda>y1.
       Inr (x0, y0, x1, y1))))))"

definition has_key :: "string option \<Rightarrow> bool" where
  "has_key k = (case k of Some (c # cs) \<Rightarrow> True | _ \<Rightarrow> False)"

definition wildfire_body ::
    "libm \<Rightarrow> net \<Rightarrow> (nat \<Rightarrow> uuid) \<Rightarrow> string \<Rightarrow> redis_store \<Rightarrow> redis_store \<times> agent_trace" where
  "wildfire_body L n ids location rs =
     (case geocode_location L n location rs of
        (rs1, Inl e) \<Rightarrow> (rs1, raised e)
      | (rs1, Inr g) \<Rightarrow>
         (case bbox_of g of
            Inl e \<Rightarrow> (rs1, raised e)
          | Inr (x0, y0, x1, y1) \<Rightarrow>
             (let api_key = firms_api_key (net_sources n)
              in case get_active_fires n api_key x0 y0 x1 y1 1 rs1 of
                   (rs2, Inl e) \<Rightarrow> (rs2, raised e)
                 | (rs2, Inr r) \<Rightarrow>
                    (let degr = degraded_note ''firms'' ''wildfire'' r; fires = json_or (rr_value r) (JArr [])
                     in (rs2,
                         if \<not> truthy fires then
                           quiet (degr @ [if \<not> has_key api_key
                               then ''NASA FIRMS API key is not configured; skipped wildfire active search.''
                               else ''No active wildfires reported in '' @ location @ '' region.'']) ([], None)
                         else quiet degr (try_list (py_bind (json_take 10 fires) json_iter)
                           (collect_all (\<lambda>k f. one (fire_evidence ids (net_now n) r location k f)) 0)))))))"

definition wildfire_run ::
    "libm \<Rightarrow> net \<Rightarrow> (nat \<Rightarrow> uuid) \<Rightarrow> agent_input \<Rightarrow> redis_store \<Rightarrow> redis_store \<times> collaboration_message list \<times> agent_output" where
  "wildfire_run L n ids inp rs =
     (let location = place_of extract_location inp; (rs', t) = wildfire_body L n ids location rs
      in (rs', finish ''wildfire'' (''Failed to query FIRMS wildfire API for '' @ location) t))"

section \<open>Causal chains\<close>

definition extract_event_type :: "string \<Rightarrow> string" where
  "extract_event_type query =
     (let q = str_lower query; has = str_contains q
      in if has ''satellite wildfire'' \<or> has ''copernicus'' then ''wildfire_satellite''
         else if has ''atmospheric anomaly'' \<or> has ''era5'' \<or> has ''reanalysis'' then ''atmospheric_anomaly''
         else if has ''unrest'' \<or> has ''gdelt'' \<or> has ''civil'' \<or> has ''socio'' then ''civil_unrest_hazard_adjacent''
         else if has ''earthquake'' \<or> has ''seismic'' then ''earthquake''
         else if has ''wildfire'' \<or> has ''fire'' then ''wildfire''
         else if has ''heatwave'' \<or> has ''marine heatwave'' then ''marine heatwave''
         else ''earthquake'')"

text \<open>
  The database as the agent meets it: the tables, the spatial predicates, the service behind
  \<open>resolve_boundary\<close>, and the exceptions the two queries meet. The geocoder's coordinates are floats or
  integers; the query receives them as floats.
\<close>

record ('g, 'b) causal_world =
  cw_db :: "('g, 'b) hazard_db"
  cw_geo :: "'b geo_db"
  cw_dwithin :: "'g \<Rightarrow> flt \<Rightarrow> flt \<Rightarrow> flt \<Rightarrow> bool"
  cw_within :: "'g \<Rightarrow> 'b \<Rightarrow> bool"
  cw_radius_fault :: "py_exc option"
  cw_boundary_fault :: "py_exc option"

text \<open>The wrappers of \<open>db/repository.py\<close>: without a session factory they raise.\<close>

definition repo_find_causal_chain ::
    "('g, 'b) causal_world \<Rightarrow> (nat \<Rightarrow> uuid) \<Rightarrow> int \<Rightarrow> string \<Rightarrow> flt \<times> flt \<Rightarrow> flt \<Rightarrow> int \<Rightarrow> evidence list py" where
  "repo_find_causal_chain w ids now ty point radius m =
     (if \<not> db_ready (cw_geo w) then Inl (Runtime_Error ''Database session factory is not initialised.'')
      else find_causal_chain (cw_dwithin w) (cw_db w) (cw_radius_fault w) ids now ty point radius m)"

definition repo_find_causal_chain_within_boundary ::
    "('g, 'b) causal_world \<Rightarrow> (nat \<Rightarrow> uuid) \<Rightarrow> int \<Rightarrow> string \<Rightarrow> uuid \<Rightarrow> int \<Rightarrow> evidence list py" where
  "repo_find_causal_chain_within_boundary w ids now ty b m =
     (if \<not> db_ready (cw_geo w) then Inl (Runtime_Error ''Database session factory is not initialised.'')
      else find_causal_chain_within_boundary (cw_within w) (cw_db w) (cw_boundary_fault w) ids now ty b m)"

text \<open>The attempt in boundary mode: the items found, an empty list when there is no boundary, or the
  exception.\<close>

definition boundary_attempt ::
    "net \<Rightarrow> ('g, 'b) causal_world \<Rightarrow> (nat \<Rightarrow> uuid) \<Rightarrow> string \<Rightarrow> json \<times> json \<Rightarrow> redis_store \<Rightarrow>
     redis_store \<times> ('g, 'b) causal_world \<times> evidence list py" where
  "boundary_attempt n w ids ty point rs =
     (case resolve_boundary n (cw_geo w) (fst point) (snd point) (rs, administrative_boundaries (cw_db w)) of
        ((rs', table), r) \<Rightarrow>
          (let w' = w\<lparr>cw_db := (cw_db w)\<lparr>administrative_boundaries := table\<rparr>\<rparr>
           in (rs', w',
               case r of
                 Inl e \<Rightarrow> Inl e
               | Inr (Some (JObj (kv # kvs))) \<Rightarrow>
                   (case dict_get (kv # kvs) ''id'' of
                      None \<Rightarrow> Inr []
                    | Some i \<Rightarrow> py_bind (uuid_parse (json_str i)) (\<lambda>b.
                        repo_find_causal_chain_within_boundary w' ids (net_now n) ty b 4))
               | Inr _ \<Rightarrow> Inr [])))"

definition radius_attempt ::
    "net \<Rightarrow> ('g, 'b) causal_world \<Rightarrow> (nat \<Rightarrow> uuid) \<Rightarrow> string \<Rightarrow> json \<times> json \<Rightarrow> string list \<times> evidence list" where
  "radius_attempt n w ids ty point =
     (case py_bind (json_num (fst point)) (\<lambda>lat. py_bind (json_num (snd point)) (\<lambda>lon.
           repo_find_causal_chain w ids (net_now n) ty (lat, lon)
             (causal_chain_search_radius_meters (net_sources n)) 4)) of
        Inr evs \<Rightarrow> ([], evs)
      | Inl (Timeout_Error m) \<Rightarrow> ([''causal chain query exceeded time budget: '' @ m], [])
      | Inl e \<Rightarrow> ([''Failed to query causal chain: '' @ exc_str e], []))"

definition causal_chain_run ::
    "libm \<Rightarrow> net \<Rightarrow> (nat \<Rightarrow> uuid) \<Rightarrow> ('g, 'b) causal_world \<Rightarrow> agent_input \<Rightarrow> redis_store \<Rightarrow>
     redis_store \<times> ('g, 'b) causal_world \<times> agent_output" where
  "causal_chain_run L n ids w inp rs =
     (let out = (\<lambda>evs errs. \<lparr>agent_name = ''causal_chain'', evidence_list = evs, out_errors = errs\<rparr>);
          ty = extract_event_type (ai_query inp)
      in case geocode_location L n (place_of extract_location inp) rs of
           (rs1, r) \<Rightarrow>
             (case py_bind r coordinates of
                Inl (Value_Error _) \<Rightarrow> (rs1, w, out [] [''could not resolve region for causal analysis''])
              | Inl e \<Rightarrow> (rs1, w, out [] [''could not resolve region for causal analysis: '' @ exc_str e])
              | Inr point \<Rightarrow>
                  (if \<not> enable_boundary_reasoning (net_sources n) then
                     (case radius_attempt n w ids ty point of (errs, evs) \<Rightarrow> (rs1, w, out evs errs))
                   else
                     (case boundary_attempt n w ids ty point rs1 of
                        (rs2, w2, Inr (ev # evs)) \<Rightarrow> (rs2, w2, out (ev # evs) [])
                      | (rs2, w2, Inr []) \<Rightarrow>
                          (case radius_attempt n w2 ids ty point of (errs, evs) \<Rightarrow> (rs2, w2, out evs errs))
                      | (rs2, w2, Inl e) \<Rightarrow>
                          (case radius_attempt n w2 ids ty point of (errs, evs) \<Rightarrow>
                             (rs2, w2, out evs ((''Boundary mode lookup failed, falling back to radius search: '' @
                                exc_str e) # errs)))))))"

section \<open>What the agents report\<close>

text \<open>The two kinds of items: supported by live data, or marked as resting on sparse data.\<close>

definition supported :: "evidence \<Rightarrow> bool" where
  "supported e \<longleftrightarrow> valid_evidence e \<and> est_source (ev_uncertainty e) = Well_Supported \<and> fl64 (9/10) \<le> ev_confidence e"

definition sparse :: "evidence \<Rightarrow> bool" where
  "sparse e \<longleftrightarrow> valid_evidence e \<and> est_source (ev_uncertainty e) = Data_Sparsity \<and> ev_confidence e \<le> fl64 (7/10)"

definition degraded_text :: "string \<Rightarrow> bool" where
  "degraded_text s \<longleftrightarrow> starts_with s ''[degraded:''"

text \<open>An honest output: every item is of one of the two kinds, and once the output says that its source
  was degraded all its items are marked sparse.\<close>

definition honest :: "agent_output \<Rightarrow> bool" where
  "honest out \<longleftrightarrow> (\<forall>e\<in>set (evidence_list out). supported e \<or> sparse e) \<and>
     (list_ex degraded_text (out_errors out) \<longrightarrow> (\<forall>e\<in>set (evidence_list out). sparse e))"

lemma observed_Inr:
  assumes "observed i now source claim score tag = Inr e" "fl64 score = score"
  shows "valid_evidence e \<and> est_source (ev_uncertainty e) = tag \<and> ev_confidence e = score"
  using assms
  by (auto simp: observed_def py_bind_def from_point_estimate_def UncertaintyEstimate_def validate_bounds_def
      mk_evidence_def init_uncertainty_def valid_evidence_def valid_estimate_def in_unit_def ev_confidence_def
      max_def min_def fsub_def fadd_def fl64_idem split: sum.splits if_splits)

lemma score_order: "fl64 (6/10) \<le> fl64 (7/10)" "fl64 (9/10) \<le> fl64 (95/100)" "fl64 (9/10) \<le> fl64 (98/100)"
  by (rule fl64_mono; simp)+

definition of_kind :: "resilient_result \<Rightarrow> evidence \<Rightarrow> bool" where
  "of_kind r e \<longleftrightarrow> sparse e \<or> \<not> degraded r \<and> supported e"

lemma observed_kinds:
  assumes "observed i now source claim (if \<not> degraded r then hi else lo) (source_tag r) = Inr e"
    "fl64 hi = hi" "fl64 lo = lo" "fl64 (9/10) \<le> hi" "lo \<le> fl64 (7/10)"
  shows "of_kind r e"
  using observed_Inr [OF assms(1)] assms(2-5) by (auto simp: of_kind_def supported_def sparse_def source_tag_def)

text \<open>The loop keeps what every iteration guarantees.\<close>

lemma collect_all_all:
  "(\<And>k x v. v \<in> set (fst (f k x)) \<Longrightarrow> P v) \<Longrightarrow> v \<in> set (fst (collect_all f k xs)) \<Longrightarrow> P v"
proof (induction xs arbitrary: k)
  case (Cons x xs)
  obtain vs oe where f: "f k x = (vs, oe)" by force
  have "P u" if "u \<in> set vs" for u using Cons.prems(1) [of u k x] f that by simp
  moreover have "P v" if "v \<in> set (fst (collect_all f (k + length vs) xs))"
    by (rule Cons.IH [OF Cons.prems(1) that])
  ultimately show ?case
    using Cons.prems(2) f by (cases oe) (auto split: prod.splits)
qed simp

lemma one_all: "(\<And>e. r = Inr e \<Longrightarrow> P e) \<Longrightarrow> v \<in> set (fst (one r)) \<Longrightarrow> P v"
  by (auto simp: one_def split: sum.splits)

lemma try_list_all: "(\<And>xs v. v \<in> set (fst (f xs)) \<Longrightarrow> P v) \<Longrightarrow> v \<in> set (fst (try_list r f)) \<Longrightarrow> P v"
  by (auto simp: try_list_def split: sum.splits)

text \<open>The items of a trace follow the state of the source.\<close>

definition trace_honest :: "agent_trace \<Rightarrow> bool" where
  "trace_honest t \<longleftrightarrow> (\<forall>e\<in>set (fst (tr_collected t)). supported e \<or> sparse e) \<and>
     (list_ex degraded_text (tr_errors t) \<longrightarrow> (\<forall>e\<in>set (fst (tr_collected t)). sparse e))"

lemma finish_honest:
  assumes "trace_honest t" "first_char failed = Some (CHR ''F'')"
  shows "honest (snd (finish name failed t))"
proof -
  have "\<not> degraded_text (failed @ m)" for m
    using assms(2) by (cases failed) (auto simp: degraded_text_def first_char_def)
  then show ?thesis
    using assms(1) by (auto simp: honest_def finish_def trace_honest_def split: option.splits)
qed

lemma raised_honest [simp]: "trace_honest (raised e)"
  by (simp add: trace_honest_def raised_def)

text \<open>A trace made from the degradation note, a note of the agent's own and items of the right kind.\<close>

lemma quiet_honest:
  assumes "\<And>e. e \<in> set (fst c) \<Longrightarrow> of_kind r e"
    "list_all (\<lambda>m. first_char m = Some (CHR ''N'')) own"
  shows "trace_honest (quiet (degraded_note source what r @ own) c)"
proof -
  have "\<not> list_ex degraded_text own"
    using assms(2) by (induction own) (auto simp: degraded_text_def first_char_def split: list.splits)
  then show ?thesis using assms(1) by (auto simp: trace_honest_def quiet_def degraded_note_def of_kind_def)
qed

lemmas quiet_honest0 = quiet_honest [where own = "[]", simplified]

lemma measurement_kinds:
  "measurement_evidence ids now r city loc k m = Inr e \<Longrightarrow> of_kind r e"
  unfolding measurement_evidence_def py_bind_Inr_iff
  by (elim exE conjE, rule observed_kinds) (assumption | rule fl64_idem score_order order_refl)+

lemma weather_kinds:
  "weather_evidence ids now r loc c = Inr e \<Longrightarrow> of_kind r e"
  unfolding weather_evidence_def py_bind_Inr_iff
  by (elim exE conjE, rule observed_kinds) (assumption | rule fl64_idem score_order order_refl)+

lemma ocean_kinds:
  "ocean_evidence ids now r st loc k m = Inr e \<Longrightarrow> of_kind r e"
  unfolding ocean_evidence_def py_bind_Inr_iff
  by (elim exE conjE, rule observed_kinds) (assumption | rule fl64_idem score_order order_refl)+

lemma quake_kinds:
  "quake_evidence ids now r k f = Inr e \<Longrightarrow> of_kind r e"
  unfolding quake_evidence_def py_bind_Inr_iff
  by (elim exE conjE, rule observed_kinds) (assumption | rule fl64_idem score_order order_refl)+

lemma fire_score_cases:
  "fire_score r conf = (fl64 (9/10), Well_Supported) \<and> \<not> degraded r \<or> fire_score r conf = (fl64 (7/10), Data_Sparsity)"
proof -
  have "fl64 (8/10) < fl64 (9/10)" "fl64 (7/10) \<le> fl64 (9/10)" "\<not> fl64 (8/10) < fl64 (7/10)" by code_simp+
  then show ?thesis by (auto simp: fire_score_def Let_def min_def)
qed

lemma fire_kinds:
  "fire_evidence ids now r loc k f = Inr e \<Longrightarrow> of_kind r e"
proof -
  assume "fire_evidence ids now r loc k f = Inr e"
  then obtain claim conf where
    o: "observed (ids k) now ''NASA FIRMS API'' claim (fst (fire_score r conf)) (snd (fire_score r conf)) = Inr e"
    unfolding fire_evidence_def py_bind_Inr_iff by blast
  have "fl64 (fst (fire_score r conf)) = fst (fire_score r conf)"
    using fire_score_cases [of r conf] by (auto simp: fl64_idem)
  from observed_Inr [OF o this] fire_score_cases [of r conf] show ?thesis
    by (auto simp: of_kind_def supported_def sparse_def)
qed

lemmas kinds = measurement_kinds weather_kinds ocean_kinds quake_kinds fire_kinds

text \<open>Loops over items of one kind.\<close>

lemma loop_kinds:
  assumes "\<And>k x e. item k x = Inr e \<Longrightarrow> P e" "v \<in> set (fst (try_list xs (collect_all (\<lambda>k x. one (item k x)) 0)))"
  shows "P v"
  by (rule try_list_all [OF collect_all_all [OF one_all [OF assms(1)]] assms(2)])

lemma station_kinds:
  "v \<in> set (fst (station_evidence ids now r city k res)) \<Longrightarrow> of_kind r v"
  by (auto simp: station_evidence_def split: sum.splits prod.splits
      dest!: collect_all_all [where P = "of_kind r", OF one_all [where P = "of_kind r", OF measurement_kinds], rotated -1])

lemma air_quality_honest: "trace_honest (snd (air_quality_body n ids city rs))"
proof (cases "get_latest_measurements n (openaq_api_key (net_sources n)) city rs")
  case (Pair rs1 res)
  then show ?thesis
  proof (cases res)
    case (Inr r)
    have "of_kind r v"
      if "v \<in> set (fst (try_list (json_iter xs) (collect_all (station_evidence ids (net_now n) r city) 0)))" for v xs
      by (rule try_list_all [where P = "of_kind r", OF collect_all_all [where P = "of_kind r", OF station_kinds] that])
    then show ?thesis
      using Pair Inr unfolding air_quality_body_def Let_def
      by (auto intro!: quiet_honest quiet_honest0 simp: first_char_def)
  qed (simp add: air_quality_body_def)
qed

lemma atmosphere_honest: "trace_honest (snd (atmosphere_body L n ids location rs))"
proof -
  have "of_kind r v"
    if "v \<in> set (fst (one (weather_evidence ids (net_now n) r location c)))" for v r c
    by (rule one_all [where P = "of_kind r", OF weather_kinds that])
  then show ?thesis
    unfolding atmosphere_body_def Let_def
    by (auto intro!: quiet_honest quiet_honest0 simp: first_char_def split: prod.splits sum.splits)
qed

lemma ocean_honest: "trace_honest (snd (ocean_body L n ids location rs))"
proof -
  have "of_kind r v"
    if "v \<in> set (fst (try_list xs (collect_all (\<lambda>k m. one (ocean_evidence ids (net_now n) r st location k m)) 0)))"
    for v r xs st
    by (rule loop_kinds [where P = "of_kind r", OF ocean_kinds that])
  moreover have "trace_honest (quiet errs ([], e))" for errs e by (simp add: trace_honest_def quiet_def)
  ultimately show ?thesis
    unfolding ocean_body_def Let_def
    by (auto intro!: quiet_honest0 split: prod.splits sum.splits bool.splits)
qed

lemma seismic_honest: "trace_honest (snd (seismic_body L n ids bus location rs))"
proof -
  have items: "of_kind r v"
    if "v \<in> set (fst (try_list xs (collect_all (\<lambda>k f. one (quake_evidence ids (net_now n) r k f)) 0)))" for v r xs
    by (rule loop_kinds [where P = "of_kind r", OF quake_kinds that])
  have "trace_honest \<lparr>tr_errors = degraded_note s wh r, tr_collected = c, tr_messages = ms\<rparr>"
    if "\<And>v. v \<in> set (fst c) \<Longrightarrow> of_kind r v" for s wh r c ms
    using that by (auto simp: trace_honest_def degraded_note_def of_kind_def)
  then show ?thesis
    using items unfolding seismic_body_def Let_def
    by (auto intro!: quiet_honest quiet_honest0 simp: first_char_def split: prod.splits sum.splits)
qed

lemma wildfire_honest: "trace_honest (snd (wildfire_body L n ids location rs))"
proof -
  have "of_kind r v"
    if "v \<in> set (fst (try_list xs (collect_all (\<lambda>k f. one (fire_evidence ids (net_now n) r location k f)) 0)))" for v r xs
    by (rule loop_kinds [where P = "of_kind r", OF fire_kinds that])
  then show ?thesis
    unfolding wildfire_body_def Let_def
    by (auto intro!: quiet_honest quiet_honest0 simp: first_char_def split: prod.splits sum.splits)
qed

text \<open>C8: whatever the sources, Redis and the geocoder do, the five agents that observe a source answer
  honestly: every item has a well-formed uncertainty and is either supported, at 0.9 or more, or
  marked as sparse data, at 0.7 or less; an output that reports a degraded source has sparse items
  only.\<close>

theorem domain_agents_honest:
  "honest (snd (snd (air_quality_run n ids inp rs))) \<and> honest (snd (snd (atmosphere_run L n ids inp rs))) \<and>
   honest (snd (snd (ocean_run L n ids inp rs))) \<and> honest (snd (snd (seismic_run L n ids bus inp rs))) \<and>
   honest (snd (snd (wildfire_run L n ids inp rs)))"
  unfolding air_quality_run_def atmosphere_run_def ocean_run_def seismic_run_def wildfire_run_def Let_def
  by (intro conjI; simp add: case_prod_beta;
      rule finish_honest; simp add: first_char_def air_quality_honest atmosphere_honest ocean_honest seismic_honest wildfire_honest)

text \<open>The agents as runners of the fan-out: they always answer with an output.\<close>

definition as_behaviour ::
    "(agent_input \<Rightarrow> redis_store \<times> collaboration_message list \<times> agent_output) \<Rightarrow> peer_hook option \<Rightarrow> behaviour" where
  "as_behaviour f hook =
     \<lparr>run_body = (\<lambda>inp. case f inp of (_, ms, out) \<Rightarrow> (ms, Inr (Some out))), on_peer_finding = hook\<rparr>"

lemma domain_agents_well_behaved:
  "(\<forall>d\<in>set ds. \<exists>f hook. body (select_runner reg d) = as_behaviour f hook) \<Longrightarrow> well_behaved reg ds"
  by (force simp: well_behaved_def as_behaviour_def split: prod.splits)

end
