(* ===== verification/Critic.thy ===== *)
theory Critic
  imports Events Registry
begin

text \<open>
  The critic agent (\<open>orchestrator/agents/critic/agent.py\<close>) and the replan policy
  (\<open>orchestrator/agents/critic/replan.py\<close>). The language model reply is a parameter, as in the
  synthesis agent.
\<close>

section \<open>Verification\<close>

definition parse_severity :: "json \<Rightarrow> severity py" where
  "parse_severity j =
     (if j = JStr ''low'' then Inr Low else if j = JStr ''medium'' then Inr Medium
      else if j = JStr ''high'' then Inr High else Inl (Validation_Error ''severity''))"

definition parse_flagged_domains :: "json \<Rightarrow> string list option py" where
  "parse_flagged_domains j =
     (case j of
        JNull \<Rightarrow> Inr None
      | JArr xs \<Rightarrow> py_bind (py_sequence (map pydantic_str xs)) (\<lambda>ds. Inr (Some ds))
      | _ \<Rightarrow> Inl (Validation_Error ''flagged_domains''))"

text \<open>\<open>CriticFlag(**f)\<close>: TypeError when \<open>f\<close> is not a dictionary.\<close>

definition parse_flag :: "json \<Rightarrow> critic_flag py" where
  "parse_flag f =
     (case f of
        JObj kvs \<Rightarrow>
          py_bind (str_field kvs ''claim_text'') (\<lambda>c.
          py_bind (str_field kvs ''flagged_reason'') (\<lambda>r.
          py_bind (required kvs ''severity'') (\<lambda>sv.
          py_bind (parse_severity sv) (\<lambda>sv.
          py_bind (parse_flagged_domains (dict_get_or kvs ''flagged_domains'' JNull)) (\<lambda>ds.
            Inr \<lparr>flag_claim_text = c, flagged_reason = r, flag_severity = sv, flagged_domains = ds\<rparr>)))))
      | _ \<Rightarrow> Inl (Type_Error ''argument after ** must be a mapping''))"

definition parse_flags :: "stored_text py \<Rightarrow> critic_flag list py" where
  "parse_flags llm =
     py_bind (py_bind llm json_loads) (\<lambda>parsed.
     py_bind (json_get_or parsed ''flags'' (JArr [])) (\<lambda>raw.
     py_bind (json_iter raw) (\<lambda>fs. py_sequence (map parse_flag fs))))"

text \<open>\<open>verify\<close>: skipped for the stand-in claim, open on any failure.\<close>

definition verify :: "stored_text py \<Rightarrow> synthesis_output \<Rightarrow> critic_flag list" where
  "verify llm so =
     (if claims so = [] \<or>
         (length (claims so) = 1 \<and> str_contains (claim_text (hd (claims so))) ''Unable to gather'')
      then []
      else case parse_flags llm of Inl _ \<Rightarrow> [] | Inr flags \<Rightarrow> flags)"

section \<open>Replan policy\<close>

definition DOMAIN_KEYWORD_MAP :: "(string, string list) dict" where
  "DOMAIN_KEYWORD_MAP =
     [(''air_quality'', [''air_quality'', ''air quality'', ''pm2.5'', ''pm10'', ''aqi'', ''no2'', ''openaq'']),
      (''seismic'', [''seismic'', ''earthquake'', ''fault'', ''magnitude'', ''usgs'', ''epicenter'', ''tremor'']),
      (''ocean'', [''ocean'', ''sea surface'', ''temperature'', ''tide'', ''noaa'', ''sst'', ''gulf stream'']),
      (''atmosphere'', [''atmosphere'', ''weather'', ''pressure'', ''wind'', ''meteo'', ''humidity'', ''trough'']),
      (''wildfire'', [''wildfire'', ''fire'', ''thermal'', ''firms'', ''hotspot'', ''smoke'', ''plume'']),
      (''literature'', [''literature'', ''paper'', ''study'', ''research'', ''citation'']),
      (''causal_chain'', [''causal_chain'', ''causal'', ''chain'', ''causality'']),
      (''simulation'', [''simulation'', ''dispersion'', ''forecast'', ''model''])]"

definition has_high :: "critic_flag list \<Rightarrow> bool" where
  "has_high flags = list_ex (\<lambda>f. flag_severity f = High) flags"

definition max_replans :: int where
  "max_replans = 2"

definition should_replan :: "bool \<Rightarrow> critic_flag list \<Rightarrow> int \<Rightarrow> int \<Rightarrow> bool" where
  "should_replan enabled flags n max_n =
     (if \<not> enabled then False else if n \<ge> max_n then False else has_high flags)"

definition structured_targets :: "string set \<Rightarrow> critic_flag list \<Rightarrow> string list" where
  "structured_targets valid flags =
     append_new [] (filter (\<lambda>d. d \<in> valid)
       (concat (map (\<lambda>f. case flagged_domains f of None \<Rightarrow> []
                        | Some ds \<Rightarrow> map (\<lambda>d. str_lower (str_strip d)) ds) flags)))"

definition keyword_targets :: "string set \<Rightarrow> critic_flag list \<Rightarrow> string list" where
  "keyword_targets valid flags =
     append_new [] (concat (map (\<lambda>f.
       let text = str_lower (flag_claim_text f @ '' '' @ flagged_reason f)
       in map fst (filter (\<lambda>(d, kws). d \<in> valid \<and> list_ex (str_contains text) kws) DOMAIN_KEYWORD_MAP)) flags))"

definition build_replan_targets :: "'b agent_registry \<Rightarrow> critic_flag list \<Rightarrow> string list \<Rightarrow> string list" where
  "build_replan_targets reg flags fallback =
     (let valid = insert ''simulation'' (set (list_domains reg));
          high = filter (\<lambda>f. flag_severity f = High) flags;
          target_flags = (if high \<noteq> [] then high else flags);
          t1 = structured_targets valid target_flags;
          t2 = keyword_targets valid target_flags;
          t3 = filter (\<lambda>d. d \<in> valid) fallback
      in if t1 \<noteq> [] then t1 else if t2 \<noteq> [] then t2 else if t3 \<noteq> [] then t3 else [''air_quality''])"

section \<open>Properties\<close>

lemma structured_targets_valid: "set (structured_targets valid flags) \<subseteq> valid"
  by (auto simp: structured_targets_def)

lemma keyword_targets_valid: "set (keyword_targets valid flags) \<subseteq> valid"
  by (auto simp: keyword_targets_def Let_def)

text \<open>the domains a replan cycle queries are never empty and each is a registered domain, the
  simulation domain or the default; each is queried once when the fallback list has no
  duplicates; and a valid domain named by a high-severity flag is always among them, whatever
  white space or capitals the critic used.\<close>

theorem build_replan_targets_sound:
  "build_replan_targets reg flags fallback \<noteq> [] \<and>
   set (build_replan_targets reg flags fallback) \<subseteq>
     insert ''simulation'' (insert ''air_quality'' (set (list_domains reg))) \<and>
   (distinct fallback \<longrightarrow> distinct (build_replan_targets reg flags fallback)) \<and>
   (f \<in> set flags \<longrightarrow> flag_severity f = High \<longrightarrow> flagged_domains f = Some ds \<longrightarrow> d \<in> set ds \<longrightarrow>
      str_lower (str_strip d) \<in> insert ''simulation'' (set (list_domains reg)) \<longrightarrow>
      str_lower (str_strip d) \<in> set (build_replan_targets reg flags fallback))"
proof -
  define valid where "valid = insert ''simulation'' (set (list_domains reg))"
  define high where "high = filter (\<lambda>f. flag_severity f = High) flags"
  define tf where "tf = (if high \<noteq> [] then high else flags)"
  have eq: "build_replan_targets reg flags fallback =
      (if structured_targets valid tf \<noteq> [] then structured_targets valid tf
       else if keyword_targets valid tf \<noteq> [] then keyword_targets valid tf
       else if filter (\<lambda>d. d \<in> valid) fallback \<noteq> [] then filter (\<lambda>d. d \<in> valid) fallback
       else [''air_quality''])"
    by (simp add: build_replan_targets_def Let_def valid_def high_def tf_def)
  have "str_lower (str_strip d) \<in> set (structured_targets valid tf)"
    if "f \<in> set flags" "flag_severity f = High" "flagged_domains f = Some ds" "d \<in> set ds"
      "str_lower (str_strip d) \<in> valid"
  proof -
    have "f \<in> set tf" using that(1,2) by (auto simp: tf_def high_def filter_empty_conv)
    then show ?thesis using that by (force simp: structured_targets_def)
  qed
  then have named: "f \<in> set flags \<longrightarrow> flag_severity f = High \<longrightarrow> flagged_domains f = Some ds \<longrightarrow> d \<in> set ds \<longrightarrow>
      str_lower (str_strip d) \<in> valid \<longrightarrow> str_lower (str_strip d) \<in> set (build_replan_targets reg flags fallback)"
    unfolding eq by (auto split: if_splits)
  have "distinct (structured_targets valid tf)" "distinct (keyword_targets valid tf)"
    by (simp_all add: structured_targets_def keyword_targets_def distinct_append_new)
  then have "distinct fallback \<longrightarrow> distinct (build_replan_targets reg flags fallback)"
    unfolding eq by simp
  moreover have "set (build_replan_targets reg flags fallback) \<subseteq>
      insert ''simulation'' (insert ''air_quality'' (set (list_domains reg)))"
    using structured_targets_valid [of valid tf] keyword_targets_valid [of valid tf]
    unfolding eq valid_def by auto
  moreover have "build_replan_targets reg flags fallback \<noteq> []" unfolding eq by simp
  ultimately show ?thesis using named unfolding valid_def by blast
qed

definition sample_flag :: "severity \<Rightarrow> string list option \<Rightarrow> critic_flag" where
  "sample_flag sv ds = \<lparr>flag_claim_text = ''c'', flagged_reason = ''r'', flag_severity = sv,
     flagged_domains = ds\<rparr>"

theorem build_replan_targets_sound_witness:
  "''ocean'' \<in> set (build_replan_targets (register_agents (\<lambda>d. sample_runner 0) AgentRegistry)
     [sample_flag Low (Some [''seismic'']), sample_flag High (Some ['' Ocean ''])] [''wildfire''])"
proof -
  have "str_lower (str_strip '' Ocean '') = ''ocean''" by code_simp
  moreover have "''ocean'' \<in> set (list_domains (register_agents (\<lambda>d. sample_runner 0) AgentRegistry))"
    using register_agents_ok [of "\<lambda>d. sample_runner 0"] by (simp add: core_domains_def)
  ultimately show ?thesis
    using build_replan_targets_sound [of "register_agents (\<lambda>d. sample_runner 0) AgentRegistry"
        "[sample_flag Low (Some [''seismic'']), sample_flag High (Some ['' Ocean ''])]" "[''wildfire'']"
        "sample_flag High (Some ['' Ocean ''])" "['' Ocean '']" "'' Ocean ''"]
    by (simp add: sample_flag_def)
qed

end
