(* ===== verification/Graph.thy ===== *)
theory Graph
  imports Critic Fan_Out Classifier
begin

text \<open>
  The investigation graph (\<open>orchestrator/graph/builder.py\<close>) over its state
  (\<open>orchestrator/schemas/graph_state.py\<close>): one definition per node and per routing function,
  and the step relation of the compiled graph. The channel \<open>agent_outputs\<close> is reduced by
  concatenation, the others by replacement. Each step chooses the language model reply and the
  outcome of the database write; an exception of a node ends the run. The simulation and air
  quality agents, and the bodies of the domain agents, are parameters.
\<close>

section \<open>State\<close>

record task_graph_state =
  tg_investigation_id :: uuid
  tg_query :: string
  complexity_tier :: "complexity_tier option"
  matched_domains :: "string list"
  agent_outputs :: "agent_output option list"
  tg_synthesis_output :: "synthesis_output option"
  critic_flags :: "critic_flag list"
  needs_simulation :: bool
  final_answer :: "string option"
  replan_count :: int

text \<open>The state an investigation starts with; absent channels read as their defaults.\<close>

definition initial_state :: "uuid \<Rightarrow> string \<Rightarrow> task_graph_state" where
  "initial_state i q = \<lparr>tg_investigation_id = i, tg_query = q, complexity_tier = None,
     matched_domains = [], agent_outputs = [], tg_synthesis_output = None, critic_flags = [],
     needs_simulation = False, final_answer = None, replan_count = 0\<rparr>"

record graph_env =
  g_registry :: "behaviour agent_registry"
  g_collab :: bool
  g_timeout :: flt
  g_sched :: "collaboration_message list list \<Rightarrow> collaboration_message list"
  g_air_quality :: "agent_input \<Rightarrow> agent_output py"
  g_simulation :: "agent_input \<Rightarrow> agent_output option list \<Rightarrow> agent_output py"
  g_min_domains :: int
  g_replan_enabled :: bool
  g_str_float :: "string \<Rightarrow> flt option"
  g_now :: string

text \<open>What a node does: the events it publishes, and the new state or an exception.\<close>

type_synonym node_result = "investigation_event list \<times> task_graph_state py"

definition input_of :: "task_graph_state \<Rightarrow> agent_input" where
  "input_of st = \<lparr>investigation_id = tg_investigation_id st, ai_query = tg_query st, region_hint = None\<rparr>"

section \<open>Nodes\<close>

definition supervisor_node :: "task_graph_state \<Rightarrow> node_result" where
  "supervisor_node st =
     (let c = classify_query_complexity (tg_query st)
      in ([Planning_Event ''planning''],
          Inr (st\<lparr>complexity_tier := Some (cl_tier c), matched_domains := cl_matched_domains c,
                  needs_simulation := cl_needs_simulation c\<rparr>)))"

definition evidence_number :: "agent_output \<Rightarrow> int" where
  "evidence_number out = int (length (evidence_list out))"

text \<open>The common part of the air quality and simulation nodes.\<close>

definition single_agent_node ::
    "graph_env \<Rightarrow> string \<Rightarrow> agent_output py \<Rightarrow> task_graph_state \<Rightarrow> node_result" where
  "single_agent_node env name r st =
     (case r of
        Inl e \<Rightarrow> ([Agent_Started_Event name (g_now env)], Inl e)
      | Inr out \<Rightarrow> ([Agent_Started_Event name (g_now env), Agent_Completed_Event name (evidence_number out)],
          Inr (st\<lparr>agent_outputs := agent_outputs st @ [Some out]\<rparr>)))"

definition air_quality_node :: "graph_env \<Rightarrow> task_graph_state \<Rightarrow> node_result" where
  "air_quality_node env st = single_agent_node env ''air_quality'' (g_air_quality env (input_of st)) st"

definition run_fan_out :: "graph_env \<Rightarrow> string list \<Rightarrow> task_graph_state \<Rightarrow> agent_output option list py" where
  "run_fan_out env ds st =
     fan_out_run (g_registry env) (g_collab env) (g_timeout env) (g_sched env) ds (input_of st)"

definition fan_out_node :: "graph_env \<Rightarrow> task_graph_state \<Rightarrow> node_result" where
  "fan_out_node env st =
     ([], py_bind (run_fan_out env (matched_domains st) st) (\<lambda>outs.
            Inr (st\<lparr>agent_outputs := agent_outputs st @ outs\<rparr>)))"

definition simulation_node :: "graph_env \<Rightarrow> task_graph_state \<Rightarrow> node_result" where
  "simulation_node env st =
     single_agent_node env ''simulation'' (g_simulation env (input_of st) (agent_outputs st)) st"

text \<open>\<open>None\<close> among the outputs raises AttributeError in \<open>synthesize\<close>.\<close>

definition the_outputs :: "task_graph_state \<Rightarrow> agent_output list py" where
  "the_outputs st = (case those (agent_outputs st) of
       None \<Rightarrow> Inl (Other_Error ''AttributeError'') | Some outs \<Rightarrow> Inr outs)"

definition synthesis_node :: "graph_env \<Rightarrow> stored_text py \<Rightarrow> task_graph_state \<Rightarrow> node_result" where
  "synthesis_node env llm st =
     ([Synthesizing_Event []],
      py_bind (the_outputs st) (\<lambda>outs.
      py_bind (synthesize (g_str_float env) (g_min_domains env) llm outs) (\<lambda>so.
        Inr (st\<lparr>tg_synthesis_output := Some so\<rparr>))))"

text \<open>\<open>f"{x:.2f}"\<close> for a non-negative float, and the tuple of bounds as Python prints it.\<close>

definition float_fixed2 :: "flt \<Rightarrow> string" where
  "float_fixed2 x =
     (let n = round_half_even (x * 100)
      in int_str (n div 100) @ ''.'' @ (if n mod 100 < 10 then ''0'' else []) @ int_str (n mod 100))"

definition bounds_str :: "flt \<times> flt \<Rightarrow> string" where
  "bounds_str b = ''('' @ float_repr (fst b) @ '', '' @ float_repr (snd b) @ '')''"

definition newline :: string where
  "newline = [char_of (10 :: int)]"

definition render_claim :: "synthesized_claim \<Rightarrow> string list" where
  "render_claim c =
     [''- **Claim:** '' @ claim_text c @ '' (Confidence: '' @ float_fixed2 (claim_confidence c) @ '')''] @
     (case claim_uncertainty_bounds c of None \<Rightarrow> []
      | Some b \<Rightarrow> [''  - *Uncertainty Bounds:* '' @ bounds_str b]) @
     (case claim_assumptions c of Some (a # as) \<Rightarrow> [''  - *Assumptions:* '' @ str_join '', '' (a # as)]
      | _ \<Rightarrow> []) @
     map (\<lambda>(i, e). ''  - Citation ['' @ int_str (int i) @ '']: '' @ ev_claim e @ '' (Source: '' @ ev_source e @ '')'')
       (enumerate 1 (supporting_evidence c))"

definition render_synthesis_output :: "synthesis_output \<Rightarrow> string" where
  "render_synthesis_output so =
     str_join newline
       ([''### Synthesized Answer'' @ newline] @ concat (map render_claim (claims so)) @
        (if evidence_gaps so \<noteq> []
         then [newline @ ''### Identified Gaps''] @
              map (\<lambda>g. ''- No evidence gathered for domain: '' @ g) (evidence_gaps so)
         else []))"

definition flag_confidence :: "synthesis_output \<Rightarrow> critic_flag \<Rightarrow> flt" where
  "flag_confidence so f =
     (case List.find (\<lambda>c. claim_text c = flag_claim_text f) (claims so) of
        None \<Rightarrow> 0 | Some c \<Rightarrow> claim_confidence c)"

definition critic_node :: "stored_text py \<Rightarrow> task_graph_state \<Rightarrow> node_result" where
  "critic_node llm st =
     (case tg_synthesis_output st of
        None \<Rightarrow> ([], Inr (st\<lparr>critic_flags := [], final_answer := Some ''No synthesized output to verify.''\<rparr>))
      | Some so \<Rightarrow>
          (let flags = verify llm so
           in (map (\<lambda>f. Critic_Flag_Event (flag_claim_text f) (flag_confidence so f) (flagged_reason f)) flags,
               Inr (st\<lparr>critic_flags := flags, final_answer := Some (render_synthesis_output so)\<rparr>))))"

definition replan_reason :: "critic_flag list \<Rightarrow> string" where
  "replan_reason flags =
     (case filter (\<lambda>f. flag_severity f = High) flags of
        f # _ \<Rightarrow> flagged_reason f
      | [] \<Rightarrow> (case flags of f # _ \<Rightarrow> flagged_reason f | [] \<Rightarrow> ''Critic verification flag''))"

definition replan_node :: "graph_env \<Rightarrow> task_graph_state \<Rightarrow> node_result" where
  "replan_node env st =
     (let n = replan_count st + 1;
          targets = build_replan_targets (g_registry env) (critic_flags st) (matched_domains st)
      in ([Replanning_Event n targets (replan_reason (critic_flags st))],
          py_bind (run_fan_out env targets st) (\<lambda>outs.
            Inr (st\<lparr>replan_count := n, agent_outputs := agent_outputs st @ outs\<rparr>))))"

definition conflict_note :: string where
  "conflict_note = newline @ newline @ ''Unresolved conflicting evidence.''"

definition final_text :: "task_graph_state \<Rightarrow> string" where
  "final_text st =
     (let base = (case final_answer st of
             Some (c # cs) \<Rightarrow> c # cs
           | _ \<Rightarrow> (case tg_synthesis_output st of None \<Rightarrow> ''No synthesis output.''
                   | Some so \<Rightarrow> render_synthesis_output so))
      in if replan_count st \<ge> 2 \<and> has_high (critic_flags st) then base @ conflict_note else base)"

definition average_confidence :: "synthesis_output option \<Rightarrow> flt" where
  "average_confidence so =
     (case so of None \<Rightarrow> 0
      | Some so \<Rightarrow> if claims so = [] then 0
          else fdiv (fsum (map claim_confidence (claims so))) (of_nat (length (claims so))))"

definition nodes_executed :: "task_graph_state \<Rightarrow> string list" where
  "nodes_executed st =
     [''supervisor'', ''fan_out''] @ (if needs_simulation st then [''simulation''] else []) @
     [''synthesis'', ''critic''] @ (if replan_count st > 0 then [''replan''] else []) @ [''finalize'']"

text \<open>The row written by \<open>update_investigation_status\<close>.\<close>

record completion =
  cp_status :: string
  cp_tier :: string
  cp_answer :: string
  cp_confidence :: flt
  cp_nodes :: "string list"
  cp_evidence_count :: int
  cp_replan_count :: int
  cp_flags :: "(string \<times> string \<times> severity) list"

definition completion_of :: "task_graph_state \<Rightarrow> agent_output list \<Rightarrow> completion" where
  "completion_of st outs =
     \<lparr>cp_status = ''complete'',
      cp_tier = (case complexity_tier st of None \<Rightarrow> ''trivial'' | Some t \<Rightarrow> tier_value t),
      cp_answer = final_text st,
      cp_confidence = average_confidence (tg_synthesis_output st),
      cp_nodes = nodes_executed st,
      cp_evidence_count = sum_list (map evidence_number outs),
      cp_replan_count = replan_count st,
      cp_flags = map (\<lambda>f. (flag_claim_text f, flagged_reason f, flag_severity f)) (critic_flags st)\<rparr>"

text \<open>\<open>db\<close> is the exception of the database write, if any; the done event follows the write.\<close>

definition finalize_node ::
    "py_exc option \<Rightarrow> task_graph_state \<Rightarrow> investigation_event list \<times> (task_graph_state \<times> completion) py" where
  "finalize_node db st =
     (case the_outputs st of
        Inl e \<Rightarrow> ([], Inl e)
      | Inr outs \<Rightarrow>
          (case db of
             Some e \<Rightarrow> ([], Inl e)
           | None \<Rightarrow> ([Done_Event (tg_investigation_id st) ''complete''],
               Inr (st\<lparr>final_answer := Some (final_text st)\<rparr>, completion_of st outs))))"

section \<open>Routing\<close>

datatype node = Supervisor | Air_Quality | Fan_Out | Simulation | Synth | Critic_N | Replan | Finalize
  | End | Failed py_exc

definition route_by_complexity :: "task_graph_state \<Rightarrow> node" where
  "route_by_complexity st = Fan_Out"

definition route_after_domain_agents :: "task_graph_state \<Rightarrow> node" where
  "route_after_domain_agents st = (if needs_simulation st then Simulation else Synth)"

definition route_after_critic :: "graph_env \<Rightarrow> task_graph_state \<Rightarrow> node" where
  "route_after_critic env st =
     (if should_replan (g_replan_enabled env) (critic_flags st) (replan_count st) max_replans
      then Replan else Finalize)"

text \<open>The edges of \<open>build_graph\<close>.\<close>

fun next_node :: "graph_env \<Rightarrow> node \<Rightarrow> task_graph_state \<Rightarrow> node" where
  "next_node env Supervisor st = route_by_complexity st"
| "next_node env Air_Quality st = route_after_domain_agents st"
| "next_node env Fan_Out st = route_after_domain_agents st"
| "next_node env Simulation st = Synth"
| "next_node env Synth st = Critic_N"
| "next_node env Critic_N st = route_after_critic env st"
| "next_node env Replan st = Synth"
| "next_node env Finalize st = End"
| "next_node env End st = End"
| "next_node env (Failed e) st = Failed e"

section \<open>Execution\<close>

text \<open>A configuration: the node to run next, the state, the events published, the row written.\<close>

record config =
  cf_node :: node
  cf_state :: task_graph_state
  cf_events :: "investigation_event list"
  cf_row :: "completion option"

definition start :: "uuid \<Rightarrow> string \<Rightarrow> config" where
  "start i q = \<lparr>cf_node = Supervisor, cf_state = initial_state i q, cf_events = [], cf_row = None\<rparr>"

definition exec_node ::
    "graph_env \<Rightarrow> stored_text py \<Rightarrow> py_exc option \<Rightarrow> node \<Rightarrow> task_graph_state \<Rightarrow>
     investigation_event list \<times> (task_graph_state \<times> completion option) py" where
  "exec_node env llm db n st =
     (let plain = (\<lambda>(evs, r). (evs, map_sum id (\<lambda>st. (st, None)) r))
      in case n of
           Supervisor \<Rightarrow> plain (supervisor_node st)
         | Air_Quality \<Rightarrow> plain (air_quality_node env st)
         | Fan_Out \<Rightarrow> plain (fan_out_node env st)
         | Simulation \<Rightarrow> plain (simulation_node env st)
         | Synth \<Rightarrow> plain (synthesis_node env llm st)
         | Critic_N \<Rightarrow> plain (critic_node llm st)
         | Replan \<Rightarrow> plain (replan_node env st)
         | Finalize \<Rightarrow> (case finalize_node db st of (evs, r) \<Rightarrow> (evs, map_sum id (\<lambda>(st, row). (st, Some row)) r))
         | _ \<Rightarrow> ([], Inr (st, None)))"

definition step_config :: "graph_env \<Rightarrow> stored_text py \<Rightarrow> py_exc option \<Rightarrow> config \<Rightarrow> config" where
  "step_config env llm db c =
     (case exec_node env llm db (cf_node c) (cf_state c) of
        (evs, Inl e) \<Rightarrow> c\<lparr>cf_node := Failed e, cf_events := cf_events c @ evs\<rparr>
      | (evs, Inr (st, row)) \<Rightarrow>
          \<lparr>cf_node = next_node env (cf_node c) st, cf_state = st, cf_events = cf_events c @ evs,
           cf_row = (case row of None \<Rightarrow> cf_row c | Some r \<Rightarrow> Some r)\<rparr>)"

definition terminal :: "node \<Rightarrow> bool" where
  "terminal n = (case n of End \<Rightarrow> True | Failed _ \<Rightarrow> True | _ \<Rightarrow> False)"

inductive graph_step :: "graph_env \<Rightarrow> config \<Rightarrow> config \<Rightarrow> bool" for env where
  run_node: "\<not> terminal (cf_node c) \<Longrightarrow> graph_step env c (step_config env llm db c)"

inductive_cases graph_stepE: "graph_step env c c'"

section \<open>Facts on the nodes\<close>

lemma map_sum_Inr_iff: "map_sum id f r = Inr y \<longleftrightarrow> (\<exists>x. r = Inr x \<and> y = f x)"
  by (cases r) auto

lemma map_sum_Inl_iff: "map_sum id f r = Inl e \<longleftrightarrow> r = Inl e"
  by (cases r) auto

lemmas node_defs = supervisor_node_def air_quality_node_def fan_out_node_def simulation_node_def
  single_agent_node_def synthesis_node_def critic_node_def replan_node_def finalize_node_def

text \<open>What every successful node keeps, and how the replan counter moves.\<close>

lemma exec_node_frame:
  assumes "exec_node env llm db n st = (evs, Inr (st', row))"
  shows "tg_investigation_id st' = tg_investigation_id st" "tg_query st' = tg_query st"
    "replan_count st' = (if n = Replan then replan_count st + 1 else replan_count st)"
    "\<exists>more. agent_outputs st' = agent_outputs st @ more"
    "n \<notin> {Synth} \<Longrightarrow> tg_synthesis_output st' = tg_synthesis_output st"
  using assms
  by (cases n; auto simp: exec_node_def node_defs Let_def map_sum_Inr_iff py_bind_Inr_iff
      split: sum.splits option.splits)+

lemma exec_synthesis:
  assumes "exec_node env llm db Synth st = (evs, Inr (st', row))"
  shows "\<exists>outs so. those (agent_outputs st) = Some outs \<and> agent_outputs st' = agent_outputs st \<and>
    synthesize (g_str_float env) (g_min_domains env) llm outs = Inr so \<and>
    tg_synthesis_output st' = Some so"
  using assms
  by (auto simp: exec_node_def synthesis_node_def the_outputs_def map_sum_Inr_iff py_bind_Inr_iff
      split: option.splits)

lemma route_after_critic_cases:
  "route_after_critic env st = Replan \<and> replan_count st < 2 \<and> g_replan_enabled env \<and> has_high (critic_flags st) \<or>
   route_after_critic env st = Finalize \<and>
     (g_replan_enabled env \<longrightarrow> has_high (critic_flags st) \<longrightarrow> 2 \<le> replan_count st)"
  by (auto simp: route_after_critic_def should_replan_def max_replans_def)

lemma step_config_cases:
  obtains (failed) evs e where "step_config env llm db c = c\<lparr>cf_node := Failed e, cf_events := cf_events c @ evs\<rparr>"
      "exec_node env llm db (cf_node c) (cf_state c) = (evs, Inl e)"
    | (ok) evs st row where "exec_node env llm db (cf_node c) (cf_state c) = (evs, Inr (st, row))"
      "cf_node (step_config env llm db c) = next_node env (cf_node c) st"
      "cf_state (step_config env llm db c) = st"
      "cf_events (step_config env llm db c) = cf_events c @ evs"
      "cf_row (step_config env llm db c) = (case row of None \<Rightarrow> cf_row c | Some r \<Rightarrow> Some r)"
proof -
  obtain evs r where ex: "exec_node env llm db (cf_node c) (cf_state c) = (evs, r)" by force
  show thesis
  proof (cases r)
    case (Inl e)
    then show thesis using failed ex by (simp add: step_config_def)
  next
    case (Inr p)
    obtain st row where "p = (st, row)" by force
    then show thesis using ok ex Inr by (simp add: step_config_def)
  qed
qed

section \<open>Termination\<close>

text \<open>The number of nodes that can still run.\<close>

fun rank :: "node \<Rightarrow> nat \<Rightarrow> nat" where
  "rank Supervisor k = 6 + 3 * k"
| "rank Air_Quality k = 5 + 3 * k"
| "rank Fan_Out k = 5 + 3 * k"
| "rank Simulation k = 4 + 3 * k"
| "rank Synth k = 3 + 3 * k"
| "rank Critic_N k = 2 + 3 * k"
| "rank Replan k = 1 + 3 * k"
| "rank Finalize k = 1"
| "rank End k = 0"
| "rank (Failed e) k = 0"

definition replans_left :: "task_graph_state \<Rightarrow> nat" where
  "replans_left st = nat (2 - replan_count st)"

definition config_rank :: "config \<Rightarrow> nat" where
  "config_rank c = rank (cf_node c) (replans_left (cf_state c))"

text \<open>The invariant of a run: bounded replanning, and a synthesis that cites gathered evidence.\<close>

definition gathered :: "task_graph_state \<Rightarrow> evidence set" where
  "gathered st = {e. \<exists>out. Some out \<in> set (agent_outputs st) \<and> e \<in> set (evidence_list out)}"

definition config_inv :: "graph_env \<Rightarrow> config \<Rightarrow> bool" where
  "config_inv env c \<longleftrightarrow>
     0 \<le> replan_count (cf_state c) \<and> replan_count (cf_state c) \<le> 2 \<and>
     (cf_node c = Replan \<longrightarrow> replan_count (cf_state c) < 2) \<and>
     (\<not> g_replan_enabled env \<longrightarrow> replan_count (cf_state c) = 0 \<and> cf_node c \<noteq> Replan) \<and>
     (\<forall>so. tg_synthesis_output (cf_state c) = Some so \<longrightarrow>
        (\<forall>cl\<in>set (claims so). set (supporting_evidence cl) \<subseteq> gathered (cf_state c)))"

lemma next_node_Replan:
  "next_node env n st = Replan \<Longrightarrow> n = Critic_N \<and> replan_count st < 2 \<and> g_replan_enabled env"
  using route_after_critic_cases [of env st]
  by (cases n) (auto simp: route_by_complexity_def route_after_domain_agents_def split: if_splits)

lemma synthesize_evidence:
  assumes "synthesize sf mn llm outs = Inr so" "cl \<in> set (claims so)"
  shows "set (supporting_evidence cl) \<subseteq> set (concat (map evidence_list outs))"
  using assms(1)
proof (cases rule: synthesize_cases)
  case (no_evidence c)
  then show ?thesis using unable_claim_eq [of no_evidence_text] assms(2) by auto
next
  case (all_rejected c)
  then show ?thesis using unable_claim_eq [of no_claims_text] assms(2) by auto
next
  case local
  have "Inr cl \<in> set (map Inr (claims so) :: synthesized_claim py list)" using assms(2) by simp
  then obtain e where "e \<in> set (concat (map evidence_list outs))" "fallback_claim e = Inr cl"
    using local(3) unfolding py_sequence_Inr_iff [THEN iffD1, OF local(3), symmetric] by (auto dest: sym)
  then show ?thesis using fallback_claim_Inr by simp
next
  case accepted
  then show ?thesis using assms(2) by (auto simp: claim_ok_def)
qed

lemma gathered_those:
  "those (agent_outputs st) = Some outs \<Longrightarrow> gathered st = set (concat (map evidence_list outs))"
  by (auto simp: gathered_def those_Some_iff)

lemma config_inv_step:
  assumes "config_inv env c" "\<not> terminal (cf_node c)"
  shows "config_inv env (step_config env llm db c)"
proof (cases rule: step_config_cases [of env llm db c])
  case (failed evs e)
  then show ?thesis using assms(1) by (simp add: config_inv_def gathered_def)
next
  case (ok evs st row)
  note frame = exec_node_frame [OF ok(1)]
  have grow: "gathered (cf_state c) \<subseteq> gathered st" using frame(4) by (auto simp: gathered_def)
  have synth: "set (supporting_evidence cl) \<subseteq> gathered st"
    if so: "tg_synthesis_output st = Some so" and cl: "cl \<in> set (claims so)" for so cl
  proof (cases "cf_node c = Synth")
    case True
    then obtain outs where "those (agent_outputs st) = Some outs"
      "synthesize (g_str_float env) (g_min_domains env) llm outs = Inr so"
      using exec_synthesis ok(1) so by (metis option.inject)
    then show ?thesis using synthesize_evidence cl gathered_those by metis
  next
    case False
    then have "tg_synthesis_output (cf_state c) = Some so" using frame(5) so by simp
    then show ?thesis using assms(1) cl grow by (fastforce simp: config_inv_def)
  qed
  show ?thesis
    using assms(1) synth frame(3) next_node_Replan [of env "cf_node c" st] ok
    by (auto simp: config_inv_def)
qed

lemma rank_step:
  assumes "config_inv env c" "\<not> terminal (cf_node c)"
  shows "config_rank (step_config env llm db c) < config_rank c"
proof (cases rule: step_config_cases [of env llm db c])
  case (failed evs e)
  then show ?thesis using assms(2) by (cases "cf_node c") (auto simp: config_rank_def terminal_def)
next
  case (ok evs st row)
  have "replan_count st = (if cf_node c = Replan then replan_count (cf_state c) + 1 else replan_count (cf_state c))"
    using exec_node_frame(3) [OF ok(1)] .
  moreover have "cf_node c = Replan \<Longrightarrow> 0 \<le> replan_count (cf_state c) \<and> replan_count (cf_state c) < 2"
    using assms(1) by (simp add: config_inv_def)
  ultimately have left: "replans_left (cf_state c) =
      (if cf_node c = Replan then Suc (replans_left st) else replans_left st)"
    by (auto simp: replans_left_def)
  show ?thesis
    using assms(2) left route_after_critic_cases [of env st]
    by (cases "cf_node c") (auto simp: config_rank_def terminal_def ok route_by_complexity_def
        route_after_domain_agents_def)
qed

interpretation run: invariant_system "graph_step env" "config_inv env" for env
  by unfold_locales (auto elim!: graph_stepE intro: config_inv_step)

lemma config_inv_start: "config_inv env (start i q)"
  by (simp add: config_inv_def start_def initial_state_def)

text \<open>What holds at the end of a run, and before finalising.\<close>

definition is_done :: "investigation_event \<Rightarrow> bool" where
  "is_done e = (case e of Done_Event _ _ \<Rightarrow> True | _ \<Rightarrow> False)"

definition answered :: "graph_env \<Rightarrow> config \<Rightarrow> completion \<Rightarrow> bool" where
  "answered env c r \<longleftrightarrow>
     cp_status r = ''complete'' \<and> final_answer (cf_state c) = Some (cp_answer r) \<and>
     cp_replan_count r \<le> 2 \<and>
     cf_events c \<noteq> [] \<and> last (cf_events c) = Done_Event (tg_investigation_id (cf_state c)) ''complete'' \<and>
     (g_replan_enabled env \<and> High \<in> set (map (snd \<circ> snd) (cp_flags r)) \<longrightarrow>
        cp_replan_count r = 2 \<and> (\<exists>base. cp_answer r = base @ conflict_note))"

definition end_inv :: "graph_env \<Rightarrow> config \<Rightarrow> bool" where
  "end_inv env c \<longleftrightarrow> config_inv env c \<and>
     (cf_node c = Finalize \<longrightarrow> g_replan_enabled env \<longrightarrow> has_high (critic_flags (cf_state c)) \<longrightarrow>
        replan_count (cf_state c) = 2) \<and>
     (list_ex is_done (cf_events c) \<longleftrightarrow> cf_node c = End) \<and>
     (cf_row c \<noteq> None \<longleftrightarrow> cf_node c = End) \<and>
     (\<forall>r. cf_row c = Some r \<longrightarrow> answered env c r)"

lemma exec_node_events:
  assumes "exec_node env llm db n st = (evs, r)" "n \<noteq> Finalize"
  shows "\<not> list_ex is_done evs" "\<And>st' row. r = Inr (st', row) \<Longrightarrow> row = None"
  using assms
  by (cases n; auto simp: exec_node_def node_defs Let_def map_sum_Inr_iff is_done_def list_ex_iff
      split: sum.splits option.splits prod.splits)+

lemma exec_finalize_Inl: "exec_node env llm db Finalize st = (evs, Inl e) \<Longrightarrow> evs = []"
  by (auto simp: exec_node_def finalize_node_def map_sum_Inl_iff split: sum.splits option.splits)

lemma exec_finalize_Inr:
  assumes "exec_node env llm db Finalize st = (evs, Inr (st', row))"
  shows "\<exists>outs. row = Some (completion_of st outs) \<and> st' = st\<lparr>final_answer := Some (final_text st)\<rparr> \<and>
    evs = [Done_Event (tg_investigation_id st) ''complete'']"
  using assms
  by (auto simp: exec_node_def finalize_node_def map_sum_Inr_iff split: sum.splits option.splits)

lemma next_node_End: "next_node env n st = End \<Longrightarrow> n = Finalize \<or> n = End"
  by (cases n) (auto simp: route_by_complexity_def route_after_domain_agents_def route_after_critic_def
      split: if_splits)

lemma next_node_Finalize: "next_node env n st = Finalize \<Longrightarrow> n = Critic_N"
  by (cases n) (auto simp: route_by_complexity_def route_after_domain_agents_def split: if_splits)

lemma finalize_answered:
  assumes inv: "end_inv env c" and node: "cf_node c = Finalize"
    and ex: "exec_node env llm db Finalize (cf_state c) = (evs, Inr (st, row))"
    and c': "cf_state c' = st" "cf_events c' = cf_events c @ evs"
  shows "\<exists>r. row = Some r \<and> answered env c' r"
proof -
  let ?st = "cf_state c"
  obtain outs where row: "row = Some (completion_of ?st outs)"
    and st: "st = ?st\<lparr>final_answer := Some (final_text ?st)\<rparr>"
    and evs: "evs = [Done_Event (tg_investigation_id ?st) ''complete'']"
    using exec_finalize_Inr [OF ex] by blast
  have "High \<in> set (map (snd \<circ> snd) (cp_flags (completion_of ?st outs))) \<longleftrightarrow> has_high (critic_flags ?st)"
    by (force simp: completion_of_def has_high_def list_ex_iff)
  moreover have "g_replan_enabled env \<Longrightarrow> has_high (critic_flags ?st) \<Longrightarrow> replan_count ?st = 2"
    using inv node by (simp add: end_inv_def)
  moreover have "replan_count ?st = 2 \<Longrightarrow> has_high (critic_flags ?st) \<Longrightarrow>
      \<exists>base. final_text ?st = base @ conflict_note"
    by (simp add: final_text_def Let_def)
  moreover have "replan_count ?st \<le> 2" using inv by (simp add: end_inv_def config_inv_def)
  ultimately have "answered env c' (completion_of ?st outs)"
    unfolding answered_def c' st evs by (simp add: completion_of_def)
  then show ?thesis using row by blast
qed

lemma end_inv_step:
  assumes inv: "end_inv env c" and live: "\<not> terminal (cf_node c)"
  shows "end_inv env (step_config env llm db c)"
proof -
  let ?c = "step_config env llm db c"
  have cinv: "config_inv env ?c" using config_inv_step inv live by (simp add: end_inv_def)
  have not_end: "cf_node c \<noteq> End" using live by (auto simp: terminal_def)
  then have quiet: "\<not> list_ex is_done (cf_events c)" "cf_row c = None"
    using inv by (auto simp: end_inv_def)
  show ?thesis
  proof (cases rule: step_config_cases [of env llm db c])
    case (failed evs e)
    have "\<not> list_ex is_done evs"
      using failed(2) exec_node_events(1) exec_finalize_Inl by (cases "cf_node c = Finalize") fastforce+
    then show ?thesis using cinv quiet failed(1) by (simp add: end_inv_def)
  next
    case (ok evs st row)
    show ?thesis
    proof (cases "cf_node c = Finalize")
      case True
      then obtain r where r: "row = Some r" "answered env ?c r"
        using finalize_answered [OF inv True, of llm db evs st row ?c] ok by auto
      have "list_ex is_done evs"
        using exec_finalize_Inr ok(1) True by (fastforce simp: is_done_def)
      then show ?thesis using cinv r ok True by (simp add: end_inv_def)
    next
      case False
      have "\<not> list_ex is_done evs" "row = None" using exec_node_events [OF ok(1) False] by auto
      moreover have "cf_node ?c \<noteq> End" using next_node_End ok(2) False not_end by metis
      moreover have "replan_count st = 2"
        if "cf_node ?c = Finalize" "g_replan_enabled env" "has_high (critic_flags st)"
      proof -
        have "cf_node c = Critic_N" using that(1) ok(2) next_node_Finalize by metis
        then have "2 \<le> replan_count st" using that ok(2) route_after_critic_cases [of env st] by auto
        then show ?thesis using cinv ok(3) by (simp add: config_inv_def)
      qed
      ultimately show ?thesis using cinv quiet ok by (simp add: end_inv_def)
    qed
  qed
qed

interpretation ending: invariant_system "graph_step env" "end_inv env" for env
  by unfold_locales (auto elim!: graph_stepE intro: end_inv_step)

lemma end_inv_start: "end_inv env (start i q)"
  using config_inv_start [of env i q] by (simp add: end_inv_def start_def)

lemma relpowp_reaches: "(step ^^ n) a b \<Longrightarrow> reaches step a b"
  by (induction n arbitrary: b) (auto intro: reaches.intros)

lemma rank_run:
  "(graph_step env ^^ n) c c' \<Longrightarrow> config_inv env c \<Longrightarrow> n + config_rank c' \<le> config_rank c"
proof (induction n arbitrary: c')
  case (Suc n)
  then obtain m where m: "(graph_step env ^^ n) c m" "graph_step env m c'" by auto
  have inv: "config_inv env m"
    using run.reaches_inv [OF relpowp_reaches [OF m(1)]] Suc.prems(2) by blast
  have "config_rank c' < config_rank m" using m(2) rank_step [OF inv] by (auto elim: graph_stepE)
  then show ?case using Suc.IH [OF m(1) Suc.prems(2)] by simp
qed simp

section \<open>Properties\<close>

text \<open>C1: every investigation terminates. Whatever the language model, the agents and the database
  do at each step, a run of the graph executes at most 12 nodes, and a run that has not reached
  its end or failed with an exception can always execute the next node.\<close>

theorem graph_run_terminates:
  assumes "(graph_step env ^^ n) (start i q) c"
  shows "n \<le> 12 \<and> (terminal (cf_node c) \<or> (\<exists>c'. graph_step env c c'))"
proof
  have "config_rank (start i q) = 12"
    by (simp add: config_rank_def start_def replans_left_def initial_state_def)
  then show "n \<le> 12" using rank_run [OF assms config_inv_start] by simp
  show "terminal (cf_node c) \<or> (\<exists>c'. graph_step env c c')" using run_node by blast
qed

text \<open>A scheduled run: the replies and write outcomes of successive steps are given.\<close>

definition run_graph :: "graph_env \<Rightarrow> (stored_text py \<times> py_exc option) list \<Rightarrow> config \<Rightarrow> config" where
  "run_graph env ins c =
     fold (\<lambda>(llm, db) c. if terminal (cf_node c) then c else step_config env llm db c) ins c"

lemma run_graph_steps: "\<exists>n. (graph_step env ^^ n) c (run_graph env ins c)"
proof (induction ins arbitrary: c)
  case Nil
  show ?case by (rule exI [of _ 0]) (simp add: run_graph_def)
next
  case (Cons i ins)
  obtain llm db where i: "i = (llm, db)" by force
  show ?case
  proof (cases "terminal (cf_node c)")
    case True
    then show ?thesis using Cons [of c] i by (simp add: run_graph_def)
  next
    case False
    obtain n where "(graph_step env ^^ n) (step_config env llm db c) (run_graph env ins (step_config env llm db c))"
      using Cons by blast
    then have "(graph_step env ^^ Suc n) c (run_graph env ins (step_config env llm db c))"
      using run_node [OF False] by (metis relpowp_Suc_I2)
    moreover have "run_graph env (i # ins) c = run_graph env ins (step_config env llm db c)"
      using False i by (simp add: run_graph_def)
    ultimately show ?thesis by metis
  qed
qed

lemma run_graph_reaches: "reaches (graph_step env) c (run_graph env ins c)"
  using run_graph_steps relpowp_reaches by metis

text \<open>An investigation whose critic keeps raising a high-severity flag.\<close>

definition sample_env :: graph_env where
  "sample_env =
     \<lparr>g_registry = register ''ocean'' (sample_body (\<lambda>_. ([], Inr (Some \<lparr>agent_name = ''ocean'',
          evidence_list = [sample_evidence 2 ''NOAA'' ''warm water'' est_high], out_errors = []\<rparr>))) None)
          AgentRegistry,
      g_collab = False, g_timeout = 30, g_sched = concat, g_air_quality = (\<lambda>_. Inl (Other_Error [])),
      g_simulation = (\<lambda>_ _. Inl (Other_Error [])), g_min_domains = 2, g_replan_enabled = True,
      g_str_float = (\<lambda>_. None), g_now = ''now''\<rparr>"

definition high_reply :: "stored_text py" where
  "high_reply = Inr (json_dumps (JObj [(''flags'', JArr [JObj [(''claim_text'', JStr ''warm water''),
     (''flagged_reason'', JStr ''unsupported''), (''severity'', JStr ''high'')]])]))"

definition sample_final :: config where
  "sample_final = run_graph sample_env
     ((Inl (Other_Error ''LLM''), None) # (Inl (Other_Error ''LLM''), None) #
      concat (replicate 3 [(Inl (Other_Error ''LLM''), None), (high_reply, None), (Inl (Other_Error ''LLM''), None)]))
     (start 7 ''sea'')"

lemma sample_final_node: "cf_node sample_final = End"
  by code_simp

theorem graph_run_terminates_witness:
  "\<exists>n. (graph_step sample_env ^^ n) (start 7 ''sea'') sample_final \<and> n \<le> 12"
proof -
  obtain n where n: "(graph_step sample_env ^^ n) (start 7 ''sea'') sample_final"
    using run_graph_steps unfolding sample_final_def by blast
  then show ?thesis using graph_run_terminates [OF n] by blast
qed

text \<open>C2: throughout a run the critic loop is bounded and the answer stays grounded: at most two
  replan cycles happen, none when the loop is disabled, and every claim of the current synthesis
  cites only evidence some agent returned in this run.\<close>

theorem graph_run_grounded:
  assumes "reaches (graph_step env) (start i q) c"
  shows "0 \<le> replan_count (cf_state c) \<and> replan_count (cf_state c) \<le> 2 \<and>
    (\<not> g_replan_enabled env \<longrightarrow> replan_count (cf_state c) = 0) \<and>
    (\<forall>so cl e. tg_synthesis_output (cf_state c) = Some so \<longrightarrow> cl \<in> set (claims so) \<longrightarrow>
       e \<in> set (supporting_evidence cl) \<longrightarrow>
       (\<exists>out. Some out \<in> set (agent_outputs (cf_state c)) \<and> e \<in> set (evidence_list out)))"
  using run.reaches_inv [OF assms config_inv_start]
  by (fastforce simp: config_inv_def gathered_def)

theorem graph_run_grounded_witness:
  "replan_count (cf_state sample_final) \<le> 2 \<and> replan_count (cf_state sample_final) = 2"
proof -
  have "reaches (graph_step sample_env) (start 7 ''sea'') sample_final"
    unfolding sample_final_def by (rule run_graph_reaches)
  from graph_run_grounded [OF this] have "replan_count (cf_state sample_final) \<le> 2" by blast
  moreover have "replan_count (cf_state sample_final) = 2" by code_simp
  ultimately show ?thesis by blast
qed



section \<open>Observations\<close>

text \<open>The replan policy accepts the simulation domain, which no core agent serves: a cycle that
  targets it runs the stand-in that reports a missing implementation.\<close>

lemma replan_simulation_unserved:
  "build_replan_targets (register_agents core AgentRegistry) [sample_flag High (Some [''simulation''])] fb =
     [''simulation''] \<and>
   select_runner (register_agents core AgentRegistry) ''simulation'' = make_failed_runner ''simulation''"
proof -
  have "str_lower (str_strip ''simulation'') = ''simulation''" by code_simp
  then have "structured_targets (insert ''simulation'' V) [sample_flag High (Some [''simulation''])] = [''simulation'']" for V
    by (simp add: structured_targets_def sample_flag_def)
  then have "build_replan_targets (register_agents core AgentRegistry) [sample_flag High (Some [''simulation''])] fb =
      [''simulation'']"
    by (simp add: build_replan_targets_def Let_def sample_flag_def)
  moreover have "\<exists>e. registry_get (register_agents core AgentRegistry) ''simulation'' = Inl e"
    using register_agents_ok [of core] by (intro directory.get_unlisted) (simp add: core_domains_def)
  ultimately show ?thesis by (auto simp: select_runner_def)
qed

text \<open>Outputs accumulate over replan cycles, so an agent that failed first and delivered evidence in
  a replan cycle is still reported as a gap.\<close>

lemma replanned_agent_still_gap:
  assumes "agent_name failed = d" "evidence_list failed = []"
  shows "d \<in> set (collect_gaps (before @ [failed] @ later))"
  using assms by (simp add: collect_gaps_def)

end
