(* ===== verification/Trace.thy ===== *)
theory Trace
  imports Python_Text
begin

text \<open>
  The trace transformer of the explainability endpoint
  (\<open>orchestrator/explainability/trace_transformer.py\<close>): the stored execution trace, an arbitrary JSON
  value, becomes a graph of nodes and edges with a summary. The label of a collaboration node keeps
  its two names apart instead of joining them with an arrow.
\<close>

section \<open>Graph\<close>

text \<open>The values of \<open>TraceEventTaxonomy\<close>.\<close>

definition PLANNING :: string where "PLANNING = ''planning''"
definition AGENT_STARTED :: string where "AGENT_STARTED = ''agent_started''"
definition SYNTHESIZING :: string where "SYNTHESIZING = ''synthesizing''"
definition CRITIC_FLAG :: string where "CRITIC_FLAG = ''critic_flag''"
definition REPLANNING :: string where "REPLANNING = ''replanning''"
definition COLLABORATION :: string where "COLLABORATION = ''collaboration''"
definition FINALIZE :: string where "FINALIZE = ''finalize''"
definition CUSTOM :: string where "CUSTOM = ''custom''"

datatype node_label = Label string | Collaboration_Label string string

record trace_node =
  tn_id :: string
  tn_label :: node_label
  tn_type :: string
  tn_status :: string
  tn_details :: "(string, json) dict"

record trace_edge =
  te_id :: string
  te_source :: string
  te_target :: string
  te_label :: "string option"
  te_type :: string

record trace_summary =
  evidence_count :: int
  replan_count :: int
  critic_flag_count :: nat
  collaboration_event_count :: nat
  degraded_sources :: "string list"

text \<open>What the ORM or a caller may hold in \<open>confidence\<close>: a \<open>Numeric\<close> column gives a \<open>Decimal\<close>.\<close>

datatype confidence_value = Conf_None | Conf_Int int | Conf_Float flt | Conf_Str string | Conf_Decimal flt

record investigation =
  inv_id :: uuid
  inv_user_id :: "uuid option"
  inv_query_text :: string
  inv_answer :: "string option"
  inv_consent :: bool
  inv_status :: string
  inv_complexity_tier :: "string option"
  inv_created_at :: int
  inv_completed_at :: "int option"
  inv_confidence :: confidence_value
  execution_trace :: json

record trace_metadata =
  md_investigation_id :: uuid
  schema_version :: string
  generated_at :: int
  md_status :: string
  complexity_tier :: "string option"
  created_at :: int
  completed_at :: "int option"
  md_confidence :: "flt option"
  node_count :: nat
  edge_count :: nat
  has_replan :: bool
  has_collaboration :: bool
  has_degraded_mode :: bool

record trace_response =
  tr_metadata :: trace_metadata
  tr_nodes :: "trace_node list"
  tr_edges :: "trace_edge list"
  tr_summary :: trace_summary

definition SCHEMA_VERSION :: string where "SCHEMA_VERSION = ''1.0''"

definition KNOWN_NODE_MAPPINGS :: "(string, string \<times> string) dict" where
  "KNOWN_NODE_MAPPINGS =
     [(''supervisor'', ''Supervisor Planner'', PLANNING),
      (''planning'', ''Planner Initialized'', PLANNING),
      (''fan_out'', ''Parallel Fan-Out Coordinator'', AGENT_STARTED),
      (''air_quality'', ''Air Quality Domain Agent'', AGENT_STARTED),
      (''seismic'', ''Seismic Hazard Agent'', AGENT_STARTED),
      (''atmosphere'', ''Atmospheric Data Agent'', AGENT_STARTED),
      (''ocean'', ''Oceanography Agent'', AGENT_STARTED),
      (''wildfire'', ''Wildfire Risk Agent'', AGENT_STARTED),
      (''simulation'', ''Plume & Transport Simulation Agent'', AGENT_STARTED),
      (''causal_chain'', ''Causal Chain Reasoning Agent'', AGENT_STARTED),
      (''literature_rag'', ''Literature Evidence RAG Agent'', AGENT_STARTED),
      (''synthesis'', ''Cross-Domain Synthesis'', SYNTHESIZING),
      (''critic'', ''Critic Claim Verification'', CRITIC_FLAG),
      (''replan'', ''Targeted Replan Pass'', REPLANNING),
      (''finalize'', ''Final Answer Synthesis & Persistence'', FINALIZE)]"

text \<open>\<open>d.get(k)\<close> of a dictionary.\<close>

definition obj_get :: "(string, json) dict \<Rightarrow> string \<Rightarrow> json" where
  "obj_get d k = (case dict_get d k of None \<Rightarrow> JNull | Some v \<Rightarrow> v)"

definition dict_update :: "('k, 'v) dict \<Rightarrow> ('k, 'v) dict \<Rightarrow> ('k, 'v) dict" where
  "dict_update new d = fold (\<lambda>(k, v) acc. dict_set k v acc) new d"

definition classify_node :: "json \<Rightarrow> string \<times> string \<times> string \<times> (string, json) dict" where
  "classify_node item =
     (let (raw, extra) = (case item of
            JObj d \<Rightarrow> (json_str (json_or (obj_get d ''name'') (json_or (obj_get d ''node'')
                        (json_or (obj_get d ''event'') (JStr ''unknown_event'')))),
                      filter (\<lambda>(k, v). k \<notin> {''name'', ''node'', ''event''}) d)
          | _ \<Rightarrow> (json_str item, []));
          clean = str_lower (str_strip raw);
          label = str_title (str_replace ''_'' '' '' clean)
      in case dict_get KNOWN_NODE_MAPPINGS clean of
           Some (l, t) \<Rightarrow> (l, t, raw, extra)
         | None \<Rightarrow> if str_contains clean ''agent'' then (label, AGENT_STARTED, raw, extra)
                   else (label, CUSTOM, raw, extra))"

section \<open>Reading the trace\<close>

definition as_list :: "json \<Rightarrow> json list" where
  "as_list j = (case j of JArr xs \<Rightarrow> xs | _ \<Rightarrow> [])"

text \<open>A count that is not an integer is converted, or zero; a truth value is an integer.\<close>

definition as_count :: "json \<Rightarrow> json" where
  "as_count j = (case j of
       JInt i \<Rightarrow> JInt i
     | JBool b \<Rightarrow> JBool b
     | JFloat x \<Rightarrow> JInt (if 0 \<le> x then \<lfloor>x\<rfloor> else \<lceil>x\<rceil>)
     | JStr s \<Rightarrow> JInt (case int_text s of Some i \<Rightarrow> i | None \<Rightarrow> 0)
     | _ \<Rightarrow> JInt 0)"

definition count_int :: "json \<Rightarrow> int" where
  "count_int j = (case j of JInt i \<Rightarrow> i | JBool b \<Rightarrow> (if b then 1 else 0) | _ \<Rightarrow> 0)"

definition as_strings :: "json \<Rightarrow> string list" where
  "as_strings j = (case j of JStr s \<Rightarrow> [s] | JArr xs \<Rightarrow> map json_str xs | _ \<Rightarrow> [])"

definition read_confidence :: "confidence_value \<Rightarrow> flt option" where
  "read_confidence c = (case c of
       Conf_Int i \<Rightarrow> Some (fl64 (of_int i))
     | Conf_Float x \<Rightarrow> Some x
     | Conf_Str s \<Rightarrow> float_text s
     | _ \<Rightarrow> None)"

definition reserved_keys :: "string list" where
  "reserved_keys = [''nodes_executed'', ''evidence_count'', ''replan_count'', ''critic_flags'', ''collaboration'',
     ''collaboration_events'', ''degraded_sources'', ''resilience_degraded'', ''errors'', ''error'', ''domains'',
     ''matched_domains'']"

record trace_input =
  ti_status :: string
  ti_executed :: "json list"
  ti_evidence :: json
  ti_replans :: json
  ti_flags :: "json list"
  ti_collab :: "json list"
  ti_degraded :: "string list"
  ti_errors :: "string list"
  ti_domains :: json
  ti_extra :: "(string, json) dict"

definition count_field :: "(string, json) dict \<Rightarrow> string \<Rightarrow> json" where
  "count_field d k = as_count (dict_get_or d k (JInt 0))"

definition read_trace :: "investigation \<Rightarrow> trace_input" where
  "read_trace iv =
     (let d = (case execution_trace iv of JObj kvs \<Rightarrow> kvs | _ \<Rightarrow> [])
      in \<lparr>ti_status = inv_status iv,
          ti_executed = as_list (obj_get d ''nodes_executed''),
          ti_evidence = count_field d ''evidence_count'',
          ti_replans = count_field d ''replan_count'',
          ti_flags = as_list (obj_get d ''critic_flags''),
          ti_collab = as_list (json_or (obj_get d ''collaboration'') (obj_get d ''collaboration_events'')),
          ti_degraded = as_strings (json_or (obj_get d ''degraded_sources'') (obj_get d ''resilience_degraded'')),
          ti_errors = as_strings (json_or (obj_get d ''errors'') (obj_get d ''error'')),
          ti_domains = json_or (obj_get d ''domains'') (obj_get d ''matched_domains''),
          ti_extra = filter (\<lambda>(k, v). k \<notin> set reserved_keys) d\<rparr>)"

section \<open>Nodes of the executed steps\<close>

definition add_context :: "trace_input \<Rightarrow> (string, json) dict \<Rightarrow> (string, json) dict" where
  "add_context t d = (if ti_extra t = [] then d else dict_set ''plugin_context'' (JObj (ti_extra t)) d)"

text \<open>Status and details by the kind of the step.\<close>

definition step_status :: "trace_input \<Rightarrow> json \<Rightarrow> string \<Rightarrow> (string, json) dict \<Rightarrow> string \<times> (string, json) dict" where
  "step_status t item ty d =
     (if json_str item = ''critic'' \<and> ti_flags t \<noteq> [] then (''flagged'', dict_set ''critic_flags'' (JArr (ti_flags t)) d)
      else if json_str item = ''fan_out'' then
        (''completed'', if truthy (ti_domains t) then dict_set ''domains'' (ti_domains t) d else d)
      else if ty = AGENT_STARTED then
        (let d = dict_set ''evidence_count'' (ti_evidence t) d
         in if list_ex (\<lambda>s. str_contains s (json_str item) \<or> str_contains (json_str item) s) (ti_degraded t)
            then (''degraded'', dict_set ''degraded_reason'' (JStr ''Circuit breaker tripped / degraded mode fallback'') d)
            else (''completed'', d))
      else (''completed'', d))"

definition step_id :: "nat \<Rightarrow> json \<Rightarrow> string" where
  "step_id i item = ''node_'' @ int_str (int i) @ ''_'' @ (case classify_node item of (_, _, raw, _) \<Rightarrow> raw)"

definition executed_node :: "trace_input \<Rightarrow> nat \<Rightarrow> json \<Rightarrow> trace_node" where
  "executed_node t i item =
     (let (label, ty, raw, extra) = classify_node item;
          d = add_context t (dict_update extra [(''raw_item'', item)]);
          (st, d) = step_status t item ty d;
          (st, d) = (if ti_status t = ''failed'' \<and> i = length (ti_executed t) - 1
                     then (''failed'', dict_set ''errors'' (JArr (map JStr (ti_errors t))) d) else (st, d))
      in \<lparr>tn_id = step_id i item, tn_label = Label label, tn_type = ty, tn_status = st, tn_details = d\<rparr>)"

definition edge_to :: "string \<Rightarrow> string \<Rightarrow> string \<Rightarrow> trace_edge" where
  "edge_to prev target ty =
     \<lparr>te_id = ''edge_'' @ prev @ ''_to_'' @ target, te_source = prev, te_target = target, te_label = None, te_type = ty\<rparr>"

fun executed_from :: "trace_input \<Rightarrow> nat \<Rightarrow> string option \<Rightarrow> json list \<Rightarrow> trace_node list \<times> trace_edge list" where
  "executed_from t i prev [] = ([], [])"
| "executed_from t i prev (item # items) =
     (let n = executed_node t i item;
          (ns, es) = executed_from t (i + 1) (Some (tn_id n)) items;
          e = (case prev of None \<Rightarrow> []
               | Some p \<Rightarrow> [edge_to p (tn_id n) (if json_str item = ''replan'' then ''replan'' else ''sequential'')])
      in (n # ns, e @ es))"

definition fallback_node :: "trace_input \<Rightarrow> trace_node" where
  "fallback_node t =
     \<lparr>tn_id = ''node_start'', tn_label = Label (''Investigation ('' @ ti_status t @ '')''), tn_type = PLANNING,
      tn_status = (if ti_status t = ''failed'' then ''failed'' else ''completed''),
      tn_details = add_context t (if ti_errors t \<noteq> [] then [(''errors'', JArr (map JStr (ti_errors t)))]
                                  else [(''trace'', JStr ''minimal'')])\<rparr>"

definition base_graph :: "trace_input \<Rightarrow> trace_node list \<times> trace_edge list" where
  "base_graph t = (if ti_executed t \<noteq> [] then executed_from t 0 None (ti_executed t) else ([fallback_node t], []))"

section \<open>Critic flags and collaboration\<close>

definition add_critic :: "trace_input \<Rightarrow> trace_node list \<times> trace_edge list \<Rightarrow> trace_node list \<times> trace_edge list" where
  "add_critic t g =
     (let (ns, es) = g
      in if ti_flags t \<noteq> [] \<and> filter (\<lambda>n. tn_type n = CRITIC_FLAG) ns = [] then
           (let c = ''node_critic_flags_'' @ int_str (int (length ns))
            in (ns @ [\<lparr>tn_id = c, tn_label = Label ''Critic Verification'', tn_type = CRITIC_FLAG, tn_status = ''flagged'',
                       tn_details = [(''critic_flags'', JArr (ti_flags t))]\<rparr>],
                es @ (if ns = [] then [] else [edge_to (tn_id (List.last ns)) c ''sequential''])))
         else (ns, es))"

text \<open>The two names of an event; \<open>name in n.id\<close> raises for a name that is not a text.\<close>

definition collab_agents :: "json \<Rightarrow> json \<times> json" where
  "collab_agents ev = (case ev of
       JObj d \<Rightarrow> (dict_get_or d ''from_agent'' (JStr ''unknown''), dict_get_or d ''to_agent'' (JStr ''all''))
     | _ \<Rightarrow> (JStr ''agent'', JStr ''peer''))"

definition find_agent :: "json \<Rightarrow> trace_node list \<Rightarrow> trace_node option py" where
  "find_agent a ns = (case a of
       JStr s \<Rightarrow> Inr (List.find (\<lambda>n. str_contains (tn_id n) s) ns)
     | _ \<Rightarrow> if ns = [] then Inr None else Inl (Type_Error ''in <string> requires string as left operand''))"

definition collab_node :: "nat \<Rightarrow> json \<Rightarrow> trace_node" where
  "collab_node i ev =
     \<lparr>tn_id = ''node_collab_'' @ int_str (int i),
      tn_label = Collaboration_Label (json_str (fst (collab_agents ev))) (json_str (snd (collab_agents ev))),
      tn_type = COLLABORATION, tn_status = ''completed'',
      tn_details = (case ev of JObj d \<Rightarrow> d | _ \<Rightarrow> [(''event'', JStr (json_str ev))])\<rparr>"

fun add_collab ::
    "nat \<Rightarrow> json list \<Rightarrow> trace_node list \<times> trace_edge list \<Rightarrow> (trace_node list \<times> trace_edge list) py" where
  "add_collab i [] g = Inr g"
| "add_collab i (ev # evs) (ns, es) =
     (let ns' = ns @ [collab_node i ev]; (a, b) = collab_agents ev
      in py_bind (find_agent a ns') (\<lambda>src. py_bind (find_agent b ns') (\<lambda>tgt.
           add_collab (i + 1) evs (ns', es @ (case (src, tgt) of
             (Some s, Some t) \<Rightarrow> [\<lparr>te_id = ''edge_collab_'' @ int_str (int i), te_source = tn_id s, te_target = tn_id t,
                                  te_label = Some ''peer_refinement'', te_type = ''collaboration''\<rparr>]
           | _ \<Rightarrow> [])))))"

definition respond :: "int \<Rightarrow> investigation \<Rightarrow> trace_input \<Rightarrow> trace_node list \<times> trace_edge list \<Rightarrow> trace_response" where
  "respond now iv t g =
     (let (ns, es) = g
      in \<lparr>tr_metadata =
            \<lparr>md_investigation_id = inv_id iv, schema_version = SCHEMA_VERSION, generated_at = now,
             md_status = ti_status t, complexity_tier = inv_complexity_tier iv, created_at = inv_created_at iv,
             completed_at = inv_completed_at iv, md_confidence = read_confidence (inv_confidence iv),
             node_count = length ns, edge_count = length es,
             has_replan = (count_int (ti_replans t) > 0 \<or> list_ex (\<lambda>n. tn_type n = REPLANNING) ns),
             has_collaboration = (ti_collab t \<noteq> []),
             has_degraded_mode = (ti_degraded t \<noteq> [] \<or> list_ex (\<lambda>n. tn_status n = ''degraded'') ns)\<rparr>,
          tr_nodes = ns, tr_edges = es,
          tr_summary = \<lparr>evidence_count = count_int (ti_evidence t), replan_count = count_int (ti_replans t),
             critic_flag_count = length (ti_flags t), collaboration_event_count = length (ti_collab t),
             degraded_sources = ti_degraded t\<rparr>\<rparr>)"

definition transform_execution_trace :: "int \<Rightarrow> investigation \<Rightarrow> trace_response py" where
  "transform_execution_trace now iv =
     (let t = read_trace iv
      in py_bind (add_collab 0 (ti_collab t) (add_critic t (base_graph t))) (\<lambda>g. Inr (respond now iv t g)))"

section \<open>Identifiers\<close>

lemma step_id_inj: "step_id i x = step_id j y \<Longrightarrow> i = j"
proof -
  assume eq: "step_id i x = step_id j y"
  have tw: "takeWhile (\<lambda>c. c \<noteq> CHR ''_'') (int_str (int k) @ ''_'' @ r) = int_str (int k)" for k r
  proof -
    have "c \<noteq> CHR ''_''" if "c \<in> set (int_str (int k))" for c
      using nat_str_facts(2) [OF that] by (auto simp: dec_value_def char_code_def Let_def)
    then show ?thesis by (simp add: takeWhile_append2)
  qed
  obtain r r' where "int_str (int i) @ ''_'' @ r = int_str (int j) @ ''_'' @ r'"
    using eq by (simp add: step_id_def)
  then have "takeWhile (\<lambda>c. c \<noteq> CHR ''_'') (int_str (int i) @ ''_'' @ r) =
      takeWhile (\<lambda>c. c \<noteq> CHR ''_'') (int_str (int j) @ ''_'' @ r')" by (rule arg_cong)
  then show ?thesis unfolding tw nat_str_inj .
qed

text \<open>The prefixes the transformer gives to identifiers keep the kinds of nodes apart.\<close>

definition base_id :: "string \<Rightarrow> bool" where
  "base_id s \<longleftrightarrow> s = ''node_start'' \<or> (\<exists>i x. s = step_id i x)"

definition critic_id :: "nat \<Rightarrow> string" where "critic_id k = ''node_critic_flags_'' @ int_str (int k)"
definition collab_id :: "nat \<Rightarrow> string" where "collab_id k = ''node_collab_'' @ int_str (int k)"

lemma ids_apart:
  "base_id s \<Longrightarrow> s \<noteq> critic_id k" "base_id s \<Longrightarrow> s \<noteq> collab_id k" "critic_id k \<noteq> collab_id j"
  "collab_id k = collab_id j \<longleftrightarrow> k = j"
proof -
  have step: "step_id i x \<noteq> critic_id k" "step_id i x \<noteq> collab_id k" for i x
  proof -
    obtain c cs where c: "int_str (int i) = c # cs" "dec_value c \<noteq> None" by (rule nat_str_head)
    then have "c \<noteq> CHR ''c''" by (auto simp: dec_value_def char_code_def Let_def)
    then show "step_id i x \<noteq> critic_id k" "step_id i x \<noteq> collab_id k"
      by (simp_all add: step_id_def critic_id_def collab_id_def c(1))
  qed
  have start: "''node_start'' \<noteq> critic_id k" "''node_start'' \<noteq> collab_id k"
    by (simp_all add: critic_id_def collab_id_def)
  show "s \<noteq> critic_id k" if "base_id s" using that step(1) start(1) unfolding base_id_def by metis
  show "s \<noteq> collab_id k" if "base_id s" using that step(2) start(2) unfolding base_id_def by metis
  show "critic_id k \<noteq> collab_id j" by (simp add: critic_id_def collab_id_def)
  show "collab_id k = collab_id j \<longleftrightarrow> k = j" by (simp add: collab_id_def nat_str_inj)
qed

section \<open>Well-formed graphs\<close>

definition node_ids :: "trace_node list \<Rightarrow> string list" where
  "node_ids ns = map tn_id ns"

definition graph_ok :: "trace_node list \<times> trace_edge list \<Rightarrow> bool" where
  "graph_ok g \<longleftrightarrow> fst g \<noteq> [] \<and> distinct (node_ids (fst g)) \<and>
     list_all (\<lambda>e. te_source e \<in> set (node_ids (fst g)) \<and> te_target e \<in> set (node_ids (fst g))) (snd g)"

definition ends :: "trace_edge \<Rightarrow> string \<times> string" where
  "ends e = (te_source e, te_target e)"

lemma executed_id [simp]: "tn_id (executed_node t i item) = step_id i item"
  by (simp add: executed_node_def Let_def split: prod.splits)

lemma edge_to_ends [simp]: "ends (edge_to p q ty) = (p, q)"
  by (simp add: ends_def edge_to_def)

lemma executed_shape:
  "executed_from t i prev items = (ns, es) \<Longrightarrow>
     node_ids ns = map (\<lambda>(k, x). step_id k x) (enumerate i items) \<and>
     map ends es = (case prev of None \<Rightarrow> zip (node_ids ns) (tl (node_ids ns))
                    | Some p \<Rightarrow> zip (p # node_ids ns) (node_ids ns))"
proof (induction t i prev items arbitrary: ns es rule: executed_from.induct)
  case (2 t i prev item items)
  obtain ns' es' where rest: "executed_from t (i + 1) (Some (tn_id (executed_node t i item))) items = (ns', es')"
    by (cases "executed_from t (i + 1) (Some (tn_id (executed_node t i item))) items")
  note IH = "2.IH" [OF refl rest]
  from 2(2) rest show ?case
    using IH by (cases prev) (auto simp: Let_def node_ids_def)
qed (auto simp: node_ids_def split: option.splits)

lemma enumerate_ids_distinct: "distinct (map (\<lambda>(k, x). step_id k x) (enumerate i items))"
proof -
  have "inj_on (\<lambda>(k, x). step_id k x) (set (enumerate i items))"
  proof (rule inj_onI, clarify)
    fix k x k' x'
    assume mem: "(k, x) \<in> set (enumerate i items)" "(k', x') \<in> set (enumerate i items)"
      and "step_id k x = step_id k' x'"
    then have "k = k'" using step_id_inj by blast
    with mem show "k = k' \<and> x = x'" by (auto simp: in_set_enumerate_eq)
  qed
  then show ?thesis by (simp add: distinct_map)
qed

lemma zip_tl_mem: "(a, b) \<in> set (zip xs (tl xs)) \<Longrightarrow> a \<in> set xs \<and> b \<in> set xs"
  by (cases xs) (auto dest: set_zip_leftD set_zip_rightD)

lemma graph_ok_ends:
  "graph_ok (ns, es) \<longleftrightarrow> ns \<noteq> [] \<and> distinct (node_ids ns) \<and>
     (\<forall>(a, b)\<in>set (map ends es). a \<in> set (node_ids ns) \<and> b \<in> set (node_ids ns))"
  by (auto simp: graph_ok_def ends_def list_all_iff)

lemma base_graph_ok:
  "graph_ok (base_graph t) \<and> (\<forall>s\<in>set (node_ids (fst (base_graph t))). base_id s)"
proof (cases "ti_executed t = []")
  case True
  then show ?thesis
    by (simp add: base_graph_def graph_ok_def node_ids_def fallback_node_def base_id_def)
next
  case False
  obtain ns es where g: "executed_from t 0 None (ti_executed t) = (ns, es)"
    by (cases "executed_from t 0 None (ti_executed t)")
  note shape = executed_shape [OF g, simplified]
  have "ns \<noteq> []"
    using shape False by (cases "ti_executed t") (auto simp: node_ids_def)
  moreover have "distinct (node_ids ns)"
    using enumerate_ids_distinct shape by metis
  moreover have "\<forall>(a, b)\<in>set (map ends es). a \<in> set (node_ids ns) \<and> b \<in> set (node_ids ns)"
    unfolding shape [THEN conjunct2] using zip_tl_mem by fast
  moreover have "\<forall>s\<in>set (node_ids ns). base_id s"
    unfolding shape [THEN conjunct1] by (auto simp: base_id_def)
  ultimately show ?thesis
    using False g by (simp add: base_graph_def graph_ok_ends)
qed

lemma graph_ok_snoc:
  assumes "graph_ok (ns, es)" "tn_id n \<notin> set (node_ids ns)"
    and "\<And>e. e \<in> set new \<Longrightarrow> te_source e \<in> set (node_ids (ns @ [n])) \<and> te_target e \<in> set (node_ids (ns @ [n]))"
  shows "graph_ok (ns @ [n], es @ new)"
  using assms by (auto simp: graph_ok_def node_ids_def list_all_iff)

text \<open>Which identifiers a graph holds before the collaboration events from number \<open>k\<close> on are added.\<close>

definition ids_before :: "nat \<Rightarrow> trace_node list \<Rightarrow> bool" where
  "ids_before k ns \<longleftrightarrow> (\<forall>s\<in>set (node_ids ns). base_id s \<or> (\<exists>j. s = critic_id j) \<or> (\<exists>j<k. s = collab_id j))"

lemma add_critic_ok:
  assumes "graph_ok g" "\<forall>s\<in>set (node_ids (fst g)). base_id s"
  shows "graph_ok (add_critic t g)" "ids_before 0 (fst (add_critic t g))"
    "\<exists>new. fst (add_critic t g) = fst g @ new" "\<exists>new. snd (add_critic t g) = snd g @ new"
    "ti_flags t \<noteq> [] \<Longrightarrow> \<exists>n\<in>set (fst (add_critic t g)). tn_type n = CRITIC_FLAG"
proof -
  obtain ns es where g: "g = (ns, es)" by (cases g)
  let ?n = "\<lparr>tn_id = critic_id (length ns), tn_label = Label ''Critic Verification'', tn_type = CRITIC_FLAG,
      tn_status = ''flagged'', tn_details = [(''critic_flags'', JArr (ti_flags t))]\<rparr>"
  have ne: "ns \<noteq> []" using assms(1) by (simp add: g graph_ok_def)
  have fresh: "critic_id (length ns) \<notin> set (node_ids ns)"
    using assms(2) ids_apart(1) by (fastforce simp: g)
  have ext: "graph_ok (ns @ [?n], es @ [edge_to (tn_id (List.last ns)) (critic_id (length ns)) ''sequential''])"
    using assms(1) ne fresh
    by (intro graph_ok_snoc) (auto simp: g node_ids_def edge_to_def)
  have cases: "add_critic t g =
     (if ti_flags t \<noteq> [] \<and> filter (\<lambda>n. tn_type n = CRITIC_FLAG) ns = []
      then (ns @ [?n], es @ [edge_to (tn_id (List.last ns)) (critic_id (length ns)) ''sequential'']) else g)"
    using ne unfolding add_critic_def g critic_id_def Let_def by simp
  show "graph_ok (add_critic t g)"
    unfolding cases using ext assms(1) by (simp split: if_splits)
  show "ids_before 0 (fst (add_critic t g))"
    unfolding cases ids_before_def using assms(2) by (auto simp: g node_ids_def)
  show "\<exists>new. fst (add_critic t g) = fst g @ new" "\<exists>new. snd (add_critic t g) = snd g @ new"
    unfolding cases by (auto simp: g)
  show "\<exists>n\<in>set (fst (add_critic t g)). tn_type n = CRITIC_FLAG" if "ti_flags t \<noteq> []"
    unfolding cases using that by (auto simp: g filter_empty_conv)
qed

definition named_by_texts :: "json \<Rightarrow> bool" where
  "named_by_texts ev = (case collab_agents ev of (JStr _, JStr _) \<Rightarrow> True | _ \<Rightarrow> False)"

lemma add_collab_ok:
  assumes "graph_ok (ns, es)" "ids_before k ns" "list_all named_by_texts evs"
  shows "\<exists>es'. add_collab k evs (ns, es) = Inr (ns @ map (\<lambda>(i, ev). collab_node i ev) (enumerate k evs), es @ es') \<and>
    graph_ok (ns @ map (\<lambda>(i, ev). collab_node i ev) (enumerate k evs), es @ es')"
  using assms
proof (induction evs arbitrary: k ns es)
  case (Cons ev evs)
  let ?ns = "ns @ [collab_node k ev]"
  obtain a b where ab: "collab_agents ev = (JStr a, JStr b)"
    using Cons.prems(3) by (auto simp: named_by_texts_def split: prod.splits json.splits)
  define new where "new = (case (List.find (\<lambda>n. str_contains (tn_id n) a) ?ns, List.find (\<lambda>n. str_contains (tn_id n) b) ?ns) of
      (Some s, Some t) \<Rightarrow> [\<lparr>te_id = ''edge_collab_'' @ int_str (int k), te_source = tn_id s, te_target = tn_id t,
                           te_label = Some ''peer_refinement'', te_type = ''collaboration''\<rparr>] | _ \<Rightarrow> [])"
  have id: "tn_id (collab_node k ev) = collab_id k" by (simp add: collab_node_def collab_id_def)
  have fresh: "tn_id (collab_node k ev) \<notin> set (node_ids ns)"
    unfolding id using Cons.prems(2) ids_apart(2,3,4) unfolding ids_before_def by (metis less_irrefl)
  have mem: "tn_id x \<in> set (node_ids ?ns)" if "List.find P ?ns = Some x" for P x
    unfolding node_ids_def set_map using find_Some_in [OF that] by (intro imageI) simp
  have "te_source e \<in> set (node_ids ?ns) \<and> te_target e \<in> set (node_ids ?ns)" if "e \<in> set new" for e
    using that mem [of "\<lambda>n. str_contains (tn_id n) a"] mem [of "\<lambda>n. str_contains (tn_id n) b"]
    unfolding new_def
    by (cases "List.find (\<lambda>n. str_contains (tn_id n) a) ?ns"; cases "List.find (\<lambda>n. str_contains (tn_id n) b) ?ns")
      simp_all
  then have ok: "graph_ok (?ns, es @ new)"
    using Cons.prems(1) fresh by (rule graph_ok_snoc [rotated 2])
  have ids: "ids_before (k + 1) ?ns"
    using Cons.prems(2) by (auto simp: ids_before_def node_ids_def id less_Suc_eq)
  have step: "add_collab k (ev # evs) (ns, es) = add_collab (k + 1) evs (?ns, es @ new)"
    by (simp add: ab find_agent_def new_def Let_def)
  show ?case
    using Cons.IH [OF ok ids] Cons.prems(3) unfolding step by auto
qed simp


definition example_investigation :: "json \<Rightarrow> investigation" where
  "example_investigation trace = \<lparr>inv_id = 1, inv_user_id = None, inv_query_text = ''q'', inv_answer = None, inv_consent = False,
     inv_status = ''complete'', inv_complexity_tier = None, inv_created_at = 0,
     inv_completed_at = None, inv_confidence = Conf_Decimal (4 / 5), execution_trace = trace\<rparr>"

definition example_trace :: json where
  "example_trace = JObj [(''nodes_executed'', JArr [JStr ''supervisor'', JStr ''ocean'']),
     (''critic_flags'', JArr [JStr ''f'']), (''collaboration'', JArr [JObj [(''from_agent'', JStr ''ocean'')]])]"


text \<open>An event that names an agent by something else, such as null, makes the transformer raise.\<close>

lemma collab_null_agent_raises:
  "transform_execution_trace now (example_investigation
     (JObj [(''collaboration'', JArr [JObj [(''from_agent'', JNull)]])])) =
   Inl (Type_Error ''in <string> requires string as left operand'')"
  by (simp add: transform_execution_trace_def read_trace_def example_investigation_def Let_def obj_get_def
      json_or_def as_list_def collab_agents_def dict_get_or_def find_agent_def base_graph_def add_critic_def)

text \<open>The confidence of a stored investigation, a \<open>Decimal\<close>, is dropped.\<close>

lemma stored_confidence_dropped:
  "inv_confidence iv = Conf_Decimal x \<Longrightarrow> transform_execution_trace now iv = Inr r \<Longrightarrow>
     md_confidence (tr_metadata r) = None"
  by (auto simp: transform_execution_trace_def Let_def py_bind_Inr_iff respond_def read_confidence_def
      split: prod.splits)

text \<open>A critic step recorded as an object is not marked as flagged.\<close>

lemma critic_object_not_flagged:
  "tn_type (executed_node t i (JObj [(''name'', JStr ''critic'')])) = CRITIC_FLAG \<and>
   tn_status (executed_node t i (JObj [(''name'', JStr ''critic'')])) \<noteq> ''flagged''"
proof -
  have kind: "classify_node (JObj [(''name'', JStr ''critic'')]) = (''Critic Claim Verification'', CRITIC_FLAG, ''critic'', [])"
    by code_simp
  have "step_status t (JObj [(''name'', JStr ''critic'')]) CRITIC_FLAG d = (''completed'', d)" for d
    by (simp add: step_status_def json_str_def CRITIC_FLAG_def AGENT_STARTED_def)
  then show ?thesis
    by (auto simp: executed_node_def kind Let_def split: prod.splits if_splits)
qed

end
