(* ===== verification/Investigations.thy ===== *)
theory Investigations
  imports Graph Trace Auth Causal
begin

text \<open>
  The investigation table (\<open>InvestigationRepository\<close> of \<open>db/repository.py\<close>), the routes that create and
  read investigations (\<open>app/api/v1/investigations.py\<close>, the guard of
  \<open>app/api/v1/investigations_stream.py\<close>), the worker job (\<open>workers/jobs/investigation_job.py\<close>), the
  anonymisation policy (\<open>app/api/v1/anonymization.py\<close>), the public research routes
  (\<open>app/api/v1/research.py\<close>) and the dataset export (\<open>workers/jobs/dataset_export_job.py\<close>).
  Rows of equal creation time keep the order of the table. \<open>numeric\<close> is what the database keeps of a
  confidence, \<open>json_text\<close> what it prints of a JSON value; SHA-256 is a parameter.
\<close>

section \<open>Repository\<close>

fun severity_value :: "severity \<Rightarrow> string" where
  "severity_value Low = ''low''"
| "severity_value Medium = ''medium''"
| "severity_value High = ''high''"

text \<open>The trace the finalize node stores.\<close>

definition completion_trace :: "completion \<Rightarrow> json" where
  "completion_trace r =
     JObj [(''nodes_executed'', JArr (map JStr (cp_nodes r))),
           (''evidence_count'', JInt (cp_evidence_count r)),
           (''replan_count'', JInt (cp_replan_count r)),
           (''critic_flags'', JArr (map (\<lambda>(c, f, s). JObj [(''claim_text'', JStr c), (''flagged_reason'', JStr f),
              (''severity'', JStr (severity_value s))]) (cp_flags r)))]"

type_synonym investigations = "investigation list"

definition create_row :: "uuid \<Rightarrow> int \<Rightarrow> string \<Rightarrow> uuid option \<Rightarrow> bool \<Rightarrow> investigation" where
  "create_row i now query user consent =
     \<lparr>inv_id = i, inv_user_id = user, inv_query_text = query, inv_answer = None, inv_consent = consent,
      inv_status = ''planning'', inv_complexity_tier = None, inv_created_at = now, inv_completed_at = None,
      inv_confidence = Conf_None, execution_trace = JNull\<rparr>"

text \<open>A commit fails when the identifier is taken.\<close>

definition repo_create_investigation ::
    "uuid \<Rightarrow> int \<Rightarrow> string \<Rightarrow> uuid option \<Rightarrow> bool \<Rightarrow> investigations \<Rightarrow> investigations \<times> investigation py" where
  "repo_create_investigation i now query user consent t =
     (if i \<in> inv_id ` set t then (t, Inl Integrity_Error)
      else (let row = create_row i now query user consent in (t @ [row], Inr row)))"

definition repo_get_investigation :: "uuid \<Rightarrow> investigations \<Rightarrow> investigation option py" where
  "repo_get_investigation i t = scalar_one_or_none (filter (\<lambda>iv. inv_id iv = i) t)"

text \<open>The assignments of \<open>update_investigation_status\<close>; on JSON values \<open>_normalize_serializable\<close> is the
  identity.\<close>

definition set_status ::
    "(flt \<Rightarrow> flt) \<Rightarrow> int \<Rightarrow> string \<Rightarrow> string option \<Rightarrow> string option \<Rightarrow> flt option \<Rightarrow> json option \<Rightarrow>
     investigation \<Rightarrow> investigation" where
  "set_status numeric now status tier answer conf trace iv =
     iv\<lparr>inv_status := status,
        inv_complexity_tier := (if tier = None then inv_complexity_tier iv else tier),
        inv_answer := (if answer = None then inv_answer iv else answer),
        inv_confidence := (case conf of None \<Rightarrow> inv_confidence iv | Some c \<Rightarrow> Conf_Decimal (numeric c)),
        execution_trace := (case trace of None \<Rightarrow> execution_trace iv | Some j \<Rightarrow> j),
        inv_completed_at := (if status = ''complete'' \<or> status = ''failed'' then Some now else inv_completed_at iv)\<rparr>"

definition update_investigation_status ::
    "(flt \<Rightarrow> flt) \<Rightarrow> int \<Rightarrow> uuid \<Rightarrow> string \<Rightarrow> string option \<Rightarrow> string option \<Rightarrow> flt option \<Rightarrow> json option \<Rightarrow>
     investigations \<Rightarrow> investigations \<times> investigation option py" where
  "update_investigation_status numeric now i status tier answer conf trace t =
     (case repo_get_investigation i t of
        Inl e \<Rightarrow> (t, Inl e)
      | Inr None \<Rightarrow> (t, Inr None)
      | Inr (Some iv) \<Rightarrow>
          (let iv' = set_status numeric now status tier answer conf trace iv
           in (map (\<lambda>x. if inv_id x = i then iv' else x) t, Inr (Some iv'))))"

definition stored_completion :: "(flt \<Rightarrow> flt) \<Rightarrow> int \<Rightarrow> completion \<Rightarrow> investigation \<Rightarrow> investigation" where
  "stored_completion numeric now r iv =
     set_status numeric now (cp_status r) (Some (cp_tier r)) (Some (cp_answer r)) (Some (cp_confidence r))
       (Some (completion_trace r)) iv"

text \<open>\<open>LIKE\<close>: the percent sign matches any text, the underscore one character, a backslash quotes.\<close>

function sql_like :: "string \<Rightarrow> string \<Rightarrow> bool" where
  "sql_like [] s = (s = [])"
| "sql_like (p # ps) s =
     (if p = CHR ''%'' then sql_like ps s \<or> (case s of [] \<Rightarrow> False | c # cs \<Rightarrow> sql_like (p # ps) cs)
      else if char_code p = 92 then
        (case ps of [] \<Rightarrow> False | q # qs \<Rightarrow> (case s of [] \<Rightarrow> False | c # cs \<Rightarrow> c = q \<and> sql_like qs cs))
      else (case s of [] \<Rightarrow> False | c # cs \<Rightarrow> (p = CHR ''_'' \<or> p = c) \<and> sql_like ps cs))"
  by pat_completeness auto
termination by (relation "measure (\<lambda>(p, s). length p + length s)") auto

definition ilike :: "string \<Rightarrow> string \<Rightarrow> bool" where
  "ilike text pattern = sql_like (str_lower pattern) (str_lower text)"

text \<open>\<open>execution_trace ->> 'domains'\<close>: NULL for a missing key, a null or a value that is no object; a
  string as it is, anything else as the database prints it.\<close>

definition trace_domains_text :: "(json \<Rightarrow> string) \<Rightarrow> json \<Rightarrow> string option" where
  "trace_domains_text json_text trace =
     (case trace of
        JObj kvs \<Rightarrow> (case dict_get kvs ''domains'' of
            None \<Rightarrow> None | Some JNull \<Rightarrow> None | Some (JStr s) \<Rightarrow> Some s | Some j \<Rightarrow> Some (json_text j))
      | _ \<Rightarrow> None)"

definition domain_matches :: "(json \<Rightarrow> string) \<Rightarrow> string \<Rightarrow> investigation \<Rightarrow> bool" where
  "domain_matches json_text d iv =
     (let pat = ''%'' @ d @ ''%''; ok = (\<lambda>t. case t of None \<Rightarrow> False | Some s \<Rightarrow> ilike s pat)
      in ok (trace_domains_text json_text (execution_trace iv)) \<or> ok (inv_complexity_tier iv))"

definition newest_investigations :: "investigations \<Rightarrow> investigations" where
  "newest_investigations t = sort_key (\<lambda>iv. - inv_created_at iv) t"

definition list_research_investigations ::
    "(json \<Rightarrow> string) \<Rightarrow> string option \<Rightarrow> int option \<Rightarrow> nat \<Rightarrow> nat \<Rightarrow> investigations \<Rightarrow> investigations" where
  "list_research_investigations json_text domain since limit offset t =
     take limit (drop offset (newest_investigations (filter (\<lambda>iv. inv_status iv = ''complete'' \<and>
       (case since of None \<Rightarrow> True | Some s \<Rightarrow> s \<le> inv_created_at iv) \<and>
       (case domain of Some (c # cs) \<Rightarrow> domain_matches json_text (c # cs) iv | _ \<Rightarrow> True)) t)))"

section \<open>Routes\<close>

datatype 'a route_reply = Ok_Reply int 'a | Error_Reply int string string

record create_request =
  rq_query :: string
  rq_consent :: bool

record create_response =
  cr_investigation_id :: uuid
  cr_status :: string
  stream_url :: string
  poll_url :: string

text \<open>What running it means: a job in the queue, or a task of the server process.\<close>

datatype scheduled = Queued_Job string string int int | Background_Task uuid string

record run_settings =
  use_queued_execution :: bool
  job_timeout_seconds :: int
  job_max_retries :: int

record inv_state =
  inv_table :: investigations
  inv_scheduled :: "scheduled list"

definition create_investigation ::
    "run_settings \<Rightarrow> bool \<Rightarrow> uuid \<Rightarrow> int \<Rightarrow> user option \<Rightarrow> create_request \<Rightarrow> inv_state \<Rightarrow>
     inv_state \<times> create_response route_reply py" where
  "create_investigation cfg redis_up i now u rq st =
     (if length (rq_query rq) < 3 \<or> 2000 < length (rq_query rq)
      then (st, Inr (Error_Reply 422 ''Validation Error'' ''validation_error''))
      else if \<not> redis_up
      then (st, Inr (Error_Reply 503 ''Checkpointer backend is currently unreachable.'' ''checkpointer_unavailable''))
      else
        (case repo_create_investigation i now (rq_query rq) (map_option usr_id u) (rq_consent rq) (inv_table st) of
           (t, Inl e) \<Rightarrow> (st\<lparr>inv_table := t\<rparr>, Inl e)
         | (t, Inr row) \<Rightarrow>
             (let task = (if use_queued_execution cfg
                    then Queued_Job (uuid_str (inv_id row)) (rq_query rq) (job_timeout_seconds cfg) (job_max_retries cfg)
                    else Background_Task (inv_id row) (rq_query rq))
              in (\<lparr>inv_table = t, inv_scheduled = inv_scheduled st @ [task]\<rparr>,
                  Inr (Ok_Reply 202 \<lparr>cr_investigation_id = inv_id row, cr_status = ''accepted'',
                    stream_url = ''/api/v1/investigations/'' @ uuid_str (inv_id row) @ ''/stream'',
                    poll_url = ''/api/v1/investigations/'' @ uuid_str (inv_id row)\<rparr>)))))"

text \<open>The common start of the reading routes: the row, and the guard when the request carries a user.\<close>

definition readable_investigation :: "uuid \<Rightarrow> user option \<Rightarrow> investigations \<Rightarrow> investigation option py" where
  "readable_investigation i u t =
     py_bind (repo_get_investigation i t) (\<lambda>found. case found of
        None \<Rightarrow> Inr None
      | Some iv \<Rightarrow> (case u of None \<Rightarrow> Inr (Some iv)
          | Some usr \<Rightarrow> py_bind (check_owner_or_role (inv_user_id iv) usr [role_admin]) (\<lambda>_. Inr (Some iv))))"

definition not_found :: "uuid \<Rightarrow> 'a route_reply" where
  "not_found i = Error_Reply 404 (''Investigation '' @ uuid_str i @ '' not found.'') ''investigation_not_found''"

definition get_investigation :: "uuid \<Rightarrow> user option \<Rightarrow> investigations \<Rightarrow> investigation route_reply py" where
  "get_investigation i u t =
     py_bind (readable_investigation i u t) (\<lambda>found. Inr (case found of None \<Rightarrow> not_found i | Some iv \<Rightarrow> Ok_Reply 200 iv))"

definition get_investigation_trace :: "int \<Rightarrow> uuid \<Rightarrow> user option \<Rightarrow> investigations \<Rightarrow> trace_response route_reply py" where
  "get_investigation_trace now i u t =
     py_bind (readable_investigation i u t) (\<lambda>found. case found of
        None \<Rightarrow> Inr (not_found i)
      | Some iv \<Rightarrow> py_bind (transform_execution_trace now iv) (\<lambda>r. Inr (Ok_Reply 200 r)))"

text \<open>The guard of the event stream; the stream itself is in \<open>Events\<close>.\<close>

definition stream_investigation_events :: "bool \<Rightarrow> uuid \<Rightarrow> user option \<Rightarrow> investigations \<Rightarrow> uuid route_reply py" where
  "stream_investigation_events redis_up i u t =
     py_bind (readable_investigation i u t) (\<lambda>found. Inr (case found of
        None \<Rightarrow> not_found i
      | Some iv \<Rightarrow> if redis_up then Ok_Reply 200 i
          else Error_Reply 503 ''Events streaming backend is currently unreachable.'' ''checkpointer_unavailable''))"

section \<open>Running an investigation\<close>

text \<open>
  The outcome of the graph run is a parameter (the graph itself is in \<open>Graph\<close>): the table it leaves and
  the exception that ended it, if any. \<open>run_investigation_graph\<close> is the task of the server process.
\<close>

definition run_investigation_graph ::
    "(flt \<Rightarrow> flt) \<Rightarrow> int \<Rightarrow> bool \<Rightarrow> uuid \<Rightarrow> investigations \<times> py_exc option \<Rightarrow> investigations \<times> unit py" where
  "run_investigation_graph numeric now db_ready i outcome =
     (case outcome of
        (t, None) \<Rightarrow> (t, Inr ())
      | (t, Some e) \<Rightarrow>
          (if \<not> db_ready then (t, Inl (Runtime_Error ''Database session factory is not initialised.''))
           else (case update_investigation_status numeric now i ''failed'' None None None
                        (Some (JObj [(''error'', JStr (exc_str e))])) t of
                   (t', Inl e') \<Rightarrow> (t', Inl e')
                 | (t', Inr _) \<Rightarrow> (t', Inr ()))))"

datatype job_event =
    Job_Started uuid
  | Job_Completed uuid string "string option"
  | Job_Failed uuid string string int

text \<open>
  One attempt of the worker job: the query (from the table when it was not passed), the run of the
  graph, the events, and the failed status once no retries are left. \<open>retries\<close> is what the queue says is
  left, \<open>None\<close> outside a job. The tier of the final state is the group key of the event.
\<close>

definition job_query :: "bool \<Rightarrow> uuid \<Rightarrow> string option \<Rightarrow> investigations \<Rightarrow> string py" where
  "job_query db_ready i query t =
     (case query of
        Some (c # cs) \<Rightarrow> Inr (c # cs)
      | _ \<Rightarrow> (if \<not> db_ready then Inl (Runtime_Error ''Database session factory is not initialised.'')
          else py_bind (repo_get_investigation i t) (\<lambda>found. case found of
             None \<Rightarrow> Inl (Value_Error (''Investigation '' @ uuid_str i @ '' not found in database.''))
           | Some iv \<Rightarrow> Inr (inv_query_text iv))))"

definition run_investigation_job ::
    "(flt \<Rightarrow> flt) \<Rightarrow> int \<Rightarrow> bool \<Rightarrow> (int option) option \<Rightarrow> uuid \<Rightarrow> string option \<Rightarrow>
     (string \<Rightarrow> investigations \<Rightarrow> investigations \<times> string option py) \<Rightarrow> investigations \<Rightarrow>
     investigations \<times> job_event list \<times> unit py" where
  "run_investigation_job numeric now db_ready job i query graph t =
     (case job_query db_ready i query t of
        Inl e \<Rightarrow> (t, [Job_Started i], Inl e)
      | Inr q \<Rightarrow>
         (case graph q t of
            (t1, Inr tier) \<Rightarrow> (t1, [Job_Started i, Job_Completed i ''complete'' tier], Inr ())
          | (t1, Inl e) \<Rightarrow>
             (let left = (case job of Some (Some n) \<Rightarrow> n | _ \<Rightarrow> 0);
                  terminal = left \<le> 0;
                  code = (if terminal then ''job_retries_exhausted'' else ''job_attempt_failed'');
                  attempt = (if job = None then 1 else max 1 (3 - left));
                  evs = [Job_Started i, Job_Failed i code (exc_str e) attempt]
              in if terminal \<and> db_ready then
                   (case update_investigation_status numeric now i ''failed'' None None None
                          (Some (JObj [(''error'', JStr (exc_str e)), (''error_code'', JStr code)])) t1 of
                      (t2, Inl e') \<Rightarrow> (t2, evs, Inl e')
                    | (t2, Inr _) \<Rightarrow> (t2, evs, Inl e))
                 else (t1, evs, Inl e))))"

section \<open>Anonymisation\<close>

definition EXCLUDED_TRACE_KEYS :: "string list" where
  "EXCLUDED_TRACE_KEYS = [''user_id'', ''ip_address'', ''user_agent'', ''client_ip'', ''authorization'', ''token'',
     ''email'', ''password'', ''secret'', ''api_key'', ''credentials'', ''cookie'', ''session_id'']"

definition excluded_parts :: "string list" where
  "excluded_parts = [''token'', ''secret'', ''password'', ''authorization'', ''api_key'', ''credentials'',
     ''user_id'', ''client_ip'', ''user_agent'', ''cookie'', ''session_id'']"

definition excluded_key :: "string \<Rightarrow> bool" where
  "excluded_key k = (let l = str_lower k in l \<in> set EXCLUDED_TRACE_KEYS \<or> list_ex (str_contains l) excluded_parts)"

text \<open>\<open>re.findall(r"\w+", text)\<close>: the maximal runs of word characters.\<close>

function word_runs :: "string \<Rightarrow> string list" where
  "word_runs s =
     (let t = dropWhile (\<lambda>c. \<not> is_word c) s
      in if t = [] then [] else takeWhile is_word t # word_runs (dropWhile is_word t))"
  by pat_completeness auto
termination
proof (relation "measure length")
  fix s t :: string assume t: "t = dropWhile (\<lambda>c. \<not> is_word c) s" "t \<noteq> []"
  then have "is_word (hd t)" using hd_dropWhile [of "\<lambda>c. \<not> is_word c" s] by auto
  with t(2) have "length (dropWhile is_word t) < length t"
    by (cases t) (auto intro: le_imp_less_Suc length_dropWhile_le)
  also have "\<dots> \<le> length s" using t(1) by (simp add: length_dropWhile_le)
  finally show "(dropWhile is_word t, s) \<in> measure length" by simp
qed simp

declare word_runs.simps [simp del]

definition derive_query_category :: "string \<Rightarrow> string option \<Rightarrow> string" where
  "derive_query_category query tier =
     (let ws = word_runs (str_lower query); any = (\<lambda>ks. list_ex (\<lambda>k. k \<in> set ws) ks)
      in if any [''earthquake'', ''seismic'', ''fault'', ''tremor'', ''magnitude''] then ''seismic_research''
         else if any [''wildfire'', ''fire'', ''burn'', ''smoke'', ''firms''] then ''wildfire_research''
         else if any [''ocean'', ''sst'', ''marine'', ''sea'', ''wave''] then ''oceanographic_research''
         else if any [''air'', ''atmosphere'', ''co2'', ''emissions'', ''pm25'', ''ozone''] then ''atmospheric_research''
         else (case tier of Some (c # cs) \<Rightarrow> (c # cs) @ ''_environmental_research''
               | _ \<Rightarrow> ''general_environmental_research''))"

definition extract_domains_involved :: "json \<Rightarrow> string list py" where
  "extract_domains_involved trace =
     (if \<not> truthy trace then Inr []
      else py_bind (json_get trace ''domains'') (\<lambda>d. py_bind (json_get trace ''active_agents'') (\<lambda>a.
        Inr (case json_or d (json_or a (JArr [])) of JArr xs \<Rightarrow> map json_str xs | j \<Rightarrow> [json_str j]))))"

text \<open>Keys of a dictionary are distinct, so the loop is a filter.\<close>

function sanitize_execution_trace :: "json \<Rightarrow> json" where
  "sanitize_execution_trace (JObj kvs) =
     JObj (map (\<lambda>kv. (fst kv, sanitize_execution_trace (snd kv))) (filter (\<lambda>kv. \<not> excluded_key (fst kv)) kvs))"
| "sanitize_execution_trace (JArr xs) = JArr (map sanitize_execution_trace xs)"
| "sanitize_execution_trace JNull = JNull"
| "sanitize_execution_trace (JBool b) = JBool b"
| "sanitize_execution_trace (JInt i) = JInt i"
| "sanitize_execution_trace (JFloat x) = JFloat x"
| "sanitize_execution_trace (JStr s) = JStr s"
  by pat_completeness auto
termination
proof (relation "measure size")
  fix kvs and kv :: "string \<times> json" assume "kv \<in> set (filter (\<lambda>kv. \<not> excluded_key (fst kv)) kvs)"
  then have "kv \<in> set kvs" by simp
  then have "size (snd kv) < size (JObj kvs)" by (induction kvs) (auto split: prod.splits)
  then show "(snd kv, JObj kvs) \<in> measure size" by simp
next
  fix xs and x :: json assume "x \<in> set xs"
  then have "size x < size (JArr xs)" by (induction xs) auto
  then show "(x, JArr xs) \<in> measure size" by simp
qed simp

definition opt_json :: "('a \<Rightarrow> json) \<Rightarrow> 'a option \<Rightarrow> json" where
  "opt_json f x = (case x of None \<Rightarrow> JNull | Some a \<Rightarrow> f a)"

text \<open>\<open>float(confidence)\<close> of the stored decimal.\<close>

definition confidence_json :: "confidence_value \<Rightarrow> json py" where
  "confidence_json c = (case c of
       Conf_None \<Rightarrow> Inr JNull
     | Conf_Int i \<Rightarrow> Inr (JFloat (fl64 (of_int i)))
     | Conf_Float x \<Rightarrow> Inr (JFloat x)
     | Conf_Decimal x \<Rightarrow> Inr (JFloat (fl64 x))
     | Conf_Str s \<Rightarrow> (case float_text s of Some x \<Rightarrow> Inr (JFloat x)
          | None \<Rightarrow> Inl (Value_Error ''could not convert string to float'')))"

definition anonymize :: "investigation \<Rightarrow> (string, json) dict py" where
  "anonymize iv =
     py_bind (extract_domains_involved (execution_trace iv)) (\<lambda>domains.
     py_bind (confidence_json (inv_confidence iv)) (\<lambda>conf.
       Inr [(''investigation_id'', JStr (uuid_str (inv_id iv))),
            (''query_category'', JStr (derive_query_category (inv_query_text iv) (inv_complexity_tier iv))),
            (''domains_involved'', JArr (map JStr domains)),
            (''complexity_tier'', opt_json JStr (inv_complexity_tier iv)),
            (''confidence_summary'', conf),
            (''consent_public_research'', JBool (inv_consent iv)),
            (''query_text'', if inv_consent iv then JStr (inv_query_text iv) else JNull),
            (''execution_trace'', sanitize_execution_trace (execution_trace iv)),
            (''created_at'', JStr (isoformat (inv_created_at iv))),
            (''completed_at'', opt_json (JStr \<circ> isoformat) (inv_completed_at iv))]))"

section \<open>Public research\<close>

definition research_disabled :: "'a route_reply" where
  "research_disabled = Error_Reply 503 ''Public Research API is disabled by feature flag.'' ''public_research_api_disabled''"

definition page_ok :: "int \<Rightarrow> int \<Rightarrow> bool" where
  "page_ok limit offset \<longleftrightarrow> 1 \<le> limit \<and> limit \<le> 200 \<and> 0 \<le> offset"

definition list_public_research_investigations ::
    "(json \<Rightarrow> string) \<Rightarrow> bool \<Rightarrow> string option \<Rightarrow> int option \<Rightarrow> int \<Rightarrow> int \<Rightarrow> investigations \<Rightarrow>
     ((string, json) dict list) route_reply py" where
  "list_public_research_investigations json_text enabled domain since limit offset t =
     (if \<not> page_ok limit offset then Inr (Error_Reply 422 ''Validation Error'' ''validation_error'')
      else if \<not> enabled then Inr research_disabled
      else py_bind (py_sequence (map anonymize
             (list_research_investigations json_text domain since (nat limit) (nat offset) t)))
           (\<lambda>rs. Inr (Ok_Reply 200 rs)))"

definition text_filter :: "string option \<Rightarrow> string \<Rightarrow> bool" where
  "text_filter f v = (case f of Some (c # cs) \<Rightarrow> v = c # cs | _ \<Rightarrow> True)"

definition list_public_hazard_events ::
    "bool \<Rightarrow> string option \<Rightarrow> string option \<Rightarrow> int \<Rightarrow> int \<Rightarrow> 'g hazard_event list \<Rightarrow> ('g hazard_event list) route_reply" where
  "list_public_hazard_events enabled ty source limit offset evs =
     (if \<not> page_ok limit offset then Error_Reply 422 ''Validation Error'' ''validation_error''
      else if \<not> enabled then research_disabled
      else Ok_Reply 200 (take (nat limit) (drop (nat offset) (sort_key (\<lambda>e. - event_date e)
        (filter (\<lambda>e. text_filter ty (he_event_type e) \<and>
           (case source of Some (c # cs) \<Rightarrow> he_source e = Some (c # cs) | _ \<Rightarrow> True)) evs)))))"

section \<open>Dataset export\<close>

definition hazard_record :: "'g hazard_event \<Rightarrow> (string, json) dict" where
  "hazard_record e =
     [(''record_type'', JStr ''hazard_event''), (''id'', JStr (uuid_str (he_id e))), (''event_type'', JStr (he_event_type e)),
      (''region_label'', opt_json JStr (region_label e)), (''event_date'', JStr (isoformat (event_date e))),
      (''details'', opt_json JStr (he_details e)), (''source'', opt_json JStr (he_source e)),
      (''external_id'', opt_json JStr (external_id e))]"

record export =
  ex_records :: "(string, json) dict list"
  ex_checksum :: string
  record_count :: nat
  consenting_investigations_count :: nat
  hazard_events_count :: nat
  archive_filename :: string

text \<open>\<open>strftime("%Y%m%d_%H%M%S")\<close>.\<close>

definition stamp :: "int \<Rightarrow> string" where
  "stamp t = (case civil_of_days (t div 86400000000) of (y, m, d) \<Rightarrow>
     (let s = t mod 86400000000 div 1000000
      in int_str y @ padded 2 m @ padded 2 d @ ''_'' @ padded 2 (s div 3600) @ padded 2 (s div 60 mod 60) @ padded 2 (s mod 60)))"

datatype export_result = Export_Disabled | Export_No_Session | Exported export

text \<open>\<open>sha\<close> is the digest of the lines written, in order.\<close>

definition run_dataset_export ::
    "((string, json) dict list \<Rightarrow> string) \<Rightarrow> bool \<Rightarrow> bool \<Rightarrow> int \<Rightarrow> investigations \<Rightarrow> 'g hazard_event list \<Rightarrow>
     export_result py" where
  "run_dataset_export sha enabled session now t evs =
     (if \<not> enabled then Inr Export_Disabled
      else if \<not> session then Inr Export_No_Session
      else py_bind (py_sequence (map anonymize (filter (\<lambda>iv. inv_consent iv \<and> inv_status iv = ''complete'') t)))
        (\<lambda>anon.
          let invs = map (\<lambda>r. dict_set ''record_type'' (JStr ''investigation'') r) anon;
              haz = map hazard_record (take 1000 evs)
          in Inr (Exported \<lparr>ex_records = invs @ haz, ex_checksum = sha (invs @ haz),
               record_count = length invs + length haz, consenting_investigations_count = length invs,
               hazard_events_count = length haz,
               archive_filename = ''gaiaos_research_dataset_'' @ stamp now @ ''.jsonl.gz''\<rparr>)))"

section \<open>What research consumers see\<close>

text \<open>The keys of a value at any depth.\<close>

function json_keys :: "json \<Rightarrow> string set" where
  "json_keys (JObj kvs) = (\<Union>kv\<in>set kvs. insert (fst kv) (json_keys (snd kv)))"
| "json_keys (JArr xs) = (\<Union>x\<in>set xs. json_keys x)"
| "json_keys JNull = {}"
| "json_keys (JBool b) = {}"
| "json_keys (JInt i) = {}"
| "json_keys (JFloat x) = {}"
| "json_keys (JStr s) = {}"
  by pat_completeness auto
termination
proof (relation "measure size")
  fix kvs and kv :: "string \<times> json" assume "kv \<in> set kvs"
  then have "size (snd kv) < size (JObj kvs)" by (induction kvs) (auto split: prod.splits)
  then show "(snd kv, JObj kvs) \<in> measure size" by simp
next
  fix xs and x :: json assume "x \<in> set xs"
  then have "size x < size (JArr xs)" by (induction xs) auto
  then show "(x, JArr xs) \<in> measure size" by simp
qed simp

lemma sanitized_keys: "k \<in> json_keys (sanitize_execution_trace j) \<Longrightarrow> \<not> excluded_key k"
  by (induction j rule: sanitize_execution_trace.induct) (simp_all, fastforce+)

lemma sanitize_clean: "(\<forall>k\<in>json_keys j. \<not> excluded_key k) \<Longrightarrow> sanitize_execution_trace j = j"
proof (induction j rule: sanitize_execution_trace.induct)
  case (1 kvs)
  have "filter (\<lambda>kv. \<not> excluded_key (fst kv)) kvs = kvs" using 1(2) by (intro filter_True) auto
  moreover have "map (\<lambda>kv. (fst kv, sanitize_execution_trace (snd kv))) kvs = kvs"
    using 1 calculation by (intro map_idI) (auto simp: prod_eq_iff)
  ultimately show ?case by simp
next
  case (2 xs)
  then show ?case by (auto intro: map_idI)
qed simp_all

lemma sanitize_idem: "sanitize_execution_trace (sanitize_execution_trace j) = sanitize_execution_trace j"
  by (rule sanitize_clean) (auto dest: sanitized_keys)

text \<open>Two investigations that research consumers must not tell apart: all published columns agree, and so does
  the query when it is published and its category when it is not. The owner and the answer are free.\<close>

definition same_public :: "investigation \<Rightarrow> investigation \<Rightarrow> bool" where
  "same_public a b \<longleftrightarrow> inv_id a = inv_id b \<and> inv_consent a = inv_consent b \<and>
     inv_complexity_tier a = inv_complexity_tier b \<and> inv_created_at a = inv_created_at b \<and>
     inv_completed_at a = inv_completed_at b \<and> inv_confidence a = inv_confidence b \<and>
     sanitize_execution_trace (execution_trace a) = sanitize_execution_trace (execution_trace b) \<and>
     extract_domains_involved (execution_trace a) = extract_domains_involved (execution_trace b) \<and>
     derive_query_category (inv_query_text a) (inv_complexity_tier a) =
       derive_query_category (inv_query_text b) (inv_complexity_tier b) \<and>
     (inv_consent a \<longrightarrow> inv_query_text a = inv_query_text b)"

lemma anonymize_noninterference: "same_public a b \<Longrightarrow> anonymize a = anonymize b"
  by (auto simp: same_public_def anonymize_def)

lemma published_keys:
  "list_all (\<lambda>k. \<not> excluded_key k) [''investigation_id'', ''query_category'', ''domains_involved'', ''complexity_tier'',
     ''confidence_summary'', ''consent_public_research'', ''query_text'', ''execution_trace'', ''created_at'', ''completed_at'']"
  by code_simp

lemma confidence_json_keys: "confidence_json c = Inr j \<Longrightarrow> json_keys j = {}"
  by (auto simp: confidence_json_def split: confidence_value.splits option.splits)

lemma anonymize_keys:
  assumes "anonymize iv = Inr r"
  shows "\<forall>k\<in>json_keys (JObj r). \<not> excluded_key k"
proof -
  from assms obtain ds cj where r: "confidence_json (inv_confidence iv) = Inr cj"
    "r = [(''investigation_id'', JStr (uuid_str (inv_id iv))),
          (''query_category'', JStr (derive_query_category (inv_query_text iv) (inv_complexity_tier iv))),
          (''domains_involved'', JArr (map JStr ds)), (''complexity_tier'', opt_json JStr (inv_complexity_tier iv)),
          (''confidence_summary'', cj), (''consent_public_research'', JBool (inv_consent iv)),
          (''query_text'', if inv_consent iv then JStr (inv_query_text iv) else JNull),
          (''execution_trace'', sanitize_execution_trace (execution_trace iv)),
          (''created_at'', JStr (isoformat (inv_created_at iv))),
          (''completed_at'', opt_json (JStr \<circ> isoformat) (inv_completed_at iv))]"
    by (auto simp: anonymize_def py_bind_Inr_iff)
  have "json_keys (JObj r) \<subseteq> set [''investigation_id'', ''query_category'', ''domains_involved'', ''complexity_tier'',
      ''confidence_summary'', ''consent_public_research'', ''query_text'', ''execution_trace'', ''created_at'', ''completed_at'']
      \<union> json_keys (sanitize_execution_trace (execution_trace iv))"
    unfolding r(2) using confidence_json_keys [OF r(1)] by (auto simp: opt_json_def split: option.splits)
  then show ?thesis using published_keys sanitized_keys unfolding list_all_iff by blast
qed

lemma anonymize_query: "anonymize iv = Inr r \<Longrightarrow>
    dict_get r ''query_text'' = Some (if inv_consent iv then JStr (inv_query_text iv) else JNull)"
  by (auto simp: anonymize_def py_bind_Inr_iff)

lemma research_rows:
  "iv \<in> set (list_research_investigations jt domain since limit offset t) \<Longrightarrow> iv \<in> set t \<and> inv_status iv = ''complete''"
  by (auto simp: list_research_investigations_def newest_investigations_def dest!: in_set_takeD in_set_dropD)


definition sample_row :: "bool \<Rightarrow> investigation" where
  "sample_row consent = \<lparr>inv_id = 5, inv_user_id = Some 1, inv_query_text = ''Fire near my house?'', inv_answer = None,
     inv_consent = consent, inv_status = ''complete'', inv_complexity_tier = None, inv_created_at = 0,
     inv_completed_at = None, inv_confidence = Conf_None,
     execution_trace = JObj [(''steps'', JArr [JObj [(''Auth_Token'', JStr ''x''), (''n'', JInt 1)]])]\<rparr>"


text \<open>A finished run stores no list of domains under the keys the policy reads, so the listing shows none.\<close>

lemma completed_domains_empty: "extract_domains_involved (completion_trace r) = Inr []"
  by (simp add: extract_domains_involved_def completion_trace_def json_get_def json_or_def)

lemma domain_filter_ignores_trace: "trace_domains_text jt (completion_trace r) = None"
  by (simp add: trace_domains_text_def completion_trace_def)

text \<open>The export holds consenting investigations and hazard events only, and its counts are those of its records.\<close>

lemma export_contents:
  assumes "run_dataset_export sha enabled session now t evs = Inr (Exported ex)"
  shows "record_count ex = length (ex_records ex) \<and>
    record_count ex = consenting_investigations_count ex + hazard_events_count ex \<and>
    consenting_investigations_count ex = length (filter (\<lambda>iv. inv_consent iv \<and> inv_status iv = ''complete'') t) \<and>
    hazard_events_count ex = min 1000 (length evs) \<and> ex_checksum ex = sha (ex_records ex)"
  using assms
  by (auto simp: run_dataset_export_def Let_def py_bind_Inr_iff py_sequence_Inr_iff split: if_splits
      dest!: arg_cong [where f = length])

section \<open>Who may read an investigation\<close>

definition may_read :: "user \<Rightarrow> investigation \<Rightarrow> bool" where
  "may_read u iv \<longleftrightarrow> role u = role_admin \<or> inv_user_id iv = Some (usr_id u)"

lemma repo_get_find:
  "distinct (map inv_id t) \<Longrightarrow> repo_get_investigation i t = Inr (find (\<lambda>iv. inv_id iv = i) t)"
proof (induction t)
  case (Cons iv t)
  show ?case
  proof (cases "inv_id iv = i")
    case True
    then have "filter (\<lambda>iv. inv_id iv = i) t = []" using Cons.prems by (force simp: filter_empty_conv image_iff)
    with True show ?thesis by (simp add: repo_get_investigation_def scalar_one_or_none_def)
  next
    case False
    then show ?thesis using Cons by (simp add: repo_get_investigation_def)
  qed
qed (simp add: repo_get_investigation_def scalar_one_or_none_def)

lemma find_row: "distinct (map inv_id t) \<Longrightarrow> iv \<in> set t \<Longrightarrow> find (\<lambda>x. inv_id x = inv_id iv) t = Some iv"
  by (induction t) (auto simp: image_iff)

lemma readable_user:
  assumes "distinct (map inv_id t)"
  shows "readable_investigation i (Some u) t = (case find (\<lambda>iv. inv_id iv = i) t of
     None \<Rightarrow> Inr None
   | Some iv \<Rightarrow> if may_read u iv then Inr (Some iv)
       else Inl (HTTP_Exception 403 ''You do not have permission to access this resource.''))"
  by (auto simp: readable_investigation_def repo_get_find [OF assms] check_owner_or_role_def may_read_def
      split: option.splits)

text \<open>Changes of the table: rows are created and their status is updated.\<close>

inductive inv_step :: "investigations \<Rightarrow> investigations \<Rightarrow> bool" where
  created: "inv_step t (fst (repo_create_investigation i now q u c t))"
| updated: "inv_step t (fst (update_investigation_status numeric now i status tier answer conf trace t))"

text \<open>Identifiers stay distinct, and a row keeps its owner.\<close>

definition owned :: "uuid \<Rightarrow> uuid option \<Rightarrow> investigations \<Rightarrow> bool" where
  "owned i ow t \<longleftrightarrow> distinct (map inv_id t) \<and> (\<exists>iv\<in>set t. inv_id iv = i \<and> inv_user_id iv = ow)"

lemma set_status_id [simp]:
  "inv_id (set_status numeric now status tier answer conf trace iv) = inv_id iv"
  "inv_user_id (set_status numeric now status tier answer conf trace iv) = inv_user_id iv"
  by (simp_all add: set_status_def)

lemma update_table:
  assumes "distinct (map inv_id t)"
  shows "fst (update_investigation_status numeric now i status tier answer conf trace t) =
    map (\<lambda>x. if inv_id x = i then set_status numeric now status tier answer conf trace x else x) t"
proof (cases "find (\<lambda>iv. inv_id iv = i) t")
  case None
  then have "\<forall>x\<in>set t. inv_id x \<noteq> i" by (simp add: find_None_iff)
  then show ?thesis
    using None by (simp add: update_investigation_status_def repo_get_find [OF assms] map_idI)
next
  case (Some iv)
  then have iv: "iv \<in> set t" "inv_id iv = i" by (auto simp: find_Some_iff)
  then have "\<forall>x\<in>set t. inv_id x = i \<longrightarrow> x = iv" using assms by (auto simp: distinct_map inj_on_def)
  then show ?thesis
    using Some by (auto simp: update_investigation_status_def repo_get_find [OF assms] Let_def)
qed

lemma owned_step:
  assumes "owned i ow t" "inv_step t t'"
  shows "owned i ow t'"
  using assms(2,1)
proof cases
  case (created j now q u c)
  then show ?thesis using assms(1) by (auto simp: owned_def repo_create_investigation_def create_row_def Let_def)
next
  case (updated numeric now j status tier answer conf trace)
  have d: "distinct (map inv_id t)" using assms(1) by (simp add: owned_def)
  have "map inv_id t' = map inv_id t" unfolding updated update_table [OF d] by simp
  moreover obtain iv where iv: "iv \<in> set t" "inv_id iv = i" "inv_user_id iv = ow" using assms(1) by (auto simp: owned_def)
  moreover define iv' where "iv' = (if inv_id iv = j then set_status numeric now status tier answer conf trace iv else iv)"
  then have "iv' \<in> set t'" "inv_id iv' = i" "inv_user_id iv' = ow"
    using iv unfolding updated update_table [OF d] by auto
  ultimately show ?thesis using d unfolding owned_def by auto
qed

interpretation ownership: invariant_system inv_step "owned i ow"
  by unfold_locales (rule owned_step)

lemma owned_readable:
  assumes "owned i (Some o') t"
  shows "\<exists>iv. inv_id iv = i \<and> inv_user_id iv = Some o' \<and> (\<forall>v. readable_investigation i (Some v) t =
     (if role v = role_admin \<or> usr_id v = o' then Inr (Some iv)
      else Inl (HTTP_Exception 403 ''You do not have permission to access this resource.'')))"
proof -
  obtain iv where iv: "iv \<in> set t" "inv_id iv = i" "inv_user_id iv = Some o'" and d: "distinct (map inv_id t)"
    using assms by (auto simp: owned_def)
  then have f: "find (\<lambda>iv. inv_id iv = i) t = Some iv" using find_row by blast
  have "readable_investigation i (Some v) t = (if role v = role_admin \<or> usr_id v = o' then Inr (Some iv)
      else Inl (HTTP_Exception 403 ''You do not have permission to access this resource.''))" for v
    unfolding readable_user [OF d] f using iv(3) by (auto simp: may_read_def)
  then show ?thesis using iv(2,3) by blast
qed


definition queued :: run_settings where
  "queued = \<lparr>use_queued_execution = True, job_timeout_seconds = 300, job_max_retries = 2\<rparr>"

definition ann_request :: create_request where
  "ann_request = \<lparr>rq_query = ''Is it safe?'', rq_consent = False\<rparr>"


text \<open>A request without a user skips the guard: anyone may read any investigation by its identifier.\<close>

lemma anonymous_reads_everything:
  assumes "distinct (map inv_id t)" "iv \<in> set t"
  shows "get_investigation (inv_id iv) None t = Inr (Ok_Reply 200 iv)"
  by (simp add: get_investigation_def readable_investigation_def repo_get_find [OF assms(1)] find_row [OF assms])

section \<open>Failed jobs\<close>

text \<open>A job that raises is recorded once: while retries are left the row stays as the run left it, on the
  last attempt it becomes failed with the error in its trace; the exception always reaches the queue.\<close>

lemma job_failure_recorded:
  assumes "job_query True i query t = Inr q" "graph q t = (t1, Inl e)" "distinct (map inv_id t1)"
  shows "run_investigation_job numeric now True (Some (Some n)) i query graph t =
    (if n \<le> 0 then map (\<lambda>x. if inv_id x = i then set_status numeric now ''failed'' None None None
         (Some (JObj [(''error'', JStr (exc_str e)), (''error_code'', JStr ''job_retries_exhausted'')])) x else x) t1
     else t1,
     [Job_Started i, Job_Failed i (if n \<le> 0 then ''job_retries_exhausted'' else ''job_attempt_failed'') (exc_str e)
        (max 1 (3 - n))], Inl e)"
proof -
  let ?u = "update_investigation_status numeric now i ''failed'' None None None
    (Some (JObj [(''error'', JStr (exc_str e)), (''error_code'', JStr ''job_retries_exhausted'')])) t1"
  have "fst ?u = map (\<lambda>x. if inv_id x = i then set_status numeric now ''failed'' None None None
      (Some (JObj [(''error'', JStr (exc_str e)), (''error_code'', JStr ''job_retries_exhausted'')])) x else x) t1"
    by (rule update_table [OF assms(3)])
  moreover have "\<exists>r. snd ?u = Inr r"
    by (auto simp: update_investigation_status_def repo_get_find [OF assms(3)] Let_def split: option.splits)
  ultimately show ?thesis using assms(1,2)
    by (auto simp: run_investigation_job_def Let_def split: prod.splits)
qed

end
