(* ===== verification/Checkpoint.thy ===== *)
theory Checkpoint
  imports Events Python_Text "HOL-Library.List_Lexorder" "HOL-Library.Char_ord"
begin

text \<open>
  The Redis checkpointer of the graph runs (\<open>orchestrator/graph/checkpointer.py\<close>). LangGraph's serializer
  is a parameter, bytes are texts. Redis is a dictionary from keys to values with an optional expiry, in
  microseconds; a scan lists the live keys that match a pattern, here in the order of the dictionary
  (Redis leaves the order open). Thread, checkpoint and task identifiers are texts.
\<close>

section \<open>Values\<close>

text \<open>Python values as far as the normalisation tells them apart; \<open>PMap\<close> is a mapping that is no
  dictionary (a \<open>ChainMap\<close>), \<open>PClass\<close> a class object.\<close>

datatype dkey = Str_Key string | Int_Key int

datatype pv =
    PNone
  | PBool bool
  | PInt int
  | PFloat flt
  | PStr string
  | PList "pv list"
  | PSet "pv list"
  | PTuple "pv list"
  | PDict "(dkey \<times> pv) list"
  | PMap "(dkey \<times> pv) list"
  | PCallable string
  | PClass string

definition key_str :: "dkey \<Rightarrow> string" where
  "key_str k = (case k of Str_Key s \<Rightarrow> s | Int_Key i \<Rightarrow> int_str i)"

text \<open>\<open>_is_unpicklable_callable\<close>: a class is callable too, but not stripped.\<close>

definition is_unpicklable_callable :: "pv \<Rightarrow> bool" where
  "is_unpicklable_callable v = (case v of PCallable _ \<Rightarrow> True | _ \<Rightarrow> False)"

definition kept_entry :: "dkey \<times> pv \<Rightarrow> bool" where
  "kept_entry kv \<longleftrightarrow> fst kv \<noteq> Str_Key ''stream_writer'' \<and> \<not> is_unpicklable_callable (snd kv)"

text \<open>A dictionary built in order: a later entry replaces an earlier one of the same key.\<close>

definition mk_dict :: "(string \<times> pv) list \<Rightarrow> pv" where
  "mk_dict kvs = PDict (fold (\<lambda>(k, v) d. dict_set (Str_Key k) v d) kvs [])"

lemma pv_size_entry: "kv \<in> set kvs \<Longrightarrow> size (snd kv) < Suc (size_list (size_prod (\<lambda>_. 0) size) kvs)"
  by (induction kvs) auto

lemma pv_size_item: "v \<in> set vs \<Longrightarrow> size v < Suc (size_list size (vs :: pv list))"
  by (induction vs) auto

function normalize_serializable :: "pv \<Rightarrow> pv" where
  "normalize_serializable (PCallable f) = PNone"
| "normalize_serializable (PMap kvs) =
     mk_dict (map (\<lambda>kv. (key_str (fst kv), normalize_serializable (snd kv))) (filter kept_entry kvs))"
| "normalize_serializable (PDict kvs) =
     mk_dict (map (\<lambda>kv. (key_str (fst kv), normalize_serializable (snd kv))) (filter kept_entry kvs))"
| "normalize_serializable (PTuple vs) =
     PTuple (map normalize_serializable (filter (\<lambda>v. \<not> is_unpicklable_callable v) vs))"
| "normalize_serializable (PList vs) =
     PList (map normalize_serializable (filter (\<lambda>v. \<not> is_unpicklable_callable v) vs))"
| "normalize_serializable (PSet vs) =
     PList (map normalize_serializable (filter (\<lambda>v. \<not> is_unpicklable_callable v) vs))"
| "normalize_serializable PNone = PNone"
| "normalize_serializable (PBool b) = PBool b"
| "normalize_serializable (PInt i) = PInt i"
| "normalize_serializable (PFloat x) = PFloat x"
| "normalize_serializable (PStr s) = PStr s"
| "normalize_serializable (PClass c) = PClass c"
  by pat_completeness auto
termination
  by (relation "measure size") (auto dest: pv_size_entry pv_size_item)

section \<open>Serializer\<close>

record serde =
  super_dumps_typed :: "pv \<Rightarrow> (string \<times> string) py"
  json_default_str :: "pv \<Rightarrow> string"
  loads_typed :: "string \<times> string \<Rightarrow> pv py"

definition dumps_typed :: "serde \<Rightarrow> pv \<Rightarrow> string \<times> string" where
  "dumps_typed S v =
     (let w = normalize_serializable v
      in case super_dumps_typed S w of Inr r \<Rightarrow> r | Inl _ \<Rightarrow> (''json'', json_default_str S w))"

definition serde_dumps :: "serde \<Rightarrow> pv \<Rightarrow> string" where
  "serde_dumps S v = (case dumps_typed S v of (ty, d) \<Rightarrow> ty @ '':'' @ d)"

definition colon :: char where
  "colon = CHR '':''"

text \<open>\<open>data.partition(b":")\<close>.\<close>

definition serde_loads :: "serde \<Rightarrow> string \<Rightarrow> pv py" where
  "serde_loads S d =
     (if colon \<in> set d
      then loads_typed S (takeWhile (\<lambda>c. c \<noteq> colon) d, drop 1 (dropWhile (\<lambda>c. c \<noteq> colon) d))
      else loads_typed S (''msgpack'', d))"

section \<open>Redis\<close>

type_synonym ck_store = "(string, string \<times> int option) dict"

definition live :: "int \<Rightarrow> string \<times> int option \<Rightarrow> bool" where
  "live now e = (case snd e of None \<Rightarrow> True | Some t \<Rightarrow> now < t)"

definition redis_get :: "int \<Rightarrow> string \<Rightarrow> ck_store \<Rightarrow> string option" where
  "redis_get now k d = (case dict_get d k of None \<Rightarrow> None | Some e \<Rightarrow> if live now e then Some (fst e) else None)"

text \<open>\<open>set(key, value, ex=ttl)\<close>, or without expiry when the ttl is missing or not positive.\<close>

definition redis_set :: "int \<Rightarrow> int option \<Rightarrow> string \<Rightarrow> string \<Rightarrow> ck_store \<Rightarrow> ck_store" where
  "redis_set now ttl k v d =
     dict_set k (v, case ttl of Some s \<Rightarrow> if 0 < s then Some (now + s * 1000000) else None | None \<Rightarrow> None) d"

text \<open>Glob patterns of Redis: star, question mark, bracket classes, backslash.\<close>

fun class_match :: "string \<Rightarrow> char \<Rightarrow> bool \<times> string" where
  "class_match [] c = (False, [])"
| "class_match (p # ps) c =
     (if char_code p = 92 then (case ps of [] \<Rightarrow> (p = c, []) | q # qs \<Rightarrow>
         (case class_match qs c of (m, r) \<Rightarrow> (q = c \<or> m, r)))
      else if p = CHR '']'' then (False, ps)
      else (case ps of
          d # q # qs \<Rightarrow>
            (if d = CHR ''-'' then
               (case class_match qs c of (m, r) \<Rightarrow>
                  (min (char_code p) (char_code q) \<le> char_code c \<and> char_code c \<le> max (char_code p) (char_code q) \<or> m, r))
             else (case class_match ps c of (m, r) \<Rightarrow> (p = c \<or> m, r)))
        | _ \<Rightarrow> (case class_match ps c of (m, r) \<Rightarrow> (p = c \<or> m, r))))"

lemma class_match_length: "length (snd (class_match ps c)) \<le> length ps"
proof (induction "length ps" arbitrary: ps rule: less_induct)
  case less
  have IH: "length (snd (class_match rs c)) \<le> length rs" if "length rs < length ps" for rs
    using less that by blast
  show ?case
  proof (cases ps)
    case (Cons p qs)
    consider "qs = []" | q where "qs = [q]" | d q rs where "qs = d # q # rs" by (metis neq_Nil_conv)
    then show ?thesis
    proof cases
      case 1
      then show ?thesis using Cons by simp
    next
      case (2 q)
      then show ?thesis using Cons IH [of "[q]"] by (auto split: prod.splits)
    next
      case (3 d q rs)
      then show ?thesis
        using Cons IH [of rs] IH [of "q # rs"] IH [of "d # q # rs"]
        by (auto simp del: class_match.simps simp: class_match.simps(2) [of p] split: prod.splits)
    qed
  qed simp
qed

function glob :: "string \<Rightarrow> string \<Rightarrow> bool" where
  "glob [] s = (s = [])"
| "glob (p # ps) s =
     (if p = CHR ''*'' then glob ps s \<or> (case s of [] \<Rightarrow> False | c # cs \<Rightarrow> glob (p # ps) cs)
      else (case s of [] \<Rightarrow> False | c # cs \<Rightarrow>
        (if p = CHR ''?'' then glob ps cs
         else if p = CHR ''['' then
           (let neg = starts_with ps ''^''; (m, r) = class_match (if neg then drop 1 ps else ps) c
            in m \<noteq> neg \<and> glob r cs)
         else if char_code p = 92 \<and> ps \<noteq> [] then hd ps = c \<and> glob (tl ps) cs
         else p = c \<and> glob ps cs)))"
  by pat_completeness auto
termination
proof (relation "measure (\<lambda>(p, s). length p + length s)", goal_cases)
  case (5 p ps s c cs neg x m r)
  have "length r \<le> length (if neg then drop 1 ps else ps)"
    using class_match_length [of "if neg then drop 1 ps else ps" c] 5 by (metis snd_conv)
  then show ?case using 5 by (auto split: if_splits)
qed auto

definition scan_iter :: "int \<Rightarrow> string \<Rightarrow> ck_store \<Rightarrow> string list" where
  "scan_iter now pattern d = map fst (filter (\<lambda>(k, e). live now e \<and> glob pattern k) d)"

section \<open>Checkpoints\<close>

definition pv_get :: "pv \<Rightarrow> string \<Rightarrow> pv option py" where
  "pv_get v k = (case v of PDict kvs \<Rightarrow> Inr (dict_get kvs (Str_Key k)) | _ \<Rightarrow> Inl (Other_Error ''AttributeError''))"

definition pv_index :: "pv \<Rightarrow> string \<Rightarrow> pv py" where
  "pv_index v k = (case v of
       PDict kvs \<Rightarrow> (case dict_get kvs (Str_Key k) of None \<Rightarrow> Inl (Key_Error k) | Some x \<Rightarrow> Inr x)
     | _ \<Rightarrow> Inl (Type_Error ''indices''))"

text \<open>\<open>config.get("configurable", {}).get(k)\<close>, with an empty text counted as missing.\<close>

definition configurable :: "pv \<Rightarrow> string \<Rightarrow> string option" where
  "configurable cfg k =
     (case pv_get cfg ''configurable'' of
        Inr (Some c) \<Rightarrow> (case pv_get c k of Inr (Some (PStr (x # xs))) \<Rightarrow> Some (x # xs) | _ \<Rightarrow> None)
      | _ \<Rightarrow> None)"

definition run_config :: "string \<Rightarrow> string \<Rightarrow> pv" where
  "run_config tid cid = PDict [(Str_Key ''configurable'',
     PDict [(Str_Key ''thread_id'', PStr tid), (Str_Key ''checkpoint_id'', PStr cid)])]"

record checkpoint_tuple =
  ct_config :: pv
  ct_checkpoint :: pv
  ct_metadata :: pv
  ct_parent_config :: pv
  pending_writes :: "(string \<times> pv \<times> pv) list"

definition thread_prefix :: "string \<Rightarrow> string" where
  "thread_prefix tid = ''gaiaos:checkpoint:'' @ tid @ '':''"

definition checkpoint_entry :: "string \<Rightarrow> string \<Rightarrow> string" where
  "checkpoint_entry tid cid = thread_prefix tid @ ''checkpoint:'' @ cid"

definition latest_entry :: "string \<Rightarrow> string" where
  "latest_entry tid = thread_prefix tid @ ''latest''"

definition writes_prefix :: "string \<Rightarrow> string \<Rightarrow> string" where
  "writes_prefix tid cid = thread_prefix tid @ ''writes:'' @ cid @ '':''"

definition pv_items :: "pv \<Rightarrow> pv list py" where
  "pv_items v = (case v of PList xs \<Rightarrow> Inr xs | PTuple xs \<Rightarrow> Inr xs | PSet xs \<Rightarrow> Inr xs | _ \<Rightarrow> Inl (Type_Error ''not iterable''))"

definition pv_pair :: "pv \<Rightarrow> (pv \<times> pv) py" where
  "pv_pair v = py_bind (pv_items v) (\<lambda>xs. case xs of [a, b] \<Rightarrow> Inr (a, b) | _ \<Rightarrow> Inl (Value_Error ''unpack''))"

text \<open>The writes stored under one key, each with the task that the key names.\<close>

definition writes_of_key :: "serde \<Rightarrow> int \<Rightarrow> ck_store \<Rightarrow> string \<Rightarrow> (string \<times> pv \<times> pv) list py" where
  "writes_of_key S now d k =
     (case redis_get now k d of
        Some (c # cs) \<Rightarrow>
          py_bind (serde_loads S (c # cs)) (\<lambda>v. py_bind (pv_items v) (\<lambda>ps. py_bind (py_sequence (map pv_pair ps)) (\<lambda>cvs.
            Inr (map (\<lambda>(ch, x). (last (str_split_char colon k), ch, x)) cvs))))
      | _ \<Rightarrow> Inr [])"

definition fetch_writes :: "serde \<Rightarrow> int \<Rightarrow> string \<Rightarrow> string \<Rightarrow> ck_store \<Rightarrow> (string \<times> pv \<times> pv) list py" where
  "fetch_writes S now tid cid d =
     py_bind (py_sequence (map (writes_of_key S now d) (scan_iter now (writes_prefix tid cid @ ''*'') d))) (\<lambda>wss. Inr (concat wss))"

text \<open>A stored checkpoint with its metadata, its parent configuration and the writes.\<close>

definition read_checkpoint :: "serde \<Rightarrow> string \<Rightarrow> (pv \<times> pv \<times> pv) py" where
  "read_checkpoint S text =
     py_bind (serde_loads S text) (\<lambda>v. py_bind (pv_index v ''checkpoint'') (\<lambda>c. py_bind (pv_index v ''metadata'') (\<lambda>m.
       py_bind (pv_get v ''parent_config'') (\<lambda>p. Inr (c, m, case p of None \<Rightarrow> PNone | Some q \<Rightarrow> q)))))"

definition aget_tuple :: "serde \<Rightarrow> int \<Rightarrow> pv \<Rightarrow> ck_store \<Rightarrow> checkpoint_tuple option py" where
  "aget_tuple S now cfg d =
     (case configurable cfg ''thread_id'' of
        None \<Rightarrow> Inr None
      | Some tid \<Rightarrow>
          (case (case configurable cfg ''checkpoint_id'' of
                   Some cid \<Rightarrow> Some cid
                 | None \<Rightarrow> (case redis_get now (latest_entry tid) d of Some (c # cs) \<Rightarrow> Some (c # cs) | _ \<Rightarrow> None)) of
             None \<Rightarrow> Inr None
           | Some cid \<Rightarrow>
               (case redis_get now (checkpoint_entry tid cid) d of
                  Some (x # xs) \<Rightarrow>
                    py_bind (read_checkpoint S (x # xs)) (\<lambda>(c, m, p). py_bind (fetch_writes S now tid cid d) (\<lambda>ws.
                      Inr (Some \<lparr>ct_config = cfg, ct_checkpoint = c, ct_metadata = m, ct_parent_config = p,
                                 pending_writes = ws\<rparr>)))
                | _ \<Rightarrow> Inr None)))"

definition checkpoint_data :: "pv \<Rightarrow> pv \<Rightarrow> pv \<Rightarrow> pv" where
  "checkpoint_data cfg checkpoint metadata =
     PDict [(Str_Key ''checkpoint'', normalize_serializable checkpoint),
            (Str_Key ''metadata'', normalize_serializable metadata),
            (Str_Key ''parent_config'', normalize_serializable cfg)]"

definition aput :: "serde \<Rightarrow> int option \<Rightarrow> int \<Rightarrow> pv \<Rightarrow> pv \<Rightarrow> pv \<Rightarrow> ck_store \<Rightarrow> ck_store \<times> pv py" where
  "aput S ttl now cfg checkpoint metadata d =
     (case py_bind (pv_index checkpoint ''id'') (\<lambda>i. case i of PStr cid \<Rightarrow> Inr cid | _ \<Rightarrow> Inl (Other_Error ''DataError'')) of
        Inl e \<Rightarrow> (d, Inl e)
      | Inr cid \<Rightarrow>
          (case configurable cfg ''thread_id'' of
             None \<Rightarrow> (d, Inl (Value_Error ''thread_id is required in config.configurable.''))
           | Some tid \<Rightarrow>
               (redis_set now ttl (latest_entry tid) cid
                  (redis_set now ttl (checkpoint_entry tid cid) (serde_dumps S (checkpoint_data cfg checkpoint metadata)) d),
                Inr (run_config tid cid))))"

text \<open>\<open>callable\<close> holds of functions and of classes.\<close>

definition is_callable :: "pv \<Rightarrow> bool" where
  "is_callable v = (case v of PCallable _ \<Rightarrow> True | PClass _ \<Rightarrow> True | _ \<Rightarrow> False)"

definition writes_value :: "(string \<times> pv) list \<Rightarrow> pv" where
  "writes_value ws = PList (map (\<lambda>(ch, v). PTuple [PStr ch, v])
     (filter (\<lambda>(ch, v). ch \<noteq> ''stream_writer'' \<and> \<not> is_callable v) ws))"

definition aput_writes ::
    "serde \<Rightarrow> int option \<Rightarrow> int \<Rightarrow> pv \<Rightarrow> (string \<times> pv) list \<Rightarrow> string \<Rightarrow> ck_store \<Rightarrow> ck_store \<times> unit py" where
  "aput_writes S ttl now cfg ws task d =
     (case (configurable cfg ''thread_id'', configurable cfg ''checkpoint_id'') of
        (Some tid, Some cid) \<Rightarrow>
          (redis_set now ttl (writes_prefix tid cid @ task) (serde_dumps S (normalize_serializable (writes_value ws))) d, Inr ())
      | _ \<Rightarrow> (d, Inl (Value_Error ''thread_id and checkpoint_id are required for aput_writes.'')))"

text \<open>\<open>alist\<close>: the tuples of a thread, newest first by their time stamp (equal stamps keep the order of the
  scan), from the one after \<open>before\<close> on, at most \<open>limit\<close> of them when it is given and not zero.\<close>

definition tuple_of_key :: "serde \<Rightarrow> int \<Rightarrow> string \<Rightarrow> ck_store \<Rightarrow> string \<Rightarrow> checkpoint_tuple list py" where
  "tuple_of_key S now tid d k =
     (case redis_get now k d of
        Some (x # xs) \<Rightarrow>
          py_bind (read_checkpoint S (x # xs)) (\<lambda>(c, m, p). py_bind (pv_index c ''id'') (\<lambda>i.
            case i of
              PStr cid \<Rightarrow> py_bind (fetch_writes S now tid cid d) (\<lambda>ws.
                Inr [\<lparr>ct_config = run_config tid cid, ct_checkpoint = c, ct_metadata = m, ct_parent_config = p,
                      pending_writes = ws\<rparr>])
            | _ \<Rightarrow> Inl (Other_Error ''unsupported identifier'')))
      | _ \<Rightarrow> Inr [])"

definition stamp_of :: "checkpoint_tuple \<Rightarrow> string" where
  "stamp_of t = (case pv_get (ct_checkpoint t) ''ts'' of Inr (Some (PStr s)) \<Rightarrow> s | _ \<Rightarrow> [])"

definition newest_checkpoints :: "checkpoint_tuple list \<Rightarrow> checkpoint_tuple list" where
  "newest_checkpoints ts = rev (sort_key stamp_of (rev ts))"

fun after_before :: "string option \<Rightarrow> checkpoint_tuple list \<Rightarrow> checkpoint_tuple list" where
  "after_before None ts = ts"
| "after_before (Some cid) [] = []"
| "after_before (Some cid) (t # ts) =
     (if configurable (ct_config t) ''checkpoint_id'' = Some cid then ts else after_before (Some cid) ts)"

definition take_limit :: "nat option \<Rightarrow> 'a list \<Rightarrow> 'a list" where
  "take_limit limit ts = (case limit of None \<Rightarrow> ts | Some 0 \<Rightarrow> ts | Some n \<Rightarrow> take n ts)"

definition alist :: "serde \<Rightarrow> int \<Rightarrow> pv option \<Rightarrow> pv option \<Rightarrow> nat option \<Rightarrow> ck_store \<Rightarrow> checkpoint_tuple list py" where
  "alist S now config before limit d =
     (case config of
        None \<Rightarrow> Inr []
      | Some cfg \<Rightarrow>
          (case configurable cfg ''thread_id'' of
             None \<Rightarrow> Inr []
           | Some tid \<Rightarrow>
               py_bind (py_sequence (map (tuple_of_key S now tid d) (scan_iter now (thread_prefix tid @ ''checkpoint:*'') d)))
                 (\<lambda>tss. Inr (take_limit limit (after_before
                    (case before of None \<Rightarrow> None | Some b \<Rightarrow> configurable b ''checkpoint_id'') (newest_checkpoints (concat tss)))))))"

section \<open>Normal values\<close>

text \<open>What survives normalisation: no functions, no sets or other mappings, text keys, each once.\<close>

function normal :: "pv \<Rightarrow> bool" where
  "normal (PDict kvs) \<longleftrightarrow> distinct (map fst kvs) \<and>
     (\<forall>kv\<in>set kvs. (\<exists>s. fst kv = Str_Key s \<and> s \<noteq> ''stream_writer'') \<and> normal (snd kv))"
| "normal (PList vs) \<longleftrightarrow> (\<forall>v\<in>set vs. normal v)"
| "normal (PTuple vs) \<longleftrightarrow> (\<forall>v\<in>set vs. normal v)"
| "normal (PSet vs) \<longleftrightarrow> False"
| "normal (PMap kvs) \<longleftrightarrow> False"
| "normal (PCallable f) \<longleftrightarrow> False"
| "normal PNone \<longleftrightarrow> True"
| "normal (PBool b) \<longleftrightarrow> True"
| "normal (PInt i) \<longleftrightarrow> True"
| "normal (PFloat x) \<longleftrightarrow> True"
| "normal (PStr s) \<longleftrightarrow> True"
| "normal (PClass c) \<longleftrightarrow> True"
  by pat_completeness auto
termination
  by (relation "measure size") (auto dest: pv_size_entry pv_size_item)

lemma update_fresh: "k \<notin> fst ` set d \<Longrightarrow> dict_set k v d = d @ [(k, v)]"
  by (induction d) auto

lemma set_update_sub: "set (dict_set k v d) \<subseteq> insert (k, v) (set d)"
  by (induction d) auto

lemma mk_dict_normal:
  assumes "\<forall>kv\<in>set kvs. fst kv \<noteq> ''stream_writer'' \<and> normal (snd kv)"
  shows "normal (mk_dict kvs)"
proof -
  have "normal (PDict (fold (\<lambda>(k, v) d. dict_set (Str_Key k) v d) kvs d))" if "normal (PDict d)" for d
    using assms that
  proof (induction kvs arbitrary: d)
    case (Cons kv kvs)
    obtain k v where kv: "kv = (k, v)" by force
    have "distinct (map fst (dict_set (Str_Key k) v d))" using Cons.prems(2) by (simp add: distinct_update)
    moreover have "(\<exists>s. fst e = Str_Key s \<and> s \<noteq> ''stream_writer'') \<and> normal (snd e)"
      if "e \<in> set (dict_set (Str_Key k) v d)" for e
    proof (cases "e = (Str_Key k, v)")
      case True
      then show ?thesis using Cons.prems(1) kv by auto
    next
      case False
      then have "e \<in> set d" using that set_update_sub [of "Str_Key k" v d] by blast
      then show ?thesis using Cons.prems(2) by simp
    qed
    ultimately have "normal (PDict (dict_set (Str_Key k) v d))" by simp
    from Cons.IH [OF _ this] Cons.prems(1) show ?case by (simp add: kv del: normal.simps)
  qed simp
  from this [of "[]"] show ?thesis by (simp add: mk_dict_def del: normal.simps) simp
qed

lemma int_str_not_writer: "int_str i \<noteq> ''stream_writer''"
proof (cases "i < 0")
  case False
  have "dec_value (CHR ''s'') = None" by code_simp
  with False have "CHR ''s'' \<notin> set (int_str i)" using pos_digits_chars [of i "CHR ''s''"] by (auto simp: int_str_def)
  then show ?thesis by auto
qed (simp add: int_str_def)

lemma normal_normalize: "normal (normalize_serializable v)"
proof (induction v rule: normalize_serializable.induct)
  case (2 kvs)
  then show ?case by (auto intro!: mk_dict_normal simp: kept_entry_def key_str_def int_str_not_writer int_str_not_writer [symmetric] split: dkey.splits)
next
  case (3 kvs)
  then show ?case by (auto intro!: mk_dict_normal simp: kept_entry_def key_str_def int_str_not_writer int_str_not_writer [symmetric] split: dkey.splits)
qed auto

lemma mk_dict_id:
  assumes "distinct (map fst kvs)" "\<forall>kv\<in>set kvs. \<exists>s. fst kv = Str_Key s"
  shows "mk_dict (map (\<lambda>kv. (key_str (fst kv), snd kv)) kvs) = PDict kvs"
proof -
  have "fold (\<lambda>(k, v) d. dict_set (Str_Key k) v d) (map (\<lambda>kv. (key_str (fst kv), snd kv)) kvs) d = d @ kvs"
    if "fst ` set d \<inter> fst ` set kvs = {}" for d
    using assms that
  proof (induction kvs arbitrary: d)
    case (Cons kv kvs)
    obtain s v where kv: "kv = (Str_Key s, v)" using Cons.prems(2) by (cases kv) auto
    have "dict_set (Str_Key s) v d = d @ [kv]" using Cons.prems(3) kv by (simp add: update_fresh)
    moreover have "fst ` set (d @ [kv]) \<inter> fst ` set kvs = {}" using Cons.prems kv by auto
    ultimately show ?case using Cons kv by (simp add: key_str_def)
  qed simp
  from this [of "[]"] show ?thesis by (simp add: mk_dict_def)
qed

lemma normal_not_callable: "normal v \<Longrightarrow> \<not> is_unpicklable_callable v"
  by (cases v) (simp_all add: is_unpicklable_callable_def)

lemma normal_filter: "\<forall>v\<in>set vs. normal v \<Longrightarrow> filter (\<lambda>v. \<not> is_unpicklable_callable v) vs = vs"
  by (intro filter_True) (simp add: normal_not_callable)

lemma normalize_normal: "normal v \<Longrightarrow> normalize_serializable v = v"
proof (induction v rule: normal.induct)
  case (1 kvs)
  have "filter kept_entry kvs = kvs"
    using 1(2) by (intro filter_True ballI) (auto simp: kept_entry_def dest: normal_not_callable)
  moreover have "map (\<lambda>kv. (key_str (fst kv), normalize_serializable (snd kv))) kvs = map (\<lambda>kv. (key_str (fst kv), snd kv)) kvs"
    using 1 by (intro map_cong) auto
  moreover have "mk_dict (map (\<lambda>kv. (key_str (fst kv), snd kv)) kvs) = PDict kvs"
    by (rule mk_dict_id) (use 1(2) in auto)
  ultimately show ?case by (simp only: normalize_serializable.simps)
next
  case (2 vs)
  then show ?case by (simp add: normal_filter map_idI)
next
  case (3 vs)
  then show ?case by (simp add: normal_filter map_idI)
qed simp_all

lemma normalize_idem [simp]: "normalize_serializable (normalize_serializable v) = normalize_serializable v"
  by (rule normalize_normal [OF normal_normalize])

lemma checkpoint_data_normal: "normal (checkpoint_data cfg c m)"
  by (simp add: checkpoint_data_def normal_normalize)

section \<open>Keys\<close>

definition literal :: "char \<Rightarrow> bool" where
  "literal c \<longleftrightarrow> c \<noteq> CHR ''*'' \<and> c \<noteq> CHR ''?'' \<and> c \<noteq> CHR ''['' \<and> char_code c \<noteq> 92"

text \<open>Identifiers without colons and pattern characters, such as the UUIDs the callers use.\<close>

definition plain_id :: "string \<Rightarrow> bool" where
  "plain_id s \<longleftrightarrow> list_all (\<lambda>c. literal c \<and> c \<noteq> colon) s"

lemma glob_literal: "list_all literal p \<Longrightarrow> glob (p @ q) s \<longleftrightarrow> starts_with s p \<and> glob q (drop (length p) s)"
proof (induction p arbitrary: s)
  case (Cons c p)
  then show ?case by (cases s) (auto simp: literal_def)
qed simp

lemma starts_with_common: "starts_with (a @ b) (a @ c) = starts_with b c"
  by (induction a) simp_all

lemma thread_prefix_literal: "plain_id t \<Longrightarrow> list_all literal (thread_prefix t)"
  by (auto simp: thread_prefix_def plain_id_def list_all_iff literal_def char_code_def)

lemma colon_prefix:
  "colon \<notin> set a \<Longrightarrow> colon \<notin> set b \<Longrightarrow> starts_with (a @ '':'' @ x) (b @ '':'') \<Longrightarrow> a = b"
proof (induction a arbitrary: b)
  case Nil
  then show ?case by (cases b) (auto simp: colon_def)
next
  case (Cons c a)
  then show ?case by (cases b) (auto simp: colon_def)
qed

lemma thread_prefix_inj:
  assumes "plain_id t" "plain_id t'" "starts_with (thread_prefix t' @ x) (thread_prefix t)"
  shows "t' = t"
proof -
  have "starts_with (t' @ '':'' @ x) (t @ '':'')"
    using assms(3) starts_with_common [of "''gaiaos:checkpoint:''" "t' @ '':'' @ x" "t @ '':''"] by (simp add: thread_prefix_def)
  moreover have "colon \<notin> set t" "colon \<notin> set t'" using assms(1,2) by (auto simp: plain_id_def list_all_iff)
  ultimately show ?thesis using colon_prefix by blast
qed

text \<open>A write to a key outside a scanned family changes neither the scan nor the values under it.\<close>

lemma filter_update_other:
  "(\<And>e. \<not> P (k, e)) \<Longrightarrow> filter P (dict_set k v d) = filter P d"
  by (induction d) auto

lemma scan_other:
  assumes "list_all literal p" "\<not> starts_with k p"
  shows "scan_iter now (p @ q) (dict_set k e d) = scan_iter now (p @ q) d"
  unfolding scan_iter_def by (subst filter_update_other) (simp_all add: glob_literal [OF assms(1)] assms(2))

lemma scan_starts: "list_all literal p \<Longrightarrow> k \<in> set (scan_iter now (p @ q) d) \<Longrightarrow> starts_with k p"
  by (auto simp: scan_iter_def glob_literal)

lemma redis_get_other [simp]: "k' \<noteq> k \<Longrightarrow> redis_get now k' (dict_set k e d) = redis_get now k' d"
  by (simp add: redis_get_def dict_simps)

lemma fetch_writes_other:
  assumes "plain_id t" "\<not> starts_with k (thread_prefix t @ ''writes:'')"
  shows "fetch_writes S now t cid (dict_set k e d) = fetch_writes S now t cid d"
proof -
  let ?p = "thread_prefix t @ ''writes:''" and ?q = "cid @ '':*''"
  have lit: "list_all literal ?p" using thread_prefix_literal [OF assms(1)] by (simp add: literal_def char_code_def)
  have pat: "writes_prefix t cid @ ''*'' = ?p @ ?q" by (simp add: writes_prefix_def)
  have same: "map (writes_of_key S now (dict_set k e d)) (scan_iter now (?p @ ?q) d) =
      map (writes_of_key S now d) (scan_iter now (?p @ ?q) d)"
  proof (rule map_cong [OF refl])
    fix k' assume "k' \<in> set (scan_iter now (?p @ ?q) d)"
    then have "k' \<noteq> k" using scan_starts [OF lit] assms(2) by blast
    then show "writes_of_key S now (dict_set k e d) k' = writes_of_key S now d k'" by (simp add: writes_of_key_def)
  qed
  show ?thesis unfolding fetch_writes_def pat scan_other [OF lit assms(2)] same ..
qed

lemma not_starts_prefix: "\<not> starts_with k p \<Longrightarrow> \<not> starts_with k (p @ q)"
  by (induction k p rule: starts_with.induct) auto

lemma starts_with_self: "starts_with (p @ q) p"
  by (induction p) simp_all

text \<open>So a key outside a thread's family matters to no operation of that thread.\<close>

lemma thread_other:
  assumes "plain_id t" "\<not> starts_with k (thread_prefix t)"
  shows "configurable cfg ''thread_id'' = Some t \<Longrightarrow> aget_tuple S now cfg (dict_set k e d) = aget_tuple S now cfg d"
    "configurable cfg ''thread_id'' = Some t \<Longrightarrow>
       alist S now (Some cfg) before limit (dict_set k e d) = alist S now (Some cfg) before limit d"
proof -
  have fw: "fetch_writes S now t cid (dict_set k e d) = fetch_writes S now t cid d" for cid
    by (rule fetch_writes_other [OF assms(1) not_starts_prefix [OF assms(2)]])
  have own: "redis_get now (thread_prefix t @ x) (dict_set k e d) = redis_get now (thread_prefix t @ x) d" for x
    using assms(2) starts_with_self [of "thread_prefix t" x] by (intro redis_get_other) auto
  show "aget_tuple S now cfg (dict_set k e d) = aget_tuple S now cfg d" if "configurable cfg ''thread_id'' = Some t"
    using that by (auto simp: aget_tuple_def latest_entry_def checkpoint_entry_def own fw split: option.splits list.splits)
  let ?keys = "scan_iter now (thread_prefix t @ ''checkpoint:*'') d"
  have keys: "scan_iter now (thread_prefix t @ ''checkpoint:*'') (dict_set k e d) = ?keys"
    by (rule scan_other [OF thread_prefix_literal [OF assms(1)] assms(2)])
  have "map (tuple_of_key S now t (dict_set k e d)) ?keys = map (tuple_of_key S now t d) ?keys"
  proof (rule map_cong [OF refl])
    fix k' assume "k' \<in> set ?keys"
    then have ne: "k' \<noteq> k" using scan_starts [OF thread_prefix_literal [OF assms(1)]] assms(2) by blast
    show "tuple_of_key S now t (dict_set k e d) k' = tuple_of_key S now t d k'"
      unfolding tuple_of_key_def fw redis_get_other [OF ne] ..
  qed
  note same = this
  show "alist S now (Some cfg) before limit (dict_set k e d) = alist S now (Some cfg) before limit d"
    if "configurable cfg ''thread_id'' = Some t"
    unfolding alist_def option.case that keys same ..
qed

text \<open>runs do not see each other's checkpoints: storing a checkpoint or intermediate writes for one
  thread changes neither the tuple another thread reads nor the list of its checkpoints, when the
  thread identifiers are free of colons and pattern characters.\<close>

theorem checkpoint_threads_isolated:
  assumes "plain_id t" "plain_id t'" "t \<noteq> t'"
    "configurable cfg ''thread_id'' = Some t" "configurable cfg' ''thread_id'' = Some t'"
  shows "aget_tuple S now cfg (fst (aput S ttl now' cfg' c m d)) = aget_tuple S now cfg d \<and>
    aget_tuple S now cfg (fst (aput_writes S ttl now' cfg' ws task d)) = aget_tuple S now cfg d \<and>
    alist S now (Some cfg) before limit (fst (aput S ttl now' cfg' c m d)) = alist S now (Some cfg) before limit d \<and>
    alist S now (Some cfg) before limit (fst (aput_writes S ttl now' cfg' ws task d)) = alist S now (Some cfg) before limit d"
proof -
  have other: "\<not> starts_with (thread_prefix t' @ x) (thread_prefix t)" for x
    using thread_prefix_inj [OF assms(1,2)] assms(3) by blast
  note same = thread_other [OF assms(1) other, where cfg = cfg, OF assms(4)]
  show ?thesis
    by (auto simp: aput_def aput_writes_def assms(5) redis_set_def checkpoint_entry_def latest_entry_def
        writes_prefix_def same split: sum.splits option.splits)
qed

text \<open>What is relied on of LangGraph's serializer: it reads back the normalised value it wrote, under a type
  name without a colon.\<close>

definition serde_ok :: "serde \<Rightarrow> pv \<Rightarrow> bool" where
  "serde_ok S v \<longleftrightarrow> (case dumps_typed S v of (ty, x) \<Rightarrow> colon \<notin> set ty \<and> loads_typed S (ty, x) = Inr (normalize_serializable v))"

lemma serde_loads_dumps: "serde_ok S v \<Longrightarrow> serde_loads S (serde_dumps S v) = Inr (normalize_serializable v)"
proof -
  assume ok: "serde_ok S v"
  obtain ty x where d: "dumps_typed S v = (ty, x)" by force
  with ok have ty: "colon \<notin> set ty" "loads_typed S (ty, x) = Inr (normalize_serializable v)" by (auto simp: serde_ok_def)
  have "takeWhile (\<lambda>c. c \<noteq> colon) (ty @ '':'' @ x) = ty" "dropWhile (\<lambda>c. c \<noteq> colon) (ty @ '':'' @ x) = '':'' @ x"
    using ty(1) by (auto simp: takeWhile_append dropWhile_append colon_def)
  then show ?thesis using d ty(2) by (simp add: serde_loads_def serde_dumps_def colon_def)
qed

lemma dumps_nonempty: obtains y ys where "serde_dumps S v = y # ys"
  by (cases "serde_dumps S v") (auto simp: serde_dumps_def split: prod.splits)

definition expired :: "int option \<Rightarrow> int \<Rightarrow> int \<Rightarrow> bool" where
  "expired ttl now later \<longleftrightarrow> (case ttl of Some s \<Rightarrow> 0 < s \<and> now + s * 1000000 \<le> later | None \<Rightarrow> False)"

lemma redis_get_set: "\<not> expired ttl now later \<Longrightarrow> redis_get later k (redis_set now ttl k v d) = Some v"
  by (auto simp: redis_get_def redis_set_def dict_simps live_def expired_def split: option.splits)

lemma read_stored:
  "serde_ok S (checkpoint_data cfg c m) \<Longrightarrow>
     read_checkpoint S (serde_dumps S (checkpoint_data cfg c m)) =
       Inr (normalize_serializable c, normalize_serializable m, normalize_serializable cfg)"
  by (simp add: read_checkpoint_def serde_loads_dumps normalize_normal [OF checkpoint_data_normal])
    (simp add: checkpoint_data_def pv_index_def pv_get_def)


text \<open>A serializer for one value, and a checkpoint with a function in it.\<close>

definition one_value_serde :: "pv \<Rightarrow> serde" where
  "one_value_serde v = \<lparr>super_dumps_typed = (\<lambda>_. Inr (''msgpack'', ''x'')), json_default_str = (\<lambda>_. []),
     loads_typed = (\<lambda>_. Inr v)\<rparr>"

definition sample_checkpoint :: pv where
  "sample_checkpoint = PDict [(Str_Key ''id'', PStr ''c1''), (Str_Key ''fn'', PCallable ''f''),
     (Str_Key ''channels'', PSet [PInt 1])]"


theorem checkpoint_threads_isolated_witness:
  "\<exists>S. aget_tuple S 1 (run_config ''a'' ''c1'') (fst (aput S None 0 (run_config ''b'' ''c1'') sample_checkpoint PNone [])) = Inr None"
proof -
  let ?S = "one_value_serde PNone"
  have "plain_id ''a''" "plain_id ''b''" "''a'' \<noteq> ''b''" "configurable (run_config ''a'' ''c1'') ''thread_id'' = Some ''a''"
    "configurable (run_config ''b'' ''c1'') ''thread_id'' = Some ''b''"
    by (simp_all add: plain_id_def literal_def colon_def char_code_def run_config_def configurable_def pv_get_def)
  from checkpoint_threads_isolated [OF this, of ?S 1 None 0 sample_checkpoint PNone "[]"] have
    "aget_tuple ?S 1 (run_config ''a'' ''c1'') (fst (aput ?S None 0 (run_config ''b'' ''c1'') sample_checkpoint PNone [])) =
       aget_tuple ?S 1 (run_config ''a'' ''c1'') []" by blast
  also have "\<dots> = Inr None" by (simp add: aget_tuple_def run_config_def configurable_def pv_get_def redis_get_def)
  finally show ?thesis by blast
qed

text \<open>The list of a thread is newest first, and \<open>limit\<close> bounds it.\<close>

lemma newest_first_sorted: "sorted_wrt (\<lambda>a b. stamp_of b \<le> stamp_of a) (newest_checkpoints ts)"
  by (simp add: newest_checkpoints_def sorted_wrt_rev) (metis (mono_tags, lifting) sorted_sort_key sorted_map sorted_wrt_mono_rel)

lemma after_before_sorted: "sorted_wrt P ts \<Longrightarrow> sorted_wrt P (after_before b ts)"
  by (induction b ts rule: after_before.induct) auto

lemma alist_newest_first:
  assumes "alist S now config before limit d = Inr ts"
  shows "sorted_wrt (\<lambda>a b. stamp_of b \<le> stamp_of a) ts \<and> (case limit of Some (Suc n) \<Rightarrow> length ts \<le> Suc n | _ \<Rightarrow> True)"
  using assms
  by (auto simp: alist_def py_bind_Inr_iff take_limit_def split: option.splits nat.splits
      intro!: after_before_sorted newest_first_sorted sorted_wrt_take)

end
