(* ===== verification/Literature.thy ===== *)
theory Literature
  imports Clients
begin

text \<open>
  Literature retrieval: the hybrid search and the seeding of \<open>LiteratureRepository\<close>
  (\<open>db/repository.py\<close>), the embedding providers and the literature agent
  (\<open>orchestrator/agents/literature_rag\<close>). The cosine distance of pgvector, the text search of
  PostgreSQL, SHA-256 with the random generator and the square half are parameters. Where the code
  iterates over a set of chunks the model takes the vector results first.
\<close>

section \<open>Chunks\<close>

record literature_chunk =
  lc_id :: uuid
  lc_document_id :: string
  lc_source_id :: "string option"
  chunk_text :: string
  lc_embedding :: "flt list option"
  lc_source_url :: "string option"
  lc_metadata :: json

record search_engine =
  cosine_distance :: "flt list \<Rightarrow> flt list \<Rightarrow> rat"
  ts_match :: "string \<Rightarrow> string \<Rightarrow> bool"
  ts_rank :: "string \<Rightarrow> string \<Rightarrow> rat"

text \<open>Ascending by distance, chunks without a vector last.\<close>

definition vector_search :: "search_engine \<Rightarrow> flt list \<Rightarrow> nat \<Rightarrow> literature_chunk list \<Rightarrow> literature_chunk list" where
  "vector_search E q k t =
     take k (sort_key (\<lambda>c. cosine_distance E (the (lc_embedding c)) q) (filter (\<lambda>c. lc_embedding c \<noteq> None) t) @
       filter (\<lambda>c. lc_embedding c = None) t)"

definition fts_search :: "search_engine \<Rightarrow> string \<Rightarrow> nat \<Rightarrow> literature_chunk list \<Rightarrow> literature_chunk list" where
  "fts_search E query k t =
     take k (sort_key (\<lambda>c. - ts_rank E (chunk_text c) query) (filter (\<lambda>c. ts_match E (chunk_text c) query) t))"

section \<open>Reciprocal rank fusion\<close>

text \<open>\<open>{chunk.id: idx + 1 ...}\<close>.\<close>

definition ranks :: "literature_chunk list \<Rightarrow> (uuid, nat) dict" where
  "ranks cs = fold (\<lambda>(i, c) d. dict_set (lc_id c) (i + 1) d) (enumerate 0 cs) []"

definition rrf_constant :: nat where
  "rrf_constant = 60"

definition rank_score :: "nat option \<Rightarrow> flt \<Rightarrow> flt" where
  "rank_score r score = (case r of None \<Rightarrow> score | Some n \<Rightarrow> fadd score (fdiv 1 (of_nat (rrf_constant + n))))"

definition rrf_score :: "(uuid, nat) dict \<Rightarrow> (uuid, nat) dict \<Rightarrow> uuid \<Rightarrow> flt" where
  "rrf_score rv rf i = rank_score (dict_get rf i) (rank_score (dict_get rv i) 0)"

definition max_possible_score :: flt where
  "max_possible_score = fdiv 2 (of_nat (rrf_constant + 1))"

definition normalized_score :: "flt \<Rightarrow> flt" where
  "normalized_score s = max 0 (min 1 (fdiv s max_possible_score))"

text \<open>\<open>sorted(..., reverse=True)\<close>: equal scores keep their order.\<close>

definition by_score :: "(uuid \<Rightarrow> flt) \<Rightarrow> uuid list \<Rightarrow> uuid list" where
  "by_score f ids = rev (sort_key f (rev ids))"

definition all_chunk_ids :: "literature_chunk list \<Rightarrow> literature_chunk list \<Rightarrow> uuid list" where
  "all_chunk_ids vs fs = append_new (append_new [] (map lc_id vs)) (map lc_id fs)"

text \<open>The validation of the field \<open>chunk_id: str | int | None\<close>: integral floats and truth values become
  integers.\<close>

definition valid_chunk_id :: "json \<Rightarrow> json py" where
  "valid_chunk_id j = (case j of
       JNull \<Rightarrow> Inr JNull | JStr s \<Rightarrow> Inr (JStr s) | JInt i \<Rightarrow> Inr (JInt i)
     | JBool b \<Rightarrow> Inr (JInt (if b then 1 else 0))
     | JFloat x \<Rightarrow> if of_int \<lfloor>x\<rfloor> = x then Inr (JInt \<lfloor>x\<rfloor>) else Inl (Validation_Error ''chunk_id'')
     | _ \<Rightarrow> Inl (Validation_Error ''chunk_id''))"

definition valid_title :: "json \<Rightarrow> string option py" where
  "valid_title j = (case j of JNull \<Rightarrow> Inr None | JStr s \<Rightarrow> Inr (Some s) | _ \<Rightarrow> Inl (Validation_Error ''title''))"

definition chunk_evidence :: "uuid \<Rightarrow> int \<Rightarrow> literature_chunk \<Rightarrow> flt \<Rightarrow> evidence py" where
  "chunk_evidence i now c score =
     py_bind (json_get (json_or (lc_metadata c) (JObj [])) ''chunk_id'') (\<lambda>cid.
     py_bind (json_get (json_or (lc_metadata c) (JObj [])) ''title'') (\<lambda>ttl.
     py_bind (mk_evidence i (lc_document_id c) (chunk_text c) now (Some (normalized_score score)) None) (\<lambda>e.
     py_bind (valid_chunk_id cid) (\<lambda>cid'. py_bind (valid_title ttl) (\<lambda>ttl'.
       Inr (e\<lparr>document_id := Some (lc_document_id c), chunk_id := cid', title := ttl', source_url := lc_source_url c\<rparr>))))))"

text \<open>\<open>chunk_lookup\<close>: a later chunk of the same identifier wins.\<close>

definition chunk_lookup :: "literature_chunk list \<Rightarrow> (uuid, literature_chunk) dict" where
  "chunk_lookup cs = fold (\<lambda>c d. dict_set (lc_id c) c d) cs []"

definition fuse ::
    "(nat \<Rightarrow> uuid) \<Rightarrow> int \<Rightarrow> nat \<Rightarrow> literature_chunk list \<Rightarrow> literature_chunk list \<Rightarrow> evidence list py" where
  "fuse ids now k vs fs =
     (let score = rrf_score (ranks vs) (ranks fs); top = take k (by_score score (all_chunk_ids vs fs));
          look = chunk_lookup (vs @ fs)
      in py_sequence (map (\<lambda>(n, i). case dict_get look i of
            None \<Rightarrow> Inl (Key_Error (uuid_str i)) | Some c \<Rightarrow> chunk_evidence (ids n) now c (score i)) (enumerate 0 top)))"

definition hybrid_search ::
    "search_engine \<Rightarrow> (nat \<Rightarrow> uuid) \<Rightarrow> int \<Rightarrow> string \<Rightarrow> flt list option \<Rightarrow> nat \<Rightarrow> literature_chunk list \<Rightarrow> evidence list py" where
  "hybrid_search E ids now query emb k t =
     fuse ids now k (case emb of None \<Rightarrow> [] | Some q \<Rightarrow> vector_search E q k t) (fts_search E query k t)"

section \<open>Seeding\<close>

record seed_chunk =
  sc_document_id :: string
  sc_chunk_text :: string
  sc_embedding :: "flt list option"
  sc_source_url :: "string option"
  sc_metadata :: json

definition group_documents :: "seed_chunk list \<Rightarrow> (string, seed_chunk list) dict" where
  "group_documents cs =
     fold (\<lambda>c d. dict_set (sc_document_id c) (dict_get_or d (sc_document_id c) [] @ [c]) d) cs []"

definition chunk_row :: "uuid \<Rightarrow> seed_chunk \<Rightarrow> literature_chunk" where
  "chunk_row i c = \<lparr>lc_id = i, lc_document_id = sc_document_id c, lc_source_id = None, chunk_text = sc_chunk_text c,
     lc_embedding = sc_embedding c, lc_source_url = sc_source_url c, lc_metadata = sc_metadata c\<rparr>"

text \<open>The chunks that are added: those of documents the table does not know yet. Rows get fresh
  identifiers in the order they are added.\<close>

definition new_chunks :: "literature_chunk list \<Rightarrow> seed_chunk list \<Rightarrow> seed_chunk list" where
  "new_chunks t cs =
     concat (map snd (filter (\<lambda>(doc, _). doc \<notin> lc_document_id ` set t) (group_documents cs)))"

definition seed_chunks :: "(nat \<Rightarrow> uuid) \<Rightarrow> seed_chunk list \<Rightarrow> literature_chunk list \<Rightarrow> literature_chunk list" where
  "seed_chunks ids cs t = t @ map (\<lambda>(n, c). chunk_row (ids n) c) (enumerate 0 (new_chunks t cs))"

section \<open>Embeddings\<close>

datatype embedding_provider = Mock_Provider nat bool | OpenAI_Provider string string nat

record embedding_settings =
  embedding_api_key :: "string option"
  embedding_model :: string
  embedding_dimension :: nat

text \<open>\<open>get_embedding_provider\<close>; the flag is the environment variable that simulates a failure.\<close>

definition get_embedding_provider :: "bool \<Rightarrow> embedding_settings \<Rightarrow> embedding_provider" where
  "get_embedding_provider simulate_failure s =
     (if simulate_failure then Mock_Provider (embedding_dimension s) True
      else case embedding_api_key s of
             Some (c # cs) \<Rightarrow> OpenAI_Provider (c # cs) (embedding_model s) (embedding_dimension s)
           | _ \<Rightarrow> Mock_Provider (embedding_dimension s) False)"

text \<open>The mock vector: draws of the seeded generator, divided by their length; \<open>half\<close> is the power one half.\<close>

definition generate_vector :: "(string \<Rightarrow> nat \<Rightarrow> flt) \<Rightarrow> (flt \<Rightarrow> flt) \<Rightarrow> nat \<Rightarrow> string \<Rightarrow> flt list" where
  "generate_vector draw half size_v text =
     (let vec = map (draw text) [0..<size_v]; norm = half (fsum (map (\<lambda>x. fmul x x) vec))
      in if 0 < norm then map (\<lambda>x. fdiv x norm) vec else vec)"

text \<open>A reply whose vectors are not lists of numbers counts as unreadable here.\<close>

definition json_floats :: "json \<Rightarrow> flt list py" where
  "json_floats j = py_bind (json_iter j) (\<lambda>xs. py_sequence (map json_num xs))"

definition read_embeddings :: "fetch_reply py \<Rightarrow> flt list list py" where
  "read_embeddings reply =
     (case py_bind reply (\<lambda>r.
            if status_code r \<noteq> 200 then Inl (Runtime_Error (''OpenAI API error: '' @ resp_text r))
            else py_bind (resp_json r) (\<lambda>d. py_bind (json_index d ''data'') (\<lambda>xs. py_bind (json_iter xs) (\<lambda>items.
              py_sequence (map (\<lambda>it. py_bind (json_index it ''embedding'') json_floats) items))))) of
        Inl e \<Rightarrow> Inl (Runtime_Error (''Embedding service unreachable: '' @ exc_str e))
      | Inr vs \<Rightarrow> Inr vs)"

definition embed_query ::
    "(string \<Rightarrow> nat \<Rightarrow> flt) \<Rightarrow> (flt \<Rightarrow> flt) \<Rightarrow> (string list \<Rightarrow> fetch_reply py) \<Rightarrow> embedding_provider \<Rightarrow> string \<Rightarrow> flt list py" where
  "embed_query draw half api p text =
     (case p of
        Mock_Provider size_v fail \<Rightarrow> if fail then Inl (Runtime_Error ''Embedding service unreachable'')
          else Inr (generate_vector draw half size_v text)
      | OpenAI_Provider key model size_v \<Rightarrow> py_bind (read_embeddings (api [text])) (\<lambda>vs.
          case vs of [] \<Rightarrow> Inl (Other_Error ''list index out of range'') | v # _ \<Rightarrow> Inr v))"

definition embed_documents ::
    "(string \<Rightarrow> nat \<Rightarrow> flt) \<Rightarrow> (flt \<Rightarrow> flt) \<Rightarrow> (string list \<Rightarrow> fetch_reply py) \<Rightarrow> embedding_provider \<Rightarrow> string list \<Rightarrow> flt list list py" where
  "embed_documents draw half api p texts =
     (case p of
        Mock_Provider size_v fail \<Rightarrow> if fail then Inl (Runtime_Error ''Embedding service unreachable'')
          else Inr (map (generate_vector draw half size_v) texts)
      | OpenAI_Provider key model size_v \<Rightarrow> read_embeddings (api texts))"

section \<open>The literature agent\<close>

definition literature_run ::
    "search_engine \<Rightarrow> (nat \<Rightarrow> uuid) \<Rightarrow> int \<Rightarrow> flt list py \<Rightarrow> bool \<Rightarrow> py_exc option \<Rightarrow> agent_input \<Rightarrow> literature_chunk list \<Rightarrow>
     agent_output" where
  "literature_run E ids now embedding session fault inp t =
     (let out = (\<lambda>evs errs. \<lparr>agent_name = ''literature'', evidence_list = evs, out_errors = errs\<rparr>)
      in case embedding of
           Inl e \<Rightarrow> out [] [''embedding service unreachable: '' @ exc_str e]
         | Inr v \<Rightarrow>
             (if \<not> session then out [] [''Database session factory is not initialised.'']
              else case (case fault of Some e \<Rightarrow> Inl e | None \<Rightarrow> hybrid_search E ids now (ai_query inp) (Some v) 10 t) of
                     Inr evs \<Rightarrow> out evs []
                   | Inl e \<Rightarrow> out [] [''Hybrid search failed: '' @ exc_str e]))"

section \<open>The fusion is the top of the ranking\<close>

lemma dict_get_fold_fresh:
  "i \<notin> f ` set xs \<Longrightarrow> dict_get (fold (\<lambda>x d. dict_set (f x) (g x) d) xs d) i = dict_get d i"
  by (induction xs arbitrary: d) (auto simp: dict_simps)

lemma dict_get_fold:
  "x \<in> set xs \<Longrightarrow> \<exists>y\<in>set xs. f y = f x \<and> dict_get (fold (\<lambda>x d. dict_set (f x) (g x) d) xs d) (f x) = Some (g y)"
proof (induction xs arbitrary: d x)
  case (Cons z xs)
  show ?case
  proof (cases "f x \<in> f ` set xs")
    case True
    then obtain x' where "x' \<in> set xs" "f x' = f x" by auto
    with Cons.IH [OF this(1), of "dict_set (f z) (g z) d"] show ?thesis by auto
  next
    case False
    then show ?thesis using Cons.prems by (auto simp: dict_get_fold_fresh dict_simps)
  qed
qed simp

lemma chunk_lookup_Some: "i \<in> lc_id ` set cs \<Longrightarrow> \<exists>c\<in>set cs. lc_id c = i \<and> dict_get (chunk_lookup cs) i = Some c"
  unfolding chunk_lookup_def using dict_get_fold [of _ cs lc_id "\<lambda>c. c" "[]"] by auto

lemma by_score_facts:
  "set (by_score f xs) = set xs" "distinct (by_score f xs) = distinct xs" "length (by_score f xs) = length xs"
  "sorted_wrt (\<lambda>a b. f b \<le> f a) (by_score f xs)"
proof -
  have "sorted_wrt (\<lambda>a b. f a \<le> f b) (sort_key f (rev xs))"
    using sorted_sort_key [of f "rev xs"] by (simp add: sorted_map)
  then show "sorted_wrt (\<lambda>a b. f b \<le> f a) (by_score f xs)" by (simp add: by_score_def sorted_wrt_rev)
qed (simp_all add: by_score_def)

lemma take_top:
  assumes "sorted_wrt (\<lambda>a b. f b \<le> f a) xs" "distinct xs" "i \<in> set (take k xs)" "j \<in> set xs" "j \<notin> set (take k xs)"
  shows "f j \<le> f i"
proof -
  have "j \<in> set (drop k xs)" using assms(4,5) by (metis Un_iff append_take_drop_id set_append)
  with assms(1,3) show ?thesis by (metis append_take_drop_id sorted_wrt_append)
qed

definition chunk_ok :: "literature_chunk \<Rightarrow> bool" where
  "chunk_ok c \<longleftrightarrow> (\<exists>kvs cid ttl. json_or (lc_metadata c) (JObj []) = JObj kvs \<and>
     valid_chunk_id (dict_get_or kvs ''chunk_id'' JNull) = Inr cid \<and> valid_title (dict_get_or kvs ''title'' JNull) = Inr ttl)"

lemma fl64_max_min: "fl64 x = x \<Longrightarrow> fl64 (max 0 (min 1 x)) = max 0 (min 1 x)"
  by (auto simp: max_def min_def)

lemma chunk_evidence_ok:
  assumes "chunk_ok c"
  shows "\<exists>e. chunk_evidence i now c score = Inr e \<and> ev_claim e = chunk_text c \<and> ev_source e = lc_document_id c \<and>
    ev_confidence e = normalized_score score"
proof -
  have "in_unit (normalized_score score)" "fl64 (normalized_score score) = normalized_score score"
    by (auto simp: normalized_score_def in_unit_def fdiv_def fl64_idem intro!: fl64_max_min)
  from init_uncertainty_confidence [OF this] obtain u where
    "init_uncertainty (Some (normalized_score score)) None = Inr u" "point_estimate u = normalized_score score" by blast
  then show ?thesis
    using assms by (auto simp: chunk_ok_def chunk_evidence_def mk_evidence_def json_get_def dict_get_or_def ev_confidence_def
        split: option.splits)
qed

text \<open>C25: the hybrid search returns the best \<open>k\<close> candidates. When the metadata of the chunks is well formed,
  the items are those of \<open>k\<close> distinct chunks (all, when there are fewer) found by the vector search or
  by the text search, in descending order of their fused score, none of the remaining candidates has a
  higher score than a returned one, and the confidence of an item is the score of its chunk relative to
  the first rank in both searches, between 0 and 1.\<close>

theorem hybrid_search_top_k:
  fixes E query emb k t
  defines "vs \<equiv> (case emb of None \<Rightarrow> [] | Some q \<Rightarrow> vector_search E q k t)"
    and "fs \<equiv> fts_search E query k t"
  defines "score \<equiv> rrf_score (ranks vs) (ranks fs)"
  assumes "\<forall>c\<in>set t. chunk_ok c"
  shows "\<exists>evs top. hybrid_search E ids now query emb k t = Inr evs \<and> distinct top \<and>
    length evs = min k (card (lc_id ` (set vs \<union> set fs))) \<and> set top \<subseteq> lc_id ` (set vs \<union> set fs) \<and>
    list_all2 (\<lambda>i e. \<exists>c\<in>set t. lc_id c = i \<and> ev_claim e = chunk_text c \<and> ev_source e = lc_document_id c \<and>
      ev_confidence e = normalized_score (score i)) top evs \<and>
    sorted_wrt (\<lambda>i j. score j \<le> score i) top \<and>
    (\<forall>i\<in>set top. \<forall>j\<in>lc_id ` (set vs \<union> set fs). j \<in> set top \<or> score j \<le> score i)"
proof -
  define all where "all = all_chunk_ids vs fs"
  define top where "top = take k (by_score score all)"
  have all: "set all = lc_id ` (set vs \<union> set fs)" "distinct all"
    by (auto simp: all_def all_chunk_ids_def intro!: distinct_append_new)
  have sub: "set vs \<union> set fs \<subseteq> set t"
    by (auto simp: vs_def fs_def vector_search_def fts_search_def dest!: in_set_takeD split: option.splits)
  let ?f = "\<lambda>(n, i). case dict_get (chunk_lookup (vs @ fs)) i of None \<Rightarrow> Inl (Key_Error (uuid_str i))
    | Some c \<Rightarrow> chunk_evidence (ids n) now c (score i)"
  let ?P = "\<lambda>x e. \<exists>c\<in>set t. lc_id c = snd x \<and> ev_claim e = chunk_text c \<and> ev_source e = lc_document_id c \<and>
      ev_confidence e = normalized_score (score (snd x))"
  have topset: "set top \<subseteq> set all" by (auto simp: top_def by_score_facts dest: in_set_takeD)
  have "\<exists>e. ?f x = Inr e \<and> ?P x e" if "x \<in> set (enumerate 0 top)" for x
  proof -
    have "snd x \<in> set top" using imageI [OF that, of snd] by (simp flip: set_map)
    then have "snd x \<in> lc_id ` set (vs @ fs)" using topset all(1) by auto
    then obtain c where c: "c \<in> set (vs @ fs)" "lc_id c = snd x" "dict_get (chunk_lookup (vs @ fs)) (snd x) = Some c"
      using chunk_lookup_Some by blast
    then have ct: "c \<in> set t" using sub by auto
    then have "chunk_ok c" using assms(4) by blast
    from chunk_evidence_ok [OF this, of "ids (fst x)" now "score (snd x)"] c ct show ?thesis
      by (auto simp: case_prod_beta)
  qed
  from py_sequence_total [of "enumerate 0 top" ?f ?P, OF this]
  obtain evs where evs: "py_sequence (map ?f (enumerate 0 top)) = Inr evs" and a2: "list_all2 ?P (enumerate 0 top) evs" by auto
  have "hybrid_search E ids now query emb k t = Inr evs"
    unfolding hybrid_search_def fuse_def Let_def vs_def [symmetric] fs_def [symmetric] score_def [symmetric]
      all_def [symmetric] top_def [symmetric] by (rule evs)
  moreover have a2': "list_all2 (\<lambda>i e. ?P (0 :: nat, i) e) top evs"
    using a2 list_all2_map1 [of "\<lambda>i e. ?P (0 :: nat, i) e" snd "enumerate 0 top" evs] by simp
  moreover have "distinct top" by (simp add: top_def by_score_facts all(2))
  moreover have "length evs = min k (card (lc_id ` (set vs \<union> set fs)))"
    using list_all2_lengthD [OF a2'] distinct_card [OF all(2)] all(1) by (simp add: top_def by_score_facts min.commute)
  moreover have "sorted_wrt (\<lambda>i j. score j \<le> score i) top"
    unfolding top_def by (rule sorted_wrt_take [OF by_score_facts(4)])
  moreover have "\<forall>i\<in>set top. \<forall>j\<in>set all. j \<in> set top \<or> score j \<le> score i"
  proof (intro ballI)
    fix i j assume "i \<in> set top" "j \<in> set all"
    then show "j \<in> set top \<or> score j \<le> score i"
      using take_top [of score "by_score score all" i k j] all(2) by (auto simp: top_def by_score_facts)
  qed
  ultimately show ?thesis using topset all(1) by auto
qed

definition plain_engine :: search_engine where
  "plain_engine = \<lparr>cosine_distance = (\<lambda>a b. 0), ts_match = (\<lambda>c q. str_contains c q), ts_rank = (\<lambda>c q. 1)\<rparr>"

definition sample_chunk :: "uuid \<Rightarrow> string \<Rightarrow> literature_chunk" where
  "sample_chunk i text = \<lparr>lc_id = i, lc_document_id = ''doc'', lc_source_id = None, chunk_text = text, lc_embedding = None, lc_source_url = None,
     lc_metadata = JNull\<rparr>"

theorem hybrid_search_top_k_witness:
  "\<exists>evs. hybrid_search plain_engine (\<lambda>n. n) 0 ''fire'' None 10 [sample_chunk 1 ''sea'', sample_chunk 2 ''fire''] = Inr evs \<and>
     length evs = 1"
proof -
  have "\<forall>c\<in>set [sample_chunk 1 ''sea'', sample_chunk 2 ''fire'']. chunk_ok c"
    by (simp add: sample_chunk_def chunk_ok_def json_or_def dict_get_or_def valid_chunk_id_def valid_title_def)
  moreover have "fts_search plain_engine ''fire'' 10 [sample_chunk 1 ''sea'', sample_chunk 2 ''fire''] = [sample_chunk 2 ''fire'']"
    by (simp add: fts_search_def plain_engine_def sample_chunk_def)
  ultimately show ?thesis
    using hybrid_search_top_k [of "[sample_chunk 1 ''sea'', sample_chunk 2 ''fire'']" plain_engine "\<lambda>n. n" 0 "''fire''" None 10]
    by fastforce
qed

section \<open>Seeding twice\<close>

lemma group_documents_keys: "fst ` set (group_documents cs) = sc_document_id ` set cs"
proof -
  have "fst ` set (fold (\<lambda>c d. dict_set (sc_document_id c) (dict_get_or d (sc_document_id c) [] @ [c]) d) cs d) =
      fst ` set d \<union> sc_document_id ` set cs" for d :: "(string, seed_chunk list) dict"
    by (induction cs arbitrary: d) (auto simp: dom_update)
  from this [of "[]"] show ?thesis by (simp add: group_documents_def)
qed

definition groups_ok :: "(string, seed_chunk list) dict \<Rightarrow> bool" where
  "groups_ok d \<longleftrightarrow> (\<forall>g\<in>set d. snd g \<noteq> [] \<and> (\<forall>c\<in>set (snd g). sc_document_id c = fst g))"

lemma groups_ok_add:
  assumes "groups_ok d"
  shows "groups_ok (dict_set (sc_document_id c) (dict_get_or d (sc_document_id c) [] @ [c]) d)"
proof -
  have old: "sc_document_id x = sc_document_id c" if "x \<in> set (dict_get_or d (sc_document_id c) [])" for x
  proof (cases "dict_get d (sc_document_id c)")
    case (Some cl)
    then have "(sc_document_id c, cl) \<in> set d" by (rule map_of_SomeD)
    then show ?thesis using assms that Some by (fastforce simp: groups_ok_def dict_get_or_def)
  qed (use that in \<open>simp add: dict_get_or_def\<close>)
  have "set (dict_set k v d) \<subseteq> insert (k, v) (set d)" for k v by (induction d) auto
  then have "g = (sc_document_id c, dict_get_or d (sc_document_id c) [] @ [c]) \<or> g \<in> set d"
    if "g \<in> set (dict_set (sc_document_id c) (dict_get_or d (sc_document_id c) [] @ [c]) d)" for g
    using that by blast
  note mem = this
  show ?thesis unfolding groups_ok_def
  proof (intro ballI)
    fix g assume "g \<in> set (dict_set (sc_document_id c) (dict_get_or d (sc_document_id c) [] @ [c]) d)"
    from mem [OF this] show "snd g \<noteq> [] \<and> (\<forall>c\<in>set (snd g). sc_document_id c = fst g)"
    proof
      assume "g \<in> set d"
      then show ?thesis using assms by (simp add: groups_ok_def)
    qed (use old in auto)
  qed
qed

lemma group_documents_ok: "groups_ok (group_documents cs)"
proof -
  have "groups_ok d \<Longrightarrow> groups_ok (fold (\<lambda>c d. dict_set (sc_document_id c) (dict_get_or d (sc_document_id c) [] @ [c]) d) cs d)" for d
    by (induction cs arbitrary: d) (simp_all add: groups_ok_add)
  from this [of "[]"] show ?thesis unfolding group_documents_def by (simp add: groups_ok_def [of "[]"])
qed

text \<open>Seeding is idempotent: once a list of chunks has been seeded, seeding it again adds nothing.\<close>

lemma seed_chunks_idempotent: "seed_chunks ids' cs (seed_chunks ids cs t) = seed_chunks ids cs t"
proof -
  let ?t = "seed_chunks ids cs t"
  have docs: "lc_document_id ` set ?t = lc_document_id ` set t \<union> sc_document_id ` set (new_chunks t cs)"
  proof -
    have "lc_document_id ` (\<lambda>(n, c). chunk_row (ids n) c) ` set (enumerate 0 xs) = sc_document_id ` set xs" for xs
    proof -
      have "lc_document_id ` (\<lambda>(n, c). chunk_row (ids n) c) ` set (enumerate 0 xs) = sc_document_id ` snd ` set (enumerate 0 xs)"
        by (auto simp: chunk_row_def image_image case_prod_beta)
      also have "snd ` set (enumerate 0 xs) = set xs" by (simp flip: set_map)
      finally show ?thesis .
    qed
    then show ?thesis by (simp add: seed_chunks_def image_Un)
  qed
  have "fst g \<in> lc_document_id ` set ?t" if g: "g \<in> set (group_documents cs)" for g
  proof (cases "fst g \<in> lc_document_id ` set t")
    case False
    obtain c where c: "c \<in> set (snd g)" "sc_document_id c = fst g"
      using group_documents_ok [of cs] g by (auto simp: groups_ok_def) (metis list.set_intros(1) neq_Nil_conv)
    then have "c \<in> set (new_chunks t cs)" using g False by (force simp: new_chunks_def case_prod_beta)
    then show ?thesis using c(2) docs by (metis UnI2 imageI)
  qed (simp add: docs)
  then have "filter (\<lambda>(doc, _). doc \<notin> lc_document_id ` set ?t) (group_documents cs) = []"
    by (auto simp: filter_empty_conv)
  then have "new_chunks ?t cs = []" by (simp add: new_chunks_def)
  then show ?thesis by (simp add: seed_chunks_def [of ids' cs ?t])
qed

end
