(* ===== verification/Evaluation.thy ===== *)
theory Evaluation
  imports Registry Python_Text "HOL-Library.List_Lexorder" "HOL-Library.Char_ord"
begin

text \<open>
  The evaluation harness: the metrics (\<open>eval/metrics\<close>), the scorer (\<open>eval/harness/scorer.py\<close>), the
  suite runner with its tables (\<open>eval/harness/runner.py\<close>, \<open>db/models/eval_benchmark.py\<close>) and the
  regression gate (\<open>eval/harness/ci_gate.py\<close>). Parameters: the hash of \<open>uuid5\<close>, the fresh
  identifiers of \<open>uuid4\<close>, the order in which Python iterates a set, what the database returns for a
  stored score, and whether a commit fails. Rows are read in the order of the table; the items of
  the question file hold values of the column types.
\<close>

section \<open>Retrieval precision\<close>

definition calculate_retrieval_precision :: "string list \<Rightarrow> string set \<Rightarrow> flt" where
  "calculate_retrieval_precision retrieved relevant =
     (if retrieved = [] then 0
      else fdiv (of_nat (length (filter (\<lambda>c. c \<in> relevant) retrieved))) (of_nat (length retrieved)))"

section \<open>Calibration error\<close>

definition bin_lower :: "nat \<Rightarrow> nat \<Rightarrow> flt" where
  "bin_lower n_bins i = fmul (of_nat i) (fdiv 1 (of_nat n_bins))"

definition bin_upper :: "nat \<Rightarrow> nat \<Rightarrow> flt" where
  "bin_upper n_bins i = fadd (bin_lower n_bins i) (fdiv 1 (of_nat n_bins))"

text \<open>The last bin is closed on the right.\<close>

definition in_bin :: "nat \<Rightarrow> nat \<Rightarrow> flt \<Rightarrow> bool" where
  "in_bin n_bins i c =
     (if i = n_bins - 1 then bin_lower n_bins i \<le> c \<and> c \<le> bin_upper n_bins i
      else bin_lower n_bins i \<le> c \<and> c < bin_upper n_bins i)"

definition bin_gap :: "(flt \<times> bool) list \<Rightarrow> flt" where
  "bin_gap in_bin_ps =
     (let avg_conf = fdiv (fsum (map fst in_bin_ps)) (of_nat (length in_bin_ps));
          avg_acc = fdiv (of_nat (length (filter snd in_bin_ps))) (of_nat (length in_bin_ps))
      in \<bar>fsub avg_conf avg_acc\<bar>)"

definition add_bin :: "(flt \<times> bool) list \<Rightarrow> nat \<Rightarrow> nat \<Rightarrow> flt \<Rightarrow> flt" where
  "add_bin ps n_bins i ece =
     (let b = filter (\<lambda>p. in_bin n_bins i (fst p)) ps
      in if b = [] then ece
         else fadd ece (fmul (fdiv (of_nat (length b)) (of_nat (length ps))) (bin_gap b)))"

definition calculate_calibration :: "(flt \<times> bool) list \<Rightarrow> nat \<Rightarrow> flt py" where
  "calculate_calibration ps n_bins =
     (if ps = [] then Inl (Value_Error ''calculate_calibration requires at least one prediction. Guard with 'if predictions' in the caller before invoking.'')
      else if n_bins = 0 then Inl (Other_Error ''ZeroDivisionError'')
      else Inr (fold (add_bin ps n_bins) [0..<n_bins] 0))"

section \<open>Tables\<close>

record question =
  q_id :: uuid
  question_text :: json
  expected_domains :: json
  expected_complexity :: json
  reference_answer :: json
  reference_evidence :: json
  q_created_at :: int

record suite_metrics =
  ece :: "flt option"
  ece_n_predictions :: nat
  calibration_status :: string
  mean_retrieval_precision :: "flt option"
  precision_n_questions :: nat
  precision_status :: string

record scored_metrics =
  m_confidence :: "flt option"
  m_is_correct :: "bool option"
  retrieval_precision :: "flt option"
  retrieval_precision_status :: string

text \<open>The metrics of a question: \<open>status\<close> is \<open>scored\<close> or \<open>failed\<close>.\<close>

datatype question_metrics = Scored scored_metrics | Failed string

record benchmark_run =
  benchmark_question_id :: uuid
  run_version :: string
  run_score :: "flt option"
  run_metrics :: "(question_metrics \<times> suite_metrics) option"
  run_at :: int

record eval_db =
  questions :: "question list"
  runs :: "benchmark_run list"

section \<open>Scorer\<close>

record run_result =
  rr_confidence :: "flt option"
  rr_is_correct :: "bool option"
  rr_evidence :: "((string, json) dict list) option"

definition RELEVANCE_JUDGMENTS :: "(uuid, string set) dict" where
  "RELEVANCE_JUDGMENTS = []"

definition chunk_ids :: "(string, json) dict list \<Rightarrow> string list" where
  "chunk_ids items = concat (map (\<lambda>it. case dict_get it ''chunk_id'' of
       None \<Rightarrow> [] | Some JNull \<Rightarrow> [] | Some v \<Rightarrow> [json_str v]) items)"

definition score_result :: "(uuid, string set) dict \<Rightarrow> question \<Rightarrow> run_result \<Rightarrow> flt option \<times> question_metrics" where
  "score_result judgments q r =
     (let items = (case rr_evidence r of None \<Rightarrow> [] | Some xs \<Rightarrow> xs);
          retrieved = chunk_ids items;
          (prec, st) =
            (if items = [] then (None, ''no_evidence_retrieved'')
             else case dict_get judgments (q_id q) of
                    None \<Rightarrow> (None, ''no_relevance_judgment'')
                  | Some relevant \<Rightarrow>
                      if retrieved = [] then (None, ''no_evidence_retrieved'')
                      else (Some (calculate_retrieval_precision retrieved relevant), ''computed''))
      in (None, Scored \<lparr>m_confidence = rr_confidence r, m_is_correct = rr_is_correct r,
            retrieval_precision = prec, retrieval_precision_status = st\<rparr>))"

definition calibration_pairs :: "question_metrics list \<Rightarrow> (flt \<times> bool) list" where
  "calibration_pairs ms = concat (map (\<lambda>m. case m of
       Scored s \<Rightarrow> (case (m_confidence s, m_is_correct s) of (Some c, Some b) \<Rightarrow> [(c, b)] | _ \<Rightarrow> [])
     | Failed _ \<Rightarrow> []) ms)"

definition precision_values :: "question_metrics list \<Rightarrow> flt list" where
  "precision_values ms = concat (map (\<lambda>m. case m of
       Scored s \<Rightarrow> (case retrieval_precision s of Some p \<Rightarrow> [p] | None \<Rightarrow> [])
     | Failed _ \<Rightarrow> []) ms)"

definition mean :: "flt list \<Rightarrow> flt option" where
  "mean xs = (if xs = [] then None else Some (fdiv (fsum xs) (of_nat (length xs))))"

definition score_suite :: "question_metrics list \<Rightarrow> suite_metrics py" where
  "score_suite ms =
     (let pairs = calibration_pairs ms; ps = precision_values ms; mp = mean ps
      in py_bind (if pairs = [] then Inr None
                  else py_bind (calculate_calibration pairs 10) (\<lambda>e. Inr (Some e))) (\<lambda>e.
         Inr \<lparr>ece = e, ece_n_predictions = length pairs,
              calibration_status = (if pairs = [] then ''insufficient_data'' else ''computed''),
              mean_retrieval_precision = mp, precision_n_questions = length ps,
              precision_status = (if mp = None then ''insufficient_data'' else ''computed'')\<rparr>))"

section \<open>Runner\<close>

record question_result =
  qr_question_id :: uuid
  qr_version :: string
  qr_score :: "flt option"
  qr_metrics :: "(question_metrics \<times> suite_metrics) option"

record suite_result =
  sr_version :: string
  sr_results :: "question_result list"
  total_questions :: nat
  successful_runs :: nat

definition run_stub_benchmark :: "question \<Rightarrow> run_result py" where
  "run_stub_benchmark q = Inr \<lparr>rr_confidence = None, rr_is_correct = None, rr_evidence = Some []\<rparr>"

definition run_question :: "question \<Rightarrow> (flt option \<times> question_metrics) py" where
  "run_question q = py_bind (run_stub_benchmark q) (\<lambda>r. Inr (score_result RELEVANCE_JUDGMENTS q r))"

definition collect :: "question \<Rightarrow> question \<times> flt option \<times> question_metrics" where
  "collect q = (case run_question q of Inr (s, m) \<Rightarrow> (q, s, m) | Inl e \<Rightarrow> (q, None, Failed (exc_str e)))"

text \<open>\<open>now\<close> gives the time at which each row of the suite is created.\<close>

definition run_suite :: "py_exc option \<Rightarrow> (nat \<Rightarrow> int) \<Rightarrow> string \<Rightarrow> eval_db \<Rightarrow> eval_db \<times> suite_result py" where
  "run_suite commit now version db =
     (let qs = questions db; collected = map collect qs;
          ok = length (filter (\<lambda>q. isl (run_question q) = False) qs)
      in case score_suite (map (\<lambda>(_, _, m). m) collected) of
           Inl e \<Rightarrow> (db, Inl e)
         | Inr suite \<Rightarrow>
             (let rows = map (\<lambda>(i, (q, s, m)). \<lparr>benchmark_question_id = q_id q, run_version = version,
                      run_score = s, run_metrics = Some (m, suite), run_at = now i\<rparr>) (enumerate 0 collected);
                  results = map (\<lambda>(q, s, m). \<lparr>qr_question_id = q_id q, qr_version = version,
                      qr_score = s, qr_metrics = Some (m, suite)\<rparr>) collected;
                  res = \<lparr>sr_version = version, sr_results = results,
                      total_questions = length qs, successful_runs = ok\<rparr>
              in if qs = [] then (db, Inr res)
                 else case commit of Some e \<Rightarrow> (db, Inl e)
                      | None \<Rightarrow> (db\<lparr>runs := runs db @ rows\<rparr>, Inr res)))"

definition newest_first :: "benchmark_run list \<Rightarrow> benchmark_run list" where
  "newest_first rs = sort_key (\<lambda>r. - run_at r) rs"

definition target_version :: "string \<Rightarrow> eval_db \<Rightarrow> string option" where
  "target_version current db =
     (case newest_first (if current \<noteq> [] then filter (\<lambda>r. run_version r \<noteq> current) (runs db) else runs db) of
        r # _ \<Rightarrow> Some (run_version r)
      | [] \<Rightarrow> (case newest_first (runs db) of [] \<Rightarrow> None | r # _ \<Rightarrow> Some (run_version r)))"

definition fetch_baseline_by_version :: "(flt \<Rightarrow> flt) \<Rightarrow> string \<Rightarrow> eval_db \<Rightarrow> suite_result option" where
  "fetch_baseline_by_version stored current db =
     (case target_version current db of
        None \<Rightarrow> None
      | Some v \<Rightarrow>
          (let rs = filter (\<lambda>r. run_version r = v) (runs db);
               results = map (\<lambda>r. \<lparr>qr_question_id = benchmark_question_id r, qr_version = run_version r,
                  qr_score = map_option stored (run_score r), qr_metrics = run_metrics r\<rparr>) rs
           in if rs = [] then None
              else Some \<lparr>sr_version = v, sr_results = results, total_questions = length results,
                successful_runs = length (filter (\<lambda>r. qr_score r \<noteq> None) results)\<rparr>))"

section \<open>Questions\<close>

definition get_deterministic_question_id :: "(string \<Rightarrow> uuid) \<Rightarrow> json \<Rightarrow> uuid py" where
  "get_deterministic_question_id uuid5 raw =
     (case raw of
        JStr s \<Rightarrow> (case uuid_parse s of
            Inr u \<Rightarrow> Inr u | Inl (Value_Error _) \<Rightarrow> Inr (uuid5 s) | Inl e \<Rightarrow> Inl e)
      | JNull \<Rightarrow> Inl (Type_Error ''one of the hex, bytes, bytes_le, fields, or int arguments must be given'')
      | _ \<Rightarrow> Inl (Other_Error ''AttributeError''))"

definition read_item :: "(string \<Rightarrow> uuid) \<Rightarrow> string \<Rightarrow> int \<Rightarrow> json \<Rightarrow> question py" where
  "read_item uuid5 fresh now item =
     py_bind (json_get_or item ''id'' (JStr fresh)) (\<lambda>raw.
     py_bind (get_deterministic_question_id uuid5 raw) (\<lambda>u.
     py_bind (json_get_or item ''question_text'' (JStr [])) (\<lambda>t.
     py_bind (json_get_or item ''expected_domains'' (JArr [])) (\<lambda>d.
     py_bind (json_get_or item ''expected_complexity'' (JStr ''trivial'')) (\<lambda>c.
     py_bind (json_get_or item ''reference_answer'' (JStr [])) (\<lambda>a.
     py_bind (json_get_or item ''reference_evidence'' (JObj [])) (\<lambda>e.
       Inr \<lparr>q_id = u, question_text = t, expected_domains = d, expected_complexity = c,
            reference_answer = a, reference_evidence = e, q_created_at = now\<rparr>)))))))"

text \<open>Assigning the fields of an item to an existing row keeps the row's identifier and creation time.\<close>

definition overwrite_question :: "question \<Rightarrow> question list \<Rightarrow> question list" where
  "overwrite_question q tbl =
     map (\<lambda>r. if q_id r = q_id q then q\<lparr>q_created_at := q_created_at r\<rparr> else r) tbl"

text \<open>The session does not flush on queries: rows added in the loop are pending until the commit.\<close>

fun sync_items ::
    "(string \<Rightarrow> uuid) \<Rightarrow> bool \<Rightarrow> int \<Rightarrow> (nat \<Rightarrow> string) \<Rightarrow> nat \<Rightarrow> json list \<Rightarrow> question list \<Rightarrow> question list \<Rightarrow> nat
     \<Rightarrow> (question list \<times> question list \<times> nat) py" where
  "sync_items uuid5 ow now fresh i [] tbl pending n = Inr (tbl, pending, n)"
| "sync_items uuid5 ow now fresh i (item # items) tbl pending n =
     py_bind (read_item uuid5 (fresh i) now item) (\<lambda>q.
     py_bind (scalar_one_or_none (filter (\<lambda>r. q_id r = q_id q) tbl)) (\<lambda>existing.
       case existing of
         Some _ \<Rightarrow> if ow then sync_items uuid5 ow now fresh (i + 1) items (overwrite_question q tbl) pending (n + 1)
                   else sync_items uuid5 ow now fresh (i + 1) items tbl pending n
       | None \<Rightarrow> sync_items uuid5 ow now fresh (i + 1) items tbl (pending @ [q]) (n + 1)))"

definition sync_benchmark_questions ::
    "(string \<Rightarrow> uuid) \<Rightarrow> bool \<Rightarrow> int \<Rightarrow> (nat \<Rightarrow> string) \<Rightarrow> json list option \<Rightarrow> question list \<Rightarrow> (question list \<times> nat) py" where
  "sync_benchmark_questions uuid5 ow now fresh file tbl =
     (case file of
        None \<Rightarrow> Inr (tbl, 0)
      | Some data \<Rightarrow>
          py_bind (sync_items uuid5 ow now fresh 0 data tbl [] 0) (\<lambda>(tbl', pending, n).
            if distinct (map q_id pending) then Inr (tbl' @ pending, n) else Inl Integrity_Error))"

section \<open>Regression check\<close>

record question_delta =
  qd_question_id :: uuid
  baseline_score :: "flt option"
  current_score :: "flt option"
  qd_delta :: "flt option"
  qd_regressed :: bool

record regression_report =
  regressed :: bool
  rep_threshold :: flt
  average_baseline_score :: "flt option"
  average_current_score :: "flt option"
  overall_delta :: "flt option"
  overall_regressed :: bool
  added_questions_count :: nat
  removed_questions_count :: nat
  per_question_deltas :: "question_delta list"
  rep_summary :: string

definition newline :: string where "newline = [char_of (10 :: int)]"

definition score_map :: "question_result list \<Rightarrow> (uuid, flt option) dict" where
  "score_map rs = fold (\<lambda>r d. dict_set (qr_question_id r) (qr_score r) d) rs []"

text \<open>\<open>m[q]\<close> for an identifier that is a key of \<open>m\<close>.\<close>

definition score_of :: "(uuid, flt option) dict \<Rightarrow> uuid \<Rightarrow> flt option" where
  "score_of m q = (case dict_get m q of Some s \<Rightarrow> s | None \<Rightarrow> None)"

definition scores :: "(uuid, flt option) dict \<Rightarrow> uuid list \<Rightarrow> flt list" where
  "scores m ids = concat (map (\<lambda>q. case score_of m q of Some s \<Rightarrow> [s] | None \<Rightarrow> []) ids)"

definition delta_of :: "flt option \<Rightarrow> flt option \<Rightarrow> flt option" where
  "delta_of b c = (case (b, c) of (Some x, Some y) \<Rightarrow> Some (fsub x y) | _ \<Rightarrow> None)"

definition exceeds :: "flt \<Rightarrow> flt option \<Rightarrow> bool" where
  "exceeds threshold d = (case d of Some x \<Rightarrow> x > threshold | None \<Rightarrow> False)"

definition question_delta_of ::
    "flt \<Rightarrow> (uuid, flt option) dict \<Rightarrow> (uuid, flt option) dict \<Rightarrow> uuid \<Rightarrow> question_delta" where
  "question_delta_of threshold base cur q =
     (let d = delta_of (score_of base q) (score_of cur q)
      in \<lparr>qd_question_id = q, baseline_score = score_of base q, current_score = score_of cur q,
          qd_delta = d, qd_regressed = exceeds threshold d\<rparr>)"

definition summary_text ::
    "bool \<Rightarrow> flt \<Rightarrow> flt option \<Rightarrow> flt option \<Rightarrow> flt option \<Rightarrow> nat \<Rightarrow> nat \<Rightarrow> nat \<Rightarrow> nat \<Rightarrow> string" where
  "summary_text reg threshold avg_b avg_c od n_reg n_deltas n_added n_removed =
     (let text_of = (\<lambda>v. case v of Some x \<Rightarrow> format_fixed False 4 x | None \<Rightarrow> ''N/A'')
      in str_join newline
       ([''Regression Gate Result: '' @ (if reg then ''FAILED (Regressed)'' else ''PASSED''),
         ''Threshold: '' @ format_fixed False 2 threshold,
         ''Common Questions Score - Baseline: '' @ text_of avg_b @ '', Current: '' @ text_of avg_c] @
        (case od of Some x \<Rightarrow> [''Overall Delta (Baseline - Current): '' @ format_fixed True 4 x] | None \<Rightarrow> []) @
        [''Regressed Common Questions: '' @ int_str (int n_reg) @ ''/'' @ int_str (int n_deltas)] @
        (if n_added > 0 then [''Added Questions (Not in baseline): '' @ int_str (int n_added)] else []) @
        (if n_removed > 0 then [''Removed Questions (Missing in current): '' @ int_str (int n_removed)] else [])))"

definition first_run :: "flt \<Rightarrow> regression_report" where
  "first_run threshold =
     \<lparr>regressed = False, rep_threshold = threshold, average_baseline_score = None,
      average_current_score = None, overall_delta = None, overall_regressed = False,
      added_questions_count = 0, removed_questions_count = 0, per_question_deltas = [],
      rep_summary = ''No prior baseline run available for comparison. Regression check passed trivially (first run).''\<rparr>"

definition common_ids :: "suite_result \<Rightarrow> suite_result \<Rightarrow> uuid list" where
  "common_ids cur base =
     filter (\<lambda>q. q \<in> set (dict_keys (score_map (sr_results base)))) (dict_keys (score_map (sr_results cur)))"

definition missing_ids :: "suite_result \<Rightarrow> suite_result \<Rightarrow> uuid list" where
  "missing_ids a b =
     filter (\<lambda>q. q \<notin> set (dict_keys (score_map (sr_results b)))) (dict_keys (score_map (sr_results a)))"

text \<open>\<open>iter\<close> is the order in which Python iterates the set of the given identifiers.\<close>

definition check_for_regression ::
    "(uuid list \<Rightarrow> uuid list) \<Rightarrow> suite_result \<Rightarrow> suite_result option \<Rightarrow> flt \<Rightarrow> regression_report" where
  "check_for_regression iter current baseline threshold =
     (case baseline of
        None \<Rightarrow> first_run threshold
      | Some b \<Rightarrow>
          if sr_results b = [] then first_run threshold
          else
            (let cur = score_map (sr_results current); base = score_map (sr_results b);
                 common = iter (common_ids current b);
                 added = length (missing_ids current b); removed = length (missing_ids b current);
                 avg_b = mean (scores base common); avg_c = mean (scores cur common);
                 od = delta_of avg_b avg_c; oreg = exceeds threshold od;
                 deltas = map (question_delta_of threshold base cur) (sort_key uuid_str common);
                 n_reg = length (filter qd_regressed deltas); reg = (oreg \<or> n_reg > 0)
             in \<lparr>regressed = reg, rep_threshold = threshold, average_baseline_score = avg_b,
                 average_current_score = avg_c, overall_delta = od, overall_regressed = oreg,
                 added_questions_count = added, removed_questions_count = removed,
                 per_question_deltas = deltas,
                 rep_summary = summary_text reg threshold avg_b avg_c od n_reg (length deltas) added removed\<rparr>))"

section \<open>Gate\<close>

definition run_ci_gate ::
    "(string \<Rightarrow> uuid) \<Rightarrow> (uuid list \<Rightarrow> uuid list) \<Rightarrow> (flt \<Rightarrow> flt) \<Rightarrow> py_exc option \<Rightarrow> (nat \<Rightarrow> int) \<Rightarrow> (nat \<Rightarrow> string)
     \<Rightarrow> json list option \<Rightarrow> string \<Rightarrow> flt \<Rightarrow> bool \<Rightarrow> eval_db \<Rightarrow> eval_db \<times> regression_report py" where
  "run_ci_gate uuid5 iter stored commit now fresh file version threshold ow db =
     (case sync_benchmark_questions uuid5 ow (now 0) fresh file (questions db) of
        Inl e \<Rightarrow> (db, Inl e)
      | Inr (qs, _) \<Rightarrow>
          (let db1 = db\<lparr>questions := qs\<rparr>; baseline = fetch_baseline_by_version stored version db1
           in case run_suite commit (\<lambda>i. now (i + 1)) version db1 of
                (db2, Inl e) \<Rightarrow> (db2, Inl e)
              | (db2, Inr current) \<Rightarrow> (db2, Inr (check_for_regression iter current baseline threshold))))"

text \<open>The exit code of \<open>main\<close>: an exception of the gate also fails the build.\<close>

definition exit_code :: "regression_report py \<Rightarrow> int" where
  "exit_code r = (case r of Inl _ \<Rightarrow> 1 | Inr rep \<Rightarrow> if regressed rep then 1 else 0)"

section \<open>Calibration bins\<close>

lemma edges:
  "fl64 (3602879701896397 / 36028797018963968) = 3602879701896397 / 36028797018963968"
  "fl64 (3602879701896397 / 18014398509481984) = 3602879701896397 / 18014398509481984"
  "fl64 (10808639105689191 / 36028797018963968) = 1351079888211149 / 4503599627370496"
  "fl64 (14411518807585589 / 36028797018963968) = 3602879701896397 / 9007199254740992"
  "fl64 (3602879701896397 / 9007199254740992) = 3602879701896397 / 9007199254740992"
  "fl64 (18014398509481985 / 36028797018963968) = 1 / 2"
  "fl64 (21617278211378381 / 36028797018963968) = 5404319552844595 / 9007199254740992"
  "fl64 (10808639105689191 / 18014398509481984) = 1351079888211149 / 2251799813685248"
  "fl64 (25220157913274781 / 36028797018963968) = 6305039478318695 / 9007199254740992"
  "fl64 (25220157913274779 / 36028797018963968) = 6305039478318695 / 9007199254740992"
  "fl64 (28823037615171177 / 36028797018963968) = 3602879701896397 / 4503599627370496"
  "fl64 (3602879701896397 / 4503599627370496) = 3602879701896397 / 4503599627370496"
  "fl64 (32425917317067573 / 36028797018963968) = 8106479329266893 / 9007199254740992"
  "fl64 (36028797018963969 / 36028797018963968) = 1"
  using fl64_quotient [of 36028797018963968 3602879701896397 56 7205759403792794]
    fl64_quotient [of 18014398509481984 3602879701896397 55 7205759403792794]
    fl64_quotient [of 36028797018963968 10808639105689191 54 5404319552844596]
    fl64_quotient [of 36028797018963968 14411518807585589 54 7205759403792794]
    fl64_quotient [of 9007199254740992 3602879701896397 54 7205759403792794]
    fl64_quotient [of 36028797018963968 18014398509481985 53 4503599627370496]
    fl64_quotient [of 36028797018963968 21617278211378381 53 5404319552844595]
    fl64_quotient [of 18014398509481984 10808639105689191 53 5404319552844596]
    fl64_quotient [of 36028797018963968 25220157913274781 53 6305039478318695]
    fl64_quotient [of 36028797018963968 25220157913274779 53 6305039478318695]
    fl64_quotient [of 36028797018963968 28823037615171177 53 7205759403792794]
    fl64_quotient [of 4503599627370496 3602879701896397 53 7205759403792794]
    fl64_quotient [of 36028797018963968 32425917317067573 53 8106479329266893]
    fl64_quotient [of 36028797018963968 36028797018963969 52 4503599627370496]
  by (simp_all only: of_int_numeral power_numeral_even power_numeral_odd) simp_all


lemma tenth: "fdiv 1 10 = 3602879701896397 / 36028797018963968"
  using fl64_quotient [of 10 1 56 7205759403792794] by (simp add: fdiv_def)

lemma bin_lowers:
  "bin_lower 10 0 = 0"
  "bin_lower 10 1 = 3602879701896397 / 36028797018963968"
  "bin_lower 10 2 = 3602879701896397 / 18014398509481984"
  "bin_lower 10 3 = 1351079888211149 / 4503599627370496"
  "bin_lower 10 4 = 3602879701896397 / 9007199254740992"
  "bin_lower 10 5 = 1 / 2"
  "bin_lower 10 6 = 1351079888211149 / 2251799813685248"
  "bin_lower 10 7 = 6305039478318695 / 9007199254740992"
  "bin_lower 10 8 = 3602879701896397 / 4503599627370496"
  "bin_lower 10 9 = 8106479329266893 / 9007199254740992"
  by (simp_all add: bin_lower_def tenth fmul_def edges)

lemma bin_uppers:
  "bin_upper 10 0 = 3602879701896397 / 36028797018963968"
  "bin_upper 10 1 = 3602879701896397 / 18014398509481984"
  "bin_upper 10 2 = 1351079888211149 / 4503599627370496"
  "bin_upper 10 3 = 3602879701896397 / 9007199254740992"
  "bin_upper 10 4 = 1 / 2"
  "bin_upper 10 5 = 5404319552844595 / 9007199254740992"
  "bin_upper 10 6 = 6305039478318695 / 9007199254740992"
  "bin_upper 10 7 = 3602879701896397 / 4503599627370496"
  "bin_upper 10 8 = 8106479329266893 / 9007199254740992"
  "bin_upper 10 9 = 1"
  by (simp_all add: bin_upper_def bin_lowers tenth fadd_def edges del: One_nat_def)

lemma below_ten: "i < 9 \<Longrightarrow> i \<in> {0, 1, 2, 3, 4, 5, 6, 7, 8 :: nat}"
  by auto

text \<open>Neighbouring bins meet, except that a gap of one unit in the last place opens after the sixth.\<close>

lemma bins_adjacent: "i < 9 \<Longrightarrow> i \<noteq> 5 \<Longrightarrow> bin_upper 10 i = bin_lower 10 (i + 1)"
  using below_ten [of i] by (auto simp: bin_lowers bin_uppers simp del: One_nat_def)

lemma bins_apart: "i < 9 \<Longrightarrow> bin_upper 10 i \<le> bin_lower 10 (i + 1)"
  using bins_adjacent [of i] bin_lowers(7) bin_uppers(6) by (cases "i = 5") auto

lemma bin_lower_mono: "i \<le> j \<Longrightarrow> bin_lower 10 i \<le> bin_lower 10 j"
  unfolding bin_lower_def fmul_def by (intro fl64_mono mult_right_mono) (auto simp: tenth)

lemma bins_disjoint: "i < j \<Longrightarrow> j < 10 \<Longrightarrow> in_bin 10 i c \<Longrightarrow> \<not> in_bin 10 j c"
  using bins_apart [of i] bin_lower_mono [of "i + 1" j] by (auto simp: in_bin_def)

definition unbinned :: "flt \<Rightarrow> bool" where
  "unbinned c \<longleftrightarrow> bin_upper 10 5 \<le> c \<and> c < bin_lower 10 6"

lemma unbinned_no_bin: "unbinned c \<Longrightarrow> i < 10 \<Longrightarrow> \<not> in_bin 10 i c"
proof -
  assume c: "unbinned c" and i: "i < 10"
  have "bin_upper 10 i \<le> bin_upper 10 5" if "i \<le> 5"
    using fl64_mono that bin_lower_mono [of i 5] unfolding bin_upper_def fadd_def by (metis add_right_mono)
  moreover have "bin_lower 10 6 \<le> bin_lower 10 i" if "\<not> i \<le> 5"
    using that by (intro bin_lower_mono) simp
  ultimately show ?thesis
    using c i unfolding unbinned_def in_bin_def by (cases "i \<le> 5") auto
qed

lemma some_bin:
  assumes "0 \<le> c" "c \<le> 1" "\<not> unbinned c"
  shows "\<exists>i<10. in_bin 10 i c"
proof -
  define S where "S = {i. i < 10 \<and> bin_lower 10 i \<le> c}"
  have mem: "i \<in> S \<longleftrightarrow> i < 10 \<and> bin_lower 10 i \<le> c" for i by (simp add: S_def)
  have "0 \<in> S" using assms(1) bin_lowers(1) by (simp add: mem)
  moreover have fin: "finite S" by (simp add: S_def)
  ultimately have S: "Max S \<in> S" by (intro Max_in) auto
  have top: "bin_lower 10 (Max S + 1) > c" if "Max S < 9"
  proof -
    have "Max S + 1 \<notin> S" using Max_ge [OF fin, of "Max S + 1"] by auto
    with that show ?thesis by (simp add: mem not_le)
  qed
  show ?thesis
  proof (cases "Max S < 9")
    case True
    then have "c < bin_upper 10 (Max S)"
      using top bins_adjacent [of "Max S"] assms(3) S by (cases "Max S = 5") (auto simp: unbinned_def mem)
    with True S show ?thesis by (auto simp: in_bin_def mem intro!: exI [of _ "Max S"])
  next
    case False
    with S have "Max S = 9" by (auto simp: mem)
    with S assms(2) show ?thesis by (auto simp: in_bin_def mem bin_uppers intro!: exI [of _ 9])
  qed
qed

lemma six: "fl64 (3 / 5) = 5404319552844595 / 9007199254740992"
  using fl64_quotient [of 5 3 53 5404319552844595] by simp

lemma unbinned_double:
  assumes "fl64 c = c"
  shows "unbinned c \<longleftrightarrow> c = fl64 (3 / 5)"
proof
  show "unbinned c" if "c = fl64 (3 / 5)"
    using that by (simp add: six unbinned_def bin_lowers bin_uppers)
  assume "unbinned c"
  then have lo: "5404319552844595 \<le> c * 2 ^ 53" and hi: "c * 2 ^ 53 < 5404319552844596"
    by (simp_all add: unbinned_def bin_lowers bin_uppers field_simps)
  have "fl64 c = of_int (round_half_even (c * 2 ^ 53)) / 2 ^ 53"
    by (rule fl64_evalI) (use lo hi in auto)
  then have n: "c * 2 ^ 53 = of_int (round_half_even (c * 2 ^ 53))"
    using assms by simp
  then have "5404319552844595 \<le> round_half_even (c * 2 ^ 53)" "round_half_even (c * 2 ^ 53) < 5404319552844596"
    using lo hi by linarith+
  then show "c = fl64 (3 / 5)"
    using n by (simp add: six)
qed

lemma calibration_nonneg_step:
  assumes "0 \<le> e"
  shows "0 \<le> add_bin ps n i e"
    and "add_bin ps n i e = 0 \<longleftrightarrow> e = 0 \<and>
      (filter (\<lambda>p. in_bin n i (fst p)) ps = [] \<or> bin_gap (filter (\<lambda>p. in_bin n i (fst p)) ps) = 0)"
proof -
  let ?b = "filter (\<lambda>p. in_bin n i (fst p)) ps"
  have nonneg: "0 \<le> fmul (fdiv (of_nat (length ?b)) (of_nat (length ps))) (bin_gap ?b)"
    unfolding fmul_def fdiv_def bin_gap_def
    by (auto simp: Let_def intro!: fl64_nonneg mult_nonneg_nonneg)
  have weight: "0 < fdiv (of_nat (length ?b)) (of_nat (length ps))" if "?b \<noteq> []"
  proof -
    have b: "0 < length ?b" using that by simp
    also have "length ?b \<le> length ps" by (rule length_filter_le)
    finally have "0 < length ps" .
    with b show ?thesis unfolding fdiv_def by (intro fl64_pos divide_pos_pos) (simp_all only: of_nat_0_less_iff)
  qed
  have zero: "fl64 x = 0 \<longleftrightarrow> x = 0" for x
    using fl64_pos [of x] fl64_pos [of "- x"] by (cases x "0 :: rat" rule: linorder_cases) (auto simp: fl64_minus)
  show "0 \<le> add_bin ps n i e"
    using assms nonneg by (auto simp: add_bin_def Let_def fadd_def intro!: fl64_nonneg)
  show "add_bin ps n i e = 0 \<longleftrightarrow> e = 0 \<and> (?b = [] \<or> bin_gap ?b = 0)"
    using assms nonneg weight by (auto simp: add_bin_def Let_def fadd_def zero add_nonneg_eq_0_iff fmul_def)
qed

lemma calibration_fold:
  assumes "0 \<le> e"
  shows "0 \<le> fold (add_bin ps n) is e \<and>
    (fold (add_bin ps n) is e = 0 \<longleftrightarrow> e = 0 \<and>
      (\<forall>i\<in>set is. filter (\<lambda>p. in_bin n i (fst p)) ps = [] \<or> bin_gap (filter (\<lambda>p. in_bin n i (fst p)) ps) = 0))"
  using assms by (induction "is" arbitrary: e) (simp_all add: calibration_nonneg_step conj_assoc)

lemma bin_count:
  assumes "0 \<le> c" "c \<le> 1" "fl64 c = c"
  shows "card {i. i < 10 \<and> in_bin 10 i c} = (if c = fl64 (3 / 5) then 0 else 1)"
proof (cases "unbinned c")
  case True
  then have "{i. i < 10 \<and> in_bin 10 i c} = {}" using unbinned_no_bin by auto
  with True show ?thesis by (simp add: unbinned_double [OF assms(3)])
next
  case False
  then obtain i where i: "i < 10" "in_bin 10 i c" using some_bin [OF assms(1,2)] by blast
  have uniq: "j = i" if j: "j < 10" "in_bin 10 j c" for j
    by (rule linorder_cases [of i j]) (use i j bins_disjoint in blast)+
  have "{i. i < 10 \<and> in_bin 10 i c} = {i}"
  proof (rule equalityI; rule subsetI)
    fix j assume "j \<in> {i. i < 10 \<and> in_bin 10 i c}"
    then show "j \<in> {i}" using uniq [of j] by simp
  next
    fix j assume "j \<in> {i}"
    then show "j \<in> {i. i < 10 \<and> in_bin 10 i c}" using i by simp
  qed
  with False show ?thesis by (simp add: unbinned_double [OF assms(3)])
qed

text \<open>The calibration error with the ten default bins. It raises exactly on an empty list, is never
  negative, and is zero exactly when in every bin that holds predictions the average confidence
  equals the accuracy. Every confidence in the unit interval falls into exactly one bin, with one
  exception that the rounding of the bin edges makes: the float \<open>0.6\<close> falls into none.
\<close>

theorem calibration_error_sound:
  assumes "ps \<noteq> []"
  shows "(\<exists>m. calculate_calibration [] 10 = Inl (Value_Error m)) \<and>
    (\<exists>e. calculate_calibration ps 10 = Inr e \<and> 0 \<le> e \<and>
      (e = 0 \<longleftrightarrow> list_all (\<lambda>i. let b = filter (\<lambda>p. in_bin 10 i (fst p)) ps
         in b = [] \<or> bin_gap b = 0) [0..<10])) \<and>
    (\<forall>c. 0 \<le> c \<and> c \<le> 1 \<and> fl64 c = c \<longrightarrow>
      card {i. i < 10 \<and> in_bin 10 i c} = (if c = fl64 (3 / 5) then 0 else 1))"
  using assms calibration_fold [of 0 ps 10 "[0..<10]"] bin_count
  by (simp add: calculate_calibration_def list_all_iff Let_def)

theorem calibration_error_sound_witness:
  "(\<exists>e. calculate_calibration [(1, True), (0, False)] 10 = Inr e \<and> 0 \<le> e) \<and>
   card {i. i < 10 \<and> in_bin 10 i (1 :: flt)} = 1"
proof -
  have "[(1, True), (0, False)] \<noteq> ([] :: (flt \<times> bool) list)" by simp
  note facts = calibration_error_sound [OF this]
  have one: "card {i. i < 10 \<and> in_bin 10 i (1 :: flt)} = (if 1 = fl64 (3 / 5) then 0 else 1)"
    by (rule facts [THEN conjunct2, THEN conjunct2, rule_format]) simp
  from facts [THEN conjunct2, THEN conjunct1] show ?thesis
    unfolding one by (auto simp: six)
qed

text \<open>A wrong prediction of confidence \<open>0.6\<close> has no effect on the error.\<close>

lemma six_tenths_ignored: "calculate_calibration [(fl64 (3 / 5), False)] 10 = Inr 0"
proof -
  have "unbinned (fl64 (3 / 5))" by (simp add: unbinned_double fl64_idem)
  then have "i < 10 \<Longrightarrow> \<not> in_bin 10 i (fl64 (3 / 5))" for i by (rule unbinned_no_bin)
  then show ?thesis
    using calibration_fold [of 0 "[(fl64 (3 / 5), False)]" 10 "[0..<10]"] by (simp add: calculate_calibration_def)
qed

section \<open>Question sync\<close>

text \<open>The questions of the file, the row of an identifier, and what a sync leaves there.\<close>

fun read_items :: "(string \<Rightarrow> uuid) \<Rightarrow> (nat \<Rightarrow> string) \<Rightarrow> int \<Rightarrow> nat \<Rightarrow> json list \<Rightarrow> question list py" where
  "read_items uuid5 fresh now i [] = Inr []"
| "read_items uuid5 fresh now i (it # its) =
     py_bind (read_item uuid5 (fresh i) now it) (\<lambda>q.
     py_bind (read_items uuid5 fresh now (i + 1) its) (\<lambda>qs. Inr (q # qs)))"

definition lookup_question :: "question list \<Rightarrow> uuid \<Rightarrow> question option" where
  "lookup_question tbl u = find (\<lambda>r. q_id r = u) tbl"

definition merged :: "bool \<Rightarrow> question option \<Rightarrow> question option \<Rightarrow> question option" where
  "merged ow existing item = (case existing of
       None \<Rightarrow> item
     | Some r \<Rightarrow> (case item of Some q \<Rightarrow> Some (if ow then q\<lparr>q_created_at := q_created_at r\<rparr> else r) | None \<Rightarrow> Some r))"

definition has_id :: "json \<Rightarrow> bool" where
  "has_id item = (case item of JObj kvs \<Rightarrow> dict_get kvs ''id'' \<noteq> None | _ \<Rightarrow> False)"

lemma overwrite_ids [simp]: "map q_id (overwrite_question q tbl) = map q_id tbl"
  by (auto simp: overwrite_question_def)

lemma overwrite_absent: "q_id q \<notin> q_id ` set tbl \<Longrightarrow> overwrite_question q tbl = tbl"
  unfolding overwrite_question_def by (rule map_idI) (force simp: image_iff)

lemma ids_image: "q_id ` set tbl = set (map q_id tbl)"
  by simp

lemma sync_items_spec:
  assumes "read_items uuid5 fresh now i items = Inr qs" "distinct (map q_id tbl)"
  shows "sync_items uuid5 ow now fresh i items tbl pend n =
    Inr (if ow then fold overwrite_question qs tbl else tbl,
         pend @ filter (\<lambda>q. q_id q \<notin> q_id ` set tbl) qs,
         n + (if ow then length qs else length (filter (\<lambda>q. q_id q \<notin> q_id ` set tbl) qs)))"
  using assms
proof (induction items arbitrary: i qs tbl pend n)
  case (Cons item items)
  from Cons.prems(1) obtain q qs' where q: "read_item uuid5 (fresh i) now item = Inr q"
    and qs': "read_items uuid5 fresh now (i + 1) items = Inr qs'" and qs: "qs = q # qs'"
    by (auto simp: py_bind_Inr_iff)
  have "filter (\<lambda>r. q_id r = q_id q) tbl = [] \<or> (\<exists>x. filter (\<lambda>r. q_id r = q_id q) tbl = [x])"
    using unique_column_rows [of q_id "\<lambda>_. True" tbl "q_id q"] Cons.prems(2) by simp
  then consider "filter (\<lambda>r. q_id r = q_id q) tbl = []"
    | x where "filter (\<lambda>r. q_id r = q_id q) tbl = [x]" by blast
  then show ?case
  proof cases
    case 1
    then have "q_id q \<notin> q_id ` set tbl" by (force simp: filter_empty_conv)
    then show ?thesis
      using Cons.IH [OF qs' Cons.prems(2)] by (simp add: q qs 1 scalar_one_or_none_def overwrite_absent)
  next
    case 2
    then have "x \<in> set (filter (\<lambda>r. q_id r = q_id q) tbl)" by simp
    then have "x \<in> set tbl" "q_id q = q_id x" by simp_all
    then have mem: "q_id q \<in> q_id ` set tbl" by (rule rev_image_eqI)
    have ids: "q_id ` set (overwrite_question q tbl) = q_id ` set tbl"
      unfolding ids_image overwrite_ids ..
    have "distinct (map q_id (overwrite_question q tbl))"
      using Cons.prems(2) by simp
    from Cons.IH [OF qs' this] Cons.IH [OF qs' Cons.prems(2)] mem show ?thesis
      by (cases ow) (simp_all add: q qs 2 scalar_one_or_none_def ids)
  qed
qed simp

lemma lookup_overwrite:
  "lookup_question (overwrite_question q tbl) u =
     map_option (\<lambda>r. if q_id q = u then q\<lparr>q_created_at := q_created_at r\<rparr> else r) (lookup_question tbl u)"
  unfolding lookup_question_def overwrite_question_def by (induction tbl) auto

lemma lookup_absent: "lookup_question tbl u = None \<longleftrightarrow> u \<notin> q_id ` set tbl"
  unfolding lookup_question_def by (auto simp: find_None_iff)

lemma lookup_id: "lookup_question tbl u = Some r \<Longrightarrow> q_id r = u"
  unfolding lookup_question_def by (auto simp: find_Some_iff)

lemma lookup_fold_overwrite:
  "distinct (map q_id qs) \<Longrightarrow> lookup_question (fold overwrite_question qs tbl) u =
     (case lookup_question tbl u of None \<Rightarrow> None | Some r \<Rightarrow> merged True (Some r) (lookup_question qs u))"
proof (induction qs arbitrary: tbl)
  case Nil
  then show ?case by (simp add: merged_def lookup_question_def split: option.splits)
next
  case (Cons q qs)
  have "q_id q = u \<Longrightarrow> lookup_question qs u = None"
    using Cons.prems by (auto simp: lookup_absent)
  then show ?case
    using Cons by (auto simp: lookup_overwrite merged_def split: option.splits)
      (auto simp: lookup_question_def)
qed

lemma lookup_append:
  "lookup_question (xs @ ys) u = (case lookup_question xs u of None \<Rightarrow> lookup_question ys u | r \<Rightarrow> r)"
  unfolding lookup_question_def by (induction xs) auto

lemma lookup_filter:
  "lookup_question (filter (\<lambda>q. q_id q \<notin> S) qs) u = (if u \<in> S then None else lookup_question qs u)"
  unfolding lookup_question_def by (induction qs) auto

lemma lookup_mem: "distinct (map q_id tbl) \<Longrightarrow> r \<in> set tbl \<Longrightarrow> lookup_question tbl (q_id r) = Some r"
  unfolding lookup_question_def by (induction tbl) auto

lemma fold_overwrite_ids: "map q_id (fold overwrite_question qs tbl) = map q_id tbl"
  by (induction qs arbitrary: tbl) auto

lemma read_item_again:
  "has_id item \<Longrightarrow> read_item uuid5 f now item = Inr q \<Longrightarrow>
     read_item uuid5 f' now' item = Inr (q\<lparr>q_created_at := now'\<rparr>)"
  by (cases item) (auto simp: has_id_def read_item_def dict_get_or_def py_bind_Inr_iff)

lemma read_items_again:
  "list_all has_id items \<Longrightarrow> read_items uuid5 f now i items = Inr qs \<Longrightarrow>
     read_items uuid5 f' now' j items = Inr (map (\<lambda>q. q\<lparr>q_created_at := now'\<rparr>) qs)"
  by (induction items arbitrary: i j qs) (auto simp: py_bind_Inr_iff read_item_again)

lemma fold_idle: "(\<And>q. q \<in> set qs \<Longrightarrow> f q t = t) \<Longrightarrow> fold f qs t = t"
  by (induction qs) auto

lemma sync_table:
  assumes tbl: "distinct (map q_id tbl)" and read: "read_items uuid5 fresh now 0 data = Inr qs"
    and ids: "distinct (map q_id qs)"
  obtains tbl' where
    "sync_benchmark_questions uuid5 ow now fresh (Some data) tbl =
       Inr (tbl', if ow then length qs else card (q_id ` set qs - q_id ` set tbl))"
    "distinct (map q_id tbl')"
    "\<And>u. lookup_question tbl' u = merged ow (lookup_question tbl u) (lookup_question qs u)"
proof -
  let ?new = "filter (\<lambda>q. q_id q \<notin> q_id ` set tbl) qs"
  let ?old = "if ow then fold overwrite_question qs tbl else tbl"
  have new: "distinct (map q_id ?new)" using ids by (rule distinct_map_filter)
  have old: "map q_id ?old = map q_id tbl" by (simp add: fold_overwrite_ids)
  have disj: "set (map q_id ?old) \<inter> set (map q_id ?new) = {}"
    unfolding old by (force simp: image_iff)
  have "length ?new = card (set (map q_id ?new))"
    using distinct_card [OF new] by simp
  also have "set (map q_id ?new) = q_id ` set qs - q_id ` set tbl" by auto
  finally have cnt: "length ?new = card (q_id ` set qs - q_id ` set tbl)" .
  have view: "lookup_question (?old @ ?new) u = merged ow (lookup_question tbl u) (lookup_question qs u)" for u
  proof (cases "lookup_question tbl u")
    case None
    then have "u \<notin> q_id ` set tbl" by (simp add: lookup_absent)
    with None show ?thesis
      by (simp add: lookup_append lookup_fold_overwrite [OF ids] lookup_filter merged_def)
  next
    case (Some r)
    then show ?thesis
      by (cases "lookup_question qs u") (auto simp: lookup_append lookup_fold_overwrite [OF ids] merged_def)
  qed
  show thesis
  proof (rule that [of "?old @ ?new"])
    show "sync_benchmark_questions uuid5 ow now fresh (Some data) tbl =
       Inr (?old @ ?new, if ow then length qs else card (q_id ` set qs - q_id ` set tbl))"
      using new by (simp add: sync_benchmark_questions_def sync_items_spec [OF read tbl] cnt)
    show "distinct (map q_id (?old @ ?new))"
      using new tbl disj unfolding map_append distinct_append old by simp
  qed (rule view)
qed

text \<open>The question sync merges the file into the table. For a file whose items can be read and have
  different identifiers it succeeds, keeps identifiers unique, and leaves for every identifier: the
  existing row when there is one (with the fields of the file and its own creation time if
  overwriting is asked for, untouched otherwise), the row of the file when there is none. The count is
  the number of items when overwriting and of new rows otherwise. Repeating the sync later, when every
  item names its identifier, changes nothing.
\<close>

theorem sync_contract:
  assumes "distinct (map q_id tbl)" "read_items uuid5 fresh now 0 data = Inr qs"
    and "distinct (map q_id qs)" "list_all has_id data"
  shows "\<exists>tbl'.
    sync_benchmark_questions uuid5 ow now fresh (Some data) tbl =
      Inr (tbl', if ow then length qs else card (q_id ` set qs - q_id ` set tbl)) \<and>
    distinct (map q_id tbl') \<and>
    (\<forall>u. lookup_question tbl' u = merged ow (lookup_question tbl u) (lookup_question qs u)) \<and>
    sync_benchmark_questions uuid5 ow now' fresh' (Some data) tbl' = Inr (tbl', if ow then length qs else 0)"
proof -
  obtain tbl' where run: "sync_benchmark_questions uuid5 ow now fresh (Some data) tbl =
      Inr (tbl', if ow then length qs else card (q_id ` set qs - q_id ` set tbl))"
    and dist: "distinct (map q_id tbl')"
    and view: "\<And>u. lookup_question tbl' u = merged ow (lookup_question tbl u) (lookup_question qs u)"
    by (rule sync_table [OF assms(1-3)]) blast
  define again where "again = map (\<lambda>q. q\<lparr>q_created_at := now'\<rparr>) qs"
  have read: "read_items uuid5 fresh' now' 0 data = Inr again"
    unfolding again_def by (rule read_items_again [OF assms(4,2)])
  have known: "q_id q \<in> q_id ` set tbl'" if "q \<in> set again" for q
  proof -
    have "q_id q \<in> q_id ` set qs" using that by (auto simp: again_def)
    then have "lookup_question tbl' (q_id q) \<noteq> None"
      using lookup_absent [of qs "q_id q"] by (auto simp: view merged_def split: option.splits)
    then show ?thesis by (simp add: lookup_absent)
  qed
  have same: "overwrite_question q tbl' = tbl'" if ow and q: "q \<in> set again" for q
  proof -
    obtain q0 where q0: "q0 \<in> set qs" "q = q0\<lparr>q_created_at := now'\<rparr>" using q by (auto simp: again_def)
    have look: "lookup_question qs (q_id q) = Some q0"
      using lookup_mem [OF assms(3) q0(1)] q0(2) by simp
    have "q\<lparr>q_created_at := q_created_at r\<rparr> = r" if r: "r \<in> set tbl'" "q_id r = q_id q" for r
      using lookup_mem [OF dist r(1)] look \<open>ow\<close> r(2) q0(2)
      by (auto simp: view merged_def split: option.splits)
    then show ?thesis unfolding overwrite_question_def by (intro map_idI) auto
  qed
  have "filter (\<lambda>q. q_id q \<notin> q_id ` set tbl') again = []"
    using known by (simp add: filter_empty_conv)
  moreover have "fold overwrite_question again tbl' = tbl'" if ow
    using same [OF that] by (rule fold_idle)
  moreover have "length again = length qs" by (simp add: again_def)
  ultimately have "sync_benchmark_questions uuid5 ow now' fresh' (Some data) tbl' = Inr (tbl', if ow then length qs else 0)"
    by (simp add: sync_benchmark_questions_def sync_items_spec [OF read dist])
  with run dist view show ?thesis by blast
qed

definition example_item :: json where
  "example_item = JObj [(''id'', JStr ''bench-1''), (''question_text'', JStr ''Q'')]"

theorem sync_contract_witness:
  "\<exists>tbl'. sync_benchmark_questions (\<lambda>_. 7) True 0 (\<lambda>_. []) (Some [example_item]) [] = Inr (tbl', 1) \<and>
     sync_benchmark_questions (\<lambda>_. 7) True 5 (\<lambda>_. []) (Some [example_item]) tbl' = Inr (tbl', 1)"
proof -
  have id: "get_deterministic_question_id (\<lambda>_. 7) (JStr ''bench-1'') = Inr 7"
    by code_simp
  obtain q where q: "read_items (\<lambda>_. 7) (\<lambda>_. []) 0 0 [example_item] = Inr [q]"
    by (simp add: example_item_def read_item_def dict_get_or_def id)
  then show ?thesis
    using sync_contract [of "[]" "\<lambda>_. 7" "\<lambda>_. []" 0 "[example_item]" "[q]" True 5 "\<lambda>_. []"]
    by (simp add: has_id_def example_item_def) blast
qed

section \<open>Regression policy\<close>

text \<open>The score a question ends up with: that of its last result.\<close>

definition latest :: "suite_result \<Rightarrow> uuid \<Rightarrow> flt option option" where
  "latest r q = map_option qr_score (find (\<lambda>x. qr_question_id x = q) (rev (sr_results r)))"

definition question_ids :: "suite_result \<Rightarrow> uuid set" where
  "question_ids r = qr_question_id ` set (sr_results r)"

definition set_order :: "(uuid list \<Rightarrow> uuid list) \<Rightarrow> bool" where
  "set_order iter \<longleftrightarrow> (\<forall>xs. distinct xs \<longrightarrow> distinct (iter xs) \<and> set (iter xs) = set xs)"

lemma score_map_get: "dict_get (score_map (sr_results r)) q = latest r q"
proof -
  have get: "dict_get (fold (\<lambda>x d. dict_set (qr_question_id x) (qr_score x) d) xs d) q =
      (case find (\<lambda>x. qr_question_id x = q) (rev xs) of None \<Rightarrow> dict_get d q | Some x \<Rightarrow> Some (qr_score x))" for xs d
  proof (induction xs rule: rev_induct)
    case (snoc x xs)
    then show ?case by (auto simp: dict_simps split: option.splits)
  qed simp
  show ?thesis
    unfolding score_map_def latest_def get by (simp split: option.splits)
qed

lemma score_map_wf: "dict_wf (score_map rs)"
proof -
  have "dict_wf d \<Longrightarrow> dict_wf (fold (\<lambda>x d. dict_set (qr_question_id x) (qr_score x) d) rs d)" for d :: "(uuid, flt option) dict"
    by (induction rs arbitrary: d) auto
  then show ?thesis by (simp add: score_map_def)
qed

lemma latest_in: "latest r q = Some s \<Longrightarrow> \<exists>x\<in>set (sr_results r). qr_question_id x = q \<and> qr_score x = s"
proof -
  assume "latest r q = Some s"
  then obtain x where x: "find (\<lambda>x. qr_question_id x = q) (rev (sr_results r)) = Some x" "s = qr_score x"
    by (auto simp: latest_def)
  from find_Some_in [OF x(1)] x(2) show ?thesis by auto
qed

lemma latest_mem: "q \<in> question_ids r \<longleftrightarrow> latest r q \<noteq> None"
  using latest_in [of r q] by (auto simp: latest_def question_ids_def find_None_iff)

lemma score_map_keys: "set (dict_keys (score_map (sr_results r))) = question_ids r"
proof -
  have eq: "q \<in> set (dict_keys (score_map (sr_results r))) \<longleftrightarrow> latest r q \<noteq> None" for q
    using dict_get_None_iff [of "score_map (sr_results r)" q] by (simp add: score_map_get)
  show ?thesis by (rule set_eqI) (simp only: eq latest_mem)
qed

lemma score_of_latest: "score_of (score_map (sr_results r)) q = (case latest r q of Some s \<Rightarrow> s | None \<Rightarrow> None)"
  by (simp add: score_of_def score_map_get)

lemma ids_partition:
  "distinct (common_ids a b)" "set (common_ids a b) = question_ids a \<inter> question_ids b"
  "length (missing_ids a b) = card (question_ids a - question_ids b)"
proof -
  have d: "distinct (dict_keys (score_map (sr_results r)))" for r
    using score_map_wf by (simp add: dict_wf_def)
  show "distinct (common_ids a b)" unfolding common_ids_def by (intro distinct_filter d)
  show "set (common_ids a b) = question_ids a \<inter> question_ids b"
    using score_map_keys [of a] score_map_keys [of b] by (auto simp: common_ids_def)
  have "distinct (missing_ids a b)" unfolding missing_ids_def by (intro distinct_filter d)
  then have "length (missing_ids a b) = card (set (missing_ids a b))" by (rule distinct_card [symmetric])
  also have "set (missing_ids a b) = question_ids a - question_ids b"
    using score_map_keys [of a] score_map_keys [of b] by (auto simp: missing_ids_def)
  finally show "length (missing_ids a b) = card (question_ids a - question_ids b)" .
qed

lemma exceeds_iff: "exceeds thr (delta_of x y) \<longleftrightarrow> (\<exists>b c. x = Some b \<and> y = Some c \<and> fsub b c > thr)"
  by (auto simp: exceeds_def delta_of_def split: option.splits)

text \<open>What a report on two runs with results says, field by field.\<close>

lemma report_fields:
  fixes iter a b thr
  defines "rep \<equiv> check_for_regression iter a (Some b) thr"
  assumes iter: "set_order iter" and ne: "sr_results b \<noteq> []"
  shows "map qd_question_id (per_question_deltas rep) = sort_key uuid_str (iter (common_ids a b))"
    and "set (map qd_question_id (per_question_deltas rep)) = question_ids a \<inter> question_ids b"
    and "distinct (map qd_question_id (per_question_deltas rep))"
    and "added_questions_count rep = card (question_ids a - question_ids b)"
    and "removed_questions_count rep = card (question_ids b - question_ids a)"
    and "overall_regressed rep \<longleftrightarrow> (\<exists>x y. average_baseline_score rep = Some x \<and>
           average_current_score rep = Some y \<and> fsub x y > thr)"
    and "regressed rep \<longleftrightarrow> overall_regressed rep \<or>
      (\<exists>q x y. latest b q = Some (Some x) \<and> latest a q = Some (Some y) \<and> fsub x y > thr)"
    and "average_baseline_score rep = mean (scores (score_map (sr_results b)) (iter (common_ids a b)))"
    and "average_current_score rep = mean (scores (score_map (sr_results a)) (iter (common_ids a b)))"
proof -
  let ?c = "iter (common_ids a b)"
  have c: "distinct ?c" "set ?c = question_ids a \<inter> question_ids b"
    using iter ids_partition(1,2) [of a b] by (auto simp: set_order_def)
  have deltas: "per_question_deltas rep =
      map (question_delta_of thr (score_map (sr_results b)) (score_map (sr_results a))) (sort_key uuid_str ?c)"
    using ne by (simp add: rep_def check_for_regression_def Let_def)
  show ids: "map qd_question_id (per_question_deltas rep) = sort_key uuid_str ?c"
    by (simp add: deltas question_delta_of_def Let_def comp_def)
  show "set (map qd_question_id (per_question_deltas rep)) = question_ids a \<inter> question_ids b"
    "distinct (map qd_question_id (per_question_deltas rep))"
    unfolding ids using c by simp_all
  show "added_questions_count rep = card (question_ids a - question_ids b)"
    "removed_questions_count rep = card (question_ids b - question_ids a)"
    using ne by (simp_all add: rep_def check_for_regression_def Let_def ids_partition(3))
  show avgs: "average_baseline_score rep = mean (scores (score_map (sr_results b)) ?c)"
    "average_current_score rep = mean (scores (score_map (sr_results a)) ?c)"
    using ne by (simp_all add: rep_def check_for_regression_def Let_def)
  have "overall_regressed rep = exceeds thr (delta_of (average_baseline_score rep) (average_current_score rep))"
    unfolding avgs using ne by (simp add: rep_def check_for_regression_def Let_def)
  then show "overall_regressed rep \<longleftrightarrow> (\<exists>x y. average_baseline_score rep = Some x \<and>
           average_current_score rep = Some y \<and> fsub x y > thr)"
    by (simp add: exceeds_iff)
  have "regressed rep \<longleftrightarrow> overall_regressed rep \<or> filter qd_regressed (per_question_deltas rep) \<noteq> []"
    using ne by (simp add: rep_def check_for_regression_def Let_def)
  also have "filter qd_regressed (per_question_deltas rep) \<noteq> [] \<longleftrightarrow>
      (\<exists>q\<in>set ?c. exceeds thr (delta_of (score_of (score_map (sr_results b)) q) (score_of (score_map (sr_results a)) q)))"
    by (auto simp: deltas filter_empty_conv question_delta_of_def Let_def)
  also have "\<dots> \<longleftrightarrow> (\<exists>q x y. latest b q = Some (Some x) \<and> latest a q = Some (Some y) \<and> fsub x y > thr)"
  proof -
    have "(q \<in> question_ids a \<inter> question_ids b \<and> (\<exists>x y. (case latest b q of Some s \<Rightarrow> s | None \<Rightarrow> None) = Some x \<and>
        (case latest a q of Some s \<Rightarrow> s | None \<Rightarrow> None) = Some y \<and> fsub x y > thr)) \<longleftrightarrow>
        (\<exists>x y. latest b q = Some (Some x) \<and> latest a q = Some (Some y) \<and> fsub x y > thr)" for q
      unfolding Int_iff latest_mem by (cases "latest a q"; cases "latest b q") simp_all
    then show ?thesis
      unfolding c(2) exceeds_iff score_of_latest Bex_def by simp
  qed
  finally show "regressed rep \<longleftrightarrow> overall_regressed rep \<or>
      (\<exists>q x y. latest b q = Some (Some x) \<and> latest a q = Some (Some y) \<and> fsub x y > thr)" .
qed

lemma scores_same:
  "(\<And>q. q \<in> set ids \<Longrightarrow> latest a q = latest b q) \<Longrightarrow>
     scores (score_map (sr_results a)) ids = scores (score_map (sr_results b)) ids"
  unfolding scores_def score_of_latest by (induction ids) auto

text \<open>The regression policy. Whatever order Python iterates the common questions in, a report on two
  runs flags a regression exactly when the mean over the common questions drops by more than the
  threshold or some question that both runs scored drops by more than the threshold; it lists one
  delta per common question, sorted by identifier, and counts the added and the removed ones, so that
  every question is accounted for. A run that scores every common question as the baseline did passes
  for every threshold that is not negative, and without a baseline the gate passes.
\<close>

theorem check_for_regression_exact:
  assumes "set_order iter" "sr_results b \<noteq> []"
  shows "let rep = check_for_regression iter a (Some b) thr; ids = map qd_question_id (per_question_deltas rep)
    in (regressed rep \<longleftrightarrow>
          (\<exists>x y. average_baseline_score rep = Some x \<and> average_current_score rep = Some y \<and> fsub x y > thr) \<or>
          (\<exists>q x y. latest b q = Some (Some x) \<and> latest a q = Some (Some y) \<and> fsub x y > thr)) \<and>
       set ids = question_ids a \<inter> question_ids b \<and> distinct ids \<and> sorted (map uuid_str ids) \<and>
       added_questions_count rep + length ids = card (question_ids a) \<and>
       removed_questions_count rep + length ids = card (question_ids b) \<and>
       (0 \<le> thr \<and> (\<forall>q\<in>question_ids a \<inter> question_ids b. latest a q = latest b q) \<longrightarrow> \<not> regressed rep) \<and>
       \<not> regressed (check_for_regression iter a None thr)"
proof -
  let ?rep = "check_for_regression iter a (Some b) thr"
  note rep = report_fields [OF assms, of a thr]
  have fin: "finite (question_ids r)" for r by (simp add: question_ids_def)
  have count: "length (map qd_question_id (per_question_deltas ?rep)) = card (question_ids a \<inter> question_ids b)"
    using distinct_card [OF rep(3)] unfolding rep(2) by (rule sym)
  have split: "card (question_ids x - question_ids y) + card (question_ids x \<inter> question_ids y) = card (question_ids x)" for x y
    using card_Diff_subset_Int [of "question_ids x" "question_ids y"] card_mono [OF fin, of "question_ids x \<inter> question_ids y" x] fin
    by auto
  have srt: "sorted (map uuid_str (map qd_question_id (per_question_deltas ?rep)))"
    unfolding rep(1) by (rule sorted_sort_key)
  have pass: "\<not> regressed ?rep" if thr: "0 \<le> thr" and same: "\<forall>q\<in>question_ids a \<inter> question_ids b. latest a q = latest b q"
  proof -
    have zero: "\<not> fsub x x > thr" for x using thr by (simp add: fsub_def)
    have "set (iter (common_ids a b)) = question_ids a \<inter> question_ids b"
      using assms(1) ids_partition(1,2) [of a b] by (auto simp: set_order_def)
    then have "average_baseline_score ?rep = average_current_score ?rep"
      unfolding rep(8,9) using same scores_same [of "iter (common_ids a b)" a b] by simp
    then have overall: "\<not> overall_regressed ?rep"
      unfolding rep(6) using zero by auto
    have "\<not> fsub x y > thr" if "latest b q = Some (Some x)" "latest a q = Some (Some y)" for q x y
    proof -
      have "q \<in> question_ids a \<inter> question_ids b" using that by (simp add: latest_mem)
      with same that show ?thesis using zero by auto
    qed
    with overall show ?thesis unfolding rep(7) by blast
  qed
  show ?thesis
    unfolding Let_def
  proof (intro conjI)
    show "regressed ?rep \<longleftrightarrow>
          (\<exists>x y. average_baseline_score ?rep = Some x \<and> average_current_score ?rep = Some y \<and> fsub x y > thr) \<or>
          (\<exists>q x y. latest b q = Some (Some x) \<and> latest a q = Some (Some y) \<and> fsub x y > thr)"
      using rep(6,7) by simp
    show "added_questions_count ?rep + length (map qd_question_id (per_question_deltas ?rep)) = card (question_ids a)"
      unfolding rep(4) count by (rule split)
    show "removed_questions_count ?rep + length (map qd_question_id (per_question_deltas ?rep)) = card (question_ids b)"
      unfolding rep(5) count using split [of b a] by (simp add: Int_commute)
    show "0 \<le> thr \<and> (\<forall>q\<in>question_ids a \<inter> question_ids b. latest a q = latest b q) \<longrightarrow> \<not> regressed ?rep"
      using pass by blast
    show "\<not> regressed (check_for_regression iter a None thr)"
      by (simp add: check_for_regression_def first_run_def)
  qed (fact rep(2) rep(3) srt)+
qed

definition example_run :: "flt option list \<Rightarrow> suite_result" where
  "example_run ss = \<lparr>sr_version = ''v'', sr_results = map (\<lambda>(i, s). \<lparr>qr_question_id = i, qr_version = ''v'',
      qr_score = s, qr_metrics = None\<rparr>) (enumerate 0 ss), total_questions = length ss, successful_runs = 0\<rparr>"

theorem check_for_regression_exact_witness:
  "regressed (check_for_regression (\<lambda>xs. xs) (example_run [Some 0]) (Some (example_run [Some 1, None])) (1 / 2)) \<and>
   \<not> regressed (check_for_regression (\<lambda>xs. xs) (example_run [Some 1]) (Some (example_run [Some 1])) 0)"
proof -
  have ord: "set_order (\<lambda>xs. xs)" by (simp add: set_order_def)
  have ne: "sr_results (example_run [Some 1, None]) \<noteq> []" "sr_results (example_run [Some 1]) \<noteq> []"
    by (simp_all add: example_run_def)
  have scores: "latest (example_run [Some 1, None]) 0 = Some (Some 1)" "latest (example_run [Some 0]) 0 = Some (Some 0)"
    by (simp_all add: example_run_def latest_def)
  have one: "fsub 1 0 > 1 / 2" by (simp add: fsub_def)
  have "regressed (check_for_regression (\<lambda>xs. xs) (example_run [Some 0]) (Some (example_run [Some 1, None])) (1 / 2))"
    using check_for_regression_exact [OF ord ne(1), of "example_run [Some 0]" "1 / 2"] scores one
    unfolding Let_def by blast
  moreover have "\<not> regressed (check_for_regression (\<lambda>xs. xs) (example_run [Some 1]) (Some (example_run [Some 1])) 0)"
    using check_for_regression_exact [OF ord ne(2), of "example_run [Some 1]" 0]
    unfolding Let_def by blast
  ultimately show ?thesis ..
qed

section \<open>The gate as wired\<close>

text \<open>A run without scores never counts as a regression, however good the baseline.\<close>

lemma lost_scores_pass:
  assumes "set_order iter" "\<And>r. r \<in> set (sr_results a) \<Longrightarrow> qr_score r = None"
  shows "\<not> regressed (check_for_regression iter a base thr)"
proof (cases "\<exists>b. base = Some b \<and> sr_results b \<noteq> []")
  case True
  then obtain b where b: "base = Some b" "sr_results b \<noteq> []" by blast
  have none: "latest a q = Some s \<Longrightarrow> s = None" for q s
    using latest_in [of a q s] assms(2) by auto
  have "scores (score_map (sr_results a)) ids = []" for ids
    using none by (auto simp: scores_def score_of_latest split: option.splits)
  then show ?thesis
    unfolding b(1) report_fields(7) [OF assms(1) b(2)] report_fields(6) [OF assms(1) b(2)]
      report_fields(9) [OF assms(1) b(2)]
    using none by (auto simp: mean_def)
qed (auto simp: check_for_regression_def first_run_def split: option.splits)

text \<open>The scorer leaves every score empty, so the gate never reports a regression.\<close>

lemma suite_scores_empty:
  "run_suite commit now v db = (db', Inr r) \<Longrightarrow> x \<in> set (sr_results r) \<Longrightarrow> qr_score x = None"
  by (auto simp: run_suite_def collect_def run_question_def run_stub_benchmark_def score_result_def Let_def
      split: sum.splits if_splits option.splits prod.splits)

lemma ci_gate_never_regresses:
  assumes "set_order iter"
    and "run_ci_gate uuid5 iter stored commit now fresh file v thr ow db = (db', Inr rep)"
  shows "\<not> regressed rep"
  using assms(2) lost_scores_pass [OF assms(1)] suite_scores_empty
  by (fastforce simp: run_ci_gate_def Let_def split: sum.splits prod.splits)

text \<open>The baseline holds every row of the chosen version, not only those of its last suite.\<close>

lemma baseline_all_runs:
  "fetch_baseline_by_version stored v db = Some s \<Longrightarrow> r \<in> set (runs db) \<Longrightarrow> run_version r = sr_version s \<Longrightarrow>
     \<exists>x\<in>set (sr_results s). qr_question_id x = benchmark_question_id r \<and> qr_score x = map_option stored (run_score r)"
  by (fastforce simp: fetch_baseline_by_version_def Let_def split: option.splits if_splits)

end
