(* ===== verification/Patterns.thy ===== *)
theory Patterns
  imports Investigations Clients Evaluation
begin

text \<open>
  Longitudinal pattern mining (\<open>workers/jobs/pattern_mining_job.py\<close>), the versioned table of findings
  (\<open>PatternFindingRepository\<close> of \<open>db/repository.py\<close>) and its public listing (\<open>app/api/v1/research.py\<close>).
  SHA-256 and the libm functions are parameters; times are in microseconds.
\<close>

section \<open>Statistics\<close>

text \<open>\<open>int / int\<close> is the correctly rounded quotient.\<close>

definition int_div :: "int \<Rightarrow> int \<Rightarrow> flt" where
  "int_div a b = fl64 (of_int a / of_int b)"

definition calculate_wilson_lower_bound :: "libm \<Rightarrow> flt \<Rightarrow> int \<Rightarrow> int \<Rightarrow> flt" where
  "calculate_wilson_lower_bound L z successes trials =
     (if trials \<le> 0 \<or> successes \<le> 0 then 0
      else
        (let p_hat = min 1 (max 0 (int_div successes trials));
             zz = m_pow L z 2;
             denom = fadd 1 (fdiv zz (fl64 (of_int trials)));
             center = fadd p_hat (fdiv zz (fl64 (of_int (2 * trials))));
             radicand = fadd (fdiv (fmul p_hat (fsub 1 p_hat)) (fl64 (of_int trials)))
               (fdiv zz (fl64 (of_int (4 * trials ^ 2))));
             spread = fmul z (m_sqrt L (max 0 radicand));
             lower = fdiv (fsub center spread) denom
         in max 0 (min 1 lower)))"

definition z_95 :: flt where
  "z_95 = fl64 (196/100)"

definition ALGORITHM_VERSION :: string where
  "ALGORITHM_VERSION = ''1.0''"

definition clean :: "string \<Rightarrow> string" where
  "clean s = str_lower (str_strip s)"

definition pattern_raw_key :: "string \<Rightarrow> string \<Rightarrow> string option \<Rightarrow> int \<Rightarrow> string \<Rightarrow> string" where
  "pattern_raw_key src tgt region window ver =
     ver @ '':'' @ clean src @ '':'' @ clean tgt @ '':'' @ clean (or_default region []) @ '':'' @ int_str window"

definition generate_pattern_hash :: "(string \<Rightarrow> string) \<Rightarrow> string \<Rightarrow> string \<Rightarrow> string option \<Rightarrow> int \<Rightarrow> string \<Rightarrow> string" where
  "generate_pattern_hash sha src tgt region window ver = sha (pattern_raw_key src tgt region window ver)"

section \<open>Findings\<close>

record finding_data =
  pattern_hash :: string
  algorithm_version :: string
  source_event_type :: string
  target_event_type :: string
  pf_region_label :: "string option"
  time_window_days :: int
  support_count :: int
  total_source_events :: int
  total_target_events :: int
  observed_rate :: flt
  baseline_rate :: flt
  pf_lift :: flt
  statistical_confidence :: flt
  pf_uncertainty :: uncertainty_estimate
  supporting_event_ids :: "string list"
  pf_description :: string
  mined_at :: int

record pattern_finding = finding_data +
  pf_version :: int
  pf_is_active :: bool

definition next_version :: "pattern_finding list \<Rightarrow> int" where
  "next_version existing = (case sort_key (\<lambda>f. - pf_version f) existing of [] \<Rightarrow> 1 | f # _ \<Rightarrow> pf_version f + 1)"

definition new_finding :: "finding_data \<Rightarrow> int \<Rightarrow> pattern_finding" where
  "new_finding d v = finding_data.extend d (pattern_finding.fields v True)"

definition save_pattern_version :: "finding_data \<Rightarrow> pattern_finding list \<Rightarrow> pattern_finding list" where
  "save_pattern_version d t =
     (let existing = filter (\<lambda>f. pattern_hash f = pattern_hash d) t
      in map (\<lambda>f. if pattern_hash f = pattern_hash d then f\<lparr>pf_is_active := False\<rparr> else f) t @
         [new_finding d (next_version existing)])"

datatype sort_attribute = By_Confidence | By_Support | By_Lift | By_Mined_At

definition sort_value :: "sort_attribute \<Rightarrow> pattern_finding \<Rightarrow> rat" where
  "sort_value a f = (case a of By_Confidence \<Rightarrow> statistical_confidence f | By_Support \<Rightarrow> of_int (support_count f)
     | By_Lift \<Rightarrow> pf_lift f | By_Mined_At \<Rightarrow> of_int (mined_at f))"

definition list_active_patterns ::
    "string option \<Rightarrow> string option \<Rightarrow> int option \<Rightarrow> flt option \<Rightarrow> sort_attribute \<Rightarrow> bool \<Rightarrow> nat \<Rightarrow> nat \<Rightarrow>
     pattern_finding list \<Rightarrow> pattern_finding list" where
  "list_active_patterns event_type region window min_confidence attr ascending limit offset t =
     take limit (drop offset (sort_key (\<lambda>f. (if ascending then 1 else - 1) * sort_value attr f) (filter (\<lambda>f. pf_is_active f \<and>
       (case event_type of Some (c # cs) \<Rightarrow> source_event_type f = clean (c # cs) \<or> target_event_type f = clean (c # cs)
         | _ \<Rightarrow> True) \<and>
       (case region of Some (c # cs) \<Rightarrow> pf_region_label f = Some (str_strip (c # cs)) | _ \<Rightarrow> True) \<and>
       (case window of Some w \<Rightarrow> time_window_days f = w | None \<Rightarrow> True) \<and>
       (case min_confidence of Some c \<Rightarrow> c \<le> statistical_confidence f | None \<Rightarrow> True)) t)))"

definition list_public_research_patterns ::
    "bool \<Rightarrow> string option \<Rightarrow> string option \<Rightarrow> int option \<Rightarrow> flt option \<Rightarrow> sort_attribute \<Rightarrow> bool \<Rightarrow> int \<Rightarrow> int \<Rightarrow>
     pattern_finding list \<Rightarrow> (pattern_finding list) route_reply" where
  "list_public_research_patterns enabled event_type region window min_confidence attr ascending limit offset t =
     (if \<not> page_ok limit offset \<or> (case min_confidence of Some c \<Rightarrow> \<not> in_unit c | None \<Rightarrow> False)
      then Error_Reply 422 ''Validation Error'' ''validation_error''
      else if \<not> enabled then research_disabled
      else Ok_Reply 200 (list_active_patterns event_type region window min_confidence attr ascending (nat limit) (nat offset) t))"

section \<open>Mining\<close>

record mining_settings =
  pattern_min_support :: int
  pattern_min_confidence :: flt
  pattern_lookback_days :: int

definition event_kind :: "'g hazard_event \<Rightarrow> string" where
  "event_kind e = clean (he_event_type e)"

text \<open>\<open>sorted({...})\<close> of the region labels: labels together with a missing one do not compare.\<close>

definition sorted_regions :: "string option list \<Rightarrow> string option list py" where
  "sorted_regions rs =
     (if None \<in> set rs then (if set rs = {None} then Inr [None] else Inl (Type_Error ''not supported between instances''))
      else Inr (map Some (sort (remdups (map the rs)))))"

text \<open>The pairs of a source event and a target event that follows it within the window.\<close>

definition co_occurrences :: "int \<Rightarrow> 'g hazard_event list \<Rightarrow> 'g hazard_event list \<Rightarrow> ('g hazard_event \<times> 'g hazard_event) list" where
  "co_occurrences window src tgt =
     [(s, t). s \<leftarrow> src, t \<leftarrow> tgt, 0 < elapsed_s (event_date t) (event_date s) \<and>
        elapsed_s (event_date t) (event_date s) \<le> of_int (window * 86400)]"

definition percent1 :: "flt \<Rightarrow> string" where
  "percent1 x = format_fixed False 1 (fmul x 100) @ ''%''"

definition describe :: "string \<Rightarrow> string \<Rightarrow> string option \<Rightarrow> int \<Rightarrow> flt \<Rightarrow> flt \<Rightarrow> flt \<Rightarrow> flt \<Rightarrow> string" where
  "describe src tgt region window obs base lift conf =
     ''Longitudinal pattern: '' @ str_title src @ '' is followed by '' @ str_title tgt @
     (case region of Some (c # cs) \<Rightarrow> '' in '' @ (c # cs) | _ \<Rightarrow> '' globally'') @ '' within '' @ int_str window @
     '' days (Observed: '' @ percent1 obs @ '', Baseline: '' @ percent1 base @ '', Lift: '' @ format_fixed False 2 lift @
     ''x, Confidence: '' @ format_fixed False 2 conf @ '').''"

record candidate =
  cd_source :: string
  cd_target :: string
  cd_region :: "string option"
  cd_window :: int

definition region_events :: "'g hazard_event list \<Rightarrow> string \<Rightarrow> string option \<Rightarrow> 'g hazard_event list" where
  "region_events events kind region = filter (\<lambda>e. event_kind e = kind \<and> region_label e = region) events"

text \<open>One candidate: rejected, or the finding it yields.\<close>

definition assess ::
    "libm \<Rightarrow> (string \<Rightarrow> string) \<Rightarrow> mining_settings \<Rightarrow> int \<Rightarrow> 'g hazard_event list \<Rightarrow> candidate \<Rightarrow> finding_data option py" where
  "assess L sha cfg now events cd =
     (let src = region_events events (cd_source cd) (cd_region cd);
          tgt = region_events events (cd_target cd) (cd_region cd);
          pairs = co_occurrences (cd_window cd) src tgt;
          n_src = int (length src); n_tgt = int (length tgt); support = int (length pairs)
      in if n_src = 0 \<or> n_tgt = 0 then Inr None
         else if support < pattern_min_support cfg then Inr None
         else
           (let obs = int_div support n_src; base = int_div n_tgt (max 1 (int (length events)))
            in if base \<le> 0 then Inr None
               else
                 (let lift = fdiv obs base
                  in if lift \<le> 1 then Inr None
                     else
                       (let conf = calculate_wilson_lower_bound L z_95 support n_src
                        in if conf < pattern_min_confidence cfg then Inr None
                           else py_bind (from_point_estimate conf DEFAULT_POINT_ESTIMATE_INTERVAL_MARGIN
                                  (if fl64 (85/100) \<le> conf then Well_Supported else Model_Uncertainty)) (\<lambda>u.
                             Inr (Some \<lparr>pattern_hash = generate_pattern_hash sha (cd_source cd) (cd_target cd) (cd_region cd)
                                   (cd_window cd) ALGORITHM_VERSION,
                                 algorithm_version = ALGORITHM_VERSION, source_event_type = cd_source cd,
                                 target_event_type = cd_target cd, pf_region_label = cd_region cd,
                                 time_window_days = cd_window cd, support_count = support, total_source_events = n_src,
                                 total_target_events = n_tgt, observed_rate = fround 4 obs, baseline_rate = fround 4 base,
                                 pf_lift = fround 4 lift, statistical_confidence = fround 4 conf, pf_uncertainty = u,
                                 supporting_event_ids = sort (remdups (map (uuid_str \<circ> he_id) (concat (map (\<lambda>(s, t). [s, t]) pairs)))),
                                 pf_description = describe (cd_source cd) (cd_target cd) (cd_region cd) (cd_window cd) obs base lift conf,
                                 mined_at = now\<rparr>))))))"

definition candidates :: "string list \<Rightarrow> string option list \<Rightarrow> candidate list" where
  "candidates kinds regions =
     [\<lparr>cd_source = s, cd_target = t, cd_region = r, cd_window = w\<rparr>.
        s \<leftarrow> kinds, t \<leftarrow> kinds, s \<noteq> t, r \<leftarrow> regions, w \<leftarrow> [7, 14, 30]]"

record mining_run =
  mr_table :: "pattern_finding list"
  mr_candidates :: nat
  mr_accepted :: nat
  mr_rejected :: nat

fun mine ::
    "(candidate \<Rightarrow> finding_data option py) \<Rightarrow> candidate list \<Rightarrow> mining_run \<Rightarrow> mining_run py" where
  "mine f [] r = Inr r"
| "mine f (c # cs) r =
     py_bind (f c) (\<lambda>found.
       let r = r\<lparr>mr_candidates := mr_candidates r + 1\<rparr>
       in mine f cs (case found of
            None \<Rightarrow> r\<lparr>mr_rejected := mr_rejected r + 1\<rparr>
          | Some d \<Rightarrow> r\<lparr>mr_table := save_pattern_version d (mr_table r), mr_accepted := mr_accepted r + 1\<rparr>))"

text \<open>The whole job: the new table and the counts; an exception leaves the table as it was.\<close>

definition execute_pattern_mining ::
    "libm \<Rightarrow> (string \<Rightarrow> string) \<Rightarrow> mining_settings \<Rightarrow> int \<Rightarrow> 'g hazard_event list \<Rightarrow> pattern_finding list \<Rightarrow>
     (nat \<times> mining_run) py" where
  "execute_pattern_mining L sha cfg now all_events t =
     (let events = filter (\<lambda>e. now - pattern_lookback_days cfg * 86400000000 \<le> event_date e) all_events;
          start = \<lparr>mr_table = t, mr_candidates = 0, mr_accepted = 0, mr_rejected = 0\<rparr>
      in if length events < 2 then Inr (length events, start)
         else py_bind (sorted_regions (map region_label events)) (\<lambda>regions.
           py_bind (mine (assess L sha cfg now events)
               (candidates (sort (remdups (map event_kind events))) regions) start) (\<lambda>r. Inr (length events, r))))"

section \<open>Versions\<close>

text \<open>The findings of every hash are numbered from one in the order they were stored, and the newest is the
  active one.\<close>

definition history :: "string \<Rightarrow> pattern_finding list \<Rightarrow> pattern_finding list" where
  "history h t = filter (\<lambda>f. pattern_hash f = h) t"

definition versions_ok :: "pattern_finding list \<Rightarrow> bool" where
  "versions_ok t \<longleftrightarrow> (\<forall>h. map pf_version (history h t) = map int [1..<Suc (length (history h t))] \<and>
     (history h t \<noteq> [] \<longrightarrow> map pf_is_active (history h t) = replicate (length (history h t) - 1) False @ [True]))"

lemma new_finding_simps [simp]:
  "pattern_hash (new_finding d v) = pattern_hash d" "pf_version (new_finding d v) = v" "pf_is_active (new_finding d v)"
  "finding_data.truncate (new_finding d v) = d"
  by (simp_all add: new_finding_def finding_data.defs pattern_finding.defs)

lemma truncate_deactivated [simp]: "finding_data.truncate (f\<lparr>pf_is_active := b\<rparr>) = finding_data.truncate f"
  by (simp add: finding_data.defs)

lemma hash_deactivated: "pattern_hash (f\<lparr>pf_is_active := b\<rparr>) = pattern_hash f"
  by simp

lemma next_version_eq:
  assumes "map pf_version fs = map int [1..<Suc (length fs)]"
  shows "next_version fs = int (length fs) + 1"
proof (cases "sort_key (\<lambda>f. - pf_version f) fs")
  case Nil
  then have "fs = []" by (metis length_0_conv length_sort)
  then show ?thesis by (simp add: next_version_def)
next
  case (Cons f gs)
  have vs: "pf_version ` set fs = int ` {1..length fs}"
    using arg_cong [OF assms, of set] by (simp only: set_map set_upt atLeastLessThanSuc_atLeastAtMost)
  have "f \<in> set fs" by (metis Cons list.set_intros(1) set_sort)
  then have "pf_version f \<in> int ` {1..length fs}" unfolding vs [symmetric] by (rule imageI)
  then have "pf_version f \<le> int (length fs)" by auto
  have "length fs \<noteq> 0" using \<open>f \<in> set fs\<close> by auto
  then obtain g where g: "g \<in> set fs" "pf_version g = int (length fs)" using vs by (metis (no_types, lifting) One_nat_def
      Suc_le_eq atLeastAtMost_iff bot_nat_0.not_eq_extremum imageE imageI order_refl)
  have "sorted (map (\<lambda>f. - pf_version f) (f # gs))" unfolding Cons [symmetric] by simp
  moreover have "g \<in> set (f # gs)" using g(1) by (metis Cons set_sort)
  ultimately have "- pf_version f \<le> - pf_version g" by auto
  with \<open>pf_version f \<le> int (length fs)\<close> show ?thesis using g(2) Cons by (simp add: next_version_def)
qed

lemma history_deactivate:
  "history h (map (\<lambda>f. if pattern_hash f = k then f\<lparr>pf_is_active := False\<rparr> else f) t) =
     (if h = k then map (\<lambda>f. f\<lparr>pf_is_active := False\<rparr>) (history h t) else history h t)"
proof -
  let ?g = "\<lambda>f::pattern_finding. if pattern_hash f = k then f\<lparr>pf_is_active := False\<rparr> else f"
  have "(\<lambda>f. pattern_hash f = h) \<circ> ?g = (\<lambda>f. pattern_hash f = h)"
    unfolding comp_def by (rule ext) (simp only: if_distrib [of pattern_hash] hash_deactivated if_cancel)
  then have "history h (map ?g t) = map ?g (history h t)" unfolding history_def filter_map by (rule arg_cong)
  moreover have "map ?g (history h t) = map (\<lambda>f. f\<lparr>pf_is_active := False\<rparr>) (history h t)" if "h = k"
    by (rule map_cong [OF refl]) (simp only: history_def that set_filter mem_Collect_eq simp_thms if_True)
  moreover have "map ?g (history h t) = history h t" if "h \<noteq> k"
    by (rule map_idI) (use that in \<open>simp only: history_def set_filter mem_Collect_eq if_False\<close>)
  ultimately show ?thesis by (cases "h = k") (simp_all only: simp_thms if_True if_False)
qed

lemma history_append: "history h (t @ u) = history h t @ history h u"
  by (simp add: history_def)

lemma history_save:
  "history h (save_pattern_version d t) =
     (if h = pattern_hash d
      then map (\<lambda>f. f\<lparr>pf_is_active := False\<rparr>) (history h t) @
        [new_finding d (next_version (history h t))]
      else history h t)"
proof -
  have "save_pattern_version d t =
      map (\<lambda>f. if pattern_hash f = pattern_hash d then f\<lparr>pf_is_active := False\<rparr> else f) t @
      [new_finding d (next_version (history (pattern_hash d) t))]"
    by (simp only: save_pattern_version_def Let_def history_def)
  moreover have "history h [new_finding d v] = (if h = pattern_hash d then [new_finding d v] else [])" for v
    by (auto simp: history_def)
  ultimately show ?thesis by (simp only: history_append history_deactivate split: if_split) simp
qed

lemma save_versions_ok:
  assumes "versions_ok t"
  shows "versions_ok (save_pattern_version d t)"
  unfolding versions_ok_def
proof (intro allI)
  fix h
  let ?fs = "history h t"
  have old: "map pf_version ?fs = map int [1..<Suc (length ?fs)]"
    "?fs \<noteq> [] \<longrightarrow> map pf_is_active ?fs = replicate (length ?fs - 1) False @ [True]"
    using assms by (auto simp: versions_ok_def)
  show "map pf_version (history h (save_pattern_version d t)) = map int [1..<Suc (length (history h (save_pattern_version d t)))] \<and>
    (history h (save_pattern_version d t) \<noteq> [] \<longrightarrow> map pf_is_active (history h (save_pattern_version d t)) =
       replicate (length (history h (save_pattern_version d t)) - 1) False @ [True])"
  proof (cases "h = pattern_hash d")
    case True
    have "map pf_version (map (\<lambda>f. f\<lparr>pf_is_active := False\<rparr>) ?fs) = map pf_version ?fs"
      "map pf_is_active (map (\<lambda>f. f\<lparr>pf_is_active := False\<rparr>) ?fs) = replicate (length ?fs) False"
      by (simp_all add: comp_def map_replicate_const)
    moreover have "history h (save_pattern_version d t) =
        map (\<lambda>f. f\<lparr>pf_is_active := False\<rparr>) ?fs @ [new_finding d (int (length ?fs) + 1)]"
      unfolding history_save next_version_eq [OF old(1)] using True by (rule if_P)
    ultimately show ?thesis
      by (simp only: map_append length_append length_map old(1)) (simp add: upt_Suc_append)
  qed (use old in \<open>simp add: history_save\<close>)
qed

section \<open>Mining is sound\<close>

text \<open>What a stored finding stands on: enough pairs of events of the two kinds in its region, the second after
  the first within the window, and an uncertainty around a confidence that passes the threshold.\<close>

definition witnessed :: "mining_settings \<Rightarrow> 'g hazard_event list \<Rightarrow> finding_data \<Rightarrow> bool" where
  "witnessed cfg events d \<longleftrightarrow> pattern_min_support cfg \<le> support_count d \<and>
     pattern_min_confidence cfg \<le> point_estimate (pf_uncertainty d) \<and> valid_estimate (pf_uncertainty d) \<and>
     (\<exists>pairs. support_count d = int (length pairs) \<and>
        (\<forall>(s, t)\<in>set pairs. s \<in> set events \<and> t \<in> set events \<and>
           event_kind s = source_event_type d \<and> event_kind t = target_event_type d \<and>
           region_label s = pf_region_label d \<and> region_label t = pf_region_label d \<and>
           0 < elapsed_s (event_date t) (event_date s) \<and>
           elapsed_s (event_date t) (event_date s) \<le> of_int (time_window_days d * 86400)))"

lemma wilson_range: "in_unit (calculate_wilson_lower_bound L z s n) \<and>
    fl64 (calculate_wilson_lower_bound L z s n) = calculate_wilson_lower_bound L z s n"
  by (auto simp: calculate_wilson_lower_bound_def Let_def in_unit_def fdiv_def fl64_idem max_def min_def)

lemma assess_witnessed:
  assumes "assess L sha cfg now events cd = Inr (Some d)"
  shows "witnessed cfg events d"
proof -
  let ?src = "region_events events (cd_source cd) (cd_region cd)" and ?tgt = "region_events events (cd_target cd) (cd_region cd)"
  let ?pairs = "co_occurrences (cd_window cd) ?src ?tgt"
  let ?conf = "calculate_wilson_lower_bound L z_95 (int (length ?pairs)) (int (length ?src))"
  have margin: "0 \<le> DEFAULT_POINT_ESTIMATE_INTERVAL_MARGIN"
    by (simp add: DEFAULT_POINT_ESTIMATE_INTERVAL_MARGIN_def b64.rnd_nonneg)
  from assms obtain u tag where d: "from_point_estimate ?conf DEFAULT_POINT_ESTIMATE_INTERVAL_MARGIN tag = Inr u"
    "pattern_min_support cfg \<le> int (length ?pairs)" "pattern_min_confidence cfg \<le> ?conf"
    "support_count d = int (length ?pairs)" "pf_uncertainty d = u" "source_event_type d = cd_source cd"
    "target_event_type d = cd_target cd" "pf_region_label d = cd_region cd" "time_window_days d = cd_window cd"
    by (auto simp: assess_def Let_def py_bind_Inr_iff not_less split: if_splits)
  from from_point_estimate_Inr [of ?conf _ tag] wilson_range [of L z_95] margin d(1)
  have u: "valid_estimate u" "point_estimate u = ?conf" by fastforce+
  have "\<forall>(s, t)\<in>set ?pairs. s \<in> set events \<and> t \<in> set events \<and> event_kind s = cd_source cd \<and> event_kind t = cd_target cd \<and>
      region_label s = cd_region cd \<and> region_label t = cd_region cd \<and> 0 < elapsed_s (event_date t) (event_date s) \<and>
      elapsed_s (event_date t) (event_date s) \<le> of_int (cd_window cd * 86400)"
    by (auto simp: co_occurrences_def region_events_def)
  then show ?thesis using d u unfolding witnessed_def by (intro conjI exI [of _ ?pairs]) simp_all
qed

lemma save_data:
  "finding_data.truncate ` set (save_pattern_version d t) \<subseteq> insert d (finding_data.truncate ` set t)"
  by (auto simp: save_pattern_version_def Let_def)

lemma mine_sound:
  assumes "\<And>c d. f c = Inr (Some d) \<Longrightarrow> Q d" "mine f cs r = Inr r'" "versions_ok (mr_table r)"
    "mr_candidates r = mr_accepted r + mr_rejected r"
  shows "versions_ok (mr_table r') \<and> mr_candidates r' = mr_accepted r' + mr_rejected r' \<and>
    length (mr_table r') + mr_accepted r = length (mr_table r) + mr_accepted r' \<and>
    mr_candidates r' = mr_candidates r + length cs \<and>
    (\<forall>x\<in>finding_data.truncate ` set (mr_table r'). x \<in> finding_data.truncate ` set (mr_table r) \<or> Q x)"
  using assms(2-)
proof (induction cs arbitrary: r)
  case (Cons c cs)
  let ?r = "r\<lparr>mr_candidates := mr_candidates r + 1\<rparr>"
  from Cons.prems(1) obtain found where f: "f c = Inr found" by (auto simp: py_bind_Inr_iff)
  show ?case
  proof (cases found)
    case None
    have "mine f cs (?r\<lparr>mr_rejected := mr_rejected r + 1\<rparr>) = Inr r'" using Cons.prems(1) f None by (simp add: Let_def)
    from Cons.IH [OF this] Cons.prems(2,3) show ?thesis by simp
  next
    case (Some d)
    let ?s = "?r\<lparr>mr_table := save_pattern_version d (mr_table r), mr_accepted := mr_accepted r + 1\<rparr>"
    have m: "mine f cs ?s = Inr r'" using Cons.prems(1) f Some by (simp add: Let_def)
    have "versions_ok (mr_table ?s)" using save_versions_ok [OF Cons.prems(2)] by simp
    from Cons.IH [OF m this] Cons.prems(3) have
      "versions_ok (mr_table r') \<and> mr_candidates r' = mr_accepted r' + mr_rejected r' \<and>
       length (mr_table r') + mr_accepted ?s = length (mr_table ?s) + mr_accepted r' \<and>
       mr_candidates r' = mr_candidates ?s + length cs \<and>
       (\<forall>x\<in>finding_data.truncate ` set (mr_table r'). x \<in> finding_data.truncate ` set (mr_table ?s) \<or> Q x)" by simp
    moreover have "length (mr_table ?s) = length (mr_table r) + 1" by (simp add: save_pattern_version_def Let_def)
    moreover have "Q d" using assms(1) f Some by blast
    moreover have "x = d \<or> x \<in> finding_data.truncate ` set (mr_table r)"
      if "x \<in> finding_data.truncate ` set (mr_table ?s)" for x
      using that save_data [of d "mr_table r"] by auto
    ultimately show ?thesis by (intro conjI ballI; simp) blast
  qed
qed simp


text \<open>A run over events of which all or none have a label returns.\<close>

lemma assess_returns: "\<exists>found. assess L sha cfg now events cd = Inr found"
proof -
  have "0 \<le> DEFAULT_POINT_ESTIMATE_INTERVAL_MARGIN"
    by (simp add: DEFAULT_POINT_ESTIMATE_INTERVAL_MARGIN_def b64.rnd_nonneg)
  then have "\<exists>u. from_point_estimate (calculate_wilson_lower_bound L z_95 a b) DEFAULT_POINT_ESTIMATE_INTERVAL_MARGIN tag = Inr u"
    for a b tag
    using from_point_estimate_Inr [of "calculate_wilson_lower_bound L z_95 a b" _ tag] wilson_range [of L z_95 a b] by blast
  then show ?thesis
    by (auto simp: assess_def Let_def py_bind_Inr_iff)
qed

lemma mine_returns:
  assumes "\<And>c. \<exists>found. f c = Inr found"
  shows "\<exists>r'. mine f cs r = Inr r'"
proof (induction cs arbitrary: r)
  case (Cons c cs)
  obtain found where "f c = Inr found" using assms by blast
  with Cons.IH show ?case by (simp add: Let_def)
qed simp

lemma execute_pattern_mining_returns:
  assumes "(\<forall>e\<in>set evs. region_label e \<noteq> None) \<or> (\<forall>e\<in>set evs. region_label e = None)"
  shows "\<exists>n r. execute_pattern_mining L sha cfg now evs t = Inr (n, r)"
proof -
  let ?events = "filter (\<lambda>e. now - pattern_lookback_days cfg * 86400000000 \<le> event_date e) evs"
  let ?rs = "map region_label ?events"
  have "\<exists>regions. sorted_regions ?rs = Inr regions"
  proof (cases "None \<in> set ?rs")
    case True
    with assms have "set ?rs = {None}" by auto
    then show ?thesis by (simp add: sorted_regions_def)
  qed (auto simp: sorted_regions_def)
  then obtain regions where "sorted_regions ?rs = Inr regions" ..
  moreover obtain r where "mine (assess L sha cfg now ?events) (candidates (sort (remdups (map event_kind ?events))) regions)
      \<lparr>mr_table = t, mr_candidates = 0, mr_accepted = 0, mr_rejected = 0\<rparr> = Inr r"
    using mine_returns [of "assess L sha cfg now ?events"] assess_returns by blast
  ultimately show ?thesis by (simp add: execute_pattern_mining_def Let_def)
qed

definition sample_hazard :: "uuid \<Rightarrow> string \<Rightarrow> int \<Rightarrow> unit hazard_event" where
  "sample_hazard i kind d = \<lparr>he_id = i, he_event_type = kind, he_region = None, region_label = Some ''Java'',
     event_date = d * 86400000000, he_details = None, he_source = None, external_id = None\<rparr>"

definition sample_mining :: mining_settings where
  "sample_mining = \<lparr>pattern_min_support = 1, pattern_min_confidence = 0, pattern_lookback_days = 30\<rparr>"


text \<open>Labels together with a missing one: the run raises before it looks at any candidate.\<close>

lemma unlabelled_event_stops_mining:
  assumes "\<exists>e\<in>set evs. region_label e = None \<and> now - pattern_lookback_days cfg * 86400000000 \<le> event_date e"
    "\<exists>e\<in>set evs. region_label e \<noteq> None \<and> now - pattern_lookback_days cfg * 86400000000 \<le> event_date e"
  shows "execute_pattern_mining L sha cfg now evs t = Inl (Type_Error ''not supported between instances'')"
proof -
  let ?events = "filter (\<lambda>e. now - pattern_lookback_days cfg * 86400000000 \<le> event_date e) evs"
  from assms obtain a b where ab: "a \<in> set ?events" "b \<in> set ?events" "region_label a = None" "region_label b \<noteq> None"
    by auto
  then have "\<not> length ?events < 2"
    by (cases ?events; cases "tl ?events") (auto simp del: filter.simps)
  moreover have "None \<in> set (map region_label ?events)" "set (map region_label ?events) \<noteq> {None}"
    using ab by (force simp del: set_filter)+
  ultimately show ?thesis by (simp add: execute_pattern_mining_def sorted_regions_def Let_def)
qed

text \<open>Two regions whose labels differ in case or outer blanks share their hash, so storing the finding of the
  second deactivates the finding of the first.\<close>

lemma labels_collide:
  assumes "clean r = clean r'" "r \<noteq> []" "r' \<noteq> []"
  shows "generate_pattern_hash sha s t (Some r) w v = generate_pattern_hash sha s t (Some r') w v"
  using assms by (simp add: generate_pattern_hash_def pattern_raw_key_def or_default_def split: list.splits)

lemma save_deactivates:
  assumes "f \<in> set t" "pattern_hash f = pattern_hash d"
  shows "f\<lparr>pf_is_active := False\<rparr> \<in> set (save_pattern_version d t)"
  using assms by (auto simp: save_pattern_version_def Let_def)

end
