(* ===== verification/Simulation.thy ===== *)
theory Simulation
  imports Clients
begin

text \<open>
  The simulation engine: the registered models (\<open>simulation_engine/models\<close>, \<open>registry.py\<close>), the loading of
  their calibrated parameters (\<open>parameter_loader.py\<close>) and the agent that runs them
  (\<open>orchestrator/agents/simulation/agent.py\<close>). The configuration directory maps file names to a
  modification time and a content; the YAML library, which reads and writes contents, is a parameter.
\<close>

section \<open>Calibrated parameters\<close>

type_synonym params = "(string, flt) dict"

record 't yaml =
  safe_load :: "'t \<Rightarrow> json py"
  safe_dump :: "json \<Rightarrow> 't"

record 't sim_state =
  sim_files :: "(string, int \<times> 't) dict"
  parameter_cache :: "(string, int \<times> int \<times> params) dict"

definition CACHE_TTL_SECONDS :: int where
  "CACHE_TTL_SECONDS = 30"

definition is_number :: "json \<Rightarrow> bool" where
  "is_number j = (case j of JInt _ \<Rightarrow> True | JFloat _ \<Rightarrow> True | JBool _ \<Rightarrow> True | _ \<Rightarrow> False)"

definition yaml_parameters :: "json \<Rightarrow> (string, json) dict option" where
  "yaml_parameters data = (case data of
       JObj kvs \<Rightarrow> (case dict_get kvs ''parameters'' of Some (JObj ps) \<Rightarrow> Some ps | _ \<Rightarrow> None)
     | _ \<Rightarrow> None)"

definition validate_parameters_yaml :: "json \<Rightarrow> string list \<Rightarrow> bool" where
  "validate_parameters_yaml data required_keys = (case yaml_parameters data of
       None \<Rightarrow> False
     | Some ps \<Rightarrow> list_all (\<lambda>k. case dict_get ps k of None \<Rightarrow> False | Some v \<Rightarrow> is_number v) required_keys)"

definition number_of :: "json \<Rightarrow> flt" where
  "number_of j = (case j of JInt i \<Rightarrow> fl64 (of_int i) | JFloat x \<Rightarrow> x | JBool b \<Rightarrow> (if b then 1 else 0) | _ \<Rightarrow> 0)"

text \<open>The parameters of a content, when it loads and passes the validation.\<close>

definition read_parameters :: "'t yaml \<Rightarrow> params \<Rightarrow> 't \<Rightarrow> params option" where
  "read_parameters Y defaults txt =
     (case safe_load Y txt of
        Inl _ \<Rightarrow> None
      | Inr data \<Rightarrow>
          (if validate_parameters_yaml data (map fst defaults)
           then Some (map (\<lambda>(k, _). (k, number_of (dict_get_or (the (yaml_parameters data)) k JNull))) defaults)
           else None))"

definition latest_name :: "string \<Rightarrow> string" where
  "latest_name model = model @ ''_latest.yaml''"

definition cache_parameters :: "string \<Rightarrow> int \<Rightarrow> int \<Rightarrow> params \<Rightarrow> 't sim_state \<Rightarrow> 't sim_state" where
  "cache_parameters model now mtime ps st = st\<lparr>parameter_cache := dict_set model (now, mtime, ps) (parameter_cache st)\<rparr>"

definition load_calibrated_parameters ::
    "'t yaml \<Rightarrow> int \<Rightarrow> string \<Rightarrow> params \<Rightarrow> 't sim_state \<Rightarrow> 't sim_state \<times> params" where
  "load_calibrated_parameters Y now model defaults st =
     (let cached = dict_get (parameter_cache st) model
      in case cached of
           Some (checked, _, ps) \<Rightarrow>
             (if now - checked \<le> CACHE_TTL_SECONDS * 1000000 then (st, ps)
              else case dict_get (sim_files st) (latest_name model) of
                     None \<Rightarrow> (st, defaults)
                   | Some (mtime, txt) \<Rightarrow>
                       (if mtime = fst (snd (the cached)) then (cache_parameters model now mtime ps st, ps)
                        else case read_parameters Y defaults txt of
                               None \<Rightarrow> (st, defaults)
                             | Some qs \<Rightarrow> (cache_parameters model now mtime qs st, qs)))
         | None \<Rightarrow>
             (case dict_get (sim_files st) (latest_name model) of
                None \<Rightarrow> (st, defaults)
              | Some (mtime, txt) \<Rightarrow>
                  (case read_parameters Y defaults txt of
                     None \<Rightarrow> (st, defaults)
                   | Some qs \<Rightarrow> (cache_parameters model now mtime qs st, qs))))"

definition invalidate_parameter_cache :: "string option \<Rightarrow> 't sim_state \<Rightarrow> 't sim_state" where
  "invalidate_parameter_cache model st =
     (case model of
        None \<Rightarrow> st\<lparr>parameter_cache := []\<rparr>
      | Some m \<Rightarrow> st\<lparr>parameter_cache := filter (\<lambda>e. fst e \<noteq> m) (parameter_cache st)\<rparr>)"

section \<open>Models\<close>

record simulation_result =
  prediction :: string
  uncertainty_bounds :: "flt \<times> flt"
  assumptions :: "string list"
  model_used :: string

text \<open>A model: its name, the name of its parameters, the inputs it requires with their sanity bounds, the
  default parameters, and the calculation on calibrated parameters and inputs.\<close>

record sim_model =
  model_name :: string
  sm_config :: string
  sm_needs :: "(string \<times> flt \<times> flt) list"
  sm_defaults :: params
  sm_result :: "params \<Rightarrow> params \<Rightarrow> simulation_result"

definition PlumeDispersionModel :: sim_model where
  "PlumeDispersionModel =
     \<lparr>model_name = ''PlumeDispersionModel'', sm_config = ''plume_dispersion'',
      sm_needs = [(''wind_speed'', 1/2, 50)],
      sm_defaults = [(''wind_coefficient'', fl64 (18/10)), (''low_bound_factor'', 3/2), (''high_bound_factor'', fl64 (21/10))],
      sm_result = (\<lambda>cal ps. let wind_speed = dict_get_or ps ''wind_speed'' 0 in
        \<lparr>prediction = ''Plume dispersion prediction: plume will disperse up to '' @
           format_fixed False 1 (fmul wind_speed (dict_get_or cal ''wind_coefficient'' (fl64 (18/10)))) @ '' km downwind.'',
         uncertainty_bounds = (fmul wind_speed (dict_get_or cal ''low_bound_factor'' (3/2)),
                               fmul wind_speed (dict_get_or cal ''high_bound_factor'' (fl64 (21/10)))),
         assumptions = [''Wind speed remains constant'', ''Point source emission at 10m height''],
         model_used = ''PlumeDispersionModel''\<rparr>)\<rparr>"

definition FloodExtentModel :: sim_model where
  "FloodExtentModel =
     \<lparr>model_name = ''FloodExtentModel'', sm_config = ''flood_extent'',
      sm_needs = [(''rainfall'', 5, 500)],
      sm_defaults = [(''rainfall_coefficient'', fl64 (32/10)), (''low_bound_factor'', fl64 (28/10)), (''high_bound_factor'', fl64 (36/10))],
      sm_result = (\<lambda>cal ps. let rainfall = dict_get_or ps ''rainfall'' 0 in
        \<lparr>prediction = ''Flood extent prediction: total flooded area is estimated at '' @
           format_fixed False 1 (fmul rainfall (dict_get_or cal ''rainfall_coefficient'' (fl64 (32/10)))) @ '' square kilometers.'',
         uncertainty_bounds = (fmul rainfall (dict_get_or cal ''low_bound_factor'' (fl64 (28/10))),
                               fmul rainfall (dict_get_or cal ''high_bound_factor'' (fl64 (36/10)))),
         assumptions = [''Soil is fully saturated'', ''Flat topography baseline approximation''],
         model_used = ''FloodExtentModel''\<rparr>)\<rparr>"

definition WildfireSpreadModel :: sim_model where
  "WildfireSpreadModel =
     \<lparr>model_name = ''WildfireSpreadModel'', sm_config = ''wildfire_spread'',
      sm_needs = [(''wind_speed'', 0, 80), (''temperature'', 10, 55)],
      sm_defaults = [(''wind_coefficient'', fl64 (4/10)), (''temp_coefficient'', fl64 (1/10)),
        (''low_bound_factor'', fl64 (7/10)), (''high_bound_factor'', fl64 (13/10))],
      sm_result = (\<lambda>cal ps.
        let spread_rate = fadd (fmul (dict_get_or ps ''wind_speed'' 0) (dict_get_or cal ''wind_coefficient'' (fl64 (4/10))))
              (fmul (dict_get_or ps ''temperature'' 0) (dict_get_or cal ''temp_coefficient'' (fl64 (1/10)))) in
        \<lparr>prediction = ''Wildfire spread rate prediction: fire is propagating at '' @
           format_fixed False 1 spread_rate @ '' meters per minute.'',
         uncertainty_bounds = (fmul spread_rate (dict_get_or cal ''low_bound_factor'' (fl64 (7/10))),
                               fmul spread_rate (dict_get_or cal ''high_bound_factor'' (fl64 (13/10)))),
         assumptions = [''Homogeneous fuel distribution'', ''Zero slope baseline''],
         model_used = ''WildfireSpreadModel''\<rparr>)\<rparr>"

definition el_nino :: string where
  "el_nino = ''El Ni'' @ [CHR 0xF1] @ ''o''"

definition la_nina :: string where
  "la_nina = ''La Ni'' @ [CHR 0xF1] @ ''a''"

definition enso_phase :: "flt \<Rightarrow> flt \<Rightarrow> flt \<Rightarrow> string" where
  "enso_phase nino nina anomaly = (if nino \<le> anomaly then el_nino else if anomaly \<le> nina then la_nina else ''Neutral'')"

definition ENSOForecastModel :: sim_model where
  "ENSOForecastModel =
     \<lparr>model_name = ''ENSOForecastModel'', sm_config = ''enso_forecast'',
      sm_needs = [(''sst_anomaly'', -4, 4)],
      sm_defaults = [(''el_nino_threshold'', 1/2), (''la_nina_threshold'', - 1/2),
        (''low_bound_offset'', fl64 (- 2/10)), (''high_bound_offset'', fl64 (2/10))],
      sm_result = (\<lambda>cal ps. let sst_anomaly = dict_get_or ps ''sst_anomaly'' 0 in
        \<lparr>prediction = ''ENSO Forecast prediction: current SST anomaly indicates '' @
           enso_phase (dict_get_or cal ''el_nino_threshold'' (1/2)) (dict_get_or cal ''la_nina_threshold'' (- 1/2)) sst_anomaly @
           '' conditions.'',
         uncertainty_bounds = (fadd sst_anomaly (dict_get_or cal ''low_bound_offset'' (fl64 (- 2/10))),
                               fadd sst_anomaly (dict_get_or cal ''high_bound_offset'' (fl64 (2/10)))),
         assumptions = [''Sea surface temperature anomalies persist for at least 3 months'',
           ''Ni'' @ [CHR 0xF1] @ ''o 3.4 region monitoring baseline''],
         model_used = ''ENSOForecastModel''\<rparr>)\<rparr>"

text \<open>The common course of the \<open>run\<close> methods: missing inputs, then bounds, then the parameters, then the result.\<close>

definition missing_input :: "(string \<times> flt \<times> flt) list \<Rightarrow> params \<Rightarrow> string option" where
  "missing_input needs ps = find (\<lambda>k. dict_get ps k = None) (map fst needs)"

definition out_of_bounds :: "(string \<times> flt \<times> flt) list \<Rightarrow> params \<Rightarrow> string option" where
  "out_of_bounds needs ps =
     map_option fst (find (\<lambda>(k, lo, hi). \<not> (lo \<le> dict_get_or ps k 0 \<and> dict_get_or ps k 0 \<le> hi)) needs)"

definition model_run :: "'t yaml \<Rightarrow> int \<Rightarrow> sim_model \<Rightarrow> params \<Rightarrow> 't sim_state \<Rightarrow> 't sim_state \<times> simulation_result py" where
  "model_run Y now m ps st =
     (case missing_input (sm_needs m) ps of
        Some k \<Rightarrow> (st, Inl (Value_Error (''Missing required input: '' @ k)))
      | None \<Rightarrow>
          (case out_of_bounds (sm_needs m) ps of
             Some k \<Rightarrow> (st, Inl (Value_Error (''Parameter out of bounds: '' @ k)))
           | None \<Rightarrow>
               (case load_calibrated_parameters Y now (sm_config m) (sm_defaults m) st of
                  (st1, cal) \<Rightarrow> (st1, Inr (sm_result m cal ps)))))"

definition registered_models :: "(string, sim_model) dict" where
  "registered_models =
     [(''plume'', PlumeDispersionModel), (''plume_dispersion'', PlumeDispersionModel),
      (''flood'', FloodExtentModel), (''flood_extent'', FloodExtentModel),
      (''wildfire'', WildfireSpreadModel), (''wildfire_spread'', WildfireSpreadModel),
      (''enso'', ENSOForecastModel), (''enso_forecast'', ENSOForecastModel)]"

definition model_for :: "string \<Rightarrow> sim_model option" where
  "model_for hazard = dict_get registered_models (str_lower hazard)"

definition run_simulation :: "'t yaml \<Rightarrow> int \<Rightarrow> string \<Rightarrow> params \<Rightarrow> 't sim_state \<Rightarrow> 't sim_state \<times> simulation_result py" where
  "run_simulation Y now hazard ps st =
     (case model_for hazard of
        None \<Rightarrow> (st, Inl (Value_Error (''No simulation model registered for hazard: '' @ hazard)))
      | Some m \<Rightarrow> model_run Y now m ps st)"

section \<open>Numbers in texts\<close>

text \<open>
  The regular expressions of the agent and the calibration: words to choose from, runs of blanks, and a
  last group that takes a run of a character class. Alternatives are tried in order and blanks from the
  longest run on, at every position from the left.
\<close>

datatype rx_item = Words "string list" | Blanks

fun first_some :: "('a \<Rightarrow> 'b option) \<Rightarrow> 'a list \<Rightarrow> 'b option" where
  "first_some f [] = None"
| "first_some f (x # xs) = (case f x of Some y \<Rightarrow> Some y | None \<Rightarrow> first_some f xs)"

lemma first_some_cong [fundef_cong]:
  "xs = ys \<Longrightarrow> (\<And>x. x \<in> set ys \<Longrightarrow> f x = g x) \<Longrightarrow> first_some f xs = first_some g ys"
  by (induction ys arbitrary: xs) (auto split: option.splits)

fun rx_match :: "(char \<Rightarrow> bool) \<Rightarrow> rx_item list \<Rightarrow> string \<Rightarrow> string option" where
  "rx_match cls [] s = (let w = takeWhile cls s in if w = [] then None else Some w)"
| "rx_match cls (Words ws # items) s =
     first_some (\<lambda>w. if starts_with s w then rx_match cls items (drop (length w) s) else None) ws"
| "rx_match cls (Blanks # items) s =
     first_some (\<lambda>n. rx_match cls items (drop n s)) (rev [0..<Suc (length (takeWhile is_space s))])"

fun rx_search :: "(char \<Rightarrow> bool) \<Rightarrow> rx_item list \<Rightarrow> string \<Rightarrow> string option" where
  "rx_search cls items [] = rx_match cls items []"
| "rx_search cls items (c # cs) =
     (case rx_match cls items (c # cs) of Some w \<Rightarrow> Some w | None \<Rightarrow> rx_search cls items cs)"

definition digit_or_point :: "char \<Rightarrow> bool" where
  "digit_or_point c \<longleftrightarrow> dec_value c \<noteq> None \<or> c = CHR ''.''"

definition is_or_of :: "rx_item list" where
  "is_or_of = [Blanks, Words [''is'', ''of'', []], Blanks]"

section \<open>The agent\<close>

definition extract_hazard_type :: "string \<Rightarrow> string option" where
  "extract_hazard_type query =
     (let q = str_lower query
      in if str_contains q ''plume'' \<or> str_contains q ''dispersion'' then Some ''plume''
         else if str_contains q ''flood'' then Some ''flood''
         else if str_contains q ''wildfire'' \<or> str_contains q ''fire'' then Some ''wildfire''
         else if str_contains q ''enso'' \<or> str_contains q ''nino'' \<or> str_contains q ''nina'' then Some ''enso''
         else None)"

text \<open>One search: a match is read as a float when the parameter is still missing.\<close>

definition take_number :: "string \<Rightarrow> rx_item list \<Rightarrow> string \<Rightarrow> params \<Rightarrow> params py" where
  "take_number k items txt ps =
     (case rx_search digit_or_point items txt of
        None \<Rightarrow> Inr ps
      | Some w \<Rightarrow>
          (if dict_get ps k \<noteq> None then Inr ps
           else case float_text w of
                  None \<Rightarrow> Inl (Value_Error ''could not convert string to float'')
                | Some x \<Rightarrow> Inr (dict_set k x ps)))"

definition separators :: "string list" where
  "separators = [''-'', ''_'', '' '']"

text \<open>The claims are searched ignoring case, which is a search of the lower-case text.\<close>

definition claim_parameters :: "string \<Rightarrow> params \<Rightarrow> params py" where
  "claim_parameters claim ps =
     (let s = str_lower claim
      in py_bind (take_number ''wind_speed'' [Words [''wind speed is''], Blanks] s ps)
           (\<lambda>ps. py_bind (take_number ''temperature'' [Words [''temperature is''], Blanks] s ps)
           (\<lambda>ps. py_bind (take_number ''rainfall'' (Words [''rainfall'', ''precipitation'', ''precip''] # is_or_of) s ps)
           (\<lambda>ps. take_number ''sst_anomaly'' ([Words [''sst''], Words separators, Words [''anomaly'']] @ is_or_of) s ps))))"

definition query_parameters :: "string \<Rightarrow> params \<Rightarrow> params py" where
  "query_parameters query ps =
     (let s = str_lower query
      in py_bind (take_number ''wind_speed'' ([Words [''wind''], Words separators, Words [''speed'']] @ is_or_of) s ps)
           (\<lambda>ps. py_bind (take_number ''temperature'' ([Words [''temp''], Words [''erature'', []]] @ is_or_of) s ps)
           (\<lambda>ps. py_bind (take_number ''rainfall'' (Words [''rainfall'', ''precipitation''] # is_or_of) s ps)
           (\<lambda>ps. take_number ''sst_anomaly'' ([Words [''sst''], Words separators, Words [''anomaly'']] @ is_or_of) s ps))))"

fun py_fold :: "('a \<Rightarrow> 'b \<Rightarrow> 'b py) \<Rightarrow> 'a list \<Rightarrow> 'b \<Rightarrow> 'b py" where
  "py_fold f [] b = Inr b"
| "py_fold f (x # xs) b = py_bind (f x b) (py_fold f xs)"

definition output_parameters :: "agent_output option \<Rightarrow> params \<Rightarrow> params py" where
  "output_parameters out ps = (case out of
       None \<Rightarrow> Inl (Other_Error ''AttributeError'')
     | Some op \<Rightarrow> py_fold (\<lambda>e. claim_parameters (ev_claim e)) (evidence_list op) ps)"

definition extract_parameters :: "string \<Rightarrow> agent_output option list \<Rightarrow> params py" where
  "extract_parameters query prior_outputs =
     py_bind (py_fold output_parameters prior_outputs []) (query_parameters query)"

definition unit_clamp :: "flt \<Rightarrow> flt" where
  "unit_clamp x = max 0 (min 1 x)"

definition simulation_evidence :: "uuid \<Rightarrow> int \<Rightarrow> simulation_result \<Rightarrow> evidence py" where
  "simulation_evidence i now r =
     (let (low, high) = uncertainty_bounds r; low_norm = unit_clamp low; high_norm = unit_clamp high;
          pt_est = unit_clamp (fdiv (fadd low_norm high_norm) 2)
      in py_bind (UncertaintyEstimate pt_est low_norm high_norm Model_Uncertainty) (\<lambda>u.
         py_bind (mk_evidence i (model_used r) (prediction r) now None (Some u)) (\<lambda>e.
           Inr (e\<lparr>ev_uncertainty_bounds := Some (uncertainty_bounds r), ev_assumptions := Some (assumptions r),
                  extra_metadata := [(''model_used'', JStr (model_used r))]\<rparr>))))"

definition simulation_output :: "evidence list \<Rightarrow> string list \<Rightarrow> agent_output" where
  "simulation_output evs errs = \<lparr>agent_name = ''simulation'', evidence_list = evs, out_errors = errs\<rparr>"

text \<open>The handlers: a missing input is named, everything else is inconclusive.\<close>

definition simulation_failed :: "py_exc \<Rightarrow> agent_output" where
  "simulation_failed e = simulation_output []
     [case e of Value_Error msg \<Rightarrow> if str_contains msg ''Missing required input'' then msg else ''simulation inconclusive''
      | _ \<Rightarrow> ''simulation inconclusive'']"

definition simulation_run ::
    "'t yaml \<Rightarrow> uuid \<Rightarrow> int \<Rightarrow> agent_input \<Rightarrow> agent_output option list \<Rightarrow> 't sim_state \<Rightarrow> 't sim_state \<times> agent_output py" where
  "simulation_run Y i now inp prior_outputs st =
     (case extract_hazard_type (ai_query inp) of
        None \<Rightarrow> (st, Inr (simulation_output [] [''Unknown or unsupported hazard simulation query.'']))
      | Some hazard \<Rightarrow>
          (case extract_parameters (ai_query inp) prior_outputs of
             Inl e \<Rightarrow> (st, Inl e)
           | Inr ps \<Rightarrow>
               (case run_simulation Y now hazard ps st of
                  (st1, r) \<Rightarrow> (st1, Inr (case py_bind r (simulation_evidence i now) of
                                      Inl e \<Rightarrow> simulation_failed e
                                    | Inr ev \<Rightarrow> simulation_output [ev] [])))))"

section \<open>Sane parameters\<close>

text \<open>Parameters under which the bounds of a model come out in order.\<close>

definition factors_sane :: "sim_model \<Rightarrow> params \<Rightarrow> bool" where
  "factors_sane m cal \<longleftrightarrow> dict_get_or cal ''low_bound_factor'' (dict_get_or (sm_defaults m) ''low_bound_factor'' 0)
     \<le> dict_get_or cal ''high_bound_factor'' (dict_get_or (sm_defaults m) ''high_bound_factor'' 0)"

definition wildfire_sane :: "params \<Rightarrow> bool" where
  "wildfire_sane cal \<longleftrightarrow> factors_sane WildfireSpreadModel cal \<and>
     0 \<le> dict_get_or cal ''wind_coefficient'' (fl64 (4/10)) \<and> 0 \<le> dict_get_or cal ''temp_coefficient'' (fl64 (1/10))"

definition enso_sane :: "params \<Rightarrow> bool" where
  "enso_sane cal \<longleftrightarrow> dict_get_or cal ''low_bound_offset'' (fl64 (- 2/10)) \<le> dict_get_or cal ''high_bound_offset'' (fl64 (2/10)) \<and>
     dict_get_or cal ''la_nina_threshold'' (- 1/2) < 0 \<and> 0 < dict_get_or cal ''el_nino_threshold'' (1/2)"

text \<open>What is stored for a model, in the cache and in its latest file, is sane.\<close>

definition stored_sane :: "'t yaml \<Rightarrow> sim_model \<Rightarrow> (params \<Rightarrow> bool) \<Rightarrow> 't sim_state \<Rightarrow> bool" where
  "stored_sane Y m sane st \<longleftrightarrow>
     (\<forall>c t cal. dict_get (parameter_cache st) (sm_config m) = Some (c, t, cal) \<longrightarrow> sane cal) \<and>
     (\<forall>t txt cal. dict_get (sim_files st) (latest_name (sm_config m)) = Some (t, txt) \<longrightarrow>
        read_parameters Y (sm_defaults m) txt = Some cal \<longrightarrow> sane cal)"

text \<open>A float doubled is a float, so the middle of two floats stays between them.\<close>

lemma fl64_double: "fl64 (2 * fl64 x) = 2 * fl64 x"
proof -
  obtain m e where m: "\<bar>m\<bar> \<le> 2 ^ 53" "fl64 x = of_int m * 2 powi e" by (rule fl64_form)
  have "2 * fl64 x = of_int m * 2 powi (e + 1)" unfolding m(2) by (simp add: power_int_add)
  then show ?thesis using fl64_scaled_int [OF m(1), of "e + 1"] by simp
qed

lemma middle_between:
  assumes "fl64 a = a" "fl64 b = b" "a \<le> b"
  shows "a \<le> fdiv (fadd a b) 2 \<and> fdiv (fadd a b) 2 \<le> b"
proof -
  have "2 * a \<le> fadd a b" "fadd a b \<le> 2 * b"
    using fl64_mono [of "2 * a" "a + b"] fl64_mono [of "a + b" "2 * b"] fl64_double [of a] fl64_double [of b] assms
    by (auto simp: fadd_def)
  then have "fl64 a \<le> fdiv (fadd a b) 2" "fdiv (fadd a b) 2 \<le> fl64 b"
    unfolding fdiv_def by (intro fl64_mono; simp)+
  with assms show ?thesis by simp
qed

lemma unit_clamp_facts:
  "0 \<le> unit_clamp x" "unit_clamp x \<le> 1" "x \<le> y \<Longrightarrow> unit_clamp x \<le> unit_clamp y"
  "fl64 x = x \<Longrightarrow> fl64 (unit_clamp x) = unit_clamp x" "0 \<le> x \<Longrightarrow> x \<le> 1 \<Longrightarrow> unit_clamp x = x"
  by (auto simp: unit_clamp_def max_def min_def)

lemma simulation_evidence_ok:
  assumes "uncertainty_bounds r = (low, high)" "low \<le> high" "fl64 low = low" "fl64 high = high"
  shows "\<exists>e. simulation_evidence i now r = Inr e \<and> ev_source e = model_used r \<and> ev_claim e = prediction r \<and>
    valid_estimate (ev_uncertainty e) \<and> est_source (ev_uncertainty e) = Model_Uncertainty \<and>
    lower_bound (ev_uncertainty e) = unit_clamp low \<and> upper_bound (ev_uncertainty e) = unit_clamp high"
proof -
  let ?l = "unit_clamp low" and ?h = "unit_clamp high"
  have lh: "?l \<le> ?h" using assms(2) unit_clamp_facts(3) by blast
  have mid: "?l \<le> fdiv (fadd ?l ?h) 2 \<and> fdiv (fadd ?l ?h) 2 \<le> ?h"
    by (rule middle_between) (use lh assms(3,4) unit_clamp_facts(4) in auto)
  then have "unit_clamp (fdiv (fadd ?l ?h) 2) = fdiv (fadd ?l ?h) 2"
    using unit_clamp_facts(1) [of low] unit_clamp_facts(2) [of high] by (intro unit_clamp_facts(5)) linarith+
  then show ?thesis
    using assms(1) mid UncertaintyEstimate_Inr [of ?l "fdiv (fadd ?l ?h) 2" ?h Model_Uncertainty]
      unit_clamp_facts(1) [of low] unit_clamp_facts(2) [of high]
    by (simp add: simulation_evidence_def mk_evidence_def init_uncertainty_def valid_estimate_def Let_def)
qed

section \<open>The model protocol\<close>

text \<open>What the agent relies on in a model: on sane parameters and inputs within bounds it returns ordered
  bounds under its own name, and its defaults are sane.\<close>

locale simulation_model =
  fixes m :: sim_model and sane :: "params \<Rightarrow> bool"
  assumes ordered: "sane cal \<Longrightarrow> missing_input (sm_needs m) ps = None \<Longrightarrow> out_of_bounds (sm_needs m) ps = None \<Longrightarrow>
      \<exists>low high. uncertainty_bounds (sm_result m cal ps) = (low, high) \<and> low \<le> high \<and> fl64 low = low \<and> fl64 high = high"
    and named: "model_used (sm_result m cal ps) = model_name m"
    and defaults_sane: "sane (sm_defaults m)"
begin

lemma load_sane:
  assumes "stored_sane Y m sane st" "load_calibrated_parameters Y now (sm_config m) (sm_defaults m) st = (st', cal)"
  shows "sane cal \<and> stored_sane Y m sane st' \<and> sim_files st' = sim_files st"
  using assms defaults_sane unfolding load_calibrated_parameters_def Let_def stored_sane_def cache_parameters_def
  by (auto simp: dict_simps split: option.splits prod.splits if_splits)

text \<open>The outcomes of the agent on this model.\<close>

lemma agent_outcome:
  assumes "stored_sane Y m sane st"
  shows "\<exists>st' r. model_run Y now m ps st = (st', r) \<and> stored_sane Y m sane st' \<and>
    (case missing_input (sm_needs m) ps of
       Some k \<Rightarrow> r = Inl (Value_Error (''Missing required input: '' @ k)) \<and> st' = st
     | None \<Rightarrow> (case out_of_bounds (sm_needs m) ps of
         Some k \<Rightarrow> r = Inl (Value_Error (''Parameter out of bounds: '' @ k)) \<and> st' = st
       | None \<Rightarrow> \<exists>e. py_bind r (simulation_evidence i now) = Inr e \<and> ev_source e = model_name m \<and>
           valid_estimate (ev_uncertainty e) \<and> est_source (ev_uncertainty e) = Model_Uncertainty))"
proof (cases "missing_input (sm_needs m) ps")
  case None
  show ?thesis
  proof (cases "out_of_bounds (sm_needs m) ps")
    case out: None
    obtain st' cal where load: "load_calibrated_parameters Y now (sm_config m) (sm_defaults m) st = (st', cal)"
      by (cases "load_calibrated_parameters Y now (sm_config m) (sm_defaults m) st")
    from load_sane [OF assms load] have s: "sane cal" "stored_sane Y m sane st'" by simp_all
    from ordered [OF s(1) None out] obtain low high where
      "uncertainty_bounds (sm_result m cal ps) = (low, high)" "low \<le> high" "fl64 low = low" "fl64 high = high" by blast
    from simulation_evidence_ok [OF this, of i now] named obtain e where
      "simulation_evidence i now (sm_result m cal ps) = Inr e" "ev_source e = model_name m"
      "valid_estimate (ev_uncertainty e)" "est_source (ev_uncertainty e) = Model_Uncertainty" by auto
    then show ?thesis using None out load s(2) by (simp add: model_run_def)
  qed (use None assms in \<open>simp add: model_run_def\<close>)
qed (use assms in \<open>simp add: model_run_def\<close>)

end

lemma input_in_bounds:
  assumes "missing_input needs ps = None" "out_of_bounds needs ps = None" "(k, lo, hi) \<in> set needs"
  shows "\<exists>x. dict_get ps k = Some x \<and> lo \<le> x \<and> x \<le> hi"
proof -
  have "dict_get ps k \<noteq> None" using assms(1,3) by (force simp: missing_input_def find_None_iff)
  moreover have "lo \<le> dict_get_or ps k 0 \<and> dict_get_or ps k 0 \<le> hi"
    using assms(2,3) by (auto simp: out_of_bounds_def find_None_iff)
  ultimately show ?thesis by (auto simp: dict_get_or_def)
qed

lemma scaled_bounds: "0 \<le> x \<Longrightarrow> a \<le> b \<Longrightarrow> fmul x a \<le> fmul x b \<and> fl64 (fmul x a) = fmul x a \<and> fl64 (fmul x b) = fmul x b"
  unfolding fmul_def by (intro conjI fl64_mono fl64_idem mult_left_mono)

lemma shifted_bounds: "a \<le> b \<Longrightarrow> fadd x a \<le> fadd x b \<and> fl64 (fadd x a) = fadd x a \<and> fl64 (fadd x b) = fadd x b"
  unfolding fadd_def by (intro conjI fl64_mono fl64_idem add_left_mono)

interpretation plume: simulation_model PlumeDispersionModel "factors_sane PlumeDispersionModel"
proof
  fix cal ps
  assume sane: "factors_sane PlumeDispersionModel cal" and inputs: "missing_input (sm_needs PlumeDispersionModel) ps = None"
    "out_of_bounds (sm_needs PlumeDispersionModel) ps = None"
  from input_in_bounds [OF inputs, of "''wind_speed''" "1/2" 50] obtain x where x: "dict_get ps ''wind_speed'' = Some x" "1/2 \<le> x"
    by (auto simp: PlumeDispersionModel_def)
  then show "\<exists>low high. uncertainty_bounds (sm_result PlumeDispersionModel cal ps) = (low, high) \<and> low \<le> high \<and>
      fl64 low = low \<and> fl64 high = high"
    using sane scaled_bounds [of x "dict_get_or cal ''low_bound_factor'' (3/2)" "dict_get_or cal ''high_bound_factor'' (fl64 (21/10))"]
    by (simp add: PlumeDispersionModel_def factors_sane_def Let_def dict_get_or_def)
next
  show "factors_sane PlumeDispersionModel (sm_defaults PlumeDispersionModel)"
    using fl64_mono [of "3/2" "21/10"] fl64_scaled_int [of 3 "- 1"]
    by (simp add: PlumeDispersionModel_def factors_sane_def dict_get_or_def power_int_minus field_simps)
qed (simp add: PlumeDispersionModel_def Let_def)

interpretation flood: simulation_model FloodExtentModel "factors_sane FloodExtentModel"
proof
  fix cal ps
  assume sane: "factors_sane FloodExtentModel cal" and inputs: "missing_input (sm_needs FloodExtentModel) ps = None"
    "out_of_bounds (sm_needs FloodExtentModel) ps = None"
  from input_in_bounds [OF inputs, of "''rainfall''" 5 500] obtain x where x: "dict_get ps ''rainfall'' = Some x" "5 \<le> x"
    by (auto simp: FloodExtentModel_def)
  then show "\<exists>low high. uncertainty_bounds (sm_result FloodExtentModel cal ps) = (low, high) \<and> low \<le> high \<and>
      fl64 low = low \<and> fl64 high = high"
    using sane scaled_bounds [of x "dict_get_or cal ''low_bound_factor'' (fl64 (28/10))" "dict_get_or cal ''high_bound_factor'' (fl64 (36/10))"]
    by (simp add: FloodExtentModel_def factors_sane_def Let_def dict_get_or_def)
next
  show "factors_sane FloodExtentModel (sm_defaults FloodExtentModel)"
    using fl64_mono [of "28/10" "36/10"] by (simp add: FloodExtentModel_def factors_sane_def dict_get_or_def)
qed (simp add: FloodExtentModel_def Let_def)

interpretation wildfire: simulation_model WildfireSpreadModel wildfire_sane
proof
  fix cal ps
  assume sane: "wildfire_sane cal" and inputs: "missing_input (sm_needs WildfireSpreadModel) ps = None"
    "out_of_bounds (sm_needs WildfireSpreadModel) ps = None"
  from input_in_bounds [OF inputs, of "''wind_speed''" 0 80] obtain w where w: "dict_get ps ''wind_speed'' = Some w" "0 \<le> w"
    by (auto simp: WildfireSpreadModel_def)
  from input_in_bounds [OF inputs, of "''temperature''" 10 55] obtain t where t: "dict_get ps ''temperature'' = Some t" "10 \<le> t"
    by (auto simp: WildfireSpreadModel_def)
  define rate where "rate = fadd (fmul w (dict_get_or cal ''wind_coefficient'' (fl64 (4/10))))
    (fmul t (dict_get_or cal ''temp_coefficient'' (fl64 (1/10))))"
  have "0 \<le> rate" unfolding rate_def fadd_def fmul_def
    using sane w t by (auto simp: wildfire_sane_def intro!: fl64_nonneg add_nonneg_nonneg mult_nonneg_nonneg)
  with w t show "\<exists>low high. uncertainty_bounds (sm_result WildfireSpreadModel cal ps) = (low, high) \<and> low \<le> high \<and>
      fl64 low = low \<and> fl64 high = high"
    using sane scaled_bounds [of rate "dict_get_or cal ''low_bound_factor'' (fl64 (7/10))" "dict_get_or cal ''high_bound_factor'' (fl64 (13/10))"]
    by (simp add: WildfireSpreadModel_def wildfire_sane_def factors_sane_def Let_def dict_get_or_def rate_def)
next
  show "wildfire_sane (sm_defaults WildfireSpreadModel)"
    using fl64_mono [of "7/10" "13/10"] fl64_nonneg [of "4/10"] fl64_nonneg [of "1/10"]
    by (simp add: WildfireSpreadModel_def wildfire_sane_def factors_sane_def dict_get_or_def)
qed (simp add: WildfireSpreadModel_def Let_def)

interpretation enso: simulation_model ENSOForecastModel enso_sane
proof
  fix cal ps
  assume sane: "enso_sane cal" and inputs: "missing_input (sm_needs ENSOForecastModel) ps = None"
    "out_of_bounds (sm_needs ENSOForecastModel) ps = None"
  from input_in_bounds [OF inputs, of "''sst_anomaly''" "-4" 4] obtain x where x: "dict_get ps ''sst_anomaly'' = Some x"
    by (auto simp: ENSOForecastModel_def)
  then show "\<exists>low high. uncertainty_bounds (sm_result ENSOForecastModel cal ps) = (low, high) \<and> low \<le> high \<and>
      fl64 low = low \<and> fl64 high = high"
    using sane shifted_bounds [of "dict_get_or cal ''low_bound_offset'' (fl64 (- 2/10))" "dict_get_or cal ''high_bound_offset'' (fl64 (2/10))" x]
    by (simp add: ENSOForecastModel_def enso_sane_def Let_def dict_get_or_def)
next
  show "enso_sane (sm_defaults ENSOForecastModel)"
    using fl64_mono [of "- 2/10" "2/10"] by (simp add: ENSOForecastModel_def enso_sane_def dict_get_or_def)
qed (simp add: ENSOForecastModel_def Let_def)

section \<open>The agent answers\<close>

definition sim_models :: "sim_model list" where
  "sim_models = [PlumeDispersionModel, FloodExtentModel, WildfireSpreadModel, ENSOForecastModel]"

definition sane_for :: "sim_model \<Rightarrow> params \<Rightarrow> bool" where
  "sane_for m = (if sm_config m = ''wildfire_spread'' then wildfire_sane
     else if sm_config m = ''enso_forecast'' then enso_sane else factors_sane m)"

definition store_sane :: "'t yaml \<Rightarrow> 't sim_state \<Rightarrow> bool" where
  "store_sane Y st \<longleftrightarrow> (\<forall>m\<in>set sim_models. stored_sane Y m (sane_for m) st)"

lemma sim_model_configs:
  "sm_config PlumeDispersionModel = ''plume_dispersion''" "sm_config FloodExtentModel = ''flood_extent''"
  "sm_config WildfireSpreadModel = ''wildfire_spread''" "sm_config ENSOForecastModel = ''enso_forecast''"
  by (simp_all add: PlumeDispersionModel_def FloodExtentModel_def WildfireSpreadModel_def ENSOForecastModel_def)

lemma sim_model_laws: "m \<in> set sim_models \<Longrightarrow> simulation_model m (sane_for m)"
  using plume.simulation_model_axioms flood.simulation_model_axioms wildfire.simulation_model_axioms
    enso.simulation_model_axioms
  by (auto simp: sim_models_def sane_for_def sim_model_configs)

lemma sim_models_distinct: "m \<in> set sim_models \<Longrightarrow> m' \<in> set sim_models \<Longrightarrow> sm_config m = sm_config m' \<Longrightarrow> m = m'"
  by (auto simp: sim_models_def sim_model_configs)

lemma load_other:
  assumes "load_calibrated_parameters Y now c defaults st = (st', cal)" "sm_config m \<noteq> c" "stored_sane Y m s st"
  shows "stored_sane Y m s st'"
  using assms unfolding load_calibrated_parameters_def Let_def stored_sane_def cache_parameters_def
  by (auto simp: dict_simps split: option.splits prod.splits if_splits)

lemma load_store_sane:
  assumes "store_sane Y st" "m \<in> set sim_models"
    "load_calibrated_parameters Y now (sm_config m) (sm_defaults m) st = (st', cal)"
  shows "sane_for m cal \<and> store_sane Y st' \<and> sim_files st' = sim_files st"
proof -
  have own: "sane_for m cal \<and> stored_sane Y m (sane_for m) st' \<and> sim_files st' = sim_files st"
    using simulation_model.load_sane [OF sim_model_laws [OF assms(2)] _ assms(3)] assms(1,2) by (simp add: store_sane_def)
  moreover have "stored_sane Y m' (sane_for m') st'" if "m' \<in> set sim_models" for m'
  proof (cases "m' = m")
    case False
    then have "sm_config m' \<noteq> sm_config m" using sim_models_distinct that assms(2) by blast
    then show ?thesis using load_other [OF assms(3)] assms(1) that by (simp add: store_sane_def)
  qed (use own in simp)
  ultimately show ?thesis by (simp add: store_sane_def)
qed

lemma model_for_hazards:
  "model_for ''plume'' = Some PlumeDispersionModel" "model_for ''flood'' = Some FloodExtentModel"
  "model_for ''wildfire'' = Some WildfireSpreadModel" "model_for ''enso'' = Some ENSOForecastModel"
  by (simp_all add: model_for_def registered_models_def str_lower_def char_lower_def char_code_def)

lemma hazard_models:
  assumes "extract_hazard_type query = Some hazard"
  shows "\<exists>m\<in>set sim_models. model_for hazard = Some m"
proof -
  from assms have "hazard \<in> {''plume'', ''flood'', ''wildfire'', ''enso''}"
    unfolding extract_hazard_type_def Let_def by (simp only: split: if_splits) simp_all
  then show ?thesis by (elim insertE emptyE; simp add: model_for_hazards sim_models_def)
qed

lemma model_run_store_sane:
  assumes "store_sane Y st" "m \<in> set sim_models" "model_run Y now m ps st = (st', r)"
  shows "store_sane Y st'"
  using assms(3) load_store_sane [OF assms(1,2), of now] assms(1)
  by (auto simp: model_run_def split: option.splits prod.splits)

lemma missing_named: "str_contains (''Missing required input: '' @ k) ''Missing required input''"
  by (auto simp: str_contains_iff)

lemma bound_errors:
  assumes "m \<in> set sim_models" "out_of_bounds (sm_needs m) ps = Some k"
  shows "\<not> str_contains (''Parameter out of bounds: '' @ k) ''Missing required input''"
proof -
  obtain n where "find (\<lambda>(k, lo, hi). \<not> (lo \<le> dict_get_or ps k 0 \<and> dict_get_or ps k 0 \<le> hi)) (sm_needs m) = Some n" "k = fst n"
    using assms(2) unfolding out_of_bounds_def by blast
  then have "k \<in> fst ` set (sm_needs m)" using find_Some_in by fast
  then have "k \<in> {''wind_speed'', ''rainfall'', ''temperature'', ''sst_anomaly''}"
    using assms(1)
    by (auto simp: sim_models_def PlumeDispersionModel_def FloodExtentModel_def WildfireSpreadModel_def ENSOForecastModel_def)
  then show ?thesis by auto
qed

lemma simulation_outcomes:
  "(case py_bind (Inl (Value_Error msg)) f of Inl e \<Rightarrow> simulation_failed e | Inr ev \<Rightarrow> simulation_output [ev] []) =
     simulation_output [] [if str_contains msg ''Missing required input'' then msg else ''simulation inconclusive'']"
  "evidence_list (simulation_output evs errs) = evs" "out_errors (simulation_output evs errs) = errs"
  by (simp_all add: simulation_failed_def simulation_output_def)

lemma agent_contract:
  assumes "store_sane Y st" "extract_hazard_type (ai_query inp) = Some hazard"
    "extract_parameters (ai_query inp) prior = Inr ps"
  shows "\<exists>m st' out. model_for hazard = Some m \<and> simulation_run Y i now inp prior st = (st', Inr out) \<and>
    store_sane Y st' \<and> agent_name out = ''simulation'' \<and>
    (case missing_input (sm_needs m) ps of
       Some k \<Rightarrow> evidence_list out = [] \<and> out_errors out = [''Missing required input: '' @ k]
     | None \<Rightarrow> if out_of_bounds (sm_needs m) ps \<noteq> None
         then evidence_list out = [] \<and> out_errors out = [''simulation inconclusive'']
         else \<exists>e. evidence_list out = [e] \<and> out_errors out = [] \<and> ev_source e = model_name m \<and>
           valid_estimate (ev_uncertainty e) \<and> est_source (ev_uncertainty e) = Model_Uncertainty)"
proof -
  from hazard_models [OF assms(2)] obtain m where m: "m \<in> set sim_models" "model_for hazard = Some m" by blast
  have "stored_sane Y m (sane_for m) st" using assms(1) m(1) unfolding store_sane_def ..
  from simulation_model.agent_outcome [OF sim_model_laws [OF m(1)] this, of now ps i]
  obtain st' r where run: "model_run Y now m ps st = (st', r)"
    and out: "case missing_input (sm_needs m) ps of
       Some k \<Rightarrow> r = Inl (Value_Error (''Missing required input: '' @ k)) \<and> st' = st
     | None \<Rightarrow> (case out_of_bounds (sm_needs m) ps of
         Some k \<Rightarrow> r = Inl (Value_Error (''Parameter out of bounds: '' @ k)) \<and> st' = st
       | None \<Rightarrow> \<exists>e. py_bind r (simulation_evidence i now) = Inr e \<and> ev_source e = model_name m \<and>
           valid_estimate (ev_uncertainty e) \<and> est_source (ev_uncertainty e) = Model_Uncertainty)"
    by (elim exE conjE) (rule that)
  let ?out = "case py_bind r (simulation_evidence i now) of Inl e \<Rightarrow> simulation_failed e | Inr ev \<Rightarrow> simulation_output [ev] []"
  have agent: "simulation_run Y i now inp prior st = (st', Inr ?out)"
    using assms(2,3) m(2) run by (simp add: simulation_run_def run_simulation_def)
  have "agent_name ?out = ''simulation''"
    by (simp add: simulation_output_def simulation_failed_def split: sum.splits)
  moreover have "case missing_input (sm_needs m) ps of
       Some k \<Rightarrow> evidence_list ?out = [] \<and> out_errors ?out = [''Missing required input: '' @ k]
     | None \<Rightarrow> if out_of_bounds (sm_needs m) ps \<noteq> None
         then evidence_list ?out = [] \<and> out_errors ?out = [''simulation inconclusive'']
         else \<exists>e. evidence_list ?out = [e] \<and> out_errors ?out = [] \<and> ev_source e = model_name m \<and>
           valid_estimate (ev_uncertainty e) \<and> est_source (ev_uncertainty e) = Model_Uncertainty"
  proof (cases "missing_input (sm_needs m) ps")
    case None
    show ?thesis
    proof (cases "out_of_bounds (sm_needs m) ps")
      case n: None
      from out None n obtain e where "py_bind r (simulation_evidence i now) = Inr e" "ev_source e = model_name m"
        "valid_estimate (ev_uncertainty e)" "est_source (ev_uncertainty e) = Model_Uncertainty" by auto
      then show ?thesis using None n by (simp add: simulation_output_def)
    next
      case (Some k)
      with out None have "r = Inl (Value_Error (''Parameter out of bounds: '' @ k))" by simp
      then show ?thesis using None Some bound_errors [OF m(1) Some] by (simp only: simulation_outcomes) simp
    qed
  next
    case (Some k)
    with out have "r = Inl (Value_Error (''Missing required input: '' @ k))" by simp
    then show ?thesis using Some missing_named by (simp only: simulation_outcomes) simp
  qed
  ultimately show ?thesis
    using m(2) agent model_run_store_sane [OF assms(1) m(1) run] by blast
qed

text \<open>C27: whatever calibration has stored, as long as it is sane, the simulation agent answers every query for a
  known hazard whose numbers can be read: a missing input is named; inputs outside the sanity bounds are
  inconclusive; otherwise there is exactly one item of evidence, of the model for that hazard, with a
  well-formed uncertainty tagged as model uncertainty. What is stored stays sane.\<close>

theorem simulation_run_contract:
  assumes "store_sane Y st" "extract_hazard_type (ai_query inp) = Some hazard"
    "extract_parameters (ai_query inp) prior = Inr ps"
  shows "\<exists>m st' out. model_for hazard = Some m \<and> simulation_run Y i now inp prior st = (st', Inr out) \<and>
    store_sane Y st' \<and> agent_name out = ''simulation'' \<and>
    (case missing_input (sm_needs m) ps of
       Some k \<Rightarrow> evidence_list out = [] \<and> out_errors out = [''Missing required input: '' @ k]
     | None \<Rightarrow> if out_of_bounds (sm_needs m) ps \<noteq> None
         then evidence_list out = [] \<and> out_errors out = [''simulation inconclusive'']
         else \<exists>e. evidence_list out = [e] \<and> out_errors out = [] \<and> ev_source e = model_name m \<and>
           valid_estimate (ev_uncertainty e) \<and> est_source (ev_uncertainty e) = Model_Uncertainty)"
  using assms by (rule agent_contract)

text \<open>A directory that keeps the values themselves.\<close>

definition sample_yaml :: "json yaml" where
  "sample_yaml = \<lparr>safe_load = Inr, safe_dump = (\<lambda>j. j)\<rparr>"

definition empty_store :: "'t sim_state" where
  "empty_store = \<lparr>sim_files = [], parameter_cache = []\<rparr>"

definition sample_question :: "string \<Rightarrow> agent_input" where
  "sample_question q = \<lparr>investigation_id = 1, ai_query = q, region_hint = None\<rparr>"

lemma empty_store_sane: "store_sane Y empty_store"
  by (simp add: store_sane_def stored_sane_def empty_store_def)

lemma sample_hazard_read:
  "extract_hazard_type ''flood rainfall 50'' = Some ''flood''"
  "extract_parameters ''flood rainfall 50'' [] = Inr [(''rainfall'', 50)]"
  by code_simp+

theorem simulation_run_contract_witness:
  "\<exists>st' out e. simulation_run sample_yaml 7 0 (sample_question ''flood rainfall 50'') [] empty_store = (st', Inr out) \<and>
     evidence_list out = [e] \<and> ev_source e = ''FloodExtentModel'' \<and> valid_estimate (ev_uncertainty e)"
proof -
  have inputs: "missing_input (sm_needs FloodExtentModel) [(''rainfall'', 50)] = None"
    "out_of_bounds (sm_needs FloodExtentModel) [(''rainfall'', 50)] = None"
    by (simp_all add: missing_input_def out_of_bounds_def FloodExtentModel_def dict_get_or_def)
  have "ai_query (sample_question ''flood rainfall 50'') = ''flood rainfall 50''" by (simp add: sample_question_def)
  from simulation_run_contract [of sample_yaml empty_store "sample_question ''flood rainfall 50''" "''flood''" "[]" "[(''rainfall'', 50)]" 7 0,
      OF empty_store_sane, unfolded this, OF sample_hazard_read]
  obtain m st' out where m: "model_for ''flood'' = Some m"
    and run: "simulation_run sample_yaml 7 0 (sample_question ''flood rainfall 50'') [] empty_store = (st', Inr out)"
    and out: "case missing_input (sm_needs m) [(''rainfall'', 50)] of
       Some k \<Rightarrow> evidence_list out = [] \<and> out_errors out = [''Missing required input: '' @ k]
     | None \<Rightarrow> if out_of_bounds (sm_needs m) [(''rainfall'', 50)] \<noteq> None
         then evidence_list out = [] \<and> out_errors out = [''simulation inconclusive'']
         else \<exists>e. evidence_list out = [e] \<and> out_errors out = [] \<and> ev_source e = model_name m \<and>
           valid_estimate (ev_uncertainty e) \<and> est_source (ev_uncertainty e) = Model_Uncertainty"
    by (elim exE conjE) (rule that)
  have "m = FloodExtentModel" using m by (simp add: model_for_hazards)
  with out inputs obtain e where "evidence_list out = [e]" "ev_source e = model_name FloodExtentModel"
    "valid_estimate (ev_uncertainty e)" by auto
  then show ?thesis using run by (auto simp: FloodExtentModel_def)
qed

section \<open>Limits of the agent\<close>

text \<open>The texts that the patterns capture carry no sign, so no negative number is ever read.\<close>

lemma first_some_in: "first_some f xs = Some y \<Longrightarrow> \<exists>x\<in>set xs. f x = Some y"
  by (induction xs) (auto split: option.splits)

lemma rx_match_class: "rx_match cls items s = Some w \<Longrightarrow> list_all cls w"
proof (induction cls items s arbitrary: w rule: rx_match.induct)
  case (1 cls s)
  then show ?case by (auto simp: Let_def list_all_iff dest: set_takeWhileD split: if_splits)
next
  case (2 cls ws items s)
  from first_some_in [OF 2(2) [unfolded rx_match.simps]] obtain v where
    "v \<in> set ws" "starts_with s v" "rx_match cls items (drop (length v) s) = Some w" by (auto split: if_splits)
  with 2(1) show ?case by blast
next
  case (3 cls items s)
  from first_some_in [OF 3(2) [unfolded rx_match.simps]] obtain n where
    "n \<in> set (rev [0..<Suc (length (takeWhile is_space s))])" "rx_match cls items (drop n s) = Some w" by blast
  with 3(1) show ?case by blast
qed

lemma rx_search_class: "rx_search cls items s = Some w \<Longrightarrow> list_all cls w"
  by (induction s) (auto dest: rx_match_class split: option.splits)

lemma dec_value_nonneg: "dec_value c = Some d \<Longrightarrow> 0 \<le> d"
  by (auto simp: dec_value_def Let_def split: if_splits)

lemma dec_digits_nonneg: "0 \<le> acc \<Longrightarrow> dec_digits_from acc cs = Some n \<Longrightarrow> 0 \<le> n"
proof (induction acc cs rule: dec_digits_from.induct)
  case (2 acc c cs)
  have step: "0 \<le> 10 * acc + d" if "dec_value x = Some d" for x d
    using dec_value_nonneg [OF that] 2(3) by simp
  show ?case
  proof (cases "dec_value c")
    case None
    with 2(4) obtain c' cs' d where "c = CHR ''_''" "cs = c' # cs'" "dec_value c' = Some d"
      "dec_digits_from (10 * acc + d) cs' = Some n"
      by (auto split: if_splits list.splits option.splits)
    then show ?thesis using 2(1) [OF None] step by blast
  next
    case (Some d)
    then show ?thesis using 2(2) [OF Some] 2(4) step by simp
  qed
qed simp

lemma dec_body_nonneg: "dec_body cs = Some n \<Longrightarrow> 0 \<le> n"
  by (auto simp: dec_body_def dest: dec_value_nonneg dec_digits_nonneg split: option.splits list.splits)

lemma dec_mantissa_nonneg: "dec_mantissa s = Some (v, n) \<Longrightarrow> 0 \<le> v"
  by (auto simp: dec_mantissa_def Let_def dest!: dec_body_nonneg split: option.splits if_splits)

lemma float_body_nonneg: "float_body s = Some x \<Longrightarrow> 0 \<le> x"
  unfolding float_body_def Let_def
  by (auto dest!: dec_mantissa_nonneg intro!: fl64_nonneg mult_nonneg_nonneg divide_nonneg_nonneg
      split: option.splits if_splits)

lemma unsigned_float_nonneg:
  assumes "list_all digit_or_point w" "float_text w = Some x"
  shows "0 \<le> x"
proof -
  have sub: "set (str_strip w) \<subseteq> set w"
    by (auto simp: str_strip_def dest!: set_dropWhileD)
  show ?thesis
  proof (cases "str_strip w")
    case Nil
    then show ?thesis using assms(2) by (simp add: float_text_def signed_body_def)
  next
    case (Cons c cs)
    then have "digit_or_point c" using assms(1) sub by (auto simp: list_all_iff)
    then have "c \<noteq> CHR ''-''" "c \<noteq> CHR ''+''"
      by (auto simp: digit_or_point_def dec_value_def char_code_def)
    then show ?thesis using assms(2) Cons float_body_nonneg by (auto simp: float_text_def signed_body_def)
  qed
qed

definition nonneg_params :: "params \<Rightarrow> bool" where
  "nonneg_params ps \<longleftrightarrow> (\<forall>k x. dict_get ps k = Some x \<longrightarrow> 0 \<le> x)"

lemma take_number_nonneg: "nonneg_params ps \<Longrightarrow> take_number k items s ps = Inr ps' \<Longrightarrow> nonneg_params ps'"
  using rx_search_class [of digit_or_point items s] unsigned_float_nonneg
  by (fastforce simp: take_number_def nonneg_params_def dict_simps split: option.splits if_splits)

lemma claim_nonneg: "nonneg_params ps \<Longrightarrow> claim_parameters c ps = Inr ps' \<Longrightarrow> nonneg_params ps'"
  unfolding claim_parameters_def Let_def py_bind_Inr_iff by (elim exE conjE) (rule take_number_nonneg; assumption?)+

lemma query_nonneg: "nonneg_params ps \<Longrightarrow> query_parameters q ps = Inr ps' \<Longrightarrow> nonneg_params ps'"
  unfolding query_parameters_def Let_def py_bind_Inr_iff by (elim exE conjE) (meson take_number_nonneg)

lemma py_fold_inv:
  assumes "\<And>x b b'. P b \<Longrightarrow> f x b = Inr b' \<Longrightarrow> P b'" "P b" "py_fold f xs b = Inr b'"
  shows "P b'"
  using assms(2,3)
proof (induction xs arbitrary: b)
  case (Cons x xs)
  then obtain c where "f x b = Inr c" "py_fold f xs c = Inr b'" by (auto simp: py_bind_Inr_iff)
  with Cons assms(1) show ?case by blast
qed simp

lemma extract_nonneg:
  assumes "extract_parameters q prior = Inr ps"
  shows "nonneg_params ps"
proof -
  obtain qs where qs: "py_fold output_parameters prior [] = Inr qs" "query_parameters q qs = Inr ps"
    using assms by (auto simp: extract_parameters_def py_bind_Inr_iff)
  have "nonneg_params b'" if "nonneg_params b" "output_parameters x b = Inr b'" for x b b'
    using that py_fold_inv [where P = nonneg_params, OF claim_nonneg]
    by (auto simp: output_parameters_def split: option.splits)
  then have "nonneg_params qs" using py_fold_inv [where P = nonneg_params, OF _ _ qs(1)] by (simp add: nonneg_params_def)
  then show ?thesis using query_nonneg qs(2) by blast
qed

text \<open>Hence the agent never forecasts La Nina, whose threshold is negative.\<close>

lemma la_nina_never_forecast:
  assumes "store_sane Y st" "extract_parameters q prior = Inr ps"
    "model_run Y now ENSOForecastModel ps st = (st', Inr r)"
  shows "prediction r \<noteq> ''ENSO Forecast prediction: current SST anomaly indicates '' @ la_nina @ '' conditions.''"
proof -
  have m: "ENSOForecastModel \<in> set sim_models" by (simp add: sim_models_def)
  from assms(3) obtain cal where load: "load_calibrated_parameters Y now (sm_config ENSOForecastModel) (sm_defaults ENSOForecastModel) st = (st', cal)"
    and r: "r = sm_result ENSOForecastModel cal ps" by (auto simp: model_run_def split: option.splits prod.splits)
  have "enso_sane cal" using load_store_sane [OF assms(1) m load] by (simp add: sane_for_def sim_model_configs)
  moreover have "0 \<le> dict_get_or ps ''sst_anomaly'' 0"
    using extract_nonneg [OF assms(2)] by (auto simp: nonneg_params_def dict_get_or_def split: option.splits)
  ultimately show ?thesis
    by (auto simp: r ENSOForecastModel_def Let_def enso_phase_def enso_sane_def el_nino_def la_nina_def)
qed

text \<open>A decimal number at the end of a sentence takes the full stop along and cannot be read; the exception
  leaves the agent.\<close>

lemma number_before_full_stop_raises:
  "simulation_run Y i now (sample_question ''plume at wind speed 12.5.'') [] st =
     (st, Inl (Value_Error ''could not convert string to float''))"
proof -
  have "extract_hazard_type ''plume at wind speed 12.5.'' = Some ''plume''"
    "extract_parameters ''plume at wind speed 12.5.'' [] = Inl (Value_Error ''could not convert string to float'')"
    by code_simp+
  then show ?thesis by (simp add: simulation_run_def sample_question_def)
qed

text \<open>Square kilometres clamped to the unit interval: on the default parameters every flood forecast claims
  to be certain.\<close>

lemma flood_always_certain:
  assumes "simulation_evidence i now (sm_result FloodExtentModel (sm_defaults FloodExtentModel) ps) = Inr e"
    "dict_get ps ''rainfall'' = Some x" "5 \<le> x"
  shows "lower_bound (ev_uncertainty e) = 1 \<and> point_estimate (ev_uncertainty e) = 1 \<and> upper_bound (ev_uncertainty e) = 1"
proof -
  have c: "1 \<le> fmul x (fl64 (28/10))" "1 \<le> fmul x (fl64 (36/10))"
  proof -
    have "2 \<le> fl64 (28/10)" "2 \<le> fl64 (36/10)"
      using fl64_mono [of 2 "28/10"] fl64_mono [of 2 "36/10"] fl64_numeral [of "Num.Bit0 Num.One"] by simp_all
    then have "1 \<le> x * fl64 (28/10)" "1 \<le> x * fl64 (36/10)"
      using assms(3) mult_mono [of 1 x 1] by fastforce+
    then show "1 \<le> fmul x (fl64 (28/10))" "1 \<le> fmul x (fl64 (36/10))"
      unfolding fmul_def using fl64_mono [of 1] by fastforce+
  qed
  have two: "fl64 2 = 2" using fl64_numeral [of "Num.Bit0 Num.One"] by simp
  have "unit_clamp (fmul x (fl64 (28/10))) = 1" "unit_clamp (fmul x (fl64 (36/10))) = 1"
    using c by (simp_all add: unit_clamp_def)
  then show ?thesis using assms
    by (auto simp: simulation_evidence_def FloodExtentModel_def Let_def dict_get_or_def py_bind_Inr_iff fadd_def fdiv_def
        two UncertaintyEstimate_Inr_iff mk_evidence_def init_uncertainty_def unit_clamp_def)
qed

end
