(* ===== verification/Calibration.thy ===== *)
theory Calibration
  imports Simulation
begin

text \<open>
  Calibration of the simulation models: the fits and their statistics (\<open>simulation_engine/calibration\<close>), the
  promotion gate with its versioned files (\<open>report.py\<close>, \<open>version_manager.py\<close>) and the job that collects the
  samples (\<open>workers/jobs/calibration_job.py\<close>). The seeded shuffle is a parameter, the order of the
  indices for each length.
\<close>

section \<open>Statistics\<close>

type_synonym sample = params

definition sample_at :: "string \<Rightarrow> sample \<Rightarrow> flt py" where
  "sample_at k s = (case dict_get s k of None \<Rightarrow> Inl (Key_Error k) | Some x \<Rightarrow> Inr x)"

definition column :: "string \<Rightarrow> sample list \<Rightarrow> flt list py" where
  "column k ss = py_sequence (map (sample_at k) ss)"

definition fmean :: "flt list \<Rightarrow> flt" where
  "fmean xs = fdiv (fsum xs) (fl64 (of_nat (length xs)))"

definition fsquare :: "libm \<Rightarrow> flt \<Rightarrow> flt" where
  "fsquare L x = m_pow L x 2"

definition compute_rmse :: "libm \<Rightarrow> flt list \<Rightarrow> flt list \<Rightarrow> flt py" where
  "compute_rmse L predictions observed =
     (if predictions = [] \<or> observed = [] \<or> length predictions \<noteq> length observed then Inr 999
      else checked_sqrt L (fmean (map (\<lambda>(p, y). fsquare L (fsub p y)) (zip predictions observed))))"

definition compute_std_dev :: "libm \<Rightarrow> flt list \<Rightarrow> flt py" where
  "compute_std_dev L residuals =
     (if residuals = [] then Inr 0
      else checked_sqrt L (fmean (map (\<lambda>r. fsquare L (fsub r (fmean residuals))) residuals)))"

definition compute_bounds_factors :: "flt \<Rightarrow> flt \<Rightarrow> flt \<Rightarrow> flt \<Rightarrow> flt \<times> flt" where
  "compute_bounds_factors mean_pred std_dev default_low default_high =
     (if fl64 (1/10) < mean_pred
      then (fclamp (fl64 (1/10)) (fl64 (95/100)) (fdiv (fsub mean_pred std_dev) mean_pred),
            fclamp (fl64 (105/100)) 3 (fdiv (fadd mean_pred std_dev) mean_pred))
      else (default_low, default_high))"

section \<open>Fits\<close>

text \<open>The common part of \<open>fit_flood_extent\<close> and \<open>fit_plume_dispersion\<close>, which differ in names and defaults.\<close>

definition fit_single ::
    "libm \<Rightarrow> string \<Rightarrow> string \<Rightarrow> flt \<Rightarrow> flt \<Rightarrow> flt \<Rightarrow> sample list \<Rightarrow> sample list \<Rightarrow> (params \<times> flt) py" where
  "fit_single L input key dflt dflt_low dflt_high train val =
     (let defaults = [(key, dflt), (''low_bound_factor'', dflt_low), (''high_bound_factor'', dflt_high)]
      in if train = [] then Inr (defaults, 999)
         else py_bind (py_sequence (map (\<lambda>s. py_bind (sample_at input s) (\<lambda>x. py_bind (sample_at ''observed'' s) (\<lambda>y. Inr (x, y)))) train)) (\<lambda>xys.
           let sum_xy = fsum (map (\<lambda>(x, y). fmul x y) xys); sum_x2 = fsum (map (\<lambda>(x, _). fsquare L x) xys)
           in if sum_x2 < fl64 (1/1000000) then Inr (defaults, 999)
              else
                (let coeff = fclamp (fl64 (1/10)) 10 (fdiv sum_xy sum_x2);
                     preds = map (\<lambda>(x, _). fmul x coeff) xys
                 in py_bind (compute_std_dev L (map (\<lambda>(x, y). fsub y (fmul x coeff)) xys)) (\<lambda>std_dev.
                      case compute_bounds_factors (fmean preds) std_dev (fdiv dflt_low dflt) (fdiv dflt_high dflt) of
                        (rel_low, rel_high) \<Rightarrow>
                          py_bind (if val = [] then Inr 0
                                   else py_bind (column input val) (\<lambda>xs. py_bind (column ''observed'' val) (\<lambda>ys.
                                     compute_rmse L (map (\<lambda>x. fmul x coeff) xs) ys))) (\<lambda>rmse.
                            Inr ([(key, fround 4 coeff), (''low_bound_factor'', fround 4 (fmul rel_low coeff)),
                                  (''high_bound_factor'', fround 4 (fmul rel_high coeff))], rmse))))))"

definition fit_flood_extent :: "libm \<Rightarrow> sample list \<Rightarrow> sample list \<Rightarrow> (params \<times> flt) py" where
  "fit_flood_extent L = fit_single L ''rainfall'' ''rainfall_coefficient'' (fl64 (32/10)) (fl64 (28/10)) (fl64 (36/10))"

definition fit_plume_dispersion :: "libm \<Rightarrow> sample list \<Rightarrow> sample list \<Rightarrow> (params \<times> flt) py" where
  "fit_plume_dispersion L = fit_single L ''wind_speed'' ''wind_coefficient'' (fl64 (18/10)) (3/2) (fl64 (21/10))"

definition wildfire_prediction :: "flt \<Rightarrow> flt \<Rightarrow> flt \<Rightarrow> flt \<Rightarrow> flt" where
  "wildfire_prediction w_coeff t_coeff w t = fadd (fmul w w_coeff) (fmul t t_coeff)"

definition wildfire_inputs :: "sample \<Rightarrow> (flt \<times> flt) py" where
  "wildfire_inputs s = py_bind (sample_at ''wind_speed'' s) (\<lambda>w. py_bind (sample_at ''temperature'' s) (\<lambda>t. Inr (w, t)))"

definition fit_wildfire_spread :: "libm \<Rightarrow> sample list \<Rightarrow> sample list \<Rightarrow> (params \<times> flt) py" where
  "fit_wildfire_spread L train val =
     (let defaults = sm_defaults WildfireSpreadModel
      in if length train < 2 then Inr (defaults, 999)
         else py_bind (column ''wind_speed'' train) (\<lambda>ws. py_bind (column ''temperature'' train) (\<lambda>ts. py_bind (column ''observed'' train) (\<lambda>ys.
           let rows = zip ws (zip ts ys);
               sum_w2 = fsum (map (\<lambda>(w, t, y). fsquare L w) rows); sum_t2 = fsum (map (\<lambda>(w, t, y). fsquare L t) rows);
               sum_wt = fsum (map (\<lambda>(w, t, y). fmul w t) rows); sum_wy = fsum (map (\<lambda>(w, t, y). fmul w y) rows);
               sum_ty = fsum (map (\<lambda>(w, t, y). fmul t y) rows);
               det = fsub (fmul sum_w2 sum_t2) (fsquare L sum_wt)
           in if \<bar>det\<bar> < fl64 (1/1000000) then Inr (defaults, 999)
              else
                (let wc = fclamp (fl64 (1/100)) 2 (fdiv (fsub (fmul sum_t2 sum_wy) (fmul sum_wt sum_ty)) det);
                     tc = fclamp (fl64 (1/100)) 1 (fdiv (fsub (fmul sum_w2 sum_ty) (fmul sum_wt sum_wy)) det);
                     preds = map (\<lambda>(w, t, y). wildfire_prediction wc tc w t) rows
                 in py_bind (compute_std_dev L (map (\<lambda>(w, t, y). fsub y (wildfire_prediction wc tc w t)) rows)) (\<lambda>std_dev.
                      case compute_bounds_factors (fmean preds) std_dev (fl64 (7/10)) (fl64 (13/10)) of
                        (low, high) \<Rightarrow>
                          py_bind (if val = [] then Inr 0
                                   else py_bind (py_sequence (map wildfire_inputs val)) (\<lambda>vs. py_bind (column ''observed'' val) (\<lambda>vo.
                                     compute_rmse L (map (\<lambda>(w, t). wildfire_prediction wc tc w t) vs) vo))) (\<lambda>rmse.
                            Inr ([(''wind_coefficient'', fround 4 wc), (''temp_coefficient'', fround 4 tc),
                                  (''low_bound_factor'', fround 4 low), (''high_bound_factor'', fround 4 high)], rmse))))))))"

text \<open>\<open>xs[int(n * q)]\<close>.\<close>

definition scaled_index :: "nat \<Rightarrow> flt \<Rightarrow> nat" where
  "scaled_index n q = nat \<lfloor>fmul (fl64 (of_nat n)) q\<rfloor>"

definition list_at :: "'a list \<Rightarrow> nat \<Rightarrow> 'a py" where
  "list_at xs i = (if i < length xs then Inr (xs ! i) else Inl (Other_Error ''IndexError''))"

definition enso_mismatch :: "flt \<Rightarrow> flt \<Rightarrow> flt \<Rightarrow> bool" where
  "enso_mismatch nino nina anom \<longleftrightarrow> enso_phase nino nina anom \<noteq> enso_phase (1/2) (- 1/2) anom"

definition enso_error_rate :: "flt \<Rightarrow> flt \<Rightarrow> sample list \<Rightarrow> flt py" where
  "enso_error_rate nino nina val =
     py_bind (column ''sst_anomaly'' val) (\<lambda>anoms.
       Inr (fl64 (of_nat (length (filter (enso_mismatch nino nina) anoms)) / of_nat (length anoms))))"

definition fit_enso_forecast :: "libm \<Rightarrow> sample list \<Rightarrow> sample list \<Rightarrow> (params \<times> flt) py" where
  "fit_enso_forecast L train val =
     (if length train < 5 then Inr (sm_defaults ENSOForecastModel, 1)
      else py_bind (column ''sst_anomaly'' train) (\<lambda>raw.
        let anomalies = sort raw; n = length anomalies
        in py_bind (list_at anomalies (scaled_index n (fl64 (9/10)))) (\<lambda>nino_val.
           py_bind (list_at anomalies (scaled_index n (fl64 (1/10)))) (\<lambda>nina_val.
             let nino = fclamp (fl64 (2/10)) (3/2) nino_val; nina = fclamp (- 3/2) (fl64 (- 2/10)) nina_val;
                 mean_anom = fmean anomalies
             in py_bind (compute_std_dev L (map (\<lambda>a. fsub a mean_anom) anomalies)) (\<lambda>std_dev.
                  let off = fclamp (fl64 (5/100)) 1 std_dev
                  in py_bind (if val = [] then Inr 0 else enso_error_rate nino nina val) (\<lambda>err.
                       Inr ([(''el_nino_threshold'', fround 4 nino), (''la_nina_threshold'', fround 4 nina),
                             (''low_bound_offset'', fround 4 (- off)), (''high_bound_offset'', fround 4 off)], err)))))))"

section \<open>The promotion gate\<close>

definition root_mean :: "libm \<Rightarrow> flt list \<Rightarrow> flt" where
  "root_mean L squares = m_pow L (fmean squares) (1/2)"

definition evaluate_parameters :: "libm \<Rightarrow> string \<Rightarrow> params \<Rightarrow> sample list \<Rightarrow> flt py" where
  "evaluate_parameters L model ps val =
     (if val = [] then Inr 0
      else if model = ''wildfire_spread'' then
        (let w_coeff = dict_get_or ps ''wind_coefficient'' (fl64 (4/10)); t_coeff = dict_get_or ps ''temp_coefficient'' (fl64 (1/10))
         in py_bind (py_sequence (map (\<lambda>s. py_bind (sample_at ''observed'' s) (\<lambda>y. py_bind (sample_at ''wind_speed'' s) (\<lambda>w.
              py_bind (sample_at ''temperature'' s) (\<lambda>t. Inr (fsquare L (fsub y (wildfire_prediction w_coeff t_coeff w t))))))) val))
              (\<lambda>se. Inr (root_mean L se)))
      else if model = ''flood_extent'' then
        (let r = dict_get_or ps ''rainfall_coefficient'' (fl64 (32/10))
         in py_bind (py_sequence (map (\<lambda>s. py_bind (sample_at ''observed'' s) (\<lambda>y. py_bind (sample_at ''rainfall'' s) (\<lambda>x.
              Inr (fsquare L (fsub y (fmul x r)))))) val)) (\<lambda>se. Inr (root_mean L se)))
      else if model = ''plume_dispersion'' then
        (let w = dict_get_or ps ''wind_coefficient'' (fl64 (18/10))
         in py_bind (py_sequence (map (\<lambda>s. py_bind (sample_at ''observed'' s) (\<lambda>y. py_bind (sample_at ''wind_speed'' s) (\<lambda>x.
              Inr (fsquare L (fsub y (fmul x w)))))) val)) (\<lambda>se. Inr (root_mean L se)))
      else if model = ''enso_forecast'' then
        enso_error_rate (dict_get_or ps ''el_nino_threshold'' (1/2)) (dict_get_or ps ''la_nina_threshold'' (- 1/2)) val
      else Inr 999)"

text \<open>The file names of the versions, and reading a version back from a name: \<open>split("_v")\<close>, its last part
  without the extension, \<open>int\<close>.\<close>

definition version_name :: "string \<Rightarrow> int \<Rightarrow> string" where
  "version_name model v = model @ ''_v'' @ int_str v @ ''.yaml''"

fun split_last :: "string \<Rightarrow> string \<Rightarrow> string" where
  "split_last acc [] = rev acc"
| "split_last acc [c] = rev (c # acc)"
| "split_last acc (c # c' # cs) = (if c = CHR ''_'' \<and> c' = CHR ''v'' then split_last [] cs else split_last (c # acc) (c' # cs))"

definition name_version :: "string \<Rightarrow> string \<Rightarrow> int option" where
  "name_version model name =
     (if starts_with name (model @ ''_v'') \<and> starts_with (rev name) (rev ''.yaml'') \<and>
         length model + 7 \<le> length name
      then int_text (str_replace ''.yaml'' [] (split_last [] name)) else None)"

definition next_parameter_version :: "string \<Rightarrow> string list \<Rightarrow> int" where
  "next_parameter_version model names =
     fold (\<lambda>name highest. case name_version model name of None \<Rightarrow> highest | Some v \<Rightarrow> max highest v) names 0 + 1"

definition calibration_payload :: "string \<Rightarrow> int \<Rightarrow> int \<Rightarrow> nat \<Rightarrow> flt \<Rightarrow> flt \<Rightarrow> params \<Rightarrow> json" where
  "calibration_payload model v now n current_score new_score ps =
     JObj [(''model_name'', JStr model), (''version'', JInt v), (''fitted_at'', JStr (isoformat now)),
       (''validation_report'', JObj [(''sample_count'', JInt (int n)), (''baseline_score'', JFloat current_score),
         (''promoted_score'', JFloat new_score)]),
       (''parameters'', JObj (map (\<lambda>(k, x). (k, JFloat x)) ps))]"

definition write_parameters :: "'t yaml \<Rightarrow> int \<Rightarrow> string \<Rightarrow> int \<Rightarrow> json \<Rightarrow> 't sim_state \<Rightarrow> 't sim_state" where
  "write_parameters Y now model v payload st =
     invalidate_parameter_cache (Some model)
       (st\<lparr>sim_files := dict_set (latest_name model) (now, safe_dump Y payload)
             (dict_set (version_name model v) (now, safe_dump Y payload) (sim_files st))\<rparr>)"

definition check_and_promote_parameters ::
    "libm \<Rightarrow> 't yaml \<Rightarrow> int \<Rightarrow> string \<Rightarrow> params \<Rightarrow> params \<Rightarrow> sample list \<Rightarrow> 't sim_state \<Rightarrow>
     't sim_state \<times> (bool \<times> int \<times> flt \<times> flt) py" where
  "check_and_promote_parameters L Y now model new_params defaults val st =
     (case load_calibrated_parameters Y now model defaults st of (st1, current_params) \<Rightarrow>
        (case py_bind (evaluate_parameters L model current_params val) (\<lambda>current_score.
              py_bind (evaluate_parameters L model new_params val) (\<lambda>new_score. Inr (current_score, new_score))) of
           Inl e \<Rightarrow> (st1, Inl e)
         | Inr (current_score, new_score) \<Rightarrow>
             (let v = next_parameter_version model (dict_keys (sim_files st1)); promoted = new_score \<le> current_score
              in (if promoted
                  then write_parameters Y now model v (calibration_payload model v now (length val) current_score new_score new_params) st1
                  else st1,
                  Inr (promoted, v, current_score, new_score)))))"

section \<open>Samples\<close>

definition sign_digit_point :: "char \<Rightarrow> bool" where
  "sign_digit_point c \<longleftrightarrow> digit_or_point c \<or> c = CHR ''-''"

definition labelled :: "string \<Rightarrow> string \<Rightarrow> string option" where
  "labelled prefix txt = rx_search sign_digit_point [Words [prefix], Blanks] txt"

text \<open>\<open>float(match.group(1)) if match else None\<close>.\<close>

definition group_float :: "string option \<Rightarrow> flt option py" where
  "group_float g = (case g of None \<Rightarrow> Inr None
     | Some w \<Rightarrow> (case float_text w of None \<Rightarrow> Inl (Value_Error ''could not convert string to float'') | Some x \<Rightarrow> Inr (Some x)))"

definition parse_era5_details :: "string \<Rightarrow> flt option \<times> flt option \<times> flt option" where
  "parse_era5_details details =
     (case py_bind (group_float (labelled ''Mean Temp:'' details)) (\<lambda>temp.
           py_bind (group_float (labelled ''Max Wind:'' details)) (\<lambda>wind.
           py_bind (group_float (labelled ''Precip:'' details)) (\<lambda>precip. Inr (temp, wind, precip)))) of
        Inl _ \<Rightarrow> (None, None, None)
      | Inr r \<Rightarrow> r)"

definition outcome_label :: "string \<Rightarrow> string option" where
  "outcome_label outcome_type =
     (if outcome_type = ''wildfire_spread'' then Some ''observed_spread_rate:''
      else if outcome_type = ''flood_extent'' then Some ''observed_flooded_area:''
      else if outcome_type = ''plume_dispersion'' then Some ''observed_dispersion_distance:''
      else if outcome_type = ''enso_forecast'' then Some ''water temperature:''
      else None)"

definition extract_observed_outcome :: "'g hazard_event \<Rightarrow> string \<Rightarrow> flt option" where
  "extract_observed_outcome e outcome_type =
     (case he_details e of
        None \<Rightarrow> None
      | Some details \<Rightarrow>
          (if details = [] then None
           else case outcome_label outcome_type of
                  None \<Rightarrow> None
                | Some prefix \<Rightarrow> (case group_float (labelled prefix details) of Inl _ \<Rightarrow> None | Inr r \<Rightarrow> r)))"

definition event_day :: "'g hazard_event \<Rightarrow> int" where
  "event_day e = event_date e div 86400000000"

definition baseline_of :: "'g hazard_event \<Rightarrow> 'g hazard_event list \<Rightarrow> (flt option \<times> flt option \<times> flt option) option" where
  "baseline_of ev era5 =
     map_option (\<lambda>e. parse_era5_details (or_default (he_details e) []))
       (find (\<lambda>e. event_day e = event_day ev \<and> region_label e = region_label ev) era5)"

definition wildfire_samples :: "'g hazard_event list \<Rightarrow> 'g hazard_event list \<Rightarrow> sample list" where
  "wildfire_samples copernicus era5 =
     concat (map (\<lambda>cop. case baseline_of cop era5 of
         Some (Some temp, Some wind, _) \<Rightarrow>
           (case extract_observed_outcome cop ''wildfire_spread'' of
              Some obs \<Rightarrow> [[(''wind_speed'', wind), (''temperature'', temp), (''observed'', obs)]] | None \<Rightarrow> [])
       | _ \<Rightarrow> []) copernicus)"

definition flood_samples :: "'g hazard_event list \<Rightarrow> 'g hazard_event list \<Rightarrow> sample list" where
  "flood_samples general era5 =
     concat (map (\<lambda>fld. case baseline_of fld era5 of
         Some (_, _, Some precip) \<Rightarrow>
           (if 0 < precip then
              (case extract_observed_outcome fld ''flood_extent'' of
                 Some obs \<Rightarrow> [[(''rainfall'', precip), (''observed'', obs)]] | None \<Rightarrow> []) else [])
       | _ \<Rightarrow> []) (filter (\<lambda>h. str_contains (str_lower (he_event_type h)) ''flood'') general))"

definition plume_samples :: "'g hazard_event list \<Rightarrow> 'g hazard_event list \<Rightarrow> sample list" where
  "plume_samples general era5 =
     concat (map (\<lambda>wnd. case baseline_of wnd era5 of
         Some (_, Some wind, _) \<Rightarrow>
           (if 0 < wind then
              (case extract_observed_outcome wnd ''plume_dispersion'' of
                 Some obs \<Rightarrow> [[(''wind_speed'', wind), (''observed'', obs)]] | None \<Rightarrow> []) else [])
       | _ \<Rightarrow> [])
       (filter (\<lambda>h. list_ex (str_contains (str_lower (he_event_type h))) [''wind'', ''storm'', ''hurricane'', ''tornado'']) general))"

definition enso_samples :: "'g hazard_event list \<Rightarrow> sample list" where
  "enso_samples noaa =
     concat (map (\<lambda>e. case extract_observed_outcome e ''enso_forecast'' of
         Some obs \<Rightarrow> [[(''sst_anomaly'', fsub obs 20)]] | None \<Rightarrow> []) noaa)"

section \<open>The job\<close>

definition MIN_CALIBRATION_SAMPLES :: nat where
  "MIN_CALIBRATION_SAMPLES = 5"

definition TRAIN_VALIDATION_SPLIT_RATIO :: flt where
  "TRAIN_VALIDATION_SPLIT_RATIO = fl64 (8/10)"

datatype calibration_summary = Calibrated bool int flt | Skipped

text \<open>The second half of the four functions \<open>_calibrate_*\<close>.\<close>

definition calibrate_with ::
    "libm \<Rightarrow> 't yaml \<Rightarrow> (nat \<Rightarrow> nat list) \<Rightarrow> int \<Rightarrow> sim_model \<Rightarrow> (sample list \<Rightarrow> sample list \<Rightarrow> (params \<times> flt) py) \<Rightarrow>
     sample list \<Rightarrow> 't sim_state \<Rightarrow> 't sim_state \<times> calibration_summary py" where
  "calibrate_with L Y shuffle now m fit samples st =
     (if length samples \<ge> MIN_CALIBRATION_SAMPLES then
        (let shuffled = map (nth samples) (shuffle (length samples));
             split = scaled_index (length shuffled) TRAIN_VALIDATION_SPLIT_RATIO;
             train = take split shuffled; val = drop split shuffled
         in case fit train val of
              Inl e \<Rightarrow> (st, Inl e)
            | Inr (fitted, _) \<Rightarrow>
                (case check_and_promote_parameters L Y now (sm_config m) fitted (sm_defaults m) val st of
                   (st1, Inl e) \<Rightarrow> (st1, Inl e)
                 | (st1, Inr (promoted, v, _, new_score)) \<Rightarrow> (st1, Inr (Calibrated promoted v new_score))))
      else (st, Inr Skipped))"

definition calibrate_wildfire where
  "calibrate_wildfire L Y shuffle now copernicus era5 =
     calibrate_with L Y shuffle now WildfireSpreadModel (fit_wildfire_spread L) (wildfire_samples copernicus era5)"

definition calibrate_flood where
  "calibrate_flood L Y shuffle now general era5 =
     calibrate_with L Y shuffle now FloodExtentModel (fit_flood_extent L) (flood_samples general era5)"

definition calibrate_plume where
  "calibrate_plume L Y shuffle now general era5 =
     calibrate_with L Y shuffle now PlumeDispersionModel (fit_plume_dispersion L) (plume_samples general era5)"

definition calibrate_enso where
  "calibrate_enso L Y shuffle now noaa =
     calibrate_with L Y shuffle now ENSOForecastModel (fit_enso_forecast L) (enso_samples noaa)"

text \<open>Steps one after the other; an exception ends the job, what was written stays.\<close>

fun in_sequence :: "('k \<times> ('s \<Rightarrow> 's \<times> 'a py)) list \<Rightarrow> 's \<Rightarrow> 's \<times> ('k \<times> 'a) list py" where
  "in_sequence [] st = (st, Inr [])"
| "in_sequence ((k, f) # fs) st =
     (case f st of
        (st1, Inl e) \<Rightarrow> (st1, Inl e)
      | (st1, Inr a) \<Rightarrow>
          (case in_sequence fs st1 of (st2, Inl e) \<Rightarrow> (st2, Inl e) | (st2, Inr as) \<Rightarrow> (st2, Inr ((k, a) # as))))"

definition calibration_steps ::
    "libm \<Rightarrow> 't yaml \<Rightarrow> (nat \<Rightarrow> nat list) \<Rightarrow> int \<Rightarrow> 'g hazard_event list \<Rightarrow>
     (string \<times> ('t sim_state \<Rightarrow> 't sim_state \<times> calibration_summary py)) list" where
  "calibration_steps L Y shuffle now all_events =
     (let copernicus = filter (\<lambda>e. he_source e = Some ''copernicus'') all_events;
          era5 = filter (\<lambda>e. he_source e = Some ''era5'') all_events;
          noaa = filter (\<lambda>e. he_source e = Some ''noaa'') all_events;
          general = filter (\<lambda>e. he_source e \<notin> Some ` {''copernicus'', ''era5'', ''noaa''}) all_events
      in [(''wildfire_spread'', calibrate_wildfire L Y shuffle now copernicus era5),
          (''flood_extent'', calibrate_flood L Y shuffle now general era5),
          (''plume_dispersion'', calibrate_plume L Y shuffle now general era5),
          (''enso_forecast'', calibrate_enso L Y shuffle now noaa)])"

definition run_calibration_job ::
    "libm \<Rightarrow> 't yaml \<Rightarrow> (nat \<Rightarrow> nat list) \<Rightarrow> int \<Rightarrow> 'g hazard_event list \<Rightarrow> 't sim_state \<Rightarrow>
     't sim_state \<times> (string \<times> calibration_summary) list py" where
  "run_calibration_job L Y shuffle now table st =
     in_sequence (calibration_steps L Y shuffle now (sort_key event_date table)) st"

section \<open>Fitted parameters are sane\<close>

lemma bounds_factors_ordered:
  assumes "default_low \<le> default_high"
  shows "fst (compute_bounds_factors mean_pred std_dev default_low default_high)
    \<le> snd (compute_bounds_factors mean_pred std_dev default_low default_high)"
proof -
  have "fl64 (1/10) \<le> fl64 (95/100)" "fl64 (95/100) \<le> fl64 (105/100)" by (rule fl64_mono; simp)+
  moreover have "fl64 (105/100) \<le> 3" using fl64_mono [of "105/100" 3] fl64_numeral [of "Num.Bit1 Num.One"] by simp
  ultimately have "fclamp (fl64 (1/10)) (fl64 (95/100)) x \<le> fclamp (fl64 (105/100)) 3 y" for x y
    using fclamp_in [of "fl64 (1/10)" "fl64 (95/100)" x] fclamp_in [of "fl64 (105/100)" 3 y] by linarith
  then show ?thesis using assms unfolding compute_bounds_factors_def by (cases "fl64 (1/10) < mean_pred") auto
qed

lemma clamp_nonneg: "0 \<le> lo \<Longrightarrow> 0 \<le> fclamp lo hi x"
  by (simp add: fclamp_def)

lemma if_Inr_iff: "(if c then x else y) = Inr z \<longleftrightarrow> c \<and> x = Inr z \<or> \<not> c \<and> y = Inr z"
  by simp

lemma fit_single_form:
  assumes "fit_single L input key d dl dh train val = Inr (ps, r)"
  shows "ps = [(key, d), (''low_bound_factor'', dl), (''high_bound_factor'', dh)] \<or>
    (\<exists>x mp sd. ps = [(key, fround 4 (fclamp (fl64 (1/10)) 10 x)),
       (''low_bound_factor'', fround 4 (fmul (fst (compute_bounds_factors mp sd (fdiv dl d) (fdiv dh d))) (fclamp (fl64 (1/10)) 10 x))),
       (''high_bound_factor'', fround 4 (fmul (snd (compute_bounds_factors mp sd (fdiv dl d) (fdiv dh d))) (fclamp (fl64 (1/10)) 10 x)))])"
  using assms unfolding fit_single_def Let_def case_prod_beta
  by (simp only: py_bind_Inr_iff if_Inr_iff sum.inject prod.inject) (elim exE conjE disjE; blast)

lemma fit_single_sane:
  assumes "fit_single L input key d dl dh train val = Inr (ps, r)" "0 < d" "dl \<le> dh"
  shows "\<exists>c l h. ps = [(key, c), (''low_bound_factor'', l), (''high_bound_factor'', h)] \<and> l \<le> h"
  using fit_single_form [OF assms(1)]
proof (elim disjE exE)
  fix x mp sd
  let ?c = "fclamp (fl64 (1/10)) 10 x" and ?b = "compute_bounds_factors mp sd (fdiv dl d) (fdiv dh d)"
  assume ps: "ps = [(key, fround 4 ?c), (''low_bound_factor'', fround 4 (fmul (fst ?b) ?c)),
    (''high_bound_factor'', fround 4 (fmul (snd ?b) ?c))]"
  have "fdiv dl d \<le> fdiv dh d" unfolding fdiv_def using assms(2,3) by (intro fl64_mono divide_right_mono) simp_all
  from bounds_factors_ordered [OF this] have "fst ?b \<le> snd ?b" .
  moreover have "0 \<le> ?c" by (intro clamp_nonneg fl64_nonneg) simp
  ultimately have "fround 4 (fmul (fst ?b) ?c) \<le> fround 4 (fmul (snd ?b) ?c)"
    unfolding fmul_def by (intro fround_mono fl64_mono mult_right_mono)
  then show ?thesis using ps by blast
qed (use assms(3) in blast)

lemma fit_wildfire_form:
  assumes "fit_wildfire_spread L train val = Inr (ps, r)"
  shows "ps = sm_defaults WildfireSpreadModel \<or>
    (\<exists>x y mp sd. ps = [(''wind_coefficient'', fround 4 (fclamp (fl64 (1/100)) 2 x)), (''temp_coefficient'', fround 4 (fclamp (fl64 (1/100)) 1 y)),
       (''low_bound_factor'', fround 4 (fst (compute_bounds_factors mp sd (fl64 (7/10)) (fl64 (13/10))))),
       (''high_bound_factor'', fround 4 (snd (compute_bounds_factors mp sd (fl64 (7/10)) (fl64 (13/10)))))])"
  using assms unfolding fit_wildfire_spread_def Let_def case_prod_beta
  by (simp only: py_bind_Inr_iff if_Inr_iff sum.inject prod.inject) (elim exE conjE disjE; blast)

lemma fit_enso_form:
  assumes "fit_enso_forecast L train val = Inr (ps, r)"
  shows "ps = sm_defaults ENSOForecastModel \<or>
    (\<exists>x y z. ps = [(''el_nino_threshold'', fround 4 (fclamp (fl64 (2/10)) (3/2) x)),
       (''la_nina_threshold'', fround 4 (fclamp (- 3/2) (fl64 (- 2/10)) y)),
       (''low_bound_offset'', fround 4 (- fclamp (fl64 (5/100)) 1 z)), (''high_bound_offset'', fround 4 (fclamp (fl64 (5/100)) 1 z))])"
  using assms unfolding fit_enso_forecast_def Let_def
  by (simp only: py_bind_Inr_iff if_Inr_iff sum.inject prod.inject) (elim exE conjE disjE; blast)

definition fit_for :: "libm \<Rightarrow> sim_model \<Rightarrow> sample list \<Rightarrow> sample list \<Rightarrow> (params \<times> flt) py" where
  "fit_for L m = (if sm_config m = ''wildfire_spread'' then fit_wildfire_spread L
     else if sm_config m = ''enso_forecast'' then fit_enso_forecast L
     else if sm_config m = ''flood_extent'' then fit_flood_extent L else fit_plume_dispersion L)"

lemma fround_nonneg: "0 \<le> x \<Longrightarrow> 0 \<le> fround n x"
  using fround_mono [of 0 x n] by simp

lemma fit_wildfire_sane:
  assumes "fit_wildfire_spread L train val = Inr (ps, r)"
  shows "wildfire_sane ps \<and> map fst ps = map fst (sm_defaults WildfireSpreadModel)"
  using fit_wildfire_form [OF assms]
proof (elim disjE exE)
  assume "ps = sm_defaults WildfireSpreadModel"
  then show ?thesis using wildfire.defaults_sane by simp
next
  fix x y mp sd
  let ?b = "compute_bounds_factors mp sd (fl64 (7/10)) (fl64 (13/10))"
  assume ps: "ps = [(''wind_coefficient'', fround 4 (fclamp (fl64 (1/100)) 2 x)), (''temp_coefficient'', fround 4 (fclamp (fl64 (1/100)) 1 y)),
    (''low_bound_factor'', fround 4 (fst ?b)), (''high_bound_factor'', fround 4 (snd ?b))]"
  have "fround 4 (fst ?b) \<le> fround 4 (snd ?b)"
    by (intro fround_mono bounds_factors_ordered fl64_mono) simp
  moreover have "0 \<le> fround 4 (fclamp (fl64 (1/100)) 2 x)" "0 \<le> fround 4 (fclamp (fl64 (1/100)) 1 y)"
    by (intro fround_nonneg clamp_nonneg fl64_nonneg; simp)+
  ultimately show ?thesis using ps
    by (simp add: wildfire_sane_def factors_sane_def WildfireSpreadModel_def dict_get_or_def)
qed

lemma enso_limits: "0 < fround 4 (fl64 (2/10))" "fround 4 (fl64 (- 2/10)) < 0"
  by code_simp+

lemma fit_enso_sane:
  assumes "fit_enso_forecast L train val = Inr (ps, r)"
  shows "enso_sane ps \<and> map fst ps = map fst (sm_defaults ENSOForecastModel)"
  using fit_enso_form [OF assms]
proof (elim disjE exE)
  assume "ps = sm_defaults ENSOForecastModel"
  then show ?thesis using enso.defaults_sane by simp
next
  fix x y z
  let ?off = "fclamp (fl64 (5/100)) 1 z"
  assume ps: "ps = [(''el_nino_threshold'', fround 4 (fclamp (fl64 (2/10)) (3/2) x)),
    (''la_nina_threshold'', fround 4 (fclamp (- 3/2) (fl64 (- 2/10)) y)),
    (''low_bound_offset'', fround 4 (- ?off)), (''high_bound_offset'', fround 4 ?off)]"
  have "0 \<le> ?off" by (intro clamp_nonneg fl64_nonneg) simp
  then have "fround 4 (- ?off) \<le> fround 4 ?off" by (intro fround_mono) linarith
  moreover have "0 < fround 4 (fclamp (fl64 (2/10)) (3/2) x)"
    by (rule less_le_trans [OF enso_limits(1)]) (intro fround_mono, simp add: fclamp_def)
  moreover have "fclamp (- 3/2) (fl64 (- 2/10)) y \<le> fl64 (- 2/10)"
    using fl64_mono [of "- 3/2" "- 2/10"] fl64_scaled_int [of "- 3" "- 1"] by (simp add: fclamp_def power_int_minus)
  then have "fround 4 (fclamp (- 3/2) (fl64 (- 2/10)) y) < 0"
    by (rule le_less_trans [OF fround_mono enso_limits(2)])
  ultimately show ?thesis using ps
    by (simp add: enso_sane_def ENSOForecastModel_def dict_get_or_def)
qed

lemma fit_flood_sane:
  assumes "fit_flood_extent L train val = Inr (ps, r)"
  shows "factors_sane FloodExtentModel ps \<and> map fst ps = map fst (sm_defaults FloodExtentModel)"
proof -
  have "0 < fl64 (32/10)" "fl64 (28/10) \<le> fl64 (36/10)" by (simp_all add: fl64_pos fl64_mono)
  from fit_single_sane [OF assms [unfolded fit_flood_extent_def] this] obtain c l h where
    "ps = [(''rainfall_coefficient'', c), (''low_bound_factor'', l), (''high_bound_factor'', h)]" "l \<le> h" by blast
  then show ?thesis by (simp add: factors_sane_def FloodExtentModel_def dict_get_or_def)
qed

lemma fit_plume_sane:
  assumes "fit_plume_dispersion L train val = Inr (ps, r)"
  shows "factors_sane PlumeDispersionModel ps \<and> map fst ps = map fst (sm_defaults PlumeDispersionModel)"
proof -
  have "0 < fl64 (18/10)" by (simp add: fl64_pos)
  moreover have "3/2 \<le> fl64 (21/10)"
    using plume.defaults_sane by (simp add: factors_sane_def PlumeDispersionModel_def dict_get_or_def)
  ultimately obtain c l h where
    "ps = [(''wind_coefficient'', c), (''low_bound_factor'', l), (''high_bound_factor'', h)]" "l \<le> h"
    using fit_single_sane [OF assms [unfolded fit_plume_dispersion_def]] by blast
  then show ?thesis by (simp add: factors_sane_def PlumeDispersionModel_def dict_get_or_def)
qed

lemma fit_for_sane:
  assumes "m \<in> set sim_models" "fit_for L m train val = Inr (ps, r)"
  shows "sane_for m ps \<and> map fst ps = map fst (sm_defaults m)"
proof -
  from assms(1) consider "m = PlumeDispersionModel" | "m = FloodExtentModel" | "m = WildfireSpreadModel" | "m = ENSOForecastModel"
    by (auto simp: sim_models_def)
  then show ?thesis
  proof cases
    case 1
    show ?thesis using assms(2) fit_plume_sane unfolding 1 by (auto simp: fit_for_def sane_for_def sim_model_configs)
  next
    case 2
    show ?thesis using assms(2) fit_flood_sane unfolding 2 by (auto simp: fit_for_def sane_for_def sim_model_configs)
  next
    case 3
    show ?thesis using assms(2) fit_wildfire_sane unfolding 3 by (auto simp: fit_for_def sane_for_def sim_model_configs)
  next
    case 4
    show ?thesis using assms(2) fit_enso_sane unfolding 4 by (auto simp: fit_for_def sane_for_def sim_model_configs)
  qed
qed

section \<open>Versions\<close>

lemma split_last_plain: "CHR ''_'' \<notin> set s \<Longrightarrow> split_last acc s = rev acc @ s"
  by (induction acc s rule: split_last.induct) auto

lemma str_replace_extension:
  "CHR ''.'' \<notin> set x \<Longrightarrow> str_replace ''.yaml'' [] (x @ ''.yaml'') = x"
proof (induction x)
  case Nil
  show ?case by code_simp
next
  case (Cons c x)
  then show ?case by (auto simp: str_replace.simps [of _ _ "c # x @ ''.yaml''"])
qed

lemma int_text_digits:
  assumes "0 \<le> v"
  shows "int_text (int_str v) = Some v"
proof -
  obtain n where n: "v = int n" using assms nonneg_int_cases by blast
  have digits: "\<not> is_space c \<and> c \<noteq> CHR ''-'' \<and> c \<noteq> CHR ''+''" if "c \<in> set (int_str v)" for c
    using nat_str_facts(2) [OF that [unfolded n]] by (auto simp: dec_value_def is_space_def Let_def char_code_def split: if_splits)
  have "dropWhile is_space xs = xs" if "set xs = set (int_str v)" for xs
    using digits that by (cases xs) auto
  then have "str_strip (int_str v) = int_str v" by (simp add: str_strip_def)
  moreover obtain c cs where "int_str v = c # cs" using nat_str_head [of n] n by metis
  ultimately show ?thesis using digits nat_str_facts(1) [of n] n by (simp add: int_text_def signed_body_def)
qed

lemma split_version:
  assumes "m \<in> set sim_models" "CHR ''_'' \<notin> set s"
  shows "split_last [] (sm_config m @ ''_v'' @ s) = s"
  using assms split_last_plain [OF assms(2), of "[]"] by (auto simp: sim_models_def sim_model_configs)

lemma name_version_name:
  assumes "m \<in> set sim_models" "0 \<le> v"
  shows "name_version (sm_config m) (version_name (sm_config m) v) = Some v"
proof -
  obtain n where n: "v = int n" using assms(2) nonneg_int_cases by blast
  have "dec_value c \<noteq> None" if "c \<in> set (int_str v)" for c using nat_str_facts(2) that n by blast
  then have chars: "CHR ''_'' \<notin> set (int_str v)" "CHR ''.'' \<notin> set (int_str v)"
    by (force simp: dec_value_def char_code_def)+
  then have "split_last [] (version_name (sm_config m) v) = int_str v @ ''.yaml''"
    unfolding version_name_def by (intro split_version assms) auto
  moreover have "starts_with (version_name (sm_config m) v) (sm_config m @ ''_v'')"
    using starts_with_append [of "sm_config m @ ''_v''" "int_str v @ ''.yaml''"] by (simp add: version_name_def)
  moreover have "starts_with (rev (version_name (sm_config m) v)) (rev ''.yaml'')"
    using starts_with_append [of "rev ''.yaml''" "rev (sm_config m @ ''_v'' @ int_str v)"] by (simp add: version_name_def)
  ultimately show ?thesis
    using str_replace_extension [OF chars(2)] int_text_digits [OF assms(2)]
    by (simp add: name_version_def version_name_def)
qed

lemma highest_version:
  fixes names :: "string list" and h :: int and model :: string
  defines "peak \<equiv> fold (\<lambda>name highest. case name_version model name of None \<Rightarrow> highest | Some v \<Rightarrow> max highest v) names h"
  shows "h \<le> peak \<and> (\<forall>name\<in>set names. \<forall>v. name_version model name = Some v \<longrightarrow> v \<le> peak)"
  unfolding peak_def
proof (induction names arbitrary: h)
  case (Cons name names)
  let ?h = "case name_version model name of None \<Rightarrow> h | Some v \<Rightarrow> max h v"
  have "h \<le> ?h" "\<forall>v. name_version model name = Some v \<longrightarrow> v \<le> ?h" by (auto split: option.splits)
  then show ?case using Cons.IH [of ?h] by (auto intro: order_trans)
qed simp

lemma next_version_fresh:
  "0 < next_parameter_version model names"
  "name \<in> set names \<Longrightarrow> name_version model name = Some v \<Longrightarrow> v < next_parameter_version model names"
  using highest_version [of 0 model names] unfolding next_parameter_version_def by force+

lemma version_name_fresh:
  assumes "m \<in> set sim_models"
  shows "version_name (sm_config m) (next_parameter_version (sm_config m) names) \<notin> set names"
proof
  let ?v = "next_parameter_version (sm_config m) names"
  assume "version_name (sm_config m) ?v \<in> set names"
  moreover have "name_version (sm_config m) (version_name (sm_config m) ?v) = Some ?v"
    using name_version_name [OF assms] next_version_fresh(1) [of "sm_config m" names] by simp
  ultimately have "?v < ?v" by (rule next_version_fresh(2))
  then show False by simp
qed

section \<open>Promotion\<close>

text \<open>The law of the YAML library that the gate relies on: what is written is read back.\<close>

definition yaml_ok :: "'t yaml \<Rightarrow> bool" where
  "yaml_ok Y \<longleftrightarrow> (\<forall>j. safe_load Y (safe_dump Y j) = Inr j)"

lemma dict_get_floats: "dict_get (map (\<lambda>(k, x). (k, JFloat x)) ps) k = map_option JFloat (dict_get ps k)"
  by (induction ps) auto

lemma defaults_distinct: "m \<in> set sim_models \<Longrightarrow> distinct (map fst (sm_defaults m))"
  by (auto simp: sim_models_def PlumeDispersionModel_def FloodExtentModel_def WildfireSpreadModel_def ENSOForecastModel_def)

lemma dict_get_keys:
  "distinct (map fst ps) \<Longrightarrow> map (\<lambda>k. (k, the (dict_get ps k))) (map fst ps) = ps"
  by (auto intro!: map_idI simp: comp_def)

lemma read_back:
  assumes "yaml_ok Y" "m \<in> set sim_models" "map fst ps = map fst (sm_defaults m)"
  shows "read_parameters Y (sm_defaults m) (safe_dump Y (calibration_payload model v now n a b ps)) = Some ps"
proof -
  let ?js = "map (\<lambda>(k, x). (k, JFloat x)) ps" and ?p = "calibration_payload model v now n a b ps"
  have js: "yaml_parameters ?p = Some ?js" by (simp add: yaml_parameters_def calibration_payload_def)
  have "dict_get ps k \<noteq> None" if "k \<in> set (map fst (sm_defaults m))" for k
    using that unfolding assms(3) [symmetric] dict_get_None_iff by simp
  then have ok: "\<exists>x. dict_get ?js k = Some (JFloat x) \<and> dict_get ps k = Some x" if "k \<in> set (map fst (sm_defaults m))" for k
    using that by (auto simp: dict_get_floats)
  have valid: "validate_parameters_yaml ?p (map fst (sm_defaults m))"
    unfolding validate_parameters_yaml_def js list_all_iff using ok by (fastforce simp: is_number_def)
  have "map (\<lambda>(k, _). (k, number_of (dict_get_or (the (yaml_parameters ?p)) k JNull))) (sm_defaults m) =
      map (\<lambda>k. (k, number_of (dict_get_or ?js k JNull))) (map fst (sm_defaults m))"
    by (simp add: js case_prod_beta comp_def)
  also have "\<dots> = map (\<lambda>k. (k, the (dict_get ps k))) (map fst (sm_defaults m))"
    using ok by (intro map_cong [OF refl]) (fastforce simp: number_of_def dict_get_or_def)
  also have "\<dots> = ps"
    using dict_get_keys [of ps] defaults_distinct [OF assms(2)] assms(3) by simp
  finally show ?thesis using assms(1) valid by (simp add: read_parameters_def yaml_ok_def)
qed

lemma dict_get_without: "dict_get (filter (\<lambda>e. fst e \<noteq> m) d) k = (if k = m then None else dict_get d k)"
  by (induction d) auto

lemma file_names_apart:
  assumes "m \<in> set sim_models" "m' \<in> set sim_models"
  shows "latest_name (sm_config m') \<noteq> version_name (sm_config m) v"
    "m' \<noteq> m \<Longrightarrow> latest_name (sm_config m') \<noteq> latest_name (sm_config m)"
  using assms by (auto simp: sim_models_def sim_model_configs latest_name_def version_name_def)

lemma write_files:
  "sim_files (write_parameters Y now model v payload st) =
     dict_set (latest_name model) (now, safe_dump Y payload) (dict_set (version_name model v) (now, safe_dump Y payload) (sim_files st))"
  "dict_get (parameter_cache (write_parameters Y now model v payload st)) k =
     (if k = model then None else dict_get (parameter_cache st) k)"
  by (simp_all add: write_parameters_def invalidate_parameter_cache_def dict_get_without)

lemma write_store_sane:
  assumes "yaml_ok Y" "store_sane Y st" "m \<in> set sim_models" "map fst ps = map fst (sm_defaults m)" "sane_for m ps"
  shows "store_sane Y (write_parameters Y now (sm_config m) v (calibration_payload model w t n a b ps) st)"
  unfolding store_sane_def
proof
  fix m' assume m': "m' \<in> set sim_models"
  show "stored_sane Y m' (sane_for m') (write_parameters Y now (sm_config m) v (calibration_payload model w t n a b ps) st)"
  proof (cases "m' = m")
    case True
    then show ?thesis using read_back [OF assms(1,3,4)] assms(5)
      by (simp add: stored_sane_def write_files dict_simps)
  next
    case False
    then have "sm_config m' \<noteq> sm_config m" using sim_models_distinct m' assms(3) by blast
    moreover have "stored_sane Y m' (sane_for m') st" using assms(2) m' unfolding store_sane_def ..
    ultimately show ?thesis
      using file_names_apart(1) [OF assms(3) m'] file_names_apart(2) [OF assms(3) m' False]
      by (simp add: stored_sane_def write_files dict_simps)
  qed
qed

text \<open>Files apart from the pointers to the latest parameters are never changed again.\<close>

definition latest_names :: "string list" where
  "latest_names = map (latest_name \<circ> sm_config) sim_models"

definition files_kept :: "'t sim_state \<Rightarrow> 't sim_state \<Rightarrow> bool" where
  "files_kept st st' \<longleftrightarrow> (\<forall>name f. dict_get (sim_files st) name = Some f \<longrightarrow> name \<notin> set latest_names \<longrightarrow>
     dict_get (sim_files st') name = Some f)"

lemma files_kept_refl: "files_kept st st"
  and files_kept_trans: "files_kept st t \<Longrightarrow> files_kept t u \<Longrightarrow> files_kept st u"
  and files_kept_same: "sim_files t = sim_files st \<Longrightarrow> files_kept st t"
  by (auto simp: files_kept_def)

lemma load_files:
  "load_calibrated_parameters Y now model defaults st = (st', cal) \<Longrightarrow> sim_files st' = sim_files st"
  unfolding load_calibrated_parameters_def Let_def cache_parameters_def
  by (auto split: option.splits prod.splits if_splits)

lemma promotion_cases:
  assumes "check_and_promote_parameters L Y now model ps defaults val st = (st', r)"
  obtains st1 cal e where "load_calibrated_parameters Y now model defaults st = (st1, cal)" "st' = st1" "r = Inl e"
  | st1 cal a b where "load_calibrated_parameters Y now model defaults st = (st1, cal)" "\<not> b \<le> a" "st' = st1"
      "r = Inr (False, next_parameter_version model (dict_keys (sim_files st)), a, b)"
  | st1 cal a b where "load_calibrated_parameters Y now model defaults st = (st1, cal)" "b \<le> a"
      "st' = write_parameters Y now model (next_parameter_version model (dict_keys (sim_files st)))
         (calibration_payload model (next_parameter_version model (dict_keys (sim_files st))) now (length val) a b ps) st1"
      "r = Inr (True, next_parameter_version model (dict_keys (sim_files st)), a, b)"
proof -
  obtain st1 cal where load: "load_calibrated_parameters Y now model defaults st = (st1, cal)"
    by (cases "load_calibrated_parameters Y now model defaults st")
  let ?scores = "py_bind (evaluate_parameters L model cal val) (\<lambda>a. py_bind (evaluate_parameters L model ps val) (\<lambda>b. Inr (a, b)))"
  show ?thesis
  proof (cases ?scores)
    case (Inl e)
    then show ?thesis using assms load that(1) [OF load, of e] by (simp add: check_and_promote_parameters_def)
  next
    case (Inr ab)
    obtain a b where ab: "ab = (a, b)" by (cases ab)
    have "(st', r) = (let v = next_parameter_version model (dict_keys (sim_files st)); promoted = b \<le> a
        in (if promoted then write_parameters Y now model v (calibration_payload model v now (length val) a b ps) st1 else st1,
            Inr (promoted, v, a, b)))"
      using assms load Inr ab load_files [OF load] by (simp add: check_and_promote_parameters_def)
    then show ?thesis using that(2,3) [OF load] by (cases "b \<le> a") (simp_all add: Let_def)
  qed
qed

lemma write_kept:
  assumes "m \<in> set sim_models"
  shows "files_kept st (write_parameters Y now (sm_config m) (next_parameter_version (sm_config m) (dict_keys (sim_files st))) p st)"
  unfolding files_kept_def
proof (intro allI impI)
  fix name f
  let ?v = "next_parameter_version (sm_config m) (dict_keys (sim_files st))"
  assume f: "dict_get (sim_files st) name = Some f" and other: "name \<notin> set latest_names"
  have "name \<noteq> latest_name (sm_config m)" using other assms by (auto simp: latest_names_def)
  moreover have "name \<in> set (dict_keys (sim_files st))" using f dict_get_None_iff [of "sim_files st" name] by simp
  then have "name \<noteq> version_name (sm_config m) ?v" using version_name_fresh [OF assms] by metis
  ultimately show "dict_get (sim_files (write_parameters Y now (sm_config m) ?v p st)) name = Some f"
    using f by (simp add: write_files dict_simps)
qed

lemma promotion_safe:
  assumes "yaml_ok Y" "store_sane Y st" "m \<in> set sim_models" "sane_for m ps" "map fst ps = map fst (sm_defaults m)"
    "check_and_promote_parameters L Y now (sm_config m) ps (sm_defaults m) val st = (st', r)"
  shows "store_sane Y st' \<and> files_kept st st'"
  using assms(6)
proof (cases rule: promotion_cases)
  case (1 st1 cal e)
  then show ?thesis using load_store_sane [OF assms(2,3) 1(1)] files_kept_same by blast
next
  case (2 st1 cal a b)
  then show ?thesis using load_store_sane [OF assms(2,3) 2(1)] files_kept_same by blast
next
  case (3 st1 cal a b)
  from load_store_sane [OF assms(2,3) 3(1)] have st1: "store_sane Y st1" "sim_files st1 = sim_files st" by auto
  have "store_sane Y st'" unfolding 3(3) by (rule write_store_sane [OF assms(1) st1(1) assms(3,5,4)])
  moreover have "files_kept st st'"
    unfolding 3(3) using write_kept [OF assms(3), of st1 Y] st1(2) by (simp add: files_kept_def)
  ultimately show ?thesis ..
qed

text \<open>the promotion gate. Fitted parameters are promoted exactly when they score no worse on the validation
  samples than those in use. A rejected candidate leaves every file as it was. A promoted one gets a version
  above every version there, in a file that did not exist; no other file than it and the pointer
  changes, and from then on the models load exactly the promoted parameters.\<close>

theorem promotion_gate:
  assumes "yaml_ok Y" "m \<in> set sim_models" "map fst ps = map fst (sm_defaults m)"
    "check_and_promote_parameters L Y now (sm_config m) ps (sm_defaults m) val st = (st', Inr (promoted, v, current_score, new_score))"
  shows "(promoted \<longleftrightarrow> new_score \<le> current_score) \<and>
    (\<not> promoted \<longrightarrow> sim_files st' = sim_files st) \<and>
    (promoted \<longrightarrow>
       dict_get (sim_files st) (version_name (sm_config m) v) = None \<and>
       (\<forall>name\<in>set (dict_keys (sim_files st)). \<forall>w. name_version (sm_config m) name = Some w \<longrightarrow> w < v) \<and>
       (\<forall>name. name \<noteq> version_name (sm_config m) v \<longrightarrow> name \<noteq> latest_name (sm_config m) \<longrightarrow>
          dict_get (sim_files st') name = dict_get (sim_files st) name) \<and>
       (\<forall>later. snd (load_calibrated_parameters Y later (sm_config m) (sm_defaults m) st') = ps))"
  using assms(4)
proof (cases rule: promotion_cases)
  case (2 st1 cal a b)
  then show ?thesis using load_files [OF 2(1)] by simp
next
  case (3 st1 cal a b)
  let ?v = "next_parameter_version (sm_config m) (dict_keys (sim_files st))"
  have files: "sim_files st1 = sim_files st" by (rule load_files [OF 3(1)])
  have v: "v = ?v" "promoted" "current_score = a" "new_score = b" using 3(4) by simp_all
  have "dict_get (sim_files st) (version_name (sm_config m) ?v) = None"
    using version_name_fresh [OF assms(2)] dict_get_None_iff by metis
  moreover have "\<forall>name\<in>set (dict_keys (sim_files st)). \<forall>w. name_version (sm_config m) name = Some w \<longrightarrow> w < ?v"
    using next_version_fresh(2) by blast
  moreover have "dict_get (sim_files st') name = dict_get (sim_files st) name"
    if "name \<noteq> version_name (sm_config m) v" "name \<noteq> latest_name (sm_config m)" for name
    using that v(1) by (simp add: 3(3) write_files dict_simps files)
  moreover have "snd (load_calibrated_parameters Y later (sm_config m) (sm_defaults m) st') = ps" for later
    using read_back [OF assms(1-3)] by (simp add: 3(3) load_calibrated_parameters_def Let_def write_files dict_simps)
  ultimately show ?thesis using v 3(2) by simp
qed simp

definition sample_candidate :: params where
  "sample_candidate = [(''rainfall_coefficient'', 4), (''low_bound_factor'', 3), (''high_bound_factor'', 5)]"

lemma sample_yaml_ok: "yaml_ok sample_yaml"
  by (simp add: yaml_ok_def sample_yaml_def)

theorem promotion_gate_witness:
  "\<exists>st'. check_and_promote_parameters flat_libm sample_yaml 0 ''flood_extent'' sample_candidate (sm_defaults FloodExtentModel) [] empty_store =
       (st', Inr (True, 1, 0, 0)) \<and>
     snd (load_calibrated_parameters sample_yaml 60000000 ''flood_extent'' (sm_defaults FloodExtentModel) st') = sample_candidate"
proof -
  have m: "FloodExtentModel \<in> set sim_models" "map fst sample_candidate = map fst (sm_defaults FloodExtentModel)"
    by (simp_all add: sim_models_def sample_candidate_def FloodExtentModel_def)
  obtain st' where run: "check_and_promote_parameters flat_libm sample_yaml 0 (sm_config FloodExtentModel) sample_candidate
      (sm_defaults FloodExtentModel) [] empty_store = (st', Inr (True, 1, 0, 0))"
    by (simp add: check_and_promote_parameters_def load_calibrated_parameters_def evaluate_parameters_def empty_store_def
        next_parameter_version_def Let_def)
  from promotion_gate [OF sample_yaml_ok m run] have
    "\<forall>later. snd (load_calibrated_parameters sample_yaml later (sm_config FloodExtentModel) (sm_defaults FloodExtentModel) st') = sample_candidate"
    by blast
  with run show ?thesis unfolding sim_model_configs by blast
qed

section \<open>Calibration and simulation together\<close>

text \<open>The operations on the shared parameters, in any order.\<close>

inductive sim_step :: "libm \<Rightarrow> 't yaml \<Rightarrow> (nat \<Rightarrow> nat list) \<Rightarrow> 't sim_state \<Rightarrow> 't sim_state \<Rightarrow> bool" for L Y shuffle where
  Calibrate: "sim_step L Y shuffle st (fst (run_calibration_job L Y shuffle now (table :: unit hazard_event list) st))"
| Simulate: "sim_step L Y shuffle st (fst (simulation_run Y i now inp prior st))"
| Invalidate: "sim_step L Y shuffle st (invalidate_parameter_cache model st)"

inductive_cases sim_stepE: "sim_step L Y shuffle st st'"

lemma calibrate_safe:
  assumes "yaml_ok Y" "store_sane Y st" "m \<in> set sim_models" "calibrate_with L Y shuffle now m (fit_for L m) samples st = (st', r)"
  shows "store_sane Y st' \<and> files_kept st st'"
proof (cases "length samples \<ge> MIN_CALIBRATION_SAMPLES")
  case True
  define shuffled where "shuffled = map (nth samples) (shuffle (length samples))"
  define n where "n = scaled_index (length shuffled) TRAIN_VALIDATION_SPLIT_RATIO"
  show ?thesis
  proof (cases "fit_for L m (take n shuffled) (drop n shuffled)")
    case (Inl e)
    then have "st' = st" using assms(4) True by (simp add: calibrate_with_def Let_def shuffled_def n_def)
    then show ?thesis using assms(2) files_kept_refl by blast
  next
    case (Inr fr)
    obtain ps err where fr: "fr = (ps, err)" by (cases fr)
    obtain st1 q where run: "check_and_promote_parameters L Y now (sm_config m) ps (sm_defaults m) (drop n shuffled) st = (st1, q)"
      by (cases "check_and_promote_parameters L Y now (sm_config m) ps (sm_defaults m) (drop n shuffled) st")
    have "st' = st1" using assms(4) True Inr fr run
      by (auto simp: calibrate_with_def Let_def shuffled_def [symmetric] n_def [symmetric] split: sum.splits prod.splits)
    moreover have "sane_for m ps \<and> map fst ps = map fst (sm_defaults m)"
      using fit_for_sane [OF assms(3)] Inr fr by blast
    ultimately show ?thesis using promotion_safe [OF assms(1-3) _ _ run] by blast
  qed
next
  case False
  then have "st' = st" using assms(4) by (simp add: calibrate_with_def)
  then show ?thesis using assms(2) files_kept_refl by blast
qed

lemma in_sequence_safe:
  assumes "\<And>k f st st' r. (k, f) \<in> set fs \<Longrightarrow> P st \<Longrightarrow> f st = (st', r) \<Longrightarrow> P st' \<and> R st st'"
    "\<And>st. R st st" "\<And>st t u. R st t \<Longrightarrow> R t u \<Longrightarrow> R st u" "P st" "in_sequence fs st = (st', r)"
  shows "P st' \<and> R st st'"
  using assms(1,4,5)
proof (induction fs arbitrary: st st' r)
  case Nil
  then show ?case using assms(2) by simp
next
  case (Cons kf fs)
  obtain k f where kf: "kf = (k, f)" by (cases kf)
  obtain st1 q where f: "f st = (st1, q)" by (cases "f st")
  have one: "P st1 \<and> R st st1" using Cons.prems(1) [of k f st st1 q] Cons.prems(2) kf f by simp
  show ?case
  proof (cases q)
    case (Inl e)
    then show ?thesis using Cons.prems(3) kf f one by simp
  next
    case (Inr a)
    obtain st2 q2 where rest: "in_sequence fs st1 = (st2, q2)" by (cases "in_sequence fs st1")
    have "P st2 \<and> R st1 st2"
    proof (rule Cons.IH [OF _ conjunct1 [OF one] rest])
      fix k f s t q
      assume "(k, f) \<in> set fs" "P s" "f s = (t, q)"
      then show "P t \<and> R s t" using Cons.prems(1) [of k f s t q] by simp
    qed
    moreover have "st' = st2" using Cons.prems(3) kf f Inr rest by (auto split: sum.splits)
    ultimately show ?thesis using one assms(3) by blast
  qed
qed

lemma job_safe:
  assumes "yaml_ok Y" "store_sane Y st" "run_calibration_job L Y shuffle now table st = (st', r)"
  shows "store_sane Y st' \<and> files_kept st st'"
proof -
  have fits: "fit_for L WildfireSpreadModel = fit_wildfire_spread L" "fit_for L FloodExtentModel = fit_flood_extent L"
    "fit_for L PlumeDispersionModel = fit_plume_dispersion L" "fit_for L ENSOForecastModel = fit_enso_forecast L"
    by (simp_all add: fit_for_def sim_model_configs)
  have models: "WildfireSpreadModel \<in> set sim_models" "FloodExtentModel \<in> set sim_models"
    "PlumeDispersionModel \<in> set sim_models" "ENSOForecastModel \<in> set sim_models" by (simp_all add: sim_models_def)
  have steps: "calibrate_wildfire L Y shuffle now a b s = (t, q) \<Longrightarrow> store_sane Y s \<Longrightarrow> store_sane Y t \<and> files_kept s t"
    "calibrate_flood L Y shuffle now a b s = (t, q) \<Longrightarrow> store_sane Y s \<Longrightarrow> store_sane Y t \<and> files_kept s t"
    "calibrate_plume L Y shuffle now a b s = (t, q) \<Longrightarrow> store_sane Y s \<Longrightarrow> store_sane Y t \<and> files_kept s t"
    "calibrate_enso L Y shuffle now a s = (t, q) \<Longrightarrow> store_sane Y s \<Longrightarrow> store_sane Y t \<and> files_kept s t" for a b s t q
    unfolding calibrate_wildfire_def calibrate_flood_def calibrate_plume_def calibrate_enso_def fits [symmetric]
    using calibrate_safe [OF assms(1)] models by blast+
  have "store_sane Y t \<and> files_kept s t"
    if "(k, f) \<in> set (calibration_steps L Y shuffle now (sort_key event_date table))" "store_sane Y s" "f s = (t, q)" for k f s t q
    using that(1) unfolding calibration_steps_def Let_def list.set insert_iff empty_iff prod.inject
    by (elim disjE conjE FalseE; use that(2,3) steps in blast)
  then show ?thesis
    by (rule in_sequence_safe [where P = "store_sane Y" and R = files_kept, OF _ files_kept_refl files_kept_trans assms(2)
        assms(3) [unfolded run_calibration_job_def]])
qed

lemma simulate_safe:
  assumes "store_sane Y st" "simulation_run Y i now inp prior st = (st', r)"
  shows "store_sane Y st' \<and> sim_files st' = sim_files st"
proof (cases "extract_hazard_type (ai_query inp)")
  case None
  then show ?thesis using assms by (simp add: simulation_run_def)
next
  case (Some hazard)
  show ?thesis
  proof (cases "extract_parameters (ai_query inp) prior")
    case (Inl e)
    then show ?thesis using assms Some by (simp add: simulation_run_def)
  next
    case (Inr ps)
    from hazard_models [OF Some] obtain m where m: "m \<in> set sim_models" "model_for hazard = Some m" by blast
    obtain st1 q where run: "model_run Y now m ps st = (st1, q)" by (cases "model_run Y now m ps st")
    have "st' = st1" using assms(2) Some Inr m(2) run by (simp add: simulation_run_def run_simulation_def)
    moreover have "sim_files st1 = sim_files st"
      using run load_files by (fastforce simp: model_run_def split: option.splits prod.splits)
    ultimately show ?thesis using model_run_store_sane [OF assms(1) m(1) run] by blast
  qed
qed

lemma invalidate_safe: "store_sane Y st \<Longrightarrow> store_sane Y (invalidate_parameter_cache model st) \<and>
    sim_files (invalidate_parameter_cache model st) = sim_files st"
  by (auto simp: invalidate_parameter_cache_def store_sane_def stored_sane_def dict_get_without split: option.splits)

interpretation simulations: ordered_system "sim_step L Y shuffle" "\<lambda>st. yaml_ok Y \<and> store_sane Y st" files_kept
proof unfold_locales
  fix st t assume inv: "yaml_ok Y \<and> store_sane Y st" and step: "sim_step L Y shuffle st t"
  from step have "store_sane Y t \<and> files_kept st t"
  proof (cases rule: sim_step.cases)
    case (Calibrate now table)
    then show ?thesis using job_safe [of Y st L shuffle now table] inv by (metis prod.collapse)
  next
    case (Simulate i now inp prior)
    then show ?thesis using simulate_safe [of Y st i now inp prior] inv files_kept_same by (metis prod.collapse)
  next
    case (Invalidate model)
    then show ?thesis using invalidate_safe [of Y st model] inv files_kept_same by blast
  qed
  then show "yaml_ok Y \<and> store_sane Y t" "files_kept st t" using inv by simp_all
qed (rule files_kept_refl, rule files_kept_trans)

text \<open>C28: calibration never makes a model unusable. From a sane store, after any sequence of calibration jobs,
  simulations and cache invalidations, every version file is as it was when written, and the agent still
  answers every question for a known hazard whose inputs are present and within bounds, with one
  item of evidence and a well-formed uncertainty.\<close>

theorem calibrated_agent_answers:
  assumes "yaml_ok Y" "store_sane Y st" "reaches (sim_step L Y shuffle) st st'"
    "extract_hazard_type (ai_query inp) = Some hazard" "extract_parameters (ai_query inp) prior = Inr ps"
    "model_for hazard = Some m" "missing_input (sm_needs m) ps = None" "out_of_bounds (sm_needs m) ps = None"
  shows "files_kept st st' \<and>
    (\<exists>st'' out e. simulation_run Y i now inp prior st' = (st'', Inr out) \<and> evidence_list out = [e] \<and> out_errors out = [] \<and>
       ev_source e = model_name m \<and> valid_estimate (ev_uncertainty e))"
proof -
  have inv: "yaml_ok Y \<and> store_sane Y st" using assms(1,2) ..
  have "store_sane Y st'" using simulations.reaches_inv [OF assms(3) inv] ..
  from agent_contract [OF this assms(4,5), of i now] assms(6-8)
  have "\<exists>st'' out e. simulation_run Y i now inp prior st' = (st'', Inr out) \<and> evidence_list out = [e] \<and> out_errors out = [] \<and>
      ev_source e = model_name m \<and> valid_estimate (ev_uncertainty e)" by auto
  then show ?thesis using simulations.reaches_le [OF assms(3) inv] by blast
qed

theorem calibrated_agent_answers_witness:
  "\<exists>st' out e. simulation_run sample_yaml 7 0 (sample_question ''flood rainfall 50'') []
       (fst (run_calibration_job flat_libm sample_yaml (\<lambda>n. [0..<n]) 0 ([] :: unit hazard_event list) empty_store)) = (st', Inr out) \<and>
     evidence_list out = [e] \<and> ev_source e = ''FloodExtentModel''"
proof -
  let ?st = "fst (run_calibration_job flat_libm sample_yaml (\<lambda>n. [0..<n]) 0 ([] :: unit hazard_event list) empty_store)"
  have step: "reaches (sim_step flat_libm sample_yaml (\<lambda>n. [0..<n])) empty_store ?st"
    by (rule reaches_step, rule reaches_refl, rule Calibrate)
  have q: "ai_query (sample_question ''flood rainfall 50'') = ''flood rainfall 50''" by (simp add: sample_question_def)
  have inputs: "missing_input (sm_needs FloodExtentModel) [(''rainfall'', 50)] = None"
    "out_of_bounds (sm_needs FloodExtentModel) [(''rainfall'', 50)] = None"
    by (simp_all add: missing_input_def out_of_bounds_def FloodExtentModel_def dict_get_or_def)
  from calibrated_agent_answers [OF sample_yaml_ok empty_store_sane step, of "sample_question ''flood rainfall 50''", unfolded q,
      OF sample_hazard_read model_for_hazards(2) inputs, of 7 0]
  show ?thesis by (auto simp: FloodExtentModel_def)
qed

end
