(* ===== verification/Dates.thy ===== *)
theory Dates
  imports Simulation
begin

text \<open>
  Dates in the texts of external sources: \<open>datetime.strptime\<close> for the formats the adapters use,
  \<open>datetime.fromisoformat\<close> for calendar dates, and the texts written back. A time with an offset is an
  instant in microseconds with the offset it was written in; a time without one is naive, and comparing
  it with an aware one raises. Week dates, which no source sends, are read as invalid.
\<close>

section \<open>Fixed formats\<close>

text \<open>The directives of a format: each tries its alternatives in order, with backtracking; white space in a
  format stands for any positive run of it.\<close>

datatype date_field = Fld_Y | Fld_m | Fld_d | Fld_H | Fld_M | Fld_S | Lit char | White

definition digit_from :: "int \<Rightarrow> int \<Rightarrow> char \<Rightarrow> bool" where
  "digit_from a b c \<longleftrightarrow> (case dec_value c of None \<Rightarrow> False | Some d \<Rightarrow> a \<le> d \<and> d \<le> b)"

fun field_alternatives :: "date_field \<Rightarrow> (char \<Rightarrow> bool) list list" where
  "field_alternatives Fld_Y = [[digit_from 0 9, digit_from 0 9, digit_from 0 9, digit_from 0 9]]"
| "field_alternatives Fld_m = [[digit_from 1 1, digit_from 0 2], [digit_from 0 0, digit_from 1 9], [digit_from 1 9]]"
| "field_alternatives Fld_d = [[digit_from 3 3, digit_from 0 1], [digit_from 1 2, digit_from 0 9], [digit_from 0 0, digit_from 1 9],
     [digit_from 1 9], [\<lambda>c. c = CHR '' '', digit_from 1 9]]"
| "field_alternatives Fld_H = [[digit_from 2 2, digit_from 0 3], [digit_from 0 1, digit_from 0 9], [digit_from 0 9]]"
| "field_alternatives Fld_M = [[digit_from 0 5, digit_from 0 9], [digit_from 0 9]]"
| "field_alternatives Fld_S = [[digit_from 6 6, digit_from 0 1], [digit_from 0 5, digit_from 0 9], [digit_from 0 9]]"
| "field_alternatives (Lit c) = [[\<lambda>d. d = c]]"
| "field_alternatives White = []"

fun match_classes :: "(char \<Rightarrow> bool) list \<Rightarrow> string \<Rightarrow> string option" where
  "match_classes [] s = Some []"
| "match_classes (p # ps) [] = None"
| "match_classes (p # ps) (c # cs) = (if p c then map_option (Cons c) (match_classes ps cs) else None)"

definition field_texts :: "date_field \<Rightarrow> string \<Rightarrow> string list" where
  "field_texts f s =
     (if f = White then map (\<lambda>n. take n s) (rev [1..<Suc (length (takeWhile is_space s))])
      else List.map_filter (\<lambda>a. match_classes a s) (field_alternatives f))"

definition field_value :: "date_field \<Rightarrow> string \<Rightarrow> int list" where
  "field_value f w = (case f of Lit _ \<Rightarrow> [] | White \<Rightarrow> []
     | _ \<Rightarrow> (case int_text w of None \<Rightarrow> [] | Some n \<Rightarrow> [n]))"

fun scan_fields :: "date_field list \<Rightarrow> string \<Rightarrow> (int list \<times> string) option" where
  "scan_fields [] s = Some ([], s)"
| "scan_fields (f # fs) s =
     first_some (\<lambda>w. map_option (\<lambda>(vs, r). (field_value f w @ vs, r)) (scan_fields fs (drop (length w) s))) (field_texts f s)"

text \<open>The constructor of \<open>datetime\<close>, in microseconds since 1970; \<open>None\<close> where it raises.\<close>

definition civil_time :: "int \<Rightarrow> int \<Rightarrow> int \<Rightarrow> int \<Rightarrow> int \<Rightarrow> int \<Rightarrow> int \<Rightarrow> int option" where
  "civil_time y m d h mi s us =
     (if 1 \<le> y \<and> y \<le> 9999 \<and> 1 \<le> m \<and> m \<le> 12 \<and> 1 \<le> d \<and> civil_of_days (days_of_civil y m d) = (y, m, d) \<and>
         0 \<le> h \<and> h < 24 \<and> 0 \<le> mi \<and> mi < 60 \<and> 0 \<le> s \<and> s < 60 \<and> 0 \<le> us \<and> us < 1000000
      then Some ((((days_of_civil y m d * 24 + h) * 60 + mi) * 60 + s) * 1000000 + us) else None)"

definition strptime :: "date_field list \<Rightarrow> string \<Rightarrow> int option" where
  "strptime fmt txt =
     (case scan_fields fmt txt of
        Some ([y, m, d], []) \<Rightarrow> civil_time y m d 0 0 0 0
      | Some ([y, m, d, h, mi], []) \<Rightarrow> civil_time y m d h mi 0 0
      | Some ([y, m, d, h, mi, s], []) \<Rightarrow> civil_time y m d h mi s 0
      | _ \<Rightarrow> None)"

definition fmt_day :: "date_field list" where
  "fmt_day = [Fld_Y, Lit (CHR ''-''), Fld_m, Lit (CHR ''-''), Fld_d]"

definition fmt_minute :: "date_field list" where
  "fmt_minute = fmt_day @ [White, Fld_H, Lit (CHR '':''), Fld_M]"

definition fmt_compact_day :: "date_field list" where
  "fmt_compact_day = [Fld_Y, Fld_m, Fld_d]"

definition fmt_compact :: "date_field list" where
  "fmt_compact = fmt_compact_day @ [Fld_H, Fld_M, Fld_S]"

lemma strptime_examples:
  "strptime fmt_minute ''2026-07-24 18:00'' = civil_time 2026 7 24 18 0 0 0"
  "strptime fmt_day ''2024-02-29'' = Some 1709164800000000" "strptime fmt_day ''2023-02-29'' = None"
  "strptime fmt_compact ''20260724120000'' = civil_time 2026 7 24 12 0 0 0"
  "strptime fmt_compact ''20260724'' = None"
  by code_simp+

section \<open>ISO texts\<close>

datatype py_datetime = Naive int | Aware int int

definition digits_n :: "nat \<Rightarrow> string \<Rightarrow> int option" where
  "digits_n n s = (if n \<le> length s \<and> list_all (digit_from 0 9) (take n s) then dec_body (take n s) else None)"

definition iso_date :: "string \<Rightarrow> (int \<times> int \<times> int) option" where
  "iso_date s =
     (let ext = (4 < length s \<and> s ! 4 = CHR ''-''); p = (if ext then 1 else 0)
      in case (digits_n 4 s, digits_n 2 (drop (4 + p) s), digits_n 2 (drop (6 + 2 * p) s)) of
           (Some y, Some m, Some d) \<Rightarrow> if ext \<longrightarrow> s ! 7 = CHR ''-'' then Some (y, m, d) else None
         | _ \<Rightarrow> None)"

text \<open>Where the date ends.\<close>

definition iso_date_length :: "string \<Rightarrow> nat" where
  "iso_date_length s = (if 4 < length s \<and> s ! 4 = CHR ''-'' then 10 else 8)"

text \<open>Hours, minutes, seconds and a fraction, of which six digits count.\<close>

definition iso_fraction :: "string \<Rightarrow> int option" where
  "iso_fraction s =
     (case s of [] \<Rightarrow> Some 0
      | c # cs \<Rightarrow>
          (if (c = CHR ''.'' \<or> c = CHR '','') \<and> cs \<noteq> [] \<and> list_all (digit_from 0 9) cs
           then map_option (\<lambda>v. v * 10 ^ (6 - length (take 6 cs))) (dec_body (take 6 cs)) else None))"

definition iso_clock :: "string \<Rightarrow> (int \<times> int \<times> int \<times> int) option" where
  "iso_clock s =
     (case digits_n 2 s of None \<Rightarrow> None
      | Some h \<Rightarrow>
          (if length s = 2 then Some (h, 0, 0, 0)
           else let p = (if s ! 2 = CHR '':'' then 1 else 0)
                in case digits_n 2 (drop (2 + p) s) of None \<Rightarrow> None
                   | Some mi \<Rightarrow>
                       (if length s = 4 + p then Some (h, mi, 0, 0)
                        else if p = 1 \<and> s ! 5 \<noteq> CHR '':'' then None
                        else case digits_n 2 (drop (4 + 2 * p) s) of None \<Rightarrow> None
                             | Some sec \<Rightarrow> map_option (\<lambda>us. (h, mi, sec, us)) (iso_fraction (drop (6 + 2 * p) s)))))"

definition clock_us :: "int \<times> int \<times> int \<times> int \<Rightarrow> int" where
  "clock_us t = (case t of (h, mi, s, us) \<Rightarrow> ((h * 60 + mi) * 60 + s) * 1000000 + us)"

text \<open>The offset that follows a time, if any; it is less than a day.\<close>

definition iso_offset :: "string \<Rightarrow> int option option" where
  "iso_offset s =
     (case s of [] \<Rightarrow> Some None
      | c # cs \<Rightarrow>
          (if c = CHR ''Z'' then (if cs = [] then Some (Some 0) else None)
           else case iso_clock cs of None \<Rightarrow> None
                | Some t \<Rightarrow> (if clock_us t < 86400000000
                            then Some (Some (if c = CHR ''-'' then - clock_us t else clock_us t)) else None)))"

definition is_offset_char :: "char \<Rightarrow> bool" where
  "is_offset_char c \<longleftrightarrow> c = CHR ''+'' \<or> c = CHR ''-'' \<or> c = CHR ''Z''"

definition fromisoformat :: "string \<Rightarrow> py_datetime option" where
  "fromisoformat s =
     (case iso_date s of None \<Rightarrow> None
      | Some (y, m, d) \<Rightarrow>
          (let tm = drop (iso_date_length s + 1) s; body = takeWhile (\<lambda>c. \<not> is_offset_char c) tm
           in if tm = [] then map_option Naive (civil_time y m d 0 0 0 0)
              else case iso_clock body of None \<Rightarrow> None
                   | Some (h, mi, sec, us) \<Rightarrow>
                       (case (civil_time y m d h mi sec us, iso_offset (drop (length body) tm)) of
                          (Some t, Some None) \<Rightarrow> Some (Naive t)
                        | (Some t, Some (Some off)) \<Rightarrow> Some (Aware (t - off) off)
                        | _ \<Rightarrow> None)))"

lemma fromisoformat_examples:
  "fromisoformat ''2026-07-24T10:15:00.000+00:00'' = map_option (\<lambda>t. Aware t 0) (civil_time 2026 7 24 10 15 0 0)"
  "fromisoformat ''2026-07-24'' = map_option Naive (civil_time 2026 7 24 0 0 0 0)"
  "fromisoformat ''2026-07-24T10:15:00+02:00'' = map_option (\<lambda>t. Aware t 7200000000) (civil_time 2026 7 24 8 15 0 0)"
  "fromisoformat ''2026-13-24'' = None" "fromisoformat ''soon'' = None"
  by code_simp+

section \<open>Texts of times\<close>

definition offset_text :: "int \<Rightarrow> string" where
  "offset_text off =
     (let a = \<bar>off\<bar>; s = a div 1000000; us = a mod 1000000
      in (if off < 0 then ''-'' else ''+'') @ padded 2 (s div 3600) @ '':'' @ padded 2 (s div 60 mod 60) @
         (if s mod 60 = 0 \<and> us = 0 then [] else '':'' @ padded 2 (s mod 60)) @
         (if us = 0 then [] else ''.'' @ padded 6 us))"

text \<open>\<open>isoformat\<close> of a time as it was written; \<open>isoformat\<close> of an instant ends with the six characters of UTC.\<close>

definition dt_isoformat :: "py_datetime \<Rightarrow> string" where
  "dt_isoformat dt =
     (let wall = (\<lambda>t. take (length (isoformat t) - 6) (isoformat t))
      in case dt of Naive t \<Rightarrow> wall t | Aware t off \<Rightarrow> wall (t + off) @ offset_text off)"

definition date_text :: "int \<Rightarrow> string" where
  "date_text t = (case civil_of_days (t div 86400000000) of (y, m, d) \<Rightarrow> padded 4 y @ ''-'' @ padded 2 m @ ''-'' @ padded 2 d)"

text \<open>\<open>strftime("%Y%m%d%H%M%S")\<close>, where the year is not padded.\<close>

definition compact_text :: "int \<Rightarrow> string" where
  "compact_text t =
     (let s = t mod 86400000000 div 1000000
      in case civil_of_days (t div 86400000000) of (y, m, d) \<Rightarrow>
           int_str y @ padded 2 m @ padded 2 d @ padded 2 (s div 3600) @ padded 2 (s div 60 mod 60) @ padded 2 (s mod 60))"

text \<open>\<open>a < b\<close> and \<open>a <= b\<close> against an instant.\<close>

definition dt_instant :: "py_datetime \<Rightarrow> int py" where
  "dt_instant dt = (case dt of Aware t _ \<Rightarrow> Inr t
     | Naive _ \<Rightarrow> Inl (Type_Error ''can't compare offset-naive and offset-aware datetimes''))"

end
