(* ===== verification/Ingestion.thy ===== *)
theory Ingestion
  imports Dates Calibration
begin

text \<open>
  Scheduled ingestion of hazard events: the clients only it uses (\<open>tools/{copernicus_sentinel,era5,gdelt}\<close>), the
  five adapters that turn replies into records (\<open>ingestion/scheduled/hazard_event_sources\<close>) and the job that
  stores them and moves the cursor of the source (\<open>workers/jobs/ingestion_jobs.py\<close>). The job runs in one
  transaction: an exception leaves the tables as they were. Identifiers come from \<open>ids\<close> by position, the
  geometry of a point is a parameter, SHA-256 is a parameter.
\<close>

section \<open>Settings and records\<close>

record ingestion_settings =
  enable_usgs_ingestion :: bool
  enable_noaa_ingestion :: bool
  enable_copernicus_ingestion :: bool
  enable_era5_ingestion :: bool
  enable_gdelt_ingestion :: bool
  copernicus_api_url :: string
  era5_api_url :: string
  gdelt_api_url :: string
  gdelt_max_records_per_run :: int

text \<open>A label is taken from the reply as it is, so it may be any JSON value.\<close>

record hazard_record =
  rec_source :: string
  rec_external_id :: string
  rec_event_type :: string
  rec_region_label :: json
  rec_point :: "flt \<times> flt"
  rec_event_date :: int
  rec_details :: string

section \<open>Clients\<close>

definition get_wildfire_products ::
    "net \<Rightarrow> ingestion_settings \<Rightarrow> flt \<times> flt \<times> flt \<times> flt \<Rightarrow> int \<Rightarrow> redis_store \<Rightarrow> redis_store \<times> resilient_result py" where
  "get_wildfire_products n cfg bbox lmt rs =
     (case bbox of (min_x, min_y, max_x, max_y) \<Rightarrow>
        (let corner = (\<lambda>x y. float_repr x @ '' '' @ float_repr y);
             filter_str = ''Collection/Name eq '' @ quoted ''SENTINEL-2'' @ '' and OData.CSC.Intersects(area=geography'' @
               quoted (''SRID=4326;POLYGON(('' @ corner min_x min_y @ '', '' @ corner max_x min_y @ '', '' @ corner max_x max_y @ '', '' @
                 corner min_x max_y @ '', '' @ corner min_x min_y @ ''))'') @ '')'';
             rq = \<lparr>rq_url = copernicus_api_url cfg @ ''/Products'',
                   rq_params = [(''$filter'', JStr filter_str), (''$top'', JInt lmt), (''$orderby'', JStr ''ContentDate/Start desc'')],
                   rq_headers = []\<rparr>
         in call_source n ''copernicus'' rq (\<lambda>r. py_bind (ok_json r) (\<lambda>d. json_get_or d ''value'' (JArr [])))
              (''products:'' @ str_join '':'' (map (\<lambda>x. float_repr (fround 2 x)) [min_x, min_y, max_x, max_y]) @ '':'' @ int_str lmt) rs))"

definition get_atmospheric_baseline ::
    "net \<Rightarrow> ingestion_settings \<Rightarrow> flt \<Rightarrow> flt \<Rightarrow> int \<Rightarrow> int \<Rightarrow> redis_store \<Rightarrow> redis_store \<times> resilient_result py" where
  "get_atmospheric_baseline n cfg lat lon start_t end_t rs =
     (let rq = \<lparr>rq_url = era5_api_url cfg,
                rq_params = [(''latitude'', JFloat lat), (''longitude'', JFloat lon), (''start_date'', JStr (date_text start_t)),
                  (''end_date'', JStr (date_text end_t)), (''daily'', JStr ''temperature_2m_mean,wind_speed_10m_max,precipitation_sum'')],
                rq_headers = []\<rparr>
      in call_source n ''era5'' rq ok_json
           (''baseline:'' @ float_repr (fround 2 lat) @ '':'' @ float_repr (fround 2 lon) @ '':'' @ date_text start_t @ '':'' @ date_text end_t) rs)"

text \<open>A body that cannot be read counts as no articles; a bad status does not.\<close>

definition read_gdelt :: "fetch_reply \<Rightarrow> json py" where
  "read_gdelt r = py_bind (if status_code r \<noteq> 200 then raise_for_status r else Inr ()) (\<lambda>_.
     case py_bind (resp_json r) (\<lambda>d. json_get_or d ''articles'' (JArr [])) of Inl _ \<Rightarrow> Inr (JArr []) | Inr v \<Rightarrow> Inr v)"

definition get_hazard_articles ::
    "net \<Rightarrow> ingestion_settings \<Rightarrow> string \<Rightarrow> string \<Rightarrow> redis_store \<Rightarrow> redis_store \<times> resilient_result py" where
  "get_hazard_articles n cfg query start_text rs =
     (let lmt = gdelt_max_records_per_run cfg;
          rq = \<lparr>rq_url = gdelt_api_url cfg,
                rq_params = [(''query'', JStr query), (''mode'', JStr ''artlist''), (''maxrecords'', JInt lmt), (''format'', JStr ''json'')] @
                  (if start_text = [] then [] else [(''startdatetime'', JStr start_text)]),
                rq_headers = []\<rparr>
      in call_source n ''gdelt'' rq read_gdelt
           (''articles:'' @ query @ '':'' @ int_str lmt @ '':'' @ (if start_text = [] then ''latest'' else start_text)) rs)"

section \<open>Adapters\<close>

text \<open>A loop that appends at most one record per item; on an exception what was appended stays.\<close>

fun gather :: "('a \<Rightarrow> 'b option py) \<Rightarrow> 'a list \<Rightarrow> 'b list \<times> py_exc option" where
  "gather f [] = ([], None)"
| "gather f (x # xs) =
     (case f x of
        Inl e \<Rightarrow> ([], Some e)
      | Inr r \<Rightarrow> (case gather f xs of (ys, e) \<Rightarrow> (case r of None \<Rightarrow> ys | Some y \<Rightarrow> y # ys, e)))"

definition all_gathered :: "'b list \<times> py_exc option \<Rightarrow> 'b list py" where
  "all_gathered r = (case snd r of Some e \<Rightarrow> Inl e | None \<Rightarrow> Inr (fst r))"

text \<open>One request per region, each in its own \<open>try\<close>: an exception costs the rest of the region.\<close>

fun each_region :: "('r \<Rightarrow> redis_store \<Rightarrow> redis_store \<times> resilient_result py) \<Rightarrow> ('r \<Rightarrow> json \<Rightarrow> 'b list) \<Rightarrow> 'r list \<Rightarrow> redis_store \<Rightarrow>
    redis_store \<times> 'b list" where
  "each_region ask f [] rs = (rs, [])"
| "each_region ask f (r # regions) rs =
     (case ask r rs of (rs1, reply) \<Rightarrow>
        (case each_region ask f regions rs1 of (rs2, ys) \<Rightarrow>
           (rs2, (case reply of Inl _ \<Rightarrow> [] | Inr res \<Rightarrow> f r (rr_value res)) @ ys)))"

definition since_or_week :: "int \<Rightarrow> int option \<Rightarrow> int" where
  "since_or_week now since = (case since of Some s \<Rightarrow> s | None \<Rightarrow> now - 7 * 86400000000)"

text \<open>\<open>len(v)\<close> of a decoded value.\<close>

definition json_len :: "json \<Rightarrow> nat py" where
  "json_len j = (case j of JArr xs \<Rightarrow> Inr (length xs) | JStr s \<Rightarrow> Inr (length s) | JObj kvs \<Rightarrow> Inr (length kvs)
     | _ \<Rightarrow> Inl (Type_Error ''object has no len()''))"

definition usgs_record :: "json \<Rightarrow> hazard_record option py" where
  "usgs_record feat =
     py_bind (json_get feat ''id'') (\<lambda>feat_id.
     py_bind (json_get_or feat ''properties'' (JObj [])) (\<lambda>props.
     py_bind (json_get_or feat ''geometry'' (JObj [])) (\<lambda>geom.
     py_bind (json_get_or geom ''coordinates'' (JArr [])) (\<lambda>coords.
       if \<not> truthy feat_id \<or> \<not> truthy coords then Inr None
       else py_bind (json_len coords) (\<lambda>k.
         if k < 2 then Inr None
         else py_bind (py_bind (json_nth coords 0) json_float) (\<lambda>lon.
              py_bind (py_bind (json_nth coords 1) json_float) (\<lambda>lat.
              py_bind (json_get props ''time'') (\<lambda>epoch_ms.
                if epoch_ms = JNull then Inr None
                else py_bind (py_bind (json_num epoch_ms) (\<lambda>ms. from_timestamp (fdiv ms 1000))) (\<lambda>date.
                     py_bind (json_get props ''place'') (\<lambda>p.
                     py_bind (json_get props ''mag'') (\<lambda>mag.
                       let place = json_or p (JStr ''Unknown location'')
                       in Inr (Some \<lparr>rec_source = ''usgs'', rec_external_id = json_str feat_id, rec_event_type = ''earthquake'',
                            rec_region_label = place, rec_point = (lat, lon), rec_event_date = date,
                            rec_details = (if mag \<noteq> JNull then ''Magnitude '' @ json_str mag @ '' earthquake - '' @ json_str place
                                           else ''Earthquake - '' @ json_str place)\<rparr>))))))))))))"

definition fetch_recent_usgs_events :: "net \<Rightarrow> int option \<Rightarrow> redis_store \<Rightarrow> redis_store \<times> hazard_record list py" where
  "fetch_recent_usgs_events n since rs =
     (case get_recent_earthquakes n JNull JNull None (5/2) 7 (Some (since_or_week (net_now n) since)) (Some (net_now n)) rs of
        (rs1, res) \<Rightarrow> (rs1, py_bind res (\<lambda>r. py_bind (json_iter (json_or (rr_value r) (JArr []))) (\<lambda>features.
           all_gathered (gather usgs_record features)))))"

text \<open>The stations: identifier, city, latitude, longitude.\<close>

definition noaa_stations :: "(string \<times> string \<times> flt \<times> flt) list" where
  "noaa_stations = [(''8518750'', ''New York'', fl64 40.7128, fl64 (- 74.006)), (''9759110'', ''Tokyo'', fl64 35.6762, fl64 139.6503),
     (''9414290'', ''San Francisco'', fl64 37.7749, fl64 (- 122.4194))]"

definition degree_c :: string where
  "degree_c = [char_of (176 :: int), CHR ''C'']"

definition noaa_record :: "int \<Rightarrow> int \<Rightarrow> string \<times> string \<times> flt \<times> flt \<Rightarrow> json \<Rightarrow> hazard_record option py" where
  "noaa_record now start st obs =
     (case (st, obs) of
        ((station, city, lat, lon), JObj kvs) \<Rightarrow>
          (let t = dict_get_or kvs ''t'' JNull; v = dict_get_or kvs ''v'' JNull
           in if \<not> truthy t \<or> \<not> truthy v then Inr None
              else let dt = (case strptime fmt_minute (json_str t) of Some d \<Rightarrow> d | None \<Rightarrow> now)
                   in if dt < start then Inr None
                      else Inr (Some \<lparr>rec_source = ''noaa'',
                             rec_external_id = ''noaa_'' @ station @ ''_'' @ str_replace '' '' ''T'' (json_str t),
                             rec_event_type = ''marine heatwave'', rec_region_label = JStr city, rec_point = (lat, lon),
                             rec_event_date = dt,
                             rec_details = ''NOAA station '' @ station @ '' ('' @ city @ '') water temperature: '' @ json_str v @ degree_c\<rparr>))
      | _ \<Rightarrow> Inr None)"

definition noaa_records :: "int \<Rightarrow> int \<Rightarrow> string \<times> string \<times> flt \<times> flt \<Rightarrow> json \<Rightarrow> hazard_record list" where
  "noaa_records now start st v =
     (case json_get_or (json_or v (JObj [])) ''data'' (JArr []) of
        Inr (JArr obs) \<Rightarrow> fst (gather (noaa_record now start st) obs)
      | _ \<Rightarrow> [])"

definition fetch_recent_noaa_events :: "net \<Rightarrow> int option \<Rightarrow> redis_store \<Rightarrow> redis_store \<times> hazard_record list py" where
  "fetch_recent_noaa_events n since rs =
     (case each_region (\<lambda>st. get_water_temperature n (fst st) ''latest'' None)
         (noaa_records (net_now n) (since_or_week (net_now n) since)) noaa_stations rs of
        (rs1, recs) \<Rightarrow> (rs1, Inr recs))"

text \<open>The boxes: name, and the corners.\<close>

definition DEFAULT_BBOXES :: "(string \<times> flt \<times> flt \<times> flt \<times> flt) list" where
  "DEFAULT_BBOXES = [(''California'', fl64 (- 124.4), fl64 32.5, fl64 (- 114.1), 42), (''Mediterranean'', - 10, 35, 30, 45)]"

text \<open>\<open>date_str\<close> is not converted to a text before \<open>replace\<close>.\<close>

definition copernicus_date :: "int \<Rightarrow> json \<Rightarrow> int py" where
  "copernicus_date now date_str =
     (if \<not> truthy date_str then Inr now
      else case date_str of
             JStr s \<Rightarrow> (case fromisoformat (str_replace ''Z'' ''+00:00'' s) of None \<Rightarrow> Inr now | Some dt \<Rightarrow> dt_instant dt)
           | _ \<Rightarrow> Inl (Other_Error ''AttributeError''))"

definition copernicus_record :: "int \<Rightarrow> int \<Rightarrow> string \<times> flt \<times> flt \<times> flt \<times> flt \<Rightarrow> json \<Rightarrow> hazard_record option py" where
  "copernicus_record now start box product =
     (case box of (region, min_x, min_y, max_x, max_y) \<Rightarrow>
        py_bind (json_get product ''Id'') (\<lambda>prod_id.
        py_bind (json_get_or product ''Name'' (JStr ''Sentinel-2 Product'')) (\<lambda>name.
        py_bind (json_get_or product ''ContentDate'' (JObj [])) (\<lambda>content.
        py_bind (json_get content ''Start'') (\<lambda>date_str.
          if \<not> truthy prod_id then Inr None
          else py_bind (copernicus_date now date_str) (\<lambda>date.
            if date < start then Inr None
            else Inr (Some \<lparr>rec_source = ''copernicus'', rec_external_id = ''copernicus_'' @ json_str prod_id,
                   rec_event_type = ''wildfire_satellite'', rec_region_label = JStr region,
                   rec_point = (fdiv (fadd min_y max_y) 2, fdiv (fadd min_x max_x) 2), rec_event_date = date,
                   rec_details = ''Copernicus Sentinel-2 Satellite Product '' @ quoted (json_str name) @
                     '' | Provider: EU Copernicus Data Space | Original ID: '' @ json_str prod_id @
                     '' | Source URL: https://catalogue.dataspace.copernicus.eu/odata/v1/Products('' @ json_str prod_id @ '')''\<rparr>)))))))"

definition copernicus_records :: "int \<Rightarrow> int \<Rightarrow> string \<times> flt \<times> flt \<times> flt \<times> flt \<Rightarrow> json \<Rightarrow> hazard_record list" where
  "copernicus_records now start box v =
     (case json_iter (json_or v (JArr [])) of Inl _ \<Rightarrow> [] | Inr ps \<Rightarrow> fst (gather (copernicus_record now start box) ps))"

definition fetch_recent_copernicus_events ::
    "net \<Rightarrow> ingestion_settings \<Rightarrow> int option \<Rightarrow> redis_store \<Rightarrow> redis_store \<times> hazard_record list py" where
  "fetch_recent_copernicus_events n cfg since rs =
     (case each_region (\<lambda>box. get_wildfire_products n cfg (snd box) 10)
         (copernicus_records (net_now n) (since_or_week (net_now n) since)) DEFAULT_BBOXES rs of
        (rs1, recs) \<Rightarrow> (rs1, Inr recs))"

definition MONITORING_LOCATIONS :: "(string \<times> flt \<times> flt) list" where
  "MONITORING_LOCATIONS = [(''Tokyo'', fl64 35.6762, fl64 139.6503), (''London'', fl64 51.5074, fl64 (- 0.1278)),
     (''Paris'', fl64 48.8566, fl64 2.3522), (''California'', fl64 36.7783, fl64 (- 119.4179))]"

text \<open>\<open>xs[i] if i < len(xs) else "N/A"\<close>.\<close>

definition item_or_na :: "json \<Rightarrow> nat \<Rightarrow> json py" where
  "item_or_na xs i = py_bind (json_len xs) (\<lambda>k. if i < k then json_nth xs i else Inr (JStr ''N/A''))"

definition era5_details :: "string \<Rightarrow> json \<Rightarrow> json \<Rightarrow> json \<Rightarrow> json \<Rightarrow> string \<Rightarrow> string" where
  "era5_details city time temp wind precip ext_id =
     ''ERA5 Atmospheric Reanalysis Baseline in '' @ city @ '' on '' @ json_str time @ '': Mean Temp: '' @ json_str temp @ degree_c @
     '', Max Wind: '' @ json_str wind @ '' km/h, Precip: '' @ json_str precip @ '' mm | Provider: ECMWF ERA5 | Original ID: '' @ ext_id @
     '' | Source URL: https://archive-api.open-meteo.com/v1/archive''"

definition era5_record ::
    "int \<Rightarrow> int \<Rightarrow> string \<times> flt \<times> flt \<Rightarrow> json \<Rightarrow> json \<Rightarrow> json \<Rightarrow> nat \<times> json \<Rightarrow> hazard_record option py" where
  "era5_record now start loc temps winds precips it =
     (case (loc, it) of ((city, lat, lon), (i, time)) \<Rightarrow>
        (let date = (case strptime fmt_day (json_str time) of Some d \<Rightarrow> d | None \<Rightarrow> now);
             ext_id = ''era5_'' @ str_lower city @ ''_'' @ json_str time
         in if date < start then Inr None
            else py_bind (item_or_na temps i) (\<lambda>temp. py_bind (item_or_na winds i) (\<lambda>wind. py_bind (item_or_na precips i) (\<lambda>precip.
              Inr (Some \<lparr>rec_source = ''era5'', rec_external_id = ext_id, rec_event_type = ''atmospheric_anomaly'',
                rec_region_label = JStr city, rec_point = (lat, lon), rec_event_date = date,
                rec_details = era5_details city time temp wind precip ext_id\<rparr>))))))"

definition era5_records :: "int \<Rightarrow> int \<Rightarrow> string \<times> flt \<times> flt \<Rightarrow> json \<Rightarrow> hazard_record list" where
  "era5_records now start loc v =
     (case py_bind (json_get_or (json_or v (JObj [])) ''daily'' (JObj [])) (\<lambda>daily.
           py_bind (json_get_or daily ''time'' (JArr [])) (\<lambda>times.
           py_bind (json_get_or daily ''temperature_2m_mean'' (JArr [])) (\<lambda>temps.
           py_bind (json_get_or daily ''wind_speed_10m_max'' (JArr [])) (\<lambda>winds.
           py_bind (json_get_or daily ''precipitation_sum'' (JArr [])) (\<lambda>precips.
           py_bind (json_iter times) (\<lambda>ts. Inr (temps, winds, precips, ts))))))) of
        Inl _ \<Rightarrow> []
      | Inr (temps, winds, precips, ts) \<Rightarrow> fst (gather (era5_record now start loc temps winds precips) (enumerate 0 ts)))"

definition fetch_recent_era5_events ::
    "net \<Rightarrow> ingestion_settings \<Rightarrow> int option \<Rightarrow> redis_store \<Rightarrow> redis_store \<times> hazard_record list py" where
  "fetch_recent_era5_events n cfg since rs =
     (let now = net_now n; start = since_or_week now since
      in case each_region (\<lambda>(city, lat, lon). get_atmospheric_baseline n cfg lat lon start now)
           (era5_records now start) MONITORING_LOCATIONS rs of
           (rs1, recs) \<Rightarrow> (rs1, Inr recs))"

definition parse_gdelt_date :: "int \<Rightarrow> json \<Rightarrow> int" where
  "parse_gdelt_date now seendate =
     (if \<not> truthy seendate then now
      else let s = str_replace ''T'' [] (str_replace ''Z'' [] (json_str seendate))
           in case strptime fmt_compact (take 14 s) of
                Some d \<Rightarrow> d
              | None \<Rightarrow> (case strptime fmt_compact_day (take 8 s) of Some d \<Rightarrow> d | None \<Rightarrow> now))"

definition gdelt_record :: "(string \<Rightarrow> string) \<Rightarrow> int \<Rightarrow> int \<Rightarrow> json \<Rightarrow> hazard_record option py" where
  "gdelt_record sha now start art =
     py_bind (json_get art ''url'') (\<lambda>url.
     py_bind (json_get art ''title'') (\<lambda>t.
     py_bind (json_get art ''seendate'') (\<lambda>seendate.
     py_bind (json_get art ''domain'') (\<lambda>d.
     py_bind (json_get art ''language'') (\<lambda>l.
       let ttl = json_or t (JStr ''Socio-Political Hazard Event Report''); news = json_or d (JStr ''news'');
           language = json_or l (JStr ''English''); date = parse_gdelt_date now seendate
       in if \<not> truthy url then Inr None
          else if date < start then Inr None
          else case url of
                 JStr u \<Rightarrow>
                   (let ext_id = ''gdelt_'' @ take 16 (sha u)
                    in Inr (Some \<lparr>rec_source = ''gdelt'', rec_external_id = ext_id, rec_event_type = ''civil_unrest_hazard_adjacent'',
                         rec_region_label = news, rec_point = (0, 0), rec_event_date = date,
                         rec_details = ''GDELT News Report: '' @ quoted (json_str ttl) @ '' | Provider: GDELT Project ('' @ json_str news @
                           '') | Language: '' @ json_str language @ '' | Original ID: '' @ ext_id @ '' | Source URL: '' @ u\<rparr>))
               | _ \<Rightarrow> Inl (Other_Error ''AttributeError''))))))"

definition fetch_recent_gdelt_events ::
    "net \<Rightarrow> ingestion_settings \<Rightarrow> (string \<Rightarrow> string) \<Rightarrow> int option \<Rightarrow> redis_store \<Rightarrow> redis_store \<times> hazard_record list py" where
  "fetch_recent_gdelt_events n cfg sha since rs =
     (let now = net_now n; start = since_or_week now since
      in case get_hazard_articles n cfg ''wildfire OR flood OR earthquake'' (compact_text start) rs of
           (rs1, res) \<Rightarrow> (rs1, py_bind res (\<lambda>r. py_bind (json_iter (json_or (rr_value r) (JArr []))) (\<lambda>articles.
              py_bind (all_gathered (gather (gdelt_record sha now start) articles)) (\<lambda>recs. Inr (sort_key rec_event_date recs))))))"

section \<open>The job\<close>

text \<open>The tables, with the unique constraint on source and external identifier, and a cursor per source.\<close>

record 'g ingest_db =
  hazard_rows :: "'g hazard_event list"
  cursor_rows :: "(string, int) dict"

datatype ingestion_report = Ingestion_Disabled | Ingestion_Done nat nat

definition row_key :: "'g hazard_event \<Rightarrow> string option \<times> string option" where
  "row_key e = (he_source e, external_id e)"

definition rec_key :: "hazard_record \<Rightarrow> string option \<times> string option" where
  "rec_key r = (Some (rec_source r), Some (rec_external_id r))"

text \<open>\<open>INSERT ... ON CONFLICT (source, external_id) DO NOTHING\<close> with its row count; a label that is not a text is
  refused by the driver.\<close>

definition insert_record ::
    "(nat \<Rightarrow> uuid) \<Rightarrow> (flt \<Rightarrow> flt \<Rightarrow> 'g) \<Rightarrow> hazard_record \<Rightarrow> 'g hazard_event list \<Rightarrow> ('g hazard_event list \<times> nat) py" where
  "insert_record ids make_point r rows =
     (case rec_region_label r of
        JStr lbl \<Rightarrow>
          (if rec_key r \<in> row_key ` set rows then Inr (rows, 0)
           else Inr (rows @ [\<lparr>he_id = ids (length rows), he_event_type = rec_event_type r,
                  he_region = Some (make_point (snd (rec_point r)) (fst (rec_point r))), region_label = Some lbl,
                  event_date = rec_event_date r, he_details = Some (rec_details r), he_source = Some (rec_source r),
                  external_id = Some (rec_external_id r)\<rparr>], 1))
      | _ \<Rightarrow> Inl (Other_Error ''DataError''))"

fun insert_records ::
    "(nat \<Rightarrow> uuid) \<Rightarrow> (flt \<Rightarrow> flt \<Rightarrow> 'g) \<Rightarrow> hazard_record list \<Rightarrow> 'g hazard_event list \<Rightarrow> nat \<Rightarrow> ('g hazard_event list \<times> nat) py" where
  "insert_records ids mk [] rows k = Inr (rows, k)"
| "insert_records ids mk (r # recs) rows k =
     py_bind (insert_record ids mk r rows) (\<lambda>(rows1, rc). insert_records ids mk recs rows1 (if rc > 0 then k + 1 else k))"

definition max_event_date :: "hazard_record list \<Rightarrow> int" where
  "max_event_date recs = Max (rec_event_date ` set recs)"

definition ingestion_enabled :: "ingestion_settings \<Rightarrow> string \<Rightarrow> bool" where
  "ingestion_enabled cfg source \<longleftrightarrow>
     \<not> (source = ''usgs'' \<and> \<not> enable_usgs_ingestion cfg \<or> source = ''noaa'' \<and> \<not> enable_noaa_ingestion cfg \<or>
        source = ''copernicus'' \<and> \<not> enable_copernicus_ingestion cfg \<or> source = ''era5'' \<and> \<not> enable_era5_ingestion cfg \<or>
        source = ''gdelt'' \<and> \<not> enable_gdelt_ingestion cfg)"

definition source_clean :: "string \<Rightarrow> string" where
  "source_clean source = str_lower (str_strip source)"

definition fetch_events ::
    "net \<Rightarrow> ingestion_settings \<Rightarrow> (string \<Rightarrow> string) \<Rightarrow> string \<Rightarrow> int option \<Rightarrow> redis_store \<Rightarrow> redis_store \<times> hazard_record list py" where
  "fetch_events n cfg sha source since rs =
     (if source_clean source = ''usgs'' then fetch_recent_usgs_events n since rs
      else if source_clean source = ''noaa'' then fetch_recent_noaa_events n since rs
      else if source_clean source = ''copernicus'' then fetch_recent_copernicus_events n cfg since rs
      else if source_clean source = ''era5'' then fetch_recent_era5_events n cfg since rs
      else if source_clean source = ''gdelt'' then fetch_recent_gdelt_events n cfg sha since rs
      else (rs, Inl (Value_Error (''Unknown ingestion source: '' @ quoted source))))"

text \<open>Storing the records of one run; the cursor row is inserted or overwritten.\<close>

definition store_events ::
    "(nat \<Rightarrow> uuid) \<Rightarrow> (flt \<Rightarrow> flt \<Rightarrow> 'g) \<Rightarrow> string \<Rightarrow> hazard_record list \<Rightarrow> 'g ingest_db \<Rightarrow> ('g ingest_db \<times> nat) py" where
  "store_events ids mk source recs db =
     (if recs = [] then Inr (db, 0)
      else py_bind (insert_records ids mk recs (hazard_rows db) 0) (\<lambda>(rows, k).
        Inr (\<lparr>hazard_rows = rows, cursor_rows = dict_set source (max_event_date recs) (cursor_rows db)\<rparr>, k)))"

definition run_ingestion_job ::
    "net \<Rightarrow> ingestion_settings \<Rightarrow> (string \<Rightarrow> string) \<Rightarrow> (nat \<Rightarrow> uuid) \<Rightarrow> (flt \<Rightarrow> flt \<Rightarrow> 'g) \<Rightarrow> string \<Rightarrow> redis_store \<Rightarrow> 'g ingest_db \<Rightarrow>
     redis_store \<times> 'g ingest_db \<times> ingestion_report py" where
  "run_ingestion_job n cfg sha ids mk source rs db =
     (if \<not> ingestion_enabled cfg (source_clean source) then (rs, db, Inr Ingestion_Disabled)
      else case fetch_events n cfg sha source (dict_get (cursor_rows db) (source_clean source)) rs of
             (rs1, Inl e) \<Rightarrow> (rs1, db, Inl e)
           | (rs1, Inr recs) \<Rightarrow>
               (case store_events ids mk (source_clean source) recs db of
                  Inl e \<Rightarrow> (rs1, db, Inl e)
                | Inr (db1, k) \<Rightarrow> (rs1, db1, Inr (Ingestion_Done (length recs) k))))"

section \<open>What the adapters deliver\<close>

lemma gather_mem: "y \<in> set (fst (gather f xs)) \<Longrightarrow> \<exists>x\<in>set xs. f x = Inr (Some y)"
  by (induction xs) (auto split: sum.splits prod.splits option.splits)

lemma all_gathered_mem: "all_gathered (gather f xs) = Inr ys \<Longrightarrow> y \<in> set ys \<Longrightarrow> \<exists>x\<in>set xs. f x = Inr (Some y)"
  by (auto simp: all_gathered_def split: option.splits intro: gather_mem)

lemma each_region_mem:
  "y \<in> set (snd (each_region ask f regions rs)) \<Longrightarrow> \<exists>r\<in>set regions. \<exists>v. y \<in> set (f r v)"
proof (induction regions arbitrary: rs)
  case (Cons r regions)
  obtain rs1 reply where ask: "ask r rs = (rs1, reply)" by (cases "ask r rs")
  obtain rs2 ys where rest: "each_region ask f regions rs1 = (rs2, ys)" by (cases "each_region ask f regions rs1")
  from Cons.prems consider "y \<in> set ys" | v where "y \<in> set (f r v)"
    by (auto simp: ask rest split: sum.splits)
  then show ?case
  proof cases
    case 1
    then show ?thesis using Cons.IH [of rs1] rest by auto
  qed auto
qed simp

text \<open>The kind of events of each source.\<close>

definition source_event_type :: "(string, string) dict" where
  "source_event_type = [(''usgs'', ''earthquake''), (''noaa'', ''marine heatwave''), (''copernicus'', ''wildfire_satellite''),
     (''era5'', ''atmospheric_anomaly''), (''gdelt'', ''civil_unrest_hazard_adjacent'')]"

definition delivered :: "string \<Rightarrow> int \<Rightarrow> hazard_record \<Rightarrow> bool" where
  "delivered source start r \<longleftrightarrow> rec_source r = source \<and> dict_get source_event_type source = Some (rec_event_type r) \<and>
     (source \<noteq> ''usgs'' \<longrightarrow> start \<le> rec_event_date r)"

lemma usgs_delivered: "usgs_record x = Inr (Some r) \<Longrightarrow> delivered ''usgs'' start r"
  unfolding usgs_record_def Let_def by (auto simp: delivered_def source_event_type_def py_bind_Inr_iff split: if_splits)

lemma noaa_delivered: "noaa_record now start st x = Inr (Some r) \<Longrightarrow> delivered ''noaa'' start r"
  unfolding noaa_record_def Let_def
  by (auto simp: delivered_def source_event_type_def split: if_splits prod.splits json.splits)

lemma copernicus_delivered: "copernicus_record now start box x = Inr (Some r) \<Longrightarrow> delivered ''copernicus'' start r"
  unfolding copernicus_record_def
  by (auto simp: delivered_def source_event_type_def py_bind_Inr_iff split: if_splits prod.splits)

lemma era5_delivered: "era5_record now start loc a b c it = Inr (Some r) \<Longrightarrow> delivered ''era5'' start r"
  unfolding era5_record_def Let_def
  by (auto simp: delivered_def source_event_type_def py_bind_Inr_iff split: if_splits prod.splits)

lemma gdelt_delivered: "gdelt_record sha now start x = Inr (Some r) \<Longrightarrow> delivered ''gdelt'' start r"
  unfolding gdelt_record_def Let_def
  by (auto simp: delivered_def source_event_type_def py_bind_Inr_iff split: if_splits json.splits)

lemma noaa_records_delivered: "r \<in> set (noaa_records now start st v) \<Longrightarrow> delivered ''noaa'' start r"
  unfolding noaa_records_def
  by (auto split: sum.splits json.splits dest!: gather_mem intro: noaa_delivered)

lemma copernicus_records_delivered: "r \<in> set (copernicus_records now start box v) \<Longrightarrow> delivered ''copernicus'' start r"
  unfolding copernicus_records_def
  by (auto split: sum.splits dest!: gather_mem intro: copernicus_delivered)

lemma era5_records_delivered: "r \<in> set (era5_records now start loc v) \<Longrightarrow> delivered ''era5'' start r"
  unfolding era5_records_def
  by (auto split: sum.splits prod.splits dest!: gather_mem intro: era5_delivered)

lemma fetch_delivered:
  assumes "fetch_events n cfg sha source since rs = (rs', Inr recs)" "r \<in> set recs"
  shows "delivered (source_clean source) (since_or_week (net_now n) since) r"
proof -
  consider (usgs) "source_clean source = ''usgs''" "fetch_recent_usgs_events n since rs = (rs', Inr recs)"
    | (noaa) "source_clean source = ''noaa''" "fetch_recent_noaa_events n since rs = (rs', Inr recs)"
    | (copernicus) "source_clean source = ''copernicus''" "fetch_recent_copernicus_events n cfg since rs = (rs', Inr recs)"
    | (era5) "source_clean source = ''era5''" "fetch_recent_era5_events n cfg since rs = (rs', Inr recs)"
    | (gdelt) "source_clean source = ''gdelt''" "fetch_recent_gdelt_events n cfg sha since rs = (rs', Inr recs)"
    using assms(1) unfolding fetch_events_def by (auto split: if_splits)
  then show ?thesis
  proof cases
    case usgs
    then show ?thesis using assms(2)
      by (auto simp: fetch_recent_usgs_events_def py_bind_Inr_iff split: prod.splits dest!: all_gathered_mem intro: usgs_delivered)
  next
    case noaa
    have "recs = snd (each_region (\<lambda>st. get_water_temperature n (fst st) ''latest'' None)
        (noaa_records (net_now n) (since_or_week (net_now n) since)) noaa_stations rs)"
      using noaa(2) by (auto simp: fetch_recent_noaa_events_def split: prod.splits)
    then show ?thesis using each_region_mem noaa_records_delivered noaa(1) assms(2) by metis
  next
    case copernicus
    have "recs = snd (each_region (\<lambda>box. get_wildfire_products n cfg (snd box) 10)
        (copernicus_records (net_now n) (since_or_week (net_now n) since)) DEFAULT_BBOXES rs)"
      using copernicus(2) by (auto simp: fetch_recent_copernicus_events_def split: prod.splits)
    then show ?thesis using each_region_mem copernicus_records_delivered copernicus(1) assms(2) by metis
  next
    case era5
    have "recs = snd (each_region (\<lambda>(city, lat, lon). get_atmospheric_baseline n cfg lat lon (since_or_week (net_now n) since) (net_now n))
        (era5_records (net_now n) (since_or_week (net_now n) since)) MONITORING_LOCATIONS rs)"
      using era5(2) by (auto simp: fetch_recent_era5_events_def Let_def split: prod.splits)
    then show ?thesis using each_region_mem era5_records_delivered era5(1) assms(2) by metis
  next
    case gdelt
    then show ?thesis using assms(2)
      by (auto simp: fetch_recent_gdelt_events_def Let_def py_bind_Inr_iff split: prod.splits dest!: all_gathered_mem intro: gdelt_delivered)
  qed
qed

section \<open>Storing records\<close>

text \<open>A row holds a record.\<close>

definition holds_record :: "'g hazard_event \<Rightarrow> hazard_record \<Rightarrow> bool" where
  "holds_record e r \<longleftrightarrow> row_key e = rec_key r \<and> he_event_type e = rec_event_type r \<and> event_date e = rec_event_date r \<and>
     he_details e = Some (rec_details r) \<and> map_option JStr (region_label e) = Some (rec_region_label r)"

lemma insert_record_cases:
  assumes "insert_record ids mk r rows = Inr (rows', k)"
  obtains "rec_key r \<in> row_key ` set rows" "rows' = rows" "k = 0"
  | e where "rec_key r \<notin> row_key ` set rows" "rows' = rows @ [e]" "k = 1" "holds_record e r"
  using assms unfolding insert_record_def
  by (auto simp: holds_record_def row_key_def rec_key_def split: json.splits if_splits)

text \<open>The new rows have new keys, one for each record whose key was not there.\<close>

definition inserts :: "hazard_record list \<Rightarrow> 'g hazard_event list \<Rightarrow> 'g hazard_event list \<Rightarrow> bool" where
  "inserts recs rows new \<longleftrightarrow> distinct (map row_key new) \<and> row_key ` set new = rec_key ` set recs - row_key ` set rows \<and>
     (\<forall>e\<in>set new. \<exists>r\<in>set recs. holds_record e r)"

lemma insert_Diff_insert_fresh: "a \<notin> B \<Longrightarrow> insert a (A - insert a B) = insert a A - B"
  by blast

lemma insert_records_inserts:
  "insert_records ids mk recs rows k = Inr (rows', k') \<Longrightarrow>
     \<exists>new. rows' = rows @ new \<and> k' = k + length new \<and> inserts recs rows new"
proof (induction recs arbitrary: rows k)
  case Nil
  then show ?case by (simp add: inserts_def)
next
  case (Cons r recs)
  from Cons.prems obtain rows1 rc where one: "insert_record ids mk r rows = Inr (rows1, rc)"
    and rest: "insert_records ids mk recs rows1 (if rc > 0 then k + 1 else k) = Inr (rows', k')"
    by (auto simp: py_bind_Inr_iff)
  from Cons.IH [OF rest] obtain new where new: "rows' = rows1 @ new" "k' = (if rc > 0 then k + 1 else k) + length new"
    "inserts recs rows1 new" by blast
  from one show ?case
  proof (cases rule: insert_record_cases)
    case 1
    then have "inserts (r # recs) rows new" using new(3) by (auto simp: inserts_def)
    then show ?thesis using new 1 by auto
  next
    case (2 e)
    have key: "row_key e = rec_key r" using 2(4) by (simp add: holds_record_def)
    have later: "distinct (map row_key new)" "row_key ` set new = rec_key ` set recs - insert (rec_key r) (row_key ` set rows)"
      "\<forall>e\<in>set new. \<exists>r\<in>set recs. holds_record e r" using new(3) by (simp_all add: inserts_def 2(2) key)
    have "distinct (map row_key (e # new))" using later(1,2) by (simp add: key)
    moreover have "row_key ` set (e # new) = rec_key ` set (r # recs) - row_key ` set rows"
      using insert_Diff_insert_fresh [OF 2(1)] by (simp add: key later(2))
    moreover have "\<forall>x\<in>set (e # new). \<exists>r\<in>set (r # recs). holds_record x r" using later(3) 2(4) by auto
    ultimately have "inserts (r # recs) rows (e # new)" unfolding inserts_def by blast
    then show ?thesis using new 2 by auto
  qed
qed

lemma inserts_again: "inserts recs (rows @ new) new' \<Longrightarrow> inserts recs rows new \<Longrightarrow> new' = []"
proof -
  assume again: "inserts recs (rows @ new) new'" and first: "inserts recs rows new"
  then have "row_key ` set new' = rec_key ` set recs - (row_key ` set rows \<union> (rec_key ` set recs - row_key ` set rows))"
    by (simp add: inserts_def image_Un)
  also have "\<dots> = {}" by blast
  finally show "new' = []" by simp
qed

lemma inserts_distinct:
  "inserts recs rows new \<Longrightarrow> distinct (map row_key rows) \<Longrightarrow> distinct (map row_key (rows @ new))"
  by (auto simp: inserts_def)

lemma insert_records_labels:
  "insert_records ids mk recs rows k = Inr res \<Longrightarrow> r \<in> set recs \<Longrightarrow> \<exists>l. rec_region_label r = JStr l"
proof (induction recs arbitrary: rows k)
  case (Cons r' recs)
  from Cons.prems(1) obtain one where one: "insert_record ids mk r' rows = Inr one"
    and rest: "insert_records ids mk recs (fst one) (if snd one > 0 then k + 1 else k) = Inr res"
    by (auto simp: py_bind_Inr_iff)
  have "\<exists>l. rec_region_label r' = JStr l" using one by (simp add: insert_record_def split: json.splits)
  then show ?case using Cons.IH [OF rest] Cons.prems(2) by auto
qed simp

lemma insert_records_idle:
  "\<forall>r\<in>set recs. rec_key r \<in> row_key ` set rows \<and> (\<exists>l. rec_region_label r = JStr l) \<Longrightarrow>
     insert_records ids mk recs rows k = Inr (rows, k)"
proof (induction recs arbitrary: k)
  case (Cons r recs)
  then have "insert_record ids mk r rows = Inr (rows, 0)" by (auto simp: insert_record_def)
  moreover have "insert_records ids mk recs rows k = Inr (rows, k)" using Cons by simp
  ultimately show ?case by (simp add: py_bind_def)
qed simp

text \<open>What storing the records of a run does, and that doing it again changes nothing.\<close>

lemma store_events_spec:
  assumes "store_events ids mk source recs db = Inr (db', k)"
  obtains new where "hazard_rows db' = hazard_rows db @ new" "k = length new" "inserts recs (hazard_rows db) new"
    "cursor_rows db' = (if recs = [] then cursor_rows db else dict_set source (max_event_date recs) (cursor_rows db))"
    "store_events ids' mk source recs db' = Inr (db', 0)"
proof (cases "recs = []")
  case True
  then show ?thesis using assms that [of "[]"] by (simp add: store_events_def inserts_def)
next
  case False
  from assms False obtain rows where run: "insert_records ids mk recs (hazard_rows db) 0 = Inr (rows, k)"
    and db': "db' = \<lparr>hazard_rows = rows, cursor_rows = dict_set source (max_event_date recs) (cursor_rows db)\<rparr>"
    by (auto simp: store_events_def py_bind_Inr_iff)
  from insert_records_inserts [OF run] obtain new where new: "rows = hazard_rows db @ new" "k = length new"
    "inserts recs (hazard_rows db) new" by auto
  have "rec_key ` set recs \<subseteq> row_key ` set rows" using new(1,3) by (auto simp: inserts_def image_Un)
  then have "insert_records ids' mk recs rows 0 = Inr (rows, 0)"
    using insert_records_labels [OF run] by (intro insert_records_idle) blast
  moreover have "dict_set source t (dict_set source t d) = dict_set source t d" for t :: int and d
    by (induction d) auto
  ultimately have "store_events ids' mk source recs db' = Inr (db', 0)"
    using False by (simp add: store_events_def db' py_bind_def)
  then show ?thesis using that [of new] new False by (simp add: db')
qed

text \<open>The outcomes of a job.\<close>

lemma ingestion_job_cases:
  assumes "run_ingestion_job n cfg sha ids mk source rs db = (rs', db', res)"
  obtains "res = Inr Ingestion_Disabled" "db' = db" "rs' = rs" "\<not> ingestion_enabled cfg (source_clean source)"
  | e where "res = Inl e" "db' = db"
  | recs k where "res = Inr (Ingestion_Done (length recs) k)"
      "fetch_events n cfg sha source (dict_get (cursor_rows db) (source_clean source)) rs = (rs', Inr recs)"
      "store_events ids mk (source_clean source) recs db = Inr (db', k)"
  using assms unfolding run_ingestion_job_def by (auto split: if_splits prod.splits sum.splits)

text \<open>a job that raises or is disabled leaves the tables as they are. One that ends appends exactly one row
  for every fetched record whose source and identifier were not stored yet, keeps the keys unique and every old
  row, counts what it fetched and inserted, moves the cursor of its source to the latest date of the records, and
  touches no other cursor; storing the same records again changes nothing.\<close>

theorem ingestion_job_contract:
  assumes "distinct (map row_key (hazard_rows db))" "run_ingestion_job n cfg sha ids mk source rs db = (rs', db', res)"
  shows "case res of
      Inl e \<Rightarrow> db' = db
    | Inr Ingestion_Disabled \<Rightarrow> db' = db \<and> rs' = rs \<and> \<not> ingestion_enabled cfg (source_clean source)
    | Inr (Ingestion_Done fetched inserted) \<Rightarrow>
        \<exists>recs new. fetch_events n cfg sha source (dict_get (cursor_rows db) (source_clean source)) rs = (rs', Inr recs) \<and>
          fetched = length recs \<and> inserted = length new \<and> hazard_rows db' = hazard_rows db @ new \<and>
          distinct (map row_key (hazard_rows db')) \<and>
          row_key ` set new = rec_key ` set recs - row_key ` set (hazard_rows db) \<and>
          (\<forall>e\<in>set new. \<exists>r\<in>set recs. holds_record e r) \<and>
          cursor_rows db' = (if recs = [] then cursor_rows db
                             else dict_set (source_clean source) (max_event_date recs) (cursor_rows db)) \<and>
          store_events ids mk (source_clean source) recs db' = Inr (db', 0)"
  using assms(2)
proof (cases rule: ingestion_job_cases)
  case (3 recs k)
  from 3(3) obtain new where new: "hazard_rows db' = hazard_rows db @ new" "k = length new" "inserts recs (hazard_rows db) new"
    "cursor_rows db' = (if recs = [] then cursor_rows db else dict_set (source_clean source) (max_event_date recs) (cursor_rows db))"
    "store_events ids mk (source_clean source) recs db' = Inr (db', 0)"
    by (rule store_events_spec)
  have "distinct (map row_key (hazard_rows db'))" unfolding new(1) by (rule inserts_distinct [OF new(3) assms(1)])
  moreover have "row_key ` set new = rec_key ` set recs - row_key ` set (hazard_rows db)"
    "\<forall>e\<in>set new. \<exists>r\<in>set recs. holds_record e r" using new(3) by (simp_all add: inserts_def)
  ultimately show ?thesis unfolding 3(1) sum.case ingestion_report.case using 3(2) new(1,2,4,5)
    by (intro exI [of _ recs] exI [of _ new] conjI) simp_all
qed simp_all

section \<open>Sequences of jobs\<close>

inductive ingest_step :: "'g ingest_db \<Rightarrow> 'g ingest_db \<Rightarrow> bool" where
  job: "ingest_step db (fst (snd (run_ingestion_job n cfg sha ids mk source rs db)))"

inductive_cases ingest_stepE: "ingest_step db db'"

text \<open>Keys are unique and every row is of a source, with its kind of event.\<close>

definition ingest_ok :: "'g ingest_db \<Rightarrow> bool" where
  "ingest_ok db \<longleftrightarrow> distinct (map row_key (hazard_rows db)) \<and>
     (\<forall>e\<in>set (hazard_rows db). \<exists>s. he_source e = Some s \<and> dict_get source_event_type s = Some (he_event_type e))"

text \<open>Rows are only appended, and the cursors of the adapters that filter do not go back.\<close>

definition ingest_le :: "'g ingest_db \<Rightarrow> 'g ingest_db \<Rightarrow> bool" where
  "ingest_le db db' \<longleftrightarrow> (\<exists>new. hazard_rows db' = hazard_rows db @ new) \<and>
     (\<forall>s t. s \<noteq> ''usgs'' \<longrightarrow> dict_get (cursor_rows db) s = Some t \<longrightarrow> (\<exists>t'. dict_get (cursor_rows db') s = Some t' \<and> t \<le> t'))"

lemma ingest_le_trans: "ingest_le a b \<Longrightarrow> ingest_le b c \<Longrightarrow> ingest_le a c"
proof -
  assume ab: "ingest_le a b" and bc: "ingest_le b c"
  have "\<exists>t'. dict_get (cursor_rows c) s = Some t' \<and> t \<le> t'" if "s \<noteq> ''usgs''" "dict_get (cursor_rows a) s = Some t" for s t
    using ab bc that unfolding ingest_le_def by (meson order_trans)
  moreover have "\<exists>new. hazard_rows c = hazard_rows a @ new" using ab bc by (auto simp: ingest_le_def)
  ultimately show "ingest_le a c" by (simp add: ingest_le_def)
qed

lemma cursor_not_back:
  assumes "fetch_events n cfg sha source since rs = (rs', Inr recs)" "recs \<noteq> []" "source_clean source \<noteq> ''usgs''" "since = Some t"
  shows "t \<le> max_event_date recs"
proof -
  obtain r where r: "r \<in> set recs" using assms(2) by (cases recs) auto
  have "t \<le> rec_event_date r"
    using fetch_delivered [OF assms(1) r] assms(3,4) by (simp add: delivered_def since_or_week_def)
  also have "\<dots> \<le> max_event_date recs" using r by (auto simp: max_event_date_def)
  finally show ?thesis .
qed

lemma ingest_step_safe:
  assumes "ingest_ok db" "run_ingestion_job n cfg sha ids mk source rs db = (rs', db', res)"
  shows "ingest_ok db' \<and> ingest_le db db'"
  using assms(2)
proof (cases rule: ingestion_job_cases)
  case (3 recs k)
  from 3(3) obtain new where new: "hazard_rows db' = hazard_rows db @ new" "inserts recs (hazard_rows db) new"
    "cursor_rows db' = (if recs = [] then cursor_rows db else dict_set (source_clean source) (max_event_date recs) (cursor_rows db))"
    by (rule store_events_spec)
  have "\<exists>s. he_source e = Some s \<and> dict_get source_event_type s = Some (he_event_type e)" if e: "e \<in> set new" for e
  proof -
    from e new(2) obtain r where "r \<in> set recs" "holds_record e r" by (auto simp: inserts_def)
    then show ?thesis using fetch_delivered [OF 3(2)]
      by (auto simp: holds_record_def row_key_def rec_key_def delivered_def)
  qed
  then have "ingest_ok db'" using assms(1) new(1) inserts_distinct [OF new(2)] unfolding ingest_ok_def by auto
  moreover have "\<exists>t'. dict_get (cursor_rows db') s = Some t' \<and> t \<le> t'"
    if "s \<noteq> ''usgs''" "dict_get (cursor_rows db) s = Some t" for s t
    using cursor_not_back [OF 3(2), of t] that by (cases "s = source_clean source") (auto simp: new(3) update_conv')
  ultimately show ?thesis using new(1) by (auto simp: ingest_le_def)
qed (use assms(1) in \<open>auto simp: ingest_le_def\<close>)

interpretation ingestion: ordered_system ingest_step ingest_ok ingest_le
proof unfold_locales
  fix s t :: "'a ingest_db"
  assume "ingest_ok s" "ingest_step s t"
  then show "ingest_ok t" "ingest_le s t"
    by (elim ingest_stepE; metis ingest_step_safe prod.collapse)+
qed (simp add: ingest_le_def, rule ingest_le_trans)

text \<open>C29: after any sequence of ingestion jobs, whatever the sources reply and whichever jobs fail, no two rows
  share source and identifier, every row is of a known source with its kind of event, every earlier row is still
  there unchanged and in place, and the cursor of a source whose adapter filters by date has not gone back.\<close>

theorem ingestion_keeps_history:
  assumes "ingest_ok db" "reaches ingest_step db db'"
  shows "distinct (map row_key (hazard_rows db')) \<and>
    (\<forall>e\<in>set (hazard_rows db'). \<exists>s. he_source e = Some s \<and> dict_get source_event_type s = Some (he_event_type e)) \<and>
    (\<exists>new. hazard_rows db' = hazard_rows db @ new) \<and>
    (\<forall>s t. s \<noteq> ''usgs'' \<longrightarrow> dict_get (cursor_rows db) s = Some t \<longrightarrow> (\<exists>t'. dict_get (cursor_rows db') s = Some t' \<and> t \<le> t'))"
  using ingestion.reaches_inv [OF assms(2,1)] ingestion.reaches_le [OF assms(2,1)]
  unfolding ingest_ok_def ingest_le_def by blast

section \<open>A run\<close>

definition sample_net :: "int \<Rightarrow> json \<Rightarrow> net" where
  "sample_net now js =
     \<lparr>net_cfg = \<lparr>resilience_bypass = True, circuit_failure_threshold = 3, circuit_half_open_timeout_s = 60\<rparr>,
      net_sources = \<lparr>openaq_api_key = None, firms_api_key = None, usgs_api_url = ''usgs'', noaa_api_url = ''noaa'',
        open_meteo_weather_url = [], open_meteo_geocoding_url = [], nominatim_api_url = [], firms_api_url = [],
        causal_chain_search_radius_meters = 0, enable_boundary_reasoning = False\<rparr>,
      net_up = (\<lambda>_ _. True), net_clock = (\<lambda>_ _. now),
      net_http = (\<lambda>_ _. Inr \<lparr>status_code = 200, resp_json = Inr js, resp_text = []\<rparr>),
      net_now = now, side_up = (\<lambda>_. True)\<rparr>"

definition sample_ingestion_cfg :: ingestion_settings where
  "sample_ingestion_cfg = \<lparr>enable_usgs_ingestion = True, enable_noaa_ingestion = True, enable_copernicus_ingestion = True,
     enable_era5_ingestion = True, enable_gdelt_ingestion = True, copernicus_api_url = [], era5_api_url = [], gdelt_api_url = [],
     gdelt_max_records_per_run = 250\<rparr>"

definition empty_redis :: redis_store where
  "empty_redis = \<lparr>circuits = [], cache = []\<rparr>"

definition empty_ingest_db :: "(flt \<times> flt) ingest_db" where
  "empty_ingest_db = \<lparr>hazard_rows = [], cursor_rows = []\<rparr>"

definition sample_water :: json where
  "sample_water = JObj [(''data'', JArr [JObj [(''t'', JStr ''2026-07-24 18:00''), (''v'', JStr ''21.5'')]])]"

definition sample_job :: "(flt \<times> flt) ingest_db \<Rightarrow> redis_store \<times> (flt \<times> flt) ingest_db \<times> ingestion_report py" where
  "sample_job db = run_ingestion_job (sample_net 1784919600000000 sample_water) sample_ingestion_cfg (\<lambda>u. u) (\<lambda>k. k) Pair
     '' NOAA '' empty_redis db"

lemma sample_job_result: "snd (snd (sample_job empty_ingest_db)) = Inr (Ingestion_Done 3 3)"
  by code_simp

theorem ingestion_job_contract_witness:
  "\<exists>recs new. length recs = 3 \<and> length new = 3 \<and> hazard_rows (fst (snd (sample_job empty_ingest_db))) = new \<and>
     distinct (map row_key new) \<and> row_key ` set new = rec_key ` set recs"
proof -
  obtain rs' db' where run: "sample_job empty_ingest_db = (rs', db', Inr (Ingestion_Done 3 3))"
    using sample_job_result by (metis prod.collapse)
  have "distinct (map row_key (hazard_rows empty_ingest_db))" by (simp add: empty_ingest_db_def)
  from ingestion_job_contract [OF this run [unfolded sample_job_def]] obtain recs new where
    "3 = length recs" "3 = length new" "hazard_rows db' = hazard_rows empty_ingest_db @ new"
    "distinct (map row_key (hazard_rows db'))"
    "row_key ` set new = rec_key ` set recs - row_key ` set (hazard_rows empty_ingest_db)"
    unfolding sum.case ingestion_report.case by (elim exE conjE) (rule that)
  then show ?thesis using run by (intro exI [of _ recs] exI [of _ new]) (simp add: empty_ingest_db_def)
qed

theorem ingestion_keeps_history_witness:
  "distinct (map row_key (hazard_rows (fst (snd (sample_job (fst (snd (sample_job empty_ingest_db))))))))"
proof -
  have "ingest_ok empty_ingest_db" by (simp add: ingest_ok_def empty_ingest_db_def)
  moreover have step: "ingest_step db (fst (snd (sample_job db)))" for db unfolding sample_job_def by (rule ingest_step.job)
  then have "reaches ingest_step empty_ingest_db (fst (snd (sample_job (fst (snd (sample_job empty_ingest_db))))))"
    by (meson reaches.intros)
  ultimately show ?thesis using ingestion_keeps_history by blast
qed

section \<open>Limits of the ingestion\<close>

text \<open>A single feature without geometry makes the whole run of the adapter raise, whatever surrounds it.\<close>

lemma usgs_null_geometry_raises:
  "\<exists>e. all_gathered (gather usgs_record (fs @ JObj [(''id'', i), (''geometry'', JNull)] # gs)) = Inl e"
proof -
  have "\<exists>e. usgs_record (JObj [(''id'', i), (''geometry'', JNull)]) = Inl e"
    by (simp add: usgs_record_def py_bind_def json_get_or_def dict_get_or_def)
  moreover have "(\<exists>e. f x = Inl e) \<Longrightarrow> snd (gather f (xs @ x # ys)) \<noteq> None" for f :: "json \<Rightarrow> hazard_record option py" and x xs ys
    by (induction xs) (auto split: sum.splits prod.splits)
  ultimately show ?thesis by (auto simp: all_gathered_def split: option.splits)
qed

text \<open>The earthquake adapter does not look at the date: an old list served from the cache brings the cursor back.\<close>

lemma usgs_older_than_cursor:
  "let res = fetch_recent_usgs_events (sample_net 3000000000 (JObj [(''features'', JArr [JObj [(''id'', JStr ''a''),
       (''properties'', JObj [(''time'', JInt 1000000)]), (''geometry'', JObj [(''coordinates'', JArr [JInt 1, JInt 2])])]])]))
       (Some 2000000000) empty_redis
   in map_sum id (map rec_event_date) (snd res) = Inr [1000000000]"
  by code_simp

text \<open>A time that cannot be read becomes the present time, and so the cursor.\<close>

lemma noaa_unreadable_time_is_now:
  "map_sum id (map_option rec_event_date) (noaa_record now start st (JObj [(''t'', JStr ''24/07/2026''), (''v'', JStr ''20'')])) =
     Inr (if now < start then None else Some now)"
proof -
  have "strptime fmt_minute ''24/07/2026'' = None" by code_simp
  then show ?thesis by (simp add: noaa_record_def dict_get_or_def json_str_def split: prod.splits)
qed

text \<open>The archive has no values for the last days. Such a day is stored without values, the later values meet
  a stored key, and calibration never finds a baseline for it.\<close>

lemma era5_null_day_has_no_baseline:
  "parse_era5_details (era5_details ''Tokyo'' (JStr ''2026-07-24'') JNull JNull JNull ''era5_tokyo_2026-07-24'') = (None, None, None)"
  by code_simp

text \<open>No source delivers events of floods or storms: whatever is ingested, the flood and the plume model are
  never calibrated.\<close>

lemma other_source_types:
  "dict_get source_event_type s = Some ty \<Longrightarrow> s \<notin> {''copernicus'', ''era5'', ''noaa''} \<Longrightarrow>
     ty = ''earthquake'' \<or> ty = ''civil_unrest_hazard_adjacent''"
  by (auto simp: source_event_type_def split: if_splits)

lemma no_flood_no_storm:
  assumes "ty = ''earthquake'' \<or> ty = ''civil_unrest_hazard_adjacent''"
  shows "\<not> str_contains (str_lower ty) ''flood'' \<and>
    \<not> list_ex (str_contains (str_lower ty)) [''wind'', ''storm'', ''hurricane'', ''tornado'']"
proof -
  have "\<not> str_contains (str_lower ''earthquake'') ''flood''" "\<not> str_contains (str_lower ''civil_unrest_hazard_adjacent'') ''flood''"
    "\<not> list_ex (str_contains (str_lower ''earthquake'')) [''wind'', ''storm'', ''hurricane'', ''tornado'']"
    "\<not> list_ex (str_contains (str_lower ''civil_unrest_hazard_adjacent'')) [''wind'', ''storm'', ''hurricane'', ''tornado'']"
    by code_simp+
  with assms show ?thesis by blast
qed

lemma skipped_without_samples: "calibrate_with L Y shuffle now m fit [] st = (st, Inr Skipped)"
  by (simp add: calibrate_with_def MIN_CALIBRATION_SAMPLES_def)

lemma flood_calibration_starved:
  assumes "reaches ingest_step \<lparr>hazard_rows = [], cursor_rows = []\<rparr> db"
    "run_calibration_job L Y shuffle now (hazard_rows db) st = (st', Inr summary)"
  shows "dict_get summary ''flood_extent'' = Some Skipped \<and> dict_get summary ''plume_dispersion'' = Some Skipped"
proof -
  let ?general = "filter (\<lambda>e. he_source e \<notin> Some ` {''copernicus'', ''era5'', ''noaa''}) (sort_key event_date (hazard_rows db))"
  have ok: "ingest_ok db" by (rule ingestion.reaches_inv [OF assms(1)]) (simp add: ingest_ok_def)
  have kinds: "he_event_type e = ''earthquake'' \<or> he_event_type e = ''civil_unrest_hazard_adjacent''" if e: "e \<in> set ?general" for e
  proof -
    obtain s where "he_source e = Some s" "dict_get source_event_type s = Some (he_event_type e)"
      using ok e by (auto simp: ingest_ok_def)
    then show ?thesis using e by (intro other_source_types) auto
  qed
  have "filter (\<lambda>h. str_contains (str_lower (he_event_type h)) ''flood'') ?general = []"
    "filter (\<lambda>h. list_ex (str_contains (str_lower (he_event_type h))) [''wind'', ''storm'', ''hurricane'', ''tornado'']) ?general = []"
    unfolding filter_empty_conv using kinds no_flood_no_storm by blast+
  then have "flood_samples ?general era5 = []" "plume_samples ?general era5 = []" for era5
    unfolding flood_samples_def plume_samples_def by (simp_all only: list.map concat.simps)
  then have "calibrate_flood L Y shuffle now ?general era5 = (\<lambda>st. (st, Inr Skipped))"
    "calibrate_plume L Y shuffle now ?general era5 = (\<lambda>st. (st, Inr Skipped))" for era5
    by (auto simp: calibrate_flood_def calibrate_plume_def skipped_without_samples fun_eq_iff)
  then show ?thesis using assms(2) unfolding run_calibration_job_def calibration_steps_def Let_def
    by (auto split: prod.splits sum.splits)
qed

end
