(* ===== verification/Literature_Ingestion.thy ===== *)
theory Literature_Ingestion
  imports Ingestion Literature "HOL-Library.List_Lexorder" "HOL-Library.Char_ord"
begin

text \<open>
  Ingestion of papers: the arXiv adapter (\<open>ingestion/scheduled/literature_sources/arxiv_open_access.py\<close>), the
  overlapping chunks and the job that stores them (\<open>workers/jobs/literature_ingestion_job.py\<close>), and the two
  seeders (\<open>ingestion/literature_seed.py\<close>, \<open>ingestion/hazard_event_seed.py\<close>). The XML parser is a
  parameter: a text is parsed to a tree or refused. Rows added in a session are not seen by its queries before
  the commit (\<open>autoflush=False\<close>).
\<close>

section \<open>Chunks\<close>

function chunks_from :: "int \<Rightarrow> int \<Rightarrow> string \<Rightarrow> nat \<Rightarrow> string list" where
  "chunks_from chunk_size chunk_overlap txt start =
     (if start < length txt
      then take (nat chunk_size) (drop start txt) #
           (if chunk_size \<le> chunk_overlap then []
            else chunks_from chunk_size chunk_overlap txt (start + nat (chunk_size - chunk_overlap)))
      else [])"
  by pat_completeness auto
termination
  by (relation "measure (\<lambda>(size_c, overlap, txt, start). length txt - start)") auto

declare chunks_from.simps [simp del]

definition text_chunks :: "string \<Rightarrow> int \<Rightarrow> int \<Rightarrow> string list" where
  "text_chunks txt chunk_size chunk_overlap = (if chunk_size \<le> 0 then [txt] else chunks_from chunk_size chunk_overlap txt 0)"

section \<open>The feed\<close>

datatype xml = Elem (xml_tag: string) (xml_attrib: "(string, string) dict") (xml_text: "string option") (xml_children: "xml list")

definition atom :: "string \<Rightarrow> string" where
  "atom name = ''{http://www.w3.org/2005/Atom}'' @ name"

definition xml_findall :: "string \<Rightarrow> xml \<Rightarrow> xml list" where
  "xml_findall tag e = filter (\<lambda>c. xml_tag c = tag) (xml_children e)"

definition xml_find :: "string \<Rightarrow> xml \<Rightarrow> xml option" where
  "xml_find tag e = find (\<lambda>c. xml_tag c = tag) (xml_children e)"

text \<open>The text of a child, when there is one and it is not empty.\<close>

definition child_text :: "string \<Rightarrow> xml \<Rightarrow> string option" where
  "child_text tag e = (case xml_find tag e of None \<Rightarrow> None
     | Some c \<Rightarrow> (case xml_text c of Some (x # xs) \<Rightarrow> Some (x # xs) | _ \<Rightarrow> None))"

record paper_record =
  pr_source_id :: string
  pr_title :: string
  pr_authors :: "string list"
  published_date :: py_datetime
  abstract_and_body :: string
  pr_source_url :: string
  pr_metadata :: "(string, json) dict"

text \<open>\<open>s.split(sep)[-1]\<close>.\<close>

function after_last :: "string \<Rightarrow> string \<Rightarrow> string \<Rightarrow> string" where
  "after_last sep acc s =
     (case s of [] \<Rightarrow> rev acc
      | c # cs \<Rightarrow> if sep \<noteq> [] \<and> starts_with s sep then after_last sep [] (drop (length sep) s)
                 else after_last sep (c # acc) cs)"
  by pat_completeness auto
termination
  by (relation "measure (\<lambda>(sep, acc, s). length s)") auto

declare after_last.simps [simp del]

definition read_date :: "string option \<Rightarrow> py_datetime \<Rightarrow> py_datetime" where
  "read_date txt dflt = (case txt of None \<Rightarrow> dflt
     | Some s \<Rightarrow> (case fromisoformat (str_replace ''Z'' ''+00:00'' (str_strip s)) of None \<Rightarrow> dflt | Some d \<Rightarrow> d))"

definition pdf_link :: "xml \<Rightarrow> bool" where
  "pdf_link l \<longleftrightarrow> (case dict_get (xml_attrib l) ''href'' of None \<Rightarrow> False | Some h \<Rightarrow> h \<noteq> []) \<and>
     (dict_get (xml_attrib l) ''title'' = Some ''pdf'' \<or> dict_get (xml_attrib l) ''type'' = Some ''application/pdf'' \<or>
      dict_get (xml_attrib l) ''rel'' = Some ''related'')"

definition entry_authors :: "xml \<Rightarrow> string list" where
  "entry_authors entry = List.map_filter (\<lambda>a. map_option str_strip (child_text (atom ''name'') a)) (xml_findall (atom ''author'') entry)"

text \<open>\<open>pub_date <= since\<close>, which raises for a date without offset.\<close>

definition not_new :: "int option \<Rightarrow> py_datetime \<Rightarrow> bool py" where
  "not_new since d = (case since of None \<Rightarrow> Inr False | Some s \<Rightarrow> py_bind (dt_instant d) (\<lambda>t. Inr (t \<le> s)))"

definition paper_of :: "int \<Rightarrow> int option \<Rightarrow> xml \<Rightarrow> paper_record option py" where
  "paper_of now since entry =
     (case xml_find (atom ''id'') entry of
        None \<Rightarrow> Inr None
      | Some i \<Rightarrow>
          (case xml_text i of
             None \<Rightarrow> Inr None
           | Some raw \<Rightarrow>
               (let raw_url = str_strip raw; arxiv_id = after_last ''/abs/'' [] raw_url;
                    ttl = (case child_text (atom ''title'') entry of None \<Rightarrow> ''Unknown''
                           | Some t \<Rightarrow> str_replace [char_of (10 :: int)] '' '' (str_strip t));
                    summary = (case child_text (atom ''summary'') entry of None \<Rightarrow> [] | Some t \<Rightarrow> str_strip t);
                    authors = entry_authors entry;
                    pub_date = read_date (child_text (atom ''published'') entry) (Aware now 0);
                    updated = read_date (child_text (atom ''updated'') entry) pub_date;
                    pdf_url = (case find pdf_link (xml_findall (atom ''link'') entry) of None \<Rightarrow> raw_url
                               | Some l \<Rightarrow> dict_get_or (xml_attrib l) ''href'' []);
                    cat = (case xml_find ''{http://arxiv.org/schemas/atom}primary_category'' entry of None \<Rightarrow> ''unknown''
                           | Some c \<Rightarrow> dict_get_or (xml_attrib c) ''term'' ''unknown'')
                in py_bind (not_new since pub_date) (\<lambda>skip.
                     if skip then Inr None
                     else Inr (Some \<lparr>pr_source_id = arxiv_id, pr_title = ttl, pr_authors = authors, published_date = pub_date,
                            abstract_and_body = ''Title: '' @ ttl @ [char_of (10 :: int)] @ ''Abstract: '' @ summary, pr_source_url = pdf_url,
                            pr_metadata = [(''arxiv_id'', JStr arxiv_id), (''primary_category'', JStr cat),
                              (''updated_date'', JStr (dt_isoformat updated)), (''authors'', JArr (map JStr authors)),
                              (''abstract'', JStr summary)]\<rparr>)))))"

text \<open>\<open>papers.sort(key=lambda p: p.published_date)\<close>: dates with and without offset do not compare.\<close>

definition dt_value :: "py_datetime \<Rightarrow> int" where
  "dt_value d = (case d of Naive t \<Rightarrow> t | Aware t _ \<Rightarrow> t)"

definition is_aware :: "py_datetime \<Rightarrow> bool" where
  "is_aware d = (case d of Naive _ \<Rightarrow> False | Aware _ _ \<Rightarrow> True)"

definition sort_papers :: "paper_record list \<Rightarrow> paper_record list py" where
  "sort_papers ps =
     (if list_all (\<lambda>p. is_aware (published_date p)) ps \<or> list_all (\<lambda>p. \<not> is_aware (published_date p)) ps
      then Inr (sort_key (\<lambda>p. dt_value (published_date p)) ps)
      else Inl (Type_Error ''can't compare offset-naive and offset-aware datetimes''))"

record literature_settings =
  enable_arxiv_ingestion :: bool
  arxiv_api_url :: string
  arxiv_categories :: "string list"
  arxiv_max_results :: int
  lit_chunk_size :: int
  lit_chunk_overlap :: int

definition rstrip_slash :: "string \<Rightarrow> string" where
  "rstrip_slash s = rev (dropWhile (\<lambda>c. c = CHR ''/'') (rev s))"

definition get_arxiv_feed :: "net \<Rightarrow> literature_settings \<Rightarrow> redis_store \<Rightarrow> redis_store \<times> resilient_result py" where
  "get_arxiv_feed n cfg rs =
     (let rq = \<lparr>rq_url = rstrip_slash (arxiv_api_url cfg),
                rq_params = [(''search_query'', JStr (str_join '' OR '' (map (\<lambda>c. ''cat:'' @ c) (arxiv_categories cfg)))),
                  (''sortBy'', JStr ''lastUpdatedDate''), (''sortOrder'', JStr ''descending''),
                  (''max_results'', JStr (int_str (arxiv_max_results cfg)))],
                rq_headers = []\<rparr>
      in call_source n ''arxiv'' rq (\<lambda>r. py_bind (raise_for_status r) (\<lambda>_. Inr (JStr (resp_text r))))
           (''feed:'' @ str_join '','' (sort (arxiv_categories cfg))) rs)"

definition fetch_new_arxiv_papers ::
    "net \<Rightarrow> literature_settings \<Rightarrow> (string \<Rightarrow> xml option) \<Rightarrow> int option \<Rightarrow> redis_store \<Rightarrow> redis_store \<times> paper_record list py" where
  "fetch_new_arxiv_papers n cfg parse since rs =
     (case get_arxiv_feed n cfg rs of (rs1, res) \<Rightarrow>
        (rs1, py_bind res (\<lambda>r.
           case rr_value r of
             JStr (c # cs) \<Rightarrow>
               (case parse (c # cs) of
                  None \<Rightarrow> Inr []
                | Some feed \<Rightarrow> py_bind (all_gathered (gather (paper_of (net_now n) since) (xml_findall (atom ''entry'') feed))) sort_papers)
           | _ \<Rightarrow> Inr [])))"

section \<open>The job\<close>

record lit_db =
  lit_rows :: "literature_chunk list"
  lit_cursors :: "(string, int) dict"

datatype literature_report = Literature_Disabled | Literature_Done nat nat

text \<open>The rows of one paper; the metadata of the paper is merged into that of the chunk.\<close>

definition paper_rows :: "(nat \<Rightarrow> uuid) \<Rightarrow> nat \<Rightarrow> paper_record \<Rightarrow> string list \<Rightarrow> flt list list \<Rightarrow> literature_chunk list" where
  "paper_rows ids k p chunks embeddings =
     map (\<lambda>(idx, txt, emb).
       \<lparr>lc_id = ids (k + idx), lc_document_id = ''arxiv_'' @ pr_source_id p, lc_source_id = Some (pr_source_id p), chunk_text = txt,
        lc_embedding = Some emb, lc_source_url = Some (pr_source_url p),
        lc_metadata = JObj (fold (\<lambda>(key, v) d. dict_set key v d) (pr_metadata p)
          [(''title'', JStr (pr_title p)), (''chunk_id'', JInt (int idx + 1)), (''authors'', JArr (map JStr (pr_authors p)))])\<rparr>)
       (enumerate 0 (zip chunks embeddings))"

text \<open>The loop over the papers: the duplicates are looked up in the table as it was committed.\<close>

fun ingest_papers ::
    "(string list \<Rightarrow> flt list list py) \<Rightarrow> literature_settings \<Rightarrow> (nat \<Rightarrow> uuid) \<Rightarrow> literature_chunk list \<Rightarrow> paper_record list \<Rightarrow>
     literature_chunk list \<Rightarrow> paper_record list \<Rightarrow> (literature_chunk list \<times> paper_record list) py" where
  "ingest_papers embedder cfg ids t [] added ok = Inr (added, ok)"
| "ingest_papers embedder cfg ids t (p # ps) added ok =
     (if Some (pr_source_id p) \<in> lc_source_id ` set t then ingest_papers embedder cfg ids t ps added ok
      else let chunks = text_chunks (abstract_and_body p) (lit_chunk_size cfg) (lit_chunk_overlap cfg)
           in if chunks = [] then ingest_papers embedder cfg ids t ps added ok
              else py_bind (embedder chunks) (\<lambda>embeddings.
                if length embeddings \<noteq> length chunks then Inl (Value_Error ''zip() argument 2 has a different length'')
                else ingest_papers embedder cfg ids t ps (added @ paper_rows ids (length t + length added) p chunks embeddings) (ok @ [p])))"

text \<open>The cursor of the latest paper ingested; the driver refuses a date without offset.\<close>

definition advance_cursor :: "string \<Rightarrow> paper_record list \<Rightarrow> (string, int) dict \<Rightarrow> (string, int) dict py" where
  "advance_cursor source ps cs =
     (if ps = [] then Inr cs
      else if list_all (\<lambda>p. is_aware (published_date p)) ps
      then Inr (dict_set source (Max ((\<lambda>p. dt_value (published_date p)) ` set ps)) cs)
      else Inl (Other_Error ''DataError''))"

definition run_literature_ingestion_job ::
    "net \<Rightarrow> literature_settings \<Rightarrow> (string \<Rightarrow> xml option) \<Rightarrow> (string list \<Rightarrow> flt list list py) \<Rightarrow> (nat \<Rightarrow> uuid) \<Rightarrow> string \<Rightarrow>
     redis_store \<Rightarrow> lit_db \<Rightarrow> redis_store \<times> lit_db \<times> literature_report py" where
  "run_literature_ingestion_job n cfg parse embedder ids source rs db =
     (if \<not> enable_arxiv_ingestion cfg then (rs, db, Inr Literature_Disabled)
      else case fetch_new_arxiv_papers n cfg parse (dict_get (lit_cursors db) (source_clean source)) rs of
             (rs1, Inl e) \<Rightarrow> (rs1, db, Inl e)
           | (rs1, Inr papers) \<Rightarrow>
               (case py_bind (ingest_papers embedder cfg ids (lit_rows db) papers [] []) (\<lambda>(added, ok).
                     py_bind (advance_cursor (source_clean source) ok (lit_cursors db)) (\<lambda>cs. Inr (added, ok, cs))) of
                  Inl e \<Rightarrow> (rs1, db, Inl e)
                | Inr (added, ok, cs) \<Rightarrow>
                    (rs1, \<lparr>lit_rows = lit_rows db @ added, lit_cursors = cs\<rparr>, Inr (Literature_Done (length papers) (length ok)))))"

section \<open>Seeders\<close>

text \<open>The papers of the seeder: document, title, address, text.\<close>

definition MOCK_PAPERS :: "(string \<times> string \<times> string \<times> string) list" where
  "MOCK_PAPERS =
     [(''paper_tokyo_seismic_2025'', ''A Study on Seismic Vulnerability and High-Magnitude Earthquake Probability in Tokyo (2025)'',
       ''https://science.planetaryrisk.org/papers/tokyo-seismic-2025.pdf'',
       ''The metropolitan area of Tokyo is situated directly above a complex convergent plate boundary. '' @
        ''Over the past decade, seismic measurements show a steady build-up of strain across the fault '' @
        ''lines. We calculate a 70% probability of a magnitude 7.0 or greater earthquake occurring within'' @
        '' the next 30 years. Local building codes have been upgraded, but soft-soil regions near the '' @
        ''coast remain vulnerable to liquefaction. In addition, secondary tsunami waves present a '' @
        ''significant risk to low-lying bayside infrastructure.''),
      (''paper_california_wildfires_2026'', ''Atmospheric Temperature Increases and Wildfire Propagation Dynamics in California (2026)'',
       ''https://science.planetaryrisk.org/papers/california-wildfires-2026.pdf'',
       ''Climate modeling indicates that average atmospheric temperatures in California have risen by '' @
        ''1.5 degrees Celsius over the historical baseline. This warming trend, coupled with prolonged '' @
        ''periods of drought, results in extremely low fuel moisture levels. During high-wind events, '' @
        ''wildfires propagate at accelerated speeds, often exceeding 10 kilometers per hour. Analysis of '' @
        ''recent fire perimeters reveals that forest density and dry shrub accumulation are the primary '' @
        ''drivers of fire intensity, outstripping regional weather variances.''),
      (''paper_ocean_marine_heatwaves_2025'', ''Marine Heatwaves and Sea Surface Temperature Anomalies in the Western Pacific (2025)'',
       ''https://science.planetaryrisk.org/papers/ocean-heatwaves-2025.pdf'',
       ''Sea surface temperatures (SST) in the Western Pacific have registered persistent anomalies '' @
        ''exceeding +2.5 degrees Celsius during summer months. These marine heatwaves disrupt regional '' @
        ''marine ecosystems, triggering massive coral bleaching events and shifting fish migration '' @
        ''patterns. High-resolution satellite imagery confirms that these thermal plumes are expanding in'' @
        '' area. The correlation between increased ocean temperature and severe storm intensity is '' @
        ''well-documented, indicating a high risk of category 4 typhoons in the region.'')]"

definition seed_paper ::
    "(string \<Rightarrow> flt list py) \<Rightarrow> int \<Rightarrow> int \<Rightarrow> string \<times> string \<times> string \<times> string \<Rightarrow> seed_chunk list py" where
  "seed_paper embed_one chunk_size chunk_overlap p =
     (case p of (doc_id, ttl, url, txt) \<Rightarrow>
        py_sequence (map (\<lambda>(idx, c). py_bind (embed_one c) (\<lambda>v.
            Inr \<lparr>sc_document_id = doc_id, sc_chunk_text = c, sc_embedding = Some v, sc_source_url = Some url,
                 sc_metadata = JObj [(''title'', JStr ttl), (''chunk_id'', JInt (int idx + 1))]\<rparr>))
          (enumerate 0 (text_chunks txt chunk_size chunk_overlap))))"

definition run_seeder ::
    "(string \<Rightarrow> flt list py) \<Rightarrow> int \<Rightarrow> int \<Rightarrow> (nat \<Rightarrow> uuid) \<Rightarrow> literature_chunk list \<Rightarrow> literature_chunk list py" where
  "run_seeder embed_one chunk_size chunk_overlap ids t =
     py_bind (py_sequence (map (seed_paper embed_one chunk_size chunk_overlap) MOCK_PAPERS)) (\<lambda>prepared.
       Inr (seed_chunks ids (concat prepared) t))"

text \<open>The hazard graph: type, place, date and details of the events, and the relationships between them by
  position, with type and confidence. The place goes into the geometry column: \<open>geometry_of\<close> is the reading of a
  text as a geometry by the database.\<close>

definition SEED_EVENTS :: "(string \<times> string \<times> int \<times> string) list" where
  "SEED_EVENTS =
     (let day = (\<lambda>y m d. days_of_civil y m d * 86400000000)
      in [(''earthquake'', ''Tokyo'', day 2023 9 1, ''Magnitude 7.2 earthquake slip off the coast of Tokyo.''),
          (''landslide'', ''Tokyo'', day 2023 9 1, ''Hillside collapse triggers massive debris landslide.''),
          (''river blockage'', ''Tokyo'', day 2023 9 1, ''Tama River blockage caused by landslide debris accumulation.''),
          (''flood'', ''Tokyo'', day 2023 9 2, ''River overflow inundates low-lying residential regions.''),
          (''marine heatwave'', ''California'', day 2024 7 10, ''Sea surface temperature anomalies exceed +3.0C in the Pacific.''),
          (''coral bleaching'', ''California'', day 2024 7 20, ''Severe thermal stress triggers widespread bleaching in reef structures.''),
          (''fish mortality'', ''California'', day 2024 8 1, ''High fish mortality rates linked to oxygen depletion and habitat loss.'')])"

definition SEED_RELATIONSHIPS :: "(nat \<times> nat \<times> string \<times> rat) list" where
  "SEED_RELATIONSHIPS = [(0, 1, ''triggered'', 85/100), (1, 2, ''preceded'', 90/100), (2, 3, ''triggered'', 95/100),
     (4, 5, ''triggered'', 92/100), (5, 6, ''correlated_with'', 80/100)]"

definition seed_event :: "(string \<Rightarrow> 'g option) \<Rightarrow> (nat \<Rightarrow> uuid) \<Rightarrow> nat \<times> string \<times> string \<times> int \<times> string \<Rightarrow> 'g hazard_event py" where
  "seed_event geometry_of ids ev =
     (case ev of (i, ty, place, date, details) \<Rightarrow>
        (case geometry_of place of
           None \<Rightarrow> Inl (Other_Error ''InternalError: parse error - invalid geometry'')
         | Some g \<Rightarrow> Inr \<lparr>he_id = ids i, he_event_type = ty, he_region = Some g, region_label = None, event_date = date,
                        he_details = Some details, he_source = None, external_id = None\<rparr>))"

definition seed_relationship :: "(nat \<Rightarrow> uuid) \<Rightarrow> nat \<times> nat \<times> nat \<times> string \<times> rat \<Rightarrow> hazard_relationship" where
  "seed_relationship ids rel = (case rel of (i, parent, child, ty, conf) \<Rightarrow>
     \<lparr>hr_id = ids (length SEED_EVENTS + i), parent_id = ids parent, child_id = ids child, relationship_type = ty, hr_confidence = conf\<rparr>)"

definition seed_hazard_graph ::
    "(string \<Rightarrow> 'g option) \<Rightarrow> (nat \<Rightarrow> uuid) \<Rightarrow> 'g hazard_event list \<times> hazard_relationship list \<Rightarrow>
     ('g hazard_event list \<times> hazard_relationship list) py" where
  "seed_hazard_graph geometry_of ids db =
     (if fst db \<noteq> [] then Inr db
      else py_bind (py_sequence (map (seed_event geometry_of ids) (enumerate 0 SEED_EVENTS))) (\<lambda>events.
        Inr (events, snd db @ map (seed_relationship ids) (enumerate 0 SEED_RELATIONSHIPS))))"

section \<open>Chunks cover the text\<close>

text \<open>Undoing the overlap: every chunk but the first loses what it shares with the one before.\<close>

fun reassembled :: "nat \<Rightarrow> string list \<Rightarrow> string" where
  "reassembled k [] = []"
| "reassembled k (c # cs) = c @ concat (map (drop k) cs)"

lemma chunks_head:
  "chunks_from size_c overlap txt start = c # cs \<Longrightarrow> c = take (nat size_c) (drop start txt)"
  by (subst (asm) chunks_from.simps) (auto split: if_splits)

lemma chunks_from_Nil: "length txt \<le> start \<Longrightarrow> chunks_from size_c overlap txt start = []"
  by (subst chunks_from.simps) simp

lemma tail_covers:
  assumes "overlap < size_c" "reassembled (nat overlap) (chunks_from size_c overlap txt k) = drop k txt"
  shows "concat (map (drop (nat overlap)) (chunks_from size_c overlap txt k)) = drop (nat overlap) (drop k txt)"
proof (cases "chunks_from size_c overlap txt k")
  case (Cons c cs)
  have c: "c = take (nat size_c) (drop k txt)" by (rule chunks_head [OF Cons])
  have all: "c @ concat (map (drop (nat overlap)) cs) = drop k txt" using assms(2) Cons by simp
  show ?thesis
  proof (cases "nat overlap \<le> length c")
    case True
    then show ?thesis by (simp add: Cons flip: all)
  next
    case False
    then have "c = drop k txt" using c assms(1) by (simp add: min_def split: if_splits)
    then have "concat (map (drop (nat overlap)) cs) = []" using all by simp
    then show ?thesis using False \<open>c = drop k txt\<close> by (simp add: Cons)
  qed
qed (use assms(2) in simp)

lemma reassembled_from:
  assumes "0 \<le> overlap" "overlap < size_c"
  shows "reassembled (nat overlap) (chunks_from size_c overlap txt start) = drop start txt"
proof (induction "length txt - start" arbitrary: start rule: less_induct)
  case less
  show ?case
  proof (cases "start < length txt")
    case True
    let ?k = "start + nat (size_c - overlap)"
    have IH: "reassembled (nat overlap) (chunks_from size_c overlap txt ?k) = drop ?k txt"
      using less [of ?k] True assms(2) by simp
    have sum: "nat overlap + ?k = start + nat size_c" using assms by simp
    have "chunks_from size_c overlap txt start = take (nat size_c) (drop start txt) # chunks_from size_c overlap txt ?k"
      using True assms(2) by (subst chunks_from.simps) simp
    then have "reassembled (nat overlap) (chunks_from size_c overlap txt start) =
        take (nat size_c) (drop start txt) @ drop (nat overlap) (drop ?k txt)"
      using tail_covers [OF assms(2) IH] by simp
    also have "drop (nat overlap) (drop ?k txt) = drop (nat size_c) (drop start txt)"
      unfolding drop_drop sum by (simp add: add.commute)
    finally show ?thesis by (simp only: append_take_drop_id)
  qed (simp add: chunks_from_Nil)
qed

lemma chunk_sizes:
  "0 < size_c \<Longrightarrow> c \<in> set (chunks_from size_c overlap txt start) \<Longrightarrow> c \<noteq> [] \<and> length c \<le> nat size_c"
proof (induction "length txt - start" arbitrary: start rule: less_induct)
  case less
  show ?case
  proof (cases "start < length txt")
    case True
    from less.prems(2) consider "c = take (nat size_c) (drop start txt)"
      | "overlap < size_c" "c \<in> set (chunks_from size_c overlap txt (start + nat (size_c - overlap)))"
      using True by (subst (asm) chunks_from.simps) (auto split: if_splits)
    then show ?thesis
    proof cases
      case 1
      then show ?thesis using True less.prems(1) by (auto simp: take_eq_Nil)
    next
      case 2
      then show ?thesis using less.hyps [of "start + nat (size_c - overlap)"] True less.prems(1) by auto
    qed
  qed (use less.prems(2) in \<open>simp add: chunks_from_Nil\<close>)
qed

text \<open>C30: chunking loses nothing. For a positive size and an overlap below it, every chunk is non-empty and at most
  as long as the size, and the chunks without their overlaps, put together, are the text.\<close>

theorem text_chunks_cover:
  assumes "0 \<le> chunk_overlap" "chunk_overlap < chunk_size"
  shows "reassembled (nat chunk_overlap) (text_chunks txt chunk_size chunk_overlap) = txt \<and>
    (\<forall>c\<in>set (text_chunks txt chunk_size chunk_overlap). c \<noteq> [] \<and> length c \<le> nat chunk_size)"
  using reassembled_from [OF assms, of "txt" 0] chunk_sizes [of chunk_size] assms by (auto simp: text_chunks_def)

theorem text_chunks_cover_witness:
  "text_chunks ''abcdefgh'' 4 1 = [''abcd'', ''defg'', ''gh''] \<and> reassembled 1 (text_chunks ''abcdefgh'' 4 1) = ''abcdefgh''"
proof -
  have "text_chunks ''abcdefgh'' 4 1 = [''abcd'', ''defg'', ''gh'']" by code_simp
  then show ?thesis using text_chunks_cover [of 1 4 "''abcdefgh''"] by simp
qed

text \<open>An overlap that is not below the size keeps the first chunk only; nothing checks the settings for it.\<close>

lemma large_overlap_loses_text:
  "0 < chunk_size \<Longrightarrow> chunk_size \<le> chunk_overlap \<Longrightarrow> txt \<noteq> [] \<Longrightarrow>
     text_chunks txt chunk_size chunk_overlap = [take (nat chunk_size) txt]"
  by (simp add: text_chunks_def chunks_from.simps)

section \<open>The job\<close>

definition stored_paper :: "literature_settings \<Rightarrow> paper_record \<Rightarrow> literature_chunk list \<Rightarrow> bool" where
  "stored_paper cfg p rows \<longleftrightarrow> map chunk_text rows = text_chunks (abstract_and_body p) (lit_chunk_size cfg) (lit_chunk_overlap cfg) \<and>
     (\<forall>c\<in>set rows. lc_source_id c = Some (pr_source_id p) \<and> lc_document_id c = ''arxiv_'' @ pr_source_id p)"

lemma map_snd_enumerate: "map (\<lambda>(i, x). f x) (enumerate k xs) = map f xs"
  by (induction xs arbitrary: k) simp_all

lemma paper_rows_stored:
  assumes "chunks = text_chunks (abstract_and_body p) (lit_chunk_size cfg) (lit_chunk_overlap cfg)" "length embeddings = length chunks"
  shows "stored_paper cfg p (paper_rows ids k p chunks embeddings)"
proof -
  have "map chunk_text (paper_rows ids k p chunks embeddings) = map (\<lambda>(i, x). fst x) (enumerate 0 (zip chunks embeddings))"
    by (simp add: paper_rows_def case_prod_beta)
  also have "\<dots> = map fst (zip chunks embeddings)" by (rule map_snd_enumerate)
  also have "\<dots> = chunks" using assms(2) by simp
  finally show ?thesis using assms(1) by (auto simp: stored_paper_def paper_rows_def)
qed

text \<open>The new papers, in order, with their rows.\<close>

definition fresh_papers :: "literature_settings \<Rightarrow> literature_chunk list \<Rightarrow> paper_record list \<Rightarrow> paper_record list" where
  "fresh_papers cfg t ps = filter (\<lambda>p. Some (pr_source_id p) \<notin> lc_source_id ` set t \<and>
     text_chunks (abstract_and_body p) (lit_chunk_size cfg) (lit_chunk_overlap cfg) \<noteq> []) ps"

lemma ingest_papers_spec:
  "ingest_papers embedder cfg ids t ps added ok = Inr (added', ok') \<Longrightarrow>
     \<exists>groups. added' = added @ concat groups \<and> ok' = ok @ fresh_papers cfg t ps \<and>
       list_all2 (stored_paper cfg) (fresh_papers cfg t ps) groups"
proof (induction ps arbitrary: added ok)
  case Nil
  then show ?case by (intro exI [of _ "[]"]) (simp add: fresh_papers_def)
next
  case (Cons p ps)
  let ?chunks = "text_chunks (abstract_and_body p) (lit_chunk_size cfg) (lit_chunk_overlap cfg)"
  show ?case
  proof (cases "Some (pr_source_id p) \<in> lc_source_id ` set t \<or> ?chunks = []")
    case True
    then have "ingest_papers embedder cfg ids t ps added ok = Inr (added', ok')" "fresh_papers cfg t (p # ps) = fresh_papers cfg t ps"
      using Cons.prems by (auto simp: fresh_papers_def split: if_splits)
    then show ?thesis using Cons.IH by simp
  next
    case False
    from Cons.prems False obtain embeddings where len: "length embeddings = length ?chunks"
      and rest: "ingest_papers embedder cfg ids t ps
        (added @ paper_rows ids (length t + length added) p ?chunks embeddings) (ok @ [p]) = Inr (added', ok')"
      by (auto simp: Let_def py_bind_Inr_iff split: if_splits)
    from Cons.IH [OF rest] obtain groups where
      "added' = (added @ paper_rows ids (length t + length added) p ?chunks embeddings) @ concat groups"
      "ok' = (ok @ [p]) @ fresh_papers cfg t ps" "list_all2 (stored_paper cfg) (fresh_papers cfg t ps) groups" by blast
    then show ?thesis using paper_rows_stored [OF refl len] False
      by (intro exI [of _ "paper_rows ids (length t + length added) p ?chunks embeddings # groups"]) (simp add: fresh_papers_def)
  qed
qed

text \<open>a literature job that raises leaves the tables as they are. One that ends has appended, for exactly the
  fetched papers whose identifier was not stored, all their chunks in order under that identifier, has counted
  them, and has moved the cursor of its source to the latest publication among them, if any.\<close>

theorem literature_job_contract:
  assumes "run_literature_ingestion_job n cfg parse embedder ids source rs db = (rs', db', res)"
  shows "case res of
      Inl e \<Rightarrow> db' = db
    | Inr Literature_Disabled \<Rightarrow> db' = db \<and> \<not> enable_arxiv_ingestion cfg
    | Inr (Literature_Done fetched inserted) \<Rightarrow>
        \<exists>papers groups. fetch_new_arxiv_papers n cfg parse (dict_get (lit_cursors db) (source_clean source)) rs = (rs', Inr papers) \<and>
          fetched = length papers \<and> inserted = length (fresh_papers cfg (lit_rows db) papers) \<and>
          list_all2 (stored_paper cfg) (fresh_papers cfg (lit_rows db) papers) groups \<and>
          lit_rows db' = lit_rows db @ concat groups \<and>
          advance_cursor (source_clean source) (fresh_papers cfg (lit_rows db) papers) (lit_cursors db) = Inr (lit_cursors db')"
proof -
  let ?fetch = "fetch_new_arxiv_papers n cfg parse (dict_get (lit_cursors db) (source_clean source)) rs"
  let ?loop = "ingest_papers embedder cfg ids (lit_rows db)"
  obtain rs1 r where f: "?fetch = (rs1, r)" by (cases ?fetch)
  show ?thesis
  proof (cases "enable_arxiv_ingestion cfg")
    case True
    show ?thesis
    proof (cases r)
      case (Inl e)
      then show ?thesis using assms True f by (auto simp: run_literature_ingestion_job_def)
    next
      case (Inr papers)
      let ?work = "py_bind (?loop papers [] []) (\<lambda>(added, ok).
        py_bind (advance_cursor (source_clean source) ok (lit_cursors db)) (\<lambda>cs. Inr (added, ok, cs)))"
      have job: "(rs', db', res) = (case ?work of Inl e \<Rightarrow> (rs1, db, Inl e)
          | Inr (added, ok, cs) \<Rightarrow> (rs1, \<lparr>lit_rows = lit_rows db @ added, lit_cursors = cs\<rparr>, Inr (Literature_Done (length papers) (length ok))))"
        using assms True f Inr by (simp add: run_literature_ingestion_job_def)
      show ?thesis
      proof (cases ?work)
        case (Inl e)
        then show ?thesis using job by simp
      next
        case work: (Inr w)
        then obtain added ok cs where w: "?loop papers [] [] = Inr (added, ok)"
          "advance_cursor (source_clean source) ok (lit_cursors db) = Inr cs" "w = (added, ok, cs)"
          by (auto simp: py_bind_Inr_iff)
        from ingest_papers_spec [OF w(1)] obtain groups where groups: "added = concat groups" "ok = fresh_papers cfg (lit_rows db) papers"
          "list_all2 (stored_paper cfg) (fresh_papers cfg (lit_rows db) papers) groups" by auto
        have res: "res = Inr (Literature_Done (length papers) (length ok))" "rs' = rs1"
          "db' = \<lparr>lit_rows = lit_rows db @ added, lit_cursors = cs\<rparr>" using job unfolding work w(3) by simp_all
        show ?thesis unfolding res(1) sum.case literature_report.case using f Inr w(2) groups res(2,3)
          by (intro exI [of _ papers] exI [of _ groups] conjI) simp_all
      qed
    qed
  qed (use assms in \<open>auto simp: run_literature_ingestion_job_def\<close>)
qed

section \<open>A run\<close>

definition sample_entry :: xml where
  "sample_entry = Elem (atom ''entry'') [] None
     [Elem (atom ''id'') [] (Some ''http://arxiv.org/abs/2401.01234v1'') [], Elem (atom ''title'') [] (Some ''Ice'') [],
      Elem (atom ''published'') [] (Some ''2024-01-02T03:04:05Z'') []]"

definition sample_literature_cfg :: literature_settings where
  "sample_literature_cfg = \<lparr>enable_arxiv_ingestion = True, arxiv_api_url = ''https://arxiv/'', arxiv_categories = [''physics.ao-ph''],
     arxiv_max_results = 50, lit_chunk_size = 12, lit_chunk_overlap = 2\<rparr>"

definition sample_literature_job :: "xml list \<Rightarrow> redis_store \<times> lit_db \<times> literature_report py" where
  "sample_literature_job entries =
     run_literature_ingestion_job
       (sample_net 1784919600000000 JNull\<lparr>net_http := (\<lambda>_ _. Inr \<lparr>status_code = 200, resp_json = Inr JNull, resp_text = ''<feed>''\<rparr>)\<rparr>)
       sample_literature_cfg (\<lambda>_. Some (Elem (atom ''feed'') [] None entries)) (\<lambda>cs. Inr (map (\<lambda>_. [1]) cs)) (\<lambda>k. k)
       ''arxiv'' empty_redis \<lparr>lit_rows = [], lit_cursors = []\<rparr>"

lemma sample_literature_result: "snd (snd (sample_literature_job [sample_entry])) = Inr (Literature_Done 1 1)"
  by code_simp

theorem literature_job_contract_witness:
  "\<exists>p rows. lit_rows (fst (snd (sample_literature_job [sample_entry]))) = rows \<and> stored_paper sample_literature_cfg p rows"
proof -
  obtain rs' db' where run: "sample_literature_job [sample_entry] = (rs', db', Inr (Literature_Done 1 1))"
    using sample_literature_result by (metis prod.collapse)
  from literature_job_contract [OF run [unfolded sample_literature_job_def]] obtain papers groups where
    out: "1 = length (fresh_papers sample_literature_cfg [] papers)"
    "list_all2 (stored_paper sample_literature_cfg) (fresh_papers sample_literature_cfg [] papers) groups" "lit_rows db' = concat groups"
    unfolding sum.case literature_report.case lit_db.simps append_Nil by (elim exE conjE) (rule that)
  then obtain p where p: "fresh_papers sample_literature_cfg [] papers = [p]" by (cases "fresh_papers sample_literature_cfg [] papers") auto
  then obtain rows where "groups = [rows]" "stored_paper sample_literature_cfg p rows" using out(2) by (auto simp: list_all2_Cons1)
  then show ?thesis using run out(3) by auto
qed

text \<open>The look-up of duplicates does not see the rows of the same run: an entry that a feed lists twice is stored
  twice.\<close>

lemma repeated_entry_stored_twice:
  "snd (snd (sample_literature_job [sample_entry, sample_entry])) = Inr (Literature_Done 2 2)"
  by code_simp

section \<open>Seeding\<close>

lemma run_seeder_idempotent:
  "run_seeder embed_one chunk_size chunk_overlap ids t = Inr t' \<Longrightarrow> run_seeder embed_one chunk_size chunk_overlap ids' t' = Inr t'"
  by (auto simp: run_seeder_def py_bind_Inr_iff seed_chunks_idempotent)

lemma seed_hazard_graph_idempotent:
  assumes "seed_hazard_graph geometry_of ids db = Inr db'"
  shows "seed_hazard_graph geometry_of ids' db' = Inr db'"
proof (cases "fst db = []")
  case True
  with assms obtain events where "py_sequence (map (seed_event geometry_of ids) (enumerate 0 SEED_EVENTS)) = Inr events" "fst db' = events"
    by (auto simp: seed_hazard_graph_def py_bind_Inr_iff)
  moreover have "py_sequence ms = Inr xs \<Longrightarrow> length xs = length ms" for ms :: "'a hazard_event py list" and xs
    by (induction ms arbitrary: xs) (auto simp: py_bind_Inr_iff)
  ultimately have "length (fst db') = length SEED_EVENTS" by fastforce
  then have "fst db' \<noteq> []" by (auto simp: SEED_EVENTS_def Let_def)
  then show ?thesis by (simp add: seed_hazard_graph_def)
qed (use assms in \<open>auto simp: seed_hazard_graph_def\<close>)

text \<open>The place of a seeded event is written to the geometry column, so a database that does not read its name as a
  geometry refuses the whole seed.\<close>

lemma seed_needs_geometry:
  assumes "geometry_of ''Tokyo'' = None"
  shows "\<exists>e. seed_hazard_graph geometry_of ids ([], rels) = Inl e"
  using assms by (simp add: seed_hazard_graph_def SEED_EVENTS_def Let_def seed_event_def py_bind_def)

end
