(* ===== verification/Scheduler.thy ===== *)
theory Scheduler
  imports Prelude
begin

text \<open>
  The scheduler of the recurring jobs (\<open>workers/scheduler.py\<close>) and the entry points it names
  (\<open>workers/jobs/*.py\<close>, \<open>workers/scaling_policy.py\<close>). The store of scheduled jobs is the list of its jobs; each
  look-up of the store may fail, which is a parameter. Of an entry point, the number of positional
  arguments it takes is recorded.
\<close>

section \<open>Jobs\<close>

datatype recurrence = Every int | Cron string

record scheduled_job =
  sj_func :: string
  sj_args :: "string list"
  sj_recurrence :: recurrence
  sj_first :: "int option"

record scheduler_settings =
  ingestion_poll_interval_hours :: int
  alert_evaluation_interval_minutes :: int
  backup_cron :: string
  restore_drill_cron :: string
  scaling_summary_interval_s :: int
  simulation_calibration_interval_days :: int
  pattern_mining_interval_hours :: int

text \<open>A failing look-up is logged and counts as not scheduled.\<close>

definition is_job_already_scheduled :: "bool \<Rightarrow> scheduled_job list \<Rightarrow> string \<Rightarrow> string \<Rightarrow> bool" where
  "is_job_already_scheduled up jobs func source \<longleftrightarrow>
     up \<and> list_ex (\<lambda>j. sj_func j = func \<and> sj_args j \<noteq> [] \<and> hd (sj_args j) = source) jobs"

definition ingestion_sources :: "string list" where
  "ingestion_sources = [''usgs'', ''noaa'', ''copernicus'', ''era5'', ''gdelt'']"

text \<open>The registrations of \<open>main\<close>, in order: function, source, recurrence and the delay in seconds to the first
  run of an interval.\<close>

definition registrations :: "scheduler_settings \<Rightarrow> (string \<times> string \<times> recurrence \<times> int option) list" where
  "registrations cfg =
     (let poll = Every (ingestion_poll_interval_hours cfg * 3600)
      in map (\<lambda>s. (''workers.jobs.ingestion_jobs.run_ingestion_job'', s, poll, Some 10)) ingestion_sources @
         [(''workers.jobs.literature_ingestion_job.run_literature_ingestion_job'', ''arxiv'', poll, Some 25),
          (''workers.jobs.alert_evaluation_job.run_alert_evaluation_job'', ''alert_evaluation'',
             Every (alert_evaluation_interval_minutes cfg * 60), Some 15),
          (''workers.jobs.backup_jobs.run_postgres_backup_job'', ''postgres_backup'', Cron (backup_cron cfg), None),
          (''workers.jobs.backup_jobs.run_restore_drill_job'', ''restore_drill'', Cron (restore_drill_cron cfg), None),
          (''workers.scaling_policy.emit_scaling_summary_log'', ''scaling_summary'', Every (scaling_summary_interval_s cfg), Some 20),
          (''workers.jobs.scaling_telemetry_job.run_scaling_telemetry_job'', ''scaling_telemetry'',
             Every (scaling_summary_interval_s cfg), Some 22),
          (''workers.jobs.calibration_job.run_calibration_job'', ''simulation_calibration'',
             Every (simulation_calibration_interval_days cfg * 24 * 3600), Some 30),
          (''workers.jobs.pattern_mining_job.run_pattern_mining_job'', ''longitudinal_patterns'',
             Every (pattern_mining_interval_hours cfg * 3600), Some 35)])"

definition job_of :: "int \<Rightarrow> string \<times> string \<times> recurrence \<times> int option \<Rightarrow> scheduled_job" where
  "job_of now r = (case r of (func, source, rec, delay) \<Rightarrow>
     \<lparr>sj_func = func, sj_args = [source], sj_recurrence = rec, sj_first = map_option (\<lambda>d. now + d * 1000000) delay\<rparr>)"

definition register_job :: "bool \<Rightarrow> int \<Rightarrow> string \<times> string \<times> recurrence \<times> int option \<Rightarrow> scheduled_job list \<Rightarrow> scheduled_job list" where
  "register_job up now r jobs =
     (if is_job_already_scheduled up jobs (fst r) (fst (snd r)) then jobs else jobs @ [job_of now r])"

fun register_jobs :: "(nat \<Rightarrow> bool) \<Rightarrow> int \<Rightarrow> nat \<Rightarrow> (string \<times> string \<times> recurrence \<times> int option) list \<Rightarrow> scheduled_job list \<Rightarrow> scheduled_job list" where
  "register_jobs up now k [] jobs = jobs"
| "register_jobs up now k (r # rs) jobs = register_jobs up now (k + 1) rs (register_job (up k) now r jobs)"

definition scheduler_main :: "(nat \<Rightarrow> bool) \<Rightarrow> int \<Rightarrow> scheduler_settings \<Rightarrow> scheduled_job list \<Rightarrow> scheduled_job list" where
  "scheduler_main up now cfg jobs = register_jobs up now 0 (registrations cfg) jobs"

section \<open>Entry points\<close>

text \<open>The least and the greatest number of positional arguments of each function, the latter if bounded.\<close>

definition entry_points :: "(string, nat \<times> nat option) dict" where
  "entry_points =
     [(''workers.jobs.ingestion_jobs.run_ingestion_job'', (1, Some 1)),
      (''workers.jobs.literature_ingestion_job.run_literature_ingestion_job'', (0, Some 1)),
      (''workers.jobs.alert_evaluation_job.run_alert_evaluation_job'', (0, None)),
      (''workers.jobs.backup_jobs.run_postgres_backup_job'', (0, Some 0)),
      (''workers.jobs.backup_jobs.run_restore_drill_job'', (0, Some 1)),
      (''workers.scaling_policy.emit_scaling_summary_log'', (0, Some 2)),
      (''workers.jobs.scaling_telemetry_job.run_scaling_telemetry_job'', (0, Some 1)),
      (''workers.jobs.calibration_job.run_calibration_job'', (0, Some 0)),
      (''workers.jobs.pattern_mining_job.run_pattern_mining_job'', (0, Some 1))]"

text \<open>Calling the function of a job with its arguments: what happens before the body runs.\<close>

definition entry_call :: "string \<Rightarrow> nat \<Rightarrow> unit py" where
  "entry_call func n =
     (case dict_get entry_points func of
        None \<Rightarrow> Inl (Other_Error ''ImportError'')
      | Some (lo, hi) \<Rightarrow>
          (if lo \<le> n \<and> (case hi of None \<Rightarrow> True | Some m \<Rightarrow> n \<le> m) then Inr () else Inl (Type_Error ''positional arguments'')))"

definition job_call :: "scheduled_job \<Rightarrow> unit py" where
  "job_call j = entry_call (sj_func j) (length (sj_args j))"

section \<open>Registration is idempotent\<close>

definition scheduled_as :: "scheduled_job list \<Rightarrow> string \<Rightarrow> string \<Rightarrow> scheduled_job list" where
  "scheduled_as jobs func source = filter (\<lambda>j. sj_func j = func \<and> sj_args j \<noteq> [] \<and> hd (sj_args j) = source) jobs"

lemma already_scheduled_iff: "is_job_already_scheduled True jobs func source \<longleftrightarrow> scheduled_as jobs func source \<noteq> []"
  by (auto simp: is_job_already_scheduled_def scheduled_as_def list_ex_iff filter_empty_conv)

lemma job_of_scheduled: "scheduled_as [job_of now r] func source = (if func = fst r \<and> source = fst (snd r) then [job_of now r] else [])"
  by (auto simp: scheduled_as_def job_of_def split: prod.splits)

lemma scheduled_append: "scheduled_as (xs @ ys) func source = scheduled_as xs func source @ scheduled_as ys func source"
  by (simp add: scheduled_as_def)

text \<open>What is scheduled under a name after the registrations, when all look-ups work.\<close>

lemma register_jobs_scheduled:
  assumes "distinct (map (\<lambda>r. (fst r, fst (snd r))) rs)"
  shows "scheduled_as (register_jobs (\<lambda>_. True) now k rs jobs) func source =
    (if scheduled_as jobs func source \<noteq> [] then scheduled_as jobs func source
     else map (job_of now) (filter (\<lambda>r. fst r = func \<and> fst (snd r) = source) rs))"
  using assms
proof (induction rs arbitrary: k jobs)
  case (Cons r rs)
  have one: "scheduled_as (register_job True now r jobs) func source =
      (if scheduled_as jobs func source \<noteq> [] then scheduled_as jobs func source
       else if fst r = func \<and> fst (snd r) = source then [job_of now r] else [])"
    by (auto simp: register_job_def already_scheduled_iff scheduled_append job_of_scheduled)
  have rest: "fst r = func \<and> fst (snd r) = source \<Longrightarrow> filter (\<lambda>r. fst r = func \<and> fst (snd r) = source) rs = []"
    using Cons.prems by (auto simp: filter_empty_conv image_iff)
  show ?case using Cons.IH [of "k + 1" "register_job True now r jobs"] Cons.prems one rest by auto
qed (simp add: scheduled_as_def)

lemma register_jobs_again:
  assumes "\<And>r. r \<in> set rs \<Longrightarrow> scheduled_as jobs (fst r) (fst (snd r)) \<noteq> []"
  shows "register_jobs (\<lambda>_. True) now k rs jobs = jobs"
  using assms by (induction rs arbitrary: k) (simp_all add: register_job_def already_scheduled_iff)

lemma registrations_distinct: "distinct (map (\<lambda>r. (fst r, fst (snd r))) (registrations cfg))"
  by (simp add: registrations_def Let_def ingestion_sources_def)

text \<open>C31: while the store answers, starting the scheduler leaves every job that was there, adds exactly the missing
  ones of the thirteen, so that each is scheduled, and starting it again, however often and whenever, changes
  nothing.\<close>

theorem scheduler_idempotent:
  "(\<forall>func source. scheduled_as (scheduler_main (\<lambda>_. True) now cfg jobs) func source =
      (if scheduled_as jobs func source \<noteq> [] then scheduled_as jobs func source
       else map (job_of now) (filter (\<lambda>r. fst r = func \<and> fst (snd r) = source) (registrations cfg)))) \<and>
   length (registrations cfg) = 13 \<and>
   list_all (\<lambda>r. scheduled_as (scheduler_main (\<lambda>_. True) now cfg jobs) (fst r) (fst (snd r)) \<noteq> []) (registrations cfg) \<and>
   scheduler_main (\<lambda>_. True) later cfg (scheduler_main (\<lambda>_. True) now cfg jobs) = scheduler_main (\<lambda>_. True) now cfg jobs"
proof -
  have all: "scheduled_as (scheduler_main (\<lambda>_. True) now cfg jobs) func source =
      (if scheduled_as jobs func source \<noteq> [] then scheduled_as jobs func source
       else map (job_of now) (filter (\<lambda>r. fst r = func \<and> fst (snd r) = source) (registrations cfg)))" for func source
    unfolding scheduler_main_def by (rule register_jobs_scheduled [OF registrations_distinct])
  have there: "scheduled_as (scheduler_main (\<lambda>_. True) now cfg jobs) (fst r) (fst (snd r)) \<noteq> []" if "r \<in> set (registrations cfg)" for r
    using that by (auto simp: all filter_empty_conv)
  have "scheduler_main (\<lambda>_. True) later cfg (scheduler_main (\<lambda>_. True) now cfg jobs) = scheduler_main (\<lambda>_. True) now cfg jobs"
    unfolding scheduler_main_def [of _ later] using there by (rule register_jobs_again)
  moreover have "length (registrations cfg) = 13" by (simp add: registrations_def Let_def ingestion_sources_def)
  moreover have "list_all (\<lambda>r. scheduled_as (scheduler_main (\<lambda>_. True) now cfg jobs) (fst r) (fst (snd r)) \<noteq> []) (registrations cfg)"
    using there by (simp add: list_all_iff)
  ultimately show ?thesis using all by blast
qed

text \<open>While the store does not answer, every start adds all jobs again.\<close>

lemma unanswered_lookup_duplicates:
  "scheduler_main (\<lambda>_. False) now cfg jobs = jobs @ map (job_of now) (registrations cfg)"
proof -
  have "register_jobs (\<lambda>_. False) now k rs jobs = jobs @ map (job_of now) rs" for k rs
    by (induction rs arbitrary: k jobs) (simp_all add: register_job_def is_job_already_scheduled_def)
  then show ?thesis by (simp add: scheduler_main_def)
qed

section \<open>Jobs that cannot run\<close>

text \<open>The source is passed as an argument to every function, but the backup and the calibration take none: each
  of their scheduled runs raises before its body.\<close>

definition argumentless_entries :: "string list" where
  "argumentless_entries = [''workers.jobs.backup_jobs.run_postgres_backup_job'', ''workers.jobs.calibration_job.run_calibration_job'']"

lemma scheduled_calls:
  assumes "r \<in> set (registrations cfg)"
  shows "job_call (job_of now r) = (if fst r \<in> set argumentless_entries then Inl (Type_Error ''positional arguments'') else Inr ())"
proof -
  have names: "map fst (registrations cfg) = map fst (registrations
      \<lparr>ingestion_poll_interval_hours = 0, alert_evaluation_interval_minutes = 0, backup_cron = [], restore_drill_cron = [],
       scaling_summary_interval_s = 0, simulation_calibration_interval_days = 0, pattern_mining_interval_hours = 0\<rparr>)"
    by (simp add: registrations_def Let_def comp_def)
  have "list_all (\<lambda>f. entry_call f 1 = (if f \<in> set argumentless_entries then Inl (Type_Error ''positional arguments'') else Inr ()))
      (map fst (registrations cfg))"
    unfolding names by code_simp
  then show ?thesis using assms by (auto simp: list_all_iff job_call_def job_of_def split: prod.splits)
qed

end
