(* ===== verification/Backup.thy ===== *)
theory Backup
  imports Dates Registry
begin

text \<open>
  Backups and restore drills (\<open>ops/backup\<close>, \<open>workers/jobs/backup_jobs.py\<close>, \<open>app/api/v1/admin_backups.py\<close>): the
  storage interface and its implementation on local files, the metadata that is compared, the backup run with
  its retention, the drill, and the check of Redis snapshots. Files are texts by path, a database is the rows of
  its tables in scan order. \<open>pg_dump\<close> and \<open>psql\<close>, SHA-256 and the digest of a row sample are parameters; a
  failing query aborts the transaction it runs in, so that every later query on the connection fails too.
\<close>

section \<open>Storage\<close>

type_synonym files = "(string, string) dict"

definition storage_path :: "string \<Rightarrow> string \<Rightarrow> string" where
  "storage_path base key = base @ ''/'' @ key"

definition local_upload :: "string \<Rightarrow> string \<Rightarrow> string \<Rightarrow> files \<Rightarrow> (files \<times> string) py" where
  "local_upload base local_path key fs =
     (let dest = storage_path base key
      in if local_path = dest then Inr (fs, dest)
         else case dict_get fs local_path of None \<Rightarrow> Inl (Other_Error ''FileNotFoundError'') | Some c \<Rightarrow> Inr (dict_set dest c fs, dest))"

definition local_download :: "string \<Rightarrow> string \<Rightarrow> string \<Rightarrow> files \<Rightarrow> files py" where
  "local_download base key local_path fs =
     (case dict_get fs (storage_path base key) of
        None \<Rightarrow> Inl (Other_Error (''Backup file not found in storage: '' @ storage_path base key))
      | Some c \<Rightarrow> Inr (if storage_path base key \<noteq> local_path then dict_set local_path c fs else fs))"

text \<open>\<open>unlink\<close> says whether the file system lets the file go.\<close>

definition local_delete :: "bool \<Rightarrow> string \<Rightarrow> string \<Rightarrow> files \<Rightarrow> files py" where
  "local_delete unlink base key fs =
     (if dict_get fs (storage_path base key) = None then Inr fs
      else if unlink then Inr (AList.delete (storage_path base key) fs) else Inl (Other_Error ''OSError''))"

definition local_list :: "string \<Rightarrow> files \<Rightarrow> string list" where
  "local_list base fs = map (\<lambda>p. drop (length base + 1) p) (filter (\<lambda>p. starts_with p (base @ ''/'')) (dict_keys fs))"

text \<open>The contract of a storage: what is held under the keys of backups, and the local files for transfer.\<close>

locale backup_storage =
  fixes up :: "string \<Rightarrow> string \<Rightarrow> 's \<Rightarrow> ('s \<times> string) py"
    and down :: "string \<Rightarrow> string \<Rightarrow> 's \<Rightarrow> 's py"
    and del :: "bool \<Rightarrow> string \<Rightarrow> 's \<Rightarrow> 's py"
    and held :: "'s \<Rightarrow> string \<Rightarrow> string option"
    and local_file :: "'s \<Rightarrow> string \<Rightarrow> string option"
    and transfer_path :: "string \<Rightarrow> bool"
    and backup_key :: "string \<Rightarrow> bool"
  assumes up_held: "transfer_path p \<Longrightarrow> backup_key k \<Longrightarrow> local_file s p = Some c \<Longrightarrow> up p k s = Inr (s', loc) \<Longrightarrow> held s' k = Some c"
    and up_other: "up p k s = Inr (s', loc) \<Longrightarrow> k' \<noteq> k \<Longrightarrow> held s' k' = held s k'"
    and up_total: "local_file s p = Some c \<Longrightarrow> \<exists>s' loc. up p k s = Inr (s', loc)"
    and down_file: "transfer_path p \<Longrightarrow> backup_key k \<Longrightarrow> down k p s = Inr s' \<Longrightarrow> local_file s' p = held s k"
    and down_kept: "transfer_path p \<Longrightarrow> backup_key k' \<Longrightarrow> down k p s = Inr s' \<Longrightarrow> held s' k' = held s k'"
    and down_iff: "(\<exists>s'. down k p s = Inr s') \<longleftrightarrow> held s k \<noteq> None"
    and del_held: "del u k s = Inr s' \<Longrightarrow> held s' = (held s)(k := None)"
begin

text \<open>What was uploaded comes back as it was, as long as nothing is done to its key in between.\<close>

lemma upload_download:
  assumes "transfer_path p" "backup_key k" "local_file s p = Some c" "up p k s = Inr (s1, loc)" "held s2 k = held s1 k" "transfer_path q"
  shows "\<exists>s3. down k q s2 = Inr s3 \<and> local_file s3 q = Some c"
proof -
  have c: "held s2 k = Some c" using up_held [OF assms(1-4)] assms(5) by simp
  then obtain s3 where s3: "down k q s2 = Inr s3" using down_iff [of k q s2] by auto
  then show ?thesis using down_file [OF assms(6,2) s3] c by simp
qed

end

lemma storage_path_inject [simp]: "storage_path base k = storage_path base k' \<longleftrightarrow> k = k'"
  by (simp add: storage_path_def)

text \<open>The transfers go through files under \<open>temp\<close> in the storage directory; the keys of backups start otherwise.\<close>

definition temp_path :: "string \<Rightarrow> string \<Rightarrow> string" where
  "temp_path base name = storage_path base (''temp/'' @ name)"

definition is_backup_key :: "string \<Rightarrow> bool" where
  "is_backup_key k \<longleftrightarrow> starts_with k ''backup_''"

lemma backup_key_not_temp: "is_backup_key k \<Longrightarrow> k \<noteq> ''temp/'' @ x"
  by (auto simp: is_backup_key_def)

interpretation local_storage: backup_storage "local_upload base" "local_download base" "\<lambda>u. local_delete u base"
  "\<lambda>fs k. dict_get fs (storage_path base k)" dict_get "\<lambda>p. p \<in> range (temp_path base)" is_backup_key
proof unfold_locales
  fix p k k' loc c :: string and s s' :: files and u :: bool
  show "dict_get s' (storage_path base k) = Some c"
    if "p \<in> range (temp_path base)" "is_backup_key k" "dict_get s p = Some c" "local_upload base p k s = Inr (s', loc)"
    using that by (auto simp: local_upload_def Let_def update_conv' temp_path_def backup_key_not_temp split: if_splits)
  show "dict_get s' (storage_path base k') = dict_get s (storage_path base k')"
    if "local_upload base p k s = Inr (s', loc)" "k' \<noteq> k"
    using that by (auto simp: local_upload_def Let_def update_conv' split: option.splits if_splits)
  show "\<exists>s' loc. local_upload base p k s = Inr (s', loc)" if "dict_get s p = Some c"
    using that by (simp add: local_upload_def Let_def)
  show "dict_get s' p = dict_get s (storage_path base k)"
    if "p \<in> range (temp_path base)" "is_backup_key k" "local_download base k p s = Inr s'"
    using that by (auto simp: local_download_def update_conv' split: option.splits if_splits)
  show "dict_get s' (storage_path base k') = dict_get s (storage_path base k')"
    if "p \<in> range (temp_path base)" "is_backup_key k'" "local_download base k p s = Inr s'"
    using that by (auto simp: local_download_def temp_path_def update_conv' is_backup_key_def split: option.splits if_splits)
  show "(\<exists>s'. local_download base k p s = Inr s') \<longleftrightarrow> dict_get s (storage_path base k) \<noteq> None"
    by (auto simp: local_download_def split: option.splits)
  show "(\<lambda>k. dict_get s' (storage_path base k)) = (\<lambda>k. dict_get s (storage_path base k))(k := None)"
    if "local_delete u base k s = Inr s'"
    using that by (auto simp: local_delete_def fun_eq_iff delete_conv' split: if_splits)
qed

section \<open>Metadata\<close>

record table_info =
  ti_rows :: int
  ti_checksum :: string
  ti_sample :: nat

record verification_metadata =
  vm_tables :: "(string, table_info) dict"
  vm_migration :: string
  vm_postgres :: string

text \<open>A database: the version text, the migration table (missing, empty or with a version), the tables.\<close>

record database =
  db_version :: "string option"
  db_alembic :: "string option option"
  db_tables :: "(string, json list) dict"

definition tables_to_audit :: "string list" where
  "tables_to_audit = [''users'', ''investigations'', ''hazard_events'', ''alert_rules'', ''alert_incidents'', ''api_keys'',
     ''password_reset_tokens'', ''metric_events'']"

definition pg_version :: "string option \<Rightarrow> string" where
  "pg_version v = (case v of Some (c # cs) \<Rightarrow>
     (case str_words (c # cs) of a # b # _ \<Rightarrow> a @ '' '' @ b | _ \<Rightarrow> ''PostgreSQL'') | _ \<Rightarrow> ''PostgreSQL'')"

text \<open>The audit of the tables, on a connection that may be in an aborted transaction.\<close>

fun audit_tables :: "(json list \<Rightarrow> string) \<Rightarrow> (string, json list) dict \<Rightarrow> bool \<Rightarrow> string list \<Rightarrow> (string, table_info) dict" where
  "audit_tables digest tables aborted [] = []"
| "audit_tables digest tables aborted (t # ts) =
     (if aborted then []
      else case dict_get tables t of
             None \<Rightarrow> audit_tables digest tables True ts
           | Some rows \<Rightarrow> (t, \<lparr>ti_rows = int (length rows), ti_checksum = digest (take 100 rows), ti_sample = length (take 100 rows)\<rparr>) #
               audit_tables digest tables False ts)"

definition extract_verification_metadata :: "(json list \<Rightarrow> string) \<Rightarrow> database \<Rightarrow> verification_metadata" where
  "extract_verification_metadata digest db =
     \<lparr>vm_tables = audit_tables digest (db_tables db) (db_alembic db = None) tables_to_audit,
      vm_migration = (case db_alembic db of Some (Some (c # cs)) \<Rightarrow> c # cs | _ \<Rightarrow> ''unknown''),
      vm_postgres = pg_version (db_version db)\<rparr>"

section \<open>Backup runs\<close>

datatype backup_status = PENDING | RUNNING | SUCCESS | FAILED

record backup_record =
  br_id :: string
  br_created :: int
  br_completed :: "int option"
  br_status :: backup_status
  br_size :: nat
  br_checksum :: string
  br_location :: string
  br_version :: string
  br_metadata :: "verification_metadata option"
  br_error :: "string option"

record drill_record =
  dr_id :: string
  dr_backup_id :: string
  dr_status :: backup_status
  row_counts_match :: bool
  checksum_match :: bool
  migration_version_match :: bool
  discrepancies :: "(string, string) dict"
  dr_error :: "string option"

record ops_state =
  fs_files :: files
  backup_rows :: "backup_record list"
  drill_rows :: "drill_record list"
  scratch_dbs :: "string list"
  main_db :: database

record backup_settings =
  bs_database_url :: string
  backup_storage_path :: string
  backup_retention_days :: int

text \<open>One run: the present time, the random suffix, which sessions reach the database, the outcome of \<open>pg_dump\<close>, a
  failure of the upload, and which files can be removed.\<close>

record backup_env =
  be_now :: int
  be_hex :: string
  be_db_up :: "nat \<Rightarrow> bool"
  be_dump :: "database \<Rightarrow> string py"
  be_upload :: "py_exc option"
  be_unlink :: "string \<Rightarrow> bool"

definition stamp :: "int \<Rightarrow> string" where
  "stamp t = (let s = compact_text t in take (length s - 6) s @ ''_'' @ drop (length s - 6) s)"

definition backup_name :: "backup_env \<Rightarrow> string" where
  "backup_name env = ''backup_'' @ stamp (be_now env) @ ''_'' @ be_hex env"

definition remote_key :: "string \<Rightarrow> string" where
  "remote_key bid = bid @ ''.sql''"

text \<open>Deleting the expired backups: the file first, the row only if the file went. The failure of a deletion is
  rolled back; where the session has a transaction, which after the query and before the first commit it has,
  this expires the loaded rows, and reading the next attribute of one outside a database call raises: the
  clean-up ends there.\<close>

fun purge :: "(string \<Rightarrow> bool) \<Rightarrow> string \<Rightarrow> bool \<Rightarrow> backup_record list \<Rightarrow> ops_state \<Rightarrow> ops_state" where
  "purge unlink base in_transaction [] st = st"
| "purge unlink base in_transaction (r # rs) st =
     (case local_delete (unlink (remote_key (br_id r))) base (remote_key (br_id r)) (fs_files st) of
        Inl _ \<Rightarrow> (if in_transaction then st else purge unlink base False rs st)
      | Inr fs \<Rightarrow> purge unlink base False rs
          (st\<lparr>fs_files := fs, backup_rows := filter (\<lambda>x. br_id x \<noteq> br_id r) (backup_rows st)\<rparr>))"

definition cleanup_expired_backups :: "backup_env \<Rightarrow> backup_settings \<Rightarrow> ops_state \<Rightarrow> ops_state" where
  "cleanup_expired_backups env cfg st =
     purge (be_unlink env) (backup_storage_path cfg) True
       (filter (\<lambda>r. br_created r < be_now env - backup_retention_days cfg * 86400000000) (backup_rows st)) st"

text \<open>The body: metadata, dump into a temporary file, upload, and the temporary file removed in any case.\<close>

definition backup_body ::
    "(string \<Rightarrow> string) \<Rightarrow> (json list \<Rightarrow> string) \<Rightarrow> backup_env \<Rightarrow> backup_settings \<Rightarrow> string \<Rightarrow> ops_state \<Rightarrow>
     ops_state \<times> (verification_metadata \<times> string \<times> string) py" where
  "backup_body sha digest env cfg bid st =
     (let base = backup_storage_path cfg; meta = extract_verification_metadata digest (main_db st); tmp = temp_path base (bid @ ''.sql'')
      in case be_dump env (main_db st) of
           Inl e \<Rightarrow> (st, Inl e)
         | Inr dump \<Rightarrow>
             (case (case be_upload env of Some e \<Rightarrow> Inl e
                    | None \<Rightarrow> local_upload base tmp (remote_key bid) (dict_set tmp dump (fs_files st))) of
                Inl e \<Rightarrow> (st\<lparr>fs_files := AList.delete tmp (fs_files st)\<rparr>, Inl e)
              | Inr (fs, loc) \<Rightarrow> (st\<lparr>fs_files := AList.delete tmp fs\<rparr>, Inr (meta, dump, loc))))"

text \<open>The column of the size is a signed integer of 32 bits: a larger value makes the commit raise.\<close>

definition size_fits :: "string \<Rightarrow> bool" where
  "size_fits dump \<longleftrightarrow> int (length dump) \<le> 2147483647"

definition set_backup :: "string \<Rightarrow> (backup_record \<Rightarrow> backup_record) \<Rightarrow> ops_state \<Rightarrow> ops_state" where
  "set_backup bid f st = st\<lparr>backup_rows := map (\<lambda>r. if br_id r = bid then f r else r) (backup_rows st)\<rparr>"

definition succeed :: "(string \<Rightarrow> string) \<Rightarrow> int \<Rightarrow> verification_metadata \<Rightarrow> string \<Rightarrow> string \<Rightarrow> backup_record \<Rightarrow> backup_record" where
  "succeed sha now meta dump loc r = r\<lparr>br_completed := Some now, br_status := SUCCESS, br_size := length dump, br_checksum := sha dump,
     br_location := loc, br_version := vm_postgres meta, br_metadata := Some meta\<rparr>"

definition new_backup :: "int \<Rightarrow> string \<Rightarrow> string \<Rightarrow> backup_record" where
  "new_backup now bid loc = \<lparr>br_id = bid, br_created = now, br_completed = None, br_status = RUNNING, br_size = 0, br_checksum = [],
     br_location = loc, br_version = [], br_metadata = None, br_error = None\<rparr>"

definition run_postgres_backup ::
    "(string \<Rightarrow> string) \<Rightarrow> (json list \<Rightarrow> string) \<Rightarrow> backup_env \<Rightarrow> backup_settings \<Rightarrow> ops_state \<Rightarrow> ops_state \<times> backup_record py" where
  "run_postgres_backup sha digest env cfg st =
     (if bs_database_url cfg = [] then (st, Inl (Runtime_Error ''DATABASE_URL environment variable is not configured.''))
      else
        (let bid = backup_name env; r0 = new_backup (be_now env) bid (backup_storage_path cfg);
             st1 = (if be_db_up env 0 \<and> bid \<notin> br_id ` set (backup_rows st) then st\<lparr>backup_rows := backup_rows st @ [r0]\<rparr> else st)
         in case backup_body sha digest env cfg bid st1 of
              (st2, Inr (meta, dump, loc)) \<Rightarrow>
                (let fin = succeed sha (be_now env) meta dump loc;
                     saved = (be_db_up env 1 \<and> size_fits dump);
                     st3 = (if saved then set_backup bid fin st2 else st2);
                     st4 = (if be_db_up env 2 then cleanup_expired_backups env cfg st3 else st3)
                 in (st4, Inr (case (saved, find (\<lambda>r. br_id r = bid) (backup_rows st3)) of
                      (True, Some r) \<Rightarrow> r | _ \<Rightarrow> fin r0)))
            | (st2, Inl e) \<Rightarrow>
                (if \<not> be_db_up env 3 then (st2, Inl (Other_Error ''OperationalError''))
                 else let st3 = set_backup bid (\<lambda>r. r\<lparr>br_completed := Some (be_now env), br_status := FAILED, br_error := Some (exc_str e)\<rparr>) st2
                      in case find (\<lambda>r. br_id r = bid) (backup_rows st3) of
                           Some r \<Rightarrow> (st3, Inr r) | None \<Rightarrow> (st3, Inl e))))"

section \<open>Restore drills\<close>

text \<open>One drill: the random suffixes, whether the scratch database can be created and dropped, and \<open>psql\<close>: the
  database that reading the dump leaves, or an exception when there is no such program. The main database answers
  throughout; the texts of errors stand without the details they interpolate.\<close>

record drill_env =
  de_now :: int
  de_hex :: string
  de_scratch :: string
  de_create :: "py_exc option"
  de_drop :: bool
  de_psql :: "string \<Rightarrow> database py"

definition drill_name :: "drill_env \<Rightarrow> string" where
  "drill_name env = ''drill_'' @ stamp (de_now env) @ ''_'' @ de_hex env"

definition select_backup :: "string option \<Rightarrow> backup_record list \<Rightarrow> backup_record option" where
  "select_backup bid rows =
     (case bid of
        Some (c # cs) \<Rightarrow> find (\<lambda>r. br_id r = c # cs) rows
      | _ \<Rightarrow> (case sort_key (\<lambda>r. - br_created r) (filter (\<lambda>r. br_status r = SUCCESS) rows) of [] \<Rightarrow> None | r # _ \<Rightarrow> Some r))"

text \<open>The comparison of one table; one that is missing after the restore counts as empty, without checksum.\<close>

definition no_table :: table_info where
  "no_table = \<lparr>ti_rows = 0, ti_checksum = [], ti_sample = 0\<rparr>"

definition rows_differ :: "(string, table_info) dict \<Rightarrow> string \<times> table_info \<Rightarrow> bool" where
  "rows_differ ext e \<longleftrightarrow> ti_rows (snd e) \<noteq> ti_rows (dict_get_or ext (fst e) no_table)"

definition checksums_differ :: "(string, table_info) dict \<Rightarrow> string \<times> table_info \<Rightarrow> bool" where
  "checksums_differ ext e \<longleftrightarrow> (let cs = ti_checksum (dict_get_or ext (fst e) no_table)
     in ti_checksum (snd e) \<noteq> [] \<and> cs \<noteq> [] \<and> ti_checksum (snd e) \<noteq> cs)"

definition table_discrepancies :: "(string, table_info) dict \<Rightarrow> string \<times> table_info \<Rightarrow> (string, string) dict" where
  "table_discrepancies ext e =
     (let got = dict_get_or ext (fst e) no_table
      in (if rows_differ ext e
          then [(''table_'' @ fst e @ ''_rows'', ''Expected '' @ int_str (ti_rows (snd e)) @ '', got '' @ int_str (ti_rows got))] else []) @
         (if checksums_differ ext e
          then [(''table_'' @ fst e @ ''_checksum'', ''Expected '' @ take 8 (ti_checksum (snd e)) @ '', got '' @ take 8 (ti_checksum got))] else []))"

definition expected_tables :: "verification_metadata option \<Rightarrow> (string, table_info) dict" where
  "expected_tables m = (case m of None \<Rightarrow> [] | Some v \<Rightarrow> vm_tables v)"

definition expected_migration :: "verification_metadata option \<Rightarrow> string" where
  "expected_migration m = (case m of None \<Rightarrow> [] | Some v \<Rightarrow> vm_migration v)"

definition verify_restored :: "verification_metadata option \<Rightarrow> verification_metadata \<Rightarrow> drill_record \<Rightarrow> drill_record" where
  "verify_restored expected got d =
     (let rows_ok = list_all (\<lambda>e. \<not> rows_differ (vm_tables got) e) (expected_tables expected);
          sums_ok = list_all (\<lambda>e. \<not> checksums_differ (vm_tables got) e) (expected_tables expected);
          mig = expected_migration expected; mig_ok = (mig = [] \<or> mig = vm_migration got);
          found = concat (map (table_discrepancies (vm_tables got)) (expected_tables expected)) @
            (if mig_ok then [] else [(''migration_version'', ''Expected '' @ mig @ '', got '' @ vm_migration got)]);
          ok = (rows_ok \<and> sums_ok \<and> mig_ok)
      in d\<lparr>dr_status := if ok then SUCCESS else FAILED, row_counts_match := rows_ok, checksum_match := sums_ok,
           migration_version_match := mig_ok, discrepancies := found,
           dr_error := if ok then None else Some ''Verification discrepancies detected''\<rparr>)"

text \<open>From the download to the metadata of the restored database; the flag says whether the scratch database was
  made, the files include the downloaded one.\<close>

definition drill_body ::
    "(string \<Rightarrow> string) \<Rightarrow> (json list \<Rightarrow> string) \<Rightarrow> drill_env \<Rightarrow> backup_settings \<Rightarrow> backup_record \<Rightarrow> files \<Rightarrow>
     files \<times> bool \<times> verification_metadata py" where
  "drill_body sha digest env cfg r fs =
     (let base = backup_storage_path cfg; tmp = temp_path base (br_id r @ ''_restore.sql'')
      in case local_download base (remote_key (br_id r)) tmp fs of
           Inl e \<Rightarrow> (fs, False, Inl e)
         | Inr fs1 \<Rightarrow>
             (let dump = dict_get_or fs1 tmp []
              in if br_checksum r \<noteq> [] \<and> sha dump \<noteq> br_checksum r then (fs1, False, Inl (Value_Error ''Backup checksum mismatch!''))
                 else case de_create env of
                        Some e \<Rightarrow> (fs1, False, Inl (Other_Error ''PermissionError''))
                      | None \<Rightarrow> (fs1, True, py_bind (de_psql env dump) (\<lambda>db. Inr (extract_verification_metadata digest db)))))"

definition drill_row :: "string \<Rightarrow> string \<Rightarrow> drill_record" where
  "drill_row did bid = \<lparr>dr_id = did, dr_backup_id = bid, dr_status = RUNNING, row_counts_match = False, checksum_match = False,
     migration_version_match = False, discrepancies = [], dr_error = None\<rparr>"

definition run_restore_drill ::
    "(string \<Rightarrow> string) \<Rightarrow> (json list \<Rightarrow> string) \<Rightarrow> drill_env \<Rightarrow> backup_settings \<Rightarrow> string option \<Rightarrow> ops_state \<Rightarrow> ops_state \<times> drill_record py" where
  "run_restore_drill sha digest env cfg bid st =
     (if bs_database_url cfg = [] then (st, Inl (Runtime_Error ''DATABASE_URL environment variable is not configured.''))
      else
        (let failed = (drill_row (drill_name env) (case bid of Some (c # cs) \<Rightarrow> c # cs | _ \<Rightarrow> ''unknown''))
               \<lparr>dr_status := FAILED, dr_error := Some (''No successful backup found for restore drill (requested backup_id='' @
                 (case bid of None \<Rightarrow> ''None'' | Some b \<Rightarrow> b) @ '')'')\<rparr>
         in case select_backup bid (backup_rows st) of
              None \<Rightarrow> (st\<lparr>drill_rows := drill_rows st @ [failed]\<rparr>, Inr failed)
            | Some r \<Rightarrow>
                (if br_status r \<noteq> SUCCESS then (st\<lparr>drill_rows := drill_rows st @ [failed]\<rparr>, Inr failed)
                 else
                   (let d = drill_row (drill_name env) (br_id r); tmp = temp_path (backup_storage_path cfg) (br_id r @ ''_restore.sql'')
                    in case drill_body sha digest env cfg r (fs_files st) of
                         (fs, made, res) \<Rightarrow>
                           (let d' = (case res of
                                  Inl e \<Rightarrow> d\<lparr>dr_status := FAILED, dr_error := Some (exc_str e)\<rparr>
                                | Inr got \<Rightarrow> verify_restored (br_metadata r) got d)
                            in (st\<lparr>drill_rows := drill_rows st @ [d'], fs_files := AList.delete tmp fs,
                                   scratch_dbs := (if made \<and> \<not> (de_scratch env \<noteq> ''gaiaos'' \<and> de_drop env)
                                     then scratch_dbs st @ [de_scratch env] else scratch_dbs st)\<rparr>, Inr d'))))))"

section \<open>Routes and snapshots\<close>

definition list_backups :: "nat \<Rightarrow> ops_state \<Rightarrow> backup_record list" where
  "list_backups lmt st = take lmt (sort_key (\<lambda>r. - br_created r) (backup_rows st))"

record snapshot_result =
  sn_exists :: bool
  sn_readable :: bool
  sn_magic_valid :: bool
  sn_checksum :: string
  sn_age :: flt
  sn_valid :: bool

text \<open>A snapshot file: modification time and content, each of which may fail to be read. Ages are in seconds.\<close>

definition verify_redis_snapshot ::
    "(string \<Rightarrow> string) \<Rightarrow> flt \<Rightarrow> flt \<Rightarrow> string \<Rightarrow> (flt py \<times> string py) option \<Rightarrow> snapshot_result" where
  "verify_redis_snapshot sha now max_age path file =
     (let none = \<lparr>sn_exists = False, sn_readable = False, sn_magic_valid = False, sn_checksum = [], sn_age = 0, sn_valid = False\<rparr>
      in case file of
           None \<Rightarrow> none
         | Some (mtime, content) \<Rightarrow>
             (case mtime of
                Inl _ \<Rightarrow> none\<lparr>sn_exists := True\<rparr>
              | Inr t \<Rightarrow>
                  (let age = fsub now t
                   in case content of
                        Inl _ \<Rightarrow> none\<lparr>sn_exists := True, sn_age := age\<rparr>
                      | Inr c \<Rightarrow>
                          (if c = [] then none\<lparr>sn_exists := True, sn_readable := True, sn_age := age\<rparr>
                           else let magic = (take 5 c = ''REDIS'' \<or> starts_with (rev path) (rev ''.aof''))
                                in \<lparr>sn_exists = True, sn_readable = True, sn_magic_valid = magic, sn_checksum = sha c, sn_age = age,
                                    sn_valid = (\<not> max_age < age \<and> magic)\<rparr>))))"

section \<open>The recorded backups can be restored\<close>

definition backup_ok :: "(string \<Rightarrow> string) \<Rightarrow> string \<Rightarrow> files \<Rightarrow> backup_record \<Rightarrow> bool" where
  "backup_ok sha base fs r \<longleftrightarrow> is_backup_key (br_id r) \<and> (br_status r = SUCCESS \<longrightarrow>
     (\<exists>c. dict_get fs (storage_path base (remote_key (br_id r))) = Some c \<and> br_checksum r = sha c \<and> br_size r = length c))"

definition ops_ok :: "(string \<Rightarrow> string) \<Rightarrow> string \<Rightarrow> ops_state \<Rightarrow> bool" where
  "ops_ok sha base st \<longleftrightarrow> distinct (map br_id (backup_rows st)) \<and> (\<forall>r \<in> set (backup_rows st). backup_ok sha base (fs_files st) r)"

text \<open>Backups under fresh names, drills, and whatever the application does to its database, in any order.\<close>

inductive ops_step :: "(string \<Rightarrow> string) \<Rightarrow> (json list \<Rightarrow> string) \<Rightarrow> backup_settings \<Rightarrow> ops_state \<Rightarrow> ops_state \<Rightarrow> bool" for sha digest cfg where
  backup_step: "backup_name env \<notin> br_id ` set (backup_rows st) \<Longrightarrow> ops_step sha digest cfg st (fst (run_postgres_backup sha digest env cfg st))"
| drill_step: "ops_step sha digest cfg st (fst (run_restore_drill sha digest env cfg bid st))"
| application_step: "ops_step sha digest cfg st (st\<lparr>main_db := db\<rparr>)"

lemma remote_key_inject [simp]: "remote_key a = remote_key b \<longleftrightarrow> a = b"
  by (simp add: remote_key_def)

lemma is_backup_key_remote: "is_backup_key bid \<Longrightarrow> is_backup_key (remote_key bid)"
  by (auto simp: is_backup_key_def remote_key_def starts_with_iff)

lemma backup_name_key: "is_backup_key (backup_name env)"
  by (simp add: is_backup_key_def backup_name_def)

lemma storage_not_temp [simp]: "is_backup_key k \<Longrightarrow> storage_path base k \<noteq> temp_path base x" "is_backup_key k \<Longrightarrow> temp_path base x \<noteq> storage_path base k"
  using backup_key_not_temp [of k x] by (auto simp: temp_path_def)

lemma backup_ok_files:
  assumes "backup_ok sha base fs r"
    and "is_backup_key (br_id r) \<Longrightarrow> dict_get fs' (storage_path base (remote_key (br_id r))) = dict_get fs (storage_path base (remote_key (br_id r)))"
  shows "backup_ok sha base fs' r"
  using assms by (simp add: backup_ok_def)

lemma purge_ok: "ops_ok sha base st \<Longrightarrow> ops_ok sha base (purge unlink base tr rs st)"
proof (induction rs arbitrary: st tr)
  case (Cons r rs)
  show ?case
  proof (cases "local_delete (unlink (remote_key (br_id r))) base (remote_key (br_id r)) (fs_files st)")
    case (Inr fs)
    have held: "dict_get fs (storage_path base (remote_key (br_id x))) = dict_get (fs_files st) (storage_path base (remote_key (br_id x)))"
      if "br_id x \<noteq> br_id r" for x
      using fun_cong [OF local_storage.del_held [OF Inr], of "remote_key (br_id x)"] that by simp
    have "ops_ok sha base (st\<lparr>fs_files := fs, backup_rows := filter (\<lambda>x. br_id x \<noteq> br_id r) (backup_rows st)\<rparr>)"
      using Cons.prems held by (auto simp: ops_ok_def distinct_map_filter intro: backup_ok_files)
    then show ?thesis using Cons.IH Inr by simp
  qed (use Cons in auto)
qed simp

lemma backup_body_files:
  assumes "backup_body sha digest env cfg bid st = (st2, res)" "is_backup_key bid"
  shows "backup_rows st2 = backup_rows st"
    and "is_backup_key k \<Longrightarrow> k \<noteq> remote_key bid \<Longrightarrow>
      dict_get (fs_files st2) (storage_path (backup_storage_path cfg) k) = dict_get (fs_files st) (storage_path (backup_storage_path cfg) k)"
    and "res = Inr (meta, dump, loc) \<Longrightarrow> dict_get (fs_files st2) (storage_path (backup_storage_path cfg) (remote_key bid)) = Some dump"
    and "res = Inr (meta, dump, loc) \<Longrightarrow> be_dump env (main_db st) = Inr dump \<and> meta = extract_verification_metadata digest (main_db st)"
  using assms by (auto simp: backup_body_def Let_def local_upload_def update_conv' delete_conv' is_backup_key_remote
      split: sum.splits option.splits if_splits)

lemma set_backup_ids [simp]:
  assumes "\<And>r. br_id (f r) = br_id r"
  shows "map br_id (backup_rows (set_backup bid f st)) = map br_id (backup_rows st)"
  using assms by (simp add: set_backup_def)

lemma run_postgres_backup_ok:
  assumes ok: "ops_ok sha (backup_storage_path cfg) st" and fresh: "backup_name env \<notin> br_id ` set (backup_rows st)"
  shows "ops_ok sha (backup_storage_path cfg) (fst (run_postgres_backup sha digest env cfg st))"
proof (cases "bs_database_url cfg = []")
  case False
  let ?base = "backup_storage_path cfg" and ?bid = "backup_name env"
  let ?st1 = "if be_db_up env 0 then st\<lparr>backup_rows := backup_rows st @ [new_backup (be_now env) ?bid ?base]\<rparr> else st"
  have st1: "ops_ok sha ?base ?st1" "\<forall>r \<in> set (backup_rows ?st1). br_id r = ?bid \<longrightarrow> br_status r \<noteq> SUCCESS"
    using ok fresh by (auto simp: ops_ok_def new_backup_def backup_ok_def backup_name_key image_iff)
  obtain st2 res where body: "backup_body sha digest env cfg ?bid ?st1 = (st2, res)" by fastforce
  note files = backup_body_files [OF body backup_name_key]
  have dist: "distinct (map br_id (backup_rows st2))" using st1(1) by (simp add: files(1) ops_ok_def)
  have kept: "backup_ok sha ?base (fs_files st2) r" if "r \<in> set (backup_rows st2)" "br_id r \<noteq> ?bid" for r
  proof (rule backup_ok_files)
    show "backup_ok sha ?base (fs_files ?st1) r" using st1(1) that(1) unfolding files(1) by (simp only: ops_ok_def)
  qed (use that(2) in \<open>simp add: files(2) is_backup_key_remote\<close>)
  have mine: "backup_ok sha ?base (fs_files st2) r" if "r \<in> set (backup_rows st2)" "br_id r = ?bid" for r
    using st1(2) that by (auto simp: files(1) backup_ok_def backup_name_key)
  have st2: "ops_ok sha ?base st2" using dist kept mine by (auto simp: ops_ok_def)
  have marked: "ops_ok sha ?base (set_backup ?bid f st2)"
    if "\<And>r. br_id (f r) = br_id r" "\<And>r. br_id r = ?bid \<Longrightarrow> backup_ok sha ?base (fs_files st2) (f r)" for f
    unfolding ops_ok_def set_backup_ids [of f, OF that(1)] using dist kept that(2) by (auto simp: set_backup_def)
  show ?thesis
  proof (cases res)
    case (Inr v)
    obtain meta dump loc where v: "v = (meta, dump, loc)" by (cases v) auto
    let ?st3 = "if be_db_up env 1 \<and> size_fits dump then set_backup ?bid (succeed sha (be_now env) meta dump loc) st2 else st2"
    have "ops_ok sha ?base (set_backup ?bid (succeed sha (be_now env) meta dump loc) st2)"
      using files(3) [of meta dump loc] Inr v by (intro marked) (auto simp: succeed_def backup_ok_def backup_name_key)
    then have "ops_ok sha ?base ?st3" using st2 by simp
    then show ?thesis using False fresh body Inr v
      by (simp add: run_postgres_backup_def Let_def purge_ok cleanup_expired_backups_def)
  next
    case (Inl e)
    have "ops_ok sha ?base (set_backup ?bid (\<lambda>r. r\<lparr>br_completed := Some (be_now env), br_status := FAILED, br_error := Some (exc_str e)\<rparr>) st2)"
      by (intro marked) (auto simp: backup_ok_def backup_name_key)
    then show ?thesis using False fresh body Inl st2 by (simp add: run_postgres_backup_def Let_def split: option.split)
  qed
qed (simp add: run_postgres_backup_def ok)

lemma run_restore_drill_kept:
  "backup_rows (fst (run_restore_drill sha digest env cfg bid st)) = backup_rows st"
  "is_backup_key k \<Longrightarrow> dict_get (fs_files (fst (run_restore_drill sha digest env cfg bid st))) (storage_path (backup_storage_path cfg) k) =
     dict_get (fs_files st) (storage_path (backup_storage_path cfg) k)"
  by (auto simp: run_restore_drill_def Let_def drill_body_def local_download_def update_conv' delete_conv'
      split: prod.splits sum.splits option.splits if_splits)

lemma ops_step_ok: "ops_step sha digest cfg st t \<Longrightarrow> ops_ok sha (backup_storage_path cfg) st \<Longrightarrow> ops_ok sha (backup_storage_path cfg) t"
proof (induction rule: ops_step.induct)
  case (drill_step st env bid)
  then show ?case
    by (auto simp: ops_ok_def run_restore_drill_kept is_backup_key_remote intro: backup_ok_files)
next
  case (application_step st db)
  then show ?case by (simp add: ops_ok_def)
next
  case (backup_step env st)
  then show ?case by (simp add: run_postgres_backup_ok)
qed

interpretation operations: invariant_system "ops_step sha digest cfg" "ops_ok sha (backup_storage_path cfg)" for sha digest cfg
  by unfold_locales (rule ops_step_ok)

lemma select_backup_sound: "select_backup bid rows = Some r \<Longrightarrow> r \<in> set rows"
proof -
  have "r \<in> set rows" if "sort_key (\<lambda>r. - br_created r) (filter (\<lambda>r. br_status r = SUCCESS) rows) = r # rs" for rs
    using arg_cong [OF that, of set] by auto
  then show "select_backup bid rows = Some r \<Longrightarrow> r \<in> set rows"
    by (auto simp: select_backup_def find_Some_iff split: option.splits list.splits)
qed

lemma audit_tables_keys: "(t, i) \<in> set (audit_tables digest tables aborted ts) \<Longrightarrow> t \<in> set ts"
  by (induction digest tables aborted ts rule: audit_tables.induct) (auto split: option.splits if_splits)

lemma audit_tables_get:
  "distinct ts \<Longrightarrow> (t, i) \<in> set (audit_tables digest tables aborted ts) \<Longrightarrow> dict_get (audit_tables digest tables aborted ts) t = Some i"
proof (induction digest tables aborted ts rule: audit_tables.induct)
  case (2 digest tables aborted t' ts)
  have "t \<noteq> t'" if "(t, i) \<in> set (audit_tables digest tables False ts)"
    using 2(3) that audit_tables_keys [of t i digest tables False ts] by auto
  then show ?case using 2 by (auto split: if_splits option.splits)
qed simp

text \<open>A database agrees with its own metadata.\<close>

lemma verify_restored_same:
  assumes "extract_verification_metadata digest db' = extract_verification_metadata digest db"
  shows "dr_status (verify_restored (Some (extract_verification_metadata digest db)) (extract_verification_metadata digest db') d) = SUCCESS"
proof -
  have "dict_get_or (vm_tables (extract_verification_metadata digest db)) (fst e) no_table = snd e"
    if "e \<in> set (vm_tables (extract_verification_metadata digest db))" for e
  proof -
    have "distinct tables_to_audit" by code_simp
    then show ?thesis using that audit_tables_get [of tables_to_audit "fst e" "snd e"]
      by (simp add: extract_verification_metadata_def dict_get_or_def)
  qed
  then show ?thesis unfolding assms
    by (auto simp: verify_restored_def Let_def expected_tables_def expected_migration_def list_all_iff rows_differ_def checksums_differ_def)
qed

lemma find_from_filter: "filter P xs = x # ys \<Longrightarrow> find P xs = Some x"
  by (induction xs) (auto split: if_splits)

lemma purge_keeps:
  assumes "bid \<notin> br_id ` set rs"
  shows "filter (\<lambda>r. br_id r = bid) (backup_rows (purge unlink base tr rs st)) = filter (\<lambda>r. br_id r = bid) (backup_rows st) \<and>
    dict_get (fs_files (purge unlink base tr rs st)) (storage_path base (remote_key bid)) = dict_get (fs_files st) (storage_path base (remote_key bid))"
  using assms
proof (induction rs arbitrary: tr st)
  case (Cons r rs)
  show ?case
  proof (cases "local_delete (unlink (remote_key (br_id r))) base (remote_key (br_id r)) (fs_files st)")
    case (Inr fs)
    have "dict_get fs (storage_path base (remote_key bid)) = dict_get (fs_files st) (storage_path base (remote_key bid))"
      using fun_cong [OF local_storage.del_held [OF Inr], of "remote_key bid"] Cons.prems by simp
    moreover have "filter (\<lambda>x. br_id x \<noteq> br_id r \<and> br_id x = bid) (backup_rows st) = filter (\<lambda>x. br_id x = bid) (backup_rows st)"
      using Cons.prems by (intro filter_cong) auto
    ultimately show ?thesis using Cons Inr by (simp add: conj_commute)
  qed (use Cons in auto)
qed simp

text \<open>What a backup that went through leaves: exactly one row of its name, and its file.\<close>

lemma backup_leaves:
  fixes sha :: "string \<Rightarrow> string" and digest :: "json list \<Rightarrow> string"
  assumes "bs_database_url cfg \<noteq> []" "backup_name env \<notin> br_id ` set (backup_rows st)" "be_db_up env 0" "be_db_up env 1"
    "be_upload env = None" "be_dump env (main_db st) = Inr dump" "0 \<le> backup_retention_days cfg" "size_fits dump"
  defines "r \<equiv> succeed sha (be_now env) (extract_verification_metadata digest (main_db st)) dump
    (storage_path (backup_storage_path cfg) (remote_key (backup_name env))) (new_backup (be_now env) (backup_name env) (backup_storage_path cfg))"
  shows "\<exists>st1. run_postgres_backup sha digest env cfg st = (st1, Inr r) \<and> filter (\<lambda>x. br_id x = backup_name env) (backup_rows st1) = [r] \<and>
    dict_get (fs_files st1) (storage_path (backup_storage_path cfg) (remote_key (backup_name env))) = Some dump"
proof -
  let ?base = "backup_storage_path cfg" and ?bid = "backup_name env" and ?r0 = "new_backup (be_now env) (backup_name env) (backup_storage_path cfg)"
  let ?st1 = "st\<lparr>backup_rows := backup_rows st @ [?r0]\<rparr>"
  let ?fin = "succeed sha (be_now env) (extract_verification_metadata digest (main_db st)) dump (storage_path ?base (remote_key ?bid))"
  obtain st2 where body: "backup_body sha digest env cfg ?bid ?st1 =
      (st2, Inr (extract_verification_metadata digest (main_db st), dump, storage_path ?base (remote_key ?bid)))"
    using assms(5,6) by (simp add: backup_body_def Let_def local_upload_def update_conv' is_backup_key_remote backup_name_key)
  note files = backup_body_files [OF body backup_name_key]
  let ?st3 = "set_backup ?bid ?fin st2"
  have ids: "br_id ?r0 = ?bid" "br_id (?fin ?r0) = ?bid" "br_created (?fin ?r0) = be_now env" by (simp_all add: new_backup_def succeed_def)
  have "filter (\<lambda>x. br_id x = ?bid) (map (\<lambda>r. if br_id r = ?bid then ?fin r else r) (backup_rows st)) = []"
    using assms(2) by (auto simp: filter_empty_conv image_iff)
  then have rows: "filter (\<lambda>x. br_id x = ?bid) (backup_rows ?st3) = [?fin ?r0]"
    by (simp add: set_backup_def files(1) ids)
  have stored: "dict_get (fs_files ?st3) (storage_path ?base (remote_key ?bid)) = Some dump" using files(3) by (simp add: set_backup_def)
  have "x = ?fin ?r0" if "x \<in> set (backup_rows ?st3)" "br_id x = ?bid" for x
    using that arg_cong [OF rows, of set] by auto
  then have young: "?bid \<notin> br_id ` set (filter (\<lambda>r. br_created r < be_now env - backup_retention_days cfg * 86400000000) (backup_rows ?st3))"
    using assms(7) ids(3) by auto
  note kept = purge_keeps [OF young, of "be_unlink env" ?base True ?st3]
  show ?thesis
    using assms(1-4,8) body rows stored kept find_from_filter [OF rows]
    by (simp add: run_postgres_backup_def Let_def cleanup_expired_backups_def r_def)
qed

lemma local_download_content:
  "dict_get fs (storage_path base k) = Some c \<Longrightarrow> \<exists>fs1. local_download base k p fs = Inr fs1 \<and> dict_get_or fs1 p [] = c"
  by (auto simp: local_download_def update_conv' dict_get_or_def)

lemma drill_body_result:
  assumes "drill_body sha digest env cfg r fs = (fs', made, Inr got)"
  shows "\<exists>c db. dict_get fs (storage_path (backup_storage_path cfg) (remote_key (br_id r))) = Some c \<and> br_checksum r \<in> {[], sha c} \<and>
    de_psql env c = Inr db \<and> got = extract_verification_metadata digest db"
proof (cases "dict_get fs (storage_path (backup_storage_path cfg) (remote_key (br_id r)))")
  case None
  then show ?thesis using assms by (simp add: drill_body_def Let_def local_download_def)
next
  case (Some c)
  then obtain fs1 where "local_download (backup_storage_path cfg) (remote_key (br_id r)) (temp_path (backup_storage_path cfg) (br_id r @ ''_restore.sql'')) fs = Inr fs1"
    "dict_get_or fs1 (temp_path (backup_storage_path cfg) (br_id r @ ''_restore.sql'')) [] = c" using local_download_content by blast
  then show ?thesis using assms Some by (auto simp: drill_body_def Let_def py_bind_def split: if_splits option.splits sum.splits)
qed


text \<open>C33: A backup that goes through is restorable at once: with the sessions answering, the dump and the upload
  working and a dump below 2 GiB, a drill that is given its id, and for which \<open>psql\<close> rebuilds a database with the metadata of the dumped
  one, succeeds.\<close>

theorem backup_then_drill:
  assumes "bs_database_url cfg \<noteq> []" "backup_name env \<notin> br_id ` set (backup_rows st)" "be_db_up env 0" "be_db_up env 1"
    "be_upload env = None" "be_dump env (main_db st) = Inr dump" "0 \<le> backup_retention_days cfg" "size_fits dump"
    and drill: "de_create denv = None" "de_psql denv dump = Inr db"
    "extract_verification_metadata digest db = extract_verification_metadata digest (main_db st)"
  shows "\<exists>st1 r st2 d. run_postgres_backup sha digest env cfg st = (st1, Inr r) \<and> br_status r = SUCCESS \<and>
    run_restore_drill sha digest denv cfg (Some (br_id r)) st1 = (st2, Inr d) \<and> dr_backup_id d = br_id r \<and> dr_status d = SUCCESS"
proof -
  let ?base = "backup_storage_path cfg" and ?bid = "backup_name env"
  let ?r = "succeed sha (be_now env) (extract_verification_metadata digest (main_db st)) dump
    (storage_path ?base (remote_key ?bid)) (new_backup (be_now env) ?bid ?base)"
  obtain st1 where st1: "run_postgres_backup sha digest env cfg st = (st1, Inr ?r)"
    "filter (\<lambda>x. br_id x = ?bid) (backup_rows st1) = [?r]" "dict_get (fs_files st1) (storage_path ?base (remote_key ?bid)) = Some dump"
    using backup_leaves [OF assms(1-8)] by blast
  have r: "br_id ?r = ?bid" "br_status ?r = SUCCESS" "br_checksum ?r = sha dump" "br_metadata ?r = Some (extract_verification_metadata digest (main_db st))"
    by (simp_all add: succeed_def new_backup_def)
  have sel: "select_backup (Some ?bid) (backup_rows st1) = Some ?r"
    using find_from_filter [OF st1(2)] by (simp add: select_backup_def backup_name_def)
  obtain fs where fs: "local_download ?base (remote_key ?bid) (temp_path ?base (?bid @ ''_restore.sql'')) (fs_files st1) = Inr fs"
    "dict_get_or fs (temp_path ?base (?bid @ ''_restore.sql'')) [] = dump" using local_download_content [OF st1(3)] by blast
  have body: "drill_body sha digest denv cfg ?r (fs_files st1) = (fs, True, Inr (extract_verification_metadata digest db))"
    by (simp add: drill_body_def Let_def r fs drill(1,2) py_bind_def)
  have "\<exists>st2 d. run_restore_drill sha digest denv cfg (Some ?bid) st1 = (st2, Inr d) \<and> dr_backup_id d = ?bid \<and> dr_status d = SUCCESS"
    using assms(1) sel body verify_restored_same [OF drill(3), of "drill_row (drill_name denv) ?bid"]
    by (simp add: run_restore_drill_def Let_def r drill_row_def) (simp add: verify_restored_def Let_def)
  then show ?thesis using st1(1) r(1,2) by metis
qed


section \<open>A sample\<close>

definition sample_cfg :: backup_settings where
  "sample_cfg = \<lparr>bs_database_url = ''postgresql://db/gaiaos'', backup_storage_path = ''/backups'', backup_retention_days = 30\<rparr>"

definition sample_db :: database where
  "sample_db = \<lparr>db_version = Some ''PostgreSQL 16.1 on x86_64'', db_alembic = Some (Some ''0012''),
     db_tables = [(''users'', [JStr ''u1'', JStr ''u2'']), (''investigations'', [])]\<rparr>"

definition sample_ops :: ops_state where
  "sample_ops = \<lparr>fs_files = [], backup_rows = [], drill_rows = [], scratch_dbs = [], main_db = sample_db\<rparr>"

definition sample_env :: backup_env where
  "sample_env = \<lparr>be_now = 1784851200000000, be_hex = ''a1b2c3'', be_db_up = (\<lambda>_. True), be_dump = (\<lambda>db. Inr ''DUMP''), be_upload = None, be_unlink = (\<lambda>_. True)\<rparr>"

definition sample_drill :: drill_env where
  "sample_drill = \<lparr>de_now = 1784854800000000, de_hex = ''d4e5f6'', de_scratch = ''gaiaos_scratch_1'', de_create = None, de_drop = True, de_psql = (\<lambda>c. Inr sample_db)\<rparr>"

definition sample_sha :: "string \<Rightarrow> string" where
  "sample_sha c = ''sha:'' @ c"

definition sample_digest :: "json list \<Rightarrow> string" where
  "sample_digest rows = int_str (int (length rows))"

definition sample_backup :: "ops_state \<times> backup_record py" where
  "sample_backup = run_postgres_backup sample_sha sample_digest sample_env sample_cfg sample_ops"

lemma sample_backup_row:
  "map (\<lambda>r. (br_id r, br_status r, br_checksum r)) (backup_rows (fst sample_backup)) = [(''backup_20260724_000000_a1b2c3'', SUCCESS, ''sha:DUMP'')]"
  by code_simp


theorem backup_then_drill_witness:
  "\<exists>st1 r st2 d. sample_backup = (st1, Inr r) \<and> br_status r = SUCCESS \<and>
    run_restore_drill sample_sha sample_digest sample_drill sample_cfg (Some (br_id r)) st1 = (st2, Inr d) \<and> dr_backup_id d = br_id r \<and> dr_status d = SUCCESS"
  unfolding sample_backup_def
  by (rule backup_then_drill [where dump = "''DUMP''" and db = sample_db]) (simp_all add: sample_cfg_def sample_env_def sample_ops_def sample_drill_def size_fits_def)

text \<open>A drill after the sample backup.\<close>

lemma sample_drill_run:
  "\<exists>st d. run_restore_drill sample_sha sample_digest sample_drill sample_cfg None (fst sample_backup) = (st, Inr d) \<and> dr_status d = SUCCESS \<and>
     dr_backup_id d = ''backup_20260724_000000_a1b2c3''"
proof -
  have "(case run_restore_drill sample_sha sample_digest sample_drill sample_cfg None (fst sample_backup) of (st, Inr d) \<Rightarrow>
      dr_status d = SUCCESS \<and> dr_backup_id d = ''backup_20260724_000000_a1b2c3'' | _ \<Rightarrow> False)" by code_simp
  then show ?thesis by (auto split: prod.splits sum.splits)
qed


section \<open>What the drills do not show\<close>

text \<open>The scheduled drill is called with its own name for the id of a backup, and so never finds one.\<close>

lemma scheduled_drill_fails:
  assumes "reaches (ops_step sha digest cfg) \<lparr>fs_files = fs, backup_rows = [], drill_rows = [], scratch_dbs = [], main_db = db\<rparr> st"
    and "run_restore_drill sha digest env cfg (Some ''restore_drill'') st = (st', Inr d)"
  shows "dr_status d = FAILED"
proof -
  have "ops_ok sha (backup_storage_path cfg) st" by (rule operations.reaches_inv [OF assms(1)]) (simp add: ops_ok_def)
  then have "br_id r \<noteq> ''restore_drill''" if "r \<in> set (backup_rows st)" for r
    using that by (auto simp: ops_ok_def backup_ok_def is_backup_key_def)
  then have "find (\<lambda>r. br_id r = ''restore_drill'') (backup_rows st) = None" by (auto simp: find_None_iff)
  then show ?thesis using assms(2) by (auto simp: run_restore_drill_def select_backup_def Let_def split: if_splits)
qed

text \<open>The audited \<open>metric_events\<close> is no table of the application: it is never compared. The first table that is missing
  ends the audit, since the failed query aborts the transaction.\<close>

lemma absent_table_not_audited:
  "dict_get (db_tables db) t = None \<Longrightarrow> (t, i) \<notin> set (vm_tables (extract_verification_metadata digest db))"
proof -
  have "(t, i) \<notin> set (audit_tables digest tables a ts)" if "dict_get tables t = None" for tables a ts
    using that by (induction digest tables a ts rule: audit_tables.induct) (auto split: option.splits if_splits)
  then show "dict_get (db_tables db) t = None \<Longrightarrow> (t, i) \<notin> set (vm_tables (extract_verification_metadata digest db))"
    by (simp add: extract_verification_metadata_def)
qed

lemma missing_users_ends_audit:
  "dict_get (db_tables db) ''users'' = None \<Longrightarrow> vm_tables (extract_verification_metadata digest db) = []"
  by (simp add: extract_verification_metadata_def tables_to_audit_def)

text \<open>A table that was empty and that the restore lost does not count as a difference.\<close>

lemma lost_empty_table_unnoticed:
  "dr_status (verify_restored (Some (extract_verification_metadata sample_digest sample_db))
     (extract_verification_metadata sample_digest (sample_db\<lparr>db_tables := [(''users'', [JStr ''u1'', JStr ''u2''])]\<rparr>)) (drill_row [] [])) = SUCCESS"
  by code_simp

text \<open>The row of a dump of 2 GiB or more is never marked as successful, although the caller gets a successful record: no
  drill will take it.\<close>

lemma large_backup_stays_running:
  assumes "bs_database_url cfg \<noteq> []" "backup_name env \<notin> br_id ` set (backup_rows st)" "be_db_up env 0" "\<not> be_db_up env 2"
    "be_upload env = None" "be_dump env (main_db st) = Inr dump" "\<not> size_fits dump"
  shows "\<exists>st1 r. run_postgres_backup sha digest env cfg st = (st1, Inr r) \<and> br_status r = SUCCESS \<and>
    backup_rows st1 = backup_rows st @ [new_backup (be_now env) (backup_name env) (backup_storage_path cfg)]"
  using assms by (simp add: run_postgres_backup_def Let_def backup_body_def local_upload_def update_conv' is_backup_key_remote backup_name_key succeed_def)

text \<open>If the first expired file cannot be removed, no expired backup is.\<close>

lemma undeletable_first_stops_cleanup:
  assumes "filter (\<lambda>r. br_created r < be_now env - backup_retention_days cfg * 86400000000) (backup_rows st) = r # rs"
    and "dict_get (fs_files st) (storage_path (backup_storage_path cfg) (remote_key (br_id r))) \<noteq> None" "\<not> be_unlink env (remote_key (br_id r))"
  shows "cleanup_expired_backups env cfg st = st"
  using assms by (auto simp: cleanup_expired_backups_def local_delete_def)

end
