(* ===== verification/Metrics.thy ===== *)
theory Metrics
  imports Dates Scaling Gateway "HOL-Library.List_Lexorder"
begin

text \<open>
  Metrics: the events and the rows they become (\<open>metrics/events.py\<close>, \<open>metrics/collector.py\<close>), the labelled
  counters, the roll-ups (\<open>metrics/aggregation.py\<close>) and the two administration routes over them
  (\<open>app/api/v1/admin_metrics.py\<close>). A row is stored as it is; the aggregates of the database are written out:
  \<open>PERCENTILE_CONT\<close> interpolates in double precision, \<open>AVG\<close> is the mean, converted to a float at the end.
\<close>

section \<open>Events and rows\<close>

datatype metric_event =
    Job_Started string "int option" int
  | Job_Completed string string flt flt "string option"
  | Job_Failed string string string int
  | Ingestion_Completed string int int int bool
  | Backup_Completed string int flt bool
  | Restore_Drill_Completed string string flt bool
  | Restore_Drill_Failed string string flt string
  | Circuit_State_Changed string string string
  | Cache_Hit string string bool
  | Degraded_Response_Emitted string string
  | Calibration_Completed string bool int flt
  | Planner_Region_Hint_Missing string
  | Location_Regex_Fallback_Executed string

record metric_row =
  mr_event_type :: string
  mr_group_key :: "string option"
  mr_duration_ms :: int
  mr_queue_wait_ms :: "int option"
  mr_cost :: rat
  mr_success :: bool
  mr_ts :: int

text \<open>\<open>int(x)\<close> of a float, \<open>Decimal(str(x))\<close>, and the column of six decimal places, which rounds half away from zero.\<close>

definition float_int :: "flt \<Rightarrow> int" where
  "float_int x = (if 0 \<le> x then \<lfloor>x\<rfloor> else - \<lfloor>- x\<rfloor>)"

definition decimal_of :: "flt \<Rightarrow> rat" where
  "decimal_of x =
     (if x = 0 then 0
      else let e = dec_exp \<bar>x\<bar>; (m, n) = shortest_from 16 1 \<bar>x\<bar> e in sgn x * (of_int m * 10 powi (e - int n + 1)))"

definition numeric6 :: "rat \<Rightarrow> rat" where
  "numeric6 q = sgn q * (of_int \<lfloor>\<bar>q\<bar> * 1000000 + 1 / 2\<rfloor> / 1000000)"

definition queue_wait :: "int option \<Rightarrow> int \<Rightarrow> int option" where
  "queue_wait enqueued started =
     map_option (\<lambda>t. max 0 (float_int (fmul (fl64 (of_int (started - t) / 1000000)) 1000))) enqueued"

definition plain_row :: "string \<Rightarrow> string option \<Rightarrow> int \<Rightarrow> bool \<Rightarrow> int \<Rightarrow> metric_row" where
  "plain_row ty key duration ok now = \<lparr>mr_event_type = ty, mr_group_key = key, mr_duration_ms = duration, mr_queue_wait_ms = None,
     mr_cost = 0, mr_success = ok, mr_ts = now\<rparr>"

text \<open>The row of an event; the events of the resilience layer have none and are only logged.\<close>

definition metric_row_of :: "int \<Rightarrow> metric_event \<Rightarrow> metric_row option" where
  "metric_row_of now ev =
     (case ev of
        Job_Started _ enqueued started \<Rightarrow> Some ((plain_row ''JobStarted'' None 0 True now)\<lparr>mr_queue_wait_ms := queue_wait enqueued started\<rparr>)
      | Job_Completed _ _ duration cost tier \<Rightarrow>
          Some ((plain_row ''JobCompleted'' tier (float_int (fmul duration 1000)) True now)\<lparr>mr_cost := numeric6 (decimal_of cost)\<rparr>)
      | Job_Failed _ _ _ _ \<Rightarrow> Some (plain_row ''JobFailed'' None 0 False now)
      | Ingestion_Completed source _ _ duration ok \<Rightarrow> Some (plain_row ''IngestionCompleted'' (Some source) duration ok now)
      | Backup_Completed bid _ duration ok \<Rightarrow> Some (plain_row ''BackupCompleted'' (Some bid) (float_int duration) ok now)
      | Restore_Drill_Completed did _ duration ok \<Rightarrow> Some (plain_row ''RestoreDrillCompleted'' (Some did) (float_int duration) ok now)
      | Restore_Drill_Failed did _ duration _ \<Rightarrow> Some (plain_row ''RestoreDrillFailed'' (Some did) (float_int duration) False now)
      | Calibration_Completed model promoted _ _ \<Rightarrow> Some (plain_row ''CalibrationCompleted'' (Some model) 0 promoted now)
      | Planner_Region_Hint_Missing agent \<Rightarrow> Some (plain_row ''PlannerRegionHintMissing'' (Some agent) 0 True now)
      | Location_Regex_Fallback_Executed agent \<Rightarrow> Some (plain_row ''LocationRegexFallbackExecuted'' (Some agent) 0 True now)
      | _ \<Rightarrow> None)"

text \<open>The columns of durations are 32 bits wide; a row beyond is refused when it is flushed.\<close>

definition int32 :: "int \<Rightarrow> bool" where
  "int32 n \<longleftrightarrow> - 2147483648 \<le> n \<and> n \<le> 2147483647"

definition persist_metric :: "int \<Rightarrow> metric_event \<Rightarrow> metric_row list \<Rightarrow> metric_row list py" where
  "persist_metric now ev tbl =
     (case metric_row_of now ev of
        None \<Rightarrow> Inr tbl
      | Some r \<Rightarrow>
          (if int32 (mr_duration_ms r) \<and> (case mr_queue_wait_ms r of None \<Rightarrow> True | Some w \<Rightarrow> int32 w) \<and> \<bar>mr_cost r\<bar> < 10000
           then Inr (tbl @ [r]) else Inl (Other_Error ''DataError'')))"

section \<open>Counters\<close>

record metric_counter =
  mc_name :: string
  mc_counts :: "((string \<times> string) list, int) dict"

text \<open>The key of some labels: their pairs in the order of the names, which are distinct keyword names.\<close>

definition label_key :: "(string \<times> string) list \<Rightarrow> (string \<times> string) list" where
  "label_key labels = sort_key (\<lambda>l. map char_code (fst l)) labels"

definition counter_get :: "(string \<times> string) list \<Rightarrow> metric_counter \<Rightarrow> int" where
  "counter_get labels c = dict_get_or (mc_counts c) (label_key labels) 0"

definition counter_inc :: "(string \<times> string) list \<Rightarrow> int \<Rightarrow> metric_counter \<Rightarrow> metric_counter \<times> metric_event list" where
  "counter_inc labels amount c =
     (let agent = dict_get_or labels ''agent'' ''unknown''
      in (c\<lparr>mc_counts := dict_set (label_key labels) (counter_get labels c + amount) (mc_counts c)\<rparr>,
          if mc_name c = ''gaiaos_planner_region_hint_missing_total'' then [Planner_Region_Hint_Missing agent]
          else if mc_name c = ''gaiaos_location_regex_fallback_total'' then [Location_Regex_Fallback_Executed agent]
          else []))"

section \<open>Roll-ups\<close>

definition window_us :: "(string, int) dict" where
  "window_us = [(''1d'', 86400000000), (''7d'', 7 * 86400000000), (''30d'', 30 * 86400000000), (''90d'', 90 * 86400000000)]"

definition SUPPORTED_EVENT_TYPES :: "string list" where
  "SUPPORTED_EVENT_TYPES = [''JobCompleted'', ''JobFailed'', ''IngestionCompleted'', ''BackupCompleted'', ''RestoreDrillCompleted'',
     ''RestoreDrillFailed'', ''CalibrationCompleted'', ''PlannerRegionHintMissing'', ''LocationRegexFallbackExecuted'']"

datatype group_by = COMPLEXITY_TIER | DAY | EVENT_TYPE

text \<open>The expression of the \<open>GROUP BY\<close> clause, and the key that is shown for it.\<close>

datatype group_id = By_Key "string option" | By_Day int

definition group_of :: "group_by \<Rightarrow> metric_row \<Rightarrow> group_id" where
  "group_of g r = (case g of COMPLEXITY_TIER \<Rightarrow> By_Key (mr_group_key r) | DAY \<Rightarrow> By_Day (mr_ts r div 86400000000)
     | EVENT_TYPE \<Rightarrow> By_Key (Some (mr_event_type r)))"

definition group_label :: "group_id \<Rightarrow> string option" where
  "group_label k = (case k of By_Key s \<Rightarrow> s | By_Day d \<Rightarrow> Some (date_text (d * 86400000000)))"

definition percentile_cont :: "flt \<Rightarrow> int list \<Rightarrow> flt" where
  "percentile_cont pct ds =
     (let xs = sort ds; pos = fmul pct (of_nat (length xs - 1)); lo = nat \<lfloor>pos\<rfloor>; hi = nat \<lceil>pos\<rceil>
      in if lo = hi then of_int (xs ! lo)
         else fadd (of_int (xs ! lo)) (fmul (fsub pos (of_nat lo)) (fsub (of_int (xs ! hi)) (of_int (xs ! lo)))))"

definition sql_mean :: "rat list \<Rightarrow> flt" where
  "sql_mean xs = fl64 (sum_list xs / of_nat (length xs))"

record metric_rollup =
  ru_group_key :: "string option"
  ru_count :: int
  p50_latency_ms :: flt
  p95_latency_ms :: flt
  avg_cost_estimate :: flt
  success_rate :: flt

definition row_to_rollup :: "group_id \<times> metric_row list \<Rightarrow> metric_rollup" where
  "row_to_rollup g = (case g of (k, rs) \<Rightarrow>
     \<lparr>ru_group_key = group_label k, ru_count = int (length rs),
      p50_latency_ms = percentile_cont (1 / 2) (map mr_duration_ms rs),
      p95_latency_ms = percentile_cont (fl64 (95 / 100)) (map mr_duration_ms rs),
      avg_cost_estimate = sql_mean (map mr_cost rs),
      success_rate = sql_mean (map (\<lambda>r. if mr_success r then 1 else 0) rs)\<rparr>)"

text \<open>The groups; the order of groups of equal size, which the query leaves open, is that of their rows.\<close>

definition metric_groups :: "group_by \<Rightarrow> metric_row list \<Rightarrow> (group_id \<times> metric_row list) list" where
  "metric_groups g rows = map (\<lambda>k. (k, filter (\<lambda>r. group_of g r = k) rows)) (remdups (map (group_of g) rows))"

definition order_value :: "group_id \<times> metric_row list \<Rightarrow> int" where
  "order_value g = (case fst g of By_Day d \<Rightarrow> d | By_Key _ \<Rightarrow> - int (length (snd g)))"

definition in_window :: "int \<Rightarrow> int \<Rightarrow> string option \<Rightarrow> metric_row \<Rightarrow> bool" where
  "in_window now interval et r \<longleftrightarrow> now - interval < mr_ts r \<and> (et = None \<or> et = Some (mr_event_type r))"

definition aggregate_metrics :: "int \<Rightarrow> string \<Rightarrow> group_by \<Rightarrow> string option \<Rightarrow> metric_row list \<Rightarrow> metric_rollup list py" where
  "aggregate_metrics now win g et tbl =
     (if (case et of None \<Rightarrow> False | Some e \<Rightarrow> e \<notin> set SUPPORTED_EVENT_TYPES) then Inl (Value_Error ''Unsupported event_type'')
      else case dict_get window_us win of
             None \<Rightarrow> Inl (Key_Error win)
           | Some interval \<Rightarrow> Inr (map row_to_rollup (sort_key order_value (metric_groups g (filter (in_window now interval et) tbl)))))"

section \<open>Routes\<close>

record metrics_response =
  mp_window :: string
  mp_group_by :: group_by
  mp_event_type :: "string option"
  mp_rollups :: "metric_rollup list"
  mp_queue_depth :: int
  mp_utilization :: flt
  mp_recommended :: int
  mp_history :: "scaling_history option"

text \<open>The scaling figures are those of the scaling policy; a failing history is left out.\<close>

definition get_admin_metrics ::
    "request_state \<Rightarrow> int \<Rightarrow> string \<Rightarrow> group_by \<Rightarrow> string option \<Rightarrow> metric_row list \<Rightarrow> scaling_metrics \<Rightarrow> scaling_history py \<Rightarrow> metrics_response py" where
  "get_admin_metrics rq now win g et tbl scaling history =
     py_bind (require_role [role_admin] rq) (\<lambda>_.
       if (case et of None \<Rightarrow> False | Some e \<Rightarrow> e \<notin> set SUPPORTED_EVENT_TYPES) then Inl (HTTP_Exception 422 ''Unsupported event_type'')
       else case aggregate_metrics now win g et tbl of
              Inl (Value_Error m) \<Rightarrow> Inl (HTTP_Exception 422 m)
            | Inl e \<Rightarrow> Inl e
            | Inr rollups \<Rightarrow>
                Inr \<lparr>mp_window = win, mp_group_by = g, mp_event_type = et, mp_rollups = rollups,
                     mp_queue_depth = current_queue_depth scaling, mp_utilization = worker_utilization_pct scaling,
                     mp_recommended = sm_recommended scaling, mp_history = (case history of Inl _ \<Rightarrow> None | Inr h \<Rightarrow> Some h)\<rparr>)"

text \<open>\<open>s.split(sep)[1]\<close> of a text that starts with the separator: up to its next occurrence.\<close>

fun up_to :: "string \<Rightarrow> string \<Rightarrow> string" where
  "up_to sep [] = []"
| "up_to sep (c # cs) = (if starts_with (c # cs) sep then [] else c # up_to sep cs)"

definition scrape_token :: "string \<Rightarrow> string \<Rightarrow> string" where
  "scrape_token auth_header custom_header =
     (if starts_with auth_header ''Bearer '' then str_strip (up_to ''Bearer '' (drop 7 auth_header))
      else if starts_with auth_header ''Token '' then str_strip (up_to ''Token '' (drop 6 auth_header))
      else str_strip custom_header)"

definition is_ascii :: "string \<Rightarrow> bool" where
  "is_ascii s \<longleftrightarrow> list_all (\<lambda>c. char_code c < 128) s"

text \<open>\<open>compare_digest\<close> refuses texts beyond ASCII.\<close>

definition compare_digest :: "string \<Rightarrow> string \<Rightarrow> bool py" where
  "compare_digest a b = (if is_ascii a \<and> is_ascii b then Inr (a = b) else Inl (Type_Error ''comparing strings with non-ASCII characters is not supported''))"

definition verify_prometheus_auth :: "string option \<Rightarrow> string \<Rightarrow> string \<Rightarrow> request_state \<Rightarrow> unit py" where
  "verify_prometheus_auth configured auth_header custom_header rq =
     (let token = scrape_token auth_header custom_header; by_role = py_bind (require_role [role_admin] rq) (\<lambda>_. Inr ())
      in case configured of
           Some (c # cs) \<Rightarrow>
             (if token = [] then by_role
              else py_bind (compare_digest token (c # cs)) (\<lambda>same. if same then Inr () else by_role))
         | _ \<Rightarrow> by_role)"

definition gauge :: "circuit_status \<Rightarrow> flt" where
  "gauge st = (case st of OPEN \<Rightarrow> 1 | HALF_OPEN \<Rightarrow> 1 / 2 | CLOSED \<Rightarrow> 0)"

definition counter_lines :: "string \<Rightarrow> string \<Rightarrow> metric_counter \<Rightarrow> string list" where
  "counter_lines name help c =
     [''# HELP '' @ name @ '' '' @ help, ''# TYPE '' @ name @ '' counter''] @
     map (\<lambda>a. name @ ''{agent=\"'' @ a @ ''\"} '' @ int_str (counter_get [(''agent'', a)] c))
       [''seismic'', ''ocean'', ''atmosphere'', ''air_quality'', ''wildfire'']"

definition get_prometheus_metrics :: "metric_counter \<Rightarrow> metric_counter \<Rightarrow> (string \<Rightarrow> circuit_status) \<Rightarrow> scaling_metrics \<Rightarrow> string list" where
  "get_prometheus_metrics planner fallback circuit scaling =
     counter_lines ''gaiaos_planner_region_hint_missing_total'' ''Missing region_hint before fallback count'' planner @
     counter_lines ''gaiaos_location_regex_fallback_total'' ''Location regex fallback execution count'' fallback @
     [''# HELP gaiaos_circuit_breaker_state Circuit breaker status gauge (0=closed, 0.5=half-open, 1=open)'',
      ''# TYPE gaiaos_circuit_breaker_state gauge''] @
     map (\<lambda>s. ''gaiaos_circuit_breaker_state{source=\"'' @ s @ ''\"} '' @ float_repr (gauge (circuit s)))
       [''usgs'', ''noaa'', ''copernicus'', ''era5'', ''gdelt'', ''arxiv''] @
     [''# HELP gaiaos_queue_depth Current RQ task queue depth'', ''# TYPE gaiaos_queue_depth gauge'',
      ''gaiaos_queue_depth '' @ int_str (current_queue_depth scaling),
      ''# HELP gaiaos_worker_utilization_pct Current worker utilization percentage'', ''# TYPE gaiaos_worker_utilization_pct gauge'',
      ''gaiaos_worker_utilization_pct '' @ float_repr (worker_utilization_pct scaling),
      ''# HELP gaiaos_recommended_pool_size Recommended RQ worker pool size'', ''# TYPE gaiaos_recommended_pool_size gauge'',
      ''gaiaos_recommended_pool_size '' @ int_str (sm_recommended scaling), []]"

section \<open>Percentiles\<close>

lemma fl64_le_int: "x \<le> of_int n \<Longrightarrow> \<bar>n\<bar> \<le> 2 ^ 53 \<Longrightarrow> fl64 x \<le> of_int n"
  using fl64_mono [of x "of_int n"] by (simp add: fl64_int)

lemma fl64_ge_int: "of_int n \<le> x \<Longrightarrow> \<bar>n\<bar> \<le> 2 ^ 53 \<Longrightarrow> of_int n \<le> fl64 x"
  using fl64_mono [of "of_int n" x] by (simp add: fl64_int)

text \<open>Interpolation between two numbers of the column stays between them and is monotone.\<close>

definition interpolate :: "int \<Rightarrow> int \<Rightarrow> flt \<Rightarrow> flt" where
  "interpolate a b p = fadd (of_int a) (fmul p (fsub (of_int b) (of_int a)))"

lemma interpolate_between:
  assumes "int32 a" "int32 b" "a \<le> b" "0 \<le> p" "p \<le> 1"
  shows "of_int a \<le> interpolate a b p" "interpolate a b p \<le> of_int b"
proof -
  have d: "fsub (of_int b) (of_int a) = of_int (b - a)" using assms fl64_int [of "b - a"] by (simp add: fsub_def int32_def)
  have "0 \<le> fmul p (of_int (b - a))" using assms by (simp add: fmul_def fl64_nonneg)
  then show "of_int a \<le> interpolate a b p"
    unfolding interpolate_def fadd_def d using assms by (intro fl64_ge_int) (auto simp: int32_def)
  have "p * of_int (b - a) \<le> of_int (b - a)" using assms by (intro mult_left_le_one_le) auto
  then have "fmul p (of_int (b - a)) \<le> of_int (b - a)"
    unfolding fmul_def using assms by (intro fl64_le_int) (auto simp: int32_def)
  then show "interpolate a b p \<le> of_int b"
    unfolding interpolate_def fadd_def d using assms by (intro fl64_le_int) (auto simp: int32_def)
qed

lemma interpolate_mono:
  assumes "int32 a" "int32 b" "a \<le> b" "p \<le> q"
  shows "interpolate a b p \<le> interpolate a b q"
proof -
  have "fsub (of_int b) (of_int a) = of_int (b - a)" using assms fl64_int [of "b - a"] by (simp add: fsub_def int32_def)
  then show ?thesis using assms unfolding interpolate_def fadd_def fmul_def
    by (intro fl64_mono add_left_mono mult_right_mono) auto
qed

text \<open>The value at a position of a sorted list.\<close>

definition value_at :: "int list \<Rightarrow> flt \<Rightarrow> flt" where
  "value_at xs pos = (let lo = nat \<lfloor>pos\<rfloor>; hi = nat \<lceil>pos\<rceil>
     in if lo = hi then of_int (xs ! lo) else interpolate (xs ! lo) (xs ! hi) (fsub pos (of_nat lo)))"

lemma percentile_value: "percentile_cont pct ds = value_at (sort ds) (fmul pct (of_nat (length ds - 1)))"
  by (simp add: percentile_cont_def value_at_def interpolate_def Let_def)

lemma position_parts:
  fixes pos :: flt
  assumes "0 \<le> pos" "pos \<le> of_nat n"
  shows "nat \<lfloor>pos\<rfloor> \<le> nat \<lceil>pos\<rceil>" "nat \<lceil>pos\<rceil> \<le> n" "nat \<lceil>pos\<rceil> \<le> Suc (nat \<lfloor>pos\<rfloor>)"
    "0 \<le> fsub pos (of_nat (nat \<lfloor>pos\<rfloor>))" "fsub pos (of_nat (nat \<lfloor>pos\<rfloor>)) \<le> 1"
proof -
  show "nat \<lfloor>pos\<rfloor> \<le> nat \<lceil>pos\<rceil>" by (intro nat_mono) linarith
  show "nat \<lceil>pos\<rceil> \<le> n" using assms(2) by (simp add: ceiling_le_iff nat_le_iff)
  show "nat \<lceil>pos\<rceil> \<le> Suc (nat \<lfloor>pos\<rfloor>)" using assms(1) by linarith
  have f: "(of_nat (nat \<lfloor>pos\<rfloor>) :: flt) = of_int \<lfloor>pos\<rfloor>" using assms(1) by simp
  show "0 \<le> fsub pos (of_nat (nat \<lfloor>pos\<rfloor>))" unfolding fsub_def f by (intro fl64_nonneg) simp
  have "pos - of_int \<lfloor>pos\<rfloor> \<le> 1" by linarith
  then show "fsub pos (of_nat (nat \<lfloor>pos\<rfloor>)) \<le> 1" unfolding fsub_def f using fl64_mono [of "pos - of_int \<lfloor>pos\<rfloor>" 1] by simp
qed

lemma value_at_between:
  assumes "sorted xs" "\<forall>x\<in>set xs. int32 x" "0 \<le> pos" "pos \<le> of_nat n" "n < length xs"
  shows "of_int (xs ! nat \<lfloor>pos\<rfloor>) \<le> value_at xs pos" "value_at xs pos \<le> of_int (xs ! nat \<lceil>pos\<rceil>)"
proof -
  note parts = position_parts [OF assms(3,4)]
  have "xs ! nat \<lfloor>pos\<rfloor> \<le> xs ! nat \<lceil>pos\<rceil>" using assms(1,5) parts by (intro sorted_nth_mono) auto
  moreover have "int32 (xs ! nat \<lfloor>pos\<rfloor>)" "int32 (xs ! nat \<lceil>pos\<rceil>)" using assms(2,5) parts by auto
  ultimately show "of_int (xs ! nat \<lfloor>pos\<rfloor>) \<le> value_at xs pos" "value_at xs pos \<le> of_int (xs ! nat \<lceil>pos\<rceil>)"
    using interpolate_between parts(4,5) by (auto simp: value_at_def Let_def)
qed

lemma value_at_mono:
  assumes "sorted xs" "\<forall>x\<in>set xs. int32 x" "0 \<le> p" "p \<le> q" "q \<le> of_nat n" "n < length xs"
  shows "value_at xs p \<le> value_at xs q"
proof -
  note pp = position_parts [of p n] and qq = position_parts [of q n]
  have le: "\<lfloor>p\<rfloor> \<le> \<lfloor>q\<rfloor>" "p \<le> of_nat n" "0 \<le> q" using assms(3-5) by (auto intro: floor_mono)
  note bp = value_at_between [OF assms(1,2,3) le(2) assms(6)] and bq = value_at_between [OF assms(1,2) le(3) assms(5,6)]
  show ?thesis
  proof (cases "\<lfloor>p\<rfloor> = \<lfloor>q\<rfloor>")
    case True
    show ?thesis
    proof (cases "nat \<lfloor>p\<rfloor> = nat \<lceil>p\<rceil>")
      case here: True
      then have "value_at xs p = of_int (xs ! nat \<lfloor>q\<rfloor>)" using True by (simp add: value_at_def Let_def)
      then show ?thesis using bq(1) by simp
    next
      case False
      have hi: "\<lceil>p\<rceil> = \<lfloor>p\<rfloor> + 1" "\<lceil>q\<rceil> = \<lfloor>p\<rfloor> + 1" using False True assms(3,4) by linarith+
      have nth: "xs ! nat \<lfloor>p\<rfloor> \<le> xs ! nat (\<lfloor>p\<rfloor> + 1)"
        using assms(1,6) pp [OF assms(3) le(2)] hi by (intro sorted_nth_mono) auto
      have "int32 (xs ! nat \<lfloor>p\<rfloor>)" "int32 (xs ! nat (\<lfloor>p\<rfloor> + 1))" using assms(2,6) pp [OF assms(3) le(2)] hi by auto
      moreover have "fsub p (of_nat (nat \<lfloor>p\<rfloor>)) \<le> fsub q (of_nat (nat \<lfloor>p\<rfloor>))"
        unfolding fsub_def using assms(4) by (intro fl64_mono) simp
      moreover have "nat \<lfloor>p\<rfloor> \<noteq> nat (\<lfloor>p\<rfloor> + 1)" using assms(3) by linarith
      ultimately show ?thesis using interpolate_mono nth by (simp add: value_at_def Let_def hi True [symmetric])
    qed
  next
    case False
    then have "nat \<lceil>p\<rceil> \<le> nat \<lfloor>q\<rfloor>" using le(1) by (intro nat_mono) linarith
    moreover have "nat \<lfloor>q\<rfloor> < length xs" using qq(1,2) [OF le(3) assms(5)] assms(6) by linarith
    ultimately have "xs ! nat \<lceil>p\<rceil> \<le> xs ! nat \<lfloor>q\<rfloor>" using assms(1) by (intro sorted_nth_mono)
    then have "(of_int (xs ! nat \<lceil>p\<rceil>) :: flt) \<le> of_int (xs ! nat \<lfloor>q\<rfloor>)" by simp
    then show ?thesis using bp(2) bq(1) by linarith
  qed
qed

text \<open>The percentiles of a column are ordered and lie within its range.\<close>

lemma percentiles_ordered:
  assumes "ds \<noteq> []" "\<forall>d\<in>set ds. int32 d" "length ds \<le> 2 ^ 53" "0 \<le> p" "p \<le> q" "q \<le> 1"
  shows "of_int (Min (set ds)) \<le> percentile_cont p ds" "percentile_cont p ds \<le> percentile_cont q ds" "percentile_cont q ds \<le> of_int (Max (set ds))"
proof -
  let ?n = "length ds - 1" and ?xs = "sort ds"
  have n: "?n < length ?xs" using assms(1) by (cases ds) auto
  have big: "fl64 (of_nat ?n) = of_nat ?n" using fl64_int [of "int ?n"] assms(3) by simp
  have "q * of_nat ?n \<le> of_nat ?n" using assms(4-6) by (intro mult_left_le_one_le) auto
  then have pos: "0 \<le> fmul p (of_nat ?n)" "fmul p (of_nat ?n) \<le> fmul q (of_nat ?n)" "fmul q (of_nat ?n) \<le> of_nat ?n"
    using assms(4-6) fl64_mono [of "q * of_nat ?n" "of_nat ?n"] big
    by (auto simp: fmul_def intro!: fl64_nonneg fl64_mono mult_right_mono)
  have s: "sorted ?xs" "\<forall>x\<in>set ?xs. int32 x" using assms(2) by auto
  show "percentile_cont p ds \<le> percentile_cont q ds"
    unfolding percentile_value by (rule value_at_mono [OF s pos n])
  have range: "Min (set ds) \<le> ?xs ! i" "?xs ! i \<le> Max (set ds)" if "i < length ds" for i
    using that nth_mem [of i ?xs] by auto
  have p': "fmul p (of_nat ?n) \<le> of_nat ?n" "0 \<le> fmul q (of_nat ?n)" using pos by linarith+
  have "(of_int (Min (set ds)) :: flt) \<le> of_int (?xs ! nat \<lfloor>fmul p (of_nat ?n)\<rfloor>)"
    using range(1) position_parts(1,2) [OF pos(1) p'(1)] n by simp
  then show "of_int (Min (set ds)) \<le> percentile_cont p ds"
    unfolding percentile_value using value_at_between(1) [OF s pos(1) p'(1) n] by linarith
  have "(of_int (?xs ! nat \<lceil>fmul q (of_nat ?n)\<rceil>) :: flt) \<le> of_int (Max (set ds))"
    using range(2) position_parts(2) [OF p'(2) pos(3)] n by simp
  then show "percentile_cont q ds \<le> of_int (Max (set ds))"
    unfolding percentile_value using value_at_between(2) [OF s p'(2) pos(3) n] by linarith
qed

section \<open>What the roll-ups say\<close>

lemma metric_groups_partition:
  "distinct (map fst (metric_groups g rows))" "fst ` set (metric_groups g rows) = group_of g ` set rows"
  "(k, rs) \<in> set (metric_groups g rows) \<Longrightarrow> rs = filter (\<lambda>r. group_of g r = k) rows \<and> rs \<noteq> []"
  by (auto simp: metric_groups_def comp_def filter_empty_conv image_iff)

lemma sum_list_filter_keys:
  "distinct ks \<Longrightarrow> f ` set rows \<subseteq> set ks \<Longrightarrow> (\<Sum>k\<leftarrow>ks. length (filter (\<lambda>r. f r = k) rows)) = length rows"
proof (induction rows)
  case (Cons r rows)
  have "(\<Sum>k\<leftarrow>ks. length (filter (\<lambda>x. f x = k) (r # rows))) = (\<Sum>k\<leftarrow>ks. (if f r = k then 1 else 0) + length (filter (\<lambda>x. f x = k) rows))"
    by (rule arg_cong [of _ _ sum_list], rule map_cong) auto
  also have "\<dots> = (\<Sum>k\<leftarrow>ks. if f r = k then 1 else 0) + (\<Sum>k\<leftarrow>ks. length (filter (\<lambda>x. f x = k) rows))" by (rule sum_list_addf)
  also have "(\<Sum>k\<leftarrow>ks. if f r = k then 1 else 0) = (1 :: nat)"
    using Cons.prems by (simp add: sum_list_distinct_conv_sum_set sum.delta)
  finally show ?case using Cons by simp
qed simp

lemma group_counts: "(\<Sum>x\<leftarrow>metric_groups g rows. length (snd x)) = length rows"
  using sum_list_filter_keys [of "remdups (map (group_of g) rows)" "group_of g" rows]
  by (simp add: metric_groups_def comp_def)

lemma sum_list_int: "(\<Sum>x\<leftarrow>xs. int (f x)) = int (\<Sum>x\<leftarrow>xs. f x)"
  by (induction xs) auto

lemma mean_bounds:
  assumes "xs \<noteq> []" "\<forall>x\<in>set xs. 0 \<le> x \<and> x \<le> 1"
  shows "0 \<le> sql_mean xs" "sql_mean xs \<le> 1"
proof -
  have "0 \<le> sum_list xs" using assms(2) by (intro sum_list_nonneg) auto
  moreover have "sum_list xs \<le> of_nat (length xs)"
    using sum_list_mono [of xs "\<lambda>x. x" "\<lambda>_. 1"] assms(2) by (simp add: sum_list_triv)
  ultimately show "0 \<le> sql_mean xs" "sql_mean xs \<le> 1"
    using fl64_mono [of "sum_list xs / of_nat (length xs)" 1] assms(1) by (auto simp: sql_mean_def divide_le_eq intro!: fl64_nonneg divide_nonneg_nonneg)
qed

lemma percentile_levels: "1 / 2 \<le> fl64 (95 / 100)" "fl64 (95 / 100) \<le> 1"
  by code_simp+

lemma rollup_bounds:
  fixes k :: group_id
  assumes "rs \<noteq> []" "\<And>r. r \<in> set rs \<Longrightarrow> r \<in> set ws \<and> group_of g r = k" "\<forall>r\<in>set rs. int32 (mr_duration_ms r)" "length rs \<le> 2 ^ 53"
  defines "u \<equiv> row_to_rollup (k, rs)"
  shows "\<exists>r \<in> set ws. \<exists>r' \<in> set ws. group_of g r = group_of g r' \<and> ru_group_key u = group_label (group_of g r) \<and>
      of_int (mr_duration_ms r) \<le> p50_latency_ms u \<and> p50_latency_ms u \<le> p95_latency_ms u \<and>
      p95_latency_ms u \<le> of_int (mr_duration_ms r') \<and> 0 \<le> success_rate u \<and> success_rate u \<le> 1"
proof -
  let ?ds = "map mr_duration_ms rs"
  have ord: "of_int (Min (set ?ds)) \<le> p50_latency_ms u" "p50_latency_ms u \<le> p95_latency_ms u" "p95_latency_ms u \<le> of_int (Max (set ?ds))"
    using percentiles_ordered [of ?ds "1 / 2" "fl64 (95 / 100)"] assms(1,3,4) percentile_levels by (auto simp: u_def row_to_rollup_def)
  have "Min (set ?ds) \<in> set ?ds" "Max (set ?ds) \<in> set ?ds" using assms(1) by (intro Min_in Max_in; simp)+
  then obtain r r' where "r \<in> set rs" "r' \<in> set rs" "Min (set ?ds) = mr_duration_ms r" "Max (set ?ds) = mr_duration_ms r'" by auto
  moreover have "\<forall>x \<in> set (map (\<lambda>r. if mr_success r then 1 else 0) rs). 0 \<le> x \<and> x \<le> (1 :: rat)" by auto
  then have "0 \<le> success_rate u" "success_rate u \<le> 1"
    using mean_bounds [of "map (\<lambda>r. if mr_success r then 1 else 0) rs"] assms(1) by (simp_all only: u_def row_to_rollup_def prod.case metric_rollup.simps map_is_Nil_conv not_False_eq_True)
  moreover have "ru_group_key u = group_label k" by (simp add: u_def row_to_rollup_def)
  ultimately show ?thesis using ord assms(2) by metis
qed

text \<open>C35: For a supported type of events and a known window the roll-ups partition the rows of that type younger than
  the window, the rows at its edge left out: they are the groups of those rows, each once, with their sizes, which
  add up to the number of rows, the largest first, or the days in order; median and 95th percentile are ordered and
  lie within the durations of the group, and the success rate between 0 and 1. Any other type is refused.\<close>

theorem rollups_partition:
  fixes now :: int and et :: "string option"
  assumes rows: "\<forall>r\<in>set tbl. int32 (mr_duration_ms r)" "length tbl \<le> 2 ^ 53" and win: "dict_get window_us win = Some interval"
  defines "ws \<equiv> filter (\<lambda>r. now - interval < mr_ts r \<and> (et = None \<or> et = Some (mr_event_type r))) tbl"
  shows "case aggregate_metrics now win g et tbl of
      Inl e \<Rightarrow> (\<exists>t. et = Some t \<and> t \<notin> set SUPPORTED_EVENT_TYPES) \<and> (\<exists>m. e = Value_Error m)
    | Inr rollups \<Rightarrow> (et = None \<or> (\<exists>t \<in> set SUPPORTED_EVENT_TYPES. et = Some t)) \<and>
        (\<exists>gs. rollups = map row_to_rollup gs \<and> distinct (map fst gs) \<and> fst ` set gs = group_of g ` set ws \<and>
          (\<forall>(k, rs) \<in> set gs. rs = filter (\<lambda>r. group_of g r = k) ws) \<and> sorted (map order_value gs)) \<and>
        (\<Sum>u\<leftarrow>rollups. ru_count u) = int (length ws) \<and>
        (\<forall>u \<in> set rollups. \<exists>r \<in> set ws. \<exists>r' \<in> set ws. group_of g r = group_of g r' \<and> ru_group_key u = group_label (group_of g r) \<and>
          of_int (mr_duration_ms r) \<le> p50_latency_ms u \<and> p50_latency_ms u \<le> p95_latency_ms u \<and>
          p95_latency_ms u \<le> of_int (mr_duration_ms r') \<and> 0 \<le> success_rate u \<and> success_rate u \<le> 1)"
proof (cases "case et of None \<Rightarrow> False | Some e \<Rightarrow> e \<notin> set SUPPORTED_EVENT_TYPES")
  case True
  then show ?thesis by (auto simp: aggregate_metrics_def split: option.splits)
next
  case False
  let ?gs = "sort_key order_value (metric_groups g ws)"
  have res: "aggregate_metrics now win g et tbl = Inr (map row_to_rollup ?gs)"
    using False win by (simp add: aggregate_metrics_def ws_def in_window_def [abs_def])
  have et: "et = None \<or> (\<exists>t \<in> set SUPPORTED_EVENT_TYPES. et = Some t)" using False by (cases et) auto
  have "mset (map fst ?gs) = mset (map fst (metric_groups g ws))" by simp
  then have "distinct (map fst ?gs)" using metric_groups_partition(1) mset_eq_imp_distinct_iff by blast
  then have gs: "distinct (map fst ?gs) \<and> fst ` set ?gs = group_of g ` set ws \<and>
      (\<forall>(k, rs) \<in> set ?gs. rs = filter (\<lambda>r. group_of g r = k) ws) \<and> sorted (map order_value ?gs)"
    using metric_groups_partition(2) [of g ws] metric_groups_partition(3) [of _ _ g ws] sorted_sort_key [of order_value] by auto
  have "(\<Sum>u\<leftarrow>map row_to_rollup ?gs. ru_count u) = (\<Sum>x\<leftarrow>?gs. int (length (snd x)))"
    by (simp add: comp_def row_to_rollup_def case_prod_beta)
  also have "\<dots> = (\<Sum>x\<leftarrow>metric_groups g ws. int (length (snd x)))"
    by (simp only: mset_map mset_sort flip: sum_mset_sum_list)
  also have "\<dots> = int (length ws)" unfolding group_counts [of g ws, symmetric] by (rule sum_list_int)
  finally have counts: "(\<Sum>u\<leftarrow>map row_to_rollup ?gs. ru_count u) = int (length ws)" .
  have each: "\<exists>r \<in> set ws. \<exists>r' \<in> set ws. group_of g r = group_of g r' \<and> ru_group_key u = group_label (group_of g r) \<and>
      of_int (mr_duration_ms r) \<le> p50_latency_ms u \<and> p50_latency_ms u \<le> p95_latency_ms u \<and>
      p95_latency_ms u \<le> of_int (mr_duration_ms r') \<and> 0 \<le> success_rate u \<and> success_rate u \<le> 1" if "u \<in> set (map row_to_rollup ?gs)" for u
  proof -
    obtain k rs where u: "u = row_to_rollup (k, rs)" "(k, rs) \<in> set (metric_groups g ws)" using \<open>u \<in> _\<close> by auto
    have rs: "rs \<noteq> []" "\<And>r. r \<in> set rs \<Longrightarrow> r \<in> set ws \<and> group_of g r = k" "set rs \<subseteq> set tbl" "length rs \<le> length tbl"
      using metric_groups_partition(3) [OF u(2)] by (auto simp: ws_def intro: order_trans [OF length_filter_le])
    show ?thesis unfolding u(1) by (rule rollup_bounds [OF rs(1,2)]) (use rows rs(3,4) in auto)
  qed
  have "\<exists>gs. map row_to_rollup ?gs = map row_to_rollup gs \<and> distinct (map fst gs) \<and> fst ` set gs = group_of g ` set ws \<and>
      (\<forall>(k, rs) \<in> set gs. rs = filter (\<lambda>r. group_of g r = k) ws) \<and> sorted (map order_value gs)"
    by (rule exI [of _ ?gs], rule conjI [OF refl gs])
  then show ?thesis unfolding res sum.case using et counts each by blast
qed

text \<open>The columns keep what the first hypothesis asks for.\<close>

lemma persist_metric_fits:
  "persist_metric now ev tbl = Inr tbl' \<Longrightarrow> \<forall>r\<in>set tbl. int32 (mr_duration_ms r) \<Longrightarrow> \<forall>r\<in>set tbl'. int32 (mr_duration_ms r)"
  by (auto simp: persist_metric_def split: option.splits if_splits)

definition sample_metrics :: "metric_row list" where
  "sample_metrics =
     [plain_row ''JobCompleted'' (Some ''trivial'') 100 True 1000, plain_row ''JobCompleted'' (Some ''trivial'') 300 True 2000,
      plain_row ''JobFailed'' None 0 False 3000]"

theorem rollups_partition_witness:
  "\<exists>rollups. aggregate_metrics 5000 ''1d'' COMPLEXITY_TIER None sample_metrics = Inr rollups \<and> (\<Sum>u\<leftarrow>rollups. ru_count u) = 3"
proof -
  have rows: "\<forall>r\<in>set sample_metrics. int32 (mr_duration_ms r)" "length sample_metrics \<le> 2 ^ 53"
    by (auto simp: sample_metrics_def plain_row_def int32_def)
  have win: "dict_get window_us ''1d'' = Some 86400000000" by code_simp
  have all: "length (filter (\<lambda>r. 5000 - 86400000000 < mr_ts r) sample_metrics) = 3" by code_simp
  have ok: "\<exists>rollups. aggregate_metrics 5000 ''1d'' COMPLEXITY_TIER None sample_metrics = Inr rollups" using win by (simp add: aggregate_metrics_def)
  then show ?thesis using rollups_partition [OF rows win, where now = 5000 and et = None and g = COMPLEXITY_TIER] all by auto
qed

section \<open>Counters count\<close>

lemma label_key_same:
  assumes "distinct (map fst xs)" "distinct (map fst ys)"
  shows "label_key xs = label_key ys \<longleftrightarrow> set xs = set ys"
proof
  have set: "set (label_key zs) = set zs" for zs by (simp add: label_key_def)
  show "label_key xs = label_key ys \<Longrightarrow> set xs = set ys" using set by metis
  assume same: "set xs = set ys"
  let ?f = "\<lambda>l :: string \<times> string. map char_code (fst l)"
  have "inj char_code" by (auto simp: inj_def char_code_def)
  then have names: "map char_code a = map char_code b \<longleftrightarrow> a = b" for a b by (simp add: inj_map_eq_map)
  have inj: "inj_on ?f (set zs)" "distinct zs" if "distinct (map fst zs)" for zs
    using that names unfolding distinct_map inj_on_def by blast+
  have "map ?f (label_key xs) = map ?f (label_key ys)"
    using inj [OF assms(1)] inj [OF assms(2)] same
    by (intro sorted_distinct_set_unique) (auto simp: label_key_def distinct_map)
  then show "label_key xs = label_key ys"
    using inj_on_map_eq_map [of ?f "label_key xs" "label_key ys"] inj(1) [OF assms(1)] same by (simp add: set)
qed

text \<open>A counter counts per set of labels, in whatever order the labels are written: an increment adds to the count
  of exactly those labels.\<close>

theorem counter_counts:
  assumes "distinct (map fst xs)" "distinct (map fst ys)"
  shows "counter_get ys (fst (counter_inc xs n c)) = counter_get ys c + (if set xs = set ys then n else 0)"
  using label_key_same [OF assms]
  by (auto simp: counter_get_def counter_inc_def Let_def dict_get_or_def update_conv')

section \<open>Access to the scrape route\<close>

text \<open>The scrape route opens for nobody but the holder of the configured token and administrators: it is granted
  exactly if a token is configured and presented as it is, or the request carries a live, active, verified
  administrator (and no token that makes the comparison raise).\<close>

theorem prometheus_access_exact:
  "verify_prometheus_auth configured auth_header custom_header rq = Inr () \<longleftrightarrow>
     (let token = scrape_token auth_header custom_header; keyed = (\<exists>k. configured = Some k \<and> k \<noteq> []) \<and> token \<noteq> []
      in (keyed \<and> configured = Some token \<and> is_ascii token) \<or>
         (\<not> (keyed \<and> \<not> (is_ascii token \<and> is_ascii (the configured))) \<and> (\<exists>u. require_role [role_admin] rq = Inr u)))"
proof (cases "\<exists>k. configured = Some k \<and> k \<noteq> []")
  case True
  then obtain c cs where "configured = Some (c # cs)" by (auto simp: neq_Nil_conv)
  then show ?thesis
    by (auto simp: verify_prometheus_auth_def Let_def compare_digest_def py_bind_def split: sum.splits)
next
  case False
  then have "verify_prometheus_auth configured auth_header custom_header rq = py_bind (require_role [role_admin] rq) (\<lambda>_. Inr ())"
    by (auto simp: verify_prometheus_auth_def Let_def split: option.split list.split)
  then show ?thesis using False by (auto simp: Let_def py_bind_def split: sum.splits)
qed

theorem counter_counts_witness:
  "counter_get [(''source'', ''usgs''), (''agent'', ''seismic'')]
     (fst (counter_inc [(''agent'', ''seismic''), (''source'', ''usgs'')] 2 \<lparr>mc_name = ''c'', mc_counts = []\<rparr>)) = 2"
proof -
  have "set [(''agent'', ''seismic''), (''source'', ''usgs'')] = set [(''source'', ''usgs''), (''agent'', ''seismic'')]" by auto
  then show ?thesis
    using counter_counts [of "[(''agent'', ''seismic''), (''source'', ''usgs'')]" "[(''source'', ''usgs''), (''agent'', ''seismic'')]" 2
      "\<lparr>mc_name = ''c'', mc_counts = []\<rparr>"] by (simp add: counter_get_def dict_get_or_def)
qed

section \<open>What the figures hide\<close>

text \<open>Every job writes a row when it starts, which counts as a success: if all jobs fail, the group of the failed jobs
  still shows half of them as successful. The type of these rows cannot be asked for.\<close>

lemma failed_jobs_half_successful:
  "map (\<lambda>u. (ru_group_key u, success_rate u))
     (case aggregate_metrics 100 ''1d'' COMPLEXITY_TIER None
        (concat (map (\<lambda>ev. case metric_row_of 50 ev of None \<Rightarrow> [] | Some r \<Rightarrow> [r]) [Job_Started ''i'' None 0, Job_Failed ''i'' ''job_retries_exhausted'' ''e'' 3]))
      of Inl _ \<Rightarrow> [] | Inr us \<Rightarrow> us) = [(None, 1 / 2)]"
  by code_simp

lemma job_started_not_supported: "''JobStarted'' \<notin> set SUPPORTED_EVENT_TYPES"
  by code_simp

text \<open>Without a filter the complexity tiers are mixed with the names of sources, models and agents and the ids of backups,
  all of which are stored in the same column.\<close>

lemma tiers_mixed_with_sources:
  "map ru_group_key (case aggregate_metrics 100 ''1d'' COMPLEXITY_TIER None
      (concat (map (\<lambda>ev. case metric_row_of 50 ev of None \<Rightarrow> [] | Some r \<Rightarrow> [r])
        [Job_Completed ''i'' ''complete'' 1 0 (Some ''trivial''), Ingestion_Completed ''usgs'' 1 1 5 True])) of Inl _ \<Rightarrow> [] | Inr us \<Rightarrow> us) =
     [Some ''trivial'', Some ''usgs'']"
  by code_simp

text \<open>A token beyond ASCII makes the comparison raise instead of being refused.\<close>

lemma non_ascii_token_raises:
  "verify_prometheus_auth (Some ''secret'') (''Bearer '' @ [char_of (233 :: nat)]) [] rq =
     Inl (Type_Error ''comparing strings with non-ASCII characters is not supported'')"
proof -
  have "scrape_token (''Bearer '' @ [char_of (233 :: nat)]) [] = [char_of (233 :: nat)]" "\<not> is_ascii [char_of (233 :: nat)]" by code_simp+
  then show ?thesis by (simp add: verify_prometheus_auth_def Let_def compare_digest_def py_bind_def)
qed

text \<open>The scheme \<open>Token\<close> is read by the route, but the gateway in front of it refuses every scheme other than \<open>Bearer\<close>.\<close>

lemma token_scheme_refused:
  assumes "hr_authorization hr = Some (''Token '' @ tok)"
  shows "snd (authenticate env Jwt_Provider hr rq st) = Inl (HTTP_Exception 401 ''Invalid authorization header format. Expected 'Bearer <token>'.'')"
proof -
  have "\<exists>ws. str_words (''Token '' @ tok) = ''Token'' # ws"
    by (subst str_words.simps) (simp add: is_space_def char_code_def)
  then obtain ws where ws: "str_words (''Token '' @ tok) = ''Token'' # ws" by blast
  have "str_lower ''Token'' \<noteq> ''bearer''" by code_simp
  then show ?thesis using assms ws by (simp add: authenticate_def jwt_authenticate_def split: list.split)
qed

end
