(* ===== verification/Sdk.thy ===== *)
theory Sdk
  imports Dates Gateway Investigations
begin

text \<open>
  The client library (\<open>sdk/python/gaiaos_sdk\<close>): the typed errors, the event stream, the two clients, whose
  synchronous and asynchronous forms do the same calls, and of the generated layer below them the
  constructors of the payloads, the requests of the endpoints they use, and the reading of replies into models.
  The transport is a parameter: it turns a request into a reply or raises. A reply carries its decoded JSON, if its
  content is JSON. Reading a model checks what can fail: missing keys, times, identifiers, nested models.
\<close>

section \<open>Errors\<close>

datatype api_error_kind = Authentication_Error | Permission_Denied_Error | Not_Found_Error | Rate_Limit_Error "flt option"
  | Server_Error | Plain_Api_Error

datatype sdk_error = Gaia_Api_Error api_error_kind int string "json option" "json option" | Incompatible_Server_Error string | Python_Error py_exc

type_synonym 'a sdk = "sdk_error + 'a"

definition from_py :: "'a py \<Rightarrow> 'a sdk" where
  "from_py r = (case r of Inl e \<Rightarrow> Inl (Python_Error e) | Inr x \<Rightarrow> Inr x)"

definition sdk_bind :: "'a sdk \<Rightarrow> ('a \<Rightarrow> 'b sdk) \<Rightarrow> 'b sdk" where
  "sdk_bind r f = (case r of Inl e \<Rightarrow> Inl e | Inr x \<Rightarrow> f x)"

definition is_digits :: "string \<Rightarrow> bool" where
  "is_digits s \<longleftrightarrow> s \<noteq> [] \<and> list_all (\<lambda>c. dec_value c \<noteq> None) s"

definition retry_seconds :: "string option \<Rightarrow> flt option" where
  "retry_seconds hdr = (case hdr of None \<Rightarrow> None | Some h \<Rightarrow> (if is_digits h then float_text h else None))"

definition error_kind :: "int \<Rightarrow> string option \<Rightarrow> api_error_kind" where
  "error_kind status hdr =
     (if status = 401 then Authentication_Error else if status = 403 then Permission_Denied_Error else if status = 404 then Not_Found_Error
      else if status = 429 then Rate_Limit_Error (retry_seconds hdr) else if 500 \<le> status then Server_Error else Plain_Api_Error)"

text \<open>The second argument is whatever the caller passes for the decoded body: a dictionary or anything else.\<close>

definition raise_for_status :: "int \<Rightarrow> json option \<Rightarrow> string option \<Rightarrow> unit sdk" where
  "raise_for_status status body_json hdr =
     (if status < 400 then Inr ()
      else
        (let d = (case body_json of Some (JObj kvs) \<Rightarrow> Some (dict_get_or kvs ''detail'' (JObj kvs)) | _ \<Rightarrow> None);
             code = (case body_json of Some (JObj kvs) \<Rightarrow> dict_get kvs ''error_code'' | _ \<Rightarrow> None);
             plain = ''Request failed with status code '' @ int_str status;
             message = (case d of Some (JStr m) \<Rightarrow> m
               | Some (JObj kvs) \<Rightarrow> (case dict_get kvs ''message'' of Some m \<Rightarrow> json_str m | None \<Rightarrow> plain)
               | _ \<Rightarrow> plain)
         in Inl (Gaia_Api_Error (error_kind status hdr) status message d code)))"

section \<open>The event stream\<close>

record stream_event =
  se_event :: string
  se_data :: "(string \<times> json) list"
  se_id :: "string option"
  se_retry :: "int option"

text \<open>A frame as the stream library delivers it; its data is the stored text of the server.\<close>

record sse_message =
  sm_event :: string
  sm_data :: stored_text
  sm_id :: "string option"
  sm_retry :: "int option"

definition parse_sse_data :: "stored_text \<Rightarrow> (string \<times> json) list" where
  "parse_sse_data raw =
     (if raw = Other_Text [] then []
      else case json_loads raw of
             Inr (JObj kvs) \<Rightarrow> kvs
           | Inr j \<Rightarrow> [(''content'', j)]
           | Inl _ \<Rightarrow> [(''raw'', JStr (case raw of Other_Text s \<Rightarrow> s | Json_Text j \<Rightarrow> []))])"

definition stream_investigation_events :: "sse_message list \<Rightarrow> stream_event list" where
  "stream_investigation_events ms =
     map (\<lambda>m. \<lparr>se_event = (if sm_event m = [] then ''message'' else sm_event m), se_data = parse_sse_data (sm_data m), se_id = sm_id m,
       se_retry = sm_retry m\<rparr>) ms"

section \<open>Payloads\<close>

text \<open>The constructor of a generated class: its fields with a flag for those without default.\<close>

definition attrs_init :: "(string \<times> bool) list \<Rightarrow> (string \<times> json) list \<Rightarrow> json py" where
  "attrs_init cls kwargs =
     (case filter (\<lambda>k. k \<notin> fst ` set cls) (map fst kwargs) of
        k # _ \<Rightarrow> Inl (Type_Error (''got an unexpected keyword argument '' @ quoted k))
      | [] \<Rightarrow>
          (case filter (\<lambda>f. snd f \<and> fst f \<notin> fst ` set kwargs) cls of
             f # _ \<Rightarrow> Inl (Type_Error (''missing a required argument: '' @ quoted (fst f)))
           | [] \<Rightarrow> Inr (JObj (concat (map (\<lambda>f. case dict_get kwargs (fst f) of None \<Rightarrow> [] | Some v \<Rightarrow> [(fst f, v)]) cls)))))"

definition InvestigationCreateRequest :: "(string \<times> bool) list" where
  "InvestigationCreateRequest = [(''query'', True), (''consent_public_research'', False)]"

definition UserLoginRequest :: "(string \<times> bool) list" where
  "UserLoginRequest = [(''email'', True), (''password'', True)]"

definition UserRegisterRequest :: "(string \<times> bool) list" where
  "UserRegisterRequest = [(''email'', True), (''password'', True), (''full_name'', False)]"

definition CreateApiKeyRequest :: "(string \<times> bool) list" where
  "CreateApiKeyRequest = [(''name'', True)]"

section \<open>Models of replies\<close>

text \<open>What reading a field can make fail. A field that is optional, or whose reader falls back to the value itself,
  is \<open>Plain\<close>; the flag says whether its key must be there.\<close>

datatype field_spec = Plain | Stamp | Identifier | Const string | Items | Object model | Objects model
  and model = Model "(string \<times> bool \<times> field_spec) list"

text \<open>\<open>dict(src)\<close>: an object, or a list of pairs, of which the empty text is one without any.\<close>

definition dict_of_json :: "json \<Rightarrow> (string \<times> json) list py" where
  "dict_of_json j =
     (case j of
        JObj kvs \<Rightarrow> Inr kvs
      | JArr xs \<Rightarrow>
          (if list_all (\<lambda>x. case x of JArr [JStr k, v] \<Rightarrow> True | _ \<Rightarrow> False) xs
           then Inr (fold (\<lambda>x d. case x of JArr [JStr k, v] \<Rightarrow> dict_set k v d | _ \<Rightarrow> d) xs [])
           else Inl (Value_Error ''dictionary update sequence element''))
      | JStr [] \<Rightarrow> Inr []
      | JStr _ \<Rightarrow> Inl (Value_Error ''dictionary update sequence element'')
      | _ \<Rightarrow> Inl (Type_Error ''object is not iterable''))"

fun each_ok :: "('a \<Rightarrow> unit py) \<Rightarrow> 'a list \<Rightarrow> unit py" where
  "each_ok f [] = Inr ()"
| "each_ok f (x # xs) = py_bind (f x) (\<lambda>_. each_ok f xs)"

fun check_field :: "field_spec \<Rightarrow> json \<Rightarrow> unit py"
  and from_dict :: "model \<Rightarrow> json \<Rightarrow> unit py"
  and check_fields :: "(string \<times> bool \<times> field_spec) list \<Rightarrow> (string \<times> json) list \<Rightarrow> unit py" where
  "check_field Plain j = Inr ()"
| "check_field Stamp j =
     (case j of JStr s \<Rightarrow> (case fromisoformat s of None \<Rightarrow> Inl (Value_Error ''Invalid isoformat string'') | Some _ \<Rightarrow> Inr ())
      | _ \<Rightarrow> Inl (Type_Error ''fromisoformat: argument must be str''))"
| "check_field Identifier j =
     (case j of JStr s \<Rightarrow> py_bind (uuid_parse s) (\<lambda>_. Inr ()) | _ \<Rightarrow> Inl (Other_Error ''AttributeError''))"
| "check_field (Const c) j = (if j = JStr c then Inr () else Inl (Value_Error ''must match const''))"
| "check_field Items j = py_bind (json_iter j) (\<lambda>_. Inr ())"
| "check_field (Object m) j = from_dict m j"
| "check_field (Objects m) j = py_bind (json_iter j) (\<lambda>xs. each_ok (from_dict m) xs)"
| "from_dict (Model fs) j = py_bind (dict_of_json j) (check_fields fs)"
| "check_fields [] kvs = Inr ()"
| "check_fields ((k, need, spec) # fs) kvs =
     (case dict_get kvs k of
        Some v \<Rightarrow> py_bind (check_field spec v) (\<lambda>_. check_fields fs kvs)
      | None \<Rightarrow> (if need then Inl (Key_Error k) else check_fields fs kvs))"

definition ErrorResponse :: model where
  "ErrorResponse = Model [(''detail'', True, Plain), (''error_code'', True, Plain)]"

definition ValidationErrorModel :: model where
  "ValidationErrorModel = Model [(''loc'', True, Items), (''msg'', True, Plain), (''type'', True, Plain), (''ctx'', False, Object (Model [])), (''input'', False, Plain)]"

definition InvestigationCreateResponse :: model where
  "InvestigationCreateResponse = Model [(''investigation_id'', True, Identifier), (''poll_url'', True, Plain), (''status'', True, Const ''accepted''),
     (''stream_url'', True, Plain)]"

definition InvestigationStatusResponse :: model where
  "InvestigationStatusResponse = Model [(''answer'', True, Plain), (''completed_at'', True, Plain), (''complexity_tier'', True, Plain), (''confidence'', True, Plain),
     (''created_at'', True, Stamp), (''execution_trace'', True, Plain), (''investigation_id'', True, Identifier), (''status'', True, Plain),
     (''evidence_gaps'', False, Plain)]"

definition TraceEdgeModel :: model where
  "TraceEdgeModel = Model [(''id'', True, Plain), (''source'', True, Plain), (''target'', True, Plain), (''label'', False, Plain), (''type'', False, Plain)]"

definition TraceNodeModel :: model where
  "TraceNodeModel = Model [(''id'', True, Plain), (''label'', True, Plain), (''type'', True, Plain), (''details'', False, Object (Model [])),
     (''status'', False, Plain), (''timestamp'', False, Plain)]"

definition TraceMetadataModel :: model where
  "TraceMetadataModel = Model ([(''created_at'', True, Stamp), (''investigation_id'', True, Identifier), (''status'', True, Plain)] @
     map (\<lambda>k. (k, False, Plain)) [''completed_at'', ''complexity_tier'', ''confidence'', ''edge_count''] @ [(''generated_at'', False, Stamp)] @
     map (\<lambda>k. (k, False, Plain)) [''has_collaboration'', ''has_degraded_mode'', ''has_replan'', ''node_count'', ''schema_version''])"

definition InvestigationTraceModel :: model where
  "InvestigationTraceModel = Model [(''edges'', True, Objects TraceEdgeModel), (''investigation_id'', True, Identifier), (''metadata'', True, Object TraceMetadataModel),
     (''nodes'', True, Objects TraceNodeModel), (''summary'', True, Object (Model [])), (''schema_version'', False, Plain)]"

definition TokenResponseModel :: model where
  "TokenResponseModel = Model [(''access_token'', True, Plain), (''expires_in'', True, Plain), (''token_type'', False, Plain)]"

definition UserResponseModel :: model where
  "UserResponseModel = Model [(''created_at'', True, Stamp), (''email'', True, Plain), (''full_name'', True, Plain), (''id'', True, Identifier),
     (''is_active'', True, Plain), (''is_verified'', True, Plain), (''last_login_at'', True, Plain), (''role'', True, Plain)]"

definition ApiKeyCreatedModel :: model where
  "ApiKeyCreatedModel = Model [(''created_at'', True, Stamp), (''id'', True, Identifier), (''key'', True, Plain), (''key_id'', True, Plain), (''name'', True, Plain)]"

definition ApiKeyResponseModel :: model where
  "ApiKeyResponseModel = Model [(''created_at'', True, Stamp), (''id'', True, Identifier), (''is_revoked'', True, Plain), (''key_id'', True, Plain), (''name'', True, Plain),
     (''last_used_at'', False, Plain), (''revoked_at'', False, Plain)]"

definition ApiKeyRevokedModel :: model where
  "ApiKeyRevokedModel = Model [(''key_id'', True, Plain), (''status'', False, Plain)]"

definition HazardEventModel :: model where
  "HazardEventModel = Model [(''created_at'', True, Stamp), (''details'', True, Plain), (''event_date'', True, Stamp), (''event_type'', True, Plain),
     (''external_id'', True, Plain), (''id'', True, Identifier), (''region_label'', True, Plain), (''source'', True, Plain)]"

definition PatternFindingModel :: model where
  "PatternFindingModel = Model ([(''algorithm_version'', True, Plain), (''baseline_rate'', True, Plain), (''created_at'', True, Stamp), (''description'', True, Plain),
     (''id'', True, Identifier), (''lift'', True, Plain), (''mined_at'', True, Stamp)] @
     map (\<lambda>k. (k, True, Plain)) [''observed_rate'', ''pattern_hash'', ''region_label'', ''source_event_type'', ''statistical_confidence'', ''support_count'',
       ''supporting_event_ids'', ''target_event_type'', ''time_window_days'', ''total_source_events'', ''total_target_events''] @
     [(''uncertainty'', True, Object (Model [])), (''version'', True, Plain)])"

definition ResearchInvestigationModel :: model where
  "ResearchInvestigationModel = Model [(''complexity_tier'', True, Plain), (''confidence_summary'', True, Plain), (''consent_public_research'', True, Plain),
     (''created_at'', True, Stamp), (''domains_involved'', True, Plain), (''investigation_id'', True, Identifier), (''query_category'', True, Plain),
     (''completed_at'', False, Plain), (''execution_trace'', False, Plain), (''query_text'', False, Plain)]"

definition LivenessModel :: model where
  "LivenessModel = Model [(''app_version'', True, Plain), (''schema_version'', True, Plain), (''status'', True, Plain)]"

section \<open>Endpoints\<close>

datatype reply_reader = No_Value | Reads model | Reads_List model

datatype parsed = No_Parsed | Parsed_Model model json | Parsed_List "json list"

record endpoint =
  ep_method :: string
  ep_url :: string
  ep_replies :: "(int \<times> reply_reader) list"

record sdk_request =
  sr_method :: string
  sr_url :: string
  sr_headers :: "(string, string) dict"
  sr_json :: "json option"

record sdk_reply =
  rp_status :: int
  rp_json :: "json option"
  rp_retry_after :: "string option"

text \<open>\<open>HTTPStatus(n)\<close> knows the registered codes only.\<close>

definition known_status :: "int \<Rightarrow> bool" where
  "known_status n \<longleftrightarrow> n \<in> {100..103} \<union> {200..208} \<union> {226} \<union> {300..305} \<union> {307, 308} \<union> {400..418} \<union> {421..426} \<union> {428, 429, 431, 451} \<union> {500..508} \<union> {510, 511}"

definition reply_json :: "sdk_reply \<Rightarrow> json py" where
  "reply_json r = (case rp_json r of None \<Rightarrow> Inl (Value_Error ''JSONDecodeError'') | Some j \<Rightarrow> Inr j)"

definition parse_response :: "endpoint \<Rightarrow> sdk_reply \<Rightarrow> parsed py" where
  "parse_response ep r =
     (if \<not> known_status (rp_status r) then Inl (Value_Error ''is not a valid HTTPStatus'')
      else case dict_get (ep_replies ep) (rp_status r) of
             Some (Reads m) \<Rightarrow> py_bind (reply_json r) (\<lambda>j. py_bind (from_dict m j) (\<lambda>_. Inr (Parsed_Model m j)))
           | Some (Reads_List m) \<Rightarrow>
               py_bind (reply_json r) (\<lambda>j. py_bind (json_iter j) (\<lambda>xs. py_bind (each_ok (from_dict m) xs) (\<lambda>_. Inr (Parsed_List xs))))
           | _ \<Rightarrow> Inr No_Parsed)"

text \<open>\<open>quote(s, safe="")\<close>.\<close>

definition hex_upper :: "int \<Rightarrow> char" where
  "hex_upper n = ''0123456789ABCDEF'' ! nat n"

definition quote_char :: "char \<Rightarrow> string" where
  "quote_char c = (let n = char_code c in
     if 48 \<le> n \<and> n \<le> 57 \<or> 65 \<le> n \<and> n \<le> 90 \<or> 97 \<le> n \<and> n \<le> 122 \<or> c \<in> set ''_.-~'' then [c]
     else if n < 128 then ''%'' @ [hex_upper (n div 16), hex_upper (n mod 16)]
     else ''%C'' @ [if n < 192 then CHR ''2'' else CHR ''3''] @ ''%'' @ (let k = 128 + n mod 64 in [hex_upper (k div 16), hex_upper (k mod 16)]))"

definition url_quote :: "string \<Rightarrow> string" where
  "url_quote s = concat (map quote_char s)"

definition validation_reply :: "int \<times> reply_reader" where
  "validation_reply = (422, Reads (Model [(''detail'', False, Objects ValidationErrorModel)]))"

definition ep_create_investigation :: endpoint where
  "ep_create_investigation = \<lparr>ep_method = ''post'', ep_url = ''/api/v1/investigations'',
     ep_replies = [(202, Reads InvestigationCreateResponse), (422, No_Value), (503, Reads ErrorResponse)]\<rparr>"

definition ep_get_investigation :: "string \<Rightarrow> endpoint" where
  "ep_get_investigation i = \<lparr>ep_method = ''get'', ep_url = ''/api/v1/investigations/'' @ url_quote i,
     ep_replies = [(200, Reads InvestigationStatusResponse), (403, Reads ErrorResponse), (404, Reads ErrorResponse), validation_reply]\<rparr>"

definition ep_get_trace :: "string \<Rightarrow> endpoint" where
  "ep_get_trace i = \<lparr>ep_method = ''get'', ep_url = ''/api/v1/investigations/'' @ url_quote i @ ''/trace'',
     ep_replies = [(200, Reads InvestigationTraceModel), (403, Reads ErrorResponse), (404, Reads ErrorResponse), validation_reply]\<rparr>"

definition ep_login :: endpoint where
  "ep_login = \<lparr>ep_method = ''post'', ep_url = ''/api/v1/auth/login'', ep_replies = [(200, Reads TokenResponseModel), (401, No_Value), validation_reply]\<rparr>"

definition ep_register :: endpoint where
  "ep_register = \<lparr>ep_method = ''post'', ep_url = ''/api/v1/auth/register'', ep_replies = [(201, Reads UserResponseModel), (409, No_Value), (422, No_Value)]\<rparr>"

definition ep_create_api_key :: endpoint where
  "ep_create_api_key = \<lparr>ep_method = ''post'', ep_url = ''/api/v1/api-keys'', ep_replies = [(201, Reads ApiKeyCreatedModel), validation_reply]\<rparr>"

definition ep_list_api_keys :: endpoint where
  "ep_list_api_keys = \<lparr>ep_method = ''get'', ep_url = ''/api/v1/api-keys'', ep_replies = [(200, Reads_List ApiKeyResponseModel)]\<rparr>"

definition ep_revoke_api_key :: "string \<Rightarrow> endpoint" where
  "ep_revoke_api_key k = \<lparr>ep_method = ''delete'', ep_url = ''/api/v1/api-keys/'' @ url_quote k, ep_replies = [(200, Reads ApiKeyRevokedModel), validation_reply]\<rparr>"

text \<open>The listings are asked for with the default parameters of the generated functions, written into the address.\<close>

definition ep_patterns :: endpoint where
  "ep_patterns = \<lparr>ep_method = ''get'', ep_url = ''/api/v1/research/patterns?sort_by=confidence&order=desc&limit=50&offset=0'',
     ep_replies = [(200, Reads_List PatternFindingModel), validation_reply, (503, Reads ErrorResponse)]\<rparr>"

definition ep_hazard_events :: endpoint where
  "ep_hazard_events = \<lparr>ep_method = ''get'', ep_url = ''/api/v1/research/hazard-events?limit=50&offset=0'',
     ep_replies = [(200, Reads_List HazardEventModel), validation_reply, (503, Reads ErrorResponse)]\<rparr>"

definition ep_research_investigations :: endpoint where
  "ep_research_investigations = \<lparr>ep_method = ''get'', ep_url = ''/api/v1/research/investigations?limit=50&offset=0'',
     ep_replies = [(200, Reads_List ResearchInvestigationModel), validation_reply, (503, Reads ErrorResponse)]\<rparr>"

definition ep_liveness :: endpoint where
  "ep_liveness = \<lparr>ep_method = ''get'', ep_url = ''/api/v1/health/live'', ep_replies = [(200, Reads LivenessModel)]\<rparr>"

section \<open>The clients\<close>

record gaia_client =
  gc_base_url :: string
  gc_api_key :: "string option"
  gc_bearer_token :: "string option"

text \<open>\<open>a or b\<close> on optional texts.\<close>

definition text_or :: "string option \<Rightarrow> string option \<Rightarrow> string option" where
  "text_or a b = (case a of Some (c # cs) \<Rightarrow> a | _ \<Rightarrow> b)"

definition trim_slashes :: "string \<Rightarrow> string" where
  "trim_slashes s = rev (dropWhile (\<lambda>c. c = CHR ''/'') (rev s))"

definition gaia_client_init :: "(string \<Rightarrow> string option) \<Rightarrow> string option \<Rightarrow> string option \<Rightarrow> string option \<Rightarrow> gaia_client" where
  "gaia_client_init env base_url api_key bearer_token =
     \<lparr>gc_base_url = trim_slashes (or_text (text_or base_url (env ''GAIAOS_API_URL'')) ''http://localhost:8000''),
      gc_api_key = text_or api_key (env ''GAIAOS_API_KEY''), gc_bearer_token = text_or bearer_token (env ''GAIAOS_BEARER_TOKEN'')\<rparr>"

definition get_headers :: "string \<Rightarrow> gaia_client \<Rightarrow> (string, string) dict" where
  "get_headers version c =
     [(''User-Agent'', ''gaiaos-sdk-python/'' @ version)] @
     (case gc_api_key c of Some (x # xs) \<Rightarrow> [(''X-API-Key'', x # xs)] | _ \<Rightarrow> []) @
     (case gc_bearer_token c of Some (x # xs) \<Rightarrow> [(''Authorization'', ''Bearer '' @ x # xs)] | _ \<Rightarrow> [])"

text \<open>The generated client for a token sets the authorisation header, with the API key if there is no bearer token.\<close>

definition request_headers :: "string \<Rightarrow> gaia_client \<Rightarrow> (string, string) dict" where
  "request_headers version c =
     (let token = or_text (gc_bearer_token c) (or_text (gc_api_key c) [])
      in if token = [] then get_headers version c else dict_set ''Authorization'' (''Bearer '' @ token) (get_headers version c))"

definition build_request :: "string \<Rightarrow> gaia_client \<Rightarrow> endpoint \<Rightarrow> json option \<Rightarrow> sdk_request" where
  "build_request version c ep body_json =
     \<lparr>sr_method = ep_method ep, sr_url = gc_base_url c @ ep_url ep, sr_headers = request_headers version c, sr_json = body_json\<rparr>"

text \<open>One call: the request, the reading of the reply, the status, which is given the undecoded content for a body.\<close>

definition sdk_call :: "(sdk_request \<Rightarrow> sdk_reply py) \<Rightarrow> sdk_request \<Rightarrow> endpoint \<Rightarrow> (int \<times> parsed) sdk" where
  "sdk_call transport rq ep =
     sdk_bind (from_py (transport rq)) (\<lambda>r.
       sdk_bind (from_py (parse_response ep r)) (\<lambda>p.
         sdk_bind (raise_for_status (rp_status r) None (rp_retry_after r)) (\<lambda>_. Inr (rp_status r, p))))"

definition unexpected :: "int \<Rightarrow> 'a sdk" where
  "unexpected status = Inl (Gaia_Api_Error Plain_Api_Error status ''Unexpected response payload type'' None None)"

definition expect_model :: "model \<Rightarrow> int \<times> parsed \<Rightarrow> json sdk" where
  "expect_model m r = (case snd r of Parsed_Model m' j \<Rightarrow> if m' = m then Inr j else unexpected (fst r) | _ \<Rightarrow> unexpected (fst r))"

definition expect_list :: "int \<times> parsed \<Rightarrow> json list sdk" where
  "expect_list r = (case snd r of Parsed_List xs \<Rightarrow> Inr xs | _ \<Rightarrow> unexpected (fst r))"

definition sdk_create :: "(sdk_request \<Rightarrow> sdk_reply py) \<Rightarrow> string \<Rightarrow> gaia_client \<Rightarrow> string \<Rightarrow> bool \<Rightarrow> json sdk" where
  "sdk_create transport version c query consent =
     sdk_bind (from_py (attrs_init InvestigationCreateRequest [(''query'', JStr query), (''consent_public_research'', JBool consent)])) (\<lambda>b.
       sdk_bind (sdk_call transport (build_request version c ep_create_investigation (Some b)) ep_create_investigation)
         (expect_model InvestigationCreateResponse))"

definition sdk_get :: "(sdk_request \<Rightarrow> sdk_reply py) \<Rightarrow> string \<Rightarrow> gaia_client \<Rightarrow> string \<Rightarrow> json sdk" where
  "sdk_get transport version c i =
     sdk_bind (sdk_call transport (build_request version c (ep_get_investigation i) None) (ep_get_investigation i)) (expect_model InvestigationStatusResponse)"

definition sdk_get_trace :: "(sdk_request \<Rightarrow> sdk_reply py) \<Rightarrow> string \<Rightarrow> gaia_client \<Rightarrow> string \<Rightarrow> json sdk" where
  "sdk_get_trace transport version c i =
     sdk_bind (sdk_call transport (build_request version c (ep_get_trace i) None) (ep_get_trace i)) (expect_model InvestigationTraceModel)"

definition sdk_stream_request :: "string \<Rightarrow> gaia_client \<Rightarrow> string \<Rightarrow> sdk_request" where
  "sdk_stream_request version c i =
     \<lparr>sr_method = ''GET'', sr_url = gc_base_url c @ ''/api/v1/investigations/'' @ i @ ''/stream'', sr_headers = get_headers version c, sr_json = None\<rparr>"

definition sdk_login :: "(sdk_request \<Rightarrow> sdk_reply py) \<Rightarrow> string \<Rightarrow> gaia_client \<Rightarrow> string \<Rightarrow> string \<Rightarrow> json sdk" where
  "sdk_login transport version c username password =
     sdk_bind (from_py (attrs_init UserLoginRequest [(''username'', JStr username), (''password'', JStr password)])) (\<lambda>b.
       sdk_bind (sdk_call transport (build_request version c ep_login (Some b)) ep_login) (expect_model TokenResponseModel))"

definition opt_json :: "string option \<Rightarrow> json" where
  "opt_json s = (case s of None \<Rightarrow> JNull | Some t \<Rightarrow> JStr t)"

definition sdk_register :: "(sdk_request \<Rightarrow> sdk_reply py) \<Rightarrow> string \<Rightarrow> gaia_client \<Rightarrow> string \<Rightarrow> string \<Rightarrow> string option \<Rightarrow> json sdk" where
  "sdk_register transport version c mail_address password nm =
     sdk_bind (from_py (attrs_init UserRegisterRequest [(''email'', JStr mail_address), (''password'', JStr password), (''full_name'', opt_json nm)])) (\<lambda>b.
       sdk_bind (sdk_call transport (build_request version c ep_register (Some b)) ep_register) (expect_model UserResponseModel))"

definition sdk_create_api_key :: "(sdk_request \<Rightarrow> sdk_reply py) \<Rightarrow> string \<Rightarrow> gaia_client \<Rightarrow> string \<Rightarrow> int option \<Rightarrow> json sdk" where
  "sdk_create_api_key transport version c name days =
     sdk_bind (from_py (attrs_init CreateApiKeyRequest [(''name'', JStr name), (''expires_in_days'', case days of None \<Rightarrow> JNull | Some d \<Rightarrow> JInt d)])) (\<lambda>b.
       sdk_bind (sdk_call transport (build_request version c ep_create_api_key (Some b)) ep_create_api_key) (expect_model ApiKeyCreatedModel))"

definition sdk_list_api_keys :: "(sdk_request \<Rightarrow> sdk_reply py) \<Rightarrow> string \<Rightarrow> gaia_client \<Rightarrow> json list sdk" where
  "sdk_list_api_keys transport version c = sdk_bind (sdk_call transport (build_request version c ep_list_api_keys None) ep_list_api_keys) expect_list"

definition sdk_revoke_api_key :: "(sdk_request \<Rightarrow> sdk_reply py) \<Rightarrow> string \<Rightarrow> gaia_client \<Rightarrow> string \<Rightarrow> unit sdk" where
  "sdk_revoke_api_key transport version c k =
     sdk_bind (sdk_call transport (build_request version c (ep_revoke_api_key k) None) (ep_revoke_api_key k)) (\<lambda>_. Inr ())"

definition sdk_list_patterns :: "(sdk_request \<Rightarrow> sdk_reply py) \<Rightarrow> string \<Rightarrow> gaia_client \<Rightarrow> json list sdk" where
  "sdk_list_patterns transport version c = sdk_bind (sdk_call transport (build_request version c ep_patterns None) ep_patterns) expect_list"

definition sdk_list_hazard_events :: "(sdk_request \<Rightarrow> sdk_reply py) \<Rightarrow> string \<Rightarrow> gaia_client \<Rightarrow> json list sdk" where
  "sdk_list_hazard_events transport version c = sdk_bind (sdk_call transport (build_request version c ep_hazard_events None) ep_hazard_events) expect_list"

definition sdk_list_investigations :: "(sdk_request \<Rightarrow> sdk_reply py) \<Rightarrow> string \<Rightarrow> gaia_client \<Rightarrow> json list sdk" where
  "sdk_list_investigations transport version c =
     sdk_bind (sdk_call transport (build_request version c ep_research_investigations None) ep_research_investigations) expect_list"

text \<open>The library for versions is a parameter: major and minor number of a text, if it is a version. A warning is the
  flag of the result.\<close>

definition check_version_compatibility :: "(string \<Rightarrow> (int \<times> int) option) \<Rightarrow> string \<Rightarrow> string \<Rightarrow> bool sdk" where
  "check_version_compatibility read_version sdk_version server =
     (let clash = Inl (Incompatible_Server_Error (''Server ('' @ server @ '') major version incompatible with SDK ('' @ sdk_version @ '')''))
      in case (read_version server, read_version sdk_version) of
           (Some (sm, sn), Some (m, n)) \<Rightarrow> (if sm \<noteq> m then clash else Inr (sn \<noteq> n))
         | _ \<Rightarrow> (if hd (str_split_char (CHR ''.'') server) \<noteq> hd (str_split_char (CHR ''.'') sdk_version) then clash else Inr False))"

definition validate_server :: "(sdk_request \<Rightarrow> sdk_reply py) \<Rightarrow> (string \<Rightarrow> (int \<times> int) option) \<Rightarrow> string \<Rightarrow> gaia_client \<Rightarrow> string sdk" where
  "validate_server transport read_version version c =
     sdk_bind (sdk_call transport (build_request version c ep_liveness None) ep_liveness) (\<lambda>(status, p).
       case p of
         Parsed_Model m j \<Rightarrow>
           (let server = json_str (case dict_of_json j of Inr kvs \<Rightarrow> dict_get_or kvs ''app_version'' JNull | Inl _ \<Rightarrow> JNull)
            in sdk_bind (check_version_compatibility read_version version server) (\<lambda>_. Inr server))
       | _ \<Rightarrow> Inl (Incompatible_Server_Error ''Unable to determine GaiaOS server version''))"

section \<open>What a caller can rely on\<close>

text \<open>Every call ends in one of these ways: what the transport raised; an exception of the reading of the reply;
  for a status of 400 or more, the typed error of that status, without anything of what the server said; and otherwise
  the reading itself.\<close>

lemma sdk_errors_typed:
  assumes "transport rq = Inr r"
  shows "sdk_call transport rq ep =
    (case parse_response ep r of
       Inl e \<Rightarrow> Inl (Python_Error e)
     | Inr p \<Rightarrow>
         (if rp_status r < 400 then Inr (rp_status r, p)
          else Inl (Gaia_Api_Error (error_kind (rp_status r) (rp_retry_after r)) (rp_status r)
            (''Request failed with status code '' @ int_str (rp_status r)) None None)))"
  using assms by (simp add: sdk_call_def from_py_def sdk_bind_def raise_for_status_def Let_def split: sum.splits)

text \<open>How the gateway sees a request of the library.\<close>

definition gateway_request :: "sdk_request \<Rightarrow> http_request" where
  "gateway_request rq = \<lparr>hr_path = sr_url rq, hr_method = sr_method rq, hr_authorization = dict_get (sr_headers rq) ''Authorization'',
     hr_api_key = dict_get (sr_headers rq) ''X-API-Key'', hr_request_id = None, hr_forwarded_for = None, hr_client_host = None\<rparr>"

lemma request_headers_key:
  "gc_api_key c = Some (x # xs) \<Longrightarrow> dict_get (request_headers version c) ''X-API-Key'' = Some (x # xs)"
  by (auto simp: request_headers_def get_headers_def Let_def update_conv' split: option.split list.split)

text \<open>C36: A client with the API key of an active account is admitted by the gateway as that account, whatever endpoint it
  calls and whether or not it also carries a bearer token, valid or not: the key is looked at first, so that the
  authorisation header, into which the library writes the key as well, is not read.\<close>

theorem sdk_key_admitted:
  assumes "gc_api_key c = Some raw" "raw \<noteq> []" "ge_have_db env"
    "filter (\<lambda>k. key_hash k = sha256 (ge_libs env) raw) (api_keys st) = [k]" "\<not> is_revoked k"
    "filter (\<lambda>u. usr_id u = owner_id k) (users st) = [u]" "is_active u" "deleted_at u = None"
  shows "\<exists>st' rq'. auth_chain (authenticate env) [Api_Key_Provider, Jwt_Provider] (gateway_request (build_request version c ep body_json)) fresh_state st = (st', Inr rq') \<and>
    st_user rq' = Some u \<and> st_api_key_id rq' = Some (key_id k) \<and> get_current_user rq' = Inr u"
proof -
  obtain x xs where raw: "raw = x # xs" using assms(2) by (cases raw) auto
  have key: "hr_api_key (gateway_request (build_request version c ep body_json)) = Some (x # xs)"
    using request_headers_key [of c x xs version] assms(1) raw by (simp add: gateway_request_def build_request_def)
  show ?thesis using assms(3-8) raw
    by (simp add: authenticate_def api_key_authenticate_def key scalar_one_or_none_def fresh_state_def get_current_user_def)
qed

definition key_client :: gaia_client where
  "key_client = gaia_client_init (\<lambda>_. None) (Some ''https://gaia.example/'') (Some ''raw'') None"

theorem sdk_key_admitted_witness:
  "\<exists>st' rq'. auth_chain (authenticate Gateway.sample_env) [Api_Key_Provider, Jwt_Provider]
      (gateway_request (build_request ''1.0'' key_client ep_list_api_keys None)) fresh_state sample_accounts = (st', Inr rq') \<and>
    st_user rq' = Some (sample_user 2 ''ann@x.org'' ''researcher'') \<and> st_api_key_id rq' = Some ''k1'' \<and>
    get_current_user rq' = Inr (sample_user 2 ''ann@x.org'' ''researcher'')"
proof -
  have k: "key_id (hd (api_keys sample_accounts)) = ''k1''" by (simp add: sample_accounts_def)
  show ?thesis unfolding k [symmetric]
    by (rule sdk_key_admitted)
      (simp_all add: key_client_def gaia_client_init_def text_or_def Gateway.sample_env_def sample_libs_def sample_accounts_def sample_user_def)
qed

text \<open>What the stream of the server puts into frames comes out of the generator of the library.\<close>

lemma stream_delivers:
  assumes "list_all (\<lambda>(tag, d). tag \<noteq> [] \<and> (\<exists>kvs. d = JObj kvs)) frames"
  shows "map (\<lambda>e. (se_event e, JObj (se_data e)))
      (stream_investigation_events (map (\<lambda>(tag, d). \<lparr>sm_event = tag, sm_data = json_dumps d, sm_id = None, sm_retry = None\<rparr>) frames)) = frames"
  using assms
  by (induction frames) (auto simp: stream_investigation_events_def parse_sse_data_def json_dumps_def json_loads_def)

section \<open>Calls that cannot succeed\<close>

text \<open>Logging in passes a user name to a payload that has an address instead, creating a key passes a lifetime that the
  payload does not have: both raise before anything is sent.\<close>

lemma sdk_login_raises:
  "sdk_login transport version c username password = Inl (Python_Error (Type_Error (''got an unexpected keyword argument '' @ quoted ''username'')))"
  by (simp add: sdk_login_def attrs_init_def UserLoginRequest_def from_py_def sdk_bind_def)

lemma sdk_create_api_key_raises:
  "sdk_create_api_key transport version c name days = Inl (Python_Error (Type_Error (''got an unexpected keyword argument '' @ quoted ''expires_in_days'')))"
  by (simp add: sdk_create_api_key_def attrs_init_def CreateApiKeyRequest_def from_py_def sdk_bind_def)

text \<open>The replies of the server on an investigation: an error reply has a code, an exception has its text only.\<close>

definition server_reply :: "'a route_reply py \<Rightarrow> ('a \<Rightarrow> json) \<Rightarrow> sdk_reply py" where
  "server_reply r body_of =
     (case r of
        Inr (Ok_Reply n x) \<Rightarrow> Inr \<lparr>rp_status = n, rp_json = Some (body_of x), rp_retry_after = None\<rparr>
      | Inr (Error_Reply n d code) \<Rightarrow> Inr \<lparr>rp_status = n, rp_json = Some (JObj [(''detail'', JStr d), (''error_code'', JStr code)]), rp_retry_after = None\<rparr>
      | Inl (HTTP_Exception n d) \<Rightarrow> Inr \<lparr>rp_status = n, rp_json = Some (JObj [(''detail'', JStr d)]), rp_retry_after = None\<rparr>
      | Inl e \<Rightarrow> Inr \<lparr>rp_status = 500, rp_json = None, rp_retry_after = None\<rparr>)"

definition may_read :: "user option \<Rightarrow> investigation \<Rightarrow> bool" where
  "may_read u iv \<longleftrightarrow> (case u of None \<Rightarrow> True | Some usr \<Rightarrow> role usr = role_admin \<or> inv_user_id iv = Some (usr_id usr))"

lemma known_codes [simp]: "known_status 200" "known_status 403" "known_status 404" "known_status 500"
  by (simp_all add: known_status_def)

lemma server_investigation:
  "server_reply (get_investigation i u t) body_of = Inr
    (case repo_get_investigation i t of
       Inl _ \<Rightarrow> \<lparr>rp_status = 500, rp_json = None, rp_retry_after = None\<rparr>
     | Inr None \<Rightarrow> \<lparr>rp_status = 404, rp_json = Some (JObj [(''detail'', JStr (''Investigation '' @ uuid_str i @ '' not found.'')),
         (''error_code'', JStr ''investigation_not_found'')]), rp_retry_after = None\<rparr>
     | Inr (Some iv) \<Rightarrow>
         (if may_read u iv then \<lparr>rp_status = 200, rp_json = Some (body_of iv), rp_retry_after = None\<rparr>
          else \<lparr>rp_status = 403, rp_json = Some (JObj [(''detail'', JStr ''You do not have permission to access this resource.'')]), rp_retry_after = None\<rparr>))"
  by (auto simp: get_investigation_def readable_investigation_def repo_get_investigation_def scalar_one_or_none_def may_read_def server_reply_def
      check_owner_or_role_def not_found_def py_bind_def split: list.split option.split)

lemma parse_get_investigation:
  "parse_response (ep_get_investigation s) \<lparr>rp_status = 500, rp_json = None, rp_retry_after = None\<rparr> = Inr No_Parsed"
  "parse_response (ep_get_investigation s) \<lparr>rp_status = 404, rp_json = Some (JObj [(''detail'', d), (''error_code'', e)]), rp_retry_after = None\<rparr> =
     Inr (Parsed_Model ErrorResponse (JObj [(''detail'', d), (''error_code'', e)]))"
  "parse_response (ep_get_investigation s) \<lparr>rp_status = 403, rp_json = Some (JObj [(''detail'', d)]), rp_retry_after = None\<rparr> = Inl (Key_Error ''error_code'')"
  "from_dict InvestigationStatusResponse j = Inr () \<Longrightarrow>
     parse_response (ep_get_investigation s) \<lparr>rp_status = 200, rp_json = Some j, rp_retry_after = None\<rparr> = Inr (Parsed_Model InvestigationStatusResponse j)"
  by (simp_all add: parse_response_def ep_get_investigation_def validation_reply_def reply_json_def ErrorResponse_def dict_of_json_def)


definition sample_rendering :: "investigation \<Rightarrow> json" where
  "sample_rendering iv = JObj [(''investigation_id'', JStr (uuid_str (inv_id iv))), (''status'', JStr (inv_status iv)), (''complexity_tier'', opt_json (inv_complexity_tier iv)),
     (''answer'', opt_json (inv_answer iv)), (''confidence'', JNull), (''evidence_gaps'', JArr []), (''execution_trace'', JNull),
     (''created_at'', JStr ''2026-07-24T10:15:00Z''), (''completed_at'', JNull)]"

lemma sample_rendering_reads: "from_dict InvestigationStatusResponse (sample_rendering (sample_row c)) = Inr ()"
proof -
  have "fromisoformat ''2026-07-24T10:15:00Z'' \<noteq> None" "uuid_parse (uuid_str 5) = Inr 5" by code_simp+
  then show ?thesis
    by (auto simp: InvestigationStatusResponse_def sample_rendering_def sample_row_def dict_of_json_def)
qed


end
