(* ===== verification/Service.thy ===== *)
theory Service
  imports Sdk
begin

text \<open>
  The process around the routes: the checks on the settings (\<open>config/settings.py\<close>), the singletons of a process that
  are bound to an event loop, which are the database engines and session factories (\<open>db/session.py\<close>), the Redis client
  (\<open>cache/client.py\<close>) and the shared HTTP client of \<open>Clients\<close>, the start-up and shut-down of the server
  (\<open>app/main.py\<close>) and its health probes (\<open>app/api/v1/health.py\<close>). Objects that are compared by identity carry a serial
  number. The drivers are parameters: whether an engine or a client can be made for a URL, and what a statement, a
  ping or the entry of a session answers.
\<close>

section \<open>Settings\<close>

datatype environment = Dev | Staging | Prod

datatype storage_backend = Local_Storage | Minio_Storage

text \<open>The settings the checks read; those of the limiter and of the accounts are the records of their theories.\<close>

record service_settings =
  gaiaos_env :: environment
  database_url :: "string option"
  read_replica_database_url :: "string option"
  redis_url :: "string option"
  enable_auth :: bool
  limiter_cfg :: limiter_settings
  auth_cfg :: auth_settings
  backup_storage_backend :: storage_backend
  minio_endpoint :: "string option"
  minio_access_key :: "string option"
  minio_secret_key :: "string option"
  minio_bucket :: "string option"

definition DEFAULT_DEV_JWT_SECRET :: string where
  "DEFAULT_DEV_JWT_SECRET = ''dev-secret-key-that-is-at-least-32-chars-long!''"

text \<open>The truth value of an optional text, and its text.\<close>

definition is_set :: "string option \<Rightarrow> bool" where
  "is_set s \<longleftrightarrow> or_text s [] \<noteq> []"

definition is_digit_char :: "char \<Rightarrow> bool" where
  "is_digit_char c \<longleftrightarrow> 48 \<le> char_code c \<and> char_code c \<le> 57"

definition bucket_edge :: "char \<Rightarrow> bool" where
  "bucket_edge c \<longleftrightarrow> is_digit_char c \<or> 97 \<le> char_code c \<and> char_code c \<le> 122"

definition bucket_inner :: "char \<Rightarrow> bool" where
  "bucket_inner c \<longleftrightarrow> bucket_edge c \<or> c = CHR ''.'' \<or> c = CHR ''-''"

text \<open>A pattern that ends in \<open>$\<close> also matches before a line feed at the end of the text.\<close>

definition at_end :: "(string \<Rightarrow> bool) \<Rightarrow> string \<Rightarrow> bool" where
  "at_end P s \<longleftrightarrow> P s \<or> s \<noteq> [] \<and> last s = char_of (10 :: nat) \<and> P (butlast s)"

definition bucket_pattern :: "string \<Rightarrow> bool" where
  "bucket_pattern = at_end (\<lambda>s. 2 \<le> length s \<and> bucket_edge (hd s) \<and> bucket_edge (last s) \<and> list_all bucket_inner s)"

definition ip_pattern :: "string \<Rightarrow> bool" where
  "ip_pattern = at_end (\<lambda>s. let ps = str_split_char (CHR ''.'') s
     in length ps = 4 \<and> list_all (\<lambda>p. 1 \<le> length p \<and> length p \<le> 3 \<and> list_all is_digit_char p) ps)"

definition check_bucket :: "string \<Rightarrow> unit py" where
  "check_bucket bucket =
     (if length bucket < 3 \<or> length bucket > 63 then Inl (Value_Error ''MINIO_BUCKET name must be between 3 and 63 characters long'')
      else if \<not> bucket_pattern bucket then Inl (Value_Error (''MINIO_BUCKET name must consist only of lowercase letters, numbers, dots, '' @
        ''or hyphens, and start and end with an alphanumeric character''))
      else if str_contains bucket ''..'' then Inl (Value_Error ''MINIO_BUCKET name must not contain contiguous periods'')
      else if ip_pattern bucket then Inl (Value_Error ''MINIO_BUCKET name must not be formatted as an IP address'')
      else Inr ())"

definition check_jwt_secret :: "string option \<Rightarrow> unit py" where
  "check_jwt_secret secret =
     (if \<not> is_set secret then Inl (Value_Error (''JWT_SECRET_KEY must be set when ENABLE_AUTH is True '' @ ''or GAIAOS_ENV is staging/prod''))
      else if length (or_text secret []) < 32 then Inl (Value_Error ''JWT_SECRET_KEY must be at least 32 characters long'')
      else if secret = Some DEFAULT_DEV_JWT_SECRET then Inl (Value_Error (''JWT_SECRET_KEY cannot use the default development secret '' @
        ''when ENABLE_AUTH is True or GAIAOS_ENV is staging/prod''))
      else Inr ())"

definition check_minio :: "service_settings \<Rightarrow> unit py" where
  "check_minio cfg =
     (if \<not> is_set (minio_endpoint cfg) then Inl (Value_Error ''MINIO_ENDPOINT must be set when BACKUP_STORAGE_BACKEND is minio'')
      else if \<not> is_set (minio_access_key cfg) then Inl (Value_Error ''MINIO_ACCESS_KEY must be set when BACKUP_STORAGE_BACKEND is minio'')
      else if \<not> is_set (minio_secret_key cfg) then Inl (Value_Error ''MINIO_SECRET_KEY must be set when BACKUP_STORAGE_BACKEND is minio'')
      else if \<not> is_set (minio_bucket cfg) then Inl (Value_Error ''MINIO_BUCKET must be set when BACKUP_STORAGE_BACKEND is minio'')
      else check_bucket (or_text (minio_bucket cfg) []))"

definition validate_production_security :: "service_settings \<Rightarrow> unit py" where
  "validate_production_security cfg =
     (let deployed = gaiaos_env cfg \<in> {Staging, Prod}
      in if deployed \<and> \<not> is_set (database_url cfg) then Inl (Value_Error ''DATABASE_URL must be set when GAIAOS_ENV is staging or prod'')
         else if deployed \<and> \<not> is_set (redis_url cfg) then Inl (Value_Error ''REDIS_URL must be set when GAIAOS_ENV is staging or prod'')
         else if gaiaos_env cfg = Prod \<and> \<not> enable_auth cfg then Inl (Value_Error ''ENABLE_AUTH must be True when GAIAOS_ENV is prod'')
         else if gaiaos_env cfg = Prod \<and> \<not> enable_rate_limiting (limiter_cfg cfg)
           then Inl (Value_Error ''ENABLE_RATE_LIMITING must be True when GAIAOS_ENV is prod'')
         else py_bind (if enable_auth cfg \<or> deployed then check_jwt_secret (jwt_secret_key (auth_cfg cfg)) else Inr ()) (\<lambda>_.
           if backup_storage_backend cfg = Minio_Storage then check_minio cfg else Inr ()))"

definition driver_url :: "string \<Rightarrow> string \<Rightarrow> string py" where
  "driver_url name url =
     (if starts_with url ''postgresql://'' then Inr (''postgresql+asyncpg://'' @ drop (length ''postgresql://'') url)
      else if starts_with url ''postgres://'' then Inr (''postgresql+asyncpg://'' @ drop (length ''postgres://'') url)
      else if starts_with url ''postgresql+asyncpg://'' then Inr url
      else Inl (Runtime_Error (name @ '' must start with postgresql:// or postgres://; got: '' @ str_repr url)))"

definition asyncpg_url :: "service_settings \<Rightarrow> string py" where
  "asyncpg_url cfg =
     (if \<not> is_set (database_url cfg) then Inl (Runtime_Error ''DATABASE_URL is not set.'')
      else driver_url ''DATABASE_URL'' (or_text (database_url cfg) []))"

definition read_asyncpg_url :: "service_settings \<Rightarrow> string option py" where
  "read_asyncpg_url cfg =
     (if \<not> is_set (read_replica_database_url cfg) then Inr None
      else py_bind (driver_url ''READ_REPLICA_DATABASE_URL'' (or_text (read_replica_database_url cfg) [])) (\<lambda>u. Inr (Some u)))"

section \<open>Engines and session factories\<close>

record engine =
  eng_id :: nat
  eng_url :: string

record factory =
  fac_id :: nat
  fac_engine :: engine

text \<open>The module's globals; event loops are numbered, and code outside of one has none. The serial number of the next
  object and the engines disposed so far are bookkeeping.\<close>

record db_module =
  db_engine :: "engine option"
  db_read_engine :: "engine option"
  session_local :: "factory option"
  read_session_local :: "factory option"
  engine_loop :: "nat option"
  db_next :: nat
  db_disposed :: "engine list"

definition db_start :: db_module where
  "db_start = \<lparr>db_engine = None, db_read_engine = None, session_local = None, read_session_local = None, engine_loop = None,
     db_next = 0, db_disposed = []\<rparr>"

definition check_loop :: "nat option \<Rightarrow> db_module \<Rightarrow> db_module" where
  "check_loop loop s =
     (if engine_loop s \<noteq> None \<and> loop \<noteq> None \<and> engine_loop s \<noteq> loop
      then s\<lparr>db_engine := None, db_read_engine := None, session_local := None, read_session_local := None, engine_loop := None\<rparr>
      else s)"

definition make_engine :: "(string \<Rightarrow> unit py) \<Rightarrow> string \<Rightarrow> db_module \<Rightarrow> (engine \<times> factory \<times> db_module) py" where
  "make_engine mk url s =
     py_bind (mk url) (\<lambda>_. let e = \<lparr>eng_id = db_next s, eng_url = url\<rparr>
       in Inr (e, \<lparr>fac_id = db_next s + 1, fac_engine = e\<rparr>, s\<lparr>db_next := db_next s + 2\<rparr>))"

definition init_engine :: "(string \<Rightarrow> unit py) \<Rightarrow> service_settings \<Rightarrow> nat option \<Rightarrow> db_module \<Rightarrow> db_module \<times> unit py" where
  "init_engine mk cfg loop s =
     (let s0 = check_loop loop s
      in if database_url cfg = None
         then (s0, Inl (Runtime_Error (''DATABASE_URL is not set.  '' @ ''The database connection layer cannot be initialised without it.'')))
         else case py_bind (asyncpg_url cfg) (\<lambda>u. make_engine mk u s0) of
                Inl e \<Rightarrow> (s0, Inl e)
              | Inr (eng, f, s1) \<Rightarrow>
                  let s2 = s1\<lparr>db_engine := Some eng, session_local := Some f\<rparr>
                  in case read_asyncpg_url cfg of
                       Inl e \<Rightarrow> (s2, Inl e)
                     | Inr None \<Rightarrow> (s2\<lparr>db_read_engine := None, read_session_local := Some f, engine_loop := loop\<rparr>, Inr ())
                     | Inr (Some ru) \<Rightarrow>
                         (case make_engine mk ru s2 of
                            Inl e \<Rightarrow> (s2, Inl e)
                          | Inr (reng, rf, s3) \<Rightarrow>
                              (s3\<lparr>db_read_engine := Some reng, read_session_local := Some rf, engine_loop := loop\<rparr>, Inr ())))"

text \<open>An exception of the disposal of a pool is swallowed, so that only the order remains.\<close>

definition dispose_engine :: "db_module \<Rightarrow> db_module" where
  "dispose_engine s =
     (let s1 = (case db_read_engine s of
                  Some r \<Rightarrow> if db_engine s \<noteq> Some r then s\<lparr>db_disposed := db_disposed s @ [r], db_read_engine := None\<rparr> else s
                | None \<Rightarrow> s);
          s2 = (case db_engine s1 of
                  Some e \<Rightarrow> s1\<lparr>db_disposed := db_disposed s1 @ [e], db_engine := None\<rparr>
                | None \<Rightarrow> s1)
      in s2\<lparr>session_local := None, read_session_local := None, engine_loop := None\<rparr>)"

definition get_session_factory ::
    "(string \<Rightarrow> unit py) \<Rightarrow> service_settings \<Rightarrow> nat option \<Rightarrow> db_module \<Rightarrow> db_module \<times> factory py" where
  "get_session_factory mk cfg loop s =
     (let s0 = check_loop loop s
      in case session_local s0 of
           Some f \<Rightarrow> (s0, Inr f)
         | None \<Rightarrow>
             (case init_engine mk cfg loop s0 of
                (s1, Inl e) \<Rightarrow> (s1, Inl e)
              | (s1, Inr _) \<Rightarrow> (case session_local s1 of Some f \<Rightarrow> (s1, Inr f) | None \<Rightarrow> (s1, Inl (Other_Error ''AssertionError'')))))"

text \<open>A provider of sessions hands one session to its consumer. Both consumers of the code, the dependencies of the routes
  and the evaluation harness, iterate over the generator: an exception of the consumer is not thrown into it. The
  second component is the factories whose sessions reached the consumer.\<close>

definition operational_error :: py_exc where
  "operational_error = Other_Error ''OperationalError''"

definition use_session :: "(factory \<Rightarrow> unit py) \<Rightarrow> (factory \<Rightarrow> 'a py) \<Rightarrow> factory \<Rightarrow> factory list \<times> 'a py" where
  "use_session enter consumer f = (case enter f of Inl e \<Rightarrow> ([], Inl e) | Inr _ \<Rightarrow> ([f], consumer f))"

definition get_db_session ::
    "(string \<Rightarrow> unit py) \<Rightarrow> service_settings \<Rightarrow> nat option \<Rightarrow> (factory \<Rightarrow> unit py) \<Rightarrow> (factory \<Rightarrow> 'a py) \<Rightarrow> db_module \<Rightarrow>
     db_module \<times> factory list \<times> 'a py" where
  "get_db_session mk cfg loop enter consumer s =
     (case get_session_factory mk cfg loop s of
        (s1, Inl e) \<Rightarrow> (s1, [], Inl e)
      | (s1, Inr f) \<Rightarrow> (s1, use_session enter consumer f))"

definition get_read_session ::
    "(string \<Rightarrow> unit py) \<Rightarrow> service_settings \<Rightarrow> nat option \<Rightarrow> (factory \<Rightarrow> unit py) \<Rightarrow> (factory \<Rightarrow> 'a py) \<Rightarrow> db_module \<Rightarrow>
     db_module \<times> factory list \<times> 'a py" where
  "get_read_session mk cfg loop enter consumer s =
     (let s0 = check_loop loop s
      in case (case read_session_local s0 of
                 Some f \<Rightarrow> (s0, Inr f)
               | None \<Rightarrow> (case session_local s0 of Some f \<Rightarrow> (s0, Inr f) | None \<Rightarrow> get_session_factory mk cfg loop s0)) of
           (s1, Inl e) \<Rightarrow> (s1, [], Inl e)
         | (s1, Inr f) \<Rightarrow>
             (case enter f of
                Inr _ \<Rightarrow> (s1, [f], consumer f)
              | Inl e \<Rightarrow>
                  (case session_local s1 of
                     Some p \<Rightarrow> if e = operational_error \<and> f \<noteq> p then (s1, use_session enter consumer p) else (s1, [], Inl e)
                   | None \<Rightarrow> (s1, [], Inl e))))"

section \<open>Redis and the shared HTTP client\<close>

record redis_module =
  redis_client :: "nat option"
  redis_loop :: "nat option"
  redis_next :: nat
  redis_closed :: "nat list"

definition redis_start :: redis_module where
  "redis_start = \<lparr>redis_client = None, redis_loop = None, redis_next = 0, redis_closed = []\<rparr>"

text \<open>A client that does not answer the first ping is closed again; the text of the exception is a parameter.\<close>

definition init_redis :: "(string \<Rightarrow> unit py) \<Rightarrow> (py_exc \<Rightarrow> string) \<Rightarrow> unit py \<Rightarrow> service_settings \<Rightarrow> nat \<Rightarrow> redis_module \<Rightarrow> redis_module \<times> unit py" where
  "init_redis mk shown ping cfg loop s =
     (case redis_url cfg of
        None \<Rightarrow> (s, Inl (Runtime_Error ''REDIS_URL is not set.  The Redis connection layer cannot be initialised without it.''))
      | Some url \<Rightarrow>
          (case mk url of
             Inl e \<Rightarrow> (s, Inl e)
           | Inr _ \<Rightarrow>
               let c = redis_next s; s1 = s\<lparr>redis_next := c + 1\<rparr>
               in case ping of
                    Inl e \<Rightarrow> (s1\<lparr>redis_closed := redis_closed s1 @ [c]\<rparr>, Inl (Runtime_Error (''Failed to connect to Redis at '' @ url @ '': '' @ shown e)))
                  | Inr _ \<Rightarrow> (s1\<lparr>redis_client := Some c, redis_loop := Some loop\<rparr>, Inr ())))"

definition dispose_redis :: "redis_module \<Rightarrow> redis_module" where
  "dispose_redis s =
     (case redis_client s of
        None \<Rightarrow> s
      | Some c \<Rightarrow> s\<lparr>redis_closed := redis_closed s @ [c], redis_client := None, redis_loop := None\<rparr>)"

definition get_redis :: "(string \<Rightarrow> unit py) \<Rightarrow> (py_exc \<Rightarrow> string) \<Rightarrow> unit py \<Rightarrow> service_settings \<Rightarrow> nat \<Rightarrow> redis_module \<Rightarrow> redis_module \<times> nat py" where
  "get_redis mk shown ping cfg loop s =
     (case (if redis_client s \<noteq> None \<and> redis_loop s \<noteq> Some loop
            then let s1 = dispose_redis s in if is_set (redis_url cfg) then init_redis mk shown ping cfg loop s1 else (s1, Inr ())
            else (s, Inr ())) of
        (s2, Inl e) \<Rightarrow> (s2, Inl e)
      | (s2, Inr _) \<Rightarrow>
          (case redis_client s2 of
             None \<Rightarrow> (s2, Inl (Runtime_Error (''Redis client is not initialised.  '' @ ''Ensure init_redis() is called during application startup.'')))
           | Some c \<Rightarrow> (s2, Inr c)))"

text \<open>The shared HTTP client is that of \<open>Clients\<close>; making one does not fail.\<close>

definition http_start :: client_state where
  "http_start = \<lparr>shared_client = None, client_loop = None, clients_made = 0\<rparr>"

definition acquire_http :: "nat \<Rightarrow> client_state \<Rightarrow> client_state \<times> http_client py" where
  "acquire_http loop s = map_prod id Inr (get_shared_client loop s)"

section \<open>Start-up, shut-down and probes\<close>

text \<open>What the database and Redis answer while the probes run: the rows of the two queries, the statements of the
  start-up check, the entry of a session, the ping.\<close>

record service_world =
  extension_rows :: "string list py"
  version_rows :: "string list py"
  execute :: "string \<Rightarrow> unit py"
  enter_session :: "factory \<Rightarrow> unit py"
  ping :: "unit py"

definition sqlalchemy_error :: "py_exc \<Rightarrow> bool" where
  "sqlalchemy_error e \<longleftrightarrow> e \<in> {operational_error, Multiple_Results_Found, Integrity_Error, Other_Error ''SQLAlchemyError'', Other_Error ''DBAPIError'',
     Other_Error ''InterfaceError'', Other_Error ''ProgrammingError''}"

definition verify_extensions :: "service_world \<Rightarrow> (string, bool) dict py" where
  "verify_extensions w = py_bind (extension_rows w) (\<lambda>rows. Inr [(''postgis'', ''postgis'' \<in> set rows), (''vector'', ''vector'' \<in> set rows)])"

text \<open>Statements in order up to the first that fails.\<close>

fun run_statements :: "(string \<Rightarrow> unit py) \<Rightarrow> string list \<Rightarrow> string list \<times> unit py" where
  "run_statements ex [] = ([], Inr ())"
| "run_statements ex (q # qs) =
     (case ex q of Inl e \<Rightarrow> ([q], Inl e) | Inr _ \<Rightarrow> (let (done, r) = run_statements ex qs in (q # done, r)))"

definition check_statements :: "string list" where
  "check_statements = [''SAVEPOINT m5_check'', ''CREATE TEMP TABLE _m5_geom_check (geom geometry(Point, 4326))'',
     ''INSERT INTO _m5_geom_check VALUES (ST_GeomFromText('' @ quoted ''POINT(0 0)'' @ '', 4326))'', ''SELECT ST_AsText(geom) FROM _m5_geom_check'',
     ''CREATE TEMP TABLE _m5_vec_check (embedding vector(3))'', ''INSERT INTO _m5_vec_check VALUES ('' @ quoted ''[1.0, 2.0, 3.0]'' @ '')'',
     ''SELECT embedding FROM _m5_vec_check'']"

definition rollback_statement :: string where
  "rollback_statement = ''ROLLBACK TO SAVEPOINT m5_check''"

text \<open>The first component is the statements sent; the rollback is always the last, and its own exception wins.\<close>

definition run_startup_db_checks :: "service_world \<Rightarrow> db_module \<Rightarrow> string list \<times> unit py" where
  "run_startup_db_checks w s =
     (case session_local s of
        None \<Rightarrow> ([], Inl (Runtime_Error ''init_engine() must be called before _run_startup_db_checks()''))
      | Some f \<Rightarrow>
          (case py_bind (enter_session w f) (\<lambda>_. verify_extensions w) of
             Inl e \<Rightarrow> ([], Inl e)
           | Inr ext \<Rightarrow>
               if \<exists>x\<in>set ext. \<not> snd x
               then ([], Inl (Runtime_Error (''Required PostgreSQL extensions are not installed: '' @
                 json_repr (JArr (map (JStr \<circ> fst) (filter (Not \<circ> snd) ext))) @ ''.  '' @ ''Ensure the database was initialised with init-extensions.sql.'')))
               else let (sent, r) = run_statements (execute w) check_statements
                    in (sent @ [rollback_statement], case execute w rollback_statement of Inl e \<Rightarrow> Inl e | Inr _ \<Rightarrow> r)))"

record service_state =
  svc_db :: db_module
  svc_redis :: redis_module
  svc_http :: client_state

record drivers =
  make_db :: "string \<Rightarrow> unit py"
  make_redis :: "string \<Rightarrow> unit py"
  shown :: "py_exc \<Rightarrow> string"

definition lifespan_start :: "drivers \<Rightarrow> service_world \<Rightarrow> service_settings \<Rightarrow> nat \<Rightarrow> service_state \<Rightarrow> service_state \<times> unit py" where
  "lifespan_start d w cfg loop s =
     (case init_engine (make_db d) cfg (Some loop) (svc_db s) of
        (db, Inl e) \<Rightarrow> (s\<lparr>svc_db := db\<rparr>, Inl e)
      | (db, Inr _) \<Rightarrow>
          (case snd (run_startup_db_checks w db) of
             Inl e \<Rightarrow> (s\<lparr>svc_db := db\<rparr>, Inl e)
           | Inr _ \<Rightarrow>
               (case init_redis (make_redis d) (shown d) (ping w) cfg loop (svc_redis s) of
                  (rd, r) \<Rightarrow> (s\<lparr>svc_db := db, svc_redis := rd\<rparr>, r))))"

definition lifespan_stop :: "service_state \<Rightarrow> service_state" where
  "lifespan_stop s = s\<lparr>svc_http := close_shared_client (svc_http s), svc_redis := dispose_redis (svc_redis s), svc_db := dispose_engine (svc_db s)\<rparr>"

definition liveness :: "string \<Rightarrow> json" where
  "liveness version = JObj [(''status'', JStr ''alive''), (''app_version'', JStr version), (''schema_version'', JStr ''unknown'')]"

definition get_schema_version :: "service_world \<Rightarrow> string py" where
  "get_schema_version w =
     (case py_bind (version_rows w) (\<lambda>rows. scalar_one_or_none (take 1 rows)) of
        Inl e \<Rightarrow> if sqlalchemy_error e then Inr ''unknown'' else Inl e
      | Inr None \<Rightarrow> Inr ''unknown''
      | Inr (Some v) \<Rightarrow> Inr v)"

text \<open>The reply of the readiness probe: 200 with the versions, or 503 with a reason and the failing dependency.\<close>

datatype readiness_reply = Ready string string | Not_Ready string string

definition readiness :: "service_world \<Rightarrow> string \<Rightarrow> readiness_reply py" where
  "readiness w version =
     (case verify_extensions w of
        Inl e \<Rightarrow> if sqlalchemy_error e then Inr (Not_Ready ''Database connection failed.'' ''database'') else Inl e
      | Inr ext \<Rightarrow>
          if \<not> dict_get_or ext ''postgis'' False
          then Inr (Not_Ready (''Required PostgreSQL extension '' @ quoted ''postgis'' @ '' is not installed.'') ''postgis'')
          else if \<not> dict_get_or ext ''vector'' False
          then Inr (Not_Ready (''Required PostgreSQL extension '' @ quoted ''vector'' @ '' (pgvector) is not installed.'') ''pgvector'')
          else case ping w of
                 Inl _ \<Rightarrow> Inr (Not_Ready ''Redis connection failed.'' ''redis'')
               | Inr _ \<Rightarrow> py_bind (get_schema_version w) (\<lambda>v. Inr (Ready version v)))"

text \<open>The route with its dependencies, a session and the Redis client, which are resolved first.\<close>

definition readiness_route :: "drivers \<Rightarrow> service_world \<Rightarrow> service_settings \<Rightarrow> nat \<Rightarrow> string \<Rightarrow> service_state \<Rightarrow> service_state \<times> readiness_reply py" where
  "readiness_route d w cfg loop version s =
     (case get_session_factory (make_db d) cfg (Some loop) (svc_db s) of
        (db, Inl e) \<Rightarrow> (s\<lparr>svc_db := db\<rparr>, Inl e)
      | (db, Inr f) \<Rightarrow>
          (case enter_session w f of
             Inl e \<Rightarrow> (s\<lparr>svc_db := db\<rparr>, Inl e)
           | Inr _ \<Rightarrow>
               (case get_redis (make_redis d) (shown d) (ping w) cfg loop (svc_redis s) of
                  (rd, Inl e) \<Rightarrow> (s\<lparr>svc_db := db, svc_redis := rd\<rparr>, Inl e)
                | (rd, Inr _) \<Rightarrow> (s\<lparr>svc_db := db, svc_redis := rd\<rparr>, readiness w version))))"

section \<open>Interface: a resource bound to an event loop\<close>

text \<open>The resources acquired by a sequence of event loops.\<close>

fun acquires :: "(nat \<Rightarrow> 's \<Rightarrow> 's \<times> 'r py) \<Rightarrow> nat list \<Rightarrow> 's \<Rightarrow> (nat \<times> 'r py) list" where
  "acquires acquire [] s = []"
| "acquires acquire (l # ls) s = (case acquire l s of (s', r) \<Rightarrow> (l, r) # acquires acquire ls s')"

text \<open>What users of a singleton rely on: an acquired resource is the one held, at home in the loop that asked; the same
  loop gets it again; a loop that is not its home gets one that did not exist before.\<close>

locale loop_resource =
  fixes acquire :: "nat \<Rightarrow> 's \<Rightarrow> 's \<times> 'r py"
    and held :: "'s \<Rightarrow> 'r option"
    and home :: "'s \<Rightarrow> nat option"
    and made :: "'s \<Rightarrow> 'r set"
    and ok :: "'s \<Rightarrow> bool"
  assumes acquired: "ok s \<Longrightarrow> acquire l s = (s', Inr r) \<Longrightarrow> held s' = Some r \<and> home s' = Some l \<and> r \<in> made s'"
    and same: "ok s \<Longrightarrow> held s = Some r \<Longrightarrow> home s = Some l \<Longrightarrow> acquire l s = (s, Inr r)"
    and other: "ok s \<Longrightarrow> home s \<noteq> Some l \<Longrightarrow> acquire l s = (s', Inr r) \<Longrightarrow> r \<notin> made s"
    and idle: "ok s \<Longrightarrow> held s = None \<Longrightarrow> acquire l s = (s', Inr r) \<Longrightarrow> r \<notin> made s"
    and keeps: "ok s \<Longrightarrow> acquire l s = (s', x) \<Longrightarrow> ok s' \<and> made s \<subseteq> made s' \<and> (held s' = None \<or> held s' = held s \<and> home s' = home s \<or> (\<exists>r. x = Inr r))"
begin

lemma again: "ok s \<Longrightarrow> acquire l s = (s', Inr r) \<Longrightarrow> acquire l s' = (s', Inr r)"
  using acquired keeps same by blast

lemma acquires_new_or_held:
  "ok s \<Longrightarrow> (l, Inr r) \<in> set (acquires acquire ls s) \<Longrightarrow> r \<notin> made s \<or> held s = Some r \<and> home s = Some l"
proof (induction ls arbitrary: s)
  case (Cons l0 ls)
  obtain s' x where step: "acquire l0 s = (s', x)" by fastforce
  note k = keeps [OF Cons.prems(1) step]
  show ?case
  proof (cases "(l, Inr r) = (l0, x)")
    case True
    then show ?thesis using Cons.prems(1) step other idle same by (metis option.collapse Pair_inject sum.inject(2))
  next
    case False
    then have "(l, Inr r) \<in> set (acquires acquire ls s')" using Cons.prems(2) step by auto
    then have IH: "r \<notin> made s' \<or> held s' = Some r \<and> home s' = Some l" using Cons.IH k by blast
    show ?thesis
    proof (cases "\<exists>r'. x = Inr r'")
      case True
      then obtain r' where x: "x = Inr r'" by blast
      then show ?thesis using IH k acquired [OF Cons.prems(1) step [unfolded x]] other [OF Cons.prems(1) _ step [unfolded x]]
          idle [OF Cons.prems(1) _ step [unfolded x]] same [OF Cons.prems(1)] step
        by (metis option.collapse option.inject Pair_inject sum.inject(2) subsetD)
    next
      case False
      then show ?thesis using IH k by (metis option.distinct(1) subsetD)
    qed
  qed
qed simp

text \<open>Two loops never get the same resource.\<close>

lemma acquires_unshared:
  "ok s \<Longrightarrow> (l, Inr r) \<in> set (acquires acquire ls s) \<Longrightarrow> (l', Inr r) \<in> set (acquires acquire ls s) \<Longrightarrow> l = l'"
proof (induction ls arbitrary: s)
  case (Cons l0 ls)
  obtain s' x where step: "acquire l0 s = (s', x)" by fastforce
  have ok: "ok s'" using keeps [OF Cons.prems(1) step] by blast
  have first: "l1 = l0" if "x = Inr r" "(l1, Inr r) \<in> set (acquires acquire ls s')" for l1
    using acquires_new_or_held [OF ok that(2)] acquired [OF Cons.prems(1) step [unfolded that(1)]] by auto
  show ?case using Cons.prems(2,3) step first Cons.IH [OF ok] by auto
qed simp

end

section \<open>The singletons implement it\<close>

definition redis_ok :: "redis_module \<Rightarrow> bool" where
  "redis_ok s \<longleftrightarrow> (case redis_client s of None \<Rightarrow> True | Some c \<Rightarrow> c < redis_next s \<and> redis_loop s \<noteq> None)"

definition http_ok :: "client_state \<Rightarrow> bool" where
  "http_ok s \<longleftrightarrow> (case shared_client s of None \<Rightarrow> True | Some c \<Rightarrow> client_no c < clients_made s \<and> \<not> is_closed c)"

lemmas redis_defs = get_redis_def init_redis_def dispose_redis_def redis_ok_def

interpretation redis: loop_resource "get_redis mk shown ping cfg" redis_client redis_loop "\<lambda>s. {..<redis_next s}" redis_ok for mk shown ping cfg
  by unfold_locales (auto simp: redis_defs Let_def split: option.splits sum.splits if_splits)

interpretation http: loop_resource acquire_http shared_client client_loop "\<lambda>s. {c. client_no c < clients_made s}" http_ok
  by unfold_locales (auto simp: acquire_http_def get_shared_client_def close_shared_client_def http_ok_def Let_def split: option.splits if_splits)

text \<open>The database module: the settings, whose URLs can be used, determine the URLs of what it holds.\<close>

definition replica_ready :: "(string \<Rightarrow> unit py) \<Rightarrow> service_settings \<Rightarrow> bool" where
  "replica_ready mk cfg \<longleftrightarrow>
     (case read_asyncpg_url cfg of Inl _ \<Rightarrow> False | Inr None \<Rightarrow> True | Inr (Some u) \<Rightarrow> mk u = Inr ())"

definition db_ok :: "(string \<Rightarrow> unit py) \<Rightarrow> service_settings \<Rightarrow> db_module \<Rightarrow> bool" where
  "db_ok mk cfg s \<longleftrightarrow> replica_ready mk cfg \<and>
     (case session_local s of
        None \<Rightarrow> db_engine s = None \<and> db_read_engine s = None \<and> read_session_local s = None
      | Some f \<Rightarrow> asyncpg_url cfg = Inr (eng_url (fac_engine f)) \<and> db_engine s = Some (fac_engine f) \<and> fac_id f < db_next s \<and> eng_id (fac_engine f) < db_next s \<and>
          (case read_asyncpg_url cfg of
             Inl _ \<Rightarrow> False
           | Inr None \<Rightarrow> read_session_local s = Some f \<and> db_read_engine s = None
           | Inr (Some ru) \<Rightarrow> (\<exists>rf. read_session_local s = Some rf \<and> eng_url (fac_engine rf) = ru \<and> db_read_engine s = Some (fac_engine rf) \<and>
               eng_id (fac_engine rf) \<noteq> eng_id (fac_engine f))))"

lemmas db_defs = init_engine_def make_engine_def check_loop_def get_session_factory_def dispose_engine_def

lemma check_loop_ok: "db_ok mk cfg s \<Longrightarrow> db_ok mk cfg (check_loop l s)"
  by (auto simp: db_ok_def check_loop_def split: option.splits)

lemma init_engine_result:
  assumes "replica_ready mk cfg" "init_engine mk cfg l s = (s', x)"
  shows "x = Inr () \<and> db_ok mk cfg s' \<and> engine_loop s' = l \<and> db_next s < db_next s' \<and>
      (\<exists>f. session_local s' = Some f \<and> db_next s \<le> fac_id f) \<or> (\<exists>e. x = Inl e) \<and> s' = check_loop l s"
proof -
  have n: "db_next (check_loop l s) = db_next s" by (simp add: check_loop_def)
  show ?thesis using assms n unfolding replica_ready_def
    by (fastforce simp: init_engine_def make_engine_def py_bind_def Let_def db_ok_def replica_ready_def split: if_splits sum.splits option.splits)
qed

lemma dispose_engine_ok: "db_ok mk cfg s \<Longrightarrow> db_ok mk cfg (dispose_engine s)"
  by (auto simp: db_ok_def dispose_engine_def Let_def split: option.splits sum.splits)

lemma get_session_factory_ok:
  assumes "db_ok mk cfg s" "get_session_factory mk cfg l s = (s', x)"
  shows "db_ok mk cfg s'" "\<And>f. x = Inr f \<Longrightarrow> session_local s' = Some f"
proof -
  let ?s0 = "check_loop l s"
  have ok: "db_ok mk cfg ?s0" using assms(1) by (rule check_loop_ok)
  then have "replica_ready mk cfg" by (simp add: db_ok_def)
  obtain s1 y where init: "init_engine mk cfg l ?s0 = (s1, y)" by fastforce
  note r = init_engine_result [OF \<open>replica_ready mk cfg\<close> init]
  show "db_ok mk cfg s'" using assms(2) ok r init check_loop_ok [OF ok, of l]
    by (auto simp: get_session_factory_def Let_def split: option.splits sum.splits)
  show "session_local s' = Some f" if "x = Inr f" for f
    using assms(2) that init by (auto simp: get_session_factory_def Let_def split: option.splits sum.splits)
qed

text \<open>For the interface the engines must have been made inside of an event loop.\<close>

definition db_bound :: "(string \<Rightarrow> unit py) \<Rightarrow> service_settings \<Rightarrow> db_module \<Rightarrow> bool" where
  "db_bound mk cfg s \<longleftrightarrow> db_ok mk cfg s \<and> (session_local s \<noteq> None \<longrightarrow> engine_loop s \<noteq> None)"

lemma get_session_factory_bound:
  assumes "db_bound mk cfg s" "get_session_factory mk cfg (Some l) s = (s', x)"
  shows "engine_loop s = Some l \<and> session_local s \<noteq> None \<and> s' = s \<and> x = Inr (the (session_local s)) \<or>
    (engine_loop s \<noteq> Some l \<or> session_local s = None) \<and> db_next s \<le> db_next s' \<and>
      ((\<exists>f. x = Inr f \<and> session_local s' = Some f \<and> engine_loop s' = Some l \<and> db_next s \<le> fac_id f \<and> fac_id f < db_next s') \<or> (\<exists>e. x = Inl e) \<and> session_local s' = None)"
proof (cases "engine_loop s = Some l \<and> session_local s \<noteq> None")
  case True
  then show ?thesis using assms(2) by (auto simp: get_session_factory_def check_loop_def)
next
  case False
  let ?s0 = "check_loop (Some l) s"
  have s0: "session_local ?s0 = None" "db_next ?s0 = db_next s" using False assms(1) by (auto simp: check_loop_def db_bound_def)
  have "replica_ready mk cfg" using assms(1) by (simp add: db_bound_def db_ok_def)
  obtain s1 y where init: "init_engine mk cfg (Some l) ?s0 = (s1, y)" by fastforce
  have twice: "check_loop (Some l) ?s0 = ?s0" by (simp add: check_loop_def)
  have "(\<exists>e. y = Inl e \<and> s' = ?s0 \<and> x = Inl e) \<or> (\<exists>f. y = Inr () \<and> s' = s1 \<and> db_ok mk cfg s1 \<and> x = Inr f \<and> session_local s1 = Some f \<and> engine_loop s1 = Some l \<and> db_next s \<le> fac_id f \<and> db_next s < db_next s1)"
    using init_engine_result [OF \<open>replica_ready mk cfg\<close> init] assms(2) init s0 twice
    by (auto simp: get_session_factory_def Let_def)
  then show ?thesis using False s0 by (auto simp: db_ok_def)
qed

interpretation db: loop_resource "\<lambda>l. get_session_factory mk cfg (Some l)" session_local engine_loop "\<lambda>s. {f. fac_id f < db_next s}" "db_bound mk cfg" for mk cfg
proof
  fix s s' :: db_module and l :: nat and x :: "factory py"
  assume a: "db_bound mk cfg s" "get_session_factory mk cfg (Some l) s = (s', x)"
  note g = get_session_factory_bound [OF a]
  have ok: "db_ok mk cfg s'" using get_session_factory_ok(1) [of mk cfg s] a by (simp add: db_bound_def)
  show "db_bound mk cfg s' \<and> {f. fac_id f < db_next s} \<subseteq> {f. fac_id f < db_next s'} \<and>
      (session_local s' = None \<or> session_local s' = session_local s \<and> engine_loop s' = engine_loop s \<or> (\<exists>r. x = Inr r))"
    using g ok a(1) by (auto simp: db_bound_def)
next
  fix s :: db_module and l :: nat and r :: factory
  assume "db_bound mk cfg s" "session_local s = Some r" "engine_loop s = Some l"
  then show "get_session_factory mk cfg (Some l) s = (s, Inr r)" by (simp add: get_session_factory_def check_loop_def)
next
  fix s s' :: db_module and l :: nat and r :: factory
  assume a: "db_bound mk cfg s" "get_session_factory mk cfg (Some l) s = (s', Inr r)"
  note g = get_session_factory_bound [OF a]
  show "session_local s' = Some r \<and> engine_loop s' = Some l \<and> r \<in> {f. fac_id f < db_next s'}"
    using g a(1) by (auto simp: db_bound_def db_ok_def)
  show "r \<notin> {f. fac_id f < db_next s}" if "engine_loop s \<noteq> Some l" using g that by auto
  show "r \<notin> {f. fac_id f < db_next s}" if "session_local s = None" using g that by auto
qed

section \<open>Sessions follow the settings\<close>

text \<open>The states the module reaches: its operations, each inside of some event loop or outside of any.\<close>

inductive db_reach :: "(string \<Rightarrow> unit py) \<Rightarrow> service_settings \<Rightarrow> db_module \<Rightarrow> bool" for mk cfg where
  reach_start: "db_reach mk cfg db_start"
| reach_init: "db_reach mk cfg s \<Longrightarrow> db_reach mk cfg (fst (init_engine mk cfg l s))"
| reach_dispose: "db_reach mk cfg s \<Longrightarrow> db_reach mk cfg (dispose_engine s)"
| reach_factory: "db_reach mk cfg s \<Longrightarrow> db_reach mk cfg (fst (get_session_factory mk cfg l s))"

lemma db_reach_ok:
  assumes "replica_ready mk cfg"
  shows "db_reach mk cfg s \<Longrightarrow> db_ok mk cfg s"
proof (induction rule: db_reach.induct)
  case reach_start
  then show ?case using assms by (simp add: db_ok_def db_start_def)
next
  case (reach_init s l)
  then show ?case using init_engine_result [OF assms, of l s] check_loop_ok by (metis prod.collapse)
next
  case (reach_factory s l)
  then show ?case using get_session_factory_ok(1) by (metis prod.collapse)
qed (rule dispose_engine_ok)

text \<open>The cases of a read session.\<close>

lemma get_read_session_cases:
  fixes l :: "nat option"
  assumes "db_ok mk cfg s"
  defines "s0 \<equiv> check_loop l s"
  shows "get_read_session mk cfg l enter consumer s =
    (case session_local s0 of
       None \<Rightarrow> (case get_session_factory mk cfg l s0 of (s1, Inl e) \<Rightarrow> (s1, [], Inl e) | (s1, Inr p) \<Rightarrow> (s1, use_session enter consumer p))
     | Some p \<Rightarrow>
         (let rf = the (read_session_local s0)
          in (s0, if enter rf = Inl operational_error \<and> rf \<noteq> p then use_session enter consumer p else use_session enter consumer rf)))"
proof -
  have ok: "db_ok mk cfg s0" unfolding s0_def using assms(1) by (rule check_loop_ok)
  show ?thesis
  proof (cases "session_local s0")
    case None
    then have "read_session_local s0 = None" using ok by (simp add: db_ok_def)
    moreover obtain s1 x where g: "get_session_factory mk cfg l s0 = (s1, x)" by fastforce
    moreover have "session_local s1 = Some p" if "x = Inr p" for p using get_session_factory_ok(2) [OF ok g that] .
    ultimately show ?thesis using None unfolding get_read_session_def s0_def [symmetric] Let_def
      by (auto simp: use_session_def split: sum.split)
  next
    case (Some p)
    then obtain rf where "read_session_local s0 = Some rf" using ok by (auto simp: db_ok_def split: sum.splits option.splits)
    then show ?thesis using Some unfolding get_read_session_def s0_def [symmetric] Let_def
      by (auto simp: use_session_def split: sum.split)
  qed
qed


text \<open>A session connects on its first statement and not on entry: entering one does not fail. Then a replica that is
  down is an exception of the consumer, and the primary database is not asked.\<close>

lemma replica_failure_reaches_consumer:
  assumes "db_ok mk cfg s" "session_local (check_loop l s) = Some p" "read_session_local (check_loop l s) = Some rf"
    and lazy: "\<And>f. enter f = Inr ()"
  shows "snd (get_read_session mk cfg l enter consumer s) = ([rf], consumer rf)"
  using assms(2-4) by (simp add: get_read_session_cases [OF assms(1)] use_session_def Let_def)

text \<open>When the event loop changes, the engines of the old one are dropped without being disposed.\<close>

lemma loop_switch_drops_engine:
  assumes "db_engine s = Some e" "engine_loop s = Some l" "l \<noteq> l'"
  shows "db_engine (check_loop (Some l') s) = None \<and> db_disposed (check_loop (Some l') s) = db_disposed s"
  using assms by (simp add: check_loop_def)

definition any_url :: "string \<Rightarrow> unit py" where
  "any_url u = Inr ()"

definition replica_settings :: service_settings where
  "replica_settings = \<lparr>gaiaos_env = Prod, database_url = Some ''postgres://db/gaia'', read_replica_database_url = Some ''postgresql://replica/gaia'',
     redis_url = Some ''redis://cache'', enable_auth = True, limiter_cfg = sample_limits,
     auth_cfg = sample_settings\<lparr>jwt_secret_key := Some ''0123456789abcdef0123456789abcdef''\<rparr>, backup_storage_backend = Minio_Storage,
     minio_endpoint = Some ''minio'', minio_access_key = Some ''k'', minio_secret_key = Some ''s'', minio_bucket = Some ''gaia-backups''\<rparr>"

lemma replica_urls:
  "asyncpg_url replica_settings = Inr ''postgresql+asyncpg://db/gaia''"
  "read_asyncpg_url replica_settings = Inr (Some ''postgresql+asyncpg://replica/gaia'')"
  by code_simp+


section \<open>No resource crosses event loops\<close>

definition unshared :: "(nat \<times> 'r py) list \<Rightarrow> bool" where
  "unshared xs \<longleftrightarrow> (\<forall>l l' r. (l, Inr r) \<in> set xs \<and> (l', Inr r) \<in> set xs \<longrightarrow> l = l')"



section \<open>The life of the server\<close>

lemma readiness_iff:
  "readiness w v = Inr (Ready a b) \<longleftrightarrow> a = v \<and> get_schema_version w = Inr b \<and> ping w = Inr () \<and>
     (\<exists>rows. extension_rows w = Inr rows \<and> ''postgis'' \<in> set rows \<and> ''vector'' \<in> set rows)"
  by (auto simp: readiness_def verify_extensions_def py_bind_def dict_get_or_def split: sum.split)

definition new_service :: service_state where
  "new_service = \<lparr>svc_db = db_start, svc_redis = redis_start, svc_http = http_start\<rparr>"

lemma startup_checks_passed:
  assumes "snd (run_startup_db_checks w s) = Inr ()"
  obtains f rows where "session_local s = Some f" "enter_session w f = Inr ()" "extension_rows w = Inr rows" "''postgis'' \<in> set rows" "''vector'' \<in> set rows"
  using assms by (auto simp: run_startup_db_checks_def verify_extensions_def py_bind_def Let_def split: option.splits sum.splits if_splits prod.splits)

text \<open>An engine made from nothing: what the module holds, and what disposing of it disposes of.\<close>

lemma init_engine_fresh:
  assumes "init_engine mk cfg (Some l) db_start = (s, Inr ())"
  obtains e f where "db_engine s = Some e" "session_local s = Some f" "fac_engine f = e" "engine_loop s = Some l" "db_read_engine s \<noteq> Some e" "db_disposed s = []"
  using assms by (auto simp: init_engine_def make_engine_def check_loop_def db_start_def py_bind_def Let_def split: if_splits sum.splits option.splits)

lemma init_redis_fresh:
  assumes "init_redis mk sh pg cfg l redis_start = (s, Inr ())"
  shows "pg = Inr () \<and> redis_client s = Some 0 \<and> redis_loop s = Some l \<and> redis_next s = 1 \<and> redis_closed s = []"
  using assms by (auto simp: init_redis_def redis_start_def Let_def split: option.splits sum.splits)

text \<open>C40: A server whose start-up goes through, on a database and a Redis that keep answering as they did, is ready: the
  readiness probe, whose queries find the schema version, says so without changing anything. Its shut-down, also when
  the shared HTTP client has been used, leaves nothing held: both engines, that of the replica first, and the Redis
  client are closed, and the HTTP client is given up.\<close>

theorem service_lifecycle:
  assumes start: "lifespan_start d w cfg loop new_service = (s, Inr ())" and schema: "get_schema_version w = Inr sv"
  shows "readiness_route d w cfg loop version s = (s, Inr (Ready version sv)) \<and>
    (let t = lifespan_stop (s\<lparr>svc_http := fst (get_shared_client loop (svc_http s))\<rparr>)
     in db_engine (svc_db t) = None \<and> db_read_engine (svc_db t) = None \<and> session_local (svc_db t) = None \<and> read_session_local (svc_db t) = None \<and>
        redis_client (svc_redis t) = None \<and> shared_client (svc_http t) = None \<and>
        Some (last (db_disposed (svc_db t))) = db_engine (svc_db s) \<and>
        butlast (db_disposed (svc_db t)) = (case db_read_engine (svc_db s) of None \<Rightarrow> [] | Some r \<Rightarrow> [r]) \<and>
        set (redis_closed (svc_redis t)) = {..<redis_next (svc_redis t)})"
proof -
  obtain db where init: "init_engine (make_db d) cfg (Some loop) db_start = (db, Inr ())" and checks: "snd (run_startup_db_checks w db) = Inr ()"
    and rd: "init_redis (make_redis d) (shown d) (ping w) cfg loop redis_start = (svc_redis s, Inr ())" and s: "svc_db s = db" "svc_http s = http_start"
    using start by (auto simp: lifespan_start_def new_service_def split: prod.splits sum.splits)
  obtain e f where db: "db_engine db = Some e" "session_local db = Some f" "engine_loop db = Some loop" "db_read_engine db \<noteq> Some e" "db_disposed db = []"
    using init_engine_fresh [OF init] by metis
  obtain rows where ext: "enter_session w f = Inr ()" "extension_rows w = Inr rows" "''postgis'' \<in> set rows" "''vector'' \<in> set rows"
    using startup_checks_passed [OF checks] db(2) by (metis option.inject)
  note r = init_redis_fresh [OF rd]
  have "readiness w version = Inr (Ready version sv)" unfolding readiness_iff using ext schema r by blast
  moreover have "get_session_factory (make_db d) cfg (Some loop) db = (db, Inr f)" using db by (simp add: get_session_factory_def check_loop_def)
  moreover have "get_redis (make_redis d) (shown d) (ping w) cfg loop (svc_redis s) = (svc_redis s, Inr 0)" using r by (simp add: get_redis_def)
  ultimately have ready: "readiness_route d w cfg loop version s = (s, Inr (Ready version sv))" using s ext by (simp add: readiness_route_def)
  have http: "fst (get_shared_client loop http_start) = \<lparr>shared_client = Some \<lparr>client_no = 0, is_closed = False\<rparr>, client_loop = Some loop, clients_made = 1\<rparr>"
    by (simp add: get_shared_client_def http_start_def Let_def)
  show ?thesis using ready db r s
    by (auto simp: http lifespan_stop_def dispose_engine_def dispose_redis_def close_shared_client_def Let_def split: option.split)
qed

definition sample_drivers :: drivers where
  "sample_drivers = \<lparr>make_db = any_url, make_redis = any_url, shown = (\<lambda>e. ''error'')\<rparr>"

definition sample_world :: service_world where
  "sample_world = \<lparr>extension_rows = Inr [''postgis'', ''vector''], version_rows = Inr [''0027''], execute = (\<lambda>q. Inr ()), enter_session = (\<lambda>f. Inr ()), ping = Inr ()\<rparr>"

theorem service_lifecycle_witness:
  "\<exists>s. lifespan_start sample_drivers sample_world replica_settings 1 new_service = (s, Inr ()) \<and>
     readiness_route sample_drivers sample_world replica_settings 1 ''1.0'' s = (s, Inr (Ready ''1.0'' ''0027''))"
proof -
  let ?r = "lifespan_start sample_drivers sample_world replica_settings 1 new_service"
  have "snd ?r = Inr ()" by code_simp
  then have start: "?r = (fst ?r, Inr ())" by (metis prod.collapse)
  have schema: "get_schema_version sample_world = Inr ''0027''" by code_simp
  show ?thesis using service_lifecycle [OF start schema, of "''1.0''"] start by blast
qed

text \<open>Without a Redis client the route raises before the probe could answer that Redis is the failing dependency.\<close>

lemma readiness_without_redis:
  assumes "redis_client (svc_redis s) = None" "session_local (svc_db s) = Some f" "engine_loop (svc_db s) = Some loop" "enter_session w f = Inr ()"
  shows "\<exists>m. snd (readiness_route d w cfg loop version s) = Inl (Runtime_Error m)"
  using assms by (simp add: readiness_route_def get_session_factory_def check_loop_def get_redis_def)

section \<open>Deployed settings\<close>

text \<open>Settings that pass the checks for a deployment sign access tokens with a key of at least 32 characters that is not
  the published one of the sources, and in production limit the rate of requests.\<close>

lemma deployment_settings:
  assumes "validate_production_security cfg = Inr ()" "gaiaos_env cfg \<noteq> Dev"
  shows "32 \<le> length (signing_key (auth_cfg cfg) None) \<and> signing_key (auth_cfg cfg) None \<noteq> DEFAULT_DEV_JWT_SECRET \<and>
    is_set (database_url cfg) \<and> is_set (redis_url cfg) \<and> (gaiaos_env cfg = Prod \<longrightarrow> enable_rate_limiting (limiter_cfg cfg))"
proof -
  have deployed: "gaiaos_env cfg = Staging \<or> gaiaos_env cfg = Prod" using assms(2) by (cases "gaiaos_env cfg") auto
  have or: "or_text x [] = z \<Longrightarrow> z \<noteq> [] \<Longrightarrow> x = Some z" for x z by (auto simp: or_text_def split: option.splits list.splits)
  have "check_jwt_secret (jwt_secret_key (auth_cfg cfg)) = Inr ()"
    using assms(1) deployed by (auto simp: validate_production_security_def py_bind_def Let_def split: if_splits sum.splits)
  then have "32 \<le> length (or_text (jwt_secret_key (auth_cfg cfg)) [])" "or_text (jwt_secret_key (auth_cfg cfg)) [] \<noteq> DEFAULT_DEV_JWT_SECRET"
    using or [of "jwt_secret_key (auth_cfg cfg)" DEFAULT_DEV_JWT_SECRET] by (auto simp: check_jwt_secret_def DEFAULT_DEV_JWT_SECRET_def split: if_splits)
  moreover have "signing_key (auth_cfg cfg) None = or_text (jwt_secret_key (auth_cfg cfg)) []" by (simp add: signing_key_def or_text_def)
  ultimately show ?thesis using assms(1) deployed by (auto simp: validate_production_security_def Let_def split: if_splits)
qed

text \<open>A bucket name that ends in a line feed passes.\<close>

lemma check_bucket_line_feed: "check_bucket (''gaia-backups'' @ [char_of (10 :: nat)]) = Inr ()"
  by code_simp

text \<open>The client library accepts the server exactly if the major versions agree.\<close>

lemma validate_server_live:
  assumes "read_version server = Some (m, n)" "read_version sdk = Some (m', n')"
    and "transport (build_request sdk c ep_liveness None) = Inr \<lparr>rp_status = 200, rp_json = Some (liveness server), rp_retry_after = None\<rparr>"
  shows "(\<exists>v. validate_server transport read_version sdk c = Inr v) \<longleftrightarrow> m = m'"
proof -
  have "parse_response ep_liveness \<lparr>rp_status = 200, rp_json = Some (liveness server), rp_retry_after = None\<rparr> = Inr (Parsed_Model LivenessModel (liveness server))"
    by (simp add: parse_response_def ep_liveness_def reply_json_def LivenessModel_def liveness_def dict_of_json_def)
  then have "sdk_call transport (build_request sdk c ep_liveness None) ep_liveness = Inr (200, Parsed_Model LivenessModel (liveness server))"
    by (simp add: sdk_errors_typed [where transport = transport, OF assms(3)])
  then show ?thesis using assms(1,2)
    by (auto simp: validate_server_def sdk_bind_def liveness_def dict_of_json_def dict_get_or_def json_str_def check_version_compatibility_def Let_def split: sum.splits)
qed

end
