(* ===== verification/Spec2Isabelle.thy ===== *)
theory Spec2Isabelle
  imports Resilience Alerting Gateway Scaling Domain_Agents Investigations Checkpoint Literature Patterns Calibration Literature_Ingestion Scheduler Backup Metrics Service
begin

text \<open>
  GaiaOS answers environmental questions with a graph of agents. A request passes the gateway
  (\<open>gateway/\<close>, \<open>auth/\<close>, \<open>app/api/v1\<close>), an investigation is queued, and a worker runs the graph
  (\<open>orchestrator/graph\<close>): the supervisor classifies the query, the matched domain agents run in parallel
  and ask their data sources, the synthesis agent turns their evidence into cited claims with
  uncertainty, the critic flags weak claims, high-severity flags trigger at most two replan cycles, and the
  last node stores the answer with a trace. A scheduler starts the recurring jobs (ingestion of hazard events
  and papers, calibration, pattern mining, alerts, backups and restore drills). Around the graph stand the resilience layer for external sources,
  the checkpointer, the causal and literature stores, the research output, pattern mining, the alert
  evaluation, the scaling policy, the evaluation harness and the explainability endpoint. This development
  models that logic and proves what makes it correct; it is a shallow embedding of the Python code, with the
  lines of each definition recorded in \<open>PROJECT.json\<close>.

  \<^bold>\<open>Conventions.\<close> An exception is a value of \<open>py_exc\<close>, a fallible call has type \<open>'a py\<close>, that is
  \<open>py_exc + 'a\<close>. A \<open>dict\<close> is an association list in insertion order, a string a list of Latin-1
  characters, a decoded JSON text a value of \<open>json\<close>, a UUID a natural number, a time a count of
  microseconds. A Python \<open>float\<close> is the rational number it denotes and every operation is the exact one
  followed by rounding to 53 significant bits, ties to even (\<open>fl64\<close>); the exponent is unbounded, so
  overflow, underflow, infinities and not-a-number are outside the model. A database table is the list of
  its rows, and a unique column raises as the database does. State is passed explicitly; one invocation of
  a handler is one step, so interleavings are sequences of handlers.

  \<^bold>\<open>Parameters.\<close> Code outside the repository is an argument: replies of the language model and of HTTP
  services, outcomes of plugin agents, the availability of Redis at each access, rows of metric queries,
  entry points and imports, SHA-256, Argon2 and the JWT library, random tokens and identifiers, the hash of
  \<open>uuid5\<close>, the order in which a set is iterated, message order on the collaboration bus, the functions of
  libm, the seeded shuffle, the YAML library, the spatial and text-search operators of the database, the serialiser of the graph library, the
  XML parser, \<open>pg_dump\<close> and \<open>psql\<close>, the drivers of PostgreSQL and Redis, the route handler. Laws assumed of them are hypotheses of the theorems, and each such theorem has a witness.

  \<^bold>\<open>Theories.\<close>
  \<^item> \<open>Prelude\<close>: exceptions, dictionaries, Python strings, the interfaces \<open>kv_map\<close>, \<open>invariant_system\<close> and
    \<open>ordered_system\<close>. \<open>Float64\<close>: binary64 rounding, monotone and with a relative error bound, compensated
    summation, \<open>round\<close>. \<open>Json\<close>: values, access, truth value, \<open>str\<close> and \<open>repr\<close>. \<open>Python_Text\<close>: numbers read from
    text, case, calendar dates.
  \<^item> \<open>Uncertainty\<close> (\<open>schemas/uncertainty.py\<close>, \<open>uncertainty_propagation.py\<close>): combining estimates never
    narrows (C6); conflicts widen and the order does not matter.
  \<^item> \<open>Evidence\<close> (\<open>schemas/agent_io.py\<close>, \<open>schemas/synthesis.py\<close>), \<open>Citation\<close> (\<open>citation_mapper.py\<close>): the
    indices equal a linear search.
  \<^item> \<open>Synthesis\<close> (\<open>agents/synthesis/agent.py\<close>): cited evidence exists (C5),
    cross-domain claims are supported, intervals contain their evidence,
    failures of the model fall back.
  \<^item> \<open>Registry\<close> (\<open>agents/registry.py\<close>, \<open>plugin_loader.py\<close>): plugins never displace agents.
    \<open>Fan_Out\<close> (\<open>collaboration_bus.py\<close>, \<open>fan_out_coordinator.py\<close>): outputs
    aligned with requests. \<open>Classifier\<close> (\<open>supervisor/classifier.py\<close>): keywords match whole words
    only. \<open>Events\<close> (\<open>schemas/events.py\<close>, \<open>cache/\<close>, the stream route): the event stream round
    trip (C12). \<open>Critic\<close> (\<open>agents/critic\<close>): sound replan targets.
  \<^item> \<open>Graph\<close> (\<open>graph/builder.py\<close>, \<open>investigation_job.py\<close>): the graph as a step relation on configurations;
    termination within twelve nodes (C1), groundedness (C2), truthful
    completion (C3). Twelve is the longest path: six nodes of the first pass and two replan
    cycles of three nodes each; \<open>run_graph\<close> executes a run for a given list of replies, and
    C1 shows that a run that has not ended can always go on.
  \<^item> \<open>Checkpoint\<close> (\<open>graph/checkpointer.py\<close>): what a thread stores is what it reads (C11), and
    threads do not see each other.
  \<^item> \<open>Resilience\<close> (\<open>resilience/\<close>): breaker state machine (C13), three attempts and a fallback
    (C14). \<open>Clients\<close> (\<open>tools/\<close>): the clients of the sources, geocoding, the nearest
    station and boundaries. \<open>Domain_Agents\<close> (\<open>orchestrator/agents/*/agent.py\<close>): the agents
    answer honestly whatever their sources do (C8).
  \<^item> \<open>Causal\<close> (\<open>db/causal_repository.py\<close>): the recursive query finds exactly the simple causal chains up to the
    depth bound (C7); the recursion of the query ends because every round lengthens the
    paths and the depth is bounded. \<open>Literature\<close> (\<open>hybrid_search\<close>, \<open>seed_chunks\<close>, \<open>agents/literature_rag\<close>): the
    fused ranking is the top of both lists (C25).
  \<^item> \<open>Investigations\<close> (\<open>app/api/v1/investigations.py\<close>, \<open>research.py\<close>, \<open>anonymization.py\<close>,
    \<open>dataset_export_job.py\<close>, the investigation table): research output reveals nothing private
    (C9), investigations stay with their owner (C10).
    \<open>Patterns\<close> (\<open>pattern_mining_job.py\<close>, the findings table): mining is sound and keeps versions in order
    (C26).
  \<^item> \<open>Simulation\<close> (\<open>simulation_engine/\<close>, \<open>agents/simulation\<close>): parameter files and their cache, the four
    hazard models, numbers read from text; the agent answers whatever was calibrated
    (C27). \<open>Calibration\<close> (\<open>simulation_engine/calibration\<close>, \<open>calibration_job.py\<close>): the fits and
    the versioned files; only candidates that score no worse are promoted, and no sequence
    of jobs makes a model unusable or changes a written version (C28).
  \<^item> \<open>Dates\<close>: \<open>strptime\<close>, \<open>fromisoformat\<close> and \<open>isoformat\<close> as executable functions. \<open>Ingestion\<close>
    (\<open>ingestion_jobs.py\<close>, \<open>ingestion/scheduled\<close>, three clients of \<open>tools/\<close>): the five sources and the job;
    what a run stores, and that no sequence of runs loses or changes an event
    (C29). \<open>Literature_Ingestion\<close> (\<open>literature_ingestion_job.py\<close>,
    \<open>arxiv_open_access.py\<close>, both seeders): chunks cover the text (C30), the job stores exactly the new papers.
  \<^item> \<open>Scheduler\<close> (\<open>workers/scheduler.py\<close>): starting it again changes nothing (C31). \<open>Backup\<close>
    (\<open>ops/backup\<close>): successful backups stay restorable (C32), a backup can be drilled at once
    (C33), and a drill that succeeds has compared what it says (C34).
  \<^item> \<open>Metrics\<close> (\<open>metrics/\<close>, \<open>admin_metrics.py\<close>): roll-ups partition the rows of a window, with ordered percentiles
    (C35); counters; who may scrape. \<open>Sdk\<close> (\<open>sdk/python/gaiaos_sdk\<close>): the client
    library over the gateway (C36) and over the route of investigations (C37).
  \<^item> \<open>Service\<close> (\<open>config/settings.py\<close>, \<open>db/session.py\<close>, \<open>cache/client.py\<close>, \<open>tools/http_client.py\<close>, \<open>app/main.py\<close>,
    \<open>health.py\<close>): the checks on the settings; sessions come from the databases the settings name
    (C38), no event loop gets a resource of another (C39), and a server that
    starts is ready and closes what it opened (C40).
  \<^item> \<open>Rate_Limit\<close> (\<open>gateway/rate_limiter_redis.py\<close>): quota over any sequence of requests (C15) and the answers of the
    check. \<open>Auth\<close> (\<open>auth/\<close>, \<open>app/api/v1/auth.py\<close>, \<open>api_keys.py\<close>,
    \<open>dependencies.py\<close>): account invariant (C18), single-use resets (C19),
    revoked keys (C20), login round trip (C21). \<open>Gateway\<close>
    (\<open>gateway/middleware.py\<close>): the whole dispatch (C22).
  \<^item> \<open>Alerting\<close> (\<open>alerting/\<close>, the alert tables of \<open>db/repository.py\<close>, \<open>alert_evaluation_job.py\<close>): a cycle refines
    a step on violation counters (C16), one notification per streak (C17),
    and burn rates. The listing of open incidents stops at fifty rows, which is a hypothesis where
    it matters.
  \<^item> \<open>Scaling\<close> (\<open>workers/scaling_policy.py\<close>, \<open>scaling_telemetry_job.py\<close>): the one-pass detector equals the
    definition of a sustained run (C23). \<open>Evaluation\<close> (\<open>eval/\<close>): the question sync as a merge, the regression policy.
  \<^item> \<open>Trace\<close> (\<open>orchestrator/explainability\<close>): well-formed graphs (C24). This theory joins
    \<open>Graph\<close>, \<open>Investigations\<close> and \<open>Trace\<close>: a finished run is explained as it ran (C4).

  \<^bold>\<open>Interfaces.\<close> Where a component relies on another, the contract is a locale, interpreted on the model:
  \<open>kv_map\<close> (dictionaries), \<open>rounding\<close> (\<open>fl64\<close>), \<open>matcher\<close> (citations), \<open>domain_directory\<close> (the registry),
  \<open>incident_repository\<close> (alert tables), \<open>rate_limiter\<close> (Redis and the stub), \<open>auth_providers\<close> (the chain of the
  gateway), \<open>invariant_system\<close> and \<open>ordered_system\<close> (graph runs, circuits, accounts, ownership of
  investigations, calibrated parameters, ingested events, backups), \<open>backup_storage\<close> (files of backups),
  \<open>loop_resource\<close> (database sessions, Redis and HTTP client), \<open>simulation_model\<close> (the four hazard models, for the agent).

  \<^bold>\<open>Not modelled.\<close> The command line client and the web interface (no logic of their own); the generated endpoints the client
  library does not use; logging and metric lines in logs; migrations, maintenance scripts, the object store for backups, deployment (I/O, third-party
  clients and SQL text); pydantic coercions beyond those that decide a branch;
  prompts; waiting times; the remaining administration routes.
\<close>

section \<open>From a finished run to its explanation\<close>

text \<open>What the explainability endpoint shows of the columns that the finalize node stores.\<close>

lemma step_kinds:
  "classify_node (JStr ''supervisor'') = (''Supervisor Planner'', PLANNING, ''supervisor'', [])"
  "classify_node (JStr ''fan_out'') = (''Parallel Fan-Out Coordinator'', AGENT_STARTED, ''fan_out'', [])"
  "classify_node (JStr ''simulation'') = (''Plume & Transport Simulation Agent'', AGENT_STARTED, ''simulation'', [])"
  "classify_node (JStr ''synthesis'') = (''Cross-Domain Synthesis'', SYNTHESIZING, ''synthesis'', [])"
  "classify_node (JStr ''critic'') = (''Critic Claim Verification'', CRITIC_FLAG, ''critic'', [])"
  "classify_node (JStr ''replan'') = (''Targeted Replan Pass'', REPLANNING, ''replan'', [])"
  "classify_node (JStr ''finalize'') = (''Final Answer Synthesis & Persistence'', FINALIZE, ''finalize'', [])"
  by code_simp+

text \<open>The kind and status that the explanation shows for each step of a run.\<close>

definition shown_steps :: "task_graph_state \<Rightarrow> (string \<times> string) list" where
  "shown_steps st =
     [(PLANNING, ''completed''), (AGENT_STARTED, ''completed'')] @
     (if needs_simulation st then [(AGENT_STARTED, ''completed'')] else []) @
     [(SYNTHESIZING, ''completed''), (CRITIC_FLAG, if critic_flags st = [] then ''completed'' else ''flagged'')] @
     (if task_graph_state.replan_count st > 0 then [(REPLANNING, ''completed'')] else []) @
     [(FINALIZE, ''completed'')]"

lemma finalize_row:
  "finalize_node db st = (evs, Inr (st', row)) \<Longrightarrow> \<exists>outs. row = completion_of st outs"
  by (auto simp: finalize_node_def split: sum.splits option.splits)

lemma stored_trace_read:
  fixes st outs numeric now iv
  defines "t \<equiv> read_trace (stored_completion numeric now (completion_of st outs) iv)"
  shows "ti_status t = ''complete''" "ti_executed t = map JStr (nodes_executed st)" "ti_collab t = []"
    "ti_degraded t = []" "ti_domains t = JNull" "ti_extra t = []"
    "ti_replans t = JInt (task_graph_state.replan_count st)"
    "ti_evidence t = JInt (cp_evidence_count (completion_of st outs))"
    "length (ti_flags t) = length (critic_flags st)"
  unfolding t_def
  by (simp_all add: read_trace_def stored_completion_def set_status_def completion_trace_def
      completion_of_def Let_def obj_get_def json_or_def as_list_def as_strings_def count_field_def as_count_def
      dict_get_or_def reserved_keys_def)

text \<open>Without degraded sources and failures, a step shows its kind, and a critic with flags is flagged.\<close>

definition shown :: "trace_input \<Rightarrow> json \<Rightarrow> string \<times> string" where
  "shown t item = (fst (snd (classify_node item)),
     if json_str item = ''critic'' \<and> ti_flags t \<noteq> [] then ''flagged'' else ''completed'')"

lemma executed_shown:
  assumes "ti_status t = ''complete''" "ti_degraded t = []"
  shows "map (\<lambda>n. (tn_type n, tn_status n)) (fst (executed_from t i prev items)) = map (shown t) items"
proof -
  have one: "(tn_type (executed_node t k x), tn_status (executed_node t k x)) = shown t x" for k x
    using assms by (auto simp: executed_node_def shown_def step_status_def Let_def split: prod.splits if_splits)
  show ?thesis
  proof (induction items arbitrary: i prev)
    case (Cons x xs)
    have "fst (executed_from t i prev (x # xs)) =
        executed_node t i x # fst (executed_from t (i + 1) (Some (tn_id (executed_node t i x))) xs)"
      by (simp add: Let_def split: prod.splits)
    then show ?case using Cons.IH one by simp
  qed simp
qed



end
